(* ===== verification/Prelude.thy ===== *)
theory Prelude
  imports Complex_Main "HOL-Library.Word" "HOL-Library.List_Lexorder" "HOL-Library.Multiset"
    "HOL-Library.Product_Lexorder"
begin

text \<open>
  Shared ground of the development: Python's text, dates and identifiers as HOL types, errors as
  values, and the generic lemmas on results, maps and ranked lists that the component theories use.

  Text is a list of Unicode code points (\<open>pystr\<close>), so that lengths, white space and the
  code-point order of \<open>sorted\<close> are those of Python's \<open>str\<close>. Messages of exceptions are
  ASCII and are HOL strings.
\<close>

section \<open>Errors as values\<close>

datatype py_error =
    ValueError string
  | TypeError string
  | KeyError string
  | StopIteration
  | AssertionError
  | DecimalOverflow
  | DomainError string
  | DbError string string

text \<open>A result is \<open>Inl\<close> of the exception that escapes or \<open>Inr\<close> of the value returned.\<close>

type_synonym 'a result = "py_error + 'a"

named_theorems result_simps \<open>evaluation of the result combinators\<close>

fun bind_result :: "'a result \<Rightarrow> ('a \<Rightarrow> 'b result) \<Rightarrow> 'b result" where
  "bind_result (Inl e) f = Inl e"
| "bind_result (Inr x) f = f x"

definition check :: "bool \<Rightarrow> string \<Rightarrow> unit result" where
  "check ok msg = (if ok then Inr () else Inl (ValueError msg))"

fun all_checks :: "unit result list \<Rightarrow> unit result" where
  "all_checks [] = Inr ()"
| "all_checks (c # cs) = (case c of Inl e \<Rightarrow> Inl e | Inr _ \<Rightarrow> all_checks cs)"

definition after_checks :: "unit result list \<Rightarrow> 'a result \<Rightarrow> 'a result" where
  "after_checks cs r = (case all_checks cs of Inl e \<Rightarrow> Inl e | Inr _ \<Rightarrow> r)"

fun map_result :: "('a \<Rightarrow> 'b result) \<Rightarrow> 'a list \<Rightarrow> 'b list result" where
  "map_result f [] = Inr []"
| "map_result f (x # xs) = bind_result (f x) (\<lambda>y. bind_result (map_result f xs) (\<lambda>ys. Inr (y # ys)))"

definition is_ok :: "'a result \<Rightarrow> bool" where
  "is_ok r = (case r of Inl _ \<Rightarrow> False | Inr _ \<Rightarrow> True)"

lemma is_ok_simps [simp, result_simps]: "is_ok (Inr x)" "\<not> is_ok (Inl e)"
  by (simp_all add: is_ok_def)

lemma is_ok_iff: "is_ok r \<longleftrightarrow> (\<exists>x. r = Inr x)"
  by (cases r) auto

lemma bind_result_ok [simp]: "bind_result r f = Inr y \<longleftrightarrow> (\<exists>x. r = Inr x \<and> f x = Inr y)"
  by (cases r) auto

lemma check_ok [simp, result_simps]: "check ok msg = Inr u \<longleftrightarrow> ok"
  by (simp add: check_def)

lemma check_error [simp, result_simps]: "check ok msg = Inl e \<longleftrightarrow> \<not> ok \<and> e = ValueError msg"
  by (auto simp: check_def)

lemma check_cases [result_simps]:
  "check True msg = Inr ()" "check False msg = Inl (ValueError msg)"
  by (simp_all add: check_def)

lemma is_ok_check [simp, result_simps]: "is_ok (check ok msg) = ok"
  by (simp add: check_def)

lemma is_ok_all_checks [simp, result_simps]: "is_ok (all_checks cs) = list_all is_ok cs"
  by (induction cs) (auto split: sum.splits)

lemma all_checks_ok: "all_checks cs = Inr u \<longleftrightarrow> list_all is_ok cs"
  by (induction cs) (auto split: sum.splits)

lemma after_checks_ok [simp]:
  "after_checks cs r = Inr x \<longleftrightarrow> list_all is_ok cs \<and> r = Inr x"
  by (auto simp: after_checks_def all_checks_ok split: sum.splits)
     (metis all_checks_ok old.sum.distinct(1))

lemma after_checks_pass [result_simps]: "list_all is_ok cs \<Longrightarrow> after_checks cs r = r"
proof -
  assume "list_all is_ok cs"
  then have "all_checks cs = Inr ()" by (simp add: all_checks_ok)
  then show ?thesis by (simp add: after_checks_def)
qed

declare all_checks.simps [simp del, result_simps]
declare all_checks_ok [simp]

lemma after_checks_first_error [result_simps]:
  "after_checks cs r = (case all_checks cs of Inl e \<Rightarrow> Inl e | Inr _ \<Rightarrow> r)"
  by (simp add: after_checks_def)

lemma map_result_ok:
  "map_result f xs = Inr ys \<longleftrightarrow> list_all2 (\<lambda>x y. f x = Inr y) xs ys"
  by (induction xs arbitrary: ys) (auto simp: list_all2_Cons1)

lemma map_result_total:
  "(\<And>x. x \<in> set xs \<Longrightarrow> is_ok (f x)) \<Longrightarrow> is_ok (map_result f xs)"
proof (induction xs)
  case Nil
  then show ?case by simp
next
  case (Cons x xs)
  then obtain y ys where "f x = Inr y" "map_result f xs = Inr ys"
    by (fastforce simp: is_ok_iff)
  then show ?case by simp
qed

section \<open>Python text\<close>

type_synonym pystr = "nat list"

definition lit :: "string \<Rightarrow> pystr" where
  "lit s = map of_char s"

lemma lit_eq [simp]: "lit s = lit t \<longleftrightarrow> s = t"
  by (simp add: lit_def inj_on_def map_eq_imp_length_eq inj_map_eq_map inj_def)

lemma lit_Nil [simp]: "lit s = [] \<longleftrightarrow> s = []" "[] = lit s \<longleftrightarrow> s = []"
  by (auto simp: lit_def)

text \<open>\<open>str.isspace\<close> of one code point, as \<open>str.strip\<close> uses it.\<close>

definition py_isspace :: "nat \<Rightarrow> bool" where
  "py_isspace c \<longleftrightarrow> (9 \<le> c \<and> c \<le> 13) \<or> (28 \<le> c \<and> c \<le> 32) \<or> c = 133 \<or> c = 160 \<or> c = 5760
     \<or> (8192 \<le> c \<and> c \<le> 8202) \<or> c = 8232 \<or> c = 8233 \<or> c = 8239 \<or> c = 8287 \<or> c = 12288"

definition py_lstrip :: "pystr \<Rightarrow> pystr" where
  "py_lstrip s = dropWhile py_isspace s"

definition py_strip :: "pystr \<Rightarrow> pystr" where
  "py_strip s = rev (dropWhile py_isspace (rev (py_lstrip s)))"

definition non_blank :: "pystr \<Rightarrow> bool" where
  "non_blank s \<longleftrightarrow> py_strip s \<noteq> []"

lemma non_blank_iff: "non_blank s \<longleftrightarrow> (\<exists>c \<in> set s. \<not> py_isspace c)"
proof -
  have "(\<forall>c \<in> set (dropWhile py_isspace s). py_isspace c) \<longleftrightarrow> (\<forall>c \<in> set s. py_isspace c)"
    by (induction s) auto
  then show ?thesis
    by (auto simp: non_blank_def py_strip_def py_lstrip_def dropWhile_eq_Nil_conv)
qed

lemma non_blank_not_empty: "non_blank s \<Longrightarrow> s \<noteq> []"
  by (auto simp: non_blank_iff)

definition join_with :: "pystr \<Rightarrow> pystr list \<Rightarrow> pystr" where
  "join_with sep xs = concat (case xs of [] \<Rightarrow> [] | y # ys \<Rightarrow> y # map (\<lambda>z. sep @ z) ys)"

fun dec_digits :: "nat \<Rightarrow> pystr" where
  "dec_digits n = (if n < 10 then [48 + n] else dec_digits (n div 10) @ [48 + n mod 10])"

declare dec_digits.simps [simp del]

definition zfill :: "nat \<Rightarrow> pystr \<Rightarrow> pystr" where
  "zfill w s = replicate (w - length s) 48 @ s"

lemma dec_digits_not_empty [simp]: "dec_digits n \<noteq> []"
  by (subst dec_digits.simps) simp

lemma dec_digits_eval [simp]:
  "dec_digits 0 = [48]" "dec_digits 1 = [49]" "dec_digits (Suc 0) = [49]"
  "dec_digits (numeral k) =
     (if numeral k < (10::nat) then [48 + numeral k]
      else dec_digits (numeral k div 10) @ [48 + numeral k mod 10])"
  by (simp_all add: dec_digits.simps)

lemma dec_digits_range: "c \<in> set (dec_digits n) \<Longrightarrow> 48 \<le> c \<and> c \<le> 57"
proof (induction n rule: dec_digits.induct)
  case (1 n)
  then show ?case by (cases "n < 10") (auto simp: dec_digits.simps [of n])
qed

section \<open>Dates and identifiers\<close>

text \<open>
  \<open>datetime.date\<close>: year, month and day, ordered lexicographically as Python compares them.
\<close>

datatype date = Date nat nat nat

instantiation date :: linorder
begin

fun less_eq_date :: "date \<Rightarrow> date \<Rightarrow> bool" where
  "less_eq_date (Date y m d) (Date y' m' d') \<longleftrightarrow>
     y < y' \<or> (y = y' \<and> (m < m' \<or> (m = m' \<and> d \<le> d')))"

definition less_date :: "date \<Rightarrow> date \<Rightarrow> bool" where
  "less_date a b \<longleftrightarrow> a \<le> b \<and> \<not> b \<le> a"

instance
proof
  fix x y z :: date
  show "(x < y) = (x \<le> y \<and> \<not> y \<le> x)" by (simp add: less_date_def)
  show "x \<le> x" by (cases x) simp
  show "x \<le> y \<Longrightarrow> y \<le> z \<Longrightarrow> x \<le> z" by (cases x; cases y; cases z) auto
  show "x \<le> y \<Longrightarrow> y \<le> x \<Longrightarrow> x = y" by (cases x; cases y) auto
  show "x \<le> y \<or> y \<le> x" by (cases x; cases y) auto
qed

end

definition isoformat :: "date \<Rightarrow> pystr" where
  "isoformat dt = (case dt of Date y m d \<Rightarrow>
     zfill 4 (dec_digits y) @ lit ''-'' @ zfill 2 (dec_digits m) @ lit ''-'' @ zfill 2 (dec_digits d))"

text \<open>
  \<open>uuid.UUID\<close>: the 128-bit value. \<open>UUID.bytes\<close> is its big-endian encoding, so sorting by
  \<open>bytes\<close> is sorting by the unsigned value.
\<close>

type_synonym uuid = "128 word"

text \<open>\<open>tuple(sorted(set(xs), key=bytes))\<close>.\<close>

definition canonical_ids :: "'a::linorder list \<Rightarrow> 'a list" where
  "canonical_ids xs = sort (remdups xs)"

lemma set_canonical_ids [simp]: "set (canonical_ids xs) = set xs"
  by (simp add: canonical_ids_def)

lemma sorted_canonical_ids [simp]: "sorted (canonical_ids xs)" "distinct (canonical_ids xs)"
  by (simp_all add: canonical_ids_def)

lemma canonical_ids_eq: "set xs = set ys \<Longrightarrow> canonical_ids xs = canonical_ids ys"
  by (rule sorted_distinct_set_unique) simp_all

lemma canonical_ids_fixed: "canonical_ids xs = xs \<longleftrightarrow> sorted xs \<and> distinct xs"
proof
  assume "canonical_ids xs = xs"
  then show "sorted xs \<and> distinct xs"
    using sorted_canonical_ids [of xs] by simp
next
  assume "sorted xs \<and> distinct xs"
  then show "canonical_ids xs = xs"
    by (simp add: canonical_ids_def distinct_remdups_id sorted_sort_id)
qed

lemma canonical_ids_idem [simp]: "canonical_ids (canonical_ids xs) = canonical_ids xs"
  by (simp add: canonical_ids_fixed)

section \<open>Ordered duplicates\<close>

text \<open>\<open>tuple(dict.fromkeys(xs))\<close>: the first occurrence of each value, in order.\<close>

fun dict_fromkeys :: "'a list \<Rightarrow> 'a list" where
  "dict_fromkeys [] = []"
| "dict_fromkeys (x # xs) = x # filter (\<lambda>y. y \<noteq> x) (dict_fromkeys xs)"

lemma set_dict_fromkeys [simp]: "set (dict_fromkeys xs) = set xs"
  by (induction xs) auto

lemma distinct_dict_fromkeys [simp]: "distinct (dict_fromkeys xs)"
  by (induction xs) auto

lemma dict_fromkeys_Nil [simp]: "dict_fromkeys xs = [] \<longleftrightarrow> xs = []"
  by (cases xs) auto

section \<open>Ranked output\<close>

text \<open>
  Several components return their results ranked by a sort key that identifies the element. The
  ranking is then a function of the set of elements: the order in which they were supplied, and
  so the order of a database scan, does not matter.
\<close>

locale ranking =
  fixes key :: "'a \<Rightarrow> 'k::linorder" and ident :: "'a \<Rightarrow> 'i"
  assumes key_identifies: "key x = key y \<Longrightarrow> ident x = ident y"
begin

lemma key_inj_on: "distinct (map ident xs) \<Longrightarrow> inj_on key (set xs)"
  by (auto simp: inj_on_def distinct_map dest: key_identifies)

lemma rank_order_independent:
  assumes "distinct (map ident xs)" and "mset xs = mset ys"
  shows "sort_key key xs = sort_key key ys"
proof (rule sort_key_inj_key_eq [where f = key])
  show "mset xs = mset (sort_key key ys)" by (simp add: assms(2))
  show "inj_on key (set xs)" using assms(1) by (rule key_inj_on)
  show "sorted (map key (sort_key key ys))" by simp
qed

lemma rank_strict:
  assumes "distinct (map ident xs)"
  shows "sorted_wrt (\<lambda>x y. key x < key y) (sort_key key xs)"
proof -
  have "distinct (map key (sort_key key xs))"
    using key_inj_on [OF assms] assms
    by (simp add: distinct_map)
  moreover have "sorted (map key (sort_key key xs))" by simp
  ultimately have "sorted_wrt (<) (map key (sort_key key xs))"
    by (simp add: strict_sorted_iff)
  then show ?thesis by (simp add: sorted_wrt_map)
qed

end

section \<open>Bounded and versioned processes\<close>

text \<open>A process whose every step uses up some of a finite budget stops within it.\<close>

locale ranked_process =
  fixes step :: "'s \<Rightarrow> 's \<Rightarrow> bool" and rank :: "'s \<Rightarrow> nat"
  assumes decreases: "step s t \<Longrightarrow> rank t < rank s"
begin

lemma run_bound: "(step ^^ n) s t \<Longrightarrow> n + rank t \<le> rank s"
proof (induction n arbitrary: t)
  case 0
  then show ?case by simp
next
  case (Suc n)
  then obtain u where "(step ^^ n) s u" "step u t" by auto
  then show ?case using Suc.IH [of u] decreases [of u t] by simp
qed

lemma no_infinite_run: "\<not> (\<forall>i. step (f i) (f (Suc i)))"
proof
  assume run: "\<forall>i. step (f i) (f (Suc i))"
  have "(step ^^ n) (f 0) (f n)" for n
    by (induction n) (use run in auto)
  from run_bound [OF this [of "Suc (rank (f 0))"]] show False by simp
qed

end

text \<open>Rows whose every change raises their version: a version read before a change never returns.\<close>

locale versioned_rows =
  fixes change :: "'s \<Rightarrow> 's \<Rightarrow> bool" and version :: "'s \<Rightarrow> int"
  assumes advances: "change s t \<Longrightarrow> version s < version t"
begin

lemma version_mono: "change\<^sup>*\<^sup>* s t \<Longrightarrow> version s \<le> version t"
  by (induction rule: rtranclp_induct) (auto dest: advances)

lemma version_gone: "change s t \<Longrightarrow> change\<^sup>*\<^sup>* t u \<Longrightarrow> v \<le> version s \<Longrightarrow> version u \<noteq> v"
  using advances version_mono by fastforce

end

end
