(* ===== verification/SqlLogic.thy ===== *)
theory SqlLogic
  imports Prelude
begin

text \<open>
  SQL's three-valued logic, as the constraint and trigger conditions of the database use it. A
  condition is true, false or unknown (\<open>None\<close>); a nullable column is an option. An \<open>IF\<close> takes
  its branch only when the condition is true; a \<open>CHECK\<close> rejects a row only when it is false.
\<close>

type_synonym sql_bool = "bool option"

abbreviation known :: "bool \<Rightarrow> sql_bool" where "known \<equiv> Some"

definition holds :: "sql_bool \<Rightarrow> bool" where "holds c \<longleftrightarrow> c = Some True"
definition refuted :: "sql_bool \<Rightarrow> bool" where "refuted c \<longleftrightarrow> c = Some False"
definition check_passes :: "sql_bool \<Rightarrow> bool" where "check_passes c \<longleftrightarrow> \<not> refuted c"

definition sql_not :: "sql_bool \<Rightarrow> sql_bool" where "sql_not c = map_option Not c"

definition sql_all :: "sql_bool list \<Rightarrow> sql_bool" where
  "sql_all cs = (if list_ex refuted cs then Some False
                 else if list_all holds cs then Some True else None)"

definition sql_any :: "sql_bool list \<Rightarrow> sql_bool" where
  "sql_any cs = (if list_ex holds cs then Some True
                 else if list_all refuted cs then Some False else None)"

text \<open>A comparison with a null operand is unknown.\<close>

definition sql_cmp :: "('a \<Rightarrow> 'a \<Rightarrow> bool) \<Rightarrow> 'a option \<Rightarrow> 'a option \<Rightarrow> sql_bool" where
  "sql_cmp f x y = (case (x, y) of (Some a, Some b) \<Rightarrow> Some (f a b) | _ \<Rightarrow> None)"

abbreviation sql_eq :: "'a option \<Rightarrow> 'a option \<Rightarrow> sql_bool" where "sql_eq \<equiv> sql_cmp (=)"
abbreviation sql_neq :: "'a option \<Rightarrow> 'a option \<Rightarrow> sql_bool" where "sql_neq \<equiv> sql_cmp (\<noteq>)"

abbreviation sql_less :: "'a::ord option \<Rightarrow> 'a option \<Rightarrow> sql_bool" where
  "sql_less \<equiv> sql_cmp (<)"

abbreviation sql_le :: "'a::ord option \<Rightarrow> 'a option \<Rightarrow> sql_bool" where
  "sql_le \<equiv> sql_cmp (\<le>)"

definition sql_in :: "'a option \<Rightarrow> 'a list \<Rightarrow> sql_bool" where
  "sql_in x vs = map_option (\<lambda>v. v \<in> set vs) x"

abbreviation is_null :: "'a option \<Rightarrow> sql_bool" where "is_null x \<equiv> known (x = None)"
abbreviation is_not_null :: "'a option \<Rightarrow> sql_bool" where "is_not_null x \<equiv> known (x \<noteq> None)"

text \<open>\<open>IS DISTINCT FROM\<close> and \<open>IS NOT DISTINCT FROM\<close> treat null as a value.\<close>

abbreviation distinct_from :: "'a option \<Rightarrow> 'a option \<Rightarrow> sql_bool" where
  "distinct_from x y \<equiv> known (x \<noteq> y)"

abbreviation not_distinct_from :: "'a option \<Rightarrow> 'a option \<Rightarrow> sql_bool" where
  "not_distinct_from x y \<equiv> known (x = y)"

lemma sql_known [simp]:
  "holds (known b) = b" "refuted (known b) = (\<not> b)" "check_passes (known b) = b"
  "\<not> holds None" "\<not> refuted None" "check_passes None"
  by (auto simp: holds_def refuted_def check_passes_def)

lemma holds_connectives [simp]:
  "holds (sql_all cs) = list_all holds cs" "holds (sql_any cs) = list_ex holds cs"
  "holds (sql_not c) = refuted c"
proof -
  have "\<not> (refuted c \<and> holds c)" for c by (simp add: refuted_def holds_def)
  then show "holds (sql_all cs) = list_all holds cs"
    by (auto simp: sql_all_def list_ex_iff list_all_iff holds_def)
  show "holds (sql_any cs) = list_ex holds cs" by (simp add: sql_any_def holds_def)
  show "holds (sql_not c) = refuted c" by (cases c) (simp_all add: sql_not_def holds_def refuted_def)
qed

lemma refuted_connectives [simp]:
  "refuted (sql_all cs) = list_ex refuted cs" "refuted (sql_any cs) = list_all refuted cs"
  "refuted (sql_not c) = holds c"
proof -
  have "\<not> (refuted c \<and> holds c)" for c by (simp add: refuted_def holds_def)
  then show "refuted (sql_any cs) = list_all refuted cs"
    by (auto simp: sql_any_def list_ex_iff list_all_iff refuted_def)
  show "refuted (sql_all cs) = list_ex refuted cs" by (simp add: sql_all_def refuted_def)
  show "refuted (sql_not c) = holds c" by (cases c) (simp_all add: sql_not_def holds_def refuted_def)
qed

lemma not_holds_any:
  "\<not> holds (sql_any (c # cs)) \<longleftrightarrow> \<not> holds c \<and> \<not> holds (sql_any cs)" "\<not> holds (sql_any [])"
  by simp_all

lemma check_passes_iff: "check_passes c \<longleftrightarrow> \<not> refuted c"
  by (simp add: check_passes_def)

lemma sql_cmp_simps [simp]:
  "sql_cmp f None y = None" "sql_cmp f x None = None" "sql_cmp f (Some a) (Some b) = Some (f a b)"
  by (simp_all add: sql_cmp_def split: option.split)

lemma sql_in_simps [simp]: "sql_in None vs = None" "sql_in (Some v) vs = Some (v \<in> set vs)"
  by (simp_all add: sql_in_def)

lemma holds_cmp: "holds (sql_cmp f x y) \<longleftrightarrow> (\<exists>a b. x = Some a \<and> y = Some b \<and> f a b)"
  by (cases x; cases y) auto

lemma refuted_cmp: "refuted (sql_cmp f x y) \<longleftrightarrow> (\<exists>a b. x = Some a \<and> y = Some b \<and> \<not> f a b)"
  by (cases x; cases y) auto

lemma holds_in: "holds (sql_in x vs) \<longleftrightarrow> (\<exists>v. x = Some v \<and> v \<in> set vs)"
  by (cases x) auto

lemma refuted_in: "refuted (sql_in x vs) \<longleftrightarrow> (\<exists>v. x = Some v \<and> v \<notin> set vs)"
  by (cases x) auto

lemmas sql_truth = holds_cmp refuted_cmp holds_in refuted_in check_passes_iff

end
