(* ===== verification/JobTables.thy ===== *)
theory JobTables
  imports SqlLogic
begin

text \<open>
  The tables of the job runtime and what the database enforces on them, translated from
  \<open>alembic/versions/20260807_007_create_reliability_core.py\<close>: the rows of \<open>async_jobs\<close> and
  \<open>async_job_steps\<close>, their \<open>CHECK\<close> constraints, the row triggers that admit or rewrite an
  update, and the deferred trigger that compares a job with its steps at commit. Times are
  microseconds; every trigger call reads the clock itself and gets that reading as an argument, like
  the owner token that \<open>gen_random_uuid()\<close> draws.
\<close>

type_synonym time = int

definition seconds :: "int \<Rightarrow> time" where "seconds n = n * 1000000"

definition lease_length :: time where "lease_length = seconds 60"
definition recovery_grace :: time where "recovery_grace = seconds 15"

lemma lease_times [simp]: "0 < lease_length" "0 < recovery_grace"
  by (simp_all add: lease_length_def recovery_grace_def seconds_def)

definition plus_interval :: "time option \<Rightarrow> time \<Rightarrow> time option" where
  "plus_interval x d = map_option (\<lambda>t. t + d) x"

lemma plus_interval_simps [simp]:
  "plus_interval None d = None" "plus_interval (Some t) d = Some (t + d)"
  by (simp_all add: plus_interval_def)

section \<open>Rows\<close>

datatype job_status = QUEUED | RUNNING | CANCEL_REQUESTED | SUCCEEDED | FAILED | CANCELLED

datatype step_status = STEP_RUNNING | STEP_SUCCEEDED | STEP_FAILED | STEP_CANCELLED | STEP_SKIPPED

text \<open>
  A \<open>jsonb\<close> object: its members in the stored order of the keys, each key once. Text in ASCII is
  \<open>JText\<close>, text with any other character \<open>JUnicode\<close>; a nested value or a number with a fraction
  keeps its canonical text. Two objects are equal when they have the same members.
\<close>

datatype json_value = JText string | JUnicode "nat list" | JNull | JBool bool | JInt int | JOther string

type_synonym json_object = "(string \<times> json_value) list"

definition json_eq :: "json_object \<Rightarrow> json_object \<Rightarrow> bool" where
  "json_eq a b \<longleftrightarrow> set a = set b"

definition json_get :: "json_object \<Rightarrow> string \<Rightarrow> json_value option" where
  "json_get a k = map_of a k"

text \<open>\<open>str(uuid)\<close>, the canonical text of an identifier.\<close>

definition hex_digit :: "nat \<Rightarrow> char" where
  "hex_digit n = char_of (if n < 10 then 48 + n else 87 + n)"

definition uuid_text :: "uuid \<Rightarrow> string" where
  "uuid_text u =
     (let ds = map (\<lambda>i. hex_digit (unat u div 16 ^ (31 - i) mod 16)) [0..<32];
          part = (\<lambda>i n. take n (drop i ds))
      in part 0 8 @ ''-'' @ part 8 4 @ ''-'' @ part 12 4 @ ''-'' @ part 16 4 @ ''-'' @ part 20 12)"

text \<open>The columns of a job that no update may change.\<close>

record job_identity =
  job_id :: uuid
  job_organization_id :: uuid
  job_type :: string
  resource_type :: string
  resource_id :: uuid
  max_attempts :: int
  input_hash :: string
  input_json :: json_object
  input_schema_version :: int
  idempotency_record_id :: "uuid option"
  handler_registry_version :: string
  handler_registry_hash :: string
  retry_policy_version :: string
  retry_policy_hash :: string
  lease_policy_version :: string
  lease_policy_hash :: string
  job_trace_id :: uuid
  job_created_by :: "uuid option"
  job_created_at :: time

record job =
  fixed :: job_identity
  status :: job_status
  stage :: "string option"
  attempt_no :: int
  start_step_code :: string
  next_retry_at :: "time option"
  worker_id :: "string option"
  started_at :: "time option"
  finished_at :: "time option"
  error_code :: "string option"
  error_message :: "string option"
  lease_owner :: "string option"
  lease_expires_at :: "time option"
  heartbeat_at :: "time option"
  row_version :: int

record job_step =
  step_id :: uuid
  step_job_id :: uuid
  step_seq :: int
  step_code :: string
  step_status :: step_status
  step_attempt_no :: int
  step_started_at :: time
  step_finished_at :: "time option"
  step_summary :: string
  step_error_code :: "string option"
  step_trace_id :: uuid

abbreviation max_attempts_of :: "job \<Rightarrow> int" where "max_attempts_of j \<equiv> max_attempts (fixed j)"

definition db_error :: "string \<Rightarrow> 'a result" where
  "db_error msg = Inl (DbError ''23514'' msg)"

lemma db_error_simps [simp]: "db_error m \<noteq> Inr x" "Inr x \<noteq> db_error m" "\<not> is_ok (db_error m)"
  by (simp_all add: db_error_def)

definition transient_codes :: "string list" where
  "transient_codes = [''DATABASE_TRANSIENT'', ''DEPENDENCY_TIMEOUT'', ''DEPENDENCY_UNAVAILABLE'',
     ''RATE_LIMITED'', ''STORAGE_TRANSIENT'', ''WORKER_LOST'']"

definition dispatch_failure_codes :: "string list" where
  "dispatch_failure_codes = [''JOB_DISPATCH_FAILED'', ''JOB_DISPATCH_OUTCOME_UNKNOWN'']"

text \<open>\<open>btrim(w) = ''\<close> of a non-null text.\<close>

definition btrim_empty :: "string \<Rightarrow> bool" where
  "btrim_empty w = list_all (\<lambda>c. c = CHR '' '') w"

section \<open>CHECK constraints of \<open>async_jobs\<close>\<close>

definition attempt_bounds :: "job \<Rightarrow> sql_bool" where
  "attempt_bounds j = sql_all [known (max_attempts_of j \<ge> 1), known (attempt_no j \<ge> 0),
     known (attempt_no j \<le> max_attempts_of j)]"

definition no_lease :: "job \<Rightarrow> sql_bool" where
  "no_lease j = sql_all [is_null (worker_id j), is_null (lease_owner j),
     is_null (lease_expires_at j), is_null (heartbeat_at j)]"

definition queued_row :: "job \<Rightarrow> sql_bool" where
  "queued_row j = sql_all [known (status j = QUEUED), known (attempt_no j < max_attempts_of j),
     is_null (stage j), is_null (next_retry_at j), is_null (started_at j), is_null (finished_at j),
     is_null (error_code j), is_null (error_message j), no_lease j]"

definition active_row :: "job \<Rightarrow> sql_bool" where
  "active_row j = sql_all [known (status j \<in> {RUNNING, CANCEL_REQUESTED}), known (attempt_no j \<ge> 1),
     is_not_null (stage j), is_null (next_retry_at j), is_not_null (worker_id j),
     map_option (\<lambda>w. \<not> btrim_empty w) (worker_id j), is_not_null (started_at j),
     is_null (finished_at j), is_null (error_code j), is_null (error_message j),
     is_not_null (lease_owner j), is_not_null (lease_expires_at j), is_not_null (heartbeat_at j),
     sql_le (started_at j) (heartbeat_at j), sql_less (heartbeat_at j) (lease_expires_at j)]"

definition succeeded_row :: "job \<Rightarrow> sql_bool" where
  "succeeded_row j = sql_all [known (status j = SUCCEEDED), known (attempt_no j \<ge> 1),
     is_not_null (stage j), is_null (next_retry_at j), is_not_null (started_at j),
     is_not_null (finished_at j), sql_le (started_at j) (finished_at j), is_null (error_code j),
     is_null (error_message j), no_lease j]"

definition retry_fields :: "job \<Rightarrow> sql_bool" where
  "retry_fields j = sql_any
     [sql_all [sql_in (error_code j) transient_codes, known (attempt_no j < max_attempts_of j),
        sql_eq (next_retry_at j) (finished_at j)],
      sql_all [sql_any [sql_not (sql_in (error_code j) transient_codes),
          known (attempt_no j = max_attempts_of j)],
        is_null (next_retry_at j)]]"

definition failed_row :: "job \<Rightarrow> sql_bool" where
  "failed_row j = sql_all [known (status j = FAILED), is_not_null (finished_at j),
     is_not_null (error_code j), no_lease j,
     sql_any
       [sql_all [is_null (started_at j), is_null (stage j), is_null (next_retry_at j),
          sql_in (error_code j) dispatch_failure_codes],
        sql_all [known (attempt_no j \<ge> 1), is_not_null (started_at j), is_not_null (stage j),
          sql_le (started_at j) (finished_at j), retry_fields j]]]"

definition cancelled_row :: "job \<Rightarrow> sql_bool" where
  "cancelled_row j = sql_all [known (status j = CANCELLED), is_not_null (finished_at j),
     sql_eq (error_code j) (Some ''JOB_CANCELLED''), is_null (error_message j),
     is_null (next_retry_at j), no_lease j,
     sql_any
       [sql_all [is_null (started_at j), is_null (stage j)],
        sql_all [known (attempt_no j \<ge> 1), is_not_null (started_at j), is_not_null (stage j),
          sql_le (started_at j) (finished_at j)]]]"

definition job_state_matrix :: "job \<Rightarrow> sql_bool" where
  "job_state_matrix j = sql_any
     [queued_row j, active_row j, succeeded_row j, failed_row j, cancelled_row j]"

text \<open>
  The formats of the text columns, as the regular expressions of the constraints: a code, a hash, a
  version, an error code, and the canonical text of a random UUID. A null passes.
\<close>

definition char_in :: "(nat \<times> nat) list \<Rightarrow> string \<Rightarrow> char \<Rightarrow> bool" where
  "char_in ranges others ch \<longleftrightarrow> list_ex (\<lambda>(a, b). a \<le> of_char ch \<and> of_char ch \<le> b) ranges
     \<or> ch \<in> set others"

definition code_format :: "string \<Rightarrow> bool" where
  "code_format t \<longleftrightarrow> t \<noteq> [] \<and> char_in [(97, 122)] [] (hd t)
     \<and> list_all (char_in [(97, 122), (48, 57)] ''_'') (tl t)"

definition hash_format :: "string \<Rightarrow> bool" where
  "hash_format t \<longleftrightarrow> length t = 64 \<and> list_all (char_in [(48, 57), (97, 102)] []) t"

definition version_format :: "string \<Rightarrow> bool" where
  "version_format t \<longleftrightarrow> t \<noteq> [] \<and> char_in [(97, 122), (48, 57)] [] (hd t)
     \<and> list_all (char_in [(97, 122), (48, 57)] ''._-'') (tl t)"

definition error_format :: "string \<Rightarrow> bool" where
  "error_format t \<longleftrightarrow> t \<noteq> [] \<and> length t \<le> 80 \<and> char_in [(65, 90)] [] (hd t)
     \<and> list_all (char_in [(65, 90), (48, 57)] ''_'') (tl t)"

definition random_uuid_format :: "string \<Rightarrow> bool" where
  "random_uuid_format t \<longleftrightarrow> length t = 36 \<and> list_all (\<lambda>(i, ch).
     if i \<in> {8, 13, 18, 23} then ch = CHR ''-''
     else if i = 14 then ch = CHR ''4''
     else if i = 19 then ch \<in> set ''89ab''
     else char_in [(48, 57), (97, 102)] [] ch) (enumerate 0 t)"

lemma error_format_codes [simp]:
  "error_format ''JOB_DISPATCH_FAILED''" "error_format ''JOB_DISPATCH_OUTCOME_UNKNOWN''"
  "error_format ''LEASE_EXPIRED''" "error_format ''WORKER_LOST''" "error_format ''JOB_CANCELLED''"
  by (simp_all add: error_format_def char_in_def)

text \<open>A list of constraints with their names; the first that fails is reported.\<close>

definition first_violated :: "(bool \<times> string) list \<Rightarrow> unit result" where
  "first_violated cs = (case find (\<lambda>(passes, _). \<not> passes) cs of
     None \<Rightarrow> Inr () | Some (_, name) \<Rightarrow> db_error name)"

lemma first_violated_ok [simp]: "first_violated cs = Inr () \<longleftrightarrow> list_all fst cs"
  by (induction cs) (auto simp: first_violated_def)

definition job_formats :: "job \<Rightarrow> (bool \<times> string) list" where
  "job_formats j =
     [(check_passes (known (input_schema_version (fixed j) > 0)), ''input_schema_version_positive''),
      (code_format (job_type (fixed j)), ''job_type_format''),
      (code_format (start_step_code j), ''current_attempt_start_step_code_format''),
      (pred_option code_format (stage j), ''stage_format''),
      (hash_format (input_hash (fixed j)) \<and> hash_format (handler_registry_hash (fixed j))
         \<and> hash_format (retry_policy_hash (fixed j)) \<and> hash_format (lease_policy_hash (fixed j)),
       ''hashes_lower_hex''),
      (version_format (handler_registry_version (fixed j))
         \<and> version_format (retry_policy_version (fixed j))
         \<and> version_format (lease_policy_version (fixed j)), ''version_formats''),
      (pred_option random_uuid_format (lease_owner j), ''lease_owner_canonical_uuid_v4''),
      (pred_option error_format (error_code j), ''error_code_safe_format'')]"

text \<open>Only four of these columns ever change.\<close>

lemma job_formats_kept:
  assumes "list_all fst (job_formats j)" and "fixed j' = fixed j"
    and "start_step_code j' = start_step_code j" and "pred_option code_format (stage j')"
    and "pred_option random_uuid_format (lease_owner j')" and "pred_option error_format (error_code j')"
  shows "list_all fst (job_formats j')"
  using assms by (simp add: job_formats_def)

definition job_checks :: "job \<Rightarrow> unit result" where
  "job_checks j = first_violated
     ([(check_passes (attempt_bounds j), ''attempt_bounds''),
        (check_passes (known (row_version j > 0)), ''row_version_positive'')]
      @ job_formats j @ [(check_passes (job_state_matrix j), ''state_field_matrix'')])"

lemma job_checks_formats: "job_checks j = Inr () \<Longrightarrow> list_all fst (job_formats j)"
  by (simp add: job_checks_def)

section \<open>The row trigger of \<open>async_jobs\<close>\<close>

definition job_insert_trigger :: "job \<Rightarrow> job result" where
  "job_insert_trigger new =
     (if status new \<noteq> QUEUED \<or> attempt_no new \<noteq> 0 \<or> row_version new \<noteq> 1
      then db_error ''invalid initial async job state'' else Inr new)"

definition lease_policy_v1_hash :: string where
  "lease_policy_v1_hash = ''50a6acee62769713152039af330cc4a779cc758ea36b97102308b1bc08564d00''"

definition retry_policy_v1_hash :: string where
  "retry_policy_v1_hash = ''9cdb2a30bba1e39155adcb3bcb55fe6465811b63290d249ccbfac4f976cdbba7''"

definition supported_lease_policy :: "job \<Rightarrow> bool" where
  "supported_lease_policy j \<longleftrightarrow> lease_policy_version (fixed j) = ''job-lease-v1''
     \<and> lease_policy_hash (fixed j) = lease_policy_v1_hash"

definition supported_retry_policy :: "job \<Rightarrow> bool" where
  "supported_retry_policy j \<longleftrightarrow> retry_policy_version (fixed j) = ''job-retry-policy-v1''
     \<and> retry_policy_hash (fixed j) = retry_policy_v1_hash"

text \<open>The current time is at or past the lease plus the recovery grace; unknown without a lease.\<close>

definition past_grace :: "time \<Rightarrow> job \<Rightarrow> sql_bool" where
  "past_grace now j = sql_le (plus_interval (lease_expires_at j) recovery_grace) (Some now)"

definition before_expiry :: "time \<Rightarrow> job \<Rightarrow> sql_bool" where
  "before_expiry now j = sql_less (Some now) (lease_expires_at j)"

definition needs_lease_policy :: "time \<Rightarrow> job \<Rightarrow> job \<Rightarrow> sql_bool" where
  "needs_lease_policy now old new = sql_any
     [known (status old = QUEUED \<and> status new = RUNNING),
      known (status old = RUNNING \<and> status new = RUNNING),
      known (status old = CANCEL_REQUESTED \<and> status new = CANCEL_REQUESTED),
      sql_all [known (status old = RUNNING), known (status new = FAILED),
        sql_eq (error_code new) (Some ''WORKER_LOST''), past_grace now old],
      sql_all [known (status old = CANCEL_REQUESTED), known (status new = CANCELLED),
        past_grace now old]]"

definition blank_worker :: "job \<Rightarrow> sql_bool" where
  "blank_worker j = sql_any [is_null (worker_id j), map_option btrim_empty (worker_id j)]"

definition invalid_claim :: "job \<Rightarrow> job \<Rightarrow> sql_bool" where
  "invalid_claim old new = sql_any
     [known (attempt_no new \<noteq> attempt_no old + 1), known (attempt_no new > max_attempts_of new),
      known (start_step_code new \<noteq> start_step_code old),
      sql_neq (stage new) (Some (start_step_code old)), blank_worker new]"

definition invalid_queued_cancellation :: "time \<Rightarrow> job \<Rightarrow> job \<Rightarrow> sql_bool" where
  "invalid_queued_cancellation now old new = sql_any
     [known (attempt_no new \<noteq> attempt_no old), known (start_step_code new \<noteq> start_step_code old),
      sql_less (Some now) (finished_at new)]"

definition invalid_queued_failure :: "time \<Rightarrow> job \<Rightarrow> job \<Rightarrow> sql_bool" where
  "invalid_queued_failure now old new = sql_any
     [known (attempt_no new \<noteq> attempt_no old), known (start_step_code new \<noteq> start_step_code old),
      sql_less (Some now) (finished_at new),
      sql_not (sql_in (error_code new) dispatch_failure_codes)]"

definition invalid_active_update :: "time \<Rightarrow> job \<Rightarrow> job \<Rightarrow> sql_bool" where
  "invalid_active_update now old new = sql_any
     [sql_le (lease_expires_at old) (Some now), distinct_from (worker_id new) (worker_id old),
      distinct_from (lease_owner new) (lease_owner old),
      distinct_from (started_at new) (started_at old)]"

definition invalid_stage_time :: "time \<Rightarrow> job \<Rightarrow> job \<Rightarrow> sql_bool" where
  "invalid_stage_time now old new = sql_any
     [not_distinct_from (heartbeat_at new) (heartbeat_at old),
      not_distinct_from (lease_expires_at new) (lease_expires_at old),
      sql_less (Some now) (heartbeat_at new), sql_le (lease_expires_at old) (heartbeat_at new),
      distinct_from (lease_expires_at new) (plus_interval (heartbeat_at new) lease_length)]"

definition invalid_recovery :: "time \<Rightarrow> job \<Rightarrow> job \<Rightarrow> sql_bool" where
  "invalid_recovery now old new = sql_any
     [sql_less (Some now) (plus_interval (lease_expires_at old) recovery_grace),
      known (attempt_no old \<ge> max_attempts_of old),
      sql_neq (stage new) (Some (start_step_code old)), blank_worker new,
      distinct_from (started_at new) (heartbeat_at new),
      distinct_from (lease_expires_at new) (plus_interval (started_at new) lease_length),
      sql_less (started_at new) (plus_interval (lease_expires_at old) recovery_grace),
      sql_less (Some now) (started_at new)]"

definition invalid_cancel_request :: "job \<Rightarrow> job \<Rightarrow> sql_bool" where
  "invalid_cancel_request old new = sql_any
     [known (attempt_no new \<noteq> attempt_no old), known (start_step_code new \<noteq> start_step_code old),
      distinct_from (stage new) (stage old),
      known ((worker_id new, started_at new, lease_owner new, lease_expires_at new, heartbeat_at new)
        \<noteq> (worker_id old, started_at old, lease_owner old, lease_expires_at old, heartbeat_at old))]"

definition invalid_running_end :: "time \<Rightarrow> job \<Rightarrow> job \<Rightarrow> sql_bool" where
  "invalid_running_end now old new =
     (let worker_lost = sql_all [known (status new = FAILED),
            sql_eq (error_code new) (Some ''WORKER_LOST'')] in
      sql_any
        [known (attempt_no new \<noteq> attempt_no old), known (start_step_code new \<noteq> start_step_code old),
         distinct_from (stage new) (stage old), distinct_from (started_at new) (started_at old),
         sql_less (Some now) (finished_at new),
         sql_not (sql_any
           [sql_all [known (status new = FAILED), sql_eq (error_code new) (Some ''WORKER_LOST''),
              known (attempt_no old = max_attempts_of old), past_grace now old],
            sql_all [sql_not worker_lost, before_expiry now old]])])"

definition invalid_cancel_heartbeat :: "time \<Rightarrow> job \<Rightarrow> job \<Rightarrow> sql_bool" where
  "invalid_cancel_heartbeat now old new = sql_any
     [sql_le (lease_expires_at old) (Some now), known (attempt_no new \<noteq> attempt_no old),
      known (start_step_code new \<noteq> start_step_code old), distinct_from (stage new) (stage old),
      distinct_from (worker_id new) (worker_id old),
      distinct_from (lease_owner new) (lease_owner old),
      distinct_from (started_at new) (started_at old),
      sql_all [not_distinct_from (heartbeat_at new) (heartbeat_at old),
        not_distinct_from (lease_expires_at new) (lease_expires_at old)]]"

definition invalid_active_cancellation :: "time \<Rightarrow> job \<Rightarrow> job \<Rightarrow> sql_bool" where
  "invalid_active_cancellation now old new = sql_any
     [known (attempt_no new \<noteq> attempt_no old), known (start_step_code new \<noteq> start_step_code old),
      distinct_from (stage new) (stage old), distinct_from (started_at new) (started_at old),
      sql_less (Some now) (finished_at new),
      sql_not (sql_any [before_expiry now old, past_grace now old])]"

definition invalid_retry :: "time \<Rightarrow> job \<Rightarrow> job \<Rightarrow> sql_bool" where
  "invalid_retry now old new = sql_any
     [known (attempt_no new \<noteq> attempt_no old), is_null (started_at old),
      known (attempt_no old \<ge> max_attempts_of old), is_null (next_retry_at old),
      sql_less (Some now) (next_retry_at old),
      sql_not (sql_in (error_code old) transient_codes),
      known (\<not> supported_retry_policy old), known (\<not> supported_lease_policy old)]"

text \<open>A fresh lease of sixty seconds from the trigger's clock.\<close>

definition renew_lease :: "time \<Rightarrow> job \<Rightarrow> job" where
  "renew_lease now j = j\<lparr>heartbeat_at := Some now, lease_expires_at := Some (now + lease_length)\<rparr>"

definition claimed_lease :: "time \<Rightarrow> string \<Rightarrow> job \<Rightarrow> job" where
  "claimed_lease now owner j =
     renew_lease now (j\<lparr>lease_owner := Some owner, started_at := Some now\<rparr>)"

text \<open>The \<open>running \<rightarrow> running\<close> branch: a heartbeat, a stage transition or a lease recovery.\<close>

definition running_update :: "time \<Rightarrow> string \<Rightarrow> job \<Rightarrow> job \<Rightarrow> job result" where
  "running_update now owner old new =
     (if start_step_code new \<noteq> start_step_code old
      then db_error ''active async job start step cannot change''
      else if attempt_no new = attempt_no old
      then if holds (invalid_active_update now old new)
        then db_error ''invalid active async job update''
        else if stage new = stage old
        then if heartbeat_at new = heartbeat_at old \<and> lease_expires_at new = lease_expires_at old
          then db_error ''async job heartbeat must change lease time''
          else Inr (renew_lease now new)
        else if (heartbeat_at new \<noteq> heartbeat_at old \<or> lease_expires_at new \<noteq> lease_expires_at old)
            \<and> holds (invalid_stage_time now old new)
        then db_error ''invalid async job stage transition time''
        else Inr new
      else if attempt_no new = attempt_no old + 1
      then if holds (invalid_recovery now old new)
        then db_error ''invalid async job lease recovery''
        else Inr (new\<lparr>lease_owner := Some owner\<rparr>)
      else db_error ''invalid async job attempt change'')"

definition guarded :: "sql_bool \<Rightarrow> string \<Rightarrow> 'a \<Rightarrow> 'a result" where
  "guarded invalid msg x = (if holds invalid then db_error msg else Inr x)"

lemma guarded_ok [simp]: "guarded invalid msg x = Inr y \<longleftrightarrow> \<not> holds invalid \<and> y = x"
  by (auto simp: guarded_def)

text \<open>\<open>enforce_async_jobs_state_v1\<close> on an update.\<close>

definition job_update_trigger :: "time \<Rightarrow> string \<Rightarrow> job \<Rightarrow> job \<Rightarrow> job result" where
  "job_update_trigger now owner old new =
     (if fixed new \<noteq> fixed old then db_error ''immutable async job fields cannot change''
      else if row_version new \<noteq> row_version old + 1
      then db_error ''async job row_version must increase by exactly one''
      else if holds (sql_all [needs_lease_policy now old new, known (\<not> supported_lease_policy old)])
      then db_error ''unsupported async job lease policy''
      else case (status old, status new) of
        (QUEUED, RUNNING) \<Rightarrow>
          guarded (invalid_claim old new) ''invalid async job claim'' (claimed_lease now owner new)
      | (QUEUED, CANCELLED) \<Rightarrow>
          guarded (invalid_queued_cancellation now old new)
            ''invalid queued async job cancellation'' new
      | (QUEUED, FAILED) \<Rightarrow>
          guarded (invalid_queued_failure now old new) ''invalid pre-claim async job failure'' new
      | (RUNNING, RUNNING) \<Rightarrow> running_update now owner old new
      | (RUNNING, CANCEL_REQUESTED) \<Rightarrow>
          guarded (invalid_cancel_request old new)
            ''cancel request must preserve async job fencing'' new
      | (RUNNING, SUCCEEDED) \<Rightarrow>
          guarded (invalid_running_end now old new) ''invalid running async job transition'' new
      | (RUNNING, FAILED) \<Rightarrow>
          guarded (invalid_running_end now old new) ''invalid running async job transition'' new
      | (CANCEL_REQUESTED, CANCEL_REQUESTED) \<Rightarrow>
          guarded (invalid_cancel_heartbeat now old new) ''invalid cancel-requested heartbeat''
            (renew_lease now new)
      | (CANCEL_REQUESTED, CANCELLED) \<Rightarrow>
          guarded (invalid_active_cancellation now old new)
            ''invalid active async job cancellation'' new
      | (FAILED, QUEUED) \<Rightarrow>
          guarded (invalid_retry now old new) ''invalid async job retry transition'' new
      | _ \<Rightarrow> db_error ''invalid async job status transition'')"

text \<open>An update of a job row: the row trigger, then the constraints on the row it returns.\<close>

definition update_job :: "time \<Rightarrow> string \<Rightarrow> job \<Rightarrow> job \<Rightarrow> job result" where
  "update_job now owner old new =
     bind_result (job_update_trigger now owner old new)
       (\<lambda>row. bind_result (job_checks row) (\<lambda>_. Inr row))"

section \<open>Steps\<close>

definition step_state_matrix :: "job_step \<Rightarrow> sql_bool" where
  "step_state_matrix s =
     (let ended = [is_not_null (step_finished_at s), sql_le (Some (step_started_at s)) (step_finished_at s)]
      in sql_any
       [sql_all [known (step_status s = STEP_RUNNING), is_null (step_finished_at s),
          is_null (step_error_code s)],
        sql_all ([known (step_status s = STEP_SUCCEEDED)] @ ended @ [is_null (step_error_code s)]),
        sql_all ([known (step_status s = STEP_SKIPPED)] @ ended
          @ [sql_eq (step_error_code s) (Some ''STEP_SKIPPED'')]),
        sql_all ([known (step_status s = STEP_FAILED)] @ ended @ [is_not_null (step_error_code s)]),
        sql_all ([known (step_status s = STEP_CANCELLED)] @ ended
          @ [sql_eq (step_error_code s) (Some ''JOB_CANCELLED'')])])"

definition step_checks :: "job_step \<Rightarrow> unit result" where
  "step_checks s = first_violated
     [(check_passes (known (step_seq s > 0)), ''step_seq_positive''),
      (check_passes (known (step_attempt_no s > 0)), ''attempt_no_positive''),
      (code_format (step_code s), ''step_code_format''),
      (pred_option error_format (step_error_code s), ''error_code_safe_format''),
      (check_passes (step_state_matrix s), ''state_field_matrix'')]"

text \<open>The insert branch of \<open>enforce_async_job_steps_state_v1\<close>; \<open>j\<close> is the job row it reads.\<close>

definition step_insert_trigger :: "time \<Rightarrow> job \<Rightarrow> job_step \<Rightarrow> job_step result" where
  "step_insert_trigger now j new = guarded
     (sql_any
       [known (step_status new \<noteq> STEP_RUNNING), known (step_started_at new > now),
        sql_not (sql_any
          [sql_all [known (status j = RUNNING), known (step_attempt_no new = attempt_no j),
             sql_eq (Some (step_code new)) (stage j), before_expiry now j],
           sql_all [known (status j = QUEUED), known (step_attempt_no new = attempt_no j + 1),
             known (step_code new = start_step_code j)],
           sql_all [known (status j = RUNNING), known (attempt_no j < max_attempts_of j),
             known (step_attempt_no new = attempt_no j + 1),
             known (step_code new = start_step_code j), past_grace now j,
             sql_le (plus_interval (lease_expires_at j) recovery_grace)
               (Some (step_started_at new))]])])
     ''invalid initial async job step state'' new"

definition step_identity :: "job_step \<Rightarrow> uuid \<times> uuid \<times> int \<times> string \<times> int \<times> time \<times> uuid" where
  "step_identity s = (step_id s, step_job_id s, step_seq s, step_code s, step_attempt_no s,
     step_started_at s, step_trace_id s)"

definition recovery_terminal :: "job \<Rightarrow> job_step \<Rightarrow> sql_bool" where
  "recovery_terminal j new =
     (let late = sql_le (plus_interval (lease_expires_at j) recovery_grace) (step_finished_at new) in
      sql_any
       [sql_all [known (status j = RUNNING), known (attempt_no j < max_attempts_of j),
          known (step_status new = STEP_FAILED),
          sql_eq (step_error_code new) (Some ''LEASE_EXPIRED''), late],
        sql_all [known (status j = RUNNING), known (attempt_no j = max_attempts_of j),
          known (step_status new = STEP_FAILED),
          sql_eq (step_error_code new) (Some ''WORKER_LOST''), late],
        sql_all [known (status j = CANCEL_REQUESTED), known (step_status new = STEP_CANCELLED),
          sql_eq (step_error_code new) (Some ''JOB_CANCELLED''), late]])"

text \<open>The update branch: a running step ends once, inside the lease or as the recovery.\<close>

definition step_update_trigger :: "time \<Rightarrow> job \<Rightarrow> job_step \<Rightarrow> job_step \<Rightarrow> job_step result" where
  "step_update_trigger now j old new =
     (if step_status old \<noteq> STEP_RUNNING \<or> step_status new = STEP_RUNNING
      then db_error ''async job step can enter a terminal state only once''
      else if step_identity new \<noteq> step_identity old
      then db_error ''immutable async job step fields cannot change''
      else if holds (sql_any [known (step_job_id old \<noteq> job_id (fixed j)),
          known (step_attempt_no old \<noteq> attempt_no j), sql_neq (Some (step_code old)) (stage j),
          known (status j \<notin> {RUNNING, CANCEL_REQUESTED})])
      then db_error ''async job step is not the current fenced step''
      else if holds (sql_less (Some now) (step_finished_at new))
      then db_error ''async job step cannot finish in the future''
      else if holds (before_expiry now j)
      then guarded (sql_in (step_error_code new) [''LEASE_EXPIRED'', ''WORKER_LOST''])
             ''lease recovery error cannot be written before expiry'' new
      else if holds (sql_less (Some now) (plus_interval (lease_expires_at j) recovery_grace))
      then db_error ''async job step write is outside the lease boundary''
      else guarded (sql_not (recovery_terminal j new))
             ''invalid async job step lease recovery terminal'' new)"

definition update_step :: "time \<Rightarrow> job \<Rightarrow> job_step \<Rightarrow> job_step \<Rightarrow> job_step result" where
  "update_step now j old new =
     bind_result (step_update_trigger now j old new)
       (\<lambda>row. bind_result (step_checks row) (\<lambda>_. Inr row))"

section \<open>A job and its steps\<close>

record job_rows =
  the_job :: job
  the_steps :: "job_step list"

text \<open>The step rows of the job, and those of one attempt of it.\<close>

definition own_steps :: "job_rows \<Rightarrow> job_step list" where
  "own_steps rows = filter (\<lambda>s. step_job_id s = job_id (fixed (the_job rows))) (the_steps rows)"

definition attempt_steps :: "job_rows \<Rightarrow> int \<Rightarrow> job_step list" where
  "attempt_steps rows k = filter (\<lambda>s. step_attempt_no s = k) (own_steps rows)"

text \<open>\<open>ORDER BY step_seq ASC LIMIT 1\<close> and \<open>DESC LIMIT 1\<close>.\<close>

definition first_step :: "job_step list \<Rightarrow> job_step option" where
  "first_step ss = (if ss = [] then None else Some (arg_min_list step_seq ss))"

definition last_step :: "job_step list \<Rightarrow> job_step option" where
  "last_step ss = (if ss = [] then None else Some (arg_min_list (\<lambda>s. - step_seq s) ss))"

text \<open>The unique keys of \<open>async_job_steps\<close>: its id, its place in an attempt, and one running step per
  attempt.\<close>

definition step_key_taken :: "job_step list \<Rightarrow> job_step \<Rightarrow> bool" where
  "step_key_taken ss new = list_ex (\<lambda>s. step_id s = step_id new
     \<or> (step_job_id s, step_seq s, step_attempt_no s)
        = (step_job_id new, step_seq new, step_attempt_no new)
     \<or> (step_status s = STEP_RUNNING \<and> step_status new = STEP_RUNNING
        \<and> (step_job_id s, step_attempt_no s) = (step_job_id new, step_attempt_no new))) ss"

definition insert_step :: "time \<Rightarrow> job_rows \<Rightarrow> job_step \<Rightarrow> job_rows result" where
  "insert_step now rows new =
     bind_result (step_insert_trigger now (the_job rows) new) (\<lambda>row.
       bind_result (step_checks row) (\<lambda>_.
         if step_key_taken (the_steps rows) row
         then Inl (DbError ''23505'' ''duplicate key value violates unique constraint'')
         else Inr (rows\<lparr>the_steps := the_steps rows @ [row]\<rparr>)))"

definition replace_step :: "job_step \<Rightarrow> job_step list \<Rightarrow> job_step list" where
  "replace_step row ss = map (\<lambda>s. if step_id s = step_id row then row else s) ss"

text \<open>\<open>enforce_job_step_consistency_v1\<close>: the comparison of an updated job with its steps.\<close>

definition recovery_shares_clock :: "job \<Rightarrow> job \<Rightarrow> job_rows \<Rightarrow> unit result" where
  "recovery_shares_clock old new rows =
     (if status old = RUNNING \<and> status new = RUNNING \<and> attempt_no new = attempt_no old + 1
      then case last_step (attempt_steps rows (attempt_no old)) of
          None \<Rightarrow> db_error ''lease recovery must share one database timestamp''
        | Some p \<Rightarrow> guarded (sql_any [known (step_status p \<noteq> STEP_FAILED),
              sql_neq (step_error_code p) (Some ''LEASE_EXPIRED''),
              distinct_from (step_finished_at p) (started_at (the_job rows))])
            ''lease recovery must share one database timestamp'' ()
      else Inr ())"

definition stage_shares_clock :: "job \<Rightarrow> job \<Rightarrow> job_rows \<Rightarrow> unit result" where
  "stage_shares_clock old new rows =
     (if status old = RUNNING \<and> status new = RUNNING \<and> attempt_no new = attempt_no old
         \<and> stage new \<noteq> stage old
         \<and> (heartbeat_at new \<noteq> heartbeat_at old \<or> lease_expires_at new \<noteq> lease_expires_at old)
      then case last_step (attempt_steps rows (attempt_no new)) of
          None \<Rightarrow> db_error ''stage transition must share one database timestamp''
        | Some c \<Rightarrow> guarded (distinct_from (Some (step_started_at c)) (heartbeat_at (the_job rows)))
            ''stage transition must share one database timestamp'' ()
      else Inr ())"

definition attempt_continuous :: "job_step list \<Rightarrow> bool" where
  "attempt_continuous ss = (case (first_step ss, last_step ss) of
     (Some f, Some l) \<Rightarrow> int (length ss) = step_seq l - step_seq f + 1 | _ \<Rightarrow> True)"

definition steps_adjoin :: "job_step list \<Rightarrow> bool" where
  "steps_adjoin ss = list_all (\<lambda>n. list_all (\<lambda>p.
     step_attempt_no p = step_attempt_no n \<and> step_seq p = step_seq n - 1
     \<longrightarrow> step_finished_at p = Some (step_started_at n)) ss) ss"

definition priors_completed :: "job_step list \<Rightarrow> job_step \<Rightarrow> bool" where
  "priors_completed ss l = list_all (\<lambda>s. step_seq s < step_seq l
     \<longrightarrow> step_status s \<in> {STEP_SUCCEEDED, STEP_SKIPPED}) ss"

text \<open>An active job stands on one running step, the last of its attempt.\<close>

definition active_mismatch :: "job \<Rightarrow> job_step \<Rightarrow> job_step \<Rightarrow> sql_bool" where
  "active_mismatch j f l = sql_any
     [known (step_code f \<noteq> start_step_code j),
      distinct_from (Some (step_started_at f)) (started_at j),
      known (step_status l \<noteq> STEP_RUNNING), sql_neq (Some (step_code l)) (stage j)]"

text \<open>A finished job stands on its final step, which ended with it and in the same way.\<close>

definition terminal_mismatch :: "job \<Rightarrow> job_step \<Rightarrow> job_step \<Rightarrow> sql_bool" where
  "terminal_mismatch j f l = sql_any
     [known (step_code f \<noteq> start_step_code j),
      distinct_from (Some (step_started_at f)) (started_at j),
      sql_neq (Some (step_code l)) (stage j), distinct_from (step_finished_at l) (finished_at j),
      sql_all [known (status j = SUCCEEDED),
        sql_any [known (step_status l \<noteq> STEP_SUCCEEDED), is_not_null (step_error_code l)]],
      sql_all [known (status j = FAILED),
        sql_any [known (step_status l \<noteq> STEP_FAILED),
          distinct_from (step_error_code l) (error_code j)]],
      sql_all [known (status j = CANCELLED),
        sql_any [known (step_status l \<noteq> STEP_CANCELLED),
          sql_neq (step_error_code l) (Some ''JOB_CANCELLED'')]]]"

definition active_consistency :: "job_rows \<Rightarrow> unit result" where
  "active_consistency rows =
     (let j = the_job rows; ss = attempt_steps rows (attempt_no j) in
      if length (filter (\<lambda>s. step_status s = STEP_RUNNING) (own_steps rows)) \<noteq> 1
      then db_error ''active async job requires exactly one running step''
      else case (first_step ss, last_step ss) of
        (Some f, Some l) \<Rightarrow>
          (if \<not> priors_completed ss l
           then db_error ''active attempt contains an invalid prior terminal step''
           else guarded (active_mismatch j f l)
             ''active async job and current step are inconsistent'' ())
      | _ \<Rightarrow> db_error ''active async job and current step are inconsistent'')"

definition inactive_consistency :: "job_rows \<Rightarrow> unit result" where
  "inactive_consistency rows =
     (let j = the_job rows; ss = attempt_steps rows (attempt_no j) in
      if length (filter (\<lambda>s. step_status s = STEP_RUNNING) (own_steps rows)) \<noteq> 0
      then db_error ''inactive async job cannot retain a running step''
      else if status j = QUEUED \<or> (status j \<in> {FAILED, CANCELLED} \<and> started_at j = None)
      then if attempt_steps rows (attempt_no j + 1) \<noteq> []
        then db_error ''unclaimed async job attempt cannot have steps'' else Inr ()
      else case (first_step ss, last_step ss) of
        (Some f, Some l) \<Rightarrow>
          (if \<not> priors_completed ss l
           then db_error ''terminal attempt contains an invalid prior step''
           else guarded (terminal_mismatch j f l)
             ''terminal async job and final step are inconsistent'' ())
      | _ \<Rightarrow> db_error ''terminal async job and final step are inconsistent'')"

definition job_consistency :: "job_rows \<Rightarrow> unit result" where
  "job_consistency rows =
     (let own = own_steps rows; j = the_job rows in
      if list_ex (\<lambda>s. step_attempt_no s > attempt_no j) own
      then db_error ''async job step attempt exceeds job attempt''
      else if \<not> list_all attempt_continuous (map (attempt_steps rows) (map step_attempt_no own))
      then db_error ''async job attempt steps must form a continuous fragment''
      else if \<not> steps_adjoin own
      then db_error ''adjacent async job steps must share one database timestamp''
      else if status j \<in> {RUNNING, CANCEL_REQUESTED} then active_consistency rows
      else inactive_consistency rows)"

text \<open>The deferred checks of a transaction that updated the job once from \<open>old\<close>.\<close>

definition commit_job :: "job \<Rightarrow> job_rows \<Rightarrow> job_rows result" where
  "commit_job old rows =
     bind_result (recovery_shares_clock old (the_job rows) rows) (\<lambda>_.
       bind_result (stage_shares_clock old (the_job rows) rows) (\<lambda>_.
         bind_result (job_consistency rows) (\<lambda>_. Inr rows)))"

section \<open>A sample row\<close>

definition sample_job :: job where
  "sample_job = \<lparr>fixed = \<lparr>job_id = 9, job_organization_id = 1, job_type = ''report_generate'',
       resource_type = ''audit_report'', resource_id = 4, max_attempts = 2, input_hash = lease_policy_v1_hash,
       input_json = [(''report_id'', JText (uuid_text 4)), (''execution_id'', JText (uuid_text 5)),
         (''payload_sha256'', JText ''ab'')],
       input_schema_version = 1, idempotency_record_id = None,
       handler_registry_version = ''v1'', handler_registry_hash = lease_policy_v1_hash,
       retry_policy_version = ''job-retry-policy-v1'', retry_policy_hash = retry_policy_v1_hash,
       lease_policy_version = ''job-lease-v1'', lease_policy_hash = lease_policy_v1_hash,
       job_trace_id = 3, job_created_by = None, job_created_at = 0\<rparr>,
     status = QUEUED, stage = None, attempt_no = 0, start_step_code = ''generate'',
     next_retry_at = None, worker_id = None, started_at = None, finished_at = None,
     error_code = None, error_message = None, lease_owner = None, lease_expires_at = None,
     heartbeat_at = None, row_version = 1\<rparr>"

lemma policy_hash_formats [simp]: "hash_format lease_policy_v1_hash" "hash_format retry_policy_v1_hash"
  by (simp_all add: hash_format_def lease_policy_v1_hash_def retry_policy_v1_hash_def char_in_def)

lemma sample_job_formats: "list_all fst (job_formats sample_job)"
  by (simp add: job_formats_def sample_job_def code_format_def version_format_def char_in_def)

lemma sample_job_checks: "job_checks sample_job = Inr ()" "job_insert_trigger sample_job = Inr sample_job"
  using sample_job_formats
  by (simp_all add: job_checks_def attempt_bounds_def job_state_matrix_def queued_row_def no_lease_def
      check_passes_iff job_insert_trigger_def) (simp_all add: sample_job_def)

end
