(* ===== verification/Outbox.thy ===== *)
theory Outbox
  imports JobTables
begin

text \<open>
  The transactional outbox: the rows of \<open>outbox_events\<close> with their \<open>CHECK\<close> constraint and row
  trigger (\<open>alembic/versions/20260807_007_create_reliability_core.py\<close>), and the dispatcher's
  operations on them (\<open>app/repositories/job_runtime.py\<close>). \<open>digest\<close> is the \<open>sha256\<close> of the
  database's crypto extension, a parameter.
\<close>

datatype event_status = PENDING | PROCESSING | EVENT_FAILED | PUBLISHED | DEAD_LETTER

record event_identity =
  outbox_id :: uuid
  aggregate_type :: string
  aggregate_id :: uuid
  event_id :: uuid
  event_type :: string
  event_version :: int
  event_sequence :: int
  payload_json :: json_object
  event_trace_id :: uuid
  event_created_at :: time

record outbox_event =
  event_fixed :: event_identity
  event_status :: event_status
  attempt_count :: int
  next_attempt_at :: "time option"
  published_at :: "time option"
  last_error :: "string option"

definition recoverable_codes :: "string list" where
  "recoverable_codes = [''BROKER_UNAVAILABLE'', ''BROKER_TIMEOUT'', ''PUBLISH_CONFIRM_UNKNOWN'',
     ''PROCESSING_LEASE_EXPIRED'']"

section \<open>The constraint and the row trigger\<close>

definition event_state_matrix :: "outbox_event \<Rightarrow> sql_bool" where
  "event_state_matrix e = sql_any
     [sql_all [known (event_status e = PENDING), known (attempt_count e = 0),
        is_null (next_attempt_at e), is_null (published_at e), is_null (last_error e)],
      sql_all [known (event_status e = PROCESSING), known (1 \<le> attempt_count e \<and> attempt_count e \<le> 8),
        is_not_null (next_attempt_at e), is_null (published_at e), is_null (last_error e)],
      sql_all [known (event_status e = EVENT_FAILED),
        known (1 \<le> attempt_count e \<and> attempt_count e \<le> 7), is_not_null (next_attempt_at e),
        is_null (published_at e), sql_in (last_error e) recoverable_codes],
      sql_all [known (event_status e = PUBLISHED), known (1 \<le> attempt_count e \<and> attempt_count e \<le> 8),
        is_null (next_attempt_at e), is_not_null (published_at e), is_null (last_error e)],
      sql_all [known (event_status e = DEAD_LETTER), known (1 \<le> attempt_count e \<and> attempt_count e \<le> 8),
        is_null (next_attempt_at e), is_null (published_at e),
        sql_any
          [sql_all [known (attempt_count e = 8),
             sql_eq (last_error e) (Some ''DELIVERY_ATTEMPTS_EXHAUSTED'')],
           sql_in (last_error e) [''UNSUPPORTED_EVENT_VERSION'', ''SERIALIZATION_FAILED'',
             ''UNKNOWN_DELIVERY_ERROR'']]]]"

definition event_identity_checks :: "event_identity \<Rightarrow> (bool \<times> string) list" where
  "event_identity_checks x =
     [(check_passes (known (event_version x > 0)), ''event_version_positive''),
      (check_passes (known (event_sequence x > 0)), ''event_sequence_positive''),
      (\<not> btrim_empty (aggregate_type x) \<and> \<not> btrim_empty (event_type x), ''identity_nonempty'')]"

definition event_checks :: "outbox_event \<Rightarrow> unit result" where
  "event_checks e = first_violated (event_identity_checks (event_fixed e) @
     [(check_passes (known (0 \<le> attempt_count e \<and> attempt_count e \<le> 8)), ''attempt_count_bounds''),
      (check_passes (event_state_matrix e), ''state_field_matrix'')])"

lemma event_checks_identity:
  "event_checks e = Inr () \<Longrightarrow> list_all fst (event_identity_checks (event_fixed e))"
  by (simp add: event_checks_def)

definition event_insert_trigger :: "job option \<Rightarrow> outbox_event \<Rightarrow> outbox_event result" where
  "event_insert_trigger job_row new =
     (let x = event_fixed new in
      if event_status new \<noteq> PENDING \<or> attempt_count new \<noteq> 0
      then db_error ''invalid initial outbox event state''
      else if event_type x = ''job.dispatch.requested''
        \<and> (aggregate_type x \<noteq> ''async_job'' \<or> event_version x \<noteq> 1
           \<or> \<not> json_eq (payload_json x) [(''job_id'', JText (uuid_text (aggregate_id x)))]
           \<or> \<not> (case job_row of None \<Rightarrow> False
               | Some j \<Rightarrow> job_id (fixed j) = aggregate_id x \<and> status j = QUEUED
                   \<and> event_sequence x = attempt_no j + 1))
      then db_error ''invalid job dispatch outbox identity''
      else Inr new)"

text \<open>The delay before the next delivery: the backoff of the attempt plus under a second of jitter.\<close>

definition backoff_seconds :: "int \<Rightarrow> int" where
  "backoff_seconds n = [1, 2, 4, 8, 16, 32, 60] ! nat (n - 1)"

definition big_endian :: "nat list \<Rightarrow> nat" where
  "big_endian bytes = foldl (\<lambda>acc b. 256 * acc + b) 0 bytes"

definition jitter_milliseconds :: "(string \<Rightarrow> nat list) \<Rightarrow> uuid \<Rightarrow> int \<Rightarrow> int" where
  "jitter_milliseconds digest eid n =
     int (big_endian (take 8 (digest (uuid_text eid @ '':'' @ map char_of (dec_digits (nat n))))) mod 1000)"

definition retry_at :: "(string \<Rightarrow> nat list) \<Rightarrow> time \<Rightarrow> uuid \<Rightarrow> int \<Rightarrow> time" where
  "retry_at digest now eid n = now + seconds (backoff_seconds n) + jitter_milliseconds digest eid n * 1000"

text \<open>The error a dead letter keeps.\<close>

definition dead_letter_error :: "string option \<Rightarrow> string option" where
  "dead_letter_error err =
     (if holds (sql_in err recoverable_codes) then Some ''DELIVERY_ATTEMPTS_EXHAUSTED''
      else if holds (sql_in err [''UNSUPPORTED_EVENT_VERSION'', ''SERIALIZATION_FAILED'',
          ''DELIVERY_ATTEMPTS_EXHAUSTED'']) then err
      else Some ''UNKNOWN_DELIVERY_ERROR'')"

definition to_dead_letter :: "time \<Rightarrow> outbox_event \<Rightarrow> outbox_event \<Rightarrow> outbox_event result" where
  "to_dead_letter now old new =
     (if attempt_count new \<noteq> attempt_count old
      then db_error ''outbox fencing attempt cannot change on dead-letter''
      else if holds (sql_in (last_error new) recoverable_codes) \<and> attempt_count old < 8
      then db_error ''recoverable outbox failure cannot dead-letter early''
      else if last_error new = Some ''PROCESSING_LEASE_EXPIRED''
        \<and> holds (sql_any [known (event_status old \<noteq> PROCESSING),
             sql_less (Some now) (next_attempt_at old)])
      then db_error ''outbox processing lease has not expired''
      else if last_error new = Some ''DELIVERY_ATTEMPTS_EXHAUSTED'' \<and> attempt_count old \<noteq> 8
      then db_error ''outbox delivery attempts are not exhausted''
      else Inr (new\<lparr>last_error := dead_letter_error (last_error new), next_attempt_at := None,
                    published_at := None\<rparr>))"

definition event_update_trigger ::
  "(string \<Rightarrow> nat list) \<Rightarrow> time \<Rightarrow> outbox_event \<Rightarrow> outbox_event \<Rightarrow> outbox_event result" where
  "event_update_trigger digest now old new =
     (if event_fixed new \<noteq> event_fixed old then db_error ''immutable outbox event fields cannot change''
      else if event_status old \<in> {PUBLISHED, DEAD_LETTER}
      then db_error ''terminal outbox event cannot change''
      else if event_status old \<in> {PENDING, EVENT_FAILED} \<and> event_status new = PROCESSING
      then if attempt_count old \<ge> 8
          \<or> (event_status old = EVENT_FAILED \<and> holds (sql_less (Some now) (next_attempt_at old)))
        then db_error ''outbox event is not claimable''
        else Inr (new\<lparr>attempt_count := attempt_count old + 1,
               next_attempt_at := Some (now + seconds 60), published_at := None, last_error := None\<rparr>)
      else if event_status old = PROCESSING \<and> event_status new = PUBLISHED
      then if attempt_count new \<noteq> attempt_count old
        then db_error ''outbox fencing attempt cannot change on publish''
        else Inr (new\<lparr>next_attempt_at := None, published_at := Some now, last_error := None\<rparr>)
      else if event_status old = PROCESSING \<and> event_status new = EVENT_FAILED
      then guarded (sql_any [known (attempt_count new \<noteq> attempt_count old),
              known (attempt_count old \<ge> 8), sql_not (sql_in (last_error new) recoverable_codes),
              sql_all [sql_eq (last_error new) (Some ''PROCESSING_LEASE_EXPIRED''),
                sql_less (Some now) (next_attempt_at old)]])
            ''invalid recoverable outbox failure''
            (new\<lparr>next_attempt_at :=
                   Some (retry_at digest now (outbox_id (event_fixed new)) (attempt_count old)),
                 published_at := None\<rparr>)
      else if event_status old \<in> {PROCESSING, EVENT_FAILED} \<and> event_status new = DEAD_LETTER
      then to_dead_letter now old new
      else db_error ''invalid outbox event status transition'')"

definition update_event ::
  "(string \<Rightarrow> nat list) \<Rightarrow> time \<Rightarrow> outbox_event \<Rightarrow> outbox_event \<Rightarrow> outbox_event result" where
  "update_event digest now old new =
     bind_result (event_update_trigger digest now old new)
       (\<lambda>row. bind_result (event_checks row) (\<lambda>_. Inr row))"

section \<open>The dispatcher's operations\<close>

record job_snapshot =
  snap_id :: uuid
  snap_organization_id :: uuid
  snap_job_type :: string
  snap_resource_type :: string
  snap_resource_id :: uuid
  snap_status :: job_status
  snap_attempt_no :: int
  snap_max_attempts :: int
  snap_start_step_code :: string
  snap_input_json :: json_object
  snap_input_schema_version :: int
  snap_registry_version :: string
  snap_registry_hash :: string
  snap_trace_id :: uuid

definition snapshot_of :: "job \<Rightarrow> job_snapshot" where
  "snapshot_of j =
     \<lparr>snap_id = job_id (fixed j), snap_organization_id = job_organization_id (fixed j),
      snap_job_type = job_type (fixed j), snap_resource_type = resource_type (fixed j),
      snap_resource_id = resource_id (fixed j), snap_status = status j,
      snap_attempt_no = attempt_no j, snap_max_attempts = max_attempts (fixed j),
      snap_start_step_code = start_step_code j, snap_input_json = input_json (fixed j),
      snap_input_schema_version = input_schema_version (fixed j),
      snap_registry_version = handler_registry_version (fixed j),
      snap_registry_hash = handler_registry_hash (fixed j), snap_trace_id = job_trace_id (fixed j)\<rparr>"

record outbox_claim =
  claim_outbox_id :: uuid
  claim_event_id :: uuid
  claim_job :: job_snapshot
  claim_event_type :: string
  claim_event_version :: int
  claim_event_sequence :: int
  claim_payload :: json_object
  claim_attempt_count :: int
  claim_trace_id :: uuid

definition outbox_claim_of :: "outbox_event \<Rightarrow> job \<Rightarrow> outbox_claim" where
  "outbox_claim_of e j = (let x = event_fixed e in
     \<lparr>claim_outbox_id = outbox_id x, claim_event_id = event_id x, claim_job = snapshot_of j,
      claim_event_type = event_type x, claim_event_version = event_version x,
      claim_event_sequence = event_sequence x, claim_payload = payload_json x,
      claim_attempt_count = attempt_count e, claim_trace_id = event_trace_id x\<rparr>)"

text \<open>The rows the dispatcher sees: the events in any order, and the jobs by id.\<close>

record outbox_rows =
  events :: "outbox_event list"
  job_row :: "uuid \<Rightarrow> job option"

definition event_row_id :: "outbox_event \<Rightarrow> uuid" where
  "event_row_id e = outbox_id (event_fixed e)"

definition replace_event :: "outbox_event \<Rightarrow> outbox_event list \<Rightarrow> outbox_event list" where
  "replace_event row es = map (\<lambda>e. if event_row_id e = event_row_id row then row else e) es"

definition claimable :: "time \<Rightarrow> (uuid \<Rightarrow> bool) \<Rightarrow> outbox_rows \<Rightarrow> outbox_event \<Rightarrow> bool" where
  "claimable t locked rows e \<longleftrightarrow>
     event_type (event_fixed e) = ''job.dispatch.requested''
     \<and> (case job_row rows (aggregate_id (event_fixed e)) of
          None \<Rightarrow> False | Some j \<Rightarrow> status j = QUEUED)
     \<and> (event_status e = PENDING
        \<or> (event_status e = EVENT_FAILED \<and> holds (sql_le (next_attempt_at e) (Some t))))
     \<and> \<not> locked (event_row_id e)"

text \<open>The oldest claimable event that no other transaction has locked; \<open>now\<close> is the trigger's clock.\<close>

definition claim_next_outbox ::
  "(string \<Rightarrow> nat list) \<Rightarrow> time \<Rightarrow> time \<Rightarrow> (uuid \<Rightarrow> bool) \<Rightarrow> outbox_rows
   \<Rightarrow> (outbox_claim option \<times> outbox_rows) result" where
  "claim_next_outbox digest t now locked rows =
     (let candidates = filter (claimable t locked rows) (events rows) in
      if candidates = [] then Inr (None, rows)
      else let old = arg_min_list (\<lambda>e. (event_created_at (event_fixed e), event_row_id e)) candidates
        in bind_result (update_event digest now old (old\<lparr>event_status := PROCESSING\<rparr>)) (\<lambda>row.
             Inr (map_option (outbox_claim_of row) (job_row rows (aggregate_id (event_fixed row))),
                  rows\<lparr>events := replace_event row (events rows)\<rparr>)))"

definition next_expired_processing_outbox :: "time \<Rightarrow> outbox_rows \<Rightarrow> outbox_claim option" where
  "next_expired_processing_outbox t rows =
     (let expired = filter (\<lambda>e. event_type (event_fixed e) = ''job.dispatch.requested''
            \<and> event_status e = PROCESSING \<and> holds (sql_le (next_attempt_at e) (Some t))
            \<and> job_row rows (aggregate_id (event_fixed e)) \<noteq> None) (events rows)
      in if expired = [] then None
         else let e = arg_min_list (\<lambda>e. (the (next_attempt_at e), event_row_id e)) expired
           in map_option (outbox_claim_of e) (job_row rows (aggregate_id (event_fixed e))))"

definition find_event :: "uuid \<Rightarrow> outbox_rows \<Rightarrow> outbox_event option" where
  "find_event eid rows = find (\<lambda>e. event_row_id e = eid) (events rows)"

definition mark_outbox_published ::
  "(string \<Rightarrow> nat list) \<Rightarrow> time \<Rightarrow> outbox_claim \<Rightarrow> outbox_rows \<Rightarrow> (bool \<times> outbox_rows) result" where
  "mark_outbox_published digest now claim rows =
     (case find_event (claim_outbox_id claim) rows of
        None \<Rightarrow> Inr (False, rows)
      | Some e \<Rightarrow>
          if event_status e = PROCESSING \<and> attempt_count e = claim_attempt_count claim
          then bind_result (update_event digest now e (e\<lparr>event_status := PUBLISHED\<rparr>)) (\<lambda>row.
                 Inr (True, rows\<lparr>events := replace_event row (events rows)\<rparr>))
          else Inr (False, rows))"

text \<open>The failure the queued job takes over from its dead letter.\<close>

definition dispatch_failure :: "string \<Rightarrow> bool \<Rightarrow> string \<times> string" where
  "dispatch_failure code broker_called =
     (let deterministic = (\<not> broker_called
            \<and> code \<in> {''UNSUPPORTED_EVENT_VERSION'', ''SERIALIZATION_FAILED''});
          outcome_unknown = (code \<in> {''BROKER_TIMEOUT'', ''PUBLISH_CONFIRM_UNKNOWN'',
            ''PROCESSING_LEASE_EXPIRED'', ''UNKNOWN_DELIVERY_ERROR''})
      in (if outcome_unknown then ''JOB_DISPATCH_OUTCOME_UNKNOWN'' else ''JOB_DISPATCH_FAILED'',
          if outcome_unknown then ''dispatch outcome is unknown''
          else if deterministic then ''dispatch contract validation failed''
          else ''dispatch attempts were exhausted''))"

definition fail_queued_job :: "time \<Rightarrow> string \<times> string \<Rightarrow> job \<Rightarrow> job" where
  "fail_queued_job t failure j = j\<lparr>status := FAILED, finished_at := Some t,
     error_code := Some (fst failure), error_message := Some (snd failure),
     row_version := row_version j + 1\<rparr>"

text \<open>
  \<open>mark_outbox_failure\<close> for a job whose resource is not a parse version: \<open>now\<close> is the clock of
  the event's trigger, \<open>t\<close> that of the statement that fails the job, \<open>now'\<close> that of the job's trigger.
\<close>

definition mark_outbox_failure ::
  "(string \<Rightarrow> nat list) \<Rightarrow> time \<Rightarrow> time \<Rightarrow> time \<Rightarrow> string \<Rightarrow> bool \<Rightarrow> outbox_claim \<Rightarrow> outbox_rows
   \<Rightarrow> (bool \<times> outbox_rows) result" where
  "mark_outbox_failure digest now t now' code broker_called claim rows =
     (case (job_row rows (snap_id (claim_job claim)), find_event (claim_outbox_id claim) rows) of
        (Some j, Some e) \<Rightarrow>
          if event_status e \<noteq> PROCESSING \<or> attempt_count e \<noteq> claim_attempt_count claim
          then Inr (False, rows)
          else if claim_attempt_count claim < 8 \<and> code \<in> set recoverable_codes
          then bind_result (update_event digest now e
                   (e\<lparr>event_status := EVENT_FAILED, last_error := Some code\<rparr>)) (\<lambda>row.
                 Inr (True, rows\<lparr>events := replace_event row (events rows)\<rparr>))
          else bind_result (update_event digest now e
                   (e\<lparr>event_status := DEAD_LETTER, last_error := Some code\<rparr>)) (\<lambda>row.
                 let rows' = rows\<lparr>events := replace_event row (events rows)\<rparr> in
                 if status j \<noteq> QUEUED then Inr (True, rows')
                 else bind_result (update_job now' [] j
                          (fail_queued_job t (dispatch_failure code broker_called) j)) (\<lambda>j'.
                        Inr (True, rows'\<lparr>job_row := (job_row rows)(snap_id (claim_job claim) \<mapsto> j')\<rparr>)))
      | _ \<Rightarrow> Inr (False, rows))"

section \<open>Lemmas\<close>

text \<open>Every accepted update takes one step of the delivery state machine.\<close>

lemma event_update_step:
  assumes "update_event digest now old new = Inr row"
  shows "event_fixed row = event_fixed old
    \<and> (event_status old \<in> {PENDING, EVENT_FAILED} \<and> event_status row = PROCESSING
         \<and> attempt_count old < 8 \<and> attempt_count row = attempt_count old + 1
         \<and> next_attempt_at row = Some (now + seconds 60)
       \<or> event_status old = PROCESSING \<and> event_status row \<in> {PUBLISHED, EVENT_FAILED, DEAD_LETTER}
         \<and> attempt_count row = attempt_count old
       \<or> event_status old = EVENT_FAILED \<and> event_status row = DEAD_LETTER
         \<and> attempt_count row = attempt_count old)"
proof -
  from assms have trigger: "event_update_trigger digest now old new = Inr row"
    by (simp add: update_event_def)
  show ?thesis
    by (insert trigger, cases "event_status old"; cases "event_status new")
      (auto simp: event_update_trigger_def to_dead_letter_def not_holds_any
          simp del: holds_connectives
          split: if_splits)
qed

lemma event_update_checked: "update_event digest now old new = Inr row \<Longrightarrow> event_checks row = Inr ()"
  by (simp add: update_event_def)

lemma event_checks_bounds:
  "event_checks e = Inr () \<Longrightarrow> 0 \<le> attempt_count e \<and> attempt_count e \<le> 8"
  by (auto simp: event_checks_def split: if_splits)

lemma event_checks_processing:
  "event_checks e = Inr () \<Longrightarrow> event_status e = PROCESSING \<Longrightarrow>
     1 \<le> attempt_count e \<and> attempt_count e \<le> 8 \<and> (\<exists>t. next_attempt_at e = Some t)
     \<and> published_at e = None \<and> last_error e = None"
  by (auto simp: event_checks_def event_state_matrix_def sql_truth split: if_splits)

text \<open>One accepted update of an event, whatever the clock of its trigger.\<close>

definition event_step :: "(string \<Rightarrow> nat list) \<Rightarrow> outbox_event \<Rightarrow> outbox_event \<Rightarrow> bool" where
  "event_step digest e e' \<longleftrightarrow> (\<exists>now new. update_event digest now e new = Inr e')"

text \<open>What is left of a delivery: two updates per remaining attempt, none at the end.\<close>

definition delivery_rank :: "outbox_event \<Rightarrow> nat" where
  "delivery_rank e = (case event_status e of
     PENDING \<Rightarrow> 2 * nat (8 - attempt_count e) + 1
   | EVENT_FAILED \<Rightarrow> 2 * nat (8 - attempt_count e) + 1
   | PROCESSING \<Rightarrow> 2 * nat (8 - attempt_count e) + 2
   | _ \<Rightarrow> 0)"

lemma delivery_rank_decreases:
  assumes "update_event digest now old new = Inr row"
  shows "delivery_rank row < delivery_rank old"
  using event_update_step [OF assms]
  by (auto simp: delivery_rank_def split: event_status.splits)

interpretation outbox_delivery: ranked_process "event_step digest" delivery_rank for digest
  by unfold_locales (auto simp: event_step_def dest: delivery_rank_decreases)

lemma delivery_facts:
  "(event_step digest ^^ n) e e' \<Longrightarrow> event_fixed e' = event_fixed e
     \<and> (event_checks e = Inr () \<longrightarrow> event_checks e' = Inr ())"
proof (induction n arbitrary: e')
  case 0
  then show ?case by simp
next
  case (Suc n)
  then obtain u where u: "(event_step digest ^^ n) e u" "event_step digest u e'" by auto
  then obtain now new where up: "update_event digest now u new = Inr e'"
    by (auto simp: event_step_def)
  show ?case
    using Suc.IH [OF u(1)] event_update_step [OF up] event_update_checked [OF up] by simp
qed

lemma find_event_Some: "find_event eid rows = Some e \<Longrightarrow> e \<in> set (events rows) \<and> event_row_id e = eid"
  by (auto simp: find_event_def find_Some_iff)

lemma queued_row_fields:
  assumes "job_checks j = Inr ()" and "status j = QUEUED"
  shows "attempt_no j < max_attempts_of j \<and> stage j = None \<and> next_retry_at j = None
    \<and> started_at j = None \<and> finished_at j = None \<and> worker_id j = None \<and> lease_owner j = None
    \<and> lease_expires_at j = None \<and> heartbeat_at j = None \<and> error_code j = None
    \<and> error_message j = None \<and> 0 \<le> attempt_no j \<and> 0 < row_version j"
  using assms
  by (auto simp: job_checks_def attempt_bounds_def job_state_matrix_def queued_row_def
      active_row_def succeeded_row_def failed_row_def cancelled_row_def no_lease_def check_passes_iff
      split: if_splits)

text \<open>A queued job can always be failed for its dispatch.\<close>

lemma fail_queued_accepted:
  assumes "job_checks j = Inr ()" and "status j = QUEUED" and "t \<le> now"
    and "fst failure \<in> set dispatch_failure_codes"
  shows "update_job now owner j (fail_queued_job t failure j) = Inr (fail_queued_job t failure j)"
proof -
  have "list_all fst (job_formats (fail_queued_job t failure j))"
    using queued_row_fields [OF assms(1,2)] assms(4)
    by (intro job_formats_kept [OF job_checks_formats [OF assms(1)]])
      (auto simp: fail_queued_job_def dispatch_failure_codes_def)
  then show ?thesis
    using queued_row_fields [OF assms(1,2)] assms(2-4)
    by (auto simp: update_job_def job_update_trigger_def needs_lease_policy_def fail_queued_job_def
        invalid_queued_failure_def guarded_def job_checks_def attempt_bounds_def job_state_matrix_def
        failed_row_def no_lease_def check_passes_iff)
qed

lemma dispatch_failure_code: "fst (dispatch_failure code called) \<in> set dispatch_failure_codes"
  by (simp add: dispatch_failure_def dispatch_failure_codes_def Let_def)

definition outbox_failure_codes :: "string list" where
  "outbox_failure_codes = recoverable_codes
     @ [''UNSUPPORTED_EVENT_VERSION'', ''SERIALIZATION_FAILED'', ''UNKNOWN_DELIVERY_ERROR'']"

text \<open>What the trigger stores for a recoverable failure and for a dead letter.\<close>

lemma event_retry_accepted:
  assumes "event_checks e = Inr ()" and "event_status e = PROCESSING" and "attempt_count e < 8"
    and "code \<in> set recoverable_codes"
    and "code = ''PROCESSING_LEASE_EXPIRED'' \<Longrightarrow> the (next_attempt_at e) \<le> now"
  shows "update_event digest now e (e\<lparr>event_status := EVENT_FAILED, last_error := Some code\<rparr>)
    = Inr (e\<lparr>event_status := EVENT_FAILED, last_error := Some code,
        next_attempt_at := Some (retry_at digest now (event_row_id e) (attempt_count e))\<rparr>)"
  using event_checks_processing [OF assms(1,2)] event_checks_identity [OF assms(1)] assms(2-5)
  by (auto simp: update_event_def event_update_trigger_def guarded_def event_checks_def
      event_state_matrix_def check_passes_iff event_row_id_def sql_truth)

lemma event_dead_letter_accepted:
  assumes "event_checks e = Inr ()" and "event_status e = PROCESSING"
    and "code \<in> set outbox_failure_codes"
    and "code \<in> set recoverable_codes \<Longrightarrow> attempt_count e = 8"
    and "code = ''PROCESSING_LEASE_EXPIRED'' \<Longrightarrow> the (next_attempt_at e) \<le> now"
  shows "update_event digest now e (e\<lparr>event_status := DEAD_LETTER, last_error := Some code\<rparr>)
    = Inr (e\<lparr>event_status := DEAD_LETTER, next_attempt_at := None,
        last_error := Some (if code \<in> set recoverable_codes then ''DELIVERY_ATTEMPTS_EXHAUSTED''
                            else code)\<rparr>)"
proof -
  let ?row = "e\<lparr>event_status := DEAD_LETTER, next_attempt_at := None,
        last_error := Some (if code \<in> set recoverable_codes then ''DELIVERY_ATTEMPTS_EXHAUSTED''
                            else code)\<rparr>"
  note p = event_checks_processing [OF assms(1,2)]
  have err: "dead_letter_error (Some code)
      = Some (if code \<in> set recoverable_codes then ''DELIVERY_ATTEMPTS_EXHAUSTED'' else code)"
    using assms(3) by (auto simp: dead_letter_error_def outbox_failure_codes_def)
  have "code \<noteq> ''DELIVERY_ATTEMPTS_EXHAUSTED''"
    using assms(3) by (auto simp: outbox_failure_codes_def recoverable_codes_def)
  then have "event_update_trigger digest now e
      (e\<lparr>event_status := DEAD_LETTER, last_error := Some code\<rparr>) = Inr ?row"
    using p assms(2,4,5)
    by (auto simp: event_update_trigger_def to_dead_letter_def err)
  moreover have "event_checks ?row = Inr ()"
    using p event_checks_identity [OF assms(1)] assms(3,4)
    by (auto simp: event_checks_def event_state_matrix_def check_passes_iff outbox_failure_codes_def)
  ultimately show ?thesis by (simp add: update_event_def)
qed

section \<open>Properties\<close>

text \<open>C16. Delivery of an outbox event is bounded: from its insertion, whatever the dispatcher's updates
and the clocks, at most seventeen updates are accepted, at most eight of them claims; the identity and
payload never change, every stored row satisfies the constraints, and a published or dead-lettered
event accepts no further update.\<close>

theorem delivery_bounded:
  assumes run: "(event_step digest ^^ n) e e'"
    and new: "event_status e = PENDING" "attempt_count e = 0" "event_checks e = Inr ()"
  shows "n \<le> 17 \<and> attempt_count e' \<le> 8 \<and> event_fixed e' = event_fixed e
    \<and> event_checks e' = Inr ()
    \<and> (event_status e' \<in> {PUBLISHED, DEAD_LETTER} \<longrightarrow> (\<forall>e''. \<not> event_step digest e' e''))"
proof -
  have checked: "event_checks e' = Inr ()" and same: "event_fixed e' = event_fixed e"
    using delivery_facts [OF run] new(3) by auto
  have "n \<le> 17"
    using outbox_delivery.run_bound [OF run] new(1,2) by (simp add: delivery_rank_def)
  moreover have "\<not> event_step digest e' e''" if "event_status e' \<in> {PUBLISHED, DEAD_LETTER}" for e''
    using that event_update_step by (fastforce simp: event_step_def)
  ultimately show ?thesis
    using checked event_checks_bounds same by blast
qed

definition sample_event :: outbox_event where
  "sample_event = \<lparr>event_fixed = \<lparr>outbox_id = 5, aggregate_type = ''async_job'', aggregate_id = 9,
       event_id = 6, event_type = ''job.dispatch.requested'', event_version = 1, event_sequence = 1,
       payload_json = [], event_trace_id = 3, event_created_at = 0\<rparr>,
     event_status = PENDING, attempt_count = 0, next_attempt_at = None, published_at = None,
     last_error = None\<rparr>"

lemma sample_event_identity: "list_all fst (event_identity_checks (event_fixed sample_event))"
  by (simp add: event_identity_checks_def sample_event_def btrim_empty_def)

lemma sample_event_claimed:
  "update_event digest 100 sample_event (sample_event\<lparr>event_status := PROCESSING\<rparr>)
   = Inr (sample_event\<lparr>event_status := PROCESSING, attempt_count := 1,
       next_attempt_at := Some (100 + seconds 60)\<rparr>)"
  using sample_event_identity
  by (simp add: update_event_def event_update_trigger_def event_checks_def event_state_matrix_def
      check_passes_iff) (simp add: sample_event_def event_checks_def)

theorem delivery_bounded_witness:
  "\<exists>e'. (event_step (\<lambda>_. []) ^^ 1) sample_event e' \<and> event_status e' = PROCESSING \<and> attempt_count e' \<le> 8"
proof -
  let ?e = "sample_event\<lparr>event_status := PROCESSING, attempt_count := 1,
       next_attempt_at := Some (100 + seconds 60)\<rparr>"
  have "(event_step (\<lambda>_. []) ^^ 1) sample_event ?e"
    unfolding relpowp_1 event_step_def using sample_event_claimed by blast
  moreover from delivery_bounded [OF this]
  have "attempt_count ?e \<le> 8"
    using sample_event_identity by (simp add: sample_event_def event_checks_def event_state_matrix_def
        check_passes_iff)
  ultimately show ?thesis by (intro exI [of _ ?e]) simp
qed

lemma retry_window:
  "now + seconds (backoff_seconds n) \<le> retry_at digest now eid n"
  "retry_at digest now eid n < now + seconds (backoff_seconds n + 1)"
  by (simp_all add: retry_at_def jitter_milliseconds_def seconds_def del: of_nat_mod)

text \<open>The outcomes of a reported failure: a retry in its window, or a dead letter with its job.\<close>

definition retry_recorded :: "time \<Rightarrow> outbox_event \<Rightarrow> outbox_rows \<Rightarrow> outbox_rows \<Rightarrow> bool" where
  "retry_recorded now e rows rows' \<longleftrightarrow> job_row rows' = job_row rows
     \<and> (\<exists>e' next. events rows' = replace_event e' (events rows) \<and> event_row_id e' = event_row_id e
        \<and> event_status e' = EVENT_FAILED \<and> attempt_count e' = attempt_count e
        \<and> next_attempt_at e' = Some next
        \<and> now + seconds (backoff_seconds (attempt_count e)) \<le> next
        \<and> next < now + seconds (backoff_seconds (attempt_count e) + 1))"

definition dispatch_outcome :: "string \<Rightarrow> string" where
  "dispatch_outcome code = (if code \<in> {''BROKER_TIMEOUT'', ''PUBLISH_CONFIRM_UNKNOWN'',
       ''PROCESSING_LEASE_EXPIRED'', ''UNKNOWN_DELIVERY_ERROR''}
     then ''JOB_DISPATCH_OUTCOME_UNKNOWN'' else ''JOB_DISPATCH_FAILED'')"

definition dead_letter_recorded ::
  "time \<Rightarrow> string \<Rightarrow> outbox_event \<Rightarrow> job \<Rightarrow> outbox_rows \<Rightarrow> outbox_rows \<Rightarrow> bool" where
  "dead_letter_recorded t code e j rows rows' \<longleftrightarrow>
     (\<exists>e' j'. events rows' = replace_event e' (events rows) \<and> event_row_id e' = event_row_id e
        \<and> event_status e' = DEAD_LETTER \<and> attempt_count e' = attempt_count e
        \<and> job_row rows' (job_id (fixed j)) = Some j'
        \<and> (if status j = QUEUED
           then status j' = FAILED \<and> finished_at j' = Some t \<and> row_version j' = row_version j + 1
             \<and> error_code j' = Some (dispatch_outcome code) \<and> job_checks j' = Inr ()
           else j' = j))"

text \<open>C17. A delivery failure reported under the current claim (the event is still processing at the
claimed attempt) never raises. Below eight attempts a recoverable failure is retried after the
attempt's backoff plus less than a second and the job stays queued; otherwise the event is
dead-lettered and a job that is still queued is failed with it: outcome unknown exactly when the broker
may have accepted the message. Under any other claim nothing changes.\<close>

theorem outbox_failure_outcome:
  assumes job: "job_row rows (snap_id (claim_job claim)) = Some j" "job_checks j = Inr ()"
      "job_id (fixed j) = snap_id (claim_job claim)"
    and event: "find_event (claim_outbox_id claim) rows = Some e" "event_checks e = Inr ()"
    and code: "code \<in> set outbox_failure_codes"
      "code = ''PROCESSING_LEASE_EXPIRED'' \<longrightarrow> the (next_attempt_at e) \<le> now"
    and clocks: "t \<le> now'"
  shows "if event_status e \<noteq> PROCESSING \<or> attempt_count e \<noteq> claim_attempt_count claim
    then mark_outbox_failure digest now t now' code broker_called claim rows = Inr (False, rows)
    else \<exists>rows'. mark_outbox_failure digest now t now' code broker_called claim rows = Inr (True, rows')
      \<and> (if code \<in> set recoverable_codes \<and> attempt_count e < 8 then retry_recorded now e rows rows'
         else dead_letter_recorded t code e j rows rows')"
proof (cases "event_status e \<noteq> PROCESSING \<or> attempt_count e \<noteq> claim_attempt_count claim")
  case True
  then show ?thesis by (simp add: mark_outbox_failure_def job event)
next
  case current: False
  note lease = code(2) [rule_format]
  show ?thesis
  proof (cases "code \<in> set recoverable_codes \<and> attempt_count e < 8")
    case True
    then show ?thesis
      using current event_retry_accepted [OF event(2) _ _ _ lease, where digest = digest]
      by (auto simp: mark_outbox_failure_def job event retry_window retry_recorded_def
          event_row_id_def intro!: exI)
  next
    case dead: False
    then have eight: "attempt_count e = 8" if "code \<in> set recoverable_codes"
      using that event_checks_bounds [OF event(2)] by simp
    note dl = event_dead_letter_accepted [OF event(2) _ code(1) eight lease, where digest = digest]
    have fq: "update_job now' [] j (fail_queued_job t (dispatch_failure code broker_called) j)
        = Inr (fail_queued_job t (dispatch_failure code broker_called) j)" if "status j = QUEUED"
      using fail_queued_accepted [OF job(2) that clocks dispatch_failure_code] .
    have checked: "job_checks (fail_queued_job t (dispatch_failure code broker_called) j) = Inr ()"
      if "status j = QUEUED"
      using fq [OF that] by (simp add: update_job_def)
    have "fst (dispatch_failure code broker_called) = dispatch_outcome code"
      by (simp add: dispatch_failure_def dispatch_outcome_def Let_def)
    then have fields: "status j = QUEUED \<Longrightarrow>
        error_code (fail_queued_job t (dispatch_failure code broker_called) j)
          = Some (dispatch_outcome code)"
      by (simp add: fail_queued_job_def)
    show ?thesis
      using current dead dl fq checked fields
      by (auto simp: mark_outbox_failure_def job event dead_letter_recorded_def Let_def
          event_row_id_def fail_queued_job_def simp del: set_simps intro!: exI)
  qed
qed

definition sample_outbox_rows :: outbox_rows where
  "sample_outbox_rows = \<lparr>events = [sample_event\<lparr>event_status := PROCESSING, attempt_count := 8,
       next_attempt_at := Some 50\<rparr>], job_row = [9 \<mapsto> sample_job]\<rparr>"

definition sample_outbox_claim :: outbox_claim where
  "sample_outbox_claim =
     outbox_claim_of (sample_event\<lparr>event_status := PROCESSING, attempt_count := 8,
       next_attempt_at := Some 50\<rparr>) sample_job"

theorem outbox_failure_outcome_witness:
  "\<exists>rows'. mark_outbox_failure (\<lambda>_. []) 60 61 62 ''BROKER_TIMEOUT'' True sample_outbox_claim
      sample_outbox_rows = Inr (True, rows')
    \<and> dead_letter_recorded 61 ''BROKER_TIMEOUT''
        (sample_event\<lparr>event_status := PROCESSING, attempt_count := 8, next_attempt_at := Some 50\<rparr>)
        sample_job sample_outbox_rows rows'"
proof -
  let ?e = "sample_event\<lparr>event_status := PROCESSING, attempt_count := 8, next_attempt_at := Some 50\<rparr>"
  have "snap_id (claim_job sample_outbox_claim) = 9" "claim_outbox_id sample_outbox_claim = 5"
    "claim_attempt_count sample_outbox_claim = 8"
    by (simp_all add: sample_outbox_claim_def outbox_claim_of_def snapshot_of_def sample_job_def
        sample_event_def Let_def)
  moreover have "event_checks ?e = Inr ()"
    using sample_event_identity
    by (simp add: event_checks_def event_state_matrix_def check_passes_iff) (simp add: sample_event_def)
  ultimately show ?thesis
    using outbox_failure_outcome [where claim = sample_outbox_claim and rows = sample_outbox_rows
        and j = sample_job and e = ?e and code = "''BROKER_TIMEOUT''" and t = 61 and now' = 62
        and now = 60 and digest = "\<lambda>_. []" and broker_called = True] sample_job_checks
    by (auto simp: sample_outbox_rows_def find_event_def event_row_id_def sample_event_def
        outbox_failure_codes_def recoverable_codes_def sample_job_def)
qed

end
