(* ===== verification/JobRuntime.thy ===== *)
theory JobRuntime
  imports Outbox
begin

text \<open>
  \<open>JobRuntimeRepository\<close> of \<open>app/repositories/job_runtime.py\<close>: what a worker and the recovery
  service do to one job. A call is one transaction over the job row and its step rows; its statement
  reads the database clock once, every trigger call reads it again, and the deferred consistency
  check runs at the end. A conditional update that finds no row leaves everything unchanged and the
  call answers \<open>None\<close> or \<open>False\<close>; a rejected row raises and nothing is stored.
\<close>

section \<open>Claims, clocks and the fenced statements\<close>

record claimed_job =
  cj_job :: job_snapshot
  cj_step_id :: uuid
  cj_step_seq :: int
  cj_step_code :: string
  cj_worker_id :: string
  cj_lease_owner :: string
  cj_started_at :: time
  cj_heartbeat_at :: time
  cj_lease_expires_at :: time
  cj_row_version :: int

definition claimed_job_of :: "job \<Rightarrow> uuid \<Rightarrow> int \<Rightarrow> claimed_job" where
  "claimed_job_of j sid seq =
     \<lparr>cj_job = snapshot_of j, cj_step_id = sid, cj_step_seq = seq, cj_step_code = the (stage j),
      cj_worker_id = the (worker_id j), cj_lease_owner = the (lease_owner j),
      cj_started_at = the (started_at j), cj_heartbeat_at = the (heartbeat_at j),
      cj_lease_expires_at = the (lease_expires_at j), cj_row_version = row_version j\<rparr>"

text \<open>The clock readings of one call, in the order they are taken, and the identifiers it draws.\<close>

record clocks =
  t_stmt :: time
  t_step :: time
  t_job :: time
  t_insert :: time
  new_owner :: string
  new_step_id :: uuid

definition clocks_ordered :: "clocks \<Rightarrow> bool" where
  "clocks_ordered c \<longleftrightarrow> t_stmt c \<le> t_step c \<and> t_step c \<le> t_job c \<and> t_job c \<le> t_insert c"

definition find_step :: "uuid \<Rightarrow> job_rows \<Rightarrow> job_step option" where
  "find_step sid rows = find (\<lambda>s. step_id s = sid) (the_steps rows)"

text \<open>An \<open>UPDATE\<close> of one step row: none when no row matches.\<close>

definition end_step ::
  "time \<Rightarrow> uuid \<Rightarrow> (job_step \<Rightarrow> bool) \<Rightarrow> (job_step \<Rightarrow> job_step) \<Rightarrow> job_rows \<Rightarrow> job_rows option result" where
  "end_step now sid matches f rows =
     (case find_step sid rows of
        None \<Rightarrow> Inr None
      | Some s \<Rightarrow>
          if matches s
          then bind_result (update_step now (the_job rows) s (f s))
                 (\<lambda>row. Inr (Some (rows\<lparr>the_steps := replace_step row (the_steps rows)\<rparr>)))
          else Inr None)"

text \<open>An \<open>UPDATE\<close> of the job row.\<close>

definition save_job :: "clocks \<Rightarrow> (job \<Rightarrow> job) \<Rightarrow> job_rows \<Rightarrow> job_rows result" where
  "save_job c f rows =
     bind_result (update_job (t_job c) (new_owner c) (the_job rows) (f (the_job rows)))
       (\<lambda>j. Inr (rows\<lparr>the_job := j\<rparr>))"

definition running_step_of :: "job \<Rightarrow> uuid \<Rightarrow> int \<Rightarrow> time \<Rightarrow> job_step" where
  "running_step_of j sid seq t =
     \<lparr>step_id = sid, step_job_id = job_id (fixed j), step_seq = seq, step_code = the (stage j),
      step_status = STEP_RUNNING, step_attempt_no = attempt_no j, step_started_at = t,
      step_finished_at = None, step_summary = ''{}'', step_error_code = None,
      step_trace_id = job_trace_id (fixed j)\<rparr>"

text \<open>The fencing condition of the statements: identity, attempt, worker, lease and row version.\<close>

definition lease_fence :: "claimed_job \<Rightarrow> job \<Rightarrow> sql_bool" where
  "lease_fence claim j = sql_all
     [known (job_id (fixed j) = snap_id (cj_job claim)),
      sql_eq (worker_id j) (Some (cj_worker_id claim)),
      sql_eq (lease_owner j) (Some (cj_lease_owner claim))]"

definition version_fence :: "time \<Rightarrow> claimed_job \<Rightarrow> job \<Rightarrow> sql_bool" where
  "version_fence t claim j = sql_all
     [lease_fence claim j, known (row_version j = cj_row_version claim), before_expiry t j]"

definition current_step :: "claimed_job \<Rightarrow> job \<Rightarrow> job_step \<Rightarrow> bool" where
  "current_step claim j s \<longleftrightarrow> step_job_id s = job_id (fixed j) \<and> step_status s = STEP_RUNNING
     \<and> step_attempt_no s = snap_attempt_no (cj_job claim)"

definition clear_lease :: "job \<Rightarrow> job" where
  "clear_lease j = j\<lparr>worker_id := None, lease_owner := None, lease_expires_at := None,
     heartbeat_at := None, row_version := row_version j + 1\<rparr>"

section \<open>Claiming a job\<close>

definition claim_identity_matches :: "job \<Rightarrow> outbox_event \<Rightarrow> int \<Rightarrow> bool" where
  "claim_identity_matches j e version \<longleftrightarrow> (let x = event_fixed e in
     aggregate_type x = ''async_job'' \<and> aggregate_id x = job_id (fixed j)
     \<and> event_type x = ''job.dispatch.requested''
     \<and> event_version x = version \<and> version = 1
     \<and> event_sequence x = attempt_no j + 1
     \<and> json_eq (payload_json x) [(''job_id'', JText (uuid_text (job_id (fixed j))))]
     \<and> event_status e \<in> {PROCESSING, EVENT_FAILED, PUBLISHED})"

text \<open>The writable CTE of \<open>claim_job\<close>: the job starts running and its first step is inserted.\<close>

definition claim_statement ::
  "clocks \<Rightarrow> string \<Rightarrow> int \<Rightarrow> job_rows \<Rightarrow> (claimed_job option \<times> job_rows) result" where
  "claim_statement c worker seq rows =
     bind_result (save_job c (\<lambda>j. j\<lparr>status := RUNNING, stage := Some (start_step_code j),
         attempt_no := attempt_no j + 1, worker_id := Some worker,
         row_version := row_version j + 1\<rparr>) rows) (\<lambda>rows1.
       let j = the_job rows1 in
       bind_result (insert_step (t_insert c) rows1
           (running_step_of j (new_step_id c) seq (the (started_at j)))) (\<lambda>rows2.
         bind_result (commit_job (the_job rows) rows2) (\<lambda>rows3.
           Inr (Some (claimed_job_of j (new_step_id c) seq), rows3))))"

text \<open>\<open>claim_job\<close> after its resource row has been locked and admitted (\<open>admitted\<close>).\<close>

definition claim_job ::
  "clocks \<Rightarrow> outbox_event option \<Rightarrow> int \<Rightarrow> string \<Rightarrow> int \<Rightarrow> (job \<Rightarrow> bool) \<Rightarrow> job_rows
   \<Rightarrow> (claimed_job option \<times> job_rows) result" where
  "claim_job c event version worker seq admitted rows =
     (let j = the_job rows in
      if status j \<noteq> QUEUED then Inr (None, rows)
      else case event of
        None \<Rightarrow> Inr (None, rows)
      | Some e \<Rightarrow>
          if \<not> claim_identity_matches j e version then Inr (None, rows)
          else if attempt_steps rows (attempt_no j + 1) \<noteq> [] then Inr (None, rows)
          else if \<not> admitted j then Inr (None, rows)
          else claim_statement c worker seq rows)"

section \<open>What the holder of a claim does\<close>

definition heartbeat ::
  "clocks \<Rightarrow> claimed_job \<Rightarrow> job_rows \<Rightarrow> (claimed_job option \<times> job_rows) result" where
  "heartbeat c claim rows =
     (let j = the_job rows; t = t_stmt c in
      if holds (sql_all [version_fence t claim j, known (status j \<in> {RUNNING, CANCEL_REQUESTED}),
           known (attempt_no j = snap_attempt_no (cj_job claim))])
      then bind_result (save_job c (\<lambda>j. j\<lparr>heartbeat_at := Some t,
               lease_expires_at := Some (t + lease_length), row_version := row_version j + 1\<rparr>) rows)
             (\<lambda>rows1. bind_result (commit_job j rows1) (\<lambda>rows2.
               Inr (Some (claimed_job_of (the_job rows2) (cj_step_id claim) (cj_step_seq claim)), rows2)))
      else Inr (None, rows))"

definition advance_step ::
  "clocks \<Rightarrow> claimed_job \<Rightarrow> string \<Rightarrow> string \<Rightarrow> int \<Rightarrow> job_rows
   \<Rightarrow> (claimed_job option \<times> job_rows) result" where
  "advance_step c claim summary next_code next_seq rows =
     (let j = the_job rows; t = t_stmt c in
      bind_result (end_step (t_step c) (cj_step_id claim)
          (\<lambda>s. current_step claim j s \<and> status j = RUNNING \<and> holds (version_fence t claim j))
          (\<lambda>s. s\<lparr>step_status := STEP_SUCCEEDED, step_finished_at := Some t, step_summary := summary\<rparr>)
          rows) (\<lambda>ended. case ended of
        None \<Rightarrow> Inr (None, rows)
      | Some rows1 \<Rightarrow>
          bind_result (save_job c (\<lambda>j. j\<lparr>stage := Some next_code, heartbeat_at := Some t,
              lease_expires_at := Some (t + lease_length), row_version := row_version j + 1\<rparr>) rows1)
            (\<lambda>rows2. let j' = the_job rows2 in
             bind_result (insert_step (t_insert c) rows2
                 (running_step_of j' (new_step_id c) next_seq (the (heartbeat_at j')))) (\<lambda>rows3.
               bind_result (commit_job j rows3) (\<lambda>rows4.
                 Inr (Some (claimed_job_of j' (new_step_id c) next_seq), rows4))))))"

datatype job_end = END_SUCCEEDED | END_FAILED | END_CANCELLED

definition job_end_status :: "job_end \<Rightarrow> job_status" where
  "job_end_status e = (case e of END_SUCCEEDED \<Rightarrow> SUCCEEDED | END_FAILED \<Rightarrow> FAILED
     | END_CANCELLED \<Rightarrow> CANCELLED)"

definition step_end_status :: "job_end \<Rightarrow> step_status" where
  "step_end_status e = (case e of END_SUCCEEDED \<Rightarrow> STEP_SUCCEEDED | END_FAILED \<Rightarrow> STEP_FAILED
     | END_CANCELLED \<Rightarrow> STEP_CANCELLED)"

definition next_retry :: "job_end \<Rightarrow> string option \<Rightarrow> job_snapshot \<Rightarrow> bool" where
  "next_retry e code snap \<longleftrightarrow> e = END_FAILED \<and> holds (sql_in code transient_codes)
     \<and> snap_attempt_no snap < snap_max_attempts snap"

definition finish_job ::
  "clocks \<Rightarrow> claimed_job \<Rightarrow> job_end \<Rightarrow> string \<Rightarrow> string option \<Rightarrow> string option \<Rightarrow> job_rows
   \<Rightarrow> (bool \<times> job_rows) result" where
  "finish_job c claim e summary code msg rows =
     (let j = the_job rows; t = t_stmt c;
          code' = (if e = END_CANCELLED then Some ''JOB_CANCELLED'' else code);
          msg' = (if e = END_CANCELLED then None else msg);
          required = (if e = END_CANCELLED then CANCEL_REQUESTED else RUNNING)
      in bind_result (end_step (t_step c) (cj_step_id claim)
          (\<lambda>s. current_step claim j s \<and> status j = required \<and> holds (version_fence t claim j))
          (\<lambda>s. s\<lparr>step_status := step_end_status e, step_finished_at := Some t,
               step_summary := summary, step_error_code := code'\<rparr>) rows) (\<lambda>ended. case ended of
        None \<Rightarrow> Inr (False, rows)
      | Some rows1 \<Rightarrow>
          bind_result (save_job c (\<lambda>j. clear_lease (j\<lparr>status := job_end_status e,
              finished_at := Some t, error_code := code', error_message := msg',
              next_retry_at := (if next_retry e code' (cj_job claim) then Some t else None)\<rparr>)) rows1)
            (\<lambda>rows2. bind_result (commit_job j rows2) (\<lambda>rows3. Inr (True, rows3)))))"

definition finish_cancel_requested :: "clocks \<Rightarrow> claimed_job \<Rightarrow> job_rows \<Rightarrow> (bool \<times> job_rows) result" where
  "finish_cancel_requested c claim rows =
     (let j = the_job rows; t = t_stmt c in
      bind_result (end_step (t_step c) (cj_step_id claim)
          (\<lambda>s. current_step claim j s \<and> status j = CANCEL_REQUESTED \<and> holds (lease_fence claim j))
          (\<lambda>s. s\<lparr>step_status := STEP_CANCELLED, step_finished_at := Some t, step_summary := ''{}'',
               step_error_code := Some ''JOB_CANCELLED''\<rparr>) rows) (\<lambda>ended. case ended of
        None \<Rightarrow> Inr (False, rows)
      | Some rows1 \<Rightarrow>
          bind_result (save_job c (\<lambda>j. clear_lease (j\<lparr>status := CANCELLED, finished_at := Some t,
              error_code := Some ''JOB_CANCELLED'', error_message := None, next_retry_at := None\<rparr>))
              rows1)
            (\<lambda>rows2. bind_result (commit_job j rows2) (\<lambda>rows3. Inr (True, rows3)))))"

section \<open>The business rows behind audit and report jobs\<close>

record execution_row =
  exec_id :: uuid
  exec_organization_id :: uuid
  exec_task_id :: uuid
  exec_job_id :: "uuid option"
  exec_status :: string
  exec_snapshot_sha256 :: string
  exec_retryable :: bool
  exec_failure_code :: "string option"
  exec_finished_at :: "time option"
  exec_row_version :: int

record snapshot_row =
  snapshot_id :: uuid
  snapshot_organization_id :: uuid
  snapshot_execution_id :: uuid
  snapshot_task_id :: uuid
  facts_sha256 :: string

record report_row =
  report_id :: uuid
  report_organization_id :: uuid
  report_execution_id :: uuid
  report_task_id :: uuid
  report_job_id :: "uuid option"
  payload_sha256 :: string
  report_status :: string
  report_failure_code :: "string option"
  report_row_version :: int

definition report_input :: "report_row \<Rightarrow> json_object" where
  "report_input r = [(''report_id'', JText (uuid_text (report_id r))),
     (''execution_id'', JText (uuid_text (report_execution_id r))),
     (''payload_sha256'', JText (payload_sha256 r))]"

definition audit_input :: "execution_row \<Rightarrow> snapshot_row \<Rightarrow> json_object" where
  "audit_input x s = [(''execution_id'', JText (uuid_text (exec_id x))),
     (''snapshot_id'', JText (uuid_text (snapshot_id s))),
     (''snapshot_sha256'', JText (facts_sha256 s))]"

definition admit_audit_job :: "execution_row \<Rightarrow> snapshot_row \<Rightarrow> job \<Rightarrow> bool" where
  "admit_audit_job x s j \<longleftrightarrow> job_type (fixed j) = ''audit_execute'' \<and> start_step_code j = ''evaluate''
     \<and> exec_status x = ''queued'' \<and> exec_job_id x = Some (job_id (fixed j))
     \<and> exec_snapshot_sha256 x = facts_sha256 s \<and> json_eq (input_json (fixed j)) (audit_input x s)"

definition admit_report_job :: "execution_row \<Rightarrow> report_row \<Rightarrow> job \<Rightarrow> bool" where
  "admit_report_job x r j \<longleftrightarrow> job_type (fixed j) = ''report_generate'' \<and> start_step_code j = ''generate''
     \<and> report_status r = ''queued'' \<and> report_job_id r = Some (job_id (fixed j))
     \<and> exec_status x = ''completed'' \<and> job_organization_id (fixed j) = report_organization_id r
     \<and> resource_id (fixed j) = report_id r \<and> json_eq (input_json (fixed j)) (report_input r)"

definition report_resource_matches :: "job \<Rightarrow> execution_row \<Rightarrow> report_row \<Rightarrow> bool" where
  "report_resource_matches j x r \<longleftrightarrow> job_type (fixed j) = ''report_generate''
     \<and> resource_type (fixed j) = ''audit_report''
     \<and> job_organization_id (fixed j) = report_organization_id r
     \<and> report_organization_id r = exec_organization_id x \<and> resource_id (fixed j) = report_id r
     \<and> report_execution_id r = exec_id x \<and> report_task_id r = exec_task_id x
     \<and> report_job_id r = Some (job_id (fixed j)) \<and> json_eq (input_json (fixed j)) (report_input r)"

definition audit_resource_matches :: "job \<Rightarrow> execution_row \<Rightarrow> snapshot_row \<Rightarrow> bool" where
  "audit_resource_matches j x s \<longleftrightarrow> job_type (fixed j) = ''audit_execute''
     \<and> resource_type (fixed j) = ''audit_task_execution''
     \<and> job_organization_id (fixed j) = exec_organization_id x
     \<and> exec_organization_id x = snapshot_organization_id s \<and> resource_id (fixed j) = exec_id x
     \<and> exec_id x = snapshot_execution_id s \<and> exec_task_id x = snapshot_task_id s
     \<and> exec_job_id x = Some (job_id (fixed j)) \<and> exec_snapshot_sha256 x = facts_sha256 s
     \<and> json_eq (input_json (fixed j)) (audit_input x s)"

section \<open>Retry\<close>

definition requeue_job :: "job \<Rightarrow> job" where
  "requeue_job j = j\<lparr>status := QUEUED, stage := None, next_retry_at := None, worker_id := None,
     started_at := None, finished_at := None, error_code := None, error_message := None,
     lease_owner := None, lease_expires_at := None, heartbeat_at := None,
     row_version := row_version j + 1\<rparr>"

text \<open>The event appended for the next attempt; \<open>eid\<close> and \<open>xid\<close> are the fresh identifiers.\<close>

definition dispatch_event :: "uuid \<Rightarrow> uuid \<Rightarrow> time \<Rightarrow> job \<Rightarrow> outbox_event" where
  "dispatch_event eid xid now j =
     \<lparr>event_fixed = \<lparr>outbox_id = eid, aggregate_type = ''async_job'', aggregate_id = job_id (fixed j),
        event_id = xid, event_type = ''job.dispatch.requested'', event_version = 1,
        event_sequence = attempt_no j + 1,
        payload_json = [(''job_id'', JText (uuid_text (job_id (fixed j))))],
        event_trace_id = job_trace_id (fixed j), event_created_at = now\<rparr>,
      event_status = PENDING, attempt_count = 0, next_attempt_at = None, published_at = None,
      last_error = None\<rparr>"

definition retry_due :: "time \<Rightarrow> string \<Rightarrow> job \<Rightarrow> bool" where
  "retry_due now start_code j \<longleftrightarrow> status j = FAILED \<and> next_retry_at j \<noteq> None
     \<and> attempt_no j < max_attempts_of j \<and> start_step_code j = start_code
     \<and> the (next_retry_at j) \<le> now"

definition requeue_statement ::
  "clocks \<Rightarrow> uuid \<Rightarrow> uuid \<Rightarrow> job_rows \<Rightarrow> (outbox_event \<times> job_rows) result" where
  "requeue_statement c eid xid rows =
     bind_result (save_job c requeue_job rows) (\<lambda>rows1.
       bind_result (event_insert_trigger (Some (the_job rows1))
           (dispatch_event eid xid (t_insert c) (the_job rows1))) (\<lambda>e.
         bind_result (event_checks e) (\<lambda>_.
           bind_result (commit_job (the_job rows) rows1) (\<lambda>rows2. Inr (e, rows2)))))"

definition requeue_failed_report_job ::
  "clocks \<Rightarrow> uuid \<Rightarrow> uuid \<Rightarrow> string \<Rightarrow> execution_row \<Rightarrow> report_row \<Rightarrow> job_rows
   \<Rightarrow> ((report_row \<times> outbox_event) option \<times> job_rows) result" where
  "requeue_failed_report_job c eid xid start_code x r rows =
     (let j = the_job rows in
      if start_code = ''generate'' \<and> retry_due (t_stmt c) start_code j \<and> report_status r = ''failed''
        \<and> report_failure_code r \<noteq> Some ''STORAGE_OUTCOME_UNKNOWN'' \<and> exec_status x = ''completed''
        \<and> report_resource_matches j x r
      then bind_result (requeue_statement c eid xid rows) (\<lambda>(e, rows').
        Inr (Some (r\<lparr>report_status := ''queued'', report_failure_code := None,
                     report_row_version := report_row_version r + 1\<rparr>, e), rows'))
      else Inr (None, rows))"

definition requeue_failed_audit_job ::
  "clocks \<Rightarrow> uuid \<Rightarrow> uuid \<Rightarrow> string \<Rightarrow> execution_row \<Rightarrow> snapshot_row \<Rightarrow> job_rows
   \<Rightarrow> ((execution_row \<times> outbox_event) option \<times> job_rows) result" where
  "requeue_failed_audit_job c eid xid start_code x s rows =
     (let j = the_job rows in
      if start_code = ''evaluate'' \<and> retry_due (t_stmt c) start_code j \<and> exec_status x = ''failed''
        \<and> exec_retryable x \<and> audit_resource_matches j x s
      then bind_result (requeue_statement c eid xid rows) (\<lambda>(e, rows').
        Inr (Some (x\<lparr>exec_status := ''queued'', exec_failure_code := None, exec_retryable := False,
                     exec_finished_at := None, exec_row_version := exec_row_version x + 1\<rparr>, e), rows'))
      else Inr (None, rows))"

section \<open>Lease recovery\<close>

datatype recovery = RECLAIMED claimed_job | EXHAUSTED | STALE

text \<open>The statement that fails the step and the job of a lost worker.\<close>

definition exhaust_statement ::
  "clocks \<Rightarrow> uuid \<Rightarrow> string \<Rightarrow> string \<Rightarrow> job_rows \<Rightarrow> (recovery \<times> job_rows) result" where
  "exhaust_statement c sid code msg rows =
     bind_result (end_step (t_step c) sid (\<lambda>s. step_status s = STEP_RUNNING)
         (\<lambda>s. s\<lparr>step_status := STEP_FAILED, step_finished_at := Some (t_stmt c),
              step_summary := ''{}'', step_error_code := Some code\<rparr>) rows) (\<lambda>ended. case ended of
       None \<Rightarrow> Inr (STALE, rows)
     | Some rows1 \<Rightarrow>
         bind_result (save_job c (\<lambda>j. clear_lease (j\<lparr>status := FAILED, finished_at := Some (t_stmt c),
             error_code := Some code, error_message := Some msg, next_retry_at := None\<rparr>)) rows1)
           (\<lambda>rows2. bind_result (commit_job (the_job rows) rows2) (\<lambda>rows3. Inr (EXHAUSTED, rows3))))"

text \<open>The statement that gives the job to another worker: a new attempt, lease and first step.\<close>

definition reclaim_statement ::
  "clocks \<Rightarrow> uuid \<Rightarrow> string \<Rightarrow> int \<Rightarrow> job_rows \<Rightarrow> (recovery \<times> job_rows) result" where
  "reclaim_statement c sid worker seq rows =
     (let t = t_stmt c in
      bind_result (end_step (t_step c) sid (\<lambda>s. step_status s = STEP_RUNNING)
         (\<lambda>s. s\<lparr>step_status := STEP_FAILED, step_finished_at := Some t, step_summary := ''{}'',
              step_error_code := Some ''LEASE_EXPIRED''\<rparr>) rows) (\<lambda>ended. case ended of
       None \<Rightarrow> Inr (STALE, rows)
     | Some rows1 \<Rightarrow>
         bind_result (save_job c (\<lambda>j. j\<lparr>attempt_no := attempt_no j + 1,
             stage := Some (start_step_code j), worker_id := Some worker, started_at := Some t,
             heartbeat_at := Some t, lease_expires_at := Some (t + lease_length),
             row_version := row_version j + 1\<rparr>) rows1) (\<lambda>rows2.
           let j = the_job rows2 in
           bind_result (insert_step (t_insert c) rows2
               (running_step_of j (new_step_id c) seq (the (started_at j)))) (\<lambda>rows3.
             bind_result (commit_job (the_job rows) rows3) (\<lambda>rows4.
               Inr (RECLAIMED (claimed_job_of j (new_step_id c) seq), rows4))))))"

definition valid_recovery_identity :: "string \<Rightarrow> int \<Rightarrow> unit result" where
  "valid_recovery_identity worker seq =
     check (worker \<noteq> [] \<and> length worker \<le> 100 \<and> seq > 0) ''invalid lease recovery identity''"

text \<open>A running job whose lease and grace have passed, with the running step of its attempt; \<open>now\<close> is
  read before the statement's clock.\<close>

definition expired_step :: "time \<Rightarrow> string \<Rightarrow> job_rows \<Rightarrow> job_step option" where
  "expired_step now start_code rows =
     (let j = the_job rows in
      if status j \<noteq> RUNNING \<or> lease_expires_at j = None \<or> start_step_code j \<noteq> start_code then None
      else if now < the (lease_expires_at j) + recovery_grace then None
      else case find (\<lambda>s. step_status s = STEP_RUNNING) (attempt_steps rows (attempt_no j)) of
          None \<Rightarrow> None
        | Some s \<Rightarrow> if Some (step_code s) \<noteq> stage j then None else Some s)"

definition recover_expired_report_job ::
  "clocks \<Rightarrow> time \<Rightarrow> string \<Rightarrow> string \<Rightarrow> int \<Rightarrow> execution_row \<Rightarrow> report_row \<Rightarrow> job_rows
   \<Rightarrow> ((recovery \<times> report_row) \<times> job_rows) result" where
  "recover_expired_report_job c now worker start_code seq x r rows =
     bind_result (valid_recovery_identity worker seq) (\<lambda>_.
       let j = the_job rows in
       if start_code \<noteq> ''generate'' \<or> report_status r \<noteq> ''generating'' \<or> \<not> report_resource_matches j x r
       then Inr ((STALE, r), rows)
       else case expired_step now start_code rows of
         None \<Rightarrow> Inr ((STALE, r), rows)
       | Some s \<Rightarrow>
           if attempt_no j \<ge> max_attempts_of j \<or> exec_status x \<noteq> ''completed''
           then let code = (if exec_status x = ''completed'' then ''WORKER_LOST''
                            else ''AUDIT_EXECUTION_OUTDATED'');
                    r' = r\<lparr>report_status := ''failed'', report_failure_code := Some code,
                           report_row_version := report_row_version r + 1\<rparr>
             in bind_result (exhaust_statement c (step_id s) code ''report worker lease expired'' rows)
                  (\<lambda>(out, rows'). Inr ((out, r'), rows'))
           else bind_result (reclaim_statement c (step_id s) worker seq rows)
                  (\<lambda>(out, rows'). Inr ((out, r), rows')))"

definition recover_expired_audit_job ::
  "clocks \<Rightarrow> time \<Rightarrow> string \<Rightarrow> string \<Rightarrow> int \<Rightarrow> execution_row \<Rightarrow> snapshot_row \<Rightarrow> job_rows
   \<Rightarrow> ((recovery \<times> execution_row) \<times> job_rows) result" where
  "recover_expired_audit_job c now worker start_code seq x s rows =
     bind_result (valid_recovery_identity worker seq) (\<lambda>_.
       let j = the_job rows in
       if start_code \<noteq> ''evaluate'' \<or> exec_status x \<noteq> ''running'' \<or> \<not> audit_resource_matches j x s
       then Inr ((STALE, x), rows)
       else case expired_step now start_code rows of
         None \<Rightarrow> Inr ((STALE, x), rows)
       | Some st \<Rightarrow>
           if attempt_no j \<ge> max_attempts_of j
           then let x' = x\<lparr>exec_status := ''failed'', exec_failure_code := Some ''WORKER_LOST'',
                     exec_retryable := False, exec_finished_at := Some now,
                     exec_row_version := exec_row_version x + 1\<rparr>
             in bind_result (exhaust_statement c (step_id st) ''WORKER_LOST'' ''worker lease expired'' rows)
                  (\<lambda>(out, rows'). Inr ((out, x'), rows'))
           else bind_result (reclaim_statement c (step_id st) worker seq rows)
                  (\<lambda>(out, rows'). Inr ((out, x), rows')))"

section \<open>Cancellation\<close>

text \<open>The branch on the job's status in \<open>AuditRuntimeRepository\<close> (outdating an execution) and in
  \<open>AuditManagementService\<close> (cancelling one): a queued job ends, a running one is asked to stop.\<close>

definition cancel_job :: "clocks \<Rightarrow> job_rows \<Rightarrow> job_rows result" where
  "cancel_job c rows =
     (let j = the_job rows in
      if status j = QUEUED
      then bind_result (save_job c (\<lambda>j. j\<lparr>status := CANCELLED, finished_at := Some (t_stmt c),
             error_code := Some ''JOB_CANCELLED'', error_message := None,
             row_version := row_version j + 1\<rparr>) rows) (commit_job j)
      else if status j = RUNNING
      then bind_result (save_job c (\<lambda>j. j\<lparr>status := CANCEL_REQUESTED,
             row_version := row_version j + 1\<rparr>) rows) (commit_job j)
      else Inr rows)"

section \<open>What an accepted update of a job is\<close>

definition job_edge :: "job_status \<Rightarrow> job_status \<Rightarrow> bool" where
  "job_edge a b \<longleftrightarrow> (a, b) \<in> {(QUEUED, RUNNING), (QUEUED, CANCELLED), (QUEUED, FAILED),
     (RUNNING, RUNNING), (RUNNING, CANCEL_REQUESTED), (RUNNING, SUCCEEDED), (RUNNING, FAILED),
     (CANCEL_REQUESTED, CANCEL_REQUESTED), (CANCEL_REQUESTED, CANCELLED), (FAILED, QUEUED)}"

definition takes_attempt :: "time \<Rightarrow> job \<Rightarrow> job \<Rightarrow> bool" where
  "takes_attempt now old row \<longleftrightarrow> attempt_no row = attempt_no old + 1 \<and> status row = RUNNING
     \<and> (status old = QUEUED \<or> status old = RUNNING
        \<and> (\<forall>e. lease_expires_at old = Some e \<longrightarrow> e + recovery_grace \<le> now))"

lemma update_job_accepted:
  assumes "update_job now owner old new = Inr row"
  shows "fixed row = fixed old \<and> row_version row = row_version old + 1 \<and> job_checks row = Inr ()
    \<and> job_edge (status old) (status row)
    \<and> (takes_attempt now old row \<and> lease_owner row = Some owner
       \<or> attempt_no row = attempt_no old \<and> \<not> (status old = QUEUED \<and> status row = RUNNING))"
proof -
  from assms have trigger: "job_update_trigger now owner old new = Inr row"
    and checks: "job_checks row = Inr ()"
    by (auto simp: update_job_def)
  have "fixed row = fixed old \<and> row_version row = row_version old + 1
    \<and> job_edge (status old) (status row)
    \<and> (takes_attempt now old row \<and> lease_owner row = Some owner
       \<or> attempt_no row = attempt_no old \<and> \<not> (status old = QUEUED \<and> status row = RUNNING))"
    by (insert trigger, cases "status old"; cases "status new")
      (auto simp: job_update_trigger_def job_edge_def takes_attempt_def running_update_def
        claimed_lease_def renew_lease_def invalid_claim_def invalid_queued_cancellation_def
        invalid_queued_failure_def invalid_recovery_def invalid_cancel_request_def
        invalid_running_end_def invalid_cancel_heartbeat_def invalid_active_cancellation_def
        invalid_retry_def Let_def not_holds_any holds_cmp plus_interval_def not_less
        simp del: holds_connectives split: if_splits)
  with checks show ?thesis by simp
qed

end
