(* ===== verification/FileJobs.thy ===== *)
theory FileJobs
  imports JobRuntime
begin

text \<open>
  The calls of \<open>JobRuntimeRepository\<close> (\<open>app/repositories/job_runtime.py\<close>) that act on a job together with the
  file, parse version or knowledge row it works on: claiming such a job, the outcomes of a scan, retry, lease
  recovery, and the dispatcher's failure of a queued job. A business row that the call has locked is an argument
  and is returned as the call leaves it; its columns that no condition reads (\<open>updated_at\<close>, \<open>updated_by\<close>,
  \<open>rejection_message\<close>) and the constraints of its table are not modelled. The rows read by a
  query (the parse versions) are a list.
\<close>

section \<open>The business rows\<close>

record file_row =
  file_id :: uuid
  file_organization_id :: uuid
  file_status :: string
  security_scan_status :: string
  intended_business_type :: string
  auto_process_requested :: bool
  original_minio_bucket :: "string option"
  original_minio_object_key :: "string option"
  stored_at :: "time option"
  rejection_code :: "string option"
  file_row_version :: int

record parse_row =
  parse_id :: uuid
  parse_file_id :: uuid
  parse_parent_id :: "uuid option"
  parse_source_type :: string
  parse_code_version :: string
  parse_status :: string
  parse_error_code :: "string option"
  parse_error_message :: "string option"
  parse_created_by :: "uuid option"
  parse_trace_id :: "uuid option"
  parse_archived_at :: "time option"

record correction_row =
  correction_id :: uuid
  correction_source_id :: uuid
  correction_result_id :: uuid
  corrected_by :: uuid
  correction_trace_id :: uuid

record index_version_row =
  index_id :: uuid
  index_organization_id :: uuid
  index_status :: string
  index_failure_code :: "string option"
  index_row_version :: int

record eval_run_row =
  run_id :: uuid
  run_organization_id :: uuid
  run_status :: string
  run_failure_code :: "string option"
  run_completed_case_count :: int
  run_finished_at :: "time option"

datatype knowledge_row = INDEX_VERSION index_version_row | EVAL_RUN eval_run_row

text \<open>\<open>job.input_json.get(key) == str(id)\<close>.\<close>

definition input_names :: "job \<Rightarrow> string \<Rightarrow> uuid \<Rightarrow> bool" where
  "input_names j key u \<longleftrightarrow> json_get (input_json (fixed j)) key = Some (JText (uuid_text u))"

definition clean_original :: "file_row \<Rightarrow> bool" where
  "clean_original f \<longleftrightarrow> file_status f = ''stored'' \<and> security_scan_status f = ''clean''
     \<and> original_minio_bucket f \<noteq> None \<and> original_minio_object_key f \<noteq> None"

definition awaits_scan :: "file_row \<Rightarrow> bool" where
  "awaits_scan f \<longleftrightarrow> file_status f = ''validating'' \<and> security_scan_status f = ''pending''"

definition extracted_type :: "string \<Rightarrow> string option" where
  "extracted_type t = (if t = ''invoice_extract'' then Some ''invoice''
     else if t = ''contract_extract'' then Some ''contract'' else None)"

text \<open>
  \<open>_financial_extract_source_available\<close>. Only a text equal to its own \<open>str(UUID(...))\<close> goes on, so the query
  finds the version whose identifier has that text. A missing or null value, and a text that is no UUID, are
  caught; any other value has no \<open>replace\<close>, which \<open>UUID\<close> calls, and that exception escapes.
\<close>

definition financial_extract_source_available :: "parse_row list \<Rightarrow> job \<Rightarrow> file_row \<Rightarrow> bool result" where
  "financial_extract_source_available versions j f =
     (case json_get (input_json (fixed j)) ''parse_version_id'' of
        None \<Rightarrow> Inr False
      | Some JNull \<Rightarrow> Inr False
      | Some (JUnicode u) \<Rightarrow> Inr False
      | Some (JText raw) \<Rightarrow>
          Inr (extracted_type (job_type (fixed j)) \<noteq> None \<and> input_names j ''file_id'' (file_id f)
            \<and> file_status f = ''stored'' \<and> security_scan_status f = ''clean''
            \<and> Some (intended_business_type f) = extracted_type (job_type (fixed j))
            \<and> auto_process_requested f
            \<and> list_ex (\<lambda>v. uuid_text (parse_id v) = raw \<and> parse_file_id v = file_id f
                \<and> parse_status v \<in> {''succeeded'', ''manual_review_required'', ''active''}
                \<and> parse_archived_at v = None) versions)
      | Some v \<Rightarrow> Inl (DomainError ''AttributeError''))"

text \<open>A job on a parse version, with the rows it depends on, when the version has the status \<open>wanted\<close>.\<close>

definition parse_source_type_of :: "job \<Rightarrow> string" where
  "parse_source_type_of j = (if job_type (fixed j) = ''manual_correction_snapshot''
     then ''manual_correction'' else ''security_revalidation'')"

definition parse_job_matches :: "string \<Rightarrow> file_row \<Rightarrow> parse_row \<Rightarrow> parse_row \<Rightarrow> job \<Rightarrow> bool" where
  "parse_job_matches wanted f source res j \<longleftrightarrow>
     job_type (fixed j) \<in> {''manual_correction_snapshot'', ''asset_security_revalidation''}
     \<and> resource_id (fixed j) = parse_id res \<and> job_organization_id (fixed j) = file_organization_id f
     \<and> parse_file_id res = file_id f \<and> parse_status res = wanted
     \<and> parse_source_type res = parse_source_type_of j \<and> parse_parent_id res = Some (parse_id source)
     \<and> parse_trace_id res = Some (job_trace_id (fixed j)) \<and> parse_file_id source = file_id f"

section \<open>Claiming a file or parse job\<close>

text \<open>The conditions of \<open>claim_job\<close> before it looks at the resource.\<close>

definition reaches_admission :: "outbox_event option \<Rightarrow> int \<Rightarrow> job_rows \<Rightarrow> bool" where
  "reaches_admission event version rows \<longleftrightarrow> (let j = the_job rows in
     status j = QUEUED \<and> (case event of None \<Rightarrow> False | Some e \<Rightarrow> claim_identity_matches j e version)
     \<and> attempt_steps rows (attempt_no j + 1) = [])"

text \<open>
  The branch of a job of type \<open>file\<close>, whose file is the row with the identifier of its resource: \<open>None\<close> refuses
  the claim; a scan moves the file to validating.
\<close>

definition admit_file_job :: "parse_row list \<Rightarrow> file_row \<Rightarrow> job \<Rightarrow> file_row option result" where
  "admit_file_job versions f j =
     (if start_step_code j = ''scan''
      then Inr (if resource_id (fixed j) = file_id f \<and> job_organization_id (fixed j) = file_organization_id f
            \<and> file_status f \<in> {''uploaded'', ''validating''} \<and> security_scan_status f = ''pending''
          then Some (f\<lparr>file_status := ''validating'', file_row_version := file_row_version f + 1\<rparr>) else None)
      else if start_step_code j = ''parse'' then Inr (if clean_original f then Some f else None)
      else if start_step_code j = ''extract''
      then bind_result (financial_extract_source_available versions j f)
             (\<lambda>ok. Inr (if ok then Some f else None))
      else Inr None)"

definition claim_file_job ::
  "clocks \<Rightarrow> outbox_event option \<Rightarrow> int \<Rightarrow> string \<Rightarrow> int \<Rightarrow> parse_row list \<Rightarrow> file_row \<Rightarrow> job_rows
   \<Rightarrow> ((claimed_job option \<times> file_row) \<times> job_rows) result" where
  "claim_file_job c event version worker seq versions f rows =
     (if \<not> reaches_admission event version rows then Inr ((None, f), rows)
      else bind_result (admit_file_job versions f (the_job rows)) (\<lambda>admitted. case admitted of
        None \<Rightarrow> Inr ((None, f), rows)
      | Some f' \<Rightarrow> bind_result (claim_statement c worker seq rows) (\<lambda>(claim, rows').
          Inr ((claim, f'), rows'))))"

text \<open>The parse-version branch; an asset revalidation has no correction row.\<close>

definition correction_input :: "file_row \<Rightarrow> parse_row \<Rightarrow> parse_row \<Rightarrow> correction_row \<Rightarrow> job \<Rightarrow> json_object" where
  "correction_input f source res x j =
     [(''file_id'', JText (uuid_text (file_id f))),
      (''source_parse_version_id'', JText (uuid_text (parse_id source))),
      (''result_parse_version_id'', JText (uuid_text (parse_id res))),
      (''correction_id'', JText (uuid_text (correction_id x))),
      (''handler_code_version'', JText ''manual-correction-snapshot-v1''),
      (''handler_registry_version'', JText (handler_registry_version (fixed j))),
      (''handler_registry_hash'', JText (handler_registry_hash (fixed j)))]"

definition admit_correction ::
  "file_row \<Rightarrow> parse_row \<Rightarrow> parse_row \<Rightarrow> correction_row option \<Rightarrow> job \<Rightarrow> bool" where
  "admit_correction f source res correction j \<longleftrightarrow> (case correction of None \<Rightarrow> False | Some x \<Rightarrow>
     start_step_code j = ''snapshot_rebuild'' \<and> parse_source_type res = ''manual_correction''
     \<and> parse_code_version res = ''manual-correction-snapshot-v1''
     \<and> correction_source_id x = parse_id source \<and> correction_result_id x = parse_id res
     \<and> correction_trace_id x = job_trace_id (fixed j) \<and> parse_created_by res = Some (corrected_by x)
     \<and> json_eq (input_json (fixed j)) (correction_input f source res x j))"

definition admit_revalidation :: "file_row \<Rightarrow> parse_row \<Rightarrow> parse_row \<Rightarrow> job \<Rightarrow> bool" where
  "admit_revalidation f source res j \<longleftrightarrow>
     start_step_code j = ''asset_security_revalidation'' \<and> parse_source_type res = ''security_revalidation''
     \<and> parse_code_version res = ''asset-security-revalidation-v1'' \<and> input_names j ''file_id'' (file_id f)
     \<and> input_names j ''source_parse_version_id'' (parse_id source)
     \<and> input_names j ''result_parse_version_id'' (parse_id res)
     \<and> json_get (input_json (fixed j)) ''handler_code_version'' = Some (JText ''asset-security-revalidation-v1'')
     \<and> length (input_json (fixed j)) = 14"

definition admit_parse_job ::
  "file_row \<Rightarrow> parse_row \<Rightarrow> parse_row \<Rightarrow> correction_row option \<Rightarrow> job \<Rightarrow> bool" where
  "admit_parse_job f source res correction j \<longleftrightarrow>
     input_schema_version (fixed j) = 1 \<and> job_organization_id (fixed j) = file_organization_id f
     \<and> resource_id (fixed j) = parse_id res \<and> parse_file_id res = file_id f \<and> parse_status res = ''queued''
     \<and> parse_parent_id res = Some (parse_id source) \<and> parse_archived_at res = None
     \<and> parse_file_id source = file_id f \<and> parse_status source \<in> {''active'', ''superseded''}
     \<and> parse_archived_at source = None \<and> parse_trace_id res = Some (job_trace_id (fixed j))
     \<and> (if job_type (fixed j) = ''manual_correction_snapshot'' then admit_correction f source res correction j
        else job_type (fixed j) = ''asset_security_revalidation'' \<and> admit_revalidation f source res j)"

definition claim_parse_job ::
  "clocks \<Rightarrow> outbox_event option \<Rightarrow> int \<Rightarrow> string \<Rightarrow> int \<Rightarrow> file_row \<Rightarrow> parse_row \<Rightarrow> parse_row
   \<Rightarrow> correction_row option \<Rightarrow> job_rows \<Rightarrow> ((claimed_job option \<times> parse_row) \<times> job_rows) result" where
  "claim_parse_job c event version worker seq f source res correction rows =
     (if reaches_admission event version rows \<and> admit_parse_job f source res correction (the_job rows)
      then bind_result (claim_statement c worker seq rows) (\<lambda>(claim, rows').
        Inr ((claim, res\<lparr>parse_status := ''running''\<rparr>), rows'))
      else Inr ((None, res), rows))"

section \<open>The outcome of a scan\<close>

text \<open>What comes after a finished step within one statement: the job moves to the next stage.\<close>

definition next_stage ::
  "clocks \<Rightarrow> string \<Rightarrow> int \<Rightarrow> job_rows \<Rightarrow> job_rows \<Rightarrow> (claimed_job \<times> job_rows) result" where
  "next_stage c next_code next_seq rows rows1 = (let t = t_stmt c in
     bind_result (save_job c (\<lambda>j. j\<lparr>stage := Some next_code, heartbeat_at := Some t,
         lease_expires_at := Some (t + lease_length), row_version := row_version j + 1\<rparr>) rows1)
       (\<lambda>rows2. let j' = the_job rows2 in
        bind_result (insert_step (t_insert c) rows2
            (running_step_of j' (new_step_id c) next_seq (the (heartbeat_at j')))) (\<lambda>rows3.
          bind_result (commit_job (the_job rows) rows3) (\<lambda>rows4.
            Inr (claimed_job_of j' (new_step_id c) next_seq, rows4)))))"

definition scan_step :: "time \<Rightarrow> claimed_job \<Rightarrow> job \<Rightarrow> job_step \<Rightarrow> bool" where
  "scan_step t claim j s \<longleftrightarrow> step_job_id s = job_id (fixed j) \<and> step_status s = STEP_RUNNING
     \<and> step_code s = ''scan'' \<and> status j = RUNNING \<and> attempt_no j = snap_attempt_no (cj_job claim)
     \<and> holds (version_fence t claim j)"

text \<open>The file row that the statement joins to the job.\<close>

definition scanned_file :: "job \<Rightarrow> file_row \<Rightarrow> bool" where
  "scanned_file j f \<longleftrightarrow> file_id f = resource_id (fixed j)
     \<and> file_organization_id f = job_organization_id (fixed j) \<and> awaits_scan f"

text \<open>The answer of \<open>complete_file_scan_clean\<close> is \<open>None\<close>, whether the job ended, or the claim of the next step.\<close>

datatype scan_answer = NO_ANSWER | SCAN_ENDED bool | SCAN_ADVANCED claimed_job

text \<open>
  The step is ended by a data-modifying part of the statement, which takes effect even when the file row does not
  match; the transaction then commits, if it can, with the job row unchanged.
\<close>

definition complete_file_scan_clean ::
  "clocks \<Rightarrow> claimed_job \<Rightarrow> string \<Rightarrow> string \<Rightarrow> string \<Rightarrow> string option \<Rightarrow> int option \<Rightarrow> file_row \<Rightarrow> job_rows
   \<Rightarrow> ((scan_answer \<times> file_row) \<times> job_rows) result" where
  "complete_file_scan_clean c claim summary bucket key next_code next_seq f rows =
     (if snap_resource_type (cj_job claim) \<noteq> ''file'' then Inr ((NO_ANSWER, f), rows)
      else bind_result (check ((next_code = None) = (next_seq = None))
             ''next step code and sequence must be provided together'') (\<lambda>_.
        let j = the_job rows; t = t_stmt c;
            nothing = (if next_code = None then SCAN_ENDED False else NO_ANSWER);
            f' = f\<lparr>file_status := ''stored'', security_scan_status := ''clean'',
              original_minio_bucket := Some bucket, original_minio_object_key := Some key,
              stored_at := Some t, file_row_version := file_row_version f + 1\<rparr>
        in bind_result (end_step (t_step c) (cj_step_id claim) (scan_step t claim j)
            (\<lambda>s. s\<lparr>step_status := STEP_SUCCEEDED, step_finished_at := Some t, step_summary := summary\<rparr>)
            rows) (\<lambda>ended. case ended of
          None \<Rightarrow> Inr ((nothing, f), rows)
        | Some rows1 \<Rightarrow>
            if \<not> scanned_file j f
            then bind_result (commit_job j rows1) (\<lambda>rows2. Inr ((nothing, f), rows2))
            else (case (next_code, next_seq) of
              (Some code, Some seq) \<Rightarrow> bind_result (next_stage c code seq rows rows1) (\<lambda>(claim', rows2).
                Inr ((SCAN_ADVANCED claim', f'), rows2))
            | _ \<Rightarrow> bind_result (save_job c (\<lambda>j. clear_lease (j\<lparr>status := SUCCEEDED, finished_at := Some t\<rparr>)) rows1)
                (\<lambda>rows2. bind_result (commit_job j rows2) (\<lambda>rows3.
                  Inr ((SCAN_ENDED True, f'), rows3)))))))"

datatype scan_failure = INFECTED | SCAN_FAILED | UNSUPPORTED | NOT_CONFIGURED

definition scan_failure_text :: "scan_failure \<Rightarrow> string" where
  "scan_failure_text x = (case x of INFECTED \<Rightarrow> ''infected'' | SCAN_FAILED \<Rightarrow> ''scan_failed''
     | UNSUPPORTED \<Rightarrow> ''unsupported'' | NOT_CONFIGURED \<Rightarrow> ''not_configured'')"

definition fail_file_scan ::
  "clocks \<Rightarrow> claimed_job \<Rightarrow> string \<Rightarrow> scan_failure \<Rightarrow> string \<Rightarrow> string option \<Rightarrow> file_row \<Rightarrow> job_rows
   \<Rightarrow> ((bool \<times> file_row) \<times> job_rows) result" where
  "fail_file_scan c claim summary verdict code rejection f rows =
     (if snap_resource_type (cj_job claim) \<noteq> ''file'' then Inr ((False, f), rows)
      else let j = the_job rows; t = t_stmt c;
          retryable = (code \<in> set transient_codes
            \<and> snap_attempt_no (cj_job claim) < snap_max_attempts (cj_job claim));
          f' = f\<lparr>file_status := (if verdict \<in> {INFECTED, UNSUPPORTED} then ''rejected'' else ''validating''),
            security_scan_status := scan_failure_text verdict, rejection_code := rejection,
            file_row_version := file_row_version f + 1\<rparr>
        in bind_result (end_step (t_step c) (cj_step_id claim) (scan_step t claim j)
            (\<lambda>s. s\<lparr>step_status := STEP_FAILED, step_finished_at := Some t, step_summary := summary,
                 step_error_code := Some code\<rparr>) rows) (\<lambda>ended. case ended of
          None \<Rightarrow> Inr ((False, f), rows)
        | Some rows1 \<Rightarrow>
            if \<not> scanned_file j f
            then bind_result (commit_job j rows1) (\<lambda>rows2. Inr ((False, f), rows2))
            else bind_result (save_job c (\<lambda>j. clear_lease (j\<lparr>status := FAILED, finished_at := Some t,
                error_code := Some code,
                error_message := Some (if retryable then ''scanner dependency unavailable''
                  else ''file was rejected by the security gate''),
                next_retry_at := (if retryable then Some t else None)\<rparr>)) rows1)
              (\<lambda>rows2. bind_result (commit_job j rows2) (\<lambda>rows3. Inr ((True, f'), rows3)))))"

definition skip_recovered_clean_scan ::
  "clocks \<Rightarrow> claimed_job \<Rightarrow> string \<Rightarrow> int \<Rightarrow> file_row \<Rightarrow> job_rows \<Rightarrow> (claimed_job option \<times> job_rows) result" where
  "skip_recovered_clean_scan c claim next_code next_seq f rows =
     (let j = the_job rows; t = t_stmt c; sn = cj_job claim in
      if snap_job_type sn \<noteq> ''file_process'' \<or> cj_step_code claim \<noteq> ''scan'' \<or> snap_attempt_no sn \<le> 1
        \<or> next_code \<noteq> ''parse'' \<or> file_id f \<noteq> snap_resource_id sn
        \<or> file_organization_id f \<noteq> snap_organization_id sn \<or> \<not> clean_original f
      then Inr (None, rows)
      else bind_result (end_step (t_step c) (cj_step_id claim)
          (\<lambda>s. current_step claim j s \<and> step_code s = ''scan'' \<and> status j = RUNNING
             \<and> holds (version_fence t claim j)
             \<and> list_ex (\<lambda>p. step_attempt_no p < attempt_no j \<and> step_code p = ''scan''
                 \<and> step_status p = STEP_SUCCEEDED) (own_steps rows))
          (\<lambda>s. s\<lparr>step_status := STEP_SKIPPED, step_finished_at := Some t, step_summary := ''{}'',
               step_error_code := Some ''STEP_SKIPPED''\<rparr>) rows) (\<lambda>ended. case ended of
        None \<Rightarrow> Inr (None, rows)
      | Some rows1 \<Rightarrow> bind_result (next_stage c next_code next_seq rows rows1) (\<lambda>(claim', rows2).
          Inr (Some claim', rows2))))"

section \<open>Retry\<close>

text \<open>A file job is queued again at the step the caller names.\<close>

definition requeue_file_statement ::
  "clocks \<Rightarrow> uuid \<Rightarrow> uuid \<Rightarrow> string \<Rightarrow> job_rows \<Rightarrow> (outbox_event \<times> job_rows) result" where
  "requeue_file_statement c eid xid start_code rows =
     bind_result (save_job c (\<lambda>j. requeue_job (j\<lparr>start_step_code := start_code\<rparr>)) rows) (\<lambda>rows1.
       bind_result (event_insert_trigger (Some (the_job rows1))
           (dispatch_event eid xid (t_insert c) (the_job rows1))) (\<lambda>e.
         bind_result (event_checks e) (\<lambda>_.
           bind_result (commit_job (the_job rows) rows1) (\<lambda>rows2. Inr (e, rows2)))))"

text \<open>The file from which each step can start again: \<open>None\<close> when it cannot.\<close>

definition retry_source :: "string \<Rightarrow> parse_row list \<Rightarrow> file_row \<Rightarrow> job \<Rightarrow> file_row option result" where
  "retry_source start_code versions f j =
     (if start_code = ''scan''
      then Inr (if file_status f = ''validating'' \<and> security_scan_status f \<in> {''scan_failed'', ''not_configured''}
            \<and> job_type (fixed j) \<in> {''file_process'', ''file_scan''}
          then Some (f\<lparr>security_scan_status := ''pending'', file_row_version := file_row_version f + 1\<rparr>)
          else None)
      else if start_code = ''parse''
      then Inr (if job_type (fixed j) = ''file_process'' \<and> input_names j ''file_id'' (file_id f) \<and> clean_original f
          then Some f else None)
      else if start_code = ''extract''
      then bind_result (financial_extract_source_available versions j f)
             (\<lambda>ok. Inr (if ok then Some f else None))
      else Inr None)"

definition requeue_failed_file_job ::
  "clocks \<Rightarrow> uuid \<Rightarrow> uuid \<Rightarrow> string \<Rightarrow> bool \<Rightarrow> parse_row list \<Rightarrow> file_row \<Rightarrow> job_rows
   \<Rightarrow> ((file_row \<times> outbox_event) option \<times> job_rows) result" where
  "requeue_failed_file_job c eid xid start_code allow_before_next_retry versions f rows =
     (let j = the_job rows in
      if resource_type (fixed j) \<noteq> ''file'' \<or> status j \<noteq> FAILED \<or> next_retry_at j = None
        \<or> attempt_no j \<ge> max_attempts_of j \<or> resource_id (fixed j) \<noteq> file_id f
        \<or> job_organization_id (fixed j) \<noteq> file_organization_id f
        \<or> (\<not> allow_before_next_retry \<and> t_stmt c < the (next_retry_at j))
      then Inr (None, rows)
      else bind_result (retry_source start_code versions f j) (\<lambda>found. case found of
        None \<Rightarrow> Inr (None, rows)
      | Some f' \<Rightarrow> bind_result (requeue_file_statement c eid xid start_code rows) (\<lambda>(e, rows').
          Inr (Some (f', e), rows'))))"

definition knowledge_resource_matches :: "job \<Rightarrow> knowledge_row \<Rightarrow> bool" where
  "knowledge_resource_matches j k \<longleftrightarrow> (case k of
     INDEX_VERSION v \<Rightarrow> job_organization_id (fixed j) = index_organization_id v
       \<and> resource_id (fixed j) = index_id v \<and> job_type (fixed j) = ''knowledge_index_build''
       \<and> resource_type (fixed j) = ''document_index_version''
       \<and> input_names j ''index_version_id'' (index_id v) \<and> index_status v = ''building''
   | EVAL_RUN r \<Rightarrow> job_organization_id (fixed j) = run_organization_id r
       \<and> resource_id (fixed j) = run_id r \<and> job_type (fixed j) = ''retrieval_eval''
       \<and> resource_type (fixed j) = ''retrieval_eval_run''
       \<and> input_names j ''run_id'' (run_id r) \<and> run_status r = ''running'')"

definition requeue_failed_knowledge_job ::
  "clocks \<Rightarrow> uuid \<Rightarrow> uuid \<Rightarrow> string \<Rightarrow> knowledge_row \<Rightarrow> job_rows
   \<Rightarrow> (outbox_event option \<times> job_rows) result" where
  "requeue_failed_knowledge_job c eid xid start_code k rows =
     (let j = the_job rows in
      if retry_due (t_stmt c) start_code j \<and> knowledge_resource_matches j k
      then bind_result (requeue_statement c eid xid rows) (\<lambda>(e, rows'). Inr (Some e, rows'))
      else Inr (None, rows))"

section \<open>Lease recovery\<close>

definition lease_expired :: "time \<Rightarrow> string \<Rightarrow> job \<Rightarrow> bool" where
  "lease_expired now start_code j \<longleftrightarrow> status j = RUNNING \<and> start_step_code j = start_code
     \<and> (case lease_expires_at j of None \<Rightarrow> False | Some e \<Rightarrow> e + recovery_grace \<le> now)"

text \<open>The rows of a file job or a parse job; \<open>versions'\<close> holds the source and the result of the latter.\<close>

definition recovery_resource_matches ::
  "string \<Rightarrow> file_row \<Rightarrow> (parse_row \<times> parse_row) option \<Rightarrow> job \<Rightarrow> bool" where
  "recovery_resource_matches start_code f manual j \<longleftrightarrow>
     job_organization_id (fixed j) = file_organization_id f
     \<and> (if resource_type (fixed j) = ''file'' then resource_id (fixed j) = file_id f
        else resource_type (fixed j) = ''document_parse_version''
          \<and> (case manual of None \<Rightarrow> False | Some (source, res) \<Rightarrow>
               parse_job_matches ''running'' f source res j
               \<and> start_code = (if job_type (fixed j) = ''manual_correction_snapshot''
                   then ''snapshot_rebuild'' else ''asset_security_revalidation'')))"

definition recovery_source_available :: "string \<Rightarrow> parse_row list \<Rightarrow> file_row \<Rightarrow> job \<Rightarrow> bool result" where
  "recovery_source_available start_code versions f j =
     (if resource_type (fixed j) = ''document_parse_version'' then Inr (max_attempts_of j = 1)
      else if start_code = ''scan''
      then Inr (job_type (fixed j) \<in> {''file_process'', ''file_scan''}
        \<and> (awaits_scan f \<or> job_type (fixed j) = ''file_process'' \<and> clean_original f))
      else if start_code = ''parse''
      then Inr (job_type (fixed j) = ''file_process'' \<and> input_names j ''file_id'' (file_id f) \<and> clean_original f)
      else if start_code = ''extract'' then financial_extract_source_available versions j f
      else Inr False)"

text \<open>\<open>now\<close> is the clock read before the statement. The file and the parse result are returned as they are left.\<close>

definition recover_expired_file_job ::
  "clocks \<Rightarrow> time \<Rightarrow> string \<Rightarrow> string \<Rightarrow> int \<Rightarrow> parse_row list \<Rightarrow> file_row \<Rightarrow> (parse_row \<times> parse_row) option
   \<Rightarrow> job_rows \<Rightarrow> ((recovery \<times> file_row \<times> parse_row option) \<times> job_rows) result" where
  "recover_expired_file_job c now worker start_code seq versions f manual rows =
     bind_result (valid_recovery_identity worker seq) (\<lambda>_.
       let j = the_job rows; res = map_option snd manual; stale = Inr ((STALE, f, res), rows) in
       if \<not> lease_expired now start_code j \<or> \<not> recovery_resource_matches start_code f manual j then stale
       else bind_result (recovery_source_available start_code versions f j) (\<lambda>available.
         if \<not> available then stale
         else case expired_step now start_code rows of
           None \<Rightarrow> stale
         | Some s \<Rightarrow>
             if attempt_no j \<ge> max_attempts_of j
             then let f' = (if stage j = Some ''scan'' \<and> awaits_scan f
                    then f\<lparr>security_scan_status := ''scan_failed'', file_row_version := file_row_version f + 1\<rparr>
                    else f);
                  res' = (if resource_type (fixed j) = ''document_parse_version''
                    then map_option (\<lambda>r. r\<lparr>parse_status := ''failed'', parse_error_code := Some ''WORKER_LOST'',
                           parse_error_message := None\<rparr>) res
                    else res)
               in bind_result (exhaust_statement c (step_id s) ''WORKER_LOST'' ''worker lease expired'' rows)
                    (\<lambda>(out, rows'). Inr ((out, f', if out = EXHAUSTED then res' else res), rows'))
             else bind_result (reclaim_statement c (step_id s) worker seq rows)
                    (\<lambda>(out, rows'). Inr ((out, f, res), rows'))))"

text \<open>The knowledge row fails with its job; \<open>completed\<close> is the number of results the run has.\<close>

definition fail_knowledge_row :: "time \<Rightarrow> int \<Rightarrow> knowledge_row \<Rightarrow> knowledge_row" where
  "fail_knowledge_row now completed k = (case k of
     INDEX_VERSION v \<Rightarrow> INDEX_VERSION (v\<lparr>index_status := ''failed'',
       index_failure_code := Some ''WORKER_LOST'', index_row_version := index_row_version v + 1\<rparr>)
   | EVAL_RUN r \<Rightarrow> EVAL_RUN (r\<lparr>run_status := ''failed'', run_failure_code := Some ''WORKER_LOST'',
       run_completed_case_count := completed, run_finished_at := Some now\<rparr>))"

definition recover_expired_knowledge_job ::
  "clocks \<Rightarrow> time \<Rightarrow> string \<Rightarrow> string \<Rightarrow> int \<Rightarrow> int \<Rightarrow> knowledge_row \<Rightarrow> job_rows
   \<Rightarrow> ((recovery \<times> knowledge_row) \<times> job_rows) result" where
  "recover_expired_knowledge_job c now worker start_code seq completed k rows =
     bind_result (valid_recovery_identity worker seq) (\<lambda>_.
       let j = the_job rows in
       if \<not> knowledge_resource_matches j k then Inr ((STALE, k), rows)
       else case expired_step now start_code rows of
         None \<Rightarrow> Inr ((STALE, k), rows)
       | Some s \<Rightarrow>
           if attempt_no j \<ge> max_attempts_of j
           then bind_result (exhaust_statement c (step_id s) ''WORKER_LOST'' ''worker lease expired'' rows)
                  (\<lambda>(out, rows'). Inr ((out, fail_knowledge_row now completed k), rows'))
           else bind_result (reclaim_statement c (step_id s) worker seq rows)
                  (\<lambda>(out, rows'). Inr ((out, k), rows')))"

section \<open>The dispatcher\<close>

text \<open>
  \<open>mark_outbox_failure\<close> with the job it may end: a job on a parse version is touched only when its rows match, and
  its parse version fails with it. \<open>t_step\<close> is the clock of the event's trigger.
\<close>

definition dispatch_resource_matches ::
  "(file_row \<times> parse_row \<times> parse_row) option \<Rightarrow> job \<Rightarrow> bool" where
  "dispatch_resource_matches manual j \<longleftrightarrow> resource_type (fixed j) \<noteq> ''document_parse_version''
     \<or> (case manual of None \<Rightarrow> False | Some (f, source, res) \<Rightarrow> parse_job_matches ''queued'' f source res j)"

definition mark_job_dispatch_failure ::
  "(string \<Rightarrow> nat list) \<Rightarrow> clocks \<Rightarrow> string \<Rightarrow> bool \<Rightarrow> outbox_claim \<Rightarrow> (file_row \<times> parse_row \<times> parse_row) option
   \<Rightarrow> outbox_event list \<Rightarrow> job_rows
   \<Rightarrow> ((bool \<times> parse_row option \<times> outbox_event list) \<times> job_rows) result" where
  "mark_job_dispatch_failure digest c code broker_called claim manual es rows =
     (let j = the_job rows; res = map_option (snd \<circ> snd) manual in
      if snap_id (outbox_claim.claim_job claim) \<noteq> job_id (fixed j) \<or> \<not> dispatch_resource_matches manual j
      then Inr ((False, res, es), rows)
      else bind_result (mark_outbox_failure digest (t_step c) (t_stmt c) (t_job c) code broker_called claim
             \<lparr>events = es, job_row = [job_id (fixed j) \<mapsto> j]\<rparr>) (\<lambda>(ok, out).
        let j' = the (job_row out (job_id (fixed j))) in
        if j' = j then Inr ((ok, res, events out), rows)
        else bind_result (commit_job j (rows\<lparr>the_job := j'\<rparr>)) (\<lambda>rows'.
          let res' = (if resource_type (fixed j) = ''document_parse_version''
                then map_option (\<lambda>r. r\<lparr>parse_status := ''failed'', parse_error_code := error_code j',
                       parse_error_message := None\<rparr>) res
                else res)
          in Inr ((ok, res', events out), rows'))))"

end
