(* ===== verification/JobHistory.thy ===== *)
theory JobHistory
  imports FileJobs
begin

text \<open>
  Histories of one job: every call that the worker, the dispatcher, the recovery service and cancellation make on
  its rows (\<open>job_call\<close>), that each makes at most one accepted update of the job row, and what follows for any
  sequence of calls: the invariant, fencing by the row version, recovery, and the success of a heartbeat under a
  current claim.
\<close>

section \<open>What a call does to the rows\<close>

text \<open>
  Each call on the job's rows; its other arguments and its answer are arbitrary. A scan whose file row does not match
  ends its step and leaves the job alone; it starts from rows that agree with each other, as the deferred checks
  of the transactions before it guarantee, and then it cannot commit (\<open>scan_mismatch_rejected\<close>).
\<close>

inductive job_call :: "job_rows \<Rightarrow> job_rows \<Rightarrow> bool" where
  claims: "claim_job c ev v w seq adm rows = Inr (out, rows') \<Longrightarrow> job_call rows rows'"
| beats: "heartbeat c claim rows = Inr (out, rows') \<Longrightarrow> job_call rows rows'"
| advances: "advance_step c claim sm code seq rows = Inr (out, rows') \<Longrightarrow> job_call rows rows'"
| finishes: "finish_job c claim e sm code msg rows = Inr (ok, rows') \<Longrightarrow> job_call rows rows'"
| acknowledges: "finish_cancel_requested c claim rows = Inr (ok, rows') \<Longrightarrow> job_call rows rows'"
| requeues_report: "requeue_failed_report_job c eid xid code x r rows = Inr (res, rows')
    \<Longrightarrow> job_call rows rows'"
| requeues_audit: "requeue_failed_audit_job c eid xid code x s rows = Inr (res2, rows')
    \<Longrightarrow> job_call rows rows'"
| recovers_report: "recover_expired_report_job c now w code seq x r rows = Inr (res3, rows')
    \<Longrightarrow> job_call rows rows'"
| recovers_audit: "recover_expired_audit_job c now w code seq x s rows = Inr (res4, rows')
    \<Longrightarrow> job_call rows rows'"
| cancels: "cancel_job c rows = Inr rows' \<Longrightarrow> job_call rows rows'"
| fails_dispatch: "mark_job_dispatch_failure digest c code called cl man es rows = Inr (res5, rows')
    \<Longrightarrow> job_call rows rows'"
| claims_file: "claim_file_job c ev v w seq versions f rows = Inr (res6, rows') \<Longrightarrow> job_call rows rows'"
| claims_parse: "claim_parse_job c ev v w seq f source pr corr rows = Inr (res7, rows')
    \<Longrightarrow> job_call rows rows'"
| completes_scan: "job_consistency rows = Inr ()
    \<Longrightarrow> complete_file_scan_clean c claim sm bucket key ncode nseq f rows = Inr (res8, rows')
    \<Longrightarrow> job_call rows rows'"
| fails_scan: "job_consistency rows = Inr ()
    \<Longrightarrow> fail_file_scan c claim sm verdict code rejection f rows = Inr (res9, rows')
    \<Longrightarrow> job_call rows rows'"
| skips_scan: "skip_recovered_clean_scan c claim code seq f rows = Inr (out, rows') \<Longrightarrow> job_call rows rows'"
| requeues_file: "requeue_failed_file_job c eid xid code allow versions f rows = Inr (res10, rows')
    \<Longrightarrow> job_call rows rows'"
| requeues_knowledge: "requeue_failed_knowledge_job c eid xid code k rows = Inr (res11, rows')
    \<Longrightarrow> job_call rows rows'"
| recovers_file: "recover_expired_file_job c now w code seq versions f manual rows = Inr (res12, rows')
    \<Longrightarrow> job_call rows rows'"
| recovers_knowledge: "recover_expired_knowledge_job c now w code seq n k rows = Inr (res13, rows')
    \<Longrightarrow> job_call rows rows'"

lemma save_job_ok:
  "save_job c f rows = Inr rows' \<Longrightarrow>
     update_job (t_job c) (new_owner c) (the_job rows) (f (the_job rows)) = Inr (the_job rows')
     \<and> the_steps rows' = the_steps rows"
  by (auto simp: save_job_def)

lemma insert_step_ok:
  "insert_step now rows new = Inr rows' \<Longrightarrow>
     the_job rows' = the_job rows \<and> the_steps rows' = the_steps rows @ [new]"
  by (auto simp: insert_step_def step_insert_trigger_def split: if_splits)

lemma update_step_ok: "update_step now j old new = Inr row \<Longrightarrow> row = new \<and> step_checks new = Inr ()"
  by (auto simp: update_step_def step_update_trigger_def simp del: holds_connectives split: if_splits)

lemma end_step_ok:
  "end_step now sid m f rows = Inr (Some rows') \<Longrightarrow> the_job rows' = the_job rows
     \<and> (\<exists>s. find_step sid rows = Some s \<and> m s \<and> update_step now (the_job rows) s (f s) = Inr (f s)
          \<and> the_steps rows' = replace_step (f s) (the_steps rows))"
  by (auto simp: end_step_def split: option.splits if_splits dest: update_step_ok)

lemma commit_job_ok: "commit_job old rows = Inr rows' \<Longrightarrow> rows' = rows \<and> job_consistency rows = Inr ()"
  by (auto simp: commit_job_def)

text \<open>One call makes one accepted update of the job, or none.\<close>

definition one_update :: "clocks \<Rightarrow> job_rows \<Rightarrow> job_rows \<Rightarrow> bool" where
  "one_update c rows rows' \<longleftrightarrow> job_consistency rows' = Inr ()
     \<and> (\<exists>new. update_job (t_job c) (new_owner c) (the_job rows) new = Inr (the_job rows'))"

lemma one_updateI:
  "commit_job old rows3 = Inr rows' \<Longrightarrow> save_job c f rows1 = Inr rows2
   \<Longrightarrow> the_job rows1 = the_job rows \<Longrightarrow> the_job rows3 = the_job rows2 \<Longrightarrow> one_update c rows rows'"
  by (metis commit_job_ok one_update_def save_job_ok)

lemmas statement_ok = save_job_ok insert_step_ok end_step_ok commit_job_ok

lemma claim_statement_update:
  "claim_statement c w seq rows = Inr (out, rows') \<Longrightarrow> one_update c rows rows'"
  by (auto simp: claim_statement_def Let_def simp del: holds_connectives)
    (frule insert_step_ok, erule (1) one_updateI, simp_all)

lemma heartbeat_update:
  "heartbeat c claim rows = Inr (out, rows') \<Longrightarrow> rows' \<noteq> rows
   \<Longrightarrow> one_update c rows rows'"
  by (auto simp: heartbeat_def Let_def simp del: holds_connectives split: if_splits)
    (erule (1) one_updateI, simp_all)

lemma advance_update:
  "advance_step c claim sm code seq rows = Inr (out, rows') \<Longrightarrow> rows' \<noteq> rows
   \<Longrightarrow> one_update c rows rows'"
  by (auto simp: advance_step_def Let_def simp del: holds_connectives split: option.splits)
    (frule end_step_ok, frule insert_step_ok, erule (1) one_updateI, simp_all)

lemma finish_update:
  "finish_job c claim e sm code msg rows = Inr (ok, rows') \<Longrightarrow> rows' \<noteq> rows
   \<Longrightarrow> one_update c rows rows'"
  by (auto simp: finish_job_def Let_def simp del: holds_connectives split: option.splits)
    (frule end_step_ok, erule (1) one_updateI, simp_all)

lemma finish_cancel_update:
  "finish_cancel_requested c claim rows = Inr (ok, rows') \<Longrightarrow> rows' \<noteq> rows
   \<Longrightarrow> one_update c rows rows'"
  by (auto simp: finish_cancel_requested_def Let_def simp del: holds_connectives split: option.splits)
    (frule end_step_ok, erule (1) one_updateI, simp_all)

lemma requeue_update:
  "requeue_statement c eid xid rows = Inr (e, rows') \<Longrightarrow> one_update c rows rows'"
  by (auto simp: requeue_statement_def Let_def simp del: holds_connectives)
    (erule (1) one_updateI, simp_all)

lemma exhaust_update:
  "exhaust_statement c sid code msg rows = Inr (out, rows') \<Longrightarrow> rows' \<noteq> rows
   \<Longrightarrow> one_update c rows rows'"
  by (auto simp: exhaust_statement_def Let_def simp del: holds_connectives split: option.splits)
    (frule end_step_ok, erule (1) one_updateI, simp_all)

lemma reclaim_update:
  "reclaim_statement c sid w seq rows = Inr (out, rows') \<Longrightarrow> rows' \<noteq> rows
   \<Longrightarrow> one_update c rows rows'"
  by (auto simp: reclaim_statement_def Let_def simp del: holds_connectives split: option.splits)
    (frule end_step_ok, frule insert_step_ok, erule (1) one_updateI, simp_all)

lemma requeue_file_update:
  "requeue_file_statement c eid xid code rows = Inr (e, rows') \<Longrightarrow> one_update c rows rows'"
  by (auto simp: requeue_file_statement_def Let_def simp del: holds_connectives)
    (erule (1) one_updateI, simp_all)

lemma next_stage_update:
  "next_stage c code seq rows rows1 = Inr (claim, rows') \<Longrightarrow> the_job rows1 = the_job rows
   \<Longrightarrow> one_update c rows rows'"
  by (auto simp: next_stage_def Let_def simp del: holds_connectives)
    (frule insert_step_ok, erule (1) one_updateI, simp_all)

text \<open>A running job has one running step, so a call that ends it has to move the job as well.\<close>

lemma scan_mismatch_rejected:
  assumes "job_consistency rows = Inr ()" and "status (the_job rows) = RUNNING"
    and ended: "end_step now sid m f rows = Inr (Some rows1)"
    and m: "\<And>s. m s \<Longrightarrow> step_job_id s = job_id (fixed (the_job rows)) \<and> step_status s = STEP_RUNNING
      \<and> step_id (f s) = step_id s \<and> step_status (f s) \<noteq> STEP_RUNNING"
  shows "\<not> is_ok (commit_job (the_job rows) rows1)"
proof -
  obtain s where s: "find_step sid rows = Some s" "m s" "the_job rows1 = the_job rows"
    "the_steps rows1 = replace_step (f s) (the_steps rows)"
    using end_step_ok [OF ended] by blast
  let ?run = "\<lambda>rows. filter (\<lambda>s. step_status s = STEP_RUNNING) (own_steps rows)"
  have "length (?run rows) = 1"
    using assms(1,2) by (auto simp: job_consistency_def active_consistency_def Let_def split: if_splits)
  moreover have "s \<in> set (?run rows)"
    using s m by (auto simp: own_steps_def find_step_def find_Some_iff)
  ultimately have only: "?run rows = [s]" by (cases "?run rows") auto
  have "x = s" if "x \<in> set (?run rows)" for x using that by (simp only: only) simp
  then have "step_id x = step_id s" if "x \<in> set (the_steps rows)" "step_status x = STEP_RUNNING"
    "step_job_id x = job_id (fixed (the_job rows))" for x
    using that by (auto simp: own_steps_def)
  then have "?run rows1 = []"
    using m [OF s(2)] by (auto simp: s own_steps_def replace_step_def filter_empty_conv)
  then show ?thesis
    using assms(2) s(3)
    by (auto simp: commit_job_def job_consistency_def active_consistency_def is_ok_iff Let_def split: if_splits)
qed

lemma scan_step_mismatch:
  assumes "job_consistency rows = Inr ()"
    and "end_step now sid (scan_step t claim (the_job rows)) f rows = Inr (Some rows1)"
    and "\<And>s. step_id (f s) = step_id s \<and> step_status (f s) \<noteq> STEP_RUNNING"
  shows "commit_job (the_job rows) rows1 \<noteq> Inr rows2"
proof -
  have "status (the_job rows) = RUNNING"
    using end_step_ok [OF assms(2)] by (auto simp: scan_step_def)
  then have "\<not> is_ok (commit_job (the_job rows) rows1)"
    using assms by (intro scan_mismatch_rejected [OF assms(1) _ assms(2)]) (auto simp: scan_step_def)
  then show ?thesis by (auto simp: is_ok_iff)
qed

lemma complete_scan_update:
  assumes call: "complete_file_scan_clean c claim sm bucket key code seq f rows = Inr (res, rows')"
    and consistent: "job_consistency rows = Inr ()" and changed: "rows' \<noteq> rows"
  shows "one_update c rows rows'"
proof -
  let ?j = "the_job rows" and ?t = "t_stmt c"
  let ?g = "\<lambda>s. s\<lparr>step_status := STEP_SUCCEEDED, step_finished_at := Some ?t, step_summary := sm\<rparr>"
  have guards: "snap_resource_type (cj_job claim) = ''file''" "(code = None) = (seq = None)"
    using call changed by (auto simp: complete_file_scan_clean_def check_def split: if_splits)
  obtain ended where ended: "end_step (t_step c) (cj_step_id claim) (scan_step ?t claim ?j) ?g rows = Inr ended"
    using call guards by (auto simp: complete_file_scan_clean_def check_def Let_def)
  with call changed guards obtain rows1 where some: "ended = Some rows1"
    by (cases ended) (simp_all add: complete_file_scan_clean_def check_def Let_def)
  note ended = ended [unfolded some]
  have mismatch: "commit_job ?j rows1 \<noteq> Inr rows2" for rows2
    by (rule scan_step_mismatch [OF consistent ended]) simp
  have same: "the_job rows1 = ?j" using end_step_ok [OF ended] by simp
  show ?thesis
  proof (cases code)
    case None
    then have "seq = None" using guards by simp
    with None call guards mismatch obtain rows2 where
      "save_job c (\<lambda>j. clear_lease (j\<lparr>status := SUCCEEDED, finished_at := Some ?t\<rparr>)) rows1 = Inr rows2"
      "commit_job ?j rows2 = Inr rows'"
      by (auto simp: complete_file_scan_clean_def check_def Let_def ended split: if_splits)
    then show ?thesis by (intro one_updateI [OF _ _ same]) simp_all
  next
    case (Some x)
    then obtain y where "seq = Some y" using guards by auto
    with Some call guards mismatch obtain claim' where "next_stage c x y rows rows1 = Inr (claim', rows')"
      by (auto simp: complete_file_scan_clean_def check_def Let_def ended split: if_splits)
    then show ?thesis using same by (rule next_stage_update)
  qed
qed

lemma fail_scan_update:
  assumes call: "fail_file_scan c claim sm verdict code rejection f rows = Inr (res, rows')"
    and consistent: "job_consistency rows = Inr ()" and changed: "rows' \<noteq> rows"
  shows "one_update c rows rows'"
proof -
  let ?j = "the_job rows" and ?t = "t_stmt c"
  let ?g = "\<lambda>s. s\<lparr>step_status := STEP_FAILED, step_finished_at := Some ?t, step_summary := sm,
    step_error_code := Some code\<rparr>"
  have guards: "snap_resource_type (cj_job claim) = ''file''"
    using call changed by (auto simp: fail_file_scan_def split: if_splits)
  obtain ended where ended: "end_step (t_step c) (cj_step_id claim) (scan_step ?t claim ?j) ?g rows = Inr ended"
    using call guards by (auto simp: fail_file_scan_def Let_def)
  with call changed guards obtain rows1 where some: "ended = Some rows1"
    by (cases ended) (simp_all add: fail_file_scan_def Let_def)
  note ended = ended [unfolded some]
  have mismatch: "commit_job ?j rows1 \<noteq> Inr rows2" for rows2
    by (rule scan_step_mismatch [OF consistent ended]) simp
  from call guards mismatch obtain g rows2 where "save_job c g rows1 = Inr rows2" "commit_job ?j rows2 = Inr rows'"
    by (auto simp: fail_file_scan_def Let_def ended split: if_splits)
  moreover have same: "the_job rows1 = ?j" using end_step_ok [OF ended] by simp
  ultimately show ?thesis by (intro one_updateI [OF _ _ same]) simp_all
qed

lemma skip_scan_update:
  "skip_recovered_clean_scan c claim code seq f rows = Inr (out, rows') \<Longrightarrow> rows' \<noteq> rows
   \<Longrightarrow> one_update c rows rows'"
  by (auto simp: skip_recovered_clean_scan_def Let_def simp del: holds_connectives
        split: if_splits option.splits)
    (frule end_step_ok, erule next_stage_update, simp)

text \<open>The dispatcher changes a job only by failing it; the owner of a lease plays no part.\<close>

lemma outbox_failure_job:
  assumes "mark_outbox_failure digest now t now' code called claim
      \<lparr>events = es, job_row = [job_id (fixed j) \<mapsto> j]\<rparr> = Inr (ok, out)"
    and "snap_id (outbox_claim.claim_job claim) = job_id (fixed j)"
    and "job_row out (job_id (fixed j)) = Some j'" "j' \<noteq> j"
  shows "status j = QUEUED \<and> update_job now' [] j (fail_queued_job t (dispatch_failure code called) j) = Inr j'"
  using assms
  by (auto simp: mark_outbox_failure_def Let_def split: option.splits if_splits)

lemma outbox_failure_row:
  assumes "mark_outbox_failure digest now t now' code called claim
      \<lparr>events = es, job_row = [job_id (fixed j) \<mapsto> j]\<rparr> = Inr (ok, out)"
    and "snap_id (outbox_claim.claim_job claim) = job_id (fixed j)"
  shows "\<exists>j'. job_row out (job_id (fixed j)) = Some j'"
  using assms
  by (auto simp: mark_outbox_failure_def Let_def split: option.splits if_splits)

lemma dispatch_failure_update:
  assumes "mark_job_dispatch_failure digest c code called claim man es rows = Inr (res, rows')"
    and "rows' \<noteq> rows"
  shows "status (the_job rows) = QUEUED \<and> one_update (c\<lparr>new_owner := []\<rparr>) rows rows'"
proof -
  let ?j = "the_job rows"
  obtain ok out where out: "mark_outbox_failure digest (t_step c) (t_stmt c) (t_job c) code called claim
      \<lparr>events = es, job_row = [job_id (fixed ?j) \<mapsto> ?j]\<rparr> = Inr (ok, out)"
    and id: "snap_id (outbox_claim.claim_job claim) = job_id (fixed ?j)"
    and commit: "the (job_row out (job_id (fixed ?j))) \<noteq> ?j"
      "commit_job ?j (rows\<lparr>the_job := the (job_row out (job_id (fixed ?j)))\<rparr>) = Inr rows'"
    using assms by (auto simp: mark_job_dispatch_failure_def Let_def split: if_splits)
  obtain j' where j': "job_row out (job_id (fixed ?j)) = Some j'" using outbox_failure_row [OF out id] by blast
  have "status ?j = QUEUED
      \<and> update_job (t_job c) [] ?j (fail_queued_job (t_stmt c) (dispatch_failure code called) ?j) = Inr j'"
    by (rule outbox_failure_job [OF out id j']) (use commit(1) j' in simp)
  then show ?thesis using commit_job_ok [OF commit(2)] j' by (auto simp: one_update_def)
qed

text \<open>A queued job whose rows agree fails with its dead letter, and the transaction commits.\<close>

lemma fail_queued_job_simps [simp]:
  "fixed (fail_queued_job t failure j) = fixed j" "status (fail_queued_job t failure j) = FAILED"
  "attempt_no (fail_queued_job t failure j) = attempt_no j" "started_at (fail_queued_job t failure j) = started_at j"
  by (simp_all add: fail_queued_job_def)

lemma steps_of_same_job:
  "fixed j = fixed (the_job rows) \<Longrightarrow> own_steps (rows\<lparr>the_job := j\<rparr>) = own_steps rows"
  "fixed j = fixed (the_job rows) \<Longrightarrow> attempt_steps (rows\<lparr>the_job := j\<rparr>) = attempt_steps rows"
  by (simp_all add: own_steps_def attempt_steps_def fun_eq_iff)

lemma fail_queued_commits:
  assumes "job_checks (the_job rows) = Inr ()" and "job_consistency rows = Inr ()"
    and "status (the_job rows) = QUEUED"
  shows "commit_job (the_job rows) (rows\<lparr>the_job := fail_queued_job t failure (the_job rows)\<rparr>)
    = Inr (rows\<lparr>the_job := fail_queued_job t failure (the_job rows)\<rparr>)"
  using assms queued_row_fields [OF assms(1,3)]
  by (simp add: commit_job_def recovery_shares_clock_def stage_shares_clock_def job_consistency_def
      inactive_consistency_def steps_of_same_job Let_def split: if_splits)

lemma dispatch_failure_succeeds:
  assumes job: "job_checks (the_job rows) = Inr ()" "job_consistency rows = Inr ()"
      "status (the_job rows) = QUEUED" "snap_id (outbox_claim.claim_job claim) = job_id (fixed (the_job rows))"
      "dispatch_resource_matches man (the_job rows)"
    and event: "find_event (claim_outbox_id claim) \<lparr>events = es, job_row = [job_id (fixed (the_job rows)) \<mapsto> the_job rows]\<rparr>
        = Some e" "event_checks e = Inr ()" "event_status e = PROCESSING"
      "attempt_count e = claim_attempt_count claim" "attempt_count e = 8"
    and code: "code \<in> set outbox_failure_codes" "code = ''PROCESSING_LEASE_EXPIRED'' \<Longrightarrow> the (next_attempt_at e) \<le> t_step c"
    and clocks: "t_stmt c \<le> t_job c"
  shows "\<exists>res. mark_job_dispatch_failure digest c code called claim man es rows
    = Inr (res, rows\<lparr>the_job := fail_queued_job (t_stmt c) (dispatch_failure code called) (the_job rows)\<rparr>)"
proof -
  let ?j = "the_job rows"
  let ?j' = "fail_queued_job (t_stmt c) (dispatch_failure code called) ?j"
  have "?j' \<noteq> ?j" using job(3) fail_queued_job_simps(2) by (metis job_status.distinct(7))
  note event_dead_letter_accepted [OF event(2,3) code(1) event(5) code(2), where digest = digest]
    fail_queued_accepted [OF job(1,3) clocks dispatch_failure_code, where owner = "[]"]
    fail_queued_commits [OF job(1-3)]
  then show ?thesis
    using job(3-) event(1,3-) code \<open>?j' \<noteq> ?j\<close>
    by (simp add: mark_job_dispatch_failure_def mark_outbox_failure_def Let_def
        del: fail_queued_job_simps) (rule exI, rule TrueI)
qed

lemma cancel_update:
  "cancel_job c rows = Inr rows' \<Longrightarrow> rows' \<noteq> rows
   \<Longrightarrow> one_update c rows rows'"
  by (auto simp: cancel_job_def Let_def simp del: holds_connectives split: if_splits)
    (erule (1) one_updateI, simp, simp)+

lemma job_call_update: "job_call rows rows' \<Longrightarrow> rows' \<noteq> rows \<Longrightarrow> \<exists>c. one_update c rows rows'"
proof (induction rule: job_call.induct)
  case (claims c ev v w seq adm rows out rows')
  then show ?case
    by (auto simp: claim_job_def Let_def split: if_splits option.splits dest: claim_statement_update)
next
  case (requeues_report c eid xid code x r rows res rows')
  then show ?case
    by (auto simp: requeue_failed_report_job_def Let_def split: if_splits dest: requeue_update)
next
  case (requeues_audit c eid xid code x s rows res2 rows')
  then show ?case
    by (auto simp: requeue_failed_audit_job_def Let_def split: if_splits dest: requeue_update)
next
  case (recovers_report c now w code seq x r rows res3 rows')
  then show ?case
    by (auto simp: recover_expired_report_job_def Let_def split: if_splits option.splits
        dest: exhaust_update reclaim_update)
next
  case (recovers_audit c now w code seq x s rows res4 rows')
  then show ?case
    by (auto simp: recover_expired_audit_job_def Let_def split: if_splits option.splits
        dest: exhaust_update reclaim_update)
next
  case (claims_file c ev v w seq versions f rows res6 rows')
  then show ?case
    by (auto simp: claim_file_job_def split: if_splits option.splits dest: claim_statement_update)
next
  case (claims_parse c ev v w seq f source pr corr rows res7 rows')
  then show ?case
    by (auto simp: claim_parse_job_def split: if_splits dest: claim_statement_update)
next
  case (requeues_file c eid xid code allow versions f rows res10 rows')
  then show ?case
    by (auto simp: requeue_failed_file_job_def Let_def split: if_splits option.splits dest: requeue_file_update)
next
  case (requeues_knowledge c eid xid code k rows res11 rows')
  then show ?case
    by (auto simp: requeue_failed_knowledge_job_def Let_def split: if_splits dest: requeue_update)
next
  case (recovers_file c now w code seq versions f manual rows res12 rows')
  then show ?case
    by (auto simp: recover_expired_file_job_def Let_def split: if_splits option.splits
        dest: exhaust_update reclaim_update)
next
  case (recovers_knowledge c now w code seq n k rows res13 rows')
  then show ?case
    by (auto simp: recover_expired_knowledge_job_def Let_def split: if_splits option.splits
        dest: exhaust_update reclaim_update)
qed (blast dest: heartbeat_update advance_update finish_update finish_cancel_update cancel_update
    dispatch_failure_update complete_scan_update fail_scan_update skip_scan_update)+

lemma one_update_facts:
  assumes "one_update c rows rows'"
  shows "fixed (the_job rows') = fixed (the_job rows)
    \<and> row_version (the_job rows') = row_version (the_job rows) + 1
    \<and> job_checks (the_job rows') = Inr () \<and> job_consistency rows' = Inr ()
    \<and> job_edge (status (the_job rows)) (status (the_job rows'))
    \<and> (takes_attempt (t_job c) (the_job rows) (the_job rows')
         \<and> lease_owner (the_job rows') = Some (new_owner c)
       \<or> attempt_no (the_job rows') = attempt_no (the_job rows)
         \<and> \<not> (status (the_job rows) = QUEUED \<and> status (the_job rows') = RUNNING))"
  using assms update_job_accepted unfolding one_update_def by blast

text \<open>The calls made on a job since it was inserted, counting the leases they granted.\<close>

definition grants_lease :: "job \<Rightarrow> job \<Rightarrow> bool" where
  "grants_lease old row \<longleftrightarrow> status row = RUNNING
     \<and> (status old = QUEUED \<or> status old = RUNNING \<and> attempt_no row \<noteq> attempt_no old)"

inductive job_history :: "job_rows \<Rightarrow> nat \<Rightarrow> job_rows \<Rightarrow> bool" for start where
  inserted: "job_history start 0 start"
| called: "job_history start n rows \<Longrightarrow> job_call rows rows'
    \<Longrightarrow> job_history start (n + (if grants_lease (the_job rows) (the_job rows') then 1 else 0)) rows'"

lemma job_checks_bounds:
  "job_checks j = Inr () \<Longrightarrow> 0 \<le> attempt_no j \<and> attempt_no j \<le> max_attempts_of j"
  by (auto simp: job_checks_def attempt_bounds_def check_passes_iff split: if_splits)

lemma job_history_facts:
  "job_history start n rows \<Longrightarrow>
     fixed (the_job rows) = fixed (the_job start)
     \<and> row_version (the_job start) \<le> row_version (the_job rows)
     \<and> attempt_no (the_job rows) = attempt_no (the_job start) + int n
     \<and> (rows = start \<or> job_checks (the_job rows) = Inr () \<and> job_consistency rows = Inr ())"
proof (induction rule: job_history.induct)
  case inserted
  then show ?case by simp
next
  case (called n rows rows')
  show ?case
  proof (cases "rows' = rows")
    case True
    then show ?thesis using called.IH by (auto simp: grants_lease_def)
  next
    case False
    then obtain c where "one_update c rows rows'" using job_call_update [OF called.hyps(2)] by auto
    note one_update_facts [OF this]
    then show ?thesis
      using called.IH by (auto simp: grants_lease_def takes_attempt_def)
  qed
qed

section \<open>Fencing\<close>

text \<open>A call that changes the rows raises the row version.\<close>

definition job_change :: "job_rows \<Rightarrow> job_rows \<Rightarrow> bool" where
  "job_change rows rows' \<longleftrightarrow> job_call rows rows' \<and> rows' \<noteq> rows"

interpretation job_versions: versioned_rows job_change "\<lambda>rows. row_version (the_job rows)"
proof unfold_locales
  fix rows rows'
  assume "job_change rows rows'"
  then obtain c where "one_update c rows rows'" using job_call_update by (auto simp: job_change_def)
  then show "row_version (the_job rows) < row_version (the_job rows')"
    using one_update_facts by fastforce
qed

lemma job_history_changes: "job_history start n rows \<Longrightarrow> job_change\<^sup>*\<^sup>* start rows"
proof (induction rule: job_history.induct)
  case inserted
  then show ?case by simp
next
  case (called n rows rows')
  then show ?case
    by (cases "rows' = rows") (auto simp: job_change_def intro: rtranclp.rtrancl_into_rtrancl)
qed

lemma end_step_none: "(\<And>s. \<not> m s) \<Longrightarrow> end_step now sid m f rows = Inr None"
  by (simp add: end_step_def split: option.split)

lemma stale_claim_ignored:
  assumes "row_version (the_job rows) \<noteq> cj_row_version claim"
  shows "heartbeat c claim rows = Inr (None, rows)"
    and "advance_step c claim sm code seq rows = Inr (None, rows)"
    and "finish_job c claim e sm err msg rows = Inr (False, rows)"
    and "fail_file_scan c claim sm verdict scan_err rejection f rows = Inr ((False, f), rows)"
    and "skip_recovered_clean_scan c claim code seq f rows = Inr (None, rows)"
    and "complete_file_scan_clean c claim sm bucket key ncode nseq f rows = Inr (res, rows') \<Longrightarrow> rows' = rows"
proof -
  have fence: "\<not> holds (version_fence t claim (the_job rows))" for t
    using assms by (simp add: version_fence_def)
  then show "heartbeat c claim rows = Inr (None, rows)" by (simp add: heartbeat_def)
  show "advance_step c claim sm code seq rows = Inr (None, rows)"
    by (simp add: advance_step_def Let_def end_step_none fence)
  show "finish_job c claim e sm err msg rows = Inr (False, rows)"
    by (simp add: finish_job_def Let_def end_step_none fence del: holds_connectives)
  have scan: "\<not> scan_step t claim (the_job rows) s" for t s
    using fence by (simp add: scan_step_def)
  show "fail_file_scan c claim sm verdict scan_err rejection f rows = Inr ((False, f), rows)"
    by (simp add: fail_file_scan_def Let_def end_step_none scan)
  show "skip_recovered_clean_scan c claim code seq f rows = Inr (None, rows)"
    by (simp add: skip_recovered_clean_scan_def Let_def end_step_none fence del: holds_connectives)
  show "complete_file_scan_clean c claim sm bucket key ncode nseq f rows = Inr (res, rows') \<Longrightarrow> rows' = rows"
    by (auto simp: complete_file_scan_clean_def Let_def end_step_none scan split: if_splits)
qed

section \<open>Recovery\<close>

lemma expired_step_facts:
  assumes "expired_step now code rows = Some s"
  shows "status (the_job rows) = RUNNING \<and> start_step_code (the_job rows) = code
    \<and> (\<exists>e. lease_expires_at (the_job rows) = Some e \<and> e + recovery_grace \<le> now)
    \<and> s \<in> set (the_steps rows) \<and> step_status s = STEP_RUNNING
    \<and> step_job_id s = job_id (fixed (the_job rows)) \<and> step_attempt_no s = attempt_no (the_job rows)
    \<and> stage (the_job rows) = Some (step_code s)"
  using assms
  by (auto simp: expired_step_def Let_def attempt_steps_def own_steps_def find_Some_iff not_less
      split: if_splits option.splits dest!: nth_mem)

lemma exhaust_outcome:
  assumes "exhaust_statement c sid code msg rows = Inr (out, rows')" and "rows' \<noteq> rows"
  shows "out = EXHAUSTED \<and> status (the_job rows') = FAILED \<and> error_code (the_job rows') = Some code
    \<and> next_retry_at (the_job rows') = None \<and> finished_at (the_job rows') = Some (t_stmt c)
    \<and> attempt_no (the_job rows') = attempt_no (the_job rows)"
proof -
  from assms obtain rows1 rows2 where out: "out = EXHAUSTED"
    and ended: "end_step (t_step c) sid (\<lambda>s. step_status s = STEP_RUNNING)
         (\<lambda>s. s\<lparr>step_status := STEP_FAILED, step_finished_at := Some (t_stmt c),
              step_summary := ''{}'', step_error_code := Some code\<rparr>) rows = Inr (Some rows1)"
    and saved: "save_job c (\<lambda>j. clear_lease (j\<lparr>status := FAILED, finished_at := Some (t_stmt c),
             error_code := Some code, error_message := Some msg, next_retry_at := None\<rparr>)) rows1
        = Inr rows2"
    and "commit_job (the_job rows) rows2 = Inr rows'"
    by (auto simp: exhaust_statement_def split: option.splits)
  then have eq: "rows' = rows2" "the_job rows1 = the_job rows"
    by (auto dest: commit_job_ok end_step_ok)
  have "job_update_trigger (t_job c) (new_owner c) (the_job rows)
      (clear_lease ((the_job rows)\<lparr>status := FAILED, finished_at := Some (t_stmt c),
         error_code := Some code, error_message := Some msg, next_retry_at := None\<rparr>))
      = Inr (the_job rows2)"
    using save_job_ok [OF saved] eq(2) by (simp add: update_job_def)
  then have "the_job rows2 = clear_lease ((the_job rows)\<lparr>status := FAILED,
      finished_at := Some (t_stmt c), error_code := Some code, error_message := Some msg,
      next_retry_at := None\<rparr>)"
    by (cases "status (the_job rows)")
      (auto simp: job_update_trigger_def clear_lease_def simp del: holds_connectives split: if_splits)
  then show ?thesis using out eq(1) by (simp add: clear_lease_def)
qed

lemma exhaust_code:
  assumes "exhaust_statement c sid code msg rows = Inr (out, rows')" and "rows' \<noteq> rows"
    and "lease_expires_at (the_job rows) = Some e" and "e + recovery_grace \<le> t_step c"
    and "status (the_job rows) = RUNNING"
  shows "code = ''WORKER_LOST'' \<and> attempt_no (the_job rows) = max_attempts_of (the_job rows)
    \<or> code = ''LEASE_EXPIRED'' \<and> attempt_no (the_job rows) < max_attempts_of (the_job rows)"
proof -
  from assms(1,2) obtain rows1 where
    "end_step (t_step c) sid (\<lambda>s. step_status s = STEP_RUNNING)
         (\<lambda>s. s\<lparr>step_status := STEP_FAILED, step_finished_at := Some (t_stmt c),
              step_summary := ''{}'', step_error_code := Some code\<rparr>) rows = Inr (Some rows1)"
    by (auto simp: exhaust_statement_def split: option.splits)
  then obtain s row where "step_update_trigger (t_step c) (the_job rows) s
      (s\<lparr>step_status := STEP_FAILED, step_finished_at := Some (t_stmt c),
         step_summary := ''{}'', step_error_code := Some code\<rparr>) = Inr row"
    by (auto simp: update_step_def dest!: end_step_ok)
  moreover have "\<not> t_step c < e + recovery_grace" "\<not> t_step c < e"
    using assms(4) lease_times(2) by linarith+
  ultimately show ?thesis
    using assms(3,5)
    by (auto simp: step_update_trigger_def before_expiry_def recovery_terminal_def Let_def sql_truth
        split: if_splits)
qed

lemma reclaim_outcome:
  assumes "reclaim_statement c sid w seq rows = Inr (out, rows')" and "rows' \<noteq> rows"
    and run: "status (the_job rows) = RUNNING"
  shows "\<exists>claim. out = RECLAIMED claim
    \<and> claim = claimed_job_of (the_job rows') (new_step_id c) seq
    \<and> attempt_no (the_job rows') = attempt_no (the_job rows) + 1
    \<and> status (the_job rows') = RUNNING \<and> worker_id (the_job rows') = Some w
    \<and> lease_owner (the_job rows') = Some (new_owner c)
    \<and> lease_expires_at (the_job rows') = Some (t_stmt c + lease_length)
    \<and> stage (the_job rows') = Some (start_step_code (the_job rows))
    \<and> (\<forall>e. lease_expires_at (the_job rows) = Some e \<longrightarrow> e + recovery_grace \<le> t_job c)"
proof -
  let ?new = "\<lambda>j. j\<lparr>attempt_no := attempt_no j + 1,
             stage := Some (start_step_code j), worker_id := Some w, started_at := Some (t_stmt c),
             heartbeat_at := Some (t_stmt c), lease_expires_at := Some (t_stmt c + lease_length),
             row_version := row_version j + 1\<rparr>"
  from assms(1,2) obtain rows1 rows2 rows3 where
    saved: "save_job c ?new rows1 = Inr rows2"
    and out: "out = RECLAIMED (claimed_job_of (the_job rows2) (new_step_id c) seq)"
    and raw: "end_step (t_step c) sid (\<lambda>s. step_status s = STEP_RUNNING)
         (\<lambda>s. s\<lparr>step_status := STEP_FAILED, step_finished_at := Some (t_stmt c),
              step_summary := ''{}'', step_error_code := Some ''LEASE_EXPIRED''\<rparr>) rows
        = Inr (Some rows1)"
      "insert_step (t_insert c) rows2 (running_step_of (the_job rows2) (new_step_id c) seq
         (the (started_at (the_job rows2)))) = Inr rows3"
      "commit_job (the_job rows) rows3 = Inr rows'"
    by (auto simp: reclaim_statement_def Let_def split: option.splits)
  have ended: "the_job rows1 = the_job rows" and eq: "the_job rows' = the_job rows2"
    using raw by (auto dest: end_step_ok insert_step_ok commit_job_ok)
  have upd: "update_job (t_job c) (new_owner c) (the_job rows) (?new (the_job rows))
      = Inr (the_job rows2)"
    using save_job_ok [OF saved] ended by simp
  then have trigger: "job_update_trigger (t_job c) (new_owner c) (the_job rows) (?new (the_job rows))
      = Inr (the_job rows2)"
    by (simp add: update_job_def)
  then have row: "the_job rows2 = (?new (the_job rows))\<lparr>lease_owner := Some (new_owner c)\<rparr>"
    using run by (auto simp: job_update_trigger_def running_update_def simp del: holds_connectives
        split: if_splits)
  have "takes_attempt (t_job c) (the_job rows) (the_job rows2)"
    using update_job_accepted [OF upd] row by simp
  then show ?thesis
    using out eq row run by (auto simp: takes_attempt_def)
qed

section \<open>A current claim succeeds\<close>

lemma active_row_fields:
  assumes "job_checks j = Inr ()" and "status j \<in> {RUNNING, CANCEL_REQUESTED}"
  shows "1 \<le> attempt_no j \<and> attempt_no j \<le> max_attempts_of j \<and> 0 < row_version j
    \<and> (\<exists>sg w o' b h e. stage j = Some sg \<and> worker_id j = Some w \<and> \<not> btrim_empty w
         \<and> lease_owner j = Some o' \<and> started_at j = Some b \<and> heartbeat_at j = Some h
         \<and> lease_expires_at j = Some e \<and> b \<le> h \<and> h < e)
    \<and> next_retry_at j = None \<and> finished_at j = None \<and> error_code j = None \<and> error_message j = None"
  using assms
  by (auto simp: job_checks_def attempt_bounds_def job_state_matrix_def queued_row_def
      active_row_def succeeded_row_def failed_row_def cancelled_row_def no_lease_def check_passes_iff
      sql_truth btrim_empty_def not_le not_less split: if_splits)

text \<open>The consistency check does not look at the lease.\<close>

lemma job_consistency_lease:
  assumes "job_consistency rows = Inr ()"
    and "fixed j = fixed (the_job rows)" "status j = status (the_job rows)" "stage j = stage (the_job rows)"
      "attempt_no j = attempt_no (the_job rows)" "start_step_code j = start_step_code (the_job rows)"
      "started_at j = started_at (the_job rows)" "finished_at j = finished_at (the_job rows)"
      "error_code j = error_code (the_job rows)"
  shows "job_consistency (rows\<lparr>the_job := j\<rparr>) = Inr ()"
proof -
  have own: "own_steps (rows\<lparr>the_job := j\<rparr>) = own_steps rows"
    by (simp add: own_steps_def assms(2))
  then have att: "attempt_steps (rows\<lparr>the_job := j\<rparr>) = attempt_steps rows"
    by (simp add: attempt_steps_def fun_eq_iff)
  have mismatch: "active_mismatch j = active_mismatch (the_job rows)"
    "terminal_mismatch j = terminal_mismatch (the_job rows)"
    by (simp_all add: active_mismatch_def terminal_mismatch_def assms(2-9) fun_eq_iff)
  have "active_consistency (rows\<lparr>the_job := j\<rparr>) = active_consistency rows"
    "inactive_consistency (rows\<lparr>the_job := j\<rparr>) = inactive_consistency rows"
    by (simp_all add: active_consistency_def inactive_consistency_def mismatch own att assms(2-9)
        Let_def cong: option.case_cong if_cong)
  then have "job_consistency (rows\<lparr>the_job := j\<rparr>) = job_consistency rows"
    by (simp add: job_consistency_def own att assms(2-9) Let_def)
  then show ?thesis using assms(1) by simp
qed

text \<open>The claim that a worker holds while the job row is \<open>j\<close>.\<close>

definition holds_claim :: "claimed_job \<Rightarrow> job \<Rightarrow> bool" where
  "holds_claim claim j \<longleftrightarrow> (\<exists>sid seq. claim = claimed_job_of j sid seq)"

lemma holds_claim_fence:
  assumes "holds_claim claim j" and "job_checks j = Inr ()" "status j \<in> {RUNNING, CANCEL_REQUESTED}"
    and "lease_expires_at j = Some e" "t < e"
  shows "holds (version_fence t claim j)" "holds (lease_fence claim j)"
    "snap_attempt_no (cj_job claim) = attempt_no j"
    "snap_max_attempts (cj_job claim) = max_attempts_of j"
proof -
  note f = active_row_fields [OF assms(2,3)]
  have "cj_job claim = snapshot_of j" "Some (cj_worker_id claim) = worker_id j"
    "Some (cj_lease_owner claim) = lease_owner j" "cj_row_version claim = row_version j"
    using assms(1) f by (auto simp: holds_claim_def claimed_job_of_def)
  then show "holds (version_fence t claim j)" "holds (lease_fence claim j)"
    "snap_attempt_no (cj_job claim) = attempt_no j"
    "snap_max_attempts (cj_job claim) = max_attempts_of j"
    using f assms(4,5)
    by (auto simp: version_fence_def lease_fence_def snapshot_of_def before_expiry_def holds_cmp)
qed

lemma heartbeat_succeeds:
  assumes rows: "job_checks (the_job rows) = Inr ()" "job_consistency rows = Inr ()"
    and active: "status (the_job rows) \<in> {RUNNING, CANCEL_REQUESTED}"
    and policy: "supported_lease_policy (the_job rows)"
    and claim: "holds_claim claim (the_job rows)"
    and lease: "lease_expires_at (the_job rows) = Some e" "heartbeat_at (the_job rows) = Some h"
    and clock: "t_stmt c \<le> t_job c" "h < t_stmt c" "t_job c < e"
  defines "j' \<equiv> renew_lease (t_job c) ((the_job rows)\<lparr>row_version := row_version (the_job rows) + 1\<rparr>)"
  shows "heartbeat c claim rows = Inr (Some (claimed_job_of j' (cj_step_id claim) (cj_step_seq claim)),
           rows\<lparr>the_job := j'\<rparr>)"
proof -
  let ?j = "the_job rows"
  let ?new = "?j\<lparr>heartbeat_at := Some (t_stmt c),
      lease_expires_at := Some (t_stmt c + lease_length), row_version := row_version ?j + 1\<rparr>"
  note f = active_row_fields [OF rows(1) active]
  have before: "t_stmt c < e" using clock by simp
  note fence = holds_claim_fence [OF claim rows(1) active lease(1) before]
  have "job_update_trigger (t_job c) (new_owner c) ?j ?new = Inr j'"
    using active policy lease clock
    by (auto simp: job_update_trigger_def running_update_def invalid_active_update_def
        invalid_cancel_heartbeat_def guarded_def j'_def renew_lease_def)
  moreover have "list_all fst (job_formats j')"
    using job_checks_formats [OF rows(1)] by (simp add: job_formats_def j'_def renew_lease_def)
  then have "job_checks j' = Inr ()"
    using f active lease clock lease_times(1)
    by (auto simp: job_checks_def attempt_bounds_def job_state_matrix_def active_row_def
        check_passes_iff sql_truth j'_def renew_lease_def)
  ultimately have saved: "save_job c (\<lambda>j. j\<lparr>heartbeat_at := Some (t_stmt c),
      lease_expires_at := Some (t_stmt c + lease_length), row_version := row_version j + 1\<rparr>) rows
      = Inr (rows\<lparr>the_job := j'\<rparr>)"
    by (simp add: save_job_def update_job_def)
  have "job_consistency (rows\<lparr>the_job := j'\<rparr>) = Inr ()"
    by (rule job_consistency_lease [OF rows(2)]) (simp_all add: j'_def renew_lease_def)
  then have "commit_job ?j (rows\<lparr>the_job := j'\<rparr>) = Inr (rows\<lparr>the_job := j'\<rparr>)"
    by (simp add: commit_job_def recovery_shares_clock_def stage_shares_clock_def j'_def
        renew_lease_def)
  then show ?thesis
    using fence active saved by (auto simp: heartbeat_def Let_def)
qed

end
