(* ===== verification/JobProgress.thy ===== *)
theory JobProgress
  imports JobHistory
begin

text \<open>
  The calls of the holder of a current claim do what they promise: with the clocks inside the lease,
  a heartbeat extends the lease, a stage transition ends the running step and starts the next one,
  and a completion ends the job with its step; no trigger, constraint or deferred check rejects them.
\<close>

section \<open>First and last steps\<close>

lemma first_stepD:
  "first_step ss = Some f \<Longrightarrow> f \<in> set ss \<and> (\<forall>s \<in> set ss. step_seq f \<le> step_seq s)"
  using arg_min_list_in [of ss step_seq] f_arg_min_list_f [of ss step_seq]
  by (auto simp: first_step_def split: if_splits)

lemma last_stepD:
  "last_step ss = Some l \<Longrightarrow> l \<in> set ss \<and> (\<forall>s \<in> set ss. step_seq s \<le> step_seq l)"
proof -
  assume "last_step ss = Some l"
  then have ne: "ss \<noteq> []" and l: "l = arg_min_list (\<lambda>s. - step_seq s) ss"
    by (auto simp: last_step_def split: if_splits)
  have "- step_seq l \<le> - step_seq s" if "s \<in> set ss" for s
    using f_arg_min_list_f [OF ne, of "\<lambda>s. - step_seq s"] that l by simp
  then show ?thesis using arg_min_list_in [OF ne, of "\<lambda>s. - step_seq s"] l by auto
qed

lemma first_stepI:
  assumes "f \<in> set ss" and "\<And>s. s \<in> set ss \<Longrightarrow> s \<noteq> f \<Longrightarrow> step_seq f < step_seq s"
  shows "first_step ss = Some f"
proof -
  obtain g where g: "first_step ss = Some g" using assms(1) by (cases ss) (auto simp: first_step_def)
  then show ?thesis using first_stepD [OF g] assms by fastforce
qed

lemma last_stepI:
  assumes "l \<in> set ss" and "\<And>s. s \<in> set ss \<Longrightarrow> s \<noteq> l \<Longrightarrow> step_seq s < step_seq l"
  shows "last_step ss = Some l"
proof -
  obtain g where g: "last_step ss = Some g" using assms(1) by (cases ss) (auto simp: last_step_def)
  then show ?thesis using last_stepD [OF g] assms by fastforce
qed

section \<open>The steps of one job\<close>

text \<open>The rows belong to the job and the unique keys of the table hold.\<close>

definition step_keys :: "job_rows \<Rightarrow> bool" where
  "step_keys rows \<longleftrightarrow> (\<forall>s \<in> set (the_steps rows). step_job_id s = job_id (fixed (the_job rows)))
     \<and> distinct (map step_id (the_steps rows))
     \<and> distinct (map (\<lambda>s. (step_attempt_no s, step_seq s)) (the_steps rows))"

lemma own_steps_all: "step_keys rows \<Longrightarrow> own_steps rows = the_steps rows"
  by (simp add: step_keys_def own_steps_def)

lemma step_place_unique:
  assumes "step_keys rows" and "s \<in> set (the_steps rows)" and "u \<in> set (the_steps rows)"
    and "step_attempt_no s = step_attempt_no u" and "step_seq s = step_seq u"
  shows "s = u"
  using assms by (auto simp: step_keys_def distinct_map dest!: inj_onD)

lemma step_id_unique:
  assumes "step_keys rows" and "s \<in> set (the_steps rows)" and "u \<in> set (the_steps rows)"
    and "step_id s = step_id u"
  shows "s = u"
  using assms by (auto simp: step_keys_def distinct_map dest!: inj_onD)

lemma find_stepI:
  assumes "step_keys rows" and "s \<in> set (the_steps rows)"
  shows "find_step (step_id s) rows = Some s"
proof -
  have "find_step (step_id s) rows \<noteq> None"
    using assms(2) by (auto simp: find_step_def find_None_iff)
  then obtain u where u: "find_step (step_id s) rows = Some u" by auto
  then have "u \<in> set (the_steps rows)" "step_id u = step_id s"
    by (auto simp: find_step_def find_Some_iff)
  then show ?thesis using step_id_unique [OF assms(1)] assms(2) u by auto
qed

text \<open>What the consistency check says of an active job.\<close>

lemma active_consistent:
  assumes cons: "job_consistency rows = Inr ()" and active: "status (the_job rows) \<in> {RUNNING, CANCEL_REQUESTED}"
    and stage: "stage (the_job rows) = Some sg"
  defines "ss \<equiv> attempt_steps rows (attempt_no (the_job rows))"
  obtains f l where "first_step ss = Some f" "last_step ss = Some l"
    "filter (\<lambda>s. step_status s = STEP_RUNNING) (own_steps rows) = [l]"
    "step_status l = STEP_RUNNING" "step_code l = sg" "priors_completed ss l"
    "step_code f = start_step_code (the_job rows)" "started_at (the_job rows) = Some (step_started_at f)"
    "\<And>s. s \<in> set (own_steps rows) \<Longrightarrow> step_attempt_no s \<le> attempt_no (the_job rows)"
    "\<And>s. s \<in> set (own_steps rows) \<Longrightarrow> attempt_continuous (attempt_steps rows (step_attempt_no s))"
    "steps_adjoin (own_steps rows)"
proof -
  from cons active have
    bound: "\<And>s. s \<in> set (own_steps rows) \<Longrightarrow> step_attempt_no s \<le> attempt_no (the_job rows)"
    and cont: "\<And>s. s \<in> set (own_steps rows) \<Longrightarrow> attempt_continuous (attempt_steps rows (step_attempt_no s))"
    and adjoin: "steps_adjoin (own_steps rows)"
    and act: "active_consistency rows = Inr ()"
    by (auto simp: job_consistency_def Let_def list_ex_iff list_all_iff not_less split: if_splits)
  from act obtain f l where fl: "first_step ss = Some f" "last_step ss = Some l"
    and one: "length (filter (\<lambda>s. step_status s = STEP_RUNNING) (own_steps rows)) = 1"
    and pri: "priors_completed ss l" and ok: "\<not> holds (active_mismatch (the_job rows) f l)"
    by (auto simp: active_consistency_def ss_def Let_def split: if_splits option.splits)
  from ok stage have facts: "step_status l = STEP_RUNNING" "step_code l = sg"
    "step_code f = start_step_code (the_job rows)" "started_at (the_job rows) = Some (step_started_at f)"
    by (auto simp: active_mismatch_def)
  have mem: "l \<in> set (filter (\<lambda>s. step_status s = STEP_RUNNING) (own_steps rows))"
    using last_stepD [OF fl(2)] facts(1) by (auto simp: ss_def attempt_steps_def)
  obtain y where y: "filter (\<lambda>s. step_status s = STEP_RUNNING) (own_steps rows) = [y]"
    using one by (auto simp: length_Suc_conv)
  with mem have "l \<in> set [y]" by (simp only:)
  with y have "filter (\<lambda>s. step_status s = STEP_RUNNING) (own_steps rows) = [l]" by simp
  then show thesis using that fl facts pri bound cont adjoin by blast
qed

section \<open>Ending a step\<close>

text \<open>Replacing the running step by its ended version leaves every other step alone.\<close>

definition ended_steps :: "job_step \<Rightarrow> job_step \<Rightarrow> job_step list \<Rightarrow> job_step list" where
  "ended_steps l l' ss = map (\<lambda>s. if s = l then l' else s) ss"

lemma replace_step_ended:
  assumes "step_keys rows" and "l \<in> set (the_steps rows)" and "step_id l' = step_id l"
  shows "replace_step l' (the_steps rows) = ended_steps l l' (the_steps rows)"
  using step_id_unique [OF assms(1) _ assms(2)] assms(3)
  by (auto simp: replace_step_def ended_steps_def)

definition same_place :: "job_step \<Rightarrow> job_step \<Rightarrow> bool" where
  "same_place l' l \<longleftrightarrow> step_identity l' = step_identity l"

lemma same_place_fields:
  "same_place l' l \<Longrightarrow> step_id l' = step_id l \<and> step_job_id l' = step_job_id l
     \<and> step_seq l' = step_seq l \<and> step_code l' = step_code l
     \<and> step_attempt_no l' = step_attempt_no l \<and> step_started_at l' = step_started_at l"
  by (simp add: same_place_def step_identity_def)

lemma ended_filter_attempt:
  assumes "same_place l' l"
  shows "filter (\<lambda>s. step_attempt_no s = k) (ended_steps l l' ss)
    = ended_steps l l' (filter (\<lambda>s. step_attempt_no s = k) ss)"
  using same_place_fields [OF assms] by (induction ss) (auto simp: ended_steps_def)

lemma ended_absent: "l \<notin> set ss \<Longrightarrow> ended_steps l l' ss = ss"
  by (induction ss) (auto simp: ended_steps_def)

lemma ended_first:
  assumes "same_place l' l" and "first_step ss = Some f"
    and "\<And>s. s \<in> set ss \<Longrightarrow> step_seq s = step_seq f \<Longrightarrow> s = f"
  shows "first_step (ended_steps l l' ss) = Some (if f = l then l' else f)"
proof (rule first_stepI)
  show "(if f = l then l' else f) \<in> set (ended_steps l l' ss)"
    using first_stepD [OF assms(2)] by (auto simp: ended_steps_def)
next
  fix s assume "s \<in> set (ended_steps l l' ss)" and ne: "s \<noteq> (if f = l then l' else f)"
  then obtain u where u: "u \<in> set ss" "s = (if u = l then l' else u)" by (auto simp: ended_steps_def)
  with ne have "u \<noteq> f" by auto
  then have "step_seq f < step_seq u"
    using first_stepD [OF assms(2)] assms(3) u(1) by (metis order_le_less)
  then show "step_seq (if f = l then l' else f) < step_seq s"
    using u(2) same_place_fields [OF assms(1)] by auto
qed

lemma ended_last:
  assumes "same_place l' l" and "last_step ss = Some l"
    and "\<And>s. s \<in> set ss \<Longrightarrow> step_seq s = step_seq l \<Longrightarrow> s = l"
  shows "last_step (ended_steps l l' ss) = Some l'"
proof (rule last_stepI)
  show "l' \<in> set (ended_steps l l' ss)"
    using last_stepD [OF assms(2)] by (auto simp: ended_steps_def)
next
  fix s assume "s \<in> set (ended_steps l l' ss)" and ne: "s \<noteq> l'"
  then obtain u where u: "u \<in> set ss" "s = u" "u \<noteq> l" by (auto simp: ended_steps_def split: if_splits)
  then have "step_seq u < step_seq l"
    using last_stepD [OF assms(2)] assms(3) by (metis order_le_less)
  then show "step_seq s < step_seq l'"
    using u(2) same_place_fields [OF assms(1)] by auto
qed

text \<open>The last step of the current attempt can be ended in place: the steps before it stay adjoined.\<close>

definition current_last :: "job_rows \<Rightarrow> job_step \<Rightarrow> bool" where
  "current_last rows l \<longleftrightarrow> step_keys rows \<and> steps_adjoin (own_steps rows)
     \<and> last_step (attempt_steps rows (attempt_no (the_job rows))) = Some l"

lemma current_last_in:
  assumes "current_last rows l"
  shows "l \<in> set (the_steps rows)" "step_attempt_no l = attempt_no (the_job rows)"
proof -
  have "last_step (attempt_steps rows (attempt_no (the_job rows))) = Some l"
    using assms by (simp add: current_last_def)
  from last_stepD [OF this]
  show "l \<in> set (the_steps rows)" "step_attempt_no l = attempt_no (the_job rows)"
    by (auto simp: attempt_steps_def own_steps_def)
qed

lemma current_last_max:
  assumes "current_last rows l" and "s \<in> set (the_steps rows)"
    and "step_attempt_no s = step_attempt_no l"
  shows "step_seq s \<le> step_seq l"
proof -
  have "last_step (attempt_steps rows (attempt_no (the_job rows))) = Some l" "step_keys rows"
    using assms by (auto simp: current_last_def)
  then show ?thesis
    using last_stepD assms(2,3) current_last_in [OF assms(1)]
    by (auto simp: attempt_steps_def own_steps_all)
qed

lemma current_last_unique:
  assumes "current_last rows l" and "s \<in> set (the_steps rows)"
    and "step_attempt_no s = step_attempt_no l" "step_seq s = step_seq l"
  shows "s = l"
  using assms step_place_unique current_last_in(1) by (auto simp: current_last_def)

lemma ended_adjoin:
  assumes "current_last rows l" and "same_place l' l"
  shows "steps_adjoin (ended_steps l l' (the_steps rows))"
proof -
  have keys: "step_keys rows" and adjoin: "steps_adjoin (the_steps rows)"
    using assms(1) by (auto simp: current_last_def own_steps_all)
  note place = same_place_fields [OF assms(2)]
  have "step_finished_at p' = Some (step_started_at n')"
    if n: "n' \<in> set (ended_steps l l' (the_steps rows))"
      and p: "p' \<in> set (ended_steps l l' (the_steps rows))"
      and rel: "step_attempt_no p' = step_attempt_no n'" "step_seq p' = step_seq n' - 1" for n' p'
  proof -
    from n p obtain n0 p0 where n0: "n0 \<in> set (the_steps rows)" "n' = (if n0 = l then l' else n0)"
      and p0: "p0 \<in> set (the_steps rows)" "p' = (if p0 = l then l' else p0)"
      by (auto simp: ended_steps_def)
    have rel0: "step_attempt_no p0 = step_attempt_no n0" "step_seq p0 = step_seq n0 - 1"
      using rel n0(2) p0(2) place by (auto split: if_splits)
    have "p0 \<noteq> l" using current_last_max [OF assms(1) n0(1)] rel0 by auto
    moreover have "step_finished_at p0 = Some (step_started_at n0)"
      using adjoin n0(1) p0(1) rel0 by (auto simp: steps_adjoin_def list_all_iff)
    ultimately show ?thesis using n0(2) p0(2) place by auto
  qed
  then show ?thesis by (auto simp: steps_adjoin_def list_all_iff)
qed

text \<open>The rows after the step has ended, seen attempt by attempt.\<close>

definition with_ended :: "job_step \<Rightarrow> job_step \<Rightarrow> job_rows \<Rightarrow> job_rows" where
  "with_ended l l' rows = rows\<lparr>the_steps := ended_steps l l' (the_steps rows)\<rparr>"

lemma ended_keys:
  assumes "step_keys rows" and "l \<in> set (the_steps rows)" and "same_place l' l"
  shows "step_keys (with_ended l l' rows)"
proof -
  note place = same_place_fields [OF assms(3)]
  have same: "map step_id (ended_steps l l' ss) = map step_id ss"
    "map (\<lambda>s. (step_attempt_no s, step_seq s)) (ended_steps l l' ss)
      = map (\<lambda>s. (step_attempt_no s, step_seq s)) ss" for ss
    using place by (auto simp: ended_steps_def)
  have "\<forall>s \<in> set (ended_steps l l' (the_steps rows)). step_job_id s = job_id (fixed (the_job rows))"
    using assms(1,2) place by (auto simp: step_keys_def ended_steps_def)
  then show ?thesis
    using assms(1) by (simp add: step_keys_def with_ended_def same)
qed

lemma ended_attempt_steps:
  assumes "current_last rows l" and "same_place l' l"
  shows "attempt_steps (with_ended l l' rows) k
    = (if k = attempt_no (the_job rows) then ended_steps l l' (attempt_steps rows k)
       else attempt_steps rows k)"
proof -
  have keys: "step_keys rows" using assms(1) by (simp add: current_last_def)
  have eq: "attempt_steps (with_ended l l' rows) k = ended_steps l l' (attempt_steps rows k)"
    using own_steps_all [OF keys] own_steps_all [OF ended_keys [OF keys current_last_in(1) [OF assms(1)] assms(2)]]
    by (simp add: attempt_steps_def with_ended_def ended_filter_attempt [OF assms(2)])
  moreover have "l \<notin> set (attempt_steps rows k)" if "k \<noteq> attempt_no (the_job rows)"
    using that current_last_in(2) [OF assms(1)] by (auto simp: attempt_steps_def)
  ultimately show ?thesis by (auto simp: ended_absent)
qed

section \<open>Starting the next step\<close>

text \<open>The rows after the step has ended and the next one has been inserted.\<close>

definition with_next :: "job_step \<Rightarrow> job_step \<Rightarrow> job_step \<Rightarrow> job \<Rightarrow> job_rows \<Rightarrow> job_rows" where
  "with_next l l' n j rows = rows\<lparr>the_job := j, the_steps := ended_steps l l' (the_steps rows) @ [n]\<rparr>"

definition next_of :: "job_step \<Rightarrow> job_step \<Rightarrow> job \<Rightarrow> time \<Rightarrow> bool" where
  "next_of n l j t \<longleftrightarrow> step_job_id n = step_job_id l \<and> step_attempt_no n = step_attempt_no l
     \<and> step_seq n = step_seq l + 1 \<and> step_started_at n = t \<and> step_status n = STEP_RUNNING
     \<and> stage j = Some (step_code n)"

lemma with_next_own:
  assumes "current_last rows l" and "same_place l' l" and "next_of n l j t"
    and "fixed j = fixed (the_job rows)"
  shows "own_steps (with_next l l' n j rows) = ended_steps l l' (the_steps rows) @ [n]"
proof -
  have keys: "step_keys rows" using assms(1) by (simp add: current_last_def)
  note l = current_last_in [OF assms(1)]
  have "step_job_id n = job_id (fixed (the_job rows))"
    using assms(3) l(1) keys by (simp add: next_of_def step_keys_def)
  moreover have "step_keys (with_ended l l' rows)" by (rule ended_keys [OF keys l(1) assms(2)])
  ultimately show ?thesis
    using assms(4) own_steps_all [of "with_ended l l' rows"]
    by (simp add: own_steps_def with_next_def with_ended_def)
qed

lemma with_next_attempt:
  assumes "current_last rows l" and "same_place l' l" and "next_of n l j t"
    and "fixed j = fixed (the_job rows)"
  shows "attempt_steps (with_next l l' n j rows) k
    = (if k = attempt_no (the_job rows) then ended_steps l l' (attempt_steps rows k) @ [n]
       else attempt_steps rows k)"
proof -
  have keys: "step_keys rows" using assms(1) by (simp add: current_last_def)
  note l = current_last_in [OF assms(1)]
  have "attempt_steps (with_ended l l' rows) k
      = filter (\<lambda>s. step_attempt_no s = k) (ended_steps l l' (the_steps rows))"
    using own_steps_all [OF ended_keys [OF keys l(1) assms(2)]]
    by (simp add: attempt_steps_def with_ended_def)
  then show ?thesis
    using ended_attempt_steps [OF assms(1,2), of k] l(2) assms(3)
    by (auto simp: attempt_steps_def [of "with_next l l' n j rows"] with_next_own [OF assms] next_of_def)
qed

lemma append_first:
  assumes "first_step ss = Some f" and "\<And>s. s \<in> set ss \<Longrightarrow> step_seq s < step_seq n"
    and "\<And>s. s \<in> set ss \<Longrightarrow> step_seq s = step_seq f \<Longrightarrow> s = f"
  shows "first_step (ss @ [n]) = Some f"
proof (rule first_stepI)
  show "f \<in> set (ss @ [n])" using first_stepD [OF assms(1)] by simp
  show "step_seq f < step_seq s" if "s \<in> set (ss @ [n])" "s \<noteq> f" for s
    using that first_stepD [OF assms(1)] assms(2,3) by (auto simp: order_le_less)
qed

lemma append_last:
  assumes "\<And>s. s \<in> set ss \<Longrightarrow> step_seq s < step_seq n"
  shows "last_step (ss @ [n]) = Some n"
  by (rule last_stepI) (use assms in auto)

lemma next_adjoin:
  assumes "current_last rows l" and "same_place l' l" and "next_of n l j t"
    and "step_finished_at l' = Some t"
  shows "steps_adjoin (ended_steps l l' (the_steps rows) @ [n])"
proof -
  note old = ended_adjoin [OF assms(1,2)]
  note place = same_place_fields [OF assms(2)]
  have above: "step_seq s \<noteq> step_seq n + 1" "step_seq s \<noteq> step_seq n"
    if s: "s \<in> set (ended_steps l l' (the_steps rows))" "step_attempt_no s = step_attempt_no n" for s
  proof -
    obtain u where u: "u \<in> set (the_steps rows)" "s = (if u = l then l' else u)"
      using s(1) by (auto simp: ended_steps_def)
    then have "step_seq s \<le> step_seq l"
      using current_last_max [OF assms(1) u(1)] s(2) place assms(3) by (auto simp: next_of_def)
    then show "step_seq s \<noteq> step_seq n + 1" "step_seq s \<noteq> step_seq n"
      using assms(3) by (auto simp: next_of_def)
  qed
  have before: "s = l'"
    if s: "s \<in> set (ended_steps l l' (the_steps rows))" "step_attempt_no s = step_attempt_no n"
      "step_seq s = step_seq n - 1" for s
  proof -
    obtain u where u: "u \<in> set (the_steps rows)" "s = (if u = l then l' else u)"
      using s(1) by (auto simp: ended_steps_def)
    then have "u = l"
      using current_last_unique [OF assms(1) u(1)] s(2,3) place assms(3)
      by (auto simp: next_of_def split: if_splits)
    then show ?thesis using u(2) by simp
  qed
  let ?E = "ended_steps l l' (the_steps rows)"
  have "step_finished_at p = Some (step_started_at m)"
    if m: "m \<in> set (?E @ [n])" and p: "p \<in> set (?E @ [n])"
      and rel: "step_attempt_no p = step_attempt_no m" "step_seq p = step_seq m - 1" for m p
  proof (cases "p \<in> set ?E")
    case pE: True
    show ?thesis
    proof (cases "m \<in> set ?E")
      case True
      then show ?thesis using old pE rel by (simp add: steps_adjoin_def list_all_iff)
    next
      case False
      then have "m = n" using m by simp
      then have "p = l'" using before [OF pE] rel by simp
      then show ?thesis using \<open>m = n\<close> assms(3,4) by (simp add: next_of_def)
    qed
  next
    case False
    then have "p = n" using p by simp
    then have "m \<in> set ?E" using m rel(2) by auto
    then show ?thesis using above(1) [of m] \<open>p = n\<close> rel by simp
  qed
  then show ?thesis unfolding steps_adjoin_def list_all_iff by blast
qed

lemma next_continuous:
  assumes "attempt_continuous ss" and "same_place l' l" and "last_step ss = Some l"
    and uniq: "\<And>s u. s \<in> set ss \<Longrightarrow> u \<in> set ss \<Longrightarrow> step_seq s = step_seq u \<Longrightarrow> s = u"
    and "step_seq n = step_seq l + 1" and "first_step ss = Some f"
  shows "attempt_continuous (ended_steps l l' ss @ [n])"
    and "first_step (ended_steps l l' ss @ [n]) = Some (if f = l then l' else f)"
    and "last_step (ended_steps l l' ss @ [n]) = Some n"
proof -
  note place = same_place_fields [OF assms(2)]
  have below: "step_seq s < step_seq n" if s: "s \<in> set (ended_steps l l' ss)" for s
  proof -
    obtain u where u: "u \<in> set ss" "s = (if u = l then l' else u)"
      using s by (auto simp: ended_steps_def)
    then have "step_seq s = step_seq u" using place by auto
    then show ?thesis using last_stepD [OF assms(3)] u(1) assms(5) by auto
  qed
  have uniq': "s = (if f = l then l' else f)"
    if s: "s \<in> set (ended_steps l l' ss)" "step_seq s = step_seq (if f = l then l' else f)" for s
  proof -
    obtain u where u: "u \<in> set ss" "s = (if u = l then l' else u)"
      using s(1) by (auto simp: ended_steps_def)
    have "step_seq s = step_seq u" unfolding u(2) using place by simp
    moreover have "step_seq (if f = l then l' else f) = step_seq f" using place by simp
    ultimately have "step_seq u = step_seq f" using s(2) by simp
    then have "u = f" using uniq u(1) first_stepD [OF assms(6)] by blast
    then show ?thesis using u(2) by simp
  qed
  have first: "first_step (ended_steps l l' ss) = Some (if f = l then l' else f)"
    using ended_first [OF assms(2,6)] uniq first_stepD [OF assms(6)] by blast
  show f: "first_step (ended_steps l l' ss @ [n]) = Some (if f = l then l' else f)"
    by (rule append_first [OF first below uniq'])
  show l: "last_step (ended_steps l l' ss @ [n]) = Some n" by (rule append_last [OF below])
  show "attempt_continuous (ended_steps l l' ss @ [n])"
    using assms(1,3,5,6) f l place
    by (auto simp: attempt_continuous_def ended_steps_def)
qed

lemma next_consistent:
  assumes rows: "job_consistency rows = Inr ()" "step_keys rows"
    and active: "status (the_job rows) = RUNNING" "stage (the_job rows) = Some sg"
    and l: "last_step (attempt_steps rows (attempt_no (the_job rows))) = Some l"
    and l': "same_place l' l" "step_status l' \<in> {STEP_SUCCEEDED, STEP_SKIPPED}"
      "step_finished_at l' = Some t"
    and n: "next_of n l j t"
    and j: "fixed j = fixed (the_job rows)" "status j = RUNNING"
      "attempt_no j = attempt_no (the_job rows)" "start_step_code j = start_step_code (the_job rows)"
      "started_at j = started_at (the_job rows)"
  shows "job_consistency (with_next l l' n j rows) = Inr ()"
proof -
  let ?k = "attempt_no (the_job rows)" and ?rows = "with_next l l' n j rows"
  let ?ss = "attempt_steps rows ?k"
  have act: "status (the_job rows) \<in> {RUNNING, CANCEL_REQUESTED}" using active by simp
  obtain f l0 where f: "first_step ?ss = Some f" and l0: "last_step ?ss = Some l0"
    and one: "filter (\<lambda>s. step_status s = STEP_RUNNING) (own_steps rows) = [l0]"
    and pri: "priors_completed ?ss l0"
    and fj: "step_code f = start_step_code (the_job rows)"
      "started_at (the_job rows) = Some (step_started_at f)"
    and bound: "\<And>s. s \<in> set (own_steps rows) \<Longrightarrow> step_attempt_no s \<le> ?k"
    and cont: "\<And>s. s \<in> set (own_steps rows) \<Longrightarrow>
        attempt_continuous (attempt_steps rows (step_attempt_no s))"
    and adjoin: "steps_adjoin (own_steps rows)"
    by (rule active_consistent [OF rows(1) act active(2)]) blast
  have [simp]: "l0 = l" using l l0 by simp
  have cl: "current_last rows l" using rows(2) adjoin l by (simp add: current_last_def)
  note place = same_place_fields [OF l'(1)]
  note own = with_next_own [OF cl l'(1) n j(1)]
  note att = with_next_attempt [OF cl l'(1) n j(1)]
  have lk: "l \<in> set (own_steps rows)" "step_attempt_no l = ?k"
    using current_last_in [OF cl] own_steps_all [OF rows(2)] by auto
  have uniq: "s = u" if "s \<in> set ?ss" "u \<in> set ?ss" "step_seq s = step_seq u" for s u
    using that step_place_unique [OF rows(2)] by (auto simp: attempt_steps_def own_steps_all [OF rows(2)])
  have nl: "step_seq n = step_seq l + 1" "step_attempt_no n = ?k" "step_status n = STEP_RUNNING"
    using n lk(2) by (auto simp: next_of_def)
  have "attempt_continuous ?ss" using cont [OF lk(1)] lk(2) by simp
  note next_steps = next_continuous [OF this l'(1) l uniq nl(1) f]
  have src: "\<exists>u \<in> set (own_steps rows). step_attempt_no s = step_attempt_no u"
    if "s \<in> set (own_steps ?rows)" for s
    using that place nl(2) lk own_steps_all [OF rows(2)]
    by (auto simp: own ended_steps_def) (metis+)
  have bound': "step_attempt_no s \<le> ?k" if "s \<in> set (own_steps ?rows)" for s
    using src [OF that] bound by auto
  have cont': "attempt_continuous (attempt_steps ?rows (step_attempt_no s))"
    if mem: "s \<in> set (own_steps ?rows)" for s
  proof (cases "step_attempt_no s = ?k")
    case True
    then show ?thesis using next_steps(1) by (simp only: att True if_True)
  next
    case False
    then have eq: "attempt_steps ?rows (step_attempt_no s) = attempt_steps rows (step_attempt_no s)"
      by (simp only: att if_False)
    obtain u where u: "u \<in> set (own_steps rows)" "step_attempt_no s = step_attempt_no u"
      using src [OF mem] by blast
    show ?thesis unfolding eq unfolding u(2) by (rule cont [OF u(1)])
  qed
  have adjoin': "steps_adjoin (own_steps ?rows)"
    using next_adjoin [OF cl l'(1) n l'(3)] by (simp add: own)
  have run: "filter (\<lambda>s. step_status s = STEP_RUNNING) (own_steps ?rows) = [n]"
  proof -
    have "step_status s \<noteq> STEP_RUNNING" if s: "s \<in> set (ended_steps l l' (own_steps rows))" for s
    proof -
      obtain u where u: "u \<in> set (own_steps rows)" "s = (if u = l then l' else u)"
        using s by (auto simp: ended_steps_def)
      have "u = l" if "step_status u = STEP_RUNNING"
      proof -
        have "u \<in> set (filter (\<lambda>s. step_status s = STEP_RUNNING) (own_steps rows))"
          using u(1) that by simp
        then show ?thesis by (simp add: one)
      qed
      then show ?thesis using u(2) l'(2) by auto
    qed
    then show ?thesis
      using nl(3) by (simp add: own own_steps_all [OF rows(2)] filter_empty_conv)
  qed
  have pri': "priors_completed (attempt_steps ?rows ?k) n"
  proof -
    have "step_status s \<in> {STEP_SUCCEEDED, STEP_SKIPPED}" if s: "s \<in> set (ended_steps l l' ?ss)" for s
    proof -
      obtain u where u: "u \<in> set ?ss" "s = (if u = l then l' else u)"
        using s by (auto simp: ended_steps_def)
      have "step_seq u < step_seq l" if "u \<noteq> l"
        using last_stepD [OF l] u(1) uniq that by (metis order_le_less)
      then show ?thesis
        using pri u l'(2) by (auto simp: priors_completed_def list_all_iff)
    qed
    then show ?thesis by (auto simp: priors_completed_def att list_all_iff)
  qed
  have start: "step_code (if f = l then l' else f) = start_step_code j"
    "Some (step_started_at (if f = l then l' else f)) = started_at j"
    using fj j(4,5) place by auto
  have mismatch: "\<not> holds (active_mismatch j (if f = l then l' else f) n)"
    using start nl(3) n by (simp add: active_mismatch_def next_of_def)
  have job: "the_job ?rows = j" by (simp add: with_next_def)
  have att_k: "attempt_steps ?rows (attempt_no j) = ended_steps l l' ?ss @ [n]"
    by (simp add: att j(3))
  have "active_consistency ?rows = Inr ()"
    using pri' mismatch by (simp add: active_consistency_def job run att_k next_steps(2,3) att j(3) Let_def)
  moreover have "\<not> list_ex (\<lambda>s. step_attempt_no s > attempt_no j) (own_steps ?rows)"
    using bound' by (auto simp: list_ex_iff j(3) not_less)
  moreover have "list_all attempt_continuous (map (attempt_steps ?rows) (map step_attempt_no (own_steps ?rows)))"
    using cont' by (simp add: list_all_iff)
  ultimately show ?thesis
    using adjoin' j(2) by (simp add: job_consistency_def job Let_def)
qed

section \<open>Ending the job with its step\<close>

definition with_end :: "job_step \<Rightarrow> job_step \<Rightarrow> job \<Rightarrow> job_rows \<Rightarrow> job_rows" where
  "with_end l l' j rows = rows\<lparr>the_job := j, the_steps := ended_steps l l' (the_steps rows)\<rparr>"

lemma with_end_own:
  assumes "current_last rows l" and "same_place l' l" and "fixed j = fixed (the_job rows)"
  shows "own_steps (with_end l l' j rows) = ended_steps l l' (the_steps rows)"
proof -
  have keys: "step_keys rows" using assms(1) by (simp add: current_last_def)
  show ?thesis
    using own_steps_all [OF ended_keys [OF keys current_last_in(1) [OF assms(1)] assms(2)]] assms(3)
    by (simp add: own_steps_def with_end_def with_ended_def)
qed

lemma with_end_attempt:
  assumes "current_last rows l" and "same_place l' l" and "fixed j = fixed (the_job rows)"
  shows "attempt_steps (with_end l l' j rows) k
    = (if k = attempt_no (the_job rows) then ended_steps l l' (attempt_steps rows k)
       else attempt_steps rows k)"
proof -
  have keys: "step_keys rows" using assms(1) by (simp add: current_last_def)
  have "attempt_steps (with_end l l' j rows) k = attempt_steps (with_ended l l' rows) k"
    using own_steps_all [OF ended_keys [OF keys current_last_in(1) [OF assms(1)] assms(2)]]
    by (simp add: attempt_steps_def with_end_own [OF assms] with_ended_def)
  then show ?thesis by (simp add: ended_attempt_steps [OF assms(1,2)])
qed

lemma end_consistent:
  assumes rows: "job_consistency rows = Inr ()" "step_keys rows"
    and active: "status (the_job rows) \<in> {RUNNING, CANCEL_REQUESTED}" "stage (the_job rows) = Some sg"
    and l: "last_step (attempt_steps rows (attempt_no (the_job rows))) = Some l"
    and l': "same_place l' l" "step_status l' \<noteq> STEP_RUNNING"
    and j: "fixed j = fixed (the_job rows)" "status j \<in> {SUCCEEDED, FAILED, CANCELLED}"
      "attempt_no j = attempt_no (the_job rows)" "start_step_code j = start_step_code (the_job rows)"
      "started_at j = started_at (the_job rows)" "stage j = stage (the_job rows)"
      "finished_at j = step_finished_at l'"
    and agree: "status j = SUCCEEDED \<Longrightarrow> step_status l' = STEP_SUCCEEDED \<and> step_error_code l' = None"
      "status j = FAILED \<Longrightarrow> step_status l' = STEP_FAILED \<and> step_error_code l' = error_code j"
      "status j = CANCELLED \<Longrightarrow> step_status l' = STEP_CANCELLED
         \<and> step_error_code l' = Some ''JOB_CANCELLED''"
  shows "job_consistency (with_end l l' j rows) = Inr ()"
proof -
  let ?k = "attempt_no (the_job rows)" and ?rows = "with_end l l' j rows"
  let ?ss = "attempt_steps rows ?k"
  obtain f l0 where f: "first_step ?ss = Some f" and l0: "last_step ?ss = Some l0"
    and one: "filter (\<lambda>s. step_status s = STEP_RUNNING) (own_steps rows) = [l0]"
    and code: "step_code l0 = sg" and pri: "priors_completed ?ss l0"
    and fj: "step_code f = start_step_code (the_job rows)"
      "started_at (the_job rows) = Some (step_started_at f)"
    and bound: "\<And>s. s \<in> set (own_steps rows) \<Longrightarrow> step_attempt_no s \<le> ?k"
    and cont: "\<And>s. s \<in> set (own_steps rows) \<Longrightarrow>
        attempt_continuous (attempt_steps rows (step_attempt_no s))"
    and adjoin: "steps_adjoin (own_steps rows)"
    by (rule active_consistent [OF rows(1) active]) blast
  have [simp]: "l0 = l" using l l0 by simp
  have cl: "current_last rows l" using rows(2) adjoin l by (simp add: current_last_def)
  note place = same_place_fields [OF l'(1)]
  note own = with_end_own [OF cl l'(1) j(1)]
  note att = with_end_attempt [OF cl l'(1) j(1)]
  have lk: "l \<in> set (own_steps rows)" "step_attempt_no l = ?k"
    using current_last_in [OF cl] own_steps_all [OF rows(2)] by auto
  have uniq: "s = u" if "s \<in> set ?ss" "u \<in> set ?ss" "step_seq s = step_seq u" for s u
    using that step_place_unique [OF rows(2)] by (auto simp: attempt_steps_def own_steps_all [OF rows(2)])
  have lin: "l \<in> set ?ss" using last_stepD [OF l] by simp
  have first: "first_step (ended_steps l l' ?ss) = Some (if f = l then l' else f)"
    using ended_first [OF l'(1) f] uniq first_stepD [OF f] by blast
  have last: "last_step (ended_steps l l' ?ss) = Some l'"
    using ended_last [OF l'(1) l] uniq lin by blast
  have src: "\<exists>u \<in> set (own_steps rows). step_attempt_no s = step_attempt_no u"
    if s: "s \<in> set (own_steps ?rows)" for s
  proof -
    obtain u where "u \<in> set (the_steps rows)" "s = (if u = l then l' else u)"
      using s by (auto simp: own ended_steps_def)
    then show ?thesis using place own_steps_all [OF rows(2)] by (metis (no_types))
  qed
  have cont': "attempt_continuous (attempt_steps ?rows (step_attempt_no s))"
    if mem: "s \<in> set (own_steps ?rows)" for s
  proof (cases "step_attempt_no s = ?k")
    case True
    have "attempt_continuous ?ss" using cont [OF lk(1)] lk(2) by simp
    then have "attempt_continuous (ended_steps l l' ?ss)"
      using f l first last place by (auto simp: attempt_continuous_def ended_steps_def)
    then show ?thesis by (simp only: att True if_True simp_thms)
  next
    case False
    then have eq: "attempt_steps ?rows (step_attempt_no s) = attempt_steps rows (step_attempt_no s)"
      by (simp only: att if_False)
    obtain u where u: "u \<in> set (own_steps rows)" "step_attempt_no s = step_attempt_no u"
      using src [OF mem] by blast
    show ?thesis unfolding eq unfolding u(2) by (rule cont [OF u(1)])
  qed
  have none: "filter (\<lambda>s. step_status s = STEP_RUNNING) (own_steps ?rows) = []"
  proof -
    have "step_status s \<noteq> STEP_RUNNING" if s: "s \<in> set (own_steps ?rows)" for s
    proof -
      obtain u where u: "u \<in> set (the_steps rows)" "s = (if u = l then l' else u)"
        using s by (auto simp: own ended_steps_def)
      have "u = l" if "step_status u = STEP_RUNNING"
      proof -
        have "u \<in> set (filter (\<lambda>s. step_status s = STEP_RUNNING) (own_steps rows))"
          using u(1) that own_steps_all [OF rows(2)] by simp
        then show ?thesis by (simp add: one)
      qed
      then show ?thesis using u(2) l'(2) by auto
    qed
    then show ?thesis by (simp add: filter_empty_conv)
  qed
  have pri': "priors_completed (ended_steps l l' ?ss) l'"
  proof -
    have "step_status s \<in> {STEP_SUCCEEDED, STEP_SKIPPED}"
      if s: "s \<in> set (ended_steps l l' ?ss)" "step_seq s < step_seq l'" for s
    proof -
      obtain u where u: "u \<in> set ?ss" "s = (if u = l then l' else u)"
        using s(1) by (auto simp: ended_steps_def)
      then have "u \<noteq> l" "step_seq u < step_seq l" using s(2) place by (auto split: if_splits)
      then show ?thesis using pri u by (auto simp: priors_completed_def list_all_iff)
    qed
    then show ?thesis by (auto simp: priors_completed_def list_all_iff)
  qed
  have start: "step_code (if f = l then l' else f) = start_step_code j"
    "Some (step_started_at (if f = l then l' else f)) = started_at j"
    using fj j(4,5) place by auto
  have mismatch: "\<not> holds (terminal_mismatch j (if f = l then l' else f) l')"
    using start j(6,7) active(2) code place agree
    by (auto simp: terminal_mismatch_def)
  have job: "the_job ?rows = j" by (simp add: with_end_def)
  have att_k: "attempt_steps ?rows (attempt_no j) = ended_steps l l' ?ss"
    by (simp add: att j(3))
  have "inactive_consistency ?rows = Inr ()"
    using pri' mismatch none first last j(2) start(2)
    by (auto simp: inactive_consistency_def job att_k Let_def)
  moreover have "\<not> list_ex (\<lambda>s. step_attempt_no s > attempt_no j) (own_steps ?rows)"
    using src bound by (fastforce simp: list_ex_iff j(3) not_less)
  moreover have "list_all attempt_continuous (map (attempt_steps ?rows) (map step_attempt_no (own_steps ?rows)))"
    using cont' by (simp add: list_all_iff)
  moreover have "steps_adjoin (own_steps ?rows)" using ended_adjoin [OF cl l'(1)] by (simp add: own)
  ultimately show ?thesis
    using j(2) by (auto simp: job_consistency_def job Let_def)
qed

section \<open>Advancing\<close>

text \<open>A job row with its steps, held by one worker; the lease is sixty seconds from the last heartbeat.\<close>

definition held :: "claimed_job \<Rightarrow> job_step \<Rightarrow> job_rows \<Rightarrow> bool" where
  "held claim l rows \<longleftrightarrow> job_checks (the_job rows) = Inr () \<and> job_consistency rows = Inr ()
     \<and> step_keys rows \<and> step_checks l = Inr () \<and> supported_lease_policy (the_job rows)
     \<and> lease_expires_at (the_job rows) = plus_interval (heartbeat_at (the_job rows)) lease_length
     \<and> holds_claim claim (the_job rows) \<and> cj_step_id claim = step_id l
     \<and> last_step (attempt_steps rows (attempt_no (the_job rows))) = Some l"

text \<open>The readings of a call: after the step's start and the last heartbeat, before the lease ends.\<close>

definition clocks_within :: "clocks \<Rightarrow> job_step \<Rightarrow> job \<Rightarrow> bool" where
  "clocks_within c l j \<longleftrightarrow> clocks_ordered c \<and> step_started_at l \<le> t_stmt c
     \<and> (\<exists>h e. heartbeat_at j = Some h \<and> lease_expires_at j = Some e \<and> h < t_stmt c \<and> t_insert c < e)"

lemma held_current:
  assumes "held claim l rows" and "status (the_job rows) \<in> {RUNNING, CANCEL_REQUESTED}"
  shows "step_status l = STEP_RUNNING" "stage (the_job rows) = Some (step_code l)"
    "l \<in> set (the_steps rows)" "step_attempt_no l = attempt_no (the_job rows)"
    "step_job_id l = job_id (fixed (the_job rows))" "current_last rows l"
    "find_step (cj_step_id claim) rows = Some l"
proof -
  have keys: "step_keys rows" and chk: "job_checks (the_job rows) = Inr ()"
    and cons: "job_consistency rows = Inr ()"
    and last: "last_step (attempt_steps rows (attempt_no (the_job rows))) = Some l"
    using assms(1) by (auto simp: held_def)
  obtain sg where sg: "stage (the_job rows) = Some sg"
    using active_row_fields [OF chk assms(2)] by auto
  obtain f l0 where l0: "last_step (attempt_steps rows (attempt_no (the_job rows))) = Some l0"
    and run: "step_status l0 = STEP_RUNNING" "step_code l0 = sg"
    and adj: "steps_adjoin (own_steps rows)"
    by (rule active_consistent [OF cons assms(2) sg]) blast
  show "step_status l = STEP_RUNNING" "stage (the_job rows) = Some (step_code l)"
    using run l0 last sg by auto
  show cl: "current_last rows l" using keys adj last by (simp add: current_last_def)
  show "l \<in> set (the_steps rows)" "step_attempt_no l = attempt_no (the_job rows)"
    by (rule current_last_in [OF cl])+
  then show "step_job_id l = job_id (fixed (the_job rows))" using keys by (simp add: step_keys_def)
  show "find_step (cj_step_id claim) rows = Some l"
    using assms(1) find_stepI [OF keys] \<open>l \<in> set (the_steps rows)\<close> by (simp add: held_def)
qed

lemma held_step:
  assumes "held claim l rows" and "step_status l = STEP_RUNNING"
  shows "0 < step_seq l" "0 < step_attempt_no l" "step_error_code l = None" "step_finished_at l = None"
    "code_format (step_code l)"
  using assms
  by (auto simp: held_def step_checks_def step_state_matrix_def check_passes_iff split: if_splits)

lemma end_held_step:
  assumes "held claim l rows" and "status (the_job rows) \<in> {RUNNING, CANCEL_REQUESTED}"
    and "clocks_within c l (the_job rows)"
    and l': "same_place l' l" "step_finished_at l' = Some (t_stmt c)" "step_status l' \<noteq> STEP_RUNNING"
      "step_error_code l' \<notin> {Some ''LEASE_EXPIRED'', Some ''WORKER_LOST''}"
      "check_passes (step_state_matrix l')" "pred_option error_format (step_error_code l')"
  shows "update_step (t_step c) (the_job rows) l l' = Inr l'"
    and "replace_step l' (the_steps rows) = ended_steps l l' (the_steps rows)"
proof -
  note l = held_current [OF assms(1,2)]
  note place = same_place_fields [OF l'(1)]
  have chk: "job_checks (the_job rows) = Inr ()" and keys: "step_keys rows"
    using assms(1) by (auto simp: held_def)
  from assms(3) obtain e where e: "lease_expires_at (the_job rows) = Some e" "t_stmt c \<le> t_step c" "t_step c < e"
    by (auto simp: clocks_within_def clocks_ordered_def)
  have "step_update_trigger (t_step c) (the_job rows) l l' = Inr l'"
    using l(1,2,4,5) l'(1-5) e assms(2)
    by (cases "step_error_code l'")
      (auto simp: step_update_trigger_def same_place_def before_expiry_def)
  moreover have "step_checks l' = Inr ()"
    using place l'(5,6) held_step [OF assms(1) l(1)]
    by (simp add: step_checks_def)
  ultimately show "update_step (t_step c) (the_job rows) l l' = Inr l'"
    by (simp add: update_step_def)
  show "replace_step l' (the_steps rows) = ended_steps l l' (the_steps rows)"
    by (rule replace_step_ended [OF keys l(3)]) (use place in simp)
qed

text \<open>The job row after a stage transition.\<close>

definition advanced :: "clocks \<Rightarrow> string \<Rightarrow> job \<Rightarrow> job" where
  "advanced c code j = j\<lparr>stage := Some code, heartbeat_at := Some (t_stmt c),
     lease_expires_at := Some (t_stmt c + lease_length), row_version := row_version j + 1\<rparr>"

lemma advance_saved:
  assumes "held claim l rows" and "status (the_job rows) = RUNNING"
    and "clocks_within c l (the_job rows)" and "code \<noteq> step_code l" "code_format code"
  shows "update_job (t_job c) owner (the_job rows) (advanced c code (the_job rows))
    = Inr (advanced c code (the_job rows))"
proof -
  let ?j = "the_job rows"
  have act: "status ?j \<in> {RUNNING, CANCEL_REQUESTED}" using assms(2) by simp
  have chk: "job_checks ?j = Inr ()" and policy: "supported_lease_policy ?j"
    using assms(1) by (auto simp: held_def)
  note l = held_current(2) [OF assms(1) act]
  note f = active_row_fields [OF chk act]
  from assms(3) obtain h e where c: "heartbeat_at ?j = Some h" "lease_expires_at ?j = Some e"
    "h < t_stmt c" "t_stmt c \<le> t_job c" "t_job c < e"
    by (auto simp: clocks_within_def clocks_ordered_def)
  have e: "e \<noteq> t_stmt c + lease_length"
    using assms(1) c by (auto simp: held_def)
  have "job_update_trigger (t_job c) owner ?j (advanced c code ?j) = Inr (advanced c code ?j)"
    using assms(2,4) policy l c e
    by (auto simp: job_update_trigger_def running_update_def invalid_active_update_def
        invalid_stage_time_def advanced_def)
  moreover have "list_all fst (job_formats (advanced c code ?j))"
    using job_checks_formats [OF chk] assms(5) by (simp add: job_formats_def advanced_def)
  then have "job_checks (advanced c code ?j) = Inr ()"
    using f assms(2) c lease_times(1)
    by (auto simp: job_checks_def attempt_bounds_def job_state_matrix_def active_row_def
        check_passes_iff sql_truth advanced_def)
  ultimately show ?thesis by (simp add: update_job_def)
qed

lemma ended_images:
  assumes "same_place l' l"
  shows "map step_id (ended_steps l l' ss) = map step_id ss"
    "map (\<lambda>s. (step_attempt_no s, step_seq s)) (ended_steps l l' ss)
      = map (\<lambda>s. (step_attempt_no s, step_seq s)) ss"
    "map step_job_id (ended_steps l l' ss) = map step_job_id ss"
  using same_place_fields [OF assms] by (auto simp: ended_steps_def)

lemma next_place_free:
  assumes "current_last rows l" and "same_place l' l" and "next_of n l j t"
    and "s \<in> set (ended_steps l l' (the_steps rows))"
  shows "(step_attempt_no s, step_seq s) \<noteq> (step_attempt_no n, step_seq n)"
proof
  assume "(step_attempt_no s, step_seq s) = (step_attempt_no n, step_seq n)"
  moreover obtain u where u: "u \<in> set (the_steps rows)" "s = (if u = l then l' else u)"
    using assms(4) by (auto simp: ended_steps_def)
  moreover have "step_attempt_no s = step_attempt_no u" "step_seq s = step_seq u"
    unfolding u(2) using same_place_fields [OF assms(2)] by simp_all
  ultimately show False
    using current_last_max [OF assms(1) u(1)] assms(3) by (simp add: next_of_def)
qed

lemma next_keys:
  assumes cl: "current_last rows l" and place: "same_place l' l" and n: "next_of n l j t"
    and j: "fixed j = fixed (the_job rows)" and fresh: "step_id n \<notin> step_id ` set (the_steps rows)"
  shows "step_keys (with_next l l' n j rows)"
proof -
  have keys: "step_keys rows" using cl by (simp add: current_last_def)
  let ?E = "ended_steps l l' (the_steps rows)"
  note im = ended_images [OF place, of "the_steps rows"]
  have "step_id ` set ?E = step_id ` set (the_steps rows)"
    using arg_cong [OF im(1), of set] by simp
  then have ids: "distinct (map step_id (?E @ [n]))"
    using keys fresh im(1) by (auto simp: step_keys_def)
  have "(step_attempt_no n, step_seq n) \<notin> set (map (\<lambda>s. (step_attempt_no s, step_seq s)) ?E)"
    using next_place_free [OF cl place n] by fastforce
  then have places: "distinct (map (\<lambda>s. (step_attempt_no s, step_seq s)) (?E @ [n]))"
    using keys im(2) by (simp add: step_keys_def)
  have "step_job_id n = job_id (fixed (the_job rows))"
    using n keys current_last_in(1) [OF cl] by (simp add: next_of_def step_keys_def)
  moreover have "step_job_id s = job_id (fixed (the_job rows))" if "s \<in> set ?E" for s
  proof -
    have "step_job_id s \<in> set (map step_job_id (the_steps rows))"
      using that by (simp flip: im(3))
    then show ?thesis using keys by (auto simp: step_keys_def)
  qed
  ultimately show ?thesis
    using ids places j by (auto simp: step_keys_def with_next_def)
qed

lemma next_key_free:
  assumes cl: "current_last rows l" and place: "same_place l' l" and n: "next_of n l j t"
    and fresh: "step_id n \<notin> step_id ` set (the_steps rows)"
    and one: "filter (\<lambda>s. step_status s = STEP_RUNNING) (own_steps rows) = [l]"
    and ended: "step_status l' \<noteq> STEP_RUNNING"
  shows "\<not> step_key_taken (ended_steps l l' (the_steps rows)) n"
proof -
  let ?E = "ended_steps l l' (the_steps rows)"
  have keys: "step_keys rows" using cl by (simp add: current_last_def)
  have ids: "step_id ` set ?E = step_id ` set (the_steps rows)"
    using arg_cong [OF ended_images(1) [OF place, of "the_steps rows"], of set] by simp
  have "step_status s \<noteq> STEP_RUNNING" if s: "s \<in> set ?E" for s
  proof -
    obtain u where u: "u \<in> set (the_steps rows)" "s = (if u = l then l' else u)"
      using s by (auto simp: ended_steps_def)
    have "u = l" if "step_status u = STEP_RUNNING"
    proof -
      have "u \<in> set (filter (\<lambda>s. step_status s = STEP_RUNNING) (own_steps rows))"
        using u(1) that own_steps_all [OF keys] by simp
      then show ?thesis by (simp add: one)
    qed
    then show ?thesis using u(2) ended by auto
  qed
  moreover have "step_id s \<noteq> step_id n" if "s \<in> set ?E" for s
    using that fresh ids by (metis image_eqI)
  ultimately show ?thesis
    using next_place_free [OF cl place n]
    by (auto simp: step_key_taken_def list_ex_iff)
qed

lemma next_last:
  assumes "current_last rows l" and "same_place l' l" and "next_of n l j t"
    and "fixed j = fixed (the_job rows)"
  shows "last_step (attempt_steps (with_next l l' n j rows) (attempt_no (the_job rows))) = Some n"
proof -
  have "step_seq s < step_seq n"
    if s: "s \<in> set (ended_steps l l' (attempt_steps rows (attempt_no (the_job rows))))" for s
  proof -
    obtain u where u: "u \<in> set (attempt_steps rows (attempt_no (the_job rows)))"
      "s = (if u = l then l' else u)"
      using s by (auto simp: ended_steps_def)
    have "step_seq s = step_seq u" unfolding u(2) using same_place_fields [OF assms(2)] by simp
    also have "\<dots> \<le> step_seq l"
      using current_last_max [OF assms(1), of u] u(1) current_last_in(2) [OF assms(1)]
      by (auto simp: attempt_steps_def own_steps_def)
    finally show ?thesis using assms(3) by (simp add: next_of_def)
  qed
  then show ?thesis by (simp add: with_next_attempt [OF assms] append_last)
qed

end
