(* ===== verification/JobProperties.thy ===== *)
theory JobProperties
  imports JobProgress
begin

text \<open>
  The properties of the job runtime: the invariant of every history of calls, fencing, recovery, and
  the success of the calls made under a current lease; then each applied to a concrete job.
\<close>

section \<open>Properties\<close>

text \<open>C1. Whatever calls workers, the dispatcher, the recovery service and cancellation make on an audit,
report, file, parse or knowledge job, with any arguments and any clock, and however they interleave: the identity of the job never changes,
its row version never decreases, its attempt number is exactly the number of leases ever granted and
never exceeds the maximum, every stored state satisfies the constraints and agrees with its steps, and
a job that has succeeded or been cancelled never changes again.\<close>

theorem job_history_invariant:
  assumes run: "job_history start n rows"
    and new: "job_insert_trigger (the_job start) = Inr j" "job_checks (the_job start) = Inr ()"
  shows "fixed (the_job rows) = fixed (the_job start)
    \<and> 1 \<le> row_version (the_job rows)
    \<and> attempt_no (the_job rows) = int n \<and> int n \<le> max_attempts_of (the_job start)
    \<and> job_checks (the_job rows) = Inr ()
    \<and> (rows = start \<or> job_consistency rows = Inr ())
    \<and> (status (the_job rows) \<in> {SUCCEEDED, CANCELLED} \<longrightarrow> (\<forall>rows'. job_call rows rows' \<longrightarrow> rows' = rows))"
proof -
  have inserted: "attempt_no (the_job start) = 0" "row_version (the_job start) = 1"
    using new(1) by (auto simp: job_insert_trigger_def split: if_splits)
  note facts = job_history_facts [OF run]
  have checks: "job_checks (the_job rows) = Inr ()" using facts new(2) by auto
  have "rows' = rows" if final: "status (the_job rows) \<in> {SUCCEEDED, CANCELLED}"
    and call: "job_call rows rows'" for rows'
  proof (rule ccontr)
    assume "rows' \<noteq> rows"
    then obtain c where "one_update c rows rows'" using job_call_update [OF call] by blast
    then have "job_edge (status (the_job rows)) (status (the_job rows'))"
      using one_update_facts by blast
    then show False using final by (auto simp: job_edge_def)
  qed
  then show ?thesis
    using facts checks inserted job_checks_bounds [OF checks] by auto
qed


text \<open>C3. The recovery of a report job never takes a lease early: it changes the job only when the lease
and its grace of fifteen seconds have passed, the job is still running and its execution is complete.
Then either a new attempt within the maximum starts under the new worker with a fresh owner and a full
lease, or the attempts are exhausted and job and report fail together as WORKER_LOST, with no retry.\<close>

theorem report_recovery_respects_lease:
  assumes call: "recover_expired_report_job c now w code seq x r rows = Inr ((out, r'), rows')"
      "rows' \<noteq> rows"
    and lease: "lease_expires_at (the_job rows) = Some e" and clock: "now \<le> t_step c"
  shows "e + recovery_grace \<le> now \<and> status (the_job rows) = RUNNING \<and> exec_status x = ''completed''
    \<and> (if attempt_no (the_job rows) < max_attempts_of (the_job rows)
       then out = RECLAIMED (claimed_job_of (the_job rows') (new_step_id c) seq) \<and> r' = r
         \<and> status (the_job rows') = RUNNING
         \<and> attempt_no (the_job rows') = attempt_no (the_job rows) + 1
         \<and> worker_id (the_job rows') = Some w \<and> lease_owner (the_job rows') = Some (new_owner c)
         \<and> lease_expires_at (the_job rows') = Some (t_stmt c + lease_length)
       else out = EXHAUSTED \<and> attempt_no (the_job rows') = attempt_no (the_job rows)
         \<and> status (the_job rows') = FAILED \<and> error_code (the_job rows') = Some ''WORKER_LOST''
         \<and> next_retry_at (the_job rows') = None
         \<and> report_status r' = ''failed'' \<and> report_failure_code r' = Some ''WORKER_LOST'')"
proof -
  let ?code = "if exec_status x = ''completed'' then ''WORKER_LOST'' else ''AUDIT_EXECUTION_OUTDATED''"
  from call obtain s where s: "expired_step now code rows = Some s"
    by (auto simp: recover_expired_report_job_def Let_def split: if_splits option.splits)
  note facts = expired_step_facts [OF s]
  then have grace: "e + recovery_grace \<le> now" using lease by auto
  show ?thesis
  proof (cases "attempt_no (the_job rows) \<ge> max_attempts_of (the_job rows)
      \<or> exec_status x \<noteq> ''completed''")
    case True
    with call s have ex: "exhaust_statement c (step_id s) ?code ''report worker lease expired'' rows
        = Inr (out, rows')"
      and r': "report_status r' = ''failed''" "report_failure_code r' = Some ?code"
      by (auto simp: recover_expired_report_job_def Let_def split: if_splits)
    have late: "e + recovery_grace \<le> t_step c" using grace clock by simp
    have run: "status (the_job rows) = RUNNING" using facts by simp
    have "?code = ''WORKER_LOST'' \<and> attempt_no (the_job rows) = max_attempts_of (the_job rows)"
      using exhaust_code [OF ex call(2) lease late run] by (auto split: if_splits)
    then show ?thesis
      using exhaust_outcome [OF ex call(2)] r' run grace by (simp split: if_splits)
  next
    case False
    with call s have re: "reclaim_statement c (step_id s) w seq rows = Inr (out, rows')" "r' = r"
      by (auto simp: recover_expired_report_job_def Let_def split: if_splits)
    show ?thesis
      using reclaim_outcome [OF re(1) call(2)] facts False re(2) grace by auto
  qed
qed

text \<open>C38. A report job whose execution is no longer completed cannot be recovered: once its lease and
grace have passed, every recovery call that reaches the failing statement raises, because the step
trigger only admits LEASE_EXPIRED or WORKER_LOST after the grace while the call writes
AUDIT_EXECUTION_OUTDATED. Neither job nor report is closed.\<close>

theorem outdated_report_recovery_raises:
  assumes target: "valid_recovery_identity w seq = Inr ()" "report_status r = ''generating''"
      "report_resource_matches (the_job rows) x r" "expired_step now ''generate'' rows = Some s"
    and keys: "distinct (map step_id (the_steps rows))"
    and outdated: "exec_status x \<noteq> ''completed''" and clock: "now \<le> t_step c"
  shows "\<not> is_ok (recover_expired_report_job c now w ''generate'' seq x r rows)"
proof -
  note facts = expired_step_facts [OF target(4)]
  then obtain e where e: "lease_expires_at (the_job rows) = Some e" "e + recovery_grace \<le> now"
    by auto
  let ?j = "the_job rows" and ?code = "''AUDIT_EXECUTION_OUTDATED''"
  have "find_step (step_id s) rows = Some s"
    using facts keys
    by (auto simp: find_step_def find_Some_iff in_set_conv_nth distinct_conv_nth)
  moreover have "\<not> t_step c < e" "\<not> t_step c < e + recovery_grace"
    using e(2) clock lease_times(2) by linarith+
  then have "\<not> is_ok (update_step (t_step c) ?j s (s\<lparr>step_status := STEP_FAILED,
      step_finished_at := Some (t_stmt c), step_summary := ''{}'', step_error_code := Some ?code\<rparr>))"
    using facts e(1)
    by (auto simp: is_ok_iff update_step_def step_update_trigger_def before_expiry_def
        recovery_terminal_def Let_def sql_truth split: if_splits)
  ultimately have "\<not> is_ok (exhaust_statement c (step_id s) ?code msg rows)" for msg
    using facts by (auto simp: is_ok_iff exhaust_statement_def end_step_def)
  then show ?thesis
    using target outdated
    by (auto simp: is_ok_iff recover_expired_report_job_def Let_def)
qed

lemma snapshot_advanced: "snapshot_of (advanced c code j) = snapshot_of j"
  by (simp add: snapshot_of_def advanced_def)

text \<open>The rows a stage transition leaves: the ended step, the job, the next step.\<close>

abbreviation completed_step :: "clocks \<Rightarrow> string \<Rightarrow> job_step \<Rightarrow> job_step" where
  "completed_step c summary l \<equiv> l\<lparr>step_status := STEP_SUCCEEDED, step_finished_at := Some (t_stmt c),
     step_summary := summary\<rparr>"

abbreviation next_step :: "clocks \<Rightarrow> string \<Rightarrow> job_step \<Rightarrow> job \<Rightarrow> job_step" where
  "next_step c code l j \<equiv> running_step_of (advanced c code j) (new_step_id c) (step_seq l + 1) (t_stmt c)"

abbreviation advanced_rows :: "clocks \<Rightarrow> string \<Rightarrow> string \<Rightarrow> job_step \<Rightarrow> job_rows \<Rightarrow> job_rows" where
  "advanced_rows c summary code l rows \<equiv> with_next l (completed_step c summary l)
     (next_step c code l (the_job rows)) (advanced c code (the_job rows)) rows"

lemma advance_rows:
  assumes held: "held claim l rows" and run: "status (the_job rows) = RUNNING"
    and clock: "clocks_within c l (the_job rows)" and code: "code_format code"
    and fresh: "new_step_id c \<notin> step_id ` set (the_steps rows)"
  shows "next_of (next_step c code l (the_job rows)) l (advanced c code (the_job rows)) (t_stmt c)"
    and "step_checks (next_step c code l (the_job rows)) = Inr ()"
    and "job_consistency (advanced_rows c summary code l rows) = Inr ()"
    and "step_keys (advanced_rows c summary code l rows)"
    and "\<not> step_key_taken (ended_steps l (completed_step c summary l) (the_steps rows))
           (next_step c code l (the_job rows))"
    and "last_step (attempt_steps (advanced_rows c summary code l rows) (attempt_no (the_job rows)))
           = Some (next_step c code l (the_job rows))"
proof -
  let ?j = "the_job rows" and ?l' = "completed_step c summary l"
  let ?j' = "advanced c code ?j" and ?n = "next_step c code l ?j"
  have act: "status ?j \<in> {RUNNING, CANCEL_REQUESTED}" using run by simp
  note l = held_current [OF held act]
  have chk: "job_checks ?j = Inr ()" and cons: "job_consistency rows = Inr ()" and keys: "step_keys rows"
    and last: "last_step (attempt_steps rows (attempt_no ?j)) = Some l"
    using held by (auto simp: held_def)
  have place: "same_place ?l' l" by (simp add: same_place_def step_identity_def)
  have fj: "fixed ?j' = fixed ?j" by (simp add: advanced_def)
  have fresh': "step_id ?n \<notin> step_id ` set (the_steps rows)"
    using fresh by (simp add: running_step_of_def)
  have one: "filter (\<lambda>s. step_status s = STEP_RUNNING) (own_steps rows) = [l]"
    by (rule active_consistent [OF cons act l(2)]) (use last in simp)
  show n: "next_of ?n l ?j' (t_stmt c)"
    using l by (simp add: next_of_def running_step_of_def advanced_def)
  show "step_checks ?n = Inr ()"
    using held_step [OF held l(1)] active_row_fields [OF chk act] code
    by (simp add: step_checks_def running_step_of_def step_state_matrix_def check_passes_iff advanced_def)
  show "job_consistency (advanced_rows c summary code l rows) = Inr ()"
    by (rule next_consistent [OF cons keys run l(2) last place _ _ n])
      (use run in \<open>simp_all add: advanced_def\<close>)
  show "step_keys (advanced_rows c summary code l rows)"
    by (rule next_keys [OF l(6) place n fj fresh'])
  show "\<not> step_key_taken (ended_steps l ?l' (the_steps rows)) ?n"
    by (rule next_key_free [OF l(6) place n fresh' one]) simp
  show "last_step (attempt_steps (advanced_rows c summary code l rows) (attempt_no ?j)) = Some ?n"
    by (rule next_last [OF l(6) place n fj])
qed

text \<open>The three statements of the transition and its commit succeed.\<close>

lemma advance_call:
  assumes held: "held claim l rows" and run: "status (the_job rows) = RUNNING"
    and clock: "clocks_within c l (the_job rows)"
    and code: "code \<noteq> step_code l" "code_format code"
    and fresh: "new_step_id c \<notin> step_id ` set (the_steps rows)"
  shows "advance_step c claim summary code (step_seq l + 1) rows
    = Inr (Some (claimed_job_of (advanced c code (the_job rows)) (new_step_id c) (step_seq l + 1)),
        advanced_rows c summary code l rows)"
proof -
  let ?j = "the_job rows" and ?t = "t_stmt c" and ?l' = "completed_step c summary l"
  let ?j' = "advanced c code ?j" and ?n = "next_step c code l ?j"
  let ?rows1 = "rows\<lparr>the_steps := ended_steps l ?l' (the_steps rows)\<rparr>"
  let ?rows' = "advanced_rows c summary code l rows"
  have act: "status ?j \<in> {RUNNING, CANCEL_REQUESTED}" using run by simp
  note l = held_current [OF held act] and step = held_step [OF held held_current(1) [OF held act]]
  note after = advance_rows(2) [OF held run clock code(2) fresh]
    advance_rows(3-6) [OF held run clock code(2) fresh, where summary = summary]
  have hc: "holds_claim claim ?j" and chk: "job_checks ?j = Inr ()"
    using held by (simp_all add: held_def)
  from clock obtain h e where c: "lease_expires_at ?j = Some e" "?t \<le> t_insert c" "t_insert c < e"
    "?t < e" "step_started_at l \<le> ?t"
    by (auto simp: clocks_within_def clocks_ordered_def)
  have place: "same_place ?l' l" by (simp add: same_place_def step_identity_def)
  note ended = end_held_step [OF held act clock place, simplified]
  have "end_step (t_step c) (cj_step_id claim)
      (\<lambda>s. current_step claim ?j s \<and> status ?j = RUNNING \<and> holds (version_fence ?t claim ?j))
      (\<lambda>s. s\<lparr>step_status := STEP_SUCCEEDED, step_finished_at := Some ?t, step_summary := summary\<rparr>)
      rows = Inr (Some ?rows1)"
    using holds_claim_fence [OF hc chk act c(1) c(4)] l run ended step c(5)
    by (simp add: end_step_def current_step_def step_state_matrix_def check_passes_iff)
  moreover have "save_job c (\<lambda>j. j\<lparr>stage := Some code, heartbeat_at := Some ?t,
      lease_expires_at := Some (?t + lease_length), row_version := row_version j + 1\<rparr>) ?rows1
      = Inr (?rows1\<lparr>the_job := ?j'\<rparr>)"
    using advance_saved [OF held run clock code] by (simp add: save_job_def advanced_def)
  moreover have "t_insert c < ?t + lease_length"
    using c clock held by (auto simp: held_def clocks_within_def)
  then have "step_insert_trigger (t_insert c) ?j' ?n = Inr ?n"
    using run c(2) by (auto simp: step_insert_trigger_def running_step_of_def advanced_def
        before_expiry_def)
  then have "insert_step (t_insert c) (?rows1\<lparr>the_job := ?j'\<rparr>) ?n = Inr ?rows'"
    using after(1,4) by (simp add: insert_step_def with_next_def)
  moreover have "commit_job ?j ?rows' = Inr ?rows'"
    using after(2,5) by (simp add: commit_job_def recovery_shares_clock_def stage_shares_clock_def
        advanced_def with_next_def running_step_of_def)
  ultimately show ?thesis by (simp add: advance_step_def Let_def advanced_def)
qed

text \<open>C4. Stage transitions always commit for the holder of the lease: with the call's clocks inside the
lease, a well-formed step code other than the current one, the next sequence number and a fresh step
id, the running step is recorded as succeeded, the next one starts at the same instant, the lease
restarts for sixty seconds, and the worker ends up holding the next step under the new row version. No
trigger, constraint, unique key or deferred check rejects it.\<close>

theorem advance_step_commits:
  assumes held: "held claim l rows" and run: "status (the_job rows) = RUNNING"
    and clock: "clocks_within c l (the_job rows)"
    and code: "code \<noteq> step_code l" "code_format code"
    and fresh: "new_step_id c \<notin> step_id ` set (the_steps rows)"
  shows "\<exists>claim' rows' n. advance_step c claim summary code (step_seq l + 1) rows = Inr (Some claim', rows')
    \<and> held claim' n rows' \<and> step_code n = code \<and> step_started_at n = t_stmt c
    \<and> status (the_job rows') = RUNNING \<and> attempt_no (the_job rows') = attempt_no (the_job rows)
    \<and> lease_expires_at (the_job rows') = Some (t_stmt c + lease_length)
    \<and> row_version (the_job rows') = row_version (the_job rows) + 1
    \<and> the_steps rows' = ended_steps l (l\<lparr>step_status := STEP_SUCCEEDED,
          step_finished_at := Some (t_stmt c), step_summary := summary\<rparr>) (the_steps rows) @ [n]"
proof -
  let ?j' = "advanced c code (the_job rows)" and ?n = "next_step c code l (the_job rows)"
  let ?claim' = "claimed_job_of ?j' (new_step_id c) (step_seq l + 1)"
  note after = advance_rows(2) [OF held run clock code(2) fresh]
    advance_rows(3-6) [OF held run clock code(2) fresh, where summary = summary]
  have "job_checks ?j' = Inr ()"
    using advance_saved [OF held run clock code] by (simp add: update_job_def)
  then have "held ?claim' ?n (advanced_rows c summary code l rows)"
    using held after run
    by (auto simp: held_def with_next_def advanced_def holds_claim_def claimed_job_of_def
        supported_lease_policy_def running_step_of_def)
  then show ?thesis
    using advance_call [OF held run clock code fresh, where summary = summary] run
    by (intro exI [of _ ?claim'] exI [of _ "advanced_rows c summary code l rows"] exI [of _ ?n])
      (simp add: with_next_def advanced_def running_step_of_def)
qed

text \<open>The end a worker reports: what it may say, and the row it leaves.\<close>

definition end_report :: "job_end \<Rightarrow> string option \<Rightarrow> string option \<Rightarrow> bool" where
  "end_report e code msg \<longleftrightarrow> (case e of
     END_SUCCEEDED \<Rightarrow> code = None \<and> msg = None
   | END_FAILED \<Rightarrow> (\<exists>x. code = Some x \<and> error_format x \<and> x \<notin> {''LEASE_EXPIRED'', ''WORKER_LOST''})
   | END_CANCELLED \<Rightarrow> True)"

definition finished :: "clocks \<Rightarrow> job_end \<Rightarrow> string option \<Rightarrow> string option \<Rightarrow> job \<Rightarrow> job" where
  "finished c e code msg j = clear_lease (j\<lparr>status := job_end_status e, finished_at := Some (t_stmt c),
     error_code := code, error_message := msg,
     next_retry_at := (if next_retry e code (snapshot_of j) then Some (t_stmt c) else None)\<rparr>)"

lemma finish_saved:
  assumes "held claim l rows" and "status (the_job rows) = (if e = END_CANCELLED then CANCEL_REQUESTED else RUNNING)"
    and "clocks_within c l (the_job rows)" and "end_report e code msg"
    and "e = END_CANCELLED \<Longrightarrow> code = Some ''JOB_CANCELLED'' \<and> msg = None"
  shows "update_job (t_job c) owner (the_job rows) (finished c e code msg (the_job rows))
    = Inr (finished c e code msg (the_job rows))"
proof -
  let ?j = "the_job rows"
  have act: "status ?j \<in> {RUNNING, CANCEL_REQUESTED}" using assms(2) by (simp split: if_splits)
  have chk: "job_checks ?j = Inr ()" using assms(1) by (auto simp: held_def)
  note f = active_row_fields [OF chk act]
  from assms(3) obtain h x where c: "heartbeat_at ?j = Some h" "lease_expires_at ?j = Some x"
    "h < t_stmt c" "t_stmt c \<le> t_job c" "t_job c < x"
    by (auto simp: clocks_within_def clocks_ordered_def)
  then have notlate: "\<not> x + recovery_grace \<le> t_job c" using lease_times(2) by linarith
  have "job_update_trigger (t_job c) owner ?j (finished c e code msg ?j) = Inr (finished c e code msg ?j)"
    using assms(2,4,5) c notlate
    by (cases e)
      (auto simp: job_update_trigger_def finished_def clear_lease_def job_end_status_def
        needs_lease_policy_def invalid_running_end_def invalid_active_cancellation_def
        before_expiry_def past_grace_def end_report_def Let_def)
  moreover have "list_all fst (job_formats (finished c e code msg ?j))"
    using job_checks_formats [OF chk] assms(4,5)
    by (cases e) (auto simp: job_formats_def finished_def clear_lease_def end_report_def)
  then have "job_checks (finished c e code msg ?j) = Inr ()"
    using f assms(4,5) c
    by (cases e)
      (auto simp: job_checks_def attempt_bounds_def job_state_matrix_def succeeded_row_def
        failed_row_def cancelled_row_def no_lease_def retry_fields_def check_passes_iff sql_truth
        finished_def clear_lease_def job_end_status_def end_report_def next_retry_def snapshot_of_def)
  ultimately show ?thesis by (simp add: update_job_def)
qed

text \<open>The step a completion ends, with the error code the call records.\<close>

definition end_code :: "job_end \<Rightarrow> string option \<Rightarrow> string option" where
  "end_code e code = (if e = END_CANCELLED then Some ''JOB_CANCELLED'' else code)"

definition end_message :: "job_end \<Rightarrow> string option \<Rightarrow> string option" where
  "end_message e msg = (if e = END_CANCELLED then None else msg)"

abbreviation ended_by :: "clocks \<Rightarrow> job_end \<Rightarrow> string \<Rightarrow> string option \<Rightarrow> job_step \<Rightarrow> job_step" where
  "ended_by c e summary code l \<equiv> l\<lparr>step_status := step_end_status e,
     step_finished_at := Some (t_stmt c), step_summary := summary, step_error_code := end_code e code\<rparr>"

lemma end_report_facts:
  assumes "end_report e code msg"
  shows "end_code e code \<notin> {Some ''LEASE_EXPIRED'', Some ''WORKER_LOST''}"
    "pred_option error_format (end_code e code)" "end_report e (end_code e code) (end_message e msg)"
    "step_end_status e \<noteq> STEP_RUNNING"
    "step_started_at l \<le> t_stmt c \<Longrightarrow> check_passes (step_state_matrix (ended_by c e summary code l))"
  using assms
  by (cases e; auto simp: end_report_def end_code_def end_message_def step_end_status_def
      step_state_matrix_def check_passes_iff Let_def)+

lemma finish_call:
  assumes held: "held claim l rows"
    and status: "status (the_job rows) = (if e = END_CANCELLED then CANCEL_REQUESTED else RUNNING)"
    and clock: "clocks_within c l (the_job rows)" and report: "end_report e code msg"
  defines "j' \<equiv> finished c e (end_code e code) (end_message e msg) (the_job rows)"
  shows "finish_job c claim e summary code msg rows
      = Inr (True, with_end l (ended_by c e summary code l) j' rows)"
    and "job_consistency (with_end l (ended_by c e summary code l) j' rows) = Inr ()"
    and "job_checks j' = Inr ()"
proof -
  let ?j = "the_job rows" and ?t = "t_stmt c" and ?l' = "ended_by c e summary code l"
  let ?rows1 = "rows\<lparr>the_steps := ended_steps l ?l' (the_steps rows)\<rparr>"
  have act: "status ?j \<in> {RUNNING, CANCEL_REQUESTED}" using status by (simp split: if_splits)
  note l = held_current [OF held act] and r = end_report_facts [OF report]
  have chk: "job_checks ?j = Inr ()" and cons: "job_consistency rows = Inr ()" and keys: "step_keys rows"
    and last: "last_step (attempt_steps rows (attempt_no ?j)) = Some l" and hc: "holds_claim claim ?j"
    using held by (auto simp: held_def)
  from clock obtain x where c: "lease_expires_at ?j = Some x" "?t < x" "step_started_at l \<le> ?t"
    by (auto simp: clocks_within_def clocks_ordered_def)
  have place: "same_place ?l' l" by (simp add: same_place_def step_identity_def)
  have saved: "update_job (t_job c) (new_owner c) ?j j' = Inr j'"
    unfolding j'_def by (rule finish_saved [OF held status clock r(3)])
      (simp add: end_code_def end_message_def)
  then show "job_checks j' = Inr ()" by (simp add: update_job_def)
  have ended: "update_step (t_step c) ?j l ?l' = Inr ?l'"
    "replace_step ?l' (the_steps rows) = ended_steps l ?l' (the_steps rows)"
    using end_held_step [OF held act clock place _ _ _ r(5) [OF c(3)]] r(1,2,4) by simp_all
  have step: "end_step (t_step c) (cj_step_id claim)
      (\<lambda>s. current_step claim ?j s
        \<and> status ?j = (if e = END_CANCELLED then CANCEL_REQUESTED else RUNNING)
        \<and> holds (version_fence ?t claim ?j))
      (\<lambda>s. ended_by c e summary code s) rows = Inr (Some ?rows1)"
    using holds_claim_fence [OF hc chk act c(1,2)] l ended status
    by (simp add: end_step_def current_step_def del: holds_connectives)
  have "cj_job claim = snapshot_of ?j"
    using hc by (auto simp: holds_claim_def claimed_job_of_def)
  then have "save_job c (\<lambda>j. clear_lease (j\<lparr>status := job_end_status e, finished_at := Some ?t,
      error_code := end_code e code, error_message := end_message e msg,
      next_retry_at := (if next_retry e (end_code e code) (cj_job claim) then Some ?t else None)\<rparr>)) ?rows1
      = Inr (with_end l ?l' j' rows)"
    using saved by (simp add: save_job_def with_end_def finished_def j'_def)
  moreover show consistent: "job_consistency (with_end l ?l' j' rows) = Inr ()"
  proof (rule end_consistent [OF cons keys act l(2) last place])
    show "status j' \<in> {SUCCEEDED, FAILED, CANCELLED}"
      by (cases e) (simp_all add: j'_def finished_def clear_lease_def job_end_status_def)
  qed (use r(4) report in \<open>cases e; simp add: j'_def finished_def clear_lease_def job_end_status_def
        step_end_status_def end_report_def end_code_def\<close>)+
  moreover have "commit_job ?j (with_end l ?l' j' rows) = Inr (with_end l ?l' j' rows)"
    using consistent
    by (cases e) (simp_all add: commit_job_def recovery_shares_clock_def stage_shares_clock_def
        with_end_def j'_def finished_def clear_lease_def job_end_status_def)
  ultimately show "finish_job c claim e summary code msg rows = Inr (True, with_end l ?l' j' rows)"
    using step by (simp add: finish_job_def Let_def end_code_def end_message_def del: holds_connectives)
qed

text \<open>C7. Completions always commit for the holder of the lease: a success, a failure with a well-formed
error code of its own or, once cancellation has been requested, a cancellation ends the running step
and the job at the same instant with the same outcome, and gives the lease up. A failure is scheduled
for retry at that instant exactly when its error is transient and attempts remain.\<close>

theorem finish_job_commits:
  assumes held: "held claim l rows"
    and status: "status (the_job rows) = (if e = END_CANCELLED then CANCEL_REQUESTED else RUNNING)"
    and clock: "clocks_within c l (the_job rows)" and report: "end_report e code msg"
  shows "\<exists>rows' l'. finish_job c claim e summary code msg rows = Inr (True, rows')
    \<and> the_steps rows' = ended_steps l l' (the_steps rows)
    \<and> step_status l' = step_end_status e \<and> step_finished_at l' = Some (t_stmt c)
    \<and> step_error_code l' = error_code (the_job rows')
    \<and> status (the_job rows') = job_end_status e \<and> finished_at (the_job rows') = Some (t_stmt c)
    \<and> lease_owner (the_job rows') = None \<and> job_checks (the_job rows') = Inr ()
    \<and> job_consistency rows' = Inr ()
    \<and> (next_retry_at (the_job rows') = Some (t_stmt c) \<longleftrightarrow> e = END_FAILED
         \<and> (\<exists>x \<in> set transient_codes. code = Some x)
         \<and> attempt_no (the_job rows) < max_attempts_of (the_job rows))"
proof -
  let ?l' = "ended_by c e summary code l"
  let ?j' = "finished c e (end_code e code) (end_message e msg) (the_job rows)"
  have "next_retry_at ?j' = Some (t_stmt c) \<longleftrightarrow> e = END_FAILED
      \<and> (\<exists>x \<in> set transient_codes. code = Some x) \<and> attempt_no (the_job rows) < max_attempts_of (the_job rows)"
    by (auto simp: finished_def clear_lease_def next_retry_def snapshot_of_def end_code_def holds_in)
  then show ?thesis
    using finish_call(1,2) [OF held status clock report, where summary = summary]
      finish_call(3) [OF held status clock report]
    by (intro exI [of _ "with_end l ?l' ?j' rows"] exI [of _ ?l'])
      (simp add: with_end_def finished_def clear_lease_def)
qed

text \<open>C8. Heartbeats always commit for the holder of the lease: whether the job is running or has been
asked to cancel, the lease is restarted for sixty seconds from the database's clock, the steps are
untouched, and the worker keeps holding the same step under the next row version.\<close>

theorem heartbeat_extends_lease:
  assumes held: "held claim l rows" and active: "status (the_job rows) \<in> {RUNNING, CANCEL_REQUESTED}"
    and clock: "clocks_within c l (the_job rows)"
  shows "\<exists>claim' rows'. heartbeat c claim rows = Inr (Some claim', rows') \<and> held claim' l rows'
    \<and> the_steps rows' = the_steps rows \<and> status (the_job rows') = status (the_job rows)
    \<and> lease_expires_at (the_job rows') = Some (t_job c + lease_length)
    \<and> cj_row_version claim' = row_version (the_job rows) + 1
    \<and> (\<forall>e. lease_expires_at (the_job rows) = Some e \<longrightarrow> e < t_job c + lease_length)"
proof -
  let ?j' = "renew_lease (t_job c) ((the_job rows)\<lparr>row_version := row_version (the_job rows) + 1\<rparr>)"
  have chk: "job_checks (the_job rows) = Inr ()" and cons: "job_consistency rows = Inr ()"
    and policy: "supported_lease_policy (the_job rows)" and hc: "holds_claim claim (the_job rows)"
    using held by (auto simp: held_def)
  from clock obtain h e where c: "heartbeat_at (the_job rows) = Some h"
    "lease_expires_at (the_job rows) = Some e" "h < t_stmt c" "t_stmt c \<le> t_job c" "t_job c < e"
    by (auto simp: clocks_within_def clocks_ordered_def)
  note beat = heartbeat_succeeds [OF chk cons active policy hc c(2,1,4,3,5)]
  have "e = h + lease_length" using held c by (auto simp: held_def)
  then have "e < t_job c + lease_length" using c by simp
  moreover have "job_consistency (rows\<lparr>the_job := ?j'\<rparr>) = Inr ()"
    by (rule job_consistency_lease [OF cons]) (simp_all add: renew_lease_def)
  moreover have "list_all fst (job_formats ?j')"
    using job_checks_formats [OF chk] by (simp add: job_formats_def renew_lease_def)
  then have "job_checks ?j' = Inr ()"
    using active_row_fields [OF chk active] active c lease_times(1)
    by (auto simp: job_checks_def attempt_bounds_def job_state_matrix_def active_row_def
        check_passes_iff sql_truth renew_lease_def)
  moreover have "attempt_steps (rows\<lparr>the_job := ?j'\<rparr>) (attempt_no ?j')
      = attempt_steps rows (attempt_no (the_job rows))"
    by (simp add: attempt_steps_def own_steps_def renew_lease_def)
  ultimately have "held (claimed_job_of ?j' (cj_step_id claim) (cj_step_seq claim)) l
      (rows\<lparr>the_job := ?j'\<rparr>)"
    using held
    by (auto simp: held_def step_keys_def supported_lease_policy_def holds_claim_def
        claimed_job_of_def) (simp_all add: renew_lease_def)
  then show ?thesis
    using beat c \<open>e < t_job c + lease_length\<close>
    by (intro exI [of _ "claimed_job_of ?j' (cj_step_id claim) (cj_step_seq claim)"]
        exI [of _ "rows\<lparr>the_job := ?j'\<rparr>"]) (simp add: renew_lease_def claimed_job_of_def)
qed

text \<open>C39. A job that was asked to cancel and whose worker is lost stays active for ever: once its lease has
run out, no claim, heartbeat, transition, completion, scan outcome, retry, cancellation, recovery or dispatcher
call changes it.
The database would accept its cancellation after the grace, but only the lost worker's own
acknowledgement asks for it; the recovery calls select running jobs.\<close>

theorem lost_cancel_request_is_stuck:
  assumes cancel: "status (the_job rows) = CANCEL_REQUESTED"
    and expired: "lease_expires_at (the_job rows) = Some e" "e \<le> t_stmt c"
    and worker: "valid_recovery_identity w seq = Inr ()"
  shows "claim_job c ev version w seq admitted rows = Inr (None, rows)
    \<and> heartbeat c claim rows = Inr (None, rows)
    \<and> advance_step c claim summary code seq rows = Inr (None, rows)
    \<and> finish_job c claim end summary err msg rows = Inr (False, rows)
    \<and> requeue_failed_report_job c eid xid code x r rows = Inr (None, rows)
    \<and> requeue_failed_audit_job c eid xid code x sn rows = Inr (None, rows)
    \<and> cancel_job c rows = Inr rows
    \<and> recover_expired_report_job c now w code seq x r rows = Inr ((STALE, r), rows)
    \<and> recover_expired_audit_job c now w code seq x sn rows = Inr ((STALE, x), rows)
    \<and> claim_file_job c ev version w seq versions f rows = Inr ((None, f), rows)
    \<and> claim_parse_job c ev version w seq f source res corr rows = Inr ((None, res), rows)
    \<and> fail_file_scan c claim summary verdict scan_err rejection f rows = Inr ((False, f), rows)
    \<and> skip_recovered_clean_scan c claim code seq f rows = Inr (None, rows)
    \<and> (\<forall>ans. complete_file_scan_clean c claim summary bucket key ncode nseq f rows = Inr (ans, rows')
        \<longrightarrow> rows' = rows)
    \<and> requeue_failed_file_job c eid xid code allow versions f rows = Inr (None, rows)
    \<and> requeue_failed_knowledge_job c eid xid code k rows = Inr (None, rows)
    \<and> recover_expired_file_job c now w code seq versions f manual rows
        = Inr ((STALE, f, map_option snd manual), rows)
    \<and> recover_expired_knowledge_job c now w code seq completed k rows = Inr ((STALE, k), rows)
    \<and> (\<forall>ans. mark_job_dispatch_failure digest c code called cl man es rows = Inr (ans, rows') \<longrightarrow> rows' = rows)"
proof -
  have late: "\<not> holds (version_fence (t_stmt c) claim (the_job rows))"
    using expired by (simp add: version_fence_def before_expiry_def)
  then have "\<not> holds (sql_all [version_fence (t_stmt c) claim (the_job rows), x, y])" for x y
    by simp
  then have "claim_job c ev version w seq admitted rows = Inr (None, rows)"
    "heartbeat c claim rows = Inr (None, rows)"
    "advance_step c claim summary code seq rows = Inr (None, rows)"
    "finish_job c claim end summary err msg rows = Inr (False, rows)"
    using cancel late
    by (simp_all add: claim_job_def heartbeat_def advance_step_def finish_job_def end_step_none Let_def
        del: holds_connectives)
  moreover have "expired_step now code' rows = None" for code'
    using cancel by (simp add: expired_step_def Let_def)
  then have "recover_expired_report_job c now w code seq x r rows = Inr ((STALE, r), rows)"
    "recover_expired_audit_job c now w code seq x sn rows = Inr ((STALE, x), rows)"
    using worker by (simp_all add: recover_expired_report_job_def recover_expired_audit_job_def Let_def)
  moreover have "requeue_failed_report_job c eid xid code x r rows = Inr (None, rows)"
    "requeue_failed_audit_job c eid xid code x sn rows = Inr (None, rows)"
    "cancel_job c rows = Inr rows"
    using cancel
    by (simp_all add: requeue_failed_report_job_def requeue_failed_audit_job_def retry_due_def
        cancel_job_def Let_def)
  moreover have scan: "\<not> scan_step t claim (the_job rows) s" for t s
    using cancel by (simp add: scan_step_def)
  then have "fail_file_scan c claim summary verdict scan_err rejection f rows = Inr ((False, f), rows)"
    "complete_file_scan_clean c claim summary bucket key ncode nseq f rows = Inr (ans, rows') \<Longrightarrow> rows' = rows"
    "skip_recovered_clean_scan c claim code seq f rows = Inr (None, rows)" for ans
    using cancel
    by (auto simp: fail_file_scan_def complete_file_scan_clean_def skip_recovered_clean_scan_def Let_def
        end_step_none split: if_splits)
  moreover have "claim_file_job c ev version w seq versions f rows = Inr ((None, f), rows)"
    "claim_parse_job c ev version w seq f source res corr rows = Inr ((None, res), rows)"
    "requeue_failed_file_job c eid xid code allow versions f rows = Inr (None, rows)"
    "requeue_failed_knowledge_job c eid xid code k rows = Inr (None, rows)"
    using cancel
    by (simp_all add: claim_file_job_def claim_parse_job_def reaches_admission_def Let_def
        requeue_failed_file_job_def requeue_failed_knowledge_job_def retry_due_def)
  moreover have "recover_expired_file_job c now w code seq versions f manual rows
      = Inr ((STALE, f, map_option snd manual), rows)"
    "recover_expired_knowledge_job c now w code seq completed k rows = Inr ((STALE, k), rows)"
    using worker cancel \<open>\<And>code'. expired_step now code' rows = None\<close>
    by (simp_all add: recover_expired_file_job_def recover_expired_knowledge_job_def lease_expired_def Let_def)
  moreover have "rows' = rows"
    if "mark_job_dispatch_failure digest c code called cl man es rows = Inr (ans, rows')" for ans
    using dispatch_failure_update [OF that] cancel by fastforce
  ultimately show ?thesis by (intro conjI) (assumption | blast)+
qed

lemma job_formats_null [intro]:
  "list_all fst (job_formats j) \<Longrightarrow> list_all fst (job_formats (j\<lparr>error_code := None\<rparr>))"
  "list_all fst (job_formats j) \<Longrightarrow> list_all fst (job_formats (j\<lparr>next_retry_at := None\<rparr>))"
  by (simp_all add: job_formats_def)

text \<open>C40. The state matrices do not enforce what they spell out, because a comparison with null is
unknown and a CHECK only rejects what is false: a cancelled job may lose its error code, a retryable
failure its retry time (so that it is never retried), a cancelled or skipped step its code, and a failed
delivery its error.\<close>

theorem state_matrices_admit_null:
  assumes "job_checks j = Inr ()" and "job_checks f = Inr ()" and "step_checks s = Inr ()"
    and "event_checks e = Inr ()"
  shows "(status j = CANCELLED \<longrightarrow> job_checks (j\<lparr>error_code := None\<rparr>) = Inr ())
    \<and> (status f = FAILED \<and> next_retry_at f \<noteq> None \<longrightarrow> job_checks (f\<lparr>next_retry_at := None\<rparr>) = Inr ())
    \<and> (step_status s \<in> {STEP_CANCELLED, STEP_SKIPPED} \<longrightarrow>
         step_checks (s\<lparr>step_error_code := None\<rparr>) = Inr ())
    \<and> (event_status e = EVENT_FAILED \<longrightarrow> event_checks (e\<lparr>last_error := None\<rparr>) = Inr ())"
proof (intro conjI impI)
  assume "status j = CANCELLED"
  then show "job_checks (j\<lparr>error_code := None\<rparr>) = Inr ()"
    using assms(1)
    by (auto simp: job_checks_def attempt_bounds_def job_state_matrix_def queued_row_def
      active_row_def succeeded_row_def failed_row_def cancelled_row_def no_lease_def check_passes_iff
      split: if_splits)
next
  assume "status f = FAILED \<and> next_retry_at f \<noteq> None"
  then show "job_checks (f\<lparr>next_retry_at := None\<rparr>) = Inr ()"
    using assms(2)
    by (auto simp: job_checks_def attempt_bounds_def job_state_matrix_def queued_row_def
      active_row_def succeeded_row_def failed_row_def cancelled_row_def no_lease_def retry_fields_def
      check_passes_iff split: if_splits)
next
  assume "step_status s \<in> {STEP_CANCELLED, STEP_SKIPPED}"
  then show "step_checks (s\<lparr>step_error_code := None\<rparr>) = Inr ()"
    using assms(3)
    by (auto simp: step_checks_def step_state_matrix_def check_passes_iff Let_def split: if_splits)
next
  assume "event_status e = EVENT_FAILED"
  then show "event_checks (e\<lparr>last_error := None\<rparr>) = Inr ()"
    using assms(4)
    by (auto simp: event_checks_def event_state_matrix_def check_passes_iff split: if_splits)
qed

section \<open>Examples\<close>

lemma sample_texts [simp]:
  "code_format ''generate''" "code_format ''store''" "error_format ''RATE_LIMITED''"
  "random_uuid_format ''11111111-1111-4111-8111-111111111111''"
  "random_uuid_format ''22222222-2222-4222-9222-222222222222''"
  "code_format ''report_generate''" "version_format ''v1''" "version_format ''job-retry-policy-v1''"
  "version_format ''job-lease-v1''"
  by (simp_all add: code_format_def error_format_def random_uuid_format_def version_format_def char_in_def)

definition sample_running :: job where
  "sample_running = sample_job\<lparr>status := RUNNING, stage := Some ''generate'', attempt_no := 1,
     worker_id := Some ''w1'', started_at := Some 100, lease_owner := Some ''11111111-1111-4111-8111-111111111111'',
     lease_expires_at := Some (100 + lease_length), heartbeat_at := Some 100, row_version := 2\<rparr>"

definition sample_step :: job_step where
  "sample_step = \<lparr>step_id = 20, step_job_id = 9, step_seq = 1, step_code = ''generate'',
     step_status = STEP_RUNNING, step_attempt_no = 1, step_started_at = 100,
     step_finished_at = None, step_summary = ''{}'', step_error_code = None, step_trace_id = 3\<rparr>"

definition sample_rows :: job_rows where
  "sample_rows = \<lparr>the_job = sample_running, the_steps = [sample_step]\<rparr>"

definition sample_claim :: claimed_job where
  "sample_claim = claimed_job_of sample_running 20 1"

definition sample_clocks :: clocks where
  "sample_clocks = \<lparr>t_stmt = 200, t_step = 201, t_job = 202, t_insert = 203, new_owner = ''22222222-2222-4222-9222-222222222222'',
     new_step_id = 21\<rparr>"

lemma sample_job_of: "the_job sample_rows = sample_running" "the_steps sample_rows = [sample_step]"
  by (simp_all add: sample_rows_def)

lemma sample_attempt: "attempt_steps sample_rows 1 = [sample_step]" "own_steps sample_rows = [sample_step]"
  by (simp_all add: attempt_steps_def own_steps_def sample_rows_def sample_step_def sample_running_def
      sample_job_def)

lemma sample_running_checks: "job_checks sample_running = Inr ()"
  using sample_job_formats
  by (simp add: job_checks_def job_formats_def attempt_bounds_def job_state_matrix_def active_row_def
      sample_running_def sample_job_def check_passes_iff btrim_empty_def)

lemma sample_rows_consistent: "job_consistency sample_rows = Inr ()"
proof -
  have "step_attempt_no sample_step = 1" "step_status sample_step = STEP_RUNNING"
    "attempt_no sample_running = 1" "status sample_running = RUNNING"
    by (simp_all add: sample_step_def sample_running_def)
  moreover have "steps_adjoin [sample_step]" by (simp add: steps_adjoin_def)
  moreover have "\<not> holds (active_mismatch sample_running sample_step sample_step)"
    by (simp add: active_mismatch_def sample_running_def sample_step_def sample_job_def)
  ultimately show ?thesis
    by (simp add: job_consistency_def active_consistency_def sample_attempt sample_job_of Let_def
        first_step_def last_step_def attempt_continuous_def priors_completed_def)
qed

lemma sample_held: "held sample_claim sample_step sample_rows"
  using sample_running_checks sample_rows_consistent
  by (simp add: held_def sample_job_of step_keys_def step_checks_def step_state_matrix_def
      check_passes_iff sample_claim_def holds_claim_def claimed_job_of_def sample_attempt last_step_def)
    (auto simp: sample_running_def sample_step_def sample_job_def supported_lease_policy_def
      sample_attempt last_step_def)

lemma sample_clocks_within: "clocks_within sample_clocks sample_step sample_running"
  by (simp add: clocks_within_def clocks_ordered_def sample_clocks_def sample_step_def
      sample_running_def lease_length_def seconds_def)

lemma sample_status: "status (the_job sample_rows) = RUNNING" "status sample_running = RUNNING"
  "attempt_no sample_running = 1"
  by (simp_all add: sample_rows_def sample_running_def)

definition sample_queued_rows :: job_rows where
  "sample_queued_rows = \<lparr>the_job = sample_job, the_steps = []\<rparr>"

text \<open>Cancelling the queued job, and a heartbeat of the running one.\<close>

lemma sample_cancel:
  "\<exists>rows'. cancel_job sample_clocks sample_queued_rows = Inr rows' \<and> status (the_job rows') = CANCELLED"
  by (simp add: cancel_job_def sample_queued_rows_def sample_job_def save_job_def update_job_def
      job_update_trigger_def needs_lease_policy_def invalid_queued_cancellation_def sample_clocks_def
      job_formats_def job_checks_def attempt_bounds_def job_state_matrix_def queued_row_def active_row_def
      succeeded_row_def failed_row_def cancelled_row_def no_lease_def check_passes_iff
      commit_job_def recovery_shares_clock_def stage_shares_clock_def job_consistency_def
      inactive_consistency_def own_steps_def attempt_steps_def steps_adjoin_def)

text \<open>The dispatcher's last failure ends the queued job.\<close>

lemma sample_queued_consistent: "job_consistency sample_queued_rows = Inr ()"
  by (simp add: sample_queued_rows_def sample_job_def job_consistency_def inactive_consistency_def
      own_steps_def attempt_steps_def steps_adjoin_def)

lemma sample_dispatch_failure:
  "\<exists>res rows'. mark_job_dispatch_failure (\<lambda>_. []) sample_clocks ''BROKER_TIMEOUT'' True sample_outbox_claim None
      (events sample_outbox_rows) sample_queued_rows = Inr (res, rows')
    \<and> status (the_job rows') = FAILED \<and> attempt_no (the_job rows') = 0"
proof -
  let ?e = "sample_event\<lparr>event_status := PROCESSING, attempt_count := 8, next_attempt_at := Some 50\<rparr>"
  have "event_checks ?e = Inr ()"
    using sample_event_identity
    by (simp add: event_checks_def event_state_matrix_def check_passes_iff) (simp add: sample_event_def)
  moreover have "snap_id (outbox_claim.claim_job sample_outbox_claim) = 9"
    "claim_outbox_id sample_outbox_claim = 5" "claim_attempt_count sample_outbox_claim = 8"
    by (simp_all add: sample_outbox_claim_def outbox_claim_of_def snapshot_of_def sample_job_def
        sample_event_def Let_def)
  ultimately have "\<exists>res. mark_job_dispatch_failure (\<lambda>_. []) sample_clocks ''BROKER_TIMEOUT'' True
      sample_outbox_claim None (events sample_outbox_rows) sample_queued_rows
    = Inr (res, sample_queued_rows\<lparr>the_job := fail_queued_job (t_stmt sample_clocks)
        (dispatch_failure ''BROKER_TIMEOUT'' True) (the_job sample_queued_rows)\<rparr>)"
    using sample_job_checks sample_queued_consistent
    by (intro dispatch_failure_succeeds [where e = ?e])
      (simp_all add: sample_queued_rows_def sample_job_def sample_outbox_rows_def find_event_def event_row_id_def
        sample_event_def outbox_failure_codes_def recoverable_codes_def sample_clocks_def
        dispatch_resource_matches_def)
  then show ?thesis by (auto simp: sample_queued_rows_def sample_job_def)
qed

theorem job_history_invariant_witness:
  "(\<exists>rows. job_history sample_queued_rows 0 rows \<and> status (the_job rows) = CANCELLED
      \<and> attempt_no (the_job rows) = 0 \<and> job_checks (the_job rows) = Inr ())
    \<and> (\<exists>rows. job_history sample_queued_rows 0 rows \<and> status (the_job rows) = FAILED
      \<and> attempt_no (the_job rows) = 0 \<and> job_checks (the_job rows) = Inr ())"
proof -
  have reached: "\<exists>rows. job_history sample_queued_rows 0 rows \<and> status (the_job rows) = st
      \<and> attempt_no (the_job rows) = 0 \<and> job_checks (the_job rows) = Inr ()"
    if "job_call sample_queued_rows rows" "status (the_job rows) = st" "st \<noteq> RUNNING" for st rows
  proof -
    have "job_history sample_queued_rows 0 rows"
      using job_history.called [OF job_history.inserted that(1)] that(2,3) by (simp add: grants_lease_def)
    moreover have "job_insert_trigger (the_job sample_queued_rows) = Inr sample_job"
      "job_checks (the_job sample_queued_rows) = Inr ()"
      using sample_job_checks by (simp_all add: sample_queued_rows_def)
    note job_history_invariant [OF calculation this]
    ultimately show ?thesis using that(2) by (intro exI [of _ rows]) auto
  qed
  obtain rows where "cancel_job sample_clocks sample_queued_rows = Inr rows"
    "status (the_job rows) = CANCELLED"
    using sample_cancel by auto
  then have cancelled: "\<exists>rows. job_history sample_queued_rows 0 rows \<and> status (the_job rows) = CANCELLED
      \<and> attempt_no (the_job rows) = 0 \<and> job_checks (the_job rows) = Inr ()"
    by (intro reached job_call.cancels) simp_all
  obtain res rows where "mark_job_dispatch_failure (\<lambda>_. []) sample_clocks ''BROKER_TIMEOUT'' True
      sample_outbox_claim None (events sample_outbox_rows) sample_queued_rows = Inr (res, rows)"
    "status (the_job rows) = FAILED"
    using sample_dispatch_failure by auto
  then have failed: "\<exists>rows. job_history sample_queued_rows 0 rows \<and> status (the_job rows) = FAILED
      \<and> attempt_no (the_job rows) = 0 \<and> job_checks (the_job rows) = Inr ()"
    by (intro reached job_call.fails_dispatch) simp_all
  show ?thesis using cancelled failed by blast
qed

theorem heartbeat_extends_lease_witness:
  "\<exists>claim' rows'. heartbeat sample_clocks sample_claim sample_rows = Inr (Some claim', rows')
    \<and> cj_row_version claim' = 3 \<and> lease_expires_at (the_job rows') = Some (202 + lease_length)"
  using heartbeat_extends_lease [OF sample_held, of sample_clocks] sample_clocks_within
  by (auto simp: sample_job_of sample_status sample_clocks_def sample_running_def)


theorem advance_step_commits_witness:
  "\<exists>claim' rows'. advance_step sample_clocks sample_claim ''{}'' ''store'' 2 sample_rows
      = Inr (Some claim', rows') \<and> length (the_steps rows') = 2"
  using advance_step_commits [OF sample_held, of sample_clocks "''store''" "''{}''"] sample_clocks_within
  by (auto simp: sample_job_of sample_status sample_step_def sample_clocks_def ended_steps_def)

theorem finish_job_commits_witness:
  "\<exists>rows'. finish_job sample_clocks sample_claim END_FAILED ''{}'' (Some ''RATE_LIMITED'') None sample_rows
      = Inr (True, rows') \<and> next_retry_at (the_job rows') = Some 200"
  using finish_job_commits [OF sample_held, of END_FAILED sample_clocks "Some ''RATE_LIMITED''" None "''{}''"]
    sample_clocks_within
  by (auto simp: sample_job_of sample_status end_report_def transient_codes_def sample_clocks_def
      sample_running_def sample_job_def)

definition sample_execution :: execution_row where
  "sample_execution = \<lparr>exec_id = 5, exec_organization_id = 1, exec_task_id = 6, exec_job_id = None,
     exec_status = ''completed'', exec_snapshot_sha256 = ''cd'', exec_retryable = False,
     exec_failure_code = None, exec_finished_at = None, exec_row_version = 1\<rparr>"

definition sample_report :: report_row where
  "sample_report = \<lparr>report_id = 4, report_organization_id = 1, report_execution_id = 5,
     report_task_id = 6, report_job_id = Some 9, payload_sha256 = ''ab'',
     report_status = ''generating'', report_failure_code = None, report_row_version = 1\<rparr>"

lemma sample_report_matches:
  "report_resource_matches sample_running sample_execution sample_report"
  "report_resource_matches sample_running (sample_execution\<lparr>exec_status := st\<rparr>) sample_report"
  by (simp_all add: report_resource_matches_def sample_running_def sample_job_def
      sample_execution_def sample_report_def report_input_def json_eq_def)

definition late_clocks :: clocks where
  "late_clocks = \<lparr>t_stmt = 75000101, t_step = 75000102, t_job = 75000103, t_insert = 75000104,
     new_owner = ''22222222-2222-4222-9222-222222222222'', new_step_id = 21\<rparr>"

lemma sample_expired: "expired_step 75000100 ''generate'' sample_rows = Some sample_step"
  by (simp add: expired_step_def sample_job_of sample_status sample_attempt Let_def)
    (simp add: sample_running_def sample_job_def sample_step_def lease_length_def recovery_grace_def
      seconds_def)

theorem outdated_report_recovery_raises_witness:
  "\<not> is_ok (recover_expired_report_job late_clocks 75000100 ''w2'' ''generate'' 1
      (sample_execution\<lparr>exec_status := ''outdated''\<rparr>) sample_report sample_rows)"
  by (rule outdated_report_recovery_raises [OF _ _ _ sample_expired])
    (simp_all add: valid_recovery_identity_def check_def sample_job_of sample_report_matches
      late_clocks_def, simp_all add: sample_report_def)

theorem lost_cancel_request_is_stuck_witness:
  "recover_expired_report_job late_clocks 75000100 ''w2'' ''generate'' 1 sample_execution sample_report
     (sample_rows\<lparr>the_job := sample_running\<lparr>status := CANCEL_REQUESTED\<rparr>\<rparr>)
   = Inr ((STALE, sample_report), sample_rows\<lparr>the_job := sample_running\<lparr>status := CANCEL_REQUESTED\<rparr>\<rparr>)"
  by (rule lost_cancel_request_is_stuck [where e = "100 + lease_length", THEN conjunct2, THEN conjunct2,
        THEN conjunct2, THEN conjunct2, THEN conjunct2, THEN conjunct2, THEN conjunct2, THEN conjunct1])
    (simp_all add: sample_running_def late_clocks_def lease_length_def seconds_def
      valid_recovery_identity_def check_def)

definition sample_failed :: job where
  "sample_failed = sample_job\<lparr>status := FAILED, stage := Some ''generate'', attempt_no := 1,
     started_at := Some 100, finished_at := Some 200, error_code := Some ''RATE_LIMITED'',
     next_retry_at := Some 200, row_version := 3\<rparr>"

theorem state_matrices_admit_null_witness:
  "job_checks (sample_failed\<lparr>next_retry_at := None\<rparr>) = Inr ()"
proof -
  have "job_checks sample_failed = Inr ()"
    using sample_job_formats
    by (simp add: job_checks_def job_formats_def attempt_bounds_def job_state_matrix_def failed_row_def no_lease_def
        retry_fields_def sample_failed_def sample_job_def transient_codes_def check_passes_iff)
  moreover have "step_checks sample_step = Inr ()"
    using sample_held by (simp add: held_def)
  moreover have "event_checks sample_event = Inr ()"
    using sample_event_identity
    by (simp add: event_checks_def event_state_matrix_def check_passes_iff) (simp add: sample_event_def)
  moreover have "status sample_failed = FAILED \<and> next_retry_at sample_failed \<noteq> None"
    by (simp add: sample_failed_def)
  ultimately show ?thesis
    using state_matrices_admit_null [of sample_failed sample_failed sample_step sample_event] by blast
qed

text \<open>The recovery of the sample job, statement by statement.\<close>


definition reclaimed_job :: job where
  "reclaimed_job = sample_running\<lparr>attempt_no := 2, worker_id := Some ''w2'', started_at := Some 75000101,
   heartbeat_at := Some 75000101, lease_expires_at := Some (75000101 + lease_length), row_version := 3, lease_owner := Some ''22222222-2222-4222-9222-222222222222''\<rparr>"

definition failed_step :: job_step where
  "failed_step = sample_step\<lparr>step_status := STEP_FAILED, step_finished_at := Some 75000101,
   step_error_code := Some ''LEASE_EXPIRED''\<rparr>"

definition reclaimed_step :: job_step where
  "reclaimed_step = running_step_of reclaimed_job 21 1 75000101"

definition reclaimed_rows :: job_rows where
  "reclaimed_rows = \<lparr>the_job = reclaimed_job, the_steps = [failed_step, reclaimed_step]\<rparr>"


lemma sample_recovery_step: "update_step 75000102 sample_running sample_step failed_step = Inr failed_step"
  by (simp add: update_step_def step_update_trigger_def step_identity_def before_expiry_def recovery_terminal_def Let_def
     step_checks_def step_state_matrix_def check_passes_iff
     failed_step_def sample_step_def sample_running_def sample_job_def lease_length_def recovery_grace_def seconds_def)

lemma sample_recovery_job: "update_job 75000103 ''22222222-2222-4222-9222-222222222222'' sample_running (reclaimed_job\<lparr>lease_owner := lease_owner sample_running\<rparr>) = Inr reclaimed_job"
  by (simp add: update_job_def job_update_trigger_def running_update_def invalid_recovery_def needs_lease_policy_def
     supported_lease_policy_def blank_worker_def btrim_empty_def
     job_formats_def job_checks_def attempt_bounds_def job_state_matrix_def active_row_def check_passes_iff
     reclaimed_job_def sample_running_def sample_job_def lease_length_def recovery_grace_def seconds_def)

lemma sample_recovery_insert: "insert_step 75000104 (sample_rows\<lparr>the_steps := [failed_step], the_job := reclaimed_job\<rparr>) reclaimed_step = Inr reclaimed_rows"
  by (simp add: insert_step_def step_insert_trigger_def before_expiry_def step_checks_def step_state_matrix_def check_passes_iff
     step_key_taken_def reclaimed_rows_def sample_rows_def failed_step_def reclaimed_step_def running_step_of_def
     reclaimed_job_def sample_running_def sample_job_def lease_length_def seconds_def sample_step_def)

lemma sample_recovery_att: "own_steps reclaimed_rows = [failed_step, reclaimed_step]" "attempt_steps reclaimed_rows 1 = [failed_step]"
   "attempt_steps reclaimed_rows 2 = [reclaimed_step]"
  by (simp_all add: own_steps_def attempt_steps_def reclaimed_rows_def failed_step_def reclaimed_step_def running_step_of_def sample_step_def reclaimed_job_def sample_running_def sample_job_def)

lemma sample_recovery_flds: "step_attempt_no failed_step = 1" "step_attempt_no reclaimed_step = 2" "step_status failed_step = STEP_FAILED"
  "step_status reclaimed_step = STEP_RUNNING" "attempt_no reclaimed_job = 2" "status reclaimed_job = RUNNING" "the_job reclaimed_rows = reclaimed_job"
  "step_error_code failed_step = Some ''LEASE_EXPIRED''" "step_finished_at failed_step = started_at reclaimed_job"
  by (simp_all add: failed_step_def reclaimed_step_def running_step_of_def sample_step_def reclaimed_job_def sample_running_def reclaimed_rows_def)

lemma sample_recovery_commit: "commit_job sample_running reclaimed_rows = Inr reclaimed_rows"
proof -
  have "steps_adjoin [failed_step, reclaimed_step]" by (simp add: steps_adjoin_def sample_recovery_flds)
  moreover have "\<not> holds (active_mismatch reclaimed_job reclaimed_step reclaimed_step)"
    by (simp add: active_mismatch_def reclaimed_step_def running_step_of_def reclaimed_job_def sample_running_def sample_job_def)
  ultimately show ?thesis
    by (simp add: commit_job_def recovery_shares_clock_def stage_shares_clock_def sample_status sample_recovery_flds sample_recovery_att
     job_consistency_def active_consistency_def Let_def first_step_def last_step_def attempt_continuous_def priors_completed_def guarded_def)
qed

lemma sample_recovery_all: "reclaim_statement late_clocks 20 ''w2'' 1 sample_rows = Inr (RECLAIMED (claimed_job_of reclaimed_job 21 1), reclaimed_rows)"
proof -
  have e: "end_step 75000102 20 (\<lambda>s. step_status s = STEP_RUNNING)
         (\<lambda>s. s\<lparr>step_status := STEP_FAILED, step_finished_at := Some 75000101, step_summary := ''{}'',
              step_error_code := Some ''LEASE_EXPIRED''\<rparr>) sample_rows = Inr (Some (sample_rows\<lparr>the_steps := [failed_step]\<rparr>))"
  proof -
    have "find_step 20 sample_rows = Some sample_step" "step_status sample_step = STEP_RUNNING"
      "sample_step\<lparr>step_status := STEP_FAILED, step_finished_at := Some 75000101, step_summary := ''{}'',
              step_error_code := Some ''LEASE_EXPIRED''\<rparr> = failed_step" "replace_step failed_step [sample_step] = [failed_step]"
      by (simp_all add: find_step_def sample_rows_def sample_step_def failed_step_def replace_step_def)
    then show ?thesis using sample_recovery_step by (simp add: end_step_def sample_job_of)
  qed
  have s: "save_job late_clocks (\<lambda>j. j\<lparr>attempt_no := attempt_no j + 1,
             stage := Some (start_step_code j), worker_id := Some ''w2'', started_at := Some 75000101,
             heartbeat_at := Some 75000101, lease_expires_at := Some (75000101 + lease_length),
             row_version := row_version j + 1\<rparr>) (sample_rows\<lparr>the_steps := [failed_step]\<rparr>) = Inr (sample_rows\<lparr>the_steps := [failed_step], the_job := reclaimed_job\<rparr>)"
  proof -
    have "(\<lambda>j. j\<lparr>attempt_no := attempt_no j + 1,
             stage := Some (start_step_code j), worker_id := Some ''w2'', started_at := Some 75000101,
             heartbeat_at := Some 75000101, lease_expires_at := Some (75000101 + lease_length),
             row_version := row_version j + 1\<rparr>) sample_running = reclaimed_job\<lparr>lease_owner := lease_owner sample_running\<rparr>"
      by (simp add: reclaimed_job_def sample_running_def sample_job_def)
    then show ?thesis using sample_recovery_job by (simp add: save_job_def late_clocks_def sample_job_of)
  qed
  show ?thesis using e s sample_recovery_insert sample_recovery_commit
    by (simp add: reclaim_statement_def late_clocks_def Let_def sample_job_of reclaimed_step_def reclaimed_job_def)
qed

theorem report_recovery_respects_lease_witness:
  "\<exists>out r' rows'. recover_expired_report_job late_clocks 75000100 ''w2'' ''generate'' 1 sample_execution
      sample_report sample_rows = Inr ((out, r'), rows')
    \<and> attempt_no (the_job rows') = 2 \<and> worker_id (the_job rows') = Some ''w2''
    \<and> 100 + lease_length + recovery_grace \<le> 75000100"
proof -
  have call: "recover_expired_report_job late_clocks 75000100 ''w2'' ''generate'' 1 sample_execution
      sample_report sample_rows
    = Inr ((RECLAIMED (claimed_job_of reclaimed_job 21 1), sample_report), reclaimed_rows)"
  proof -
    have "report_status sample_report = ''generating''" "exec_status sample_execution = ''completed''"
      "\<not> max_attempts_of sample_running \<le> attempt_no sample_running" "step_id sample_step = 20"
      by (simp_all add: sample_report_def sample_execution_def sample_running_def sample_job_def
          sample_step_def)
    then show ?thesis
      using sample_recovery_all sample_expired
      by (simp add: recover_expired_report_job_def valid_recovery_identity_def check_def sample_job_of
          sample_report_matches Let_def)
  qed
  have lease: "lease_expires_at (the_job sample_rows) = Some (100 + lease_length)"
    and ne: "reclaimed_rows \<noteq> sample_rows"
    by (simp_all add: sample_rows_def sample_running_def reclaimed_rows_def)
  have clock: "75000100 \<le> t_step late_clocks" by (simp add: late_clocks_def)
  have left: "attempt_no (the_job sample_rows) < max_attempts_of (the_job sample_rows)"
    by (simp add: sample_rows_def sample_running_def sample_job_def)
  from report_recovery_respects_lease [OF call ne lease clock] left
  have "attempt_no (the_job reclaimed_rows) = 2" "worker_id (the_job reclaimed_rows) = Some ''w2''"
    "100 + lease_length + recovery_grace \<le> 75000100"
    by (simp_all add: sample_rows_def sample_running_def)
  then show ?thesis using call by blast
qed

end
