(* ===== verification/PyDecimal.thy ===== *)
theory PyDecimal
  imports Prelude
begin

text \<open>
  \<open>decimal.Decimal\<close> as the code uses it: a finite number is sign, coefficient and exponent
  (so \<open>1.0\<close> and \<open>1.00\<close> are different objects that compare equal), next to the infinities and
  NaNs that the validators reject. Comparison is exact and is shown to be the order of the rational
  values; \<open>Fraction(d)\<close> is the rational value; \<open>str(d)\<close> and \<open>format(d, "f")\<close> follow the
  General Decimal Arithmetic conversion; \<open>dec_add\<close> rounds to the default context (28 digits,
  half even, \<open>Emax = 999999\<close>, \<open>Emin = -999999\<close>, overflow trapped).
\<close>

datatype decimal =
    Finite (dsign: bool) (dcoef: nat) (dexp: int)
  | Infinite bool
  | NotANumber bool

definition is_finite :: "decimal \<Rightarrow> bool" where
  "is_finite d = (case d of Finite _ _ _ \<Rightarrow> True | _ \<Rightarrow> False)"

lemma is_finite_simps [simp]:
  "is_finite (Finite s c e)" "\<not> is_finite (Infinite s)" "\<not> is_finite (NotANumber s)"
  by (simp_all add: is_finite_def)

lemma is_finite_cases: "is_finite d \<Longrightarrow> (\<And>s c e. d = Finite s c e \<Longrightarrow> P) \<Longrightarrow> P"
  by (cases d) auto

section \<open>Values and comparison\<close>

definition signed_coef :: "bool \<Rightarrow> nat \<Rightarrow> int" where
  "signed_coef s c = (if s then - int c else int c)"

text \<open>\<open>Fraction(d)\<close>; only finite numbers have one.\<close>

fun dec_value :: "decimal \<Rightarrow> rat" where
  "dec_value (Finite s c e) =
     (if 0 \<le> e then of_int (signed_coef s c * 10 ^ nat e)
      else of_int (signed_coef s c) / 10 ^ nat (- e))"
| "dec_value _ = 0"

text \<open>The signed coefficient of a finite number at an exponent not above its own.\<close>

fun scaled_to :: "int \<Rightarrow> decimal \<Rightarrow> int" where
  "scaled_to m (Finite s c e) = signed_coef s c * 10 ^ nat (e - m)"
| "scaled_to m _ = 0"

fun common_exp :: "decimal \<Rightarrow> decimal \<Rightarrow> int" where
  "common_exp (Finite _ _ e) (Finite _ _ e') = min e e'"
| "common_exp _ _ = 0"

definition dec_less :: "decimal \<Rightarrow> decimal \<Rightarrow> bool" where
  "dec_less a b = (scaled_to (common_exp a b) a < scaled_to (common_exp a b) b)"

definition dec_eq :: "decimal \<Rightarrow> decimal \<Rightarrow> bool" where
  "dec_eq a b = (scaled_to (common_exp a b) a = scaled_to (common_exp a b) b)"

definition ten_pow :: "int \<Rightarrow> rat" where
  "ten_pow e = (if 0 \<le> e then 10 ^ nat e else 1 / 10 ^ nat (- e))"

lemma ten_pow_pos [simp]: "0 < ten_pow e"
  by (simp add: ten_pow_def)

lemma ten_pow_powi: "ten_pow e = 10 powi e"
  by (simp add: ten_pow_def power_int_def field_simps)

lemma ten_pow_add: "ten_pow (a + b) = ten_pow a * ten_pow b"
  by (simp add: ten_pow_powi power_int_add)

lemma dec_value_ten_pow: "dec_value (Finite s c e) = of_int (signed_coef s c) * ten_pow e"
  by (simp add: ten_pow_def)

lemma dec_value_scaled:
  assumes "d = Finite s c e" and "m \<le> e"
  shows "dec_value d = of_int (scaled_to m d) * ten_pow m"
proof -
  have "ten_pow e = ten_pow (e - m) * ten_pow m"
    using ten_pow_add [of "e - m" m] by simp
  then show ?thesis
    using assms by (simp add: dec_value_ten_pow ten_pow_def del: dec_value.simps)
qed

lemma scaled_common:
  assumes "is_finite a" and "is_finite b"
  shows "dec_value a = of_int (scaled_to (common_exp a b) a) * ten_pow (common_exp a b)"
    and "dec_value b = of_int (scaled_to (common_exp a b) b) * ten_pow (common_exp a b)"
proof -
  from assms obtain s c e s' c' e' where ab: "a = Finite s c e" "b = Finite s' c' e'"
    by (metis is_finite_cases)
  show "dec_value a = of_int (scaled_to (common_exp a b) a) * ten_pow (common_exp a b)"
    by (rule dec_value_scaled [OF ab(1)]) (simp add: ab)
  show "dec_value b = of_int (scaled_to (common_exp a b) b) * ten_pow (common_exp a b)"
    by (rule dec_value_scaled [OF ab(2)]) (simp add: ab)
qed

lemma dec_less_value:
  "is_finite a \<Longrightarrow> is_finite b \<Longrightarrow> dec_less a b \<longleftrightarrow> dec_value a < dec_value b"
  by (simp add: scaled_common [of a b] dec_less_def)

lemma dec_eq_value:
  "is_finite a \<Longrightarrow> is_finite b \<Longrightarrow> dec_eq a b \<longleftrightarrow> dec_value a = dec_value b"
  by (simp add: scaled_common [of a b] dec_eq_def less_imp_neq [OF ten_pow_pos, symmetric])

section \<open>Conversion to text\<close>

definition signed_digits :: "int \<Rightarrow> pystr" where
  "signed_digits n = (if n < 0 then lit ''-'' else lit ''+'') @ dec_digits (nat \<bar>n\<bar>)"

definition dec_str :: "decimal \<Rightarrow> pystr" where
  "dec_str d = (case d of
     Infinite s \<Rightarrow> (if s then lit ''-'' else []) @ lit ''Infinity''
   | NotANumber s \<Rightarrow> (if s then lit ''-'' else []) @ lit ''NaN''
   | Finite s c e \<Rightarrow>
      (let ds = dec_digits c;
           leftdigits = e + int (length ds);
           dotplace = (if e \<le> 0 \<and> leftdigits > -6 then leftdigits else 1);
           (intpart, fracpart) =
             (if dotplace \<le> 0 then (lit ''0'', lit ''.'' @ replicate (nat (- dotplace)) 48 @ ds)
              else if int (length ds) \<le> dotplace
              then (ds @ replicate (nat (dotplace - int (length ds))) 48, [])
              else (take (nat dotplace) ds, lit ''.'' @ drop (nat dotplace) ds));
           ex = (if leftdigits = dotplace then [] else lit ''E'' @ signed_digits (leftdigits - dotplace))
       in (if s then lit ''-'' else []) @ intpart @ fracpart @ ex))"

lemma dec_str_nonempty: "dec_str d \<noteq> []"
  by (auto simp: dec_str_def Let_def split: decimal.splits prod.splits if_splits)

section \<open>Addition in the default context\<close>

definition dec_prec :: nat where "dec_prec = 28"
definition dec_emax :: int where "dec_emax = 999999"
definition dec_etiny :: int where "dec_etiny = - 999999 - 27"
definition dec_etop :: int where "dec_etop = 999999 - 27"

text \<open>Coefficient \<open>c\<close> without its last \<open>k\<close> digits, rounded half to even.\<close>

definition round_half_even :: "nat \<Rightarrow> nat \<Rightarrow> nat" where
  "round_half_even c k =
     (let q = c div 10 ^ k; r = c mod 10 ^ k in
      if 2 * r > 10 ^ k \<or> (2 * r = 10 ^ k \<and> odd q) then q + 1 else q)"

definition num_digits :: "nat \<Rightarrow> nat" where
  "num_digits c = length (dec_digits c)"

text \<open>\<open>Decimal._fix\<close>: bring an exact result into the context, or raise \<open>Overflow\<close>.\<close>

definition dec_fix :: "bool \<Rightarrow> nat \<Rightarrow> int \<Rightarrow> decimal result" where
  "dec_fix s c e =
     (if c = 0 then Inr (Finite s 0 (min (max e dec_etiny) dec_emax))
      else let exp_min = int (num_digits c) + e - int dec_prec in
        if exp_min > dec_etop then Inl DecimalOverflow
        else let exp_min = max exp_min dec_etiny in
          if exp_min \<le> e then Inr (Finite s c e)
          else let c' = round_half_even c (nat (exp_min - e));
                   (c'', e'') = (if num_digits c' > dec_prec then (c' div 10, exp_min + 1)
                                 else (c', exp_min))
               in if e'' > dec_etop then Inl DecimalOverflow else Inr (Finite s c'' e''))"

text \<open>Sign of an exact zero sum: minus only when both operands are negative.\<close>

fun dec_add :: "decimal \<Rightarrow> decimal \<Rightarrow> decimal result" where
  "dec_add (Finite s c e) (Finite s' c' e') =
     (let m = min e e';
          v = scaled_to m (Finite s c e) + scaled_to m (Finite s' c' e')
      in dec_fix (if v = 0 then s \<and> s' else v < 0) (nat \<bar>v\<bar>) m)"
| "dec_add _ _ = Inl (DomainError ''operand is not finite'')"

fun dec_sum :: "decimal \<Rightarrow> decimal list \<Rightarrow> decimal result" where
  "dec_sum acc [] = Inr acc"
| "dec_sum acc (d # ds) = bind_result (dec_add acc d) (\<lambda>acc'. dec_sum acc' ds)"

lemma num_digits_pos: "0 < num_digits c"
  by (simp add: num_digits_def)

text \<open>When nothing is rounded away, addition is exact.\<close>

lemma dec_fix_exact:
  assumes "int (num_digits c) + e - int dec_prec \<le> e" and "dec_etiny \<le> e"
    and "e + int (num_digits c) \<le> dec_emax + 1"
  shows "dec_fix s c e = Inr (Finite s c e)"
  using assms num_digits_pos [of c]
  by (auto simp: dec_fix_def Let_def dec_emax_def dec_etop_def dec_etiny_def dec_prec_def)

end
