(* ===== verification/PyValue.thy ===== *)
theory PyValue
  imports PyDecimal
begin

text \<open>
  Values as the validators see them: the code checks the exact type of what it is given
  (\<open>type(value) is bool\<close>, never \<open>isinstance\<close>), so a value carries its type and
  \<open>PyOther\<close> stands for an object of any other type, subclasses included. The shared validators
  of the audit and matching modules follow.
\<close>

datatype pyval =
    PyNone
  | PyBool bool
  | PyInt int
  | PyStr pystr
  | PyDecimal decimal
  | PyDate date
  | PyUuid uuid
  | PyOther nat

definition is_none :: "pyval \<Rightarrow> bool" where
  "is_none v = (case v of PyNone \<Rightarrow> True | _ \<Rightarrow> False)"

definition is_exact_bool :: "pyval \<Rightarrow> bool" where
  "is_exact_bool v = (case v of PyBool _ \<Rightarrow> True | _ \<Rightarrow> False)"

definition is_non_blank_str :: "pyval \<Rightarrow> bool" where
  "is_non_blank_str v = (case v of PyStr s \<Rightarrow> non_blank s | _ \<Rightarrow> False)"

definition is_exact_date :: "pyval \<Rightarrow> bool" where
  "is_exact_date v = (case v of PyDate _ \<Rightarrow> True | _ \<Rightarrow> False)"

definition is_finite_decimal :: "pyval \<Rightarrow> bool" where
  "is_finite_decimal v = (case v of PyDecimal d \<Rightarrow> is_finite d | _ \<Rightarrow> False)"

definition is_exact_uuid :: "pyval \<Rightarrow> bool" where
  "is_exact_uuid v = (case v of PyUuid _ \<Rightarrow> True | _ \<Rightarrow> False)"

definition optional :: "(pyval \<Rightarrow> bool) \<Rightarrow> pyval \<Rightarrow> bool" where
  "optional p v = (is_none v \<or> p v)"

lemmas value_shape_defs =
  is_none_def is_exact_bool_def is_non_blank_str_def is_exact_date_def is_finite_decimal_def
  is_exact_uuid_def optional_def

lemma is_none_iff [simp]: "is_none v \<longleftrightarrow> v = PyNone"
  by (simp add: is_none_def split: pyval.split)

text \<open>Truth of a value whose exact type has been checked to be bool.\<close>

fun truth :: "pyval \<Rightarrow> bool" where
  "truth (PyBool b) = b"
| "truth _ = False"

text \<open>Readers of values whose exact type has been checked.\<close>

fun date_of :: "pyval \<Rightarrow> date" where
  "date_of (PyDate d) = d"
| "date_of _ = Date 0 0 0"

fun decimal_of :: "pyval \<Rightarrow> decimal" where
  "decimal_of (PyDecimal d) = d"
| "decimal_of _ = NotANumber False"

lemma exact_bool_iff: "is_exact_bool v \<longleftrightarrow> (\<exists>b. v = PyBool b)"
  by (cases v) (simp_all add: is_exact_bool_def)

lemma non_blank_str_iff: "is_non_blank_str v \<longleftrightarrow> (\<exists>s. v = PyStr s \<and> non_blank s)"
  by (cases v) (simp_all add: is_non_blank_str_def)

lemma exact_date_iff: "is_exact_date v \<longleftrightarrow> (\<exists>d. v = PyDate d)"
  by (cases v) (simp_all add: is_exact_date_def)

lemma finite_decimal_iff: "is_finite_decimal v \<longleftrightarrow> (\<exists>d. v = PyDecimal d \<and> is_finite d)"
  by (cases v) (simp_all add: is_finite_decimal_def)

lemma exact_uuid_iff: "is_exact_uuid v \<longleftrightarrow> (\<exists>u. v = PyUuid u)"
  by (cases v) (simp_all add: is_exact_uuid_def)

lemma optional_iff: "optional p v \<longleftrightarrow> v = PyNone \<or> p v"
  by (simp add: optional_def)

lemmas value_shape_iffs =
  exact_bool_iff non_blank_str_iff exact_date_iff finite_decimal_iff exact_uuid_iff optional_iff

lemma shape_simps [simp]:
  "is_exact_bool (PyBool b)" "is_non_blank_str (PyStr s) = non_blank s" "is_exact_date (PyDate d)"
  "is_finite_decimal (PyDecimal c) = is_finite c" "is_exact_uuid (PyUuid u)"
  "optional p PyNone" "optional is_exact_bool (PyBool b)"
  "optional is_non_blank_str (PyStr s) = non_blank s"
  "optional is_exact_date (PyDate d)" "optional is_finite_decimal (PyDecimal c) = is_finite c"
  by (simp_all add: value_shape_defs)

section \<open>The shared validators\<close>

definition validate_exact_bool :: "pyval \<Rightarrow> string \<Rightarrow> unit result" where
  "validate_exact_bool v name = check (is_exact_bool v) (name @ '' must be an exact bool'')"

definition validate_optional_exact_bool :: "pyval \<Rightarrow> string \<Rightarrow> unit result" where
  "validate_optional_exact_bool v name =
     check (optional is_exact_bool v) (name @ '' must be an exact bool or None'')"

definition validate_optional_non_blank_str :: "pyval \<Rightarrow> string \<Rightarrow> unit result" where
  "validate_optional_non_blank_str v name =
     check (optional is_non_blank_str v) (name @ '' must be a non-blank exact str or None'')"

definition validate_non_blank_text :: "pyval \<Rightarrow> string \<Rightarrow> unit result" where
  "validate_non_blank_text v name =
     check (is_non_blank_str v) (name @ '' must be a non-blank exact str'')"

definition validate_exact_date :: "pyval \<Rightarrow> string \<Rightarrow> unit result" where
  "validate_exact_date v name =
     check (is_exact_date v) (name @ '' must be an exact datetime.date'')"

definition validate_optional_date :: "pyval \<Rightarrow> string \<Rightarrow> unit result" where
  "validate_optional_date v name =
     check (optional is_exact_date v) (name @ '' must be an exact datetime.date or None'')"

definition validate_optional_decimal :: "pyval \<Rightarrow> string \<Rightarrow> unit result" where
  "validate_optional_decimal v name =
     check (optional is_finite_decimal v) (name @ '' must be a finite exact Decimal or None'')"

definition validate_exact_uuid :: "pyval \<Rightarrow> string \<Rightarrow> unit result" where
  "validate_exact_uuid v name = check (is_exact_uuid v) (name @ '' must be an exact UUID'')"

lemmas validator_defs =
  validate_exact_bool_def validate_optional_exact_bool_def validate_optional_non_blank_str_def
  validate_non_blank_text_def validate_exact_date_def validate_optional_date_def
  validate_optional_decimal_def validate_exact_uuid_def

text \<open>The guard shared by the contract validators: a period must not end before it starts.\<close>

definition period_ordered :: "pyval \<Rightarrow> pyval \<Rightarrow> bool" where
  "period_ordered eff expiry =
     (is_none eff \<or> is_none expiry \<or> date_of eff \<le> date_of expiry)"

end
