(* ===== verification/RulePredicates.thy ===== *)
theory RulePredicates
  imports PyValue
begin

text \<open>
  \<open>app/audit/rule_predicates.py\<close>: the fifteen deterministic audit predicates. Each one first
  validates the exact types of its arguments (an exception otherwise), then answers not-applicable,
  passed or failed (\<open>FAILED\<close> means that the rule is hit).
\<close>

datatype rule_status = PASSED | FAILED | NOT_APPLICABLE

definition passed_if :: "bool \<Rightarrow> rule_status" where
  "passed_if b = (if b then PASSED else FAILED)"

lemma passed_if_simps [simp]:
  "passed_if b = PASSED \<longleftrightarrow> b" "passed_if b = FAILED \<longleftrightarrow> \<not> b" "passed_if b \<noteq> NOT_APPLICABLE"
  by (simp_all add: passed_if_def)

section \<open>The predicates\<close>

definition evaluate_rule_001 :: "pyval \<Rightarrow> pyval \<Rightarrow> pyval \<Rightarrow> rule_status result" where
  "evaluate_rule_001 has_contract party_b_tax_no seller_tax_no =
     after_checks
       [validate_exact_bool has_contract ''has_confirmed_primary_contract'',
        validate_optional_non_blank_str party_b_tax_no ''contract_party_b_tax_no'',
        validate_optional_non_blank_str seller_tax_no ''invoice_seller_tax_no'']
       (Inr (if \<not> truth has_contract \<or> is_none party_b_tax_no \<or> is_none seller_tax_no
             then NOT_APPLICABLE
             else passed_if (party_b_tax_no = seller_tax_no)))"

definition evaluate_rule_002 :: "pyval \<Rightarrow> pyval \<Rightarrow> rule_status result" where
  "evaluate_rule_002 organization_tax_number buyer_tax_no =
     after_checks
       [validate_non_blank_text organization_tax_number ''organization_tax_number'',
        validate_optional_non_blank_str buyer_tax_no ''invoice_buyer_tax_no'']
       (Inr (if is_none buyer_tax_no then NOT_APPLICABLE
             else passed_if (organization_tax_number = buyer_tax_no)))"

definition evaluate_rule_003 :: "pyval \<Rightarrow> pyval \<Rightarrow> pyval \<Rightarrow> rule_status result" where
  "evaluate_rule_003 has_contract cumulative_total contract_amount =
     after_checks
       [validate_exact_bool has_contract ''has_confirmed_primary_contract'',
        check (list_all (optional is_finite_decimal) [cumulative_total, contract_amount])
          ''amounts must be finite exact Decimal values or None'']
       (Inr (if \<not> truth has_contract \<or> list_ex is_none [cumulative_total, contract_amount]
             then NOT_APPLICABLE
             else if dec_less (decimal_of contract_amount) (decimal_of cumulative_total)
             then FAILED else PASSED))"

definition evaluate_rule_004 :: "pyval \<Rightarrow> pyval \<Rightarrow> pyval \<Rightarrow> rule_status result" where
  "evaluate_rule_004 invoice_date effective_date expiry_date =
     after_checks
       [check (list_all (optional is_exact_date) [invoice_date, effective_date, expiry_date])
          ''dates must be exact datetime.date values or None'',
        check (period_ordered effective_date expiry_date)
          ''contract effective date must not be after expiry date'']
       (Inr (if list_ex is_none [invoice_date, effective_date, expiry_date] then NOT_APPLICABLE
             else passed_if (date_of effective_date \<le> date_of invoice_date
                             \<and> date_of invoice_date \<le> date_of expiry_date)))"

definition evaluate_rule_005 :: "pyval \<Rightarrow> rule_status result" where
  "evaluate_rule_005 has_existing_identity =
     after_checks
       [validate_optional_exact_bool has_existing_identity ''has_existing_exact_invoice_identity'']
       (Inr (if is_none has_existing_identity then NOT_APPLICABLE
             else if truth has_existing_identity then FAILED else PASSED))"

definition evaluate_rule_006 ::
  "pyval \<Rightarrow> pyval \<Rightarrow> pyval \<Rightarrow> pyval \<Rightarrow> pyval \<Rightarrow> rule_status result" where
  "evaluate_rule_006 has_contract subjects amount currency effective_date =
     after_checks
       [validate_exact_bool has_contract ''has_confirmed_primary_contract'',
        validate_exact_bool subjects ''contract_subjects_present'',
        validate_exact_bool amount ''contract_amount_present'',
        validate_exact_bool currency ''contract_currency_present'',
        validate_exact_bool effective_date ''contract_effective_date_present'']
       (Inr (if \<not> truth has_contract then NOT_APPLICABLE
             else passed_if (list_all truth [subjects, amount, currency, effective_date])))"

definition evaluate_rule_007 ::
  "pyval \<Rightarrow> pyval \<Rightarrow> pyval \<Rightarrow> pyval \<Rightarrow> pyval \<Rightarrow> pyval \<Rightarrow> rule_status result" where
  "evaluate_rule_007 invoice_code invoice_number buyer_tax_no seller_tax_no invoice_date total_amount =
     after_checks
       [validate_optional_non_blank_str invoice_code ''invoice_code'',
        validate_optional_non_blank_str invoice_number ''invoice_number'',
        validate_optional_non_blank_str buyer_tax_no ''buyer_tax_no'',
        validate_optional_non_blank_str seller_tax_no ''seller_tax_no'',
        check (optional is_exact_date invoice_date)
          ''invoice_date must be an exact datetime.date or None'',
        check (optional is_finite_decimal total_amount)
          ''total_amount must be a finite exact Decimal or None'']
       (Inr (passed_if (list_all (\<lambda>v. \<not> is_none v)
          [invoice_code, invoice_number, buyer_tax_no, seller_tax_no, invoice_date, total_amount])))"

definition evaluate_rule_008_currency_pair :: "pyval \<Rightarrow> pyval \<Rightarrow> pyval \<Rightarrow> rule_status result" where
  "evaluate_rule_008_currency_pair has_contract contract_currency invoice_currency =
     after_checks
       [validate_exact_bool has_contract ''has_confirmed_primary_contract'',
        validate_optional_non_blank_str contract_currency ''contract_currency'',
        validate_optional_non_blank_str invoice_currency ''invoice_currency'']
       (Inr (if \<not> truth has_contract then NOT_APPLICABLE
             else if is_none contract_currency \<or> is_none invoice_currency then NOT_APPLICABLE
             else passed_if (contract_currency = invoice_currency)))"

definition evaluate_rule_009 :: "pyval \<Rightarrow> pyval \<Rightarrow> pyval \<Rightarrow> rule_status result" where
  "evaluate_rule_009 line_net_amount tax_amount total_amount =
     after_checks
       [check (list_all (optional is_finite_decimal) [line_net_amount, tax_amount, total_amount])
          ''amounts must be finite exact Decimal values or None'']
       (Inr (if list_ex is_none [line_net_amount, tax_amount, total_amount] then NOT_APPLICABLE
             else passed_if
               (\<bar>dec_value (decimal_of line_net_amount) + dec_value (decimal_of tax_amount)
                  - dec_value (decimal_of total_amount)\<bar> \<le> 1 / 100)))"

definition evaluate_rule_010 :: "pyval \<Rightarrow> rule_status result" where
  "evaluate_rule_010 has_contract =
     after_checks [validate_exact_bool has_contract ''has_confirmed_primary_contract'']
       (Inr (passed_if (truth has_contract)))"

definition evaluate_rule_011 :: "pyval \<Rightarrow> pyval \<Rightarrow> rule_status result" where
  "evaluate_rule_011 has_contract contract_no =
     after_checks
       [validate_exact_bool has_contract ''has_confirmed_primary_contract'',
        validate_optional_non_blank_str contract_no ''contract_no'']
       (Inr (if \<not> truth has_contract then NOT_APPLICABLE
             else passed_if (\<not> is_none contract_no)))"

definition evaluate_rule_012 :: "pyval \<Rightarrow> pyval \<Rightarrow> rule_status result" where
  "evaluate_rule_012 has_contract has_unconfirmed_agreement =
     after_checks
       [validate_exact_bool has_contract ''has_confirmed_primary_contract'',
        validate_exact_bool has_unconfirmed_agreement
          ''has_effective_unconfirmed_supplementary_agreement'']
       (Inr (if \<not> truth has_contract then NOT_APPLICABLE
             else if truth has_unconfirmed_agreement then FAILED else PASSED))"

definition evaluate_rule_013 :: "pyval \<Rightarrow> pyval \<Rightarrow> pyval \<Rightarrow> rule_status result" where
  "evaluate_rule_013 requires_citation retrieval_completed has_citation =
     after_checks
       [validate_exact_bool requires_citation ''requires_policy_citation'',
        validate_exact_bool retrieval_completed ''retrieval_completed_successfully'',
        validate_exact_bool has_citation ''has_applicable_policy_citation'']
       (Inr (if \<not> truth requires_citation \<or> \<not> truth retrieval_completed then NOT_APPLICABLE
             else passed_if (truth has_citation)))"

definition evaluate_rule_014_identity_pair ::
  "pyval \<Rightarrow> pyval \<Rightarrow> pyval \<Rightarrow> pyval \<Rightarrow> rule_status result" where
  "evaluate_rule_014_identity_pair name_a name_b tax_a tax_b =
     after_checks
       [validate_optional_non_blank_str name_a ''standard_name_a'',
        validate_optional_non_blank_str name_b ''standard_name_b'',
        validate_optional_non_blank_str tax_a ''tax_identity_a'',
        validate_optional_non_blank_str tax_b ''tax_identity_b'']
       (Inr (if list_ex is_none [name_a, name_b, tax_a, tax_b] then NOT_APPLICABLE
             else if name_a = name_b \<and> tax_a \<noteq> tax_b then FAILED else PASSED))"

definition evaluate_rule_015 :: "pyval \<Rightarrow> pyval \<Rightarrow> rule_status result" where
  "evaluate_rule_015 total_amount is_red_invoice =
     after_checks
       [check (optional is_finite_decimal total_amount)
          ''total_amount must be a finite exact Decimal'',
        check (optional is_exact_bool is_red_invoice) ''is_red_invoice must be an exact bool'']
       (Inr (if is_none total_amount \<or> is_none is_red_invoice then NOT_APPLICABLE
             else if truth is_red_invoice then NOT_APPLICABLE
             else passed_if (dec_less (Finite False 0 0) (decimal_of total_amount))))"

lemmas rule_defs =
  evaluate_rule_001_def evaluate_rule_002_def evaluate_rule_003_def evaluate_rule_004_def
  evaluate_rule_005_def evaluate_rule_006_def evaluate_rule_007_def
  evaluate_rule_008_currency_pair_def evaluate_rule_009_def evaluate_rule_010_def
  evaluate_rule_011_def evaluate_rule_012_def evaluate_rule_013_def
  evaluate_rule_014_identity_pair_def evaluate_rule_015_def

end
