(* ===== verification/RiskSummary.thy ===== *)
theory RiskSummary
  imports Prelude
begin

text \<open>
  \<open>app/audit/risk_summary.py\<close>: the levels and review states of a risk, and the summary of the
  risks that were not dismissed.
\<close>

datatype risk_level = NONE | NOTICE | LOW | MEDIUM | HIGH

datatype review_status = PENDING | CONFIRMED | DISMISSED | ADJUSTED

text \<open>\<open>_RISK_LEVEL_ORDER\<close>, and the order it induces.\<close>

fun risk_level_order :: "risk_level \<Rightarrow> nat" where
  "risk_level_order NONE = 0"
| "risk_level_order NOTICE = 1"
| "risk_level_order LOW = 2"
| "risk_level_order MEDIUM = 3"
| "risk_level_order HIGH = 4"

lemma risk_level_order_inj: "risk_level_order a = risk_level_order b \<Longrightarrow> a = b"
  by (cases a; cases b) auto

instantiation risk_level :: linorder
begin

definition less_eq_risk_level :: "risk_level \<Rightarrow> risk_level \<Rightarrow> bool" where
  "less_eq_risk_level a b \<longleftrightarrow> risk_level_order a \<le> risk_level_order b"

definition less_risk_level :: "risk_level \<Rightarrow> risk_level \<Rightarrow> bool" where
  "less_risk_level a b \<longleftrightarrow> risk_level_order a < risk_level_order b"

instance
  by standard (auto simp: less_eq_risk_level_def less_risk_level_def intro: risk_level_order_inj)

end

lemma risk_level_bot [simp]: "NONE \<le> l"
  by (simp add: less_eq_risk_level_def)

lemma risk_level_top [simp]: "l \<le> HIGH"
  by (cases l) (simp_all add: less_eq_risk_level_def)

lemma risk_level_HIGH_le [simp]: "HIGH \<le> l \<longleftrightarrow> l = HIGH"
  by (cases l) (simp_all add: less_eq_risk_level_def)

record risk =
  risk_id :: uuid
  original_level :: risk_level
  effective_level :: risk_level
  review_status :: review_status

record risk_summary =
  overall_level :: risk_level
  active_risk_count :: nat
  dismissed_risk_count :: nat
  has_effective_high :: bool
  has_unreviewed_high :: bool

text \<open>\<open>max(levels, key=order, default=NONE)\<close>: the running maximum; ties keep the first.\<close>

fun max_level :: "risk_level \<Rightarrow> risk_level list \<Rightarrow> risk_level" where
  "max_level acc [] = acc"
| "max_level acc (l # ls) = max_level (if risk_level_order acc < risk_level_order l then l else acc) ls"

definition highest_level :: "risk_level list \<Rightarrow> risk_level" where
  "highest_level ls = (case ls of [] \<Rightarrow> NONE | l # ls' \<Rightarrow> max_level l ls')"

definition active_risks :: "risk list \<Rightarrow> risk list" where
  "active_risks risks = filter (\<lambda>r. review_status r \<noteq> DISMISSED) risks"

definition calculate_risk_summary :: "risk list \<Rightarrow> risk_summary result" where
  "calculate_risk_summary risks =
     (if \<not> distinct (map risk_id risks)
      then Inl (ValueError ''risk_id must be unique within a risk summary'')
      else Inr
       \<lparr> overall_level = highest_level (map effective_level (active_risks risks)),
         active_risk_count = length (active_risks risks),
         dismissed_risk_count = length risks - length (active_risks risks),
         has_effective_high = list_ex (\<lambda>r. effective_level r = HIGH) (active_risks risks),
         has_unreviewed_high =
           list_ex (\<lambda>r. effective_level r = HIGH \<and> review_status r = PENDING)
             (active_risks risks) \<rparr>)"

section \<open>The summary is the maximum over the active risks\<close>

lemma max_level_max: "max_level acc ls = Max (insert acc (set ls))"
proof (induction ls arbitrary: acc)
  case Nil
  then show ?case by simp
next
  case (Cons l ls)
  have step: "(if risk_level_order acc < risk_level_order l then l else acc) = max acc l"
    by (auto simp: max_def less_eq_risk_level_def intro: risk_level_order_inj)
  have "max_level acc (l # ls) = Max (insert (max acc l) (set ls))"
    by (simp only: max_level.simps step Cons.IH)
  also have "\<dots> = Max (insert acc (set (l # ls)))"
    by (cases "set ls = {}") (simp_all add: max.assoc max.left_commute)
  finally show ?case .
qed

lemma highest_level_max: "highest_level ls = Max (insert NONE (set ls))"
proof (cases ls)
  case (Cons l ls')
  have "Max (insert NONE (insert l (set ls'))) = max NONE (Max (insert l (set ls')))"
    by (rule Max_insert) simp_all
  also have "\<dots> = Max (insert l (set ls'))" by (rule max_absorb2) simp
  finally show ?thesis using Cons by (simp add: highest_level_def max_level_max)
qed (simp add: highest_level_def)

lemma highest_level_upper: "l \<in> set ls \<Longrightarrow> l \<le> highest_level ls"
  by (simp add: highest_level_max)

lemma highest_level_in: "ls \<noteq> [] \<Longrightarrow> highest_level ls \<in> set ls"
proof (cases ls)
  case (Cons l ls')
  have "Max (insert l (set ls')) \<in> insert l (set ls')" by (rule Max_in) simp_all
  then show ?thesis using Cons by (simp add: highest_level_def max_level_max)
qed simp

lemma highest_level_HIGH: "highest_level ls = HIGH \<longleftrightarrow> HIGH \<in> set ls"
proof
  assume h: "highest_level ls = HIGH"
  have "highest_level ls \<in> insert NONE (set ls)"
    unfolding highest_level_max by (rule Max_in) simp_all
  with h show "HIGH \<in> set ls" by auto
next
  assume "HIGH \<in> set ls"
  then have "HIGH \<le> highest_level ls" by (rule highest_level_upper)
  then show "highest_level ls = HIGH" by simp
qed

lemma active_subset: "set (active_risks rs) \<subseteq> set rs"
  by (auto simp: active_risks_def)

lemma length_active: "length (active_risks rs) \<le> length rs"
  by (simp add: active_risks_def)

lemma calculate_risk_summary_mset:
  assumes "mset xs = mset ys"
  shows "calculate_risk_summary xs = calculate_risk_summary ys"
proof -
  have act: "mset (active_risks xs) = mset (active_risks ys)"
    by (simp add: active_risks_def assms mset_filter)
  have "set (active_risks xs) = set (active_risks ys)"
    using act by (rule mset_eq_setD)
  moreover have "length (active_risks xs) = length (active_risks ys)" "length xs = length ys"
    using act assms by (auto dest: mset_eq_length)
  moreover have "distinct (map risk_id xs) \<longleftrightarrow> distinct (map risk_id ys)"
    using assms by (metis mset_eq_imp_distinct_iff mset_map)
  ultimately show ?thesis
    by (simp add: calculate_risk_summary_def highest_level_max list_ex_iff)
qed

section \<open>Properties\<close>

text \<open>C22. The summary's level is the least upper bound of the effective levels of the risks that were
  not dismissed, and it is that of one of them whenever one is active: a dismissed risk never raises
  it, an active one is never lost.\<close>

theorem summary_overall_level:
  assumes "calculate_risk_summary risks = Inr s"
  shows "(\<forall>r. r \<in> set risks \<and> review_status r \<noteq> DISMISSED \<longrightarrow> effective_level r \<le> overall_level s)
    \<and> (active_risks risks = [] \<longrightarrow> overall_level s = NONE)
    \<and> (active_risks risks \<noteq> [] \<longrightarrow>
         (\<exists>r. r \<in> set (active_risks risks) \<and> effective_level r = overall_level s))"
proof -
  let ?ls = "map effective_level (active_risks risks)"
  have s: "overall_level s = highest_level ?ls"
    using assms by (auto simp: calculate_risk_summary_def split: if_splits)
  have up: "effective_level r \<le> overall_level s" if "r \<in> set (active_risks risks)" for r
    unfolding s by (rule highest_level_upper) (use that in simp)
  have mem: "overall_level s \<in> set ?ls" if "?ls \<noteq> []"
    unfolding s by (rule highest_level_in [OF that])
  have "\<exists>r. r \<in> set (active_risks risks) \<and> effective_level r = overall_level s"
    if "active_risks risks \<noteq> []" using mem that by (auto simp: image_iff)
  then show ?thesis
    using up s by (auto simp: active_risks_def highest_level_def)
qed

theorem summary_overall_level_witness:
  "\<exists>s. calculate_risk_summary [\<lparr>risk_id = 1, original_level = HIGH, effective_level = HIGH,
          review_status = DISMISSED\<rparr>, \<lparr>risk_id = 2, original_level = LOW,
          effective_level = MEDIUM, review_status = ADJUSTED\<rparr>] = Inr s
     \<and> overall_level s = MEDIUM
     \<and> (\<exists>r. r \<in> set (active_risks [\<lparr>risk_id = 1, original_level = HIGH, effective_level = HIGH,
          review_status = DISMISSED\<rparr>, \<lparr>risk_id = 2, original_level = LOW,
          effective_level = MEDIUM, review_status = ADJUSTED\<rparr>])
          \<and> effective_level r = overall_level s)"
proof -
  let ?rs = "[\<lparr>risk_id = 1, original_level = HIGH, effective_level = HIGH,
          review_status = DISMISSED\<rparr>, \<lparr>risk_id = 2, original_level = LOW,
          effective_level = MEDIUM, review_status = ADJUSTED\<rparr>]"
  obtain s where s: "calculate_risk_summary ?rs = Inr s" "overall_level s = MEDIUM"
    by (simp add: calculate_risk_summary_def active_risks_def highest_level_def)
  show ?thesis using s summary_overall_level [OF s(1)] by (auto simp: active_risks_def)
qed

text \<open>The summary fails exactly on a repeated risk identity; otherwise active and dismissed risks
  partition the input, the high-risk flag agrees with the overall level, and an unreviewed high risk
  implies an effective one. None of this depends on the order of the risks.\<close>

theorem summary_counts_and_flags:
  assumes "mset risks' = mset risks"
  shows "(if distinct (map risk_id risks)
    then (\<exists>s. calculate_risk_summary risks = Inr s
      \<and> active_risk_count s + dismissed_risk_count s = length risks
      \<and> dismissed_risk_count s = length (filter (\<lambda>r. review_status r = DISMISSED) risks)
      \<and> (has_effective_high s \<longleftrightarrow> overall_level s = HIGH)
      \<and> (has_unreviewed_high s \<and> has_effective_high s) = has_unreviewed_high s)
    else calculate_risk_summary risks
      = Inl (ValueError ''risk_id must be unique within a risk summary''))
    \<and> calculate_risk_summary risks' = calculate_risk_summary risks"
proof -
  have part: "length (filter (\<lambda>r. review_status r \<noteq> DISMISSED) risks)
      + length (filter (\<lambda>r. review_status r = DISMISSED) risks) = length risks"
    using sum_length_filter_compl [of "\<lambda>r. review_status r \<noteq> DISMISSED" risks] by simp
  have high: "list_ex (\<lambda>r. effective_level r = HIGH) rs
      \<longleftrightarrow> highest_level (map effective_level rs) = HIGH" for rs
    unfolding highest_level_HIGH by (auto simp: list_ex_iff image_iff eq_commute)
  have "if distinct (map risk_id risks)
    then (\<exists>s. calculate_risk_summary risks = Inr s
      \<and> active_risk_count s + dismissed_risk_count s = length risks
      \<and> dismissed_risk_count s = length (filter (\<lambda>r. review_status r = DISMISSED) risks)
      \<and> (has_effective_high s \<longleftrightarrow> overall_level s = HIGH)
      \<and> (has_unreviewed_high s \<and> has_effective_high s) = has_unreviewed_high s)
    else calculate_risk_summary risks
      = Inl (ValueError ''risk_id must be unique within a risk summary'')"
    using part by (auto simp: calculate_risk_summary_def high active_risks_def list_ex_iff
        simp flip: high)
  then show ?thesis using calculate_risk_summary_mset [OF assms] by simp
qed

theorem summary_counts_and_flags_witness:
  "calculate_risk_summary [\<lparr>risk_id = 2, original_level = LOW, effective_level = HIGH,
       review_status = PENDING\<rparr>, \<lparr>risk_id = 1, original_level = LOW, effective_level = LOW,
       review_status = DISMISSED\<rparr>]
   = calculate_risk_summary [\<lparr>risk_id = 1, original_level = LOW, effective_level = LOW,
       review_status = DISMISSED\<rparr>, \<lparr>risk_id = 2, original_level = LOW, effective_level = HIGH,
       review_status = PENDING\<rparr>]"
  by (rule summary_counts_and_flags [THEN conjunct2]) (simp add: add_mset_commute)

end
