(* ===== verification/OfflinePreview.thy ===== *)
theory OfflinePreview
  imports RulePredicates RiskSummary
begin

text \<open>
  \<open>app/audit/offline_preview.py\<close>: the deterministic audit preview. It evaluates the fifteen
  predicates on one set of facts, interprets each status (hit, not hit, not applicable, missing),
  renders the compared values as text, and derives one pending risk per hit. \<open>uuid5\<close> (here \<open>name_uuid\<close>), the
  name-based identifier (a SHA-1 digest), is a parameter: every statement holds for any such
  function.
\<close>

definition rule_ids :: "pystr list" where
  "rule_ids = map (\<lambda>number. lit ''RULE-'' @ zfill 3 (dec_digits number)) [1..<16]"

definition missing_value :: pystr where "missing_value = lit ''<missing>''"
definition all_present :: pystr where "all_present = lit ''all_present''"

datatype disposition = HIT | NOT_HIT | DISP_NOT_APPLICABLE | MISSING

datatype ai_status = DISABLED

record rule_metadata =
  meta_rule_id :: pystr
  meta_risk_level :: risk_level
  meta_reference_ids :: "uuid list"

text \<open>\<open>RuleMetadata.__post_init__\<close> canonicalises the references.\<close>

definition new_rule_metadata :: "pystr \<Rightarrow> risk_level \<Rightarrow> uuid list \<Rightarrow> rule_metadata result" where
  "new_rule_metadata rid level refs =
     (if \<not> non_blank rid then Inl (ValueError ''rule_id must be a non-blank exact str'')
      else Inr \<lparr>meta_rule_id = rid, meta_risk_level = level,
                meta_reference_ids = canonical_ids refs\<rparr>)"

record audit_facts =
  preview_id :: uuid
  has_confirmed_primary_contract :: pyval
  contract_party_b_tax_no :: pyval
  invoice_seller_tax_no :: pyval
  organization_tax_number :: pyval
  invoice_buyer_tax_no :: pyval
  cumulative_invoice_total :: pyval
  effective_contract_amount :: pyval
  invoice_date :: pyval
  contract_effective_date :: pyval
  contract_expiry_date :: pyval
  has_existing_exact_invoice_identity :: pyval
  contract_subjects_present :: pyval
  contract_amount_present :: pyval
  contract_currency_present :: pyval
  contract_effective_date_present :: pyval
  invoice_code :: pyval
  invoice_number :: pyval
  invoice_total_amount :: pyval
  contract_currency :: pyval
  invoice_currency :: pyval
  invoice_line_net_amount :: pyval
  invoice_tax_amount :: pyval
  contract_no :: pyval
  has_effective_unconfirmed_supplementary_agreement :: pyval
  requires_policy_citation :: pyval
  retrieval_completed_successfully :: pyval
  has_applicable_policy_citation :: pyval
  standard_name_a :: pyval
  standard_name_b :: pyval
  tax_identity_a :: pyval
  tax_identity_b :: pyval
  is_red_invoice :: pyval

definition presence_matches :: "pyval \<Rightarrow> string \<Rightarrow> pyval \<Rightarrow> string \<Rightarrow> unit result" where
  "presence_matches is_present presence_name v value_name =
     check (is_present = PyBool (\<not> is_none v))
       (presence_name @ '' must match whether '' @ value_name @ '' is present'')"

text \<open>\<open>OfflineAuditFacts.__post_init__\<close>.\<close>

definition validate_audit_facts :: "audit_facts \<Rightarrow> unit result" where
  "validate_audit_facts f = all_checks
    [validate_exact_bool (has_confirmed_primary_contract f) ''has_confirmed_primary_contract'',
     validate_exact_bool (contract_subjects_present f) ''contract_subjects_present'',
     validate_exact_bool (contract_amount_present f) ''contract_amount_present'',
     validate_exact_bool (contract_currency_present f) ''contract_currency_present'',
     validate_exact_bool (contract_effective_date_present f) ''contract_effective_date_present'',
     validate_exact_bool (has_effective_unconfirmed_supplementary_agreement f)
       ''has_effective_unconfirmed_supplementary_agreement'',
     validate_exact_bool (requires_policy_citation f) ''requires_policy_citation'',
     validate_exact_bool (retrieval_completed_successfully f) ''retrieval_completed_successfully'',
     validate_exact_bool (has_applicable_policy_citation f) ''has_applicable_policy_citation'',
     validate_optional_exact_bool (has_existing_exact_invoice_identity f)
       ''has_existing_exact_invoice_identity'',
     validate_optional_exact_bool (is_red_invoice f) ''is_red_invoice'',
     validate_non_blank_text (organization_tax_number f) ''organization_tax_number'',
     validate_optional_non_blank_str (contract_party_b_tax_no f) ''contract_party_b_tax_no'',
     validate_optional_non_blank_str (invoice_seller_tax_no f) ''invoice_seller_tax_no'',
     validate_optional_non_blank_str (invoice_buyer_tax_no f) ''invoice_buyer_tax_no'',
     validate_optional_non_blank_str (invoice_code f) ''invoice_code'',
     validate_optional_non_blank_str (invoice_number f) ''invoice_number'',
     validate_optional_non_blank_str (contract_currency f) ''contract_currency'',
     validate_optional_non_blank_str (invoice_currency f) ''invoice_currency'',
     validate_optional_non_blank_str (contract_no f) ''contract_no'',
     validate_optional_non_blank_str (standard_name_a f) ''standard_name_a'',
     validate_optional_non_blank_str (standard_name_b f) ''standard_name_b'',
     validate_optional_non_blank_str (tax_identity_a f) ''tax_identity_a'',
     validate_optional_non_blank_str (tax_identity_b f) ''tax_identity_b'',
     validate_optional_date (invoice_date f) ''invoice_date'',
     validate_optional_date (contract_effective_date f) ''contract_effective_date'',
     validate_optional_date (contract_expiry_date f) ''contract_expiry_date'',
     check (period_ordered (contract_effective_date f) (contract_expiry_date f))
       ''contract effective date must not be after expiry date'',
     validate_optional_decimal (cumulative_invoice_total f) ''cumulative_invoice_total'',
     validate_optional_decimal (effective_contract_amount f) ''effective_contract_amount'',
     validate_optional_decimal (invoice_total_amount f) ''invoice_total_amount'',
     validate_optional_decimal (invoice_line_net_amount f) ''invoice_line_net_amount'',
     validate_optional_decimal (invoice_tax_amount f) ''invoice_tax_amount'',
     presence_matches (contract_amount_present f) ''contract_amount_present''
       (effective_contract_amount f) ''effective_contract_amount'',
     presence_matches (contract_currency_present f) ''contract_currency_present''
       (contract_currency f) ''contract_currency'',
     presence_matches (contract_effective_date_present f) ''contract_effective_date_present''
       (contract_effective_date f) ''contract_effective_date'']"

record preview_result =
  res_rule_id :: pystr
  res_status :: rule_status
  res_disposition :: disposition
  actual_value :: "pystr option"
  expected_value :: "pystr option"
  res_risk_id :: "uuid option"
  res_risk_level :: "risk_level option"
  res_reference_ids :: "uuid list"

fun expected_status :: "disposition \<Rightarrow> rule_status" where
  "expected_status HIT = FAILED"
| "expected_status NOT_HIT = PASSED"
| "expected_status DISP_NOT_APPLICABLE = NOT_APPLICABLE"
| "expected_status MISSING = NOT_APPLICABLE"

text \<open>\<open>RulePreviewResult.__post_init__\<close>: the result unchanged, or the invariant it breaks.\<close>

definition new_preview_result :: "preview_result \<Rightarrow> preview_result result" where
  "new_preview_result r = after_checks
     [check (non_blank (res_rule_id r)) ''rule_id must be a non-blank exact str'',
      check (res_reference_ids r = canonical_ids (res_reference_ids r))
        ''reference_ids must be sorted and unique'',
      check (res_status r = expected_status (res_disposition r)) ''status must match disposition'',
      (if res_disposition r = HIT
       then all_checks
         [check (res_risk_id r \<noteq> None \<and> res_risk_level r \<noteq> None)
            ''hit results require risk identity and level'',
          check (actual_value r \<noteq> None \<and> expected_value r \<noteq> None)
            ''hit results require actual and expected values'']
       else check (res_risk_id r = None \<and> res_risk_level r = None)
            ''non-hit results must not contain risk identity or level'')]
     (Inr r)"

record audit_preview =
  pv_preview_id :: uuid
  pv_rules :: "preview_result list"
  pv_risks :: "risk list"
  pv_summary :: risk_summary
  pv_ai_status :: ai_status

definition hit_rules :: "preview_result list \<Rightarrow> preview_result list" where
  "hit_rules rs = filter (\<lambda>r. res_disposition r = HIT) rs"

text \<open>\<open>OfflineAuditPreview.__post_init__\<close>; the AI status is fixed.\<close>

definition new_audit_preview ::
  "uuid \<Rightarrow> preview_result list \<Rightarrow> risk list \<Rightarrow> risk_summary \<Rightarrow> audit_preview result" where
  "new_audit_preview pid rules risks summary = after_checks
     [check (map res_rule_id rules = rule_ids)
        ''rules must contain the stable RULE-001 through RULE-015 order'',
      bind_result (calculate_risk_summary risks)
        (\<lambda>s. check (s = summary) ''summary must match risks''),
      check (map res_risk_id (hit_rules rules) = map (\<lambda>r. Some (risk_id r)) risks)
        ''risks must follow hit rule order'',
      check (list_all2 (\<lambda>rule r. Some (original_level r) = res_risk_level rule
               \<and> Some (effective_level r) = res_risk_level rule \<and> review_status r = PENDING)
             (hit_rules rules) risks)
        ''risks must match hit rule levels and pending review status'']
     (Inr \<lparr>pv_preview_id = pid, pv_rules = rules, pv_risks = risks, pv_summary = summary,
           pv_ai_status = DISABLED\<rparr>)"

section \<open>Statuses, dispositions and compared values\<close>

text \<open>\<open>_evaluate_rule_statuses\<close>: the predicates in the order of the dictionary, after RULE-004,
  whose status is forced to not-applicable when there is no confirmed primary contract.\<close>

definition evaluate_rule_statuses :: "audit_facts \<Rightarrow> (pystr \<times> rule_status) list result" where
  "evaluate_rule_statuses f =
     bind_result (evaluate_rule_004 (invoice_date f) (contract_effective_date f)
         (contract_expiry_date f)) (\<lambda>status_004.
       bind_result (map_result id
         [evaluate_rule_001 (has_confirmed_primary_contract f) (contract_party_b_tax_no f)
            (invoice_seller_tax_no f),
          evaluate_rule_002 (organization_tax_number f) (invoice_buyer_tax_no f),
          evaluate_rule_003 (has_confirmed_primary_contract f) (cumulative_invoice_total f)
            (effective_contract_amount f),
          Inr (if truth (has_confirmed_primary_contract f) then status_004 else NOT_APPLICABLE),
          evaluate_rule_005 (has_existing_exact_invoice_identity f),
          evaluate_rule_006 (has_confirmed_primary_contract f) (contract_subjects_present f)
            (contract_amount_present f) (contract_currency_present f)
            (contract_effective_date_present f),
          evaluate_rule_007 (invoice_code f) (invoice_number f) (invoice_buyer_tax_no f)
            (invoice_seller_tax_no f) (invoice_date f) (invoice_total_amount f),
          evaluate_rule_008_currency_pair (has_confirmed_primary_contract f)
            (contract_currency f) (invoice_currency f),
          evaluate_rule_009 (invoice_line_net_amount f) (invoice_tax_amount f)
            (invoice_total_amount f),
          evaluate_rule_010 (has_confirmed_primary_contract f),
          evaluate_rule_011 (has_confirmed_primary_contract f) (contract_no f),
          evaluate_rule_012 (has_confirmed_primary_contract f)
            (has_effective_unconfirmed_supplementary_agreement f),
          evaluate_rule_013 (requires_policy_citation f) (retrieval_completed_successfully f)
            (has_applicable_policy_citation f),
          evaluate_rule_014_identity_pair (standard_name_a f) (standard_name_b f)
            (tax_identity_a f) (tax_identity_b f),
          evaluate_rule_015 (invoice_total_amount f) (is_red_invoice f)])
       (\<lambda>statuses. Inr (zip rule_ids statuses)))"

definition is_missing :: "pystr \<Rightarrow> audit_facts \<Rightarrow> bool" where
  "is_missing rid f =
     (if rid = lit ''RULE-001''
      then truth (has_confirmed_primary_contract f)
        \<and> (is_none (contract_party_b_tax_no f) \<or> is_none (invoice_seller_tax_no f))
      else if rid = lit ''RULE-002'' then is_none (invoice_buyer_tax_no f)
      else if rid = lit ''RULE-003''
      then truth (has_confirmed_primary_contract f)
        \<and> (is_none (cumulative_invoice_total f) \<or> is_none (effective_contract_amount f))
      else if rid = lit ''RULE-004''
      then truth (has_confirmed_primary_contract f)
        \<and> (is_none (invoice_date f) \<or> is_none (contract_effective_date f)
           \<or> is_none (contract_expiry_date f))
      else if rid = lit ''RULE-005'' then is_none (has_existing_exact_invoice_identity f)
      else if rid = lit ''RULE-008''
      then truth (has_confirmed_primary_contract f)
        \<and> (is_none (contract_currency f) \<or> is_none (invoice_currency f))
      else if rid = lit ''RULE-009''
      then is_none (invoice_line_net_amount f) \<or> is_none (invoice_tax_amount f)
        \<or> is_none (invoice_total_amount f)
      else if rid = lit ''RULE-014''
      then list_ex is_none [standard_name_a f, standard_name_b f, tax_identity_a f, tax_identity_b f]
      else if rid = lit ''RULE-015''
      then is_none (invoice_total_amount f) \<or> is_none (is_red_invoice f)
      else False)"

definition disposition_of :: "pystr \<Rightarrow> rule_status \<Rightarrow> audit_facts \<Rightarrow> disposition" where
  "disposition_of rid status f =
     (if is_missing rid f then MISSING
      else case status of FAILED \<Rightarrow> HIT | PASSED \<Rightarrow> NOT_HIT | NOT_APPLICABLE \<Rightarrow> DISP_NOT_APPLICABLE)"

text \<open>Optional text read from a checked value; a decimal, date or bool is rendered.\<close>

fun text_of :: "pyval \<Rightarrow> pystr option" where
  "text_of (PyStr s) = Some s"
| "text_of _ = None"

definition decimal_text :: "pyval \<Rightarrow> pystr option" where
  "decimal_text v = (if is_none v then None else Some (dec_str (decimal_of v)))"

definition date_text :: "pyval \<Rightarrow> pystr option" where
  "date_text v = (if is_none v then None else Some (isoformat (date_of v)))"

definition bool_text :: "pyval \<Rightarrow> pystr option" where
  "bool_text v = (if is_none v then None
                  else Some (if truth v then lit ''true'' else lit ''false''))"

definition presence_text :: "(pystr \<times> pyval) list \<Rightarrow> pystr" where
  "presence_text facts =
     (let missing = map fst (filter (\<lambda>(name, v). is_none v \<or> v = PyBool False) facts) in
      if missing = [] then all_present else lit ''missing:'' @ join_with (lit '','') missing)"

definition contract_date_range_text :: "audit_facts \<Rightarrow> pystr option" where
  "contract_date_range_text f =
     (if is_none (contract_effective_date f) \<or> is_none (contract_expiry_date f) then None
      else Some (isoformat (date_of (contract_effective_date f)) @ lit ''..''
                 @ isoformat (date_of (contract_expiry_date f))))"

definition invoice_amount_equation_text :: "audit_facts \<Rightarrow> pystr" where
  "invoice_amount_equation_text f =
     (let amounts = [(lit ''line_net_amount'', invoice_line_net_amount f),
                     (lit ''tax_amount'', invoice_tax_amount f),
                     (lit ''total_amount'', invoice_total_amount f)];
          missing = map fst (filter (\<lambda>(name, v). is_none v) amounts)
      in if missing \<noteq> [] then lit ''missing:'' @ join_with (lit '','') missing
         else join_with (lit '';'')
           (map (\<lambda>(name, v). name @ lit ''='' @ dec_str (decimal_of v)) amounts))"

definition identity_comparison_text :: "audit_facts \<Rightarrow> pystr" where
  "identity_comparison_text f =
     (if list_ex is_none [standard_name_a f, standard_name_b f, tax_identity_a f, tax_identity_b f]
      then missing_value
      else lit ''name_equal=''
        @ the (bool_text (PyBool (standard_name_a f = standard_name_b f))) @ lit '';''
        @ lit ''tax_identity_equal=''
        @ the (bool_text (PyBool (tax_identity_a f = tax_identity_b f))))"

definition when_applies :: "bool \<Rightarrow> 'a option \<Rightarrow> 'a option" where
  "when_applies b x = (if b then x else None)"

definition or_default :: "pystr option \<Rightarrow> pystr \<Rightarrow> pystr" where
  "or_default x d = (case x of None \<Rightarrow> d | Some s \<Rightarrow> (if s = [] then d else s))"

text \<open>The values of the dictionary of \<open>_actual_expected_values\<close>, in the order of its keys.\<close>

definition compared_values :: "audit_facts \<Rightarrow> (pystr option \<times> pystr option) list" where
  "compared_values f =
     (let has_contract = truth (has_confirmed_primary_contract f);
          citation_check_applies =
            truth (requires_policy_citation f) \<and> truth (retrieval_completed_successfully f)
      in
       [(when_applies has_contract (text_of (invoice_seller_tax_no f)),
         when_applies has_contract (text_of (contract_party_b_tax_no f))),
        (text_of (invoice_buyer_tax_no f), text_of (organization_tax_number f)),
        (when_applies has_contract (decimal_text (cumulative_invoice_total f)),
         when_applies has_contract (decimal_text (effective_contract_amount f))),
        (when_applies has_contract (date_text (invoice_date f)),
         when_applies has_contract (contract_date_range_text f)),
        (bool_text (has_existing_exact_invoice_identity f), Some (lit ''false'')),
        (when_applies has_contract (Some (presence_text
           [(lit ''contract_subjects_present'', contract_subjects_present f),
            (lit ''contract_amount_present'', contract_amount_present f),
            (lit ''contract_currency_present'', contract_currency_present f),
            (lit ''contract_effective_date_present'', contract_effective_date_present f)])),
         when_applies has_contract (Some all_present)),
        (Some (presence_text
           [(lit ''invoice_code'', invoice_code f), (lit ''invoice_number'', invoice_number f),
            (lit ''invoice_buyer_tax_no'', invoice_buyer_tax_no f),
            (lit ''invoice_seller_tax_no'', invoice_seller_tax_no f),
            (lit ''invoice_date'', invoice_date f),
            (lit ''invoice_total_amount'', invoice_total_amount f)]),
         Some all_present),
        (when_applies has_contract (text_of (invoice_currency f)),
         when_applies has_contract (text_of (contract_currency f))),
        (Some (invoice_amount_equation_text f), Some (lit ''absolute_difference<=0.01'')),
        (bool_text (has_confirmed_primary_contract f), Some (lit ''true'')),
        (when_applies has_contract (Some (or_default (text_of (contract_no f)) missing_value)),
         when_applies has_contract (Some (lit ''non_blank''))),
        (when_applies has_contract (bool_text (has_effective_unconfirmed_supplementary_agreement f)),
         when_applies has_contract (Some (lit ''false''))),
        (when_applies citation_check_applies (bool_text (has_applicable_policy_citation f)),
         when_applies citation_check_applies (Some (lit ''true''))),
        (Some (identity_comparison_text f), Some (lit ''no_name_tax_identity_conflict'')),
        (Some (or_default (decimal_text (invoice_total_amount f)) missing_value),
         when_applies (is_red_invoice f = PyBool False) (Some (lit ''>0'')))])"

definition actual_expected_values ::
  "audit_facts \<Rightarrow> (pystr \<times> (pystr option \<times> pystr option)) list" where
  "actual_expected_values f = zip rule_ids (compared_values f)"

section \<open>Building the preview\<close>

text \<open>\<open>_validate_metadata\<close>: a dictionary from rule id to metadata.\<close>

definition validate_metadata :: "rule_metadata list \<Rightarrow> (pystr \<times> rule_metadata) list result" where
  "validate_metadata metadata =
     (let ids = map meta_rule_id metadata in after_checks
       [check (length ids = length rule_ids \<and> distinct ids)
          ''metadata must contain each RULE-001 through RULE-015 exactly once'',
        check (set ids = set rule_ids)
          ''metadata must contain each RULE-001 through RULE-015 exactly once'']
       (Inr (map (\<lambda>m. (meta_rule_id m, m)) metadata)))"

text \<open>One turn of the loop of \<open>build_offline_audit_preview\<close>.\<close>

definition rule_result ::
  "(uuid \<Rightarrow> pystr \<Rightarrow> uuid) \<Rightarrow> audit_facts \<Rightarrow> (pystr \<times> rule_metadata) list
   \<Rightarrow> (pystr \<times> rule_status) list \<Rightarrow> pystr \<Rightarrow> preview_result result" where
  "rule_result name_uuid f metadata_by_rule_id statuses rid =
     (let item = the (map_of metadata_by_rule_id rid);
          status = the (map_of statuses rid);
          disp = disposition_of rid status f;
          (act, exp) = the (map_of (actual_expected_values f) rid)
      in new_preview_result
       \<lparr>res_rule_id = rid, res_status = status, res_disposition = disp,
        actual_value = act, expected_value = exp,
        res_risk_id = (if disp = HIT then Some (name_uuid (preview_id f) rid) else None),
        res_risk_level = (if disp = HIT then Some (meta_risk_level item) else None),
        res_reference_ids = meta_reference_ids item\<rparr>)"

text \<open>The risk appended for a result that carries an identity and a level.\<close>

definition risk_of :: "preview_result \<Rightarrow> risk option" where
  "risk_of r = (case (res_risk_id r, res_risk_level r) of
     (Some rid, Some level) \<Rightarrow> Some \<lparr>risk_id = rid, original_level = level,
        effective_level = level, review_status = PENDING\<rparr>
   | _ \<Rightarrow> None)"

definition build_offline_audit_preview ::
  "(uuid \<Rightarrow> pystr \<Rightarrow> uuid) \<Rightarrow> audit_facts \<Rightarrow> rule_metadata list \<Rightarrow> audit_preview result" where
  "build_offline_audit_preview name_uuid f metadata =
     bind_result (validate_metadata metadata) (\<lambda>metadata_by_rule_id.
       bind_result (evaluate_rule_statuses f) (\<lambda>statuses.
         bind_result (map_result (rule_result name_uuid f metadata_by_rule_id statuses) rule_ids)
           (\<lambda>rules. let risks = List.map_filter risk_of rules in
              bind_result (calculate_risk_summary risks) (\<lambda>summary.
                new_audit_preview (preview_id f) rules risks summary))))"

section \<open>Lemmas\<close>

lemma rule_ids_literals: "rule_ids = map lit
  [''RULE-001'', ''RULE-002'', ''RULE-003'', ''RULE-004'', ''RULE-005'', ''RULE-006'', ''RULE-007'',
   ''RULE-008'', ''RULE-009'', ''RULE-010'', ''RULE-011'', ''RULE-012'', ''RULE-013'', ''RULE-014'',
   ''RULE-015'']"
proof -
  have "[1..<16] = [1, 2, 3, 4, 5, 6, 7, 8, 9, 10, 11, 12, 13, 14, 15::nat]"
    by code_simp
  moreover have "replicate 2 x = [x, x]" for x :: nat by (simp add: numeral_2_eq_2)
  ultimately show ?thesis by (simp add: rule_ids_def zfill_def lit_def)
qed

lemma rule_ids_distinct [simp]: "distinct rule_ids"
  by (simp add: rule_ids_literals)

lemma rule_ids_length [simp]: "length rule_ids = 15"
  by (simp add: rule_ids_literals)

lemma rule_ids_non_blank: "rid \<in> set rule_ids \<Longrightarrow> non_blank rid"
  by (auto simp: rule_ids_literals non_blank_iff lit_def py_isspace_def)

lemma list_all_is_ok_map: "list_all is_ok (map f xs) \<longleftrightarrow> (\<forall>x \<in> set xs. is_ok (f x))"
  by (simp add: list_all_iff)

text \<open>What validated facts look like.\<close>

lemma valid_facts_shapes:
  assumes "validate_audit_facts f = Inr ()"
  shows
   "\<exists>b. has_confirmed_primary_contract f = PyBool b" 
   "\<exists>b. contract_subjects_present f = PyBool b"
   "\<exists>b. contract_amount_present f = PyBool b" "\<exists>b. contract_currency_present f = PyBool b"
   "\<exists>b. contract_effective_date_present f = PyBool b"
   "\<exists>b. has_effective_unconfirmed_supplementary_agreement f = PyBool b"
   "\<exists>b. requires_policy_citation f = PyBool b"
   "\<exists>b. retrieval_completed_successfully f = PyBool b"
   "\<exists>b. has_applicable_policy_citation f = PyBool b"
   "\<exists>s. organization_tax_number f = PyStr s \<and> non_blank s"
  using assms by (auto simp: validate_audit_facts_def validator_defs value_shape_iffs)

lemma valid_facts_optional:
  assumes "validate_audit_facts f = Inr ()"
  shows "optional is_exact_bool (has_existing_exact_invoice_identity f)"
    "optional is_exact_bool (is_red_invoice f)"
    "optional is_non_blank_str (contract_party_b_tax_no f)"
    "optional is_non_blank_str (invoice_seller_tax_no f)"
    "optional is_non_blank_str (invoice_buyer_tax_no f)"
    "optional is_non_blank_str (invoice_code f)" "optional is_non_blank_str (invoice_number f)"
    "optional is_non_blank_str (contract_currency f)"
    "optional is_non_blank_str (invoice_currency f)" "optional is_non_blank_str (contract_no f)"
    "optional is_non_blank_str (standard_name_a f)"
    "optional is_non_blank_str (standard_name_b f)"
    "optional is_non_blank_str (tax_identity_a f)" "optional is_non_blank_str (tax_identity_b f)"
    "optional is_exact_date (invoice_date f)" "optional is_exact_date (contract_effective_date f)"
    "optional is_exact_date (contract_expiry_date f)"
    "period_ordered (contract_effective_date f) (contract_expiry_date f)"
    "optional is_finite_decimal (cumulative_invoice_total f)"
    "optional is_finite_decimal (effective_contract_amount f)"
    "optional is_finite_decimal (invoice_total_amount f)"
    "optional is_finite_decimal (invoice_line_net_amount f)"
    "optional is_finite_decimal (invoice_tax_amount f)"
  using assms by (simp_all add: validate_audit_facts_def validator_defs)

lemma valid_facts_bools:
  assumes "validate_audit_facts f = Inr ()"
  shows "is_exact_bool (has_confirmed_primary_contract f)"
    "is_exact_bool (contract_subjects_present f)" "is_exact_bool (contract_amount_present f)"
    "is_exact_bool (contract_currency_present f)"
    "is_exact_bool (contract_effective_date_present f)"
    "is_exact_bool (has_effective_unconfirmed_supplementary_agreement f)"
    "is_exact_bool (requires_policy_citation f)"
    "is_exact_bool (retrieval_completed_successfully f)"
    "is_exact_bool (has_applicable_policy_citation f)"
    "is_non_blank_str (organization_tax_number f)"
  using assms by (simp_all add: validate_audit_facts_def validator_defs)

text \<open>On validated facts every predicate answers, so the status table exists.\<close>

lemma map_result_id_Inr: "map_result id (map Inr xs) = Inr xs"
  by (induction xs) simp_all

definition expected_statuses :: "audit_facts \<Rightarrow> rule_status list" where
  "expected_statuses f =
    (let has_contract = truth (has_confirmed_primary_contract f) in
    [if \<not> has_contract \<or> is_none (contract_party_b_tax_no f) \<or> is_none (invoice_seller_tax_no f)
     then NOT_APPLICABLE else passed_if (contract_party_b_tax_no f = invoice_seller_tax_no f),
     if is_none (invoice_buyer_tax_no f) then NOT_APPLICABLE
     else passed_if (organization_tax_number f = invoice_buyer_tax_no f),
     if \<not> has_contract \<or> is_none (cumulative_invoice_total f)
        \<or> is_none (effective_contract_amount f)
     then NOT_APPLICABLE
     else passed_if (dec_value (decimal_of (cumulative_invoice_total f))
        \<le> dec_value (decimal_of (effective_contract_amount f))),
     if \<not> has_contract \<or> is_none (invoice_date f) \<or> is_none (contract_effective_date f)
        \<or> is_none (contract_expiry_date f)
     then NOT_APPLICABLE
     else passed_if (date_of (invoice_date f)
        \<in> {date_of (contract_effective_date f)..date_of (contract_expiry_date f)}),
     if is_none (has_existing_exact_invoice_identity f) then NOT_APPLICABLE
     else passed_if (\<not> truth (has_existing_exact_invoice_identity f)),
     if \<not> has_contract then NOT_APPLICABLE
     else passed_if (truth (contract_subjects_present f) \<and> \<not> is_none (effective_contract_amount f)
        \<and> \<not> is_none (contract_currency f) \<and> \<not> is_none (contract_effective_date f)),
     passed_if (\<not> list_ex is_none [invoice_code f, invoice_number f, invoice_buyer_tax_no f,
        invoice_seller_tax_no f, invoice_date f, invoice_total_amount f]),
     if \<not> has_contract \<or> is_none (contract_currency f) \<or> is_none (invoice_currency f)
     then NOT_APPLICABLE else passed_if (contract_currency f = invoice_currency f),
     if is_none (invoice_line_net_amount f) \<or> is_none (invoice_tax_amount f)
        \<or> is_none (invoice_total_amount f)
     then NOT_APPLICABLE
     else passed_if (\<bar>dec_value (decimal_of (invoice_line_net_amount f))
        + dec_value (decimal_of (invoice_tax_amount f))
        - dec_value (decimal_of (invoice_total_amount f))\<bar> \<le> 1 / 100),
     passed_if has_contract,
     if \<not> has_contract then NOT_APPLICABLE else passed_if (\<not> is_none (contract_no f)),
     if \<not> has_contract then NOT_APPLICABLE
     else passed_if (\<not> truth (has_effective_unconfirmed_supplementary_agreement f)),
     if truth (requires_policy_citation f) \<and> truth (retrieval_completed_successfully f)
     then passed_if (truth (has_applicable_policy_citation f)) else NOT_APPLICABLE,
     if list_ex is_none [standard_name_a f, standard_name_b f, tax_identity_a f, tax_identity_b f]
     then NOT_APPLICABLE
     else passed_if (standard_name_a f = standard_name_b f \<longrightarrow> tax_identity_a f = tax_identity_b f),
     if is_none (invoice_total_amount f) \<or> is_none (is_red_invoice f) \<or> truth (is_red_invoice f)
     then NOT_APPLICABLE else passed_if (0 < dec_value (decimal_of (invoice_total_amount f)))])"

lemma finite_decimal_of:
  "optional is_finite_decimal v \<Longrightarrow> v \<noteq> PyNone \<Longrightarrow> is_finite (decimal_of v)"
  by (cases v) (simp_all add: value_shape_defs)

lemma valid_presence:
  assumes "validate_audit_facts f = Inr ()"
  shows "contract_amount_present f = PyBool (effective_contract_amount f \<noteq> PyNone)"
    "contract_currency_present f = PyBool (contract_currency f \<noteq> PyNone)"
    "contract_effective_date_present f = PyBool (contract_effective_date f \<noteq> PyNone)"
  using assms by (simp_all add: validate_audit_facts_def presence_matches_def)

lemma statuses_valid:
  assumes "validate_audit_facts f = Inr ()"
  shows "evaluate_rule_statuses f = Inr (zip rule_ids (expected_statuses f))"
proof -
  note v = valid_facts_bools [OF assms] valid_facts_optional [OF assms]
  note fin = v(29-33) [THEN finite_decimal_of]
  have table: "evaluate_rule_001 (has_confirmed_primary_contract f) (contract_party_b_tax_no f)
            (invoice_seller_tax_no f) = Inr (expected_statuses f ! 0)"
    "evaluate_rule_002 (organization_tax_number f) (invoice_buyer_tax_no f)
        = Inr (expected_statuses f ! 1)"
    "evaluate_rule_003 (has_confirmed_primary_contract f) (cumulative_invoice_total f)
        (effective_contract_amount f) = Inr (expected_statuses f ! 2)"
    "evaluate_rule_005 (has_existing_exact_invoice_identity f) = Inr (expected_statuses f ! 4)"
    "evaluate_rule_006 (has_confirmed_primary_contract f) (contract_subjects_present f)
        (contract_amount_present f) (contract_currency_present f)
        (contract_effective_date_present f) = Inr (expected_statuses f ! 5)"
    "evaluate_rule_007 (invoice_code f) (invoice_number f) (invoice_buyer_tax_no f)
        (invoice_seller_tax_no f) (invoice_date f) (invoice_total_amount f)
        = Inr (expected_statuses f ! 6)"
    "evaluate_rule_008_currency_pair (has_confirmed_primary_contract f) (contract_currency f)
        (invoice_currency f) = Inr (expected_statuses f ! 7)"
    "evaluate_rule_009 (invoice_line_net_amount f) (invoice_tax_amount f)
        (invoice_total_amount f) = Inr (expected_statuses f ! 8)"
    "evaluate_rule_010 (has_confirmed_primary_contract f) = Inr (expected_statuses f ! 9)"
    "evaluate_rule_011 (has_confirmed_primary_contract f) (contract_no f)
        = Inr (expected_statuses f ! 10)"
    "evaluate_rule_012 (has_confirmed_primary_contract f)
        (has_effective_unconfirmed_supplementary_agreement f) = Inr (expected_statuses f ! 11)"
    "evaluate_rule_013 (requires_policy_citation f) (retrieval_completed_successfully f)
        (has_applicable_policy_citation f) = Inr (expected_statuses f ! 12)"
    "evaluate_rule_014_identity_pair (standard_name_a f) (standard_name_b f) (tax_identity_a f)
        (tax_identity_b f) = Inr (expected_statuses f ! 13)"
    "evaluate_rule_015 (invoice_total_amount f) (is_red_invoice f)
        = Inr (expected_statuses f ! 14)"
    using v by (auto simp: rule_defs validator_defs after_checks_pass expected_statuses_def Let_def
        valid_presence [OF assms] dec_less_value fin not_le passed_if_def
        signed_coef_def)
  have rule_004: "\<exists>s. evaluate_rule_004 (invoice_date f) (contract_effective_date f)
      (contract_expiry_date f) = Inr s
      \<and> (if truth (has_confirmed_primary_contract f) then s else NOT_APPLICABLE)
        = expected_statuses f ! 3"
    using v by (auto simp: rule_defs after_checks_pass expected_statuses_def Let_def)
  have len: "length (expected_statuses f) = 15"
    by (simp add: expected_statuses_def Let_def)
  have nths: "map ((!) (expected_statuses f)) [0..<15] = expected_statuses f"
    using map_nth [of "expected_statuses f"] by (simp only: len)
  have upt: "[0..<15] = [0, 1, 2, 3, 4, 5, 6, 7, 8, 9, 10, 11, 12, 13, 14::nat]"
    by code_simp
  from rule_004 have "evaluate_rule_statuses f
      = Inr (zip rule_ids (map ((!) (expected_statuses f)) [0..<15]))"
    by (auto simp: evaluate_rule_statuses_def table upt)
  then show ?thesis by (simp only: nths)
qed

definition status_of :: "audit_facts \<Rightarrow> pystr \<Rightarrow> rule_status" where
  "status_of f rid = the (map_of (zip rule_ids (expected_statuses f)) rid)"

lemma length_expected_statuses [simp]: "length (expected_statuses f) = 15"
  by (simp add: expected_statuses_def Let_def)

lemma length_compared_values [simp]: "length (compared_values f) = 15"
  by (simp add: compared_values_def Let_def)

lemma rule_ids_induct:
  assumes "rid \<in> set rule_ids" and "list_all P rule_ids" shows "P rid"
  using assms by (simp add: list_all_iff)

lemma rule_lookup:
  assumes "length xs = 15"
  shows
    "map_of (zip rule_ids xs) (lit ''RULE-001'') = Some (xs ! 0)"
    "map_of (zip rule_ids xs) (lit ''RULE-002'') = Some (xs ! 1)"
    "map_of (zip rule_ids xs) (lit ''RULE-003'') = Some (xs ! 2)"
    "map_of (zip rule_ids xs) (lit ''RULE-004'') = Some (xs ! 3)"
    "map_of (zip rule_ids xs) (lit ''RULE-005'') = Some (xs ! 4)"
    "map_of (zip rule_ids xs) (lit ''RULE-006'') = Some (xs ! 5)"
    "map_of (zip rule_ids xs) (lit ''RULE-007'') = Some (xs ! 6)"
    "map_of (zip rule_ids xs) (lit ''RULE-008'') = Some (xs ! 7)"
    "map_of (zip rule_ids xs) (lit ''RULE-009'') = Some (xs ! 8)"
    "map_of (zip rule_ids xs) (lit ''RULE-010'') = Some (xs ! 9)"
    "map_of (zip rule_ids xs) (lit ''RULE-011'') = Some (xs ! 10)"
    "map_of (zip rule_ids xs) (lit ''RULE-012'') = Some (xs ! 11)"
    "map_of (zip rule_ids xs) (lit ''RULE-013'') = Some (xs ! 12)"
    "map_of (zip rule_ids xs) (lit ''RULE-014'') = Some (xs ! 13)"
    "map_of (zip rule_ids xs) (lit ''RULE-015'') = Some (xs ! 14)"
proof -
  have look: "i < 15 \<Longrightarrow> rule_ids ! i = rid \<Longrightarrow> map_of (zip rule_ids xs) rid = Some (xs ! i)"
    for i rid
    using map_of_zip_nth [of rule_ids xs i] assms by auto
  show
    "map_of (zip rule_ids xs) (lit ''RULE-001'') = Some (xs ! 0)"
    "map_of (zip rule_ids xs) (lit ''RULE-002'') = Some (xs ! 1)"
    "map_of (zip rule_ids xs) (lit ''RULE-003'') = Some (xs ! 2)"
    "map_of (zip rule_ids xs) (lit ''RULE-004'') = Some (xs ! 3)"
    "map_of (zip rule_ids xs) (lit ''RULE-005'') = Some (xs ! 4)"
    "map_of (zip rule_ids xs) (lit ''RULE-006'') = Some (xs ! 5)"
    "map_of (zip rule_ids xs) (lit ''RULE-007'') = Some (xs ! 6)"
    "map_of (zip rule_ids xs) (lit ''RULE-008'') = Some (xs ! 7)"
    "map_of (zip rule_ids xs) (lit ''RULE-009'') = Some (xs ! 8)"
    "map_of (zip rule_ids xs) (lit ''RULE-010'') = Some (xs ! 9)"
    "map_of (zip rule_ids xs) (lit ''RULE-011'') = Some (xs ! 10)"
    "map_of (zip rule_ids xs) (lit ''RULE-012'') = Some (xs ! 11)"
    "map_of (zip rule_ids xs) (lit ''RULE-013'') = Some (xs ! 12)"
    "map_of (zip rule_ids xs) (lit ''RULE-014'') = Some (xs ! 13)"
    "map_of (zip rule_ids xs) (lit ''RULE-015'') = Some (xs ! 14)"
    by (rule look, simp, simp add: rule_ids_literals)+
qed

lemmas status_of_lookup = rule_lookup [OF length_expected_statuses]
lemmas value_lookup = rule_lookup [OF length_compared_values]

lemma map_status_of: "map (status_of f) rule_ids = expected_statuses f"
  by (rule nth_equalityI) (simp_all add: status_of_def map_of_zip_nth)

text \<open>Missing evidence never counts against the invoice: the rule does not apply.\<close>

lemma missing_not_applicable:
  assumes "rid \<in> set rule_ids" and "is_missing rid f"
  shows "status_of f rid = NOT_APPLICABLE"
proof -
  have "list_all (\<lambda>rid. is_missing rid f \<longrightarrow> status_of f rid = NOT_APPLICABLE) rule_ids"
    unfolding rule_ids_literals list.map list.pred_inject
    by (intro conjI; simp add: status_of_def status_of_lookup is_missing_def;
        simp add: expected_statuses_def Let_def)
  then show ?thesis using assms rule_ids_induct by blast
qed

text \<open>What each rule needs: whether it is in force, and the values it then reads.\<close>

definition required_evidence :: "audit_facts \<Rightarrow> (bool \<times> pyval list) list" where
  "required_evidence f =
     (let contract = truth (has_confirmed_primary_contract f); nothing = (False, []) in
      [(contract, [contract_party_b_tax_no f, invoice_seller_tax_no f]),
       (True, [invoice_buyer_tax_no f]),
       (contract, [cumulative_invoice_total f, effective_contract_amount f]),
       (contract, [invoice_date f, contract_effective_date f, contract_expiry_date f]),
       (True, [has_existing_exact_invoice_identity f]),
       nothing, nothing,
       (contract, [contract_currency f, invoice_currency f]),
       (True, [invoice_line_net_amount f, invoice_tax_amount f, invoice_total_amount f]),
       nothing, nothing, nothing, nothing,
       (True, [standard_name_a f, standard_name_b f, tax_identity_a f, tax_identity_b f]),
       (True, [invoice_total_amount f, is_red_invoice f])])"

definition lacks_evidence :: "bool \<times> pyval list \<Rightarrow> bool" where
  "lacks_evidence need \<longleftrightarrow> fst need \<and> list_ex is_none (snd need)"

lemma missing_rules: "map (\<lambda>rid. is_missing rid f) rule_ids = map lacks_evidence (required_evidence f)"
  unfolding rule_ids_literals
  by (simp add: is_missing_def required_evidence_def lacks_evidence_def Let_def)

text \<open>A failed rule has both of the compared values to show.\<close>

lemma text_of_some: "optional is_non_blank_str v \<Longrightarrow> v \<noteq> PyNone \<Longrightarrow> \<exists>s. text_of v = Some s"
  by (cases v) (simp_all add: value_shape_defs)

lemma red_invoice_false:
  "optional is_exact_bool v \<Longrightarrow> v \<noteq> PyNone \<Longrightarrow> \<not> truth v \<Longrightarrow> v = PyBool False"
  by (cases v) (simp_all add: value_shape_defs)

definition both_shown :: "pystr option \<times> pystr option \<Rightarrow> bool" where
  "both_shown p \<longleftrightarrow> fst p \<noteq> None \<and> snd p \<noteq> None"

lemma failed_has_texts:
  assumes "validate_audit_facts f = Inr ()" and "rid \<in> set rule_ids" and "status_of f rid = FAILED"
  shows "\<exists>p. map_of (actual_expected_values f) rid = Some p \<and> both_shown p"
proof -
  note v = valid_facts_optional [OF assms(1)]
  note texts = v(3-14) [THEN text_of_some]
  note shapes = valid_facts_shapes(1,6,9) [OF assms(1)]
  obtain s where s: "organization_tax_number f = PyStr s"
    using valid_facts_shapes(10) [OF assms(1)] by auto
  have "list_all (\<lambda>rid. status_of f rid = FAILED \<longrightarrow>
      (\<exists>p. map_of (actual_expected_values f) rid = Some p \<and> both_shown p)) rule_ids"
    unfolding rule_ids_literals list.map list.pred_inject
    by (intro conjI; simp add: status_of_def status_of_lookup value_lookup actual_expected_values_def;
        simp add: expected_statuses_def compared_values_def Let_def both_shown_def s when_applies_def
          decimal_text_def date_text_def bool_text_def contract_date_range_text_def;
        use texts shapes red_invoice_false [OF v(2)] in \<open>auto split: if_splits\<close>)
  then show ?thesis using assms(2,3) rule_ids_induct by blast
qed

text \<open>The loop never raises on validated facts and canonical metadata.\<close>

definition metadata_table :: "rule_metadata list \<Rightarrow> bool" where
  "metadata_table metadata \<longleftrightarrow> mset (map meta_rule_id metadata) = mset rule_ids
     \<and> (\<forall>m \<in> set metadata. canonical_ids (meta_reference_ids m) = meta_reference_ids m)"

lemma metadata_lookup:
  assumes "metadata_table metadata" and "rid \<in> set rule_ids"
  shows "\<exists>m \<in> set metadata. map_of (map (\<lambda>m. (meta_rule_id m, m)) metadata) rid = Some m"
proof -
  have "rid \<in> meta_rule_id ` set metadata"
    using assms by (metis metadata_table_def set_map set_mset_mset)
  then have "map_of (map (\<lambda>m. (meta_rule_id m, m)) metadata) rid \<noteq> None"
    by (simp add: map_of_eq_None_iff image_image)
  then show ?thesis by (force dest: map_of_SomeD)
qed

lemma validate_metadata_iff:
  "validate_metadata metadata =
     (if mset (map meta_rule_id metadata) = mset rule_ids
      then Inr (map (\<lambda>m. (meta_rule_id m, m)) metadata)
      else Inl (ValueError ''metadata must contain each RULE-001 through RULE-015 exactly once''))"
proof (cases "mset (map meta_rule_id metadata) = mset rule_ids")
  case True
  then have "distinct (map meta_rule_id metadata)" "set (map meta_rule_id metadata) = set rule_ids"
    "length (map meta_rule_id metadata) = length rule_ids"
    using mset_eq_imp_distinct_iff rule_ids_distinct mset_eq_setD mset_eq_length by blast+
  then show ?thesis using True by (simp add: validate_metadata_def Let_def after_checks_pass)
next
  case False
  then have "\<not> (distinct (map meta_rule_id metadata) \<and> set (map meta_rule_id metadata) = set rule_ids)"
    using set_eq_iff_mset_eq_distinct rule_ids_distinct by blast
  then show ?thesis using False
    by (auto simp: validate_metadata_def Let_def after_checks_first_error all_checks.simps check_def)
qed

definition result_row ::
  "(uuid \<Rightarrow> pystr \<Rightarrow> uuid) \<Rightarrow> audit_facts \<Rightarrow> (pystr \<times> rule_metadata) list \<Rightarrow> pystr \<Rightarrow> preview_result" where
  "result_row name_uuid f table rid =
     \<lparr>res_rule_id = rid, res_status = status_of f rid,
      res_disposition = disposition_of rid (status_of f rid) f,
      actual_value = fst (the (map_of (actual_expected_values f) rid)),
      expected_value = snd (the (map_of (actual_expected_values f) rid)),
      res_risk_id = (if status_of f rid = FAILED then Some (name_uuid (preview_id f) rid) else None),
      res_risk_level = (if status_of f rid = FAILED
                        then Some (meta_risk_level (the (map_of table rid))) else None),
      res_reference_ids = meta_reference_ids (the (map_of table rid))\<rparr>"

lemma disposition_hit:
  assumes "rid \<in> set rule_ids"
  shows "disposition_of rid (status_of f rid) f = HIT \<longleftrightarrow> status_of f rid = FAILED"
  using missing_not_applicable [OF assms, of f]
  by (auto simp: disposition_of_def split: rule_status.splits)

lemma disposition_expected:
  assumes "rid \<in> set rule_ids"
  shows "expected_status (disposition_of rid (status_of f rid) f) = status_of f rid"
  using missing_not_applicable [OF assms, of f]
  by (auto simp: disposition_of_def split: rule_status.splits)

lemma rule_result_row:
  assumes "validate_audit_facts f = Inr ()" and "metadata_table metadata" and "rid \<in> set rule_ids"
  shows "rule_result name_uuid f (map (\<lambda>m. (meta_rule_id m, m)) metadata)
      (zip rule_ids (expected_statuses f)) rid
    = Inr (result_row name_uuid f (map (\<lambda>m. (meta_rule_id m, m)) metadata) rid)"
proof -
  obtain m where m: "m \<in> set metadata"
    "map_of (map (\<lambda>m. (meta_rule_id m, m)) metadata) rid = Some m"
    using metadata_lookup [OF assms(2,3)] by auto
  have canon: "canonical_ids (meta_reference_ids m) = meta_reference_ids m"
    using assms(2) m(1) by (simp add: metadata_table_def)
  have hit: "both_shown (the (map_of (actual_expected_values f) rid))" if "status_of f rid = FAILED"
    using failed_has_texts [OF assms(1,3) that] by auto
  show ?thesis
    using rule_ids_non_blank [OF assms(3)] disposition_expected [OF assms(3), of f] hit
      disposition_hit [OF assms(3), of f]
    by (auto simp: rule_result_def Let_def m(2) canon result_row_def new_preview_result_def
        both_shown_def list_all_iff after_checks_pass
        split: prod.splits simp flip: status_of_def)
qed

definition violated_rules :: "audit_facts \<Rightarrow> pystr list" where
  "violated_rules f = filter (\<lambda>rid. status_of f rid = FAILED) rule_ids"

definition pending_risk :: "uuid \<Rightarrow> risk_level \<Rightarrow> risk" where
  "pending_risk rid level = \<lparr>risk_id = rid, original_level = level, effective_level = level,
     review_status = PENDING\<rparr>"

lemma risks_of_rows:
  "List.map_filter risk_of (map (result_row name_uuid f table) rids)
   = map (\<lambda>rid. pending_risk (name_uuid (preview_id f) rid) (meta_risk_level (the (map_of table rid))))
       (filter (\<lambda>rid. status_of f rid = FAILED) rids)"
  by (induction rids)
    (simp_all add: map_filter_def risk_of_def result_row_def pending_risk_def)

lemma hit_rules_of_rows:
  "set rids \<subseteq> set rule_ids \<Longrightarrow> hit_rules (map (result_row name_uuid f table) rids)
   = map (result_row name_uuid f table) (filter (\<lambda>rid. status_of f rid = FAILED) rids)"
  by (induction rids) (simp_all add: hit_rules_def result_row_def disposition_hit)

lemma build_preview_rows:
  assumes facts: "validate_audit_facts f = Inr ()" and meta: "metadata_table metadata"
    and inj: "inj_on (name_uuid (preview_id f)) (set rule_ids)"
  defines "table \<equiv> map (\<lambda>m. (meta_rule_id m, m)) metadata"
  defines "risks \<equiv> map (\<lambda>rid. pending_risk (name_uuid (preview_id f) rid)
      (meta_risk_level (the (map_of table rid)))) (violated_rules f)"
  shows "\<exists>summary. calculate_risk_summary risks = Inr summary
    \<and> build_offline_audit_preview name_uuid f metadata
      = Inr \<lparr>pv_preview_id = preview_id f, pv_rules = map (result_row name_uuid f table) rule_ids,
          pv_risks = risks, pv_summary = summary, pv_ai_status = DISABLED\<rparr>"
proof -
  have rows: "map_result (rule_result name_uuid f table (zip rule_ids (expected_statuses f))) rule_ids
      = Inr (map (result_row name_uuid f table) rule_ids)"
    using rule_result_row [OF facts meta, of _ name_uuid]
    by (simp add: map_result_ok list_all2_map2 list.rel_refl_strong table_def)
  have risks: "List.map_filter risk_of (map (result_row name_uuid f table) rule_ids) = risks"
    by (simp add: risks_of_rows risks_def violated_rules_def)
  have "distinct (map (name_uuid (preview_id f)) (violated_rules f))"
    using inj by (auto simp: distinct_map violated_rules_def intro: inj_on_subset)
  moreover have "map risk_id risks = map (name_uuid (preview_id f)) (violated_rules f)"
    by (simp add: risks_def pending_risk_def)
  ultimately obtain summary where summary: "calculate_risk_summary risks = Inr summary"
    by (simp add: calculate_risk_summary_def)
  have "new_audit_preview (preview_id f) (map (result_row name_uuid f table) rule_ids) risks summary
      = Inr \<lparr>pv_preview_id = preview_id f, pv_rules = map (result_row name_uuid f table) rule_ids,
          pv_risks = risks, pv_summary = summary, pv_ai_status = DISABLED\<rparr>"
    by (auto simp: new_audit_preview_def summary hit_rules_of_rows)
      (auto simp: risks_def violated_rules_def
        pending_risk_def result_row_def list_all2_map1 list_all2_map2 list_all2_same comp_def)
  then show ?thesis
    using meta by (auto simp: build_offline_audit_preview_def validate_metadata_iff
        metadata_table_def statuses_valid [OF facts] rows risks summary Let_def
        simp flip: table_def)
qed

lemma summary_all_active:
  assumes "calculate_risk_summary rs = Inr s" and "active_risks rs = rs"
  shows "s = \<lparr>overall_level = highest_level (map effective_level rs),
      active_risk_count = length rs, dismissed_risk_count = 0,
      has_effective_high = list_ex (\<lambda>r. effective_level r = HIGH) rs,
      has_unreviewed_high = list_ex (\<lambda>r. effective_level r = HIGH \<and> review_status r = PENDING) rs\<rparr>"
  using assms by (simp add: calculate_risk_summary_def split: if_splits)

section \<open>Properties\<close>

text \<open>C9. For validated facts and canonical metadata the builder always succeeds when the metadata names
each rule exactly once, and refuses any other metadata. The fifteen results come in the order of the
rules with the statuses of the declarative table (exact rational amounts, closed date interval,
tolerance 1/100); a rule is reported as missing exactly when it is in force and a value it needs is
absent, and then does not apply; a hit is exactly a failed rule and shows both compared values; AI
stays disabled.\<close>

theorem preview_total_and_exact:
  assumes facts: "validate_audit_facts f = Inr ()"
    and refs: "\<forall>m \<in> set metadata. canonical_ids (meta_reference_ids m) = meta_reference_ids m"
    and ids: "distinct (map (name_uuid (preview_id f)) rule_ids)"
  shows "if mset (map meta_rule_id metadata) = mset rule_ids
    then \<exists>p. build_offline_audit_preview name_uuid f metadata = Inr p
      \<and> map res_rule_id (pv_rules p) = rule_ids
      \<and> map res_status (pv_rules p) = expected_statuses f
      \<and> map (\<lambda>r. res_disposition r = MISSING) (pv_rules p)
          = map lacks_evidence (required_evidence f)
      \<and> (\<forall>r \<in> set (pv_rules p).
          (res_disposition r = MISSING \<longrightarrow> res_status r = NOT_APPLICABLE)
          \<and> (res_disposition r = HIT \<longleftrightarrow> res_status r = FAILED)
          \<and> (res_status r = FAILED \<longrightarrow> both_shown (actual_value r, expected_value r)))
      \<and> pv_ai_status p = DISABLED
    else build_offline_audit_preview name_uuid f metadata
      = Inl (ValueError ''metadata must contain each RULE-001 through RULE-015 exactly once'')"
proof (cases "mset (map meta_rule_id metadata) = mset rule_ids")
  case True
  then have meta: "metadata_table metadata" using refs by (simp add: metadata_table_def)
  have inj: "inj_on (name_uuid (preview_id f)) (set rule_ids)" using ids by (simp add: distinct_map)
  have missing: "(disposition_of rid (status_of f rid) f = MISSING) = is_missing rid f" for rid
    by (simp add: disposition_of_def split: rule_status.split)
  have row: "(disposition_of rid (status_of f rid) f = MISSING \<longrightarrow> status_of f rid = NOT_APPLICABLE)
      \<and> (disposition_of rid (status_of f rid) f = HIT \<longleftrightarrow> status_of f rid = FAILED)
      \<and> (status_of f rid = FAILED \<longrightarrow>
          both_shown (the (map_of (actual_expected_values f) rid)))"
    if "rid \<in> set rule_ids" for rid
    using missing_not_applicable [OF that, of f] disposition_hit [OF that, of f]
      failed_has_texts [OF facts that]
    by (auto simp: disposition_of_def split: rule_status.splits if_splits)
  obtain summary where "build_offline_audit_preview name_uuid f metadata
      = Inr \<lparr>pv_preview_id = preview_id f,
          pv_rules = map (result_row name_uuid f (map (\<lambda>m. (meta_rule_id m, m)) metadata)) rule_ids,
          pv_risks = map (\<lambda>rid. pending_risk (name_uuid (preview_id f) rid)
            (meta_risk_level (the (map_of (map (\<lambda>m. (meta_rule_id m, m)) metadata) rid))))
            (violated_rules f),
          pv_summary = summary, pv_ai_status = DISABLED\<rparr>"
    using build_preview_rows [where name_uuid = name_uuid, OF facts meta inj] by auto
  then show ?thesis
    using True row by (simp add: result_row_def comp_def map_status_of missing missing_rules)
next
  case False
  then show ?thesis by (simp add: build_offline_audit_preview_def validate_metadata_iff)
qed

definition sample_facts :: audit_facts where
  "sample_facts = \<lparr>preview_id = 7, has_confirmed_primary_contract = PyBool True,
     contract_party_b_tax_no = PyStr (lit ''T1''), invoice_seller_tax_no = PyStr (lit ''T2''),
     organization_tax_number = PyStr (lit ''ORG''), invoice_buyer_tax_no = PyNone,
     cumulative_invoice_total = PyDecimal (Finite False 10001 (-2)),
     effective_contract_amount = PyDecimal (Finite False 100 0),
     invoice_date = PyDate (Date 2026 3 1), contract_effective_date = PyDate (Date 2026 1 1),
     contract_expiry_date = PyDate (Date 2026 12 31),
     has_existing_exact_invoice_identity = PyBool False, contract_subjects_present = PyBool True,
     contract_amount_present = PyBool True, contract_currency_present = PyBool True,
     contract_effective_date_present = PyBool True, invoice_code = PyNone,
     invoice_number = PyStr (lit ''N1''), invoice_total_amount = PyDecimal (Finite False 113 0),
     contract_currency = PyStr (lit ''CNY''), invoice_currency = PyStr (lit ''CNY''),
     invoice_line_net_amount = PyDecimal (Finite False 100 0),
     invoice_tax_amount = PyDecimal (Finite False 13 0), contract_no = PyStr (lit ''C-1''),
     has_effective_unconfirmed_supplementary_agreement = PyBool False,
     requires_policy_citation = PyBool False, retrieval_completed_successfully = PyBool False,
     has_applicable_policy_citation = PyBool False, standard_name_a = PyNone,
     standard_name_b = PyNone, tax_identity_a = PyNone, tax_identity_b = PyNone,
     is_red_invoice = PyBool False\<rparr>"

definition sample_metadata :: "rule_metadata list" where
  "sample_metadata = map (\<lambda>rid. \<lparr>meta_rule_id = rid, meta_risk_level = MEDIUM,
     meta_reference_ids = [1, 2]\<rparr>) (rev rule_ids)"

text \<open>A concrete name-based identifier for the examples: the namespace plus the number of the rule.\<close>

definition numbered_id :: "uuid \<Rightarrow> pystr \<Rightarrow> uuid" where
  "numbered_id namespace name = namespace + of_nat (10 * (name ! 6 - 48) + (name ! 7 - 48))"

lemma sample_facts_valid: "validate_audit_facts sample_facts = Inr ()"
  by (simp add: validate_audit_facts_def sample_facts_def validator_defs presence_matches_def
      non_blank_iff lit_def py_isspace_def period_ordered_def)

lemma sample_metadata_ids:
  "mset (map meta_rule_id sample_metadata) = mset rule_ids"
  "\<forall>m \<in> set sample_metadata. canonical_ids (meta_reference_ids m) = meta_reference_ids m"
  by (simp_all add: sample_metadata_def comp_def canonical_ids_fixed)

lemma sample_ids_distinct: "distinct (map (numbered_id (preview_id sample_facts)) rule_ids)"
  by (simp add: rule_ids_literals numbered_id_def sample_facts_def lit_def)

theorem preview_total_and_exact_witness:
  "\<exists>p. build_offline_audit_preview numbered_id sample_facts sample_metadata = Inr p
     \<and> map res_status (pv_rules p) = [FAILED, NOT_APPLICABLE, FAILED, PASSED, PASSED, PASSED,
         FAILED, PASSED, PASSED, PASSED, PASSED, PASSED, NOT_APPLICABLE, NOT_APPLICABLE, PASSED]"
proof -
  have "expected_statuses sample_facts = [FAILED, NOT_APPLICABLE, FAILED, PASSED, PASSED, PASSED,
      FAILED, PASSED, PASSED, PASSED, PASSED, PASSED, NOT_APPLICABLE, NOT_APPLICABLE, PASSED]"
    by (simp add: expected_statuses_def sample_facts_def passed_if_def signed_coef_def)
  then show ?thesis
    using preview_total_and_exact [where name_uuid = numbered_id, OF sample_facts_valid
        sample_metadata_ids(2) sample_ids_distinct] sample_metadata_ids(1)
    by auto
qed

text \<open>C10. The risks of a preview are exactly the violated rules, in rule order: one pending risk each,
identified by the rule's name in the namespace of the preview, at the level its metadata gives. The
summary is that of these risks, so its level is the highest level of a violated rule, nothing is
dismissed, and a violated rule of level HIGH is reported as not yet reviewed.\<close>

theorem preview_risks_are_violations:
  assumes facts: "validate_audit_facts f = Inr ()" and meta: "metadata_table metadata"
    and ids: "distinct (map (name_uuid (preview_id f)) rule_ids)"
  shows "\<exists>p. build_offline_audit_preview name_uuid f metadata = Inr p
    \<and> map risk_id (pv_risks p) = map (name_uuid (preview_id f)) (violated_rules f)
    \<and> list_all2 (\<lambda>rid r. \<exists>m \<in> set metadata. meta_rule_id m = rid
         \<and> r = pending_risk (name_uuid (preview_id f) rid) (meta_risk_level m))
       (violated_rules f) (pv_risks p)
    \<and> overall_level (pv_summary p) = highest_level (map effective_level (pv_risks p))
    \<and> active_risk_count (pv_summary p) = length (violated_rules f)
    \<and> dismissed_risk_count (pv_summary p) = 0
    \<and> (has_unreviewed_high (pv_summary p) \<longleftrightarrow> HIGH \<in> original_level ` set (pv_risks p))"
proof -
  let ?table = "map (\<lambda>m. (meta_rule_id m, m)) metadata"
  let ?risks = "map (\<lambda>rid. pending_risk (name_uuid (preview_id f) rid)
      (meta_risk_level (the (map_of ?table rid)))) (violated_rules f)"
  have inj: "inj_on (name_uuid (preview_id f)) (set rule_ids)" using ids by (simp add: distinct_map)
  obtain summary where s: "calculate_risk_summary ?risks = Inr summary"
    and b: "build_offline_audit_preview name_uuid f metadata
      = Inr \<lparr>pv_preview_id = preview_id f, pv_rules = map (result_row name_uuid f ?table) rule_ids,
          pv_risks = ?risks, pv_summary = summary, pv_ai_status = DISABLED\<rparr>"
    using build_preview_rows [where name_uuid = name_uuid, OF facts meta inj] by auto
  have active: "active_risks ?risks = ?risks"
    by (simp add: active_risks_def pending_risk_def filter_map comp_def)
  have "\<exists>m \<in> set metadata. meta_rule_id m = rid \<and> the (map_of ?table rid) = m"
    if "rid \<in> set (violated_rules f)" for rid
    using metadata_lookup [OF meta, of rid] that
    by (fastforce simp: violated_rules_def dest: map_of_SomeD)
  then have rows: "list_all2 (\<lambda>rid r. \<exists>m \<in> set metadata. meta_rule_id m = rid
         \<and> r = pending_risk (name_uuid (preview_id f) rid) (meta_risk_level m))
       (violated_rules f) ?risks"
    by (fastforce simp: list_all2_map2 list_all2_same)
  have high: "list_ex (\<lambda>r. effective_level r = HIGH \<and> review_status r = PENDING) ?risks
      \<longleftrightarrow> HIGH \<in> original_level ` set ?risks"
    by (force simp: pending_risk_def list_ex_iff image_iff)
  have ident: "map risk_id ?risks = map (name_uuid (preview_id f)) (violated_rules f)"
    by (simp add: pending_risk_def)
  note summary_all_active [OF s active]
  with b rows high ident show ?thesis by simp
qed

theorem preview_risks_are_violations_witness:
  "\<exists>p. build_offline_audit_preview numbered_id sample_facts sample_metadata = Inr p
     \<and> map risk_id (pv_risks p) = [8, 10, 14]"
proof -
  have "violated_rules sample_facts = map lit [''RULE-001'', ''RULE-003'', ''RULE-007'']"
    unfolding violated_rules_def rule_ids_literals
    by (simp add: status_of_def status_of_lookup)
      (simp add: expected_statuses_def sample_facts_def passed_if_def signed_coef_def)
  moreover have "metadata_table sample_metadata"
    using sample_metadata_ids by (simp add: metadata_table_def)
  moreover have "map (numbered_id (preview_id sample_facts))
      (map lit [''RULE-001'', ''RULE-003'', ''RULE-007'']) = [8, 10, 14]"
    by (simp add: numbered_id_def sample_facts_def lit_def)
  ultimately show ?thesis
    using preview_risks_are_violations [where name_uuid = numbered_id, OF sample_facts_valid
        _ sample_ids_distinct, of sample_metadata]
    by auto
qed

end
