(* ===== verification/ContractInvoiceMatching.thy ===== *)
theory ContractInvoiceMatching
  imports PyValue
begin

text \<open>
  \<open>app/rules/contract_invoice_matching.py\<close>: candidate relations between one invoice and the
  contracts it may belong to. Each candidate carries three independent reasons (tax number, name,
  date) and the candidates are ranked by them, ties broken by the contract identity.
\<close>

datatype evidence_status = MATCHED | MISMATCHED | UNAVAILABLE

datatype reason_code =
    TAX_NO_MATCHED | TAX_NO_MISMATCHED | TAX_NO_UNAVAILABLE
  | NAME_MATCHED | NAME_MISMATCHED | NAME_UNAVAILABLE
  | DATE_IN_RANGE | DATE_OUT_OF_RANGE | DATE_UNAVAILABLE

fun reason_status :: "reason_code \<Rightarrow> evidence_status" where
  "reason_status TAX_NO_MATCHED = MATCHED"
| "reason_status TAX_NO_MISMATCHED = MISMATCHED"
| "reason_status TAX_NO_UNAVAILABLE = UNAVAILABLE"
| "reason_status NAME_MATCHED = MATCHED"
| "reason_status NAME_MISMATCHED = MISMATCHED"
| "reason_status NAME_UNAVAILABLE = UNAVAILABLE"
| "reason_status DATE_IN_RANGE = MATCHED"
| "reason_status DATE_OUT_OF_RANGE = MISMATCHED"
| "reason_status DATE_UNAVAILABLE = UNAVAILABLE"

fun status_sort_order :: "evidence_status \<Rightarrow> nat" where
  "status_sort_order MATCHED = 0"
| "status_sort_order MISMATCHED = 1"
| "status_sort_order UNAVAILABLE = 2"

instantiation evidence_status :: linorder
begin

definition less_eq_evidence_status :: "evidence_status \<Rightarrow> evidence_status \<Rightarrow> bool" where
  "less_eq_evidence_status a b \<longleftrightarrow> status_sort_order a \<le> status_sort_order b"

definition less_evidence_status :: "evidence_status \<Rightarrow> evidence_status \<Rightarrow> bool" where
  "less_evidence_status a b \<longleftrightarrow> status_sort_order a < status_sort_order b"

instance
proof
  fix x y :: evidence_status
  show "x \<le> y \<Longrightarrow> y \<le> x \<Longrightarrow> x = y"
    by (cases x; cases y) (simp_all add: less_eq_evidence_status_def)
qed (auto simp: less_eq_evidence_status_def less_evidence_status_def)

end

record match_reason =
  status :: evidence_status
  code :: reason_code

text \<open>\<open>ContractInvoiceMatchReason.__post_init__\<close>: the code determines the status.\<close>

definition new_match_reason :: "evidence_status \<Rightarrow> reason_code \<Rightarrow> match_reason result" where
  "new_match_reason st c =
     (if reason_status c \<noteq> st then Inl (ValueError ''reason code must match its evidence status'')
      else Inr \<lparr>status = st, code = c\<rparr>)"

record invoice_facts =
  invoice_id :: uuid
  seller_tax_no :: pyval
  seller_name :: pyval
  invoice_date :: pyval

definition validate_invoice_facts :: "invoice_facts \<Rightarrow> unit result" where
  "validate_invoice_facts i = all_checks
     [validate_optional_non_blank_str (seller_tax_no i) ''seller_tax_no'',
      validate_optional_non_blank_str (seller_name i) ''seller_name'',
      validate_optional_date (invoice_date i) ''invoice_date'']"

record contract_facts =
  contract_id :: uuid
  party_b_tax_no :: pyval
  party_b_name :: pyval
  effective_date :: pyval
  expiry_date :: pyval

definition validate_contract_facts :: "contract_facts \<Rightarrow> unit result" where
  "validate_contract_facts c = all_checks
     [validate_optional_non_blank_str (party_b_tax_no c) ''party_b_tax_no'',
      validate_optional_non_blank_str (party_b_name c) ''party_b_name'',
      validate_optional_date (effective_date c) ''effective_date'',
      validate_optional_date (expiry_date c) ''expiry_date'',
      check (period_ordered (effective_date c) (expiry_date c))
        ''contract effective date must not be after expiry date'']"

record candidate =
  cand_invoice_id :: uuid
  cand_contract_id :: uuid
  tax_no_reason :: match_reason
  name_reason :: match_reason
  date_reason :: match_reason
  contract_party_b_tax_no :: pyval
  invoice_seller_tax_no :: pyval
  contract_party_b_name :: pyval
  invoice_seller_name :: pyval
  cand_invoice_date :: pyval
  contract_effective_date :: pyval
  contract_expiry_date :: pyval

text \<open>\<open>ContractInvoiceCandidate.__post_init__\<close> validates what it is built from.\<close>

definition validate_candidate :: "candidate \<Rightarrow> unit result" where
  "validate_candidate c = all_checks
     [validate_optional_non_blank_str (contract_party_b_tax_no c) ''contract_party_b_tax_no'',
      validate_optional_non_blank_str (invoice_seller_tax_no c) ''invoice_seller_tax_no'',
      validate_optional_non_blank_str (contract_party_b_name c) ''contract_party_b_name'',
      validate_optional_non_blank_str (invoice_seller_name c) ''invoice_seller_name'',
      validate_optional_date (cand_invoice_date c) ''invoice_date'',
      validate_optional_date (contract_effective_date c) ''contract_effective_date'',
      validate_optional_date (contract_expiry_date c) ''contract_expiry_date'']"

definition reason :: "reason_code \<Rightarrow> match_reason" where
  "reason c = \<lparr>status = reason_status c, code = c\<rparr>"

definition derive_text_reason ::
  "pyval \<Rightarrow> pyval \<Rightarrow> reason_code \<Rightarrow> reason_code \<Rightarrow> reason_code \<Rightarrow> match_reason" where
  "derive_text_reason contract_value invoice_value matched mismatched unavailable =
     (if is_none contract_value \<or> is_none invoice_value then reason unavailable
      else reason (if contract_value = invoice_value then matched else mismatched))"

definition derive_date_reason :: "pyval \<Rightarrow> pyval \<Rightarrow> pyval \<Rightarrow> match_reason" where
  "derive_date_reason inv_date eff_date exp_date =
     (if is_none inv_date \<or> is_none eff_date \<or> is_none exp_date then reason DATE_UNAVAILABLE
      else reason (if date_of eff_date \<le> date_of inv_date \<and> date_of inv_date \<le> date_of exp_date
                   then DATE_IN_RANGE else DATE_OUT_OF_RANGE))"

text \<open>The candidate of one contract, as the generator of \<open>derive_contract_invoice_candidates\<close>
  builds it.\<close>

definition new_candidate :: "invoice_facts \<Rightarrow> contract_facts \<Rightarrow> candidate" where
  "new_candidate i c =
    \<lparr> cand_invoice_id = invoice_id i,
      cand_contract_id = contract_id c,
      tax_no_reason = derive_text_reason (party_b_tax_no c) (seller_tax_no i)
        TAX_NO_MATCHED TAX_NO_MISMATCHED TAX_NO_UNAVAILABLE,
      name_reason = derive_text_reason (party_b_name c) (seller_name i)
        NAME_MATCHED NAME_MISMATCHED NAME_UNAVAILABLE,
      date_reason = derive_date_reason (invoice_date i) (effective_date c) (expiry_date c),
      contract_party_b_tax_no = party_b_tax_no c,
      invoice_seller_tax_no = seller_tax_no i,
      contract_party_b_name = party_b_name c,
      invoice_seller_name = seller_name i,
      cand_invoice_date = invoice_date i,
      contract_effective_date = effective_date c,
      contract_expiry_date = expiry_date c \<rparr>"

definition candidate_rank :: "candidate \<Rightarrow> nat \<times> nat \<times> nat \<times> uuid" where
  "candidate_rank c =
     (status_sort_order (status (tax_no_reason c)),
      status_sort_order (status (name_reason c)),
      status_sort_order (status (date_reason c)),
      cand_contract_id c)"

definition build_candidate :: "invoice_facts \<Rightarrow> contract_facts \<Rightarrow> candidate result" where
  "build_candidate i c =
     bind_result (validate_candidate (new_candidate i c)) (\<lambda>_. Inr (new_candidate i c))"

definition derive_contract_invoice_candidates ::
  "invoice_facts \<Rightarrow> contract_facts list \<Rightarrow> candidate list result" where
  "derive_contract_invoice_candidates i cs =
     (if \<not> distinct (map contract_id cs)
      then Inl (ValueError ''contract_id must be unique within candidate input'')
      else bind_result (map_result (build_candidate i) cs)
             (\<lambda>cands. Inr (sort_key candidate_rank cands)))"

record match_reasons =
  tax_no_match :: bool
  name_match :: bool
  date_in_range :: bool

definition derive_contract_invoice_match_reasons ::
  "pyval \<Rightarrow> pyval \<Rightarrow> pyval \<Rightarrow> pyval \<Rightarrow> pyval \<Rightarrow> pyval \<Rightarrow> pyval \<Rightarrow> match_reasons result" where
  "derive_contract_invoice_match_reasons party_b_tax seller_tax party_b_nm seller_nm
     inv_date eff_date exp_date =
     after_checks
       [validate_non_blank_text party_b_tax ''contract_party_b_tax_no'',
        validate_non_blank_text seller_tax ''invoice_seller_tax_no'',
        validate_non_blank_text party_b_nm ''contract_party_b_name'',
        validate_non_blank_text seller_nm ''invoice_seller_name'',
        validate_exact_date inv_date ''invoice_date'',
        validate_exact_date eff_date ''contract_effective_date'',
        validate_exact_date exp_date ''contract_expiry_date'',
        check (date_of eff_date \<le> date_of exp_date)
          ''contract effective date must not be after expiry date'']
       (Inr \<lparr> tax_no_match = (party_b_tax = seller_tax),
              name_match = (party_b_nm = seller_nm),
              date_in_range = (date_of eff_date \<le> date_of inv_date
                               \<and> date_of inv_date \<le> date_of exp_date) \<rparr>)"

definition full_match :: "candidate \<Rightarrow> bool" where
  "full_match c = (status (tax_no_reason c) = MATCHED \<and> status (name_reason c) = MATCHED
     \<and> status (date_reason c) = MATCHED)"

section \<open>Construction\<close>

lemma status_sort_order_zero [simp]: "status_sort_order s = 0 \<longleftrightarrow> s = MATCHED"
  by (cases s) auto

lemma reason_simps [simp]: "status (reason c) = reason_status c" "code (reason c) = c"
  by (simp_all add: reason_def)

lemma reason_accepted: "new_match_reason (reason_status c) c = Inr (reason c)"
  by (simp add: new_match_reason_def reason_def)

lemma build_candidate_valid:
  assumes "validate_invoice_facts i = Inr ()" and "validate_contract_facts c = Inr ()"
  shows "build_candidate i c = Inr (new_candidate i c)"
  using assms
  by (auto simp: build_candidate_def validate_candidate_def new_candidate_def
      validate_invoice_facts_def validate_contract_facts_def all_checks_ok validator_defs)

lemma map_build_candidate:
  assumes "validate_invoice_facts i = Inr ()"
    and "\<And>c. c \<in> set cs \<Longrightarrow> validate_contract_facts c = Inr ()"
  shows "map_result (build_candidate i) cs = Inr (map (new_candidate i) cs)"
  using assms(2) by (induction cs) (simp_all add: build_candidate_valid [OF assms(1)])

lemma new_candidate_ids [simp]:
  "cand_contract_id (new_candidate i c) = contract_id c"
  "cand_invoice_id (new_candidate i c) = invoice_id i"
  by (simp_all add: new_candidate_def)

text \<open>The rank ends in the contract identity, so it identifies the candidate.\<close>

interpretation candidates: ranking candidate_rank cand_contract_id
  by unfold_locales (simp add: candidate_rank_def)

lemma derive_candidates_valid:
  assumes "validate_invoice_facts i = Inr ()"
    and "\<And>c. c \<in> set cs \<Longrightarrow> validate_contract_facts c = Inr ()"
    and "distinct (map contract_id cs)"
  shows "derive_contract_invoice_candidates i cs
    = Inr (sort_key candidate_rank (map (new_candidate i) cs))"
  using assms by (simp add: derive_contract_invoice_candidates_def map_build_candidate)

lemma distinct_candidates:
  "distinct (map contract_id cs) \<Longrightarrow> distinct (map cand_contract_id (map (new_candidate i) cs))"
  by (simp add: comp_def)

section \<open>Properties\<close>

text \<open>C18. For facts that pass their own validation and contracts with distinct identities, the
  derivation returns exactly one candidate per contract, strictly increasing in the rank, and the
  result does not depend on the order in which the contracts were supplied.\<close>

theorem candidates_ranked:
  assumes "validate_invoice_facts i = Inr ()"
    and "\<And>c. c \<in> set cs \<Longrightarrow> validate_contract_facts c = Inr ()"
    and "distinct (map contract_id cs)" and "mset cs' = mset cs"
  shows "\<exists>out. derive_contract_invoice_candidates i cs = Inr out
    \<and> derive_contract_invoice_candidates i cs' = Inr out
    \<and> mset out = image_mset (new_candidate i) (mset cs)
    \<and> sorted_wrt (\<lambda>x y. candidate_rank x < candidate_rank y) out"
proof -
  let ?out = "sort_key candidate_rank (map (new_candidate i) cs)"
  have d: "distinct (map contract_id cs')"
    using assms(3,4) by (metis mset_eq_imp_distinct_iff mset_map)
  have v: "validate_contract_facts c = Inr ()" if "c \<in> set cs'" for c
    using that assms(2,4) by (metis mset_eq_setD)
  have "sort_key candidate_rank (map (new_candidate i) cs) =
      sort_key candidate_rank (map (new_candidate i) cs')"
    by (rule candidates.rank_order_independent)
       (simp_all only: distinct_candidates [OF assms(3)] mset_map assms(4))
  then have perm: "derive_contract_invoice_candidates i cs' = Inr ?out"
    using derive_candidates_valid [OF assms(1) v d] by simp
  have "sorted_wrt (\<lambda>x y. candidate_rank x < candidate_rank y) ?out"
    by (rule candidates.rank_strict [OF distinct_candidates [OF assms(3)]])
  with perm show ?thesis
    using derive_candidates_valid [OF assms(1,2,3)] by (intro exI [of _ ?out]) simp
qed

definition sample_invoice :: invoice_facts where
  "sample_invoice = \<lparr>invoice_id = 9, seller_tax_no = PyStr (lit ''T1''),
     seller_name = PyStr (lit ''ACME''), invoice_date = PyDate (Date 2026 3 1)\<rparr>"

definition sample_contract :: "uuid \<Rightarrow> pyval \<Rightarrow> contract_facts" where
  "sample_contract u tax = \<lparr>contract_id = u, party_b_tax_no = tax,
     party_b_name = PyStr (lit ''ACME''), effective_date = PyDate (Date 2026 1 1),
     expiry_date = PyDate (Date 2026 12 31)\<rparr>"

lemma sample_match_facts_valid:
  "validate_invoice_facts sample_invoice = Inr ()"
  "validate_contract_facts (sample_contract u PyNone) = Inr ()"
  "validate_contract_facts (sample_contract u (PyStr (lit ''T1''))) = Inr ()"
  by (simp_all add: validate_invoice_facts_def validate_contract_facts_def validator_defs
      sample_invoice_def sample_contract_def period_ordered_def non_blank_iff lit_def py_isspace_def)

theorem candidates_ranked_witness:
  "\<exists>out. derive_contract_invoice_candidates sample_invoice
       [sample_contract 1 PyNone, sample_contract 2 (PyStr (lit ''T1''))] = Inr out
    \<and> derive_contract_invoice_candidates sample_invoice
       [sample_contract 2 (PyStr (lit ''T1'')), sample_contract 1 PyNone] = Inr out
    \<and> sorted_wrt (\<lambda>x y. candidate_rank x < candidate_rank y) out"
proof -
  let ?cs = "[sample_contract 1 PyNone, sample_contract 2 (PyStr (lit ''T1''))]"
  let ?cs' = "[sample_contract 2 (PyStr (lit ''T1'')), sample_contract 1 PyNone]"
  have "distinct (map contract_id ?cs)" by (simp add: sample_contract_def)
  moreover have "\<And>c. c \<in> set ?cs \<Longrightarrow> validate_contract_facts c = Inr ()"
    using sample_match_facts_valid by auto
  moreover have "mset ?cs' = mset ?cs" by (simp add: add_mset_commute)
  ultimately show ?thesis
    using candidates_ranked [of sample_invoice ?cs ?cs'] sample_match_facts_valid(1) by auto
qed

text \<open>Every candidate's reasons say what the facts say: a text dimension is matched exactly when
  both values are present and equal, unavailable exactly when one is missing; the date dimension is
  in range exactly when all three dates are present and the invoice date lies in the closed period.
  And a contract that matches in all three dimensions is never ranked below one that does not.\<close>

theorem candidates_reasons:
  assumes "validate_invoice_facts i = Inr ()"
    and "\<And>c. c \<in> set cs \<Longrightarrow> validate_contract_facts c = Inr ()"
    and "derive_contract_invoice_candidates i cs = Inr out"
    and "c \<in> set cs"
  shows "new_candidate i c \<in> set out
    \<and> (status (tax_no_reason (new_candidate i c)) = MATCHED
         \<longleftrightarrow> party_b_tax_no c \<noteq> PyNone \<and> party_b_tax_no c = seller_tax_no i)
    \<and> (status (tax_no_reason (new_candidate i c)) = UNAVAILABLE
         \<longleftrightarrow> party_b_tax_no c = PyNone \<or> seller_tax_no i = PyNone)
    \<and> (status (name_reason (new_candidate i c)) = MATCHED
         \<longleftrightarrow> party_b_name c \<noteq> PyNone \<and> party_b_name c = seller_name i)
    \<and> (status (date_reason (new_candidate i c)) = MATCHED
         \<longleftrightarrow> (\<exists>d lo hi. invoice_date i = PyDate d \<and> effective_date c = PyDate lo
               \<and> expiry_date c = PyDate hi \<and> lo \<le> d \<and> d \<le> hi))
    \<and> (full_match (new_candidate i c) \<longrightarrow> full_match (hd out))"
proof -
  have d: "distinct (map contract_id cs)"
    using assms(3) by (auto simp: derive_contract_invoice_candidates_def split: if_splits)
  have out: "out = sort_key candidate_rank (map (new_candidate i) cs)"
    using derive_candidates_valid [OF assms(1,2) d] assms(3) by simp
  have mem: "new_candidate i c \<in> set out" using assms(4) by (simp add: out)
  have valid: "optional is_exact_date (invoice_date i)" "optional is_exact_date (effective_date c)"
    "optional is_exact_date (expiry_date c)"
    using assms(1) assms(2) [OF assms(4)]
    by (auto simp: validate_invoice_facts_def validate_contract_facts_def validator_defs)
  have "sorted (map candidate_rank out)" by (simp add: out)
  then have "candidate_rank (hd out) \<le> candidate_rank (new_candidate i c)"
    using mem by (cases out) auto
  then have best: "full_match (hd out)" if "full_match (new_candidate i c)"
    using that by (auto simp: full_match_def candidate_rank_def less_eq_prod_def)
  show ?thesis
    using mem best valid
    by (auto simp: new_candidate_def derive_text_reason_def derive_date_reason_def value_shape_iffs)
qed

theorem candidates_reasons_witness:
  "\<exists>out. derive_contract_invoice_candidates sample_invoice
       [sample_contract 1 PyNone, sample_contract 2 (PyStr (lit ''T1''))] = Inr out
    \<and> full_match (hd out)"
proof -
  let ?cs = "[sample_contract 1 PyNone, sample_contract 2 (PyStr (lit ''T1''))]"
  have v: "\<And>c. c \<in> set ?cs \<Longrightarrow> validate_contract_facts c = Inr ()"
    using sample_match_facts_valid by auto
  have "distinct (map contract_id ?cs)" by (simp add: sample_contract_def)
  then obtain out where out: "derive_contract_invoice_candidates sample_invoice ?cs = Inr out"
    using derive_candidates_valid [OF sample_match_facts_valid(1) v] by blast
  have "full_match (new_candidate sample_invoice (sample_contract 2 (PyStr (lit ''T1''))))"
    by (simp add: full_match_def new_candidate_def sample_invoice_def sample_contract_def
        derive_text_reason_def derive_date_reason_def)
  then show ?thesis
    using candidates_reasons [OF sample_match_facts_valid(1) v out, of "sample_contract 2 (PyStr (lit ''T1''))"]
      out by simp
qed

text \<open>C19. Where the complete-facts variant answers at all, its three flags are the matched statuses of
  the candidate derived from the same facts, and no dimension of that candidate is unavailable.\<close>

theorem match_reasons_agree_with_candidate:
  assumes "derive_contract_invoice_match_reasons (party_b_tax_no c) (seller_tax_no i)
      (party_b_name c) (seller_name i) (invoice_date i) (effective_date c) (expiry_date c) = Inr r"
  shows "validate_invoice_facts i = Inr () \<and> validate_contract_facts c = Inr ()
    \<and> (status (tax_no_reason (new_candidate i c)) = (if tax_no_match r then MATCHED else MISMATCHED))
    \<and> (status (name_reason (new_candidate i c)) = (if name_match r then MATCHED else MISMATCHED))
    \<and> (status (date_reason (new_candidate i c)) = (if date_in_range r then MATCHED else MISMATCHED))"
  using assms
  by (auto simp: derive_contract_invoice_match_reasons_def validator_defs value_shape_iffs
      new_candidate_def derive_text_reason_def derive_date_reason_def
      validate_invoice_facts_def validate_contract_facts_def period_ordered_def)

theorem match_reasons_agree_with_candidate_witness:
  "\<exists>r. derive_contract_invoice_match_reasons (PyStr (lit ''T1'')) (PyStr (lit ''T1''))
      (PyStr (lit ''ACME'')) (PyStr (lit ''ACME'')) (PyDate (Date 2026 3 1))
      (PyDate (Date 2026 1 1)) (PyDate (Date 2026 12 31)) = Inr r
     \<and> status (date_reason (new_candidate sample_invoice (sample_contract 2 (PyStr (lit ''T1'')))))
        = (if date_in_range r then MATCHED else MISMATCHED)"
proof -
  obtain r where r: "derive_contract_invoice_match_reasons (PyStr (lit ''T1'')) (PyStr (lit ''T1''))
      (PyStr (lit ''ACME'')) (PyStr (lit ''ACME'')) (PyDate (Date 2026 3 1))
      (PyDate (Date 2026 1 1)) (PyDate (Date 2026 12 31)) = Inr r"
    by (simp add: derive_contract_invoice_match_reasons_def validator_defs non_blank_iff lit_def
        py_isspace_def)
  then show ?thesis
    using match_reasons_agree_with_candidate
      [of "sample_contract 2 (PyStr (lit ''T1''))" sample_invoice r]
    by (simp add: sample_invoice_def sample_contract_def)
qed

end
