(* ===== verification/ContractEffectivity.thy ===== *)
theory ContractEffectivity
  imports PyValue "HOL-Library.AList"
begin

text \<open>
  \<open>app/services/contract_effectivity.py\<close>: which fields of a contract are in force at a baseline date,
  after the changes of its supplementary agreements. A mapping is an association list with distinct
  keys, in the order of a Python dict.
\<close>

datatype agreement_status = AGREEMENT_DRAFT | PENDING_CONFIRMATION | AGREEMENT_CONFIRMED
  | AGREEMENT_REJECTED | AGREEMENT_ARCHIVED

datatype confirmation_status = UNCONFIRMED | CONFIRMED | REJECTED

section \<open>Field values\<close>

text \<open>
  A field value: a scalar, a float (its dyadic value \<open>m * 2 ^ e\<close>, or none when it is not finite), a
  mapping (frozen when it is a \<open>MappingProxyType\<close>) or a sequence (frozen when it is a tuple).
\<close>

datatype field_value =
    Scalar pyval
  | FloatNum "(int \<times> int) option"
  | Object bool "(pyval \<times> field_value) list"
  | Items bool "field_value list"

text \<open>\<open>_freeze_field_value\<close>: deep-freeze the containers, refuse what is not finite or not supported.\<close>

fun freeze :: "field_value \<Rightarrow> field_value result"
  and freeze_members :: "(pyval \<times> field_value) list \<Rightarrow> (pyval \<times> field_value) list result"
  and freeze_items :: "field_value list \<Rightarrow> field_value list result" where
  "freeze (Scalar v) = (case v of
       PyOther _ \<Rightarrow> Inl (ValueError ''contract field value type is not supported'')
     | PyDecimal d \<Rightarrow> if is_finite d then Inr (Scalar v)
         else Inl (ValueError ''contract field values must be finite'')
     | _ \<Rightarrow> Inr (Scalar v))"
| "freeze (FloatNum x) = (case x of
       None \<Rightarrow> Inl (ValueError ''contract field values must be finite'')
     | Some _ \<Rightarrow> Inr (FloatNum x))"
| "freeze (Object _ ms) = bind_result (freeze_members ms) (\<lambda>ms'. Inr (Object True ms'))"
| "freeze (Items _ vs) = bind_result (freeze_items vs) (\<lambda>vs'. Inr (Items True vs'))"
| "freeze_members [] = Inr []"
| "freeze_members ((k, v) # ms) = (case k of
       PyStr _ \<Rightarrow> bind_result (freeze v) (\<lambda>v'. bind_result (freeze_members ms) (\<lambda>ms'. Inr ((k, v') # ms')))
     | _ \<Rightarrow> Inl (ValueError ''contract field object keys must be exact str values''))"
| "freeze_items [] = Inr []"
| "freeze_items (v # vs) =
     bind_result (freeze v) (\<lambda>v'. bind_result (freeze_items vs) (\<lambda>vs'. Inr (v' # vs')))"

text \<open>\<open>_materialize_field_value\<close>: mappings become dicts, tuples lists; anything else is kept.\<close>

fun materialize :: "field_value \<Rightarrow> field_value" where
  "materialize (Object _ ms) = Object False (map (\<lambda>(k, v). (k, materialize v)) ms)"
| "materialize (Items True vs) = Items False (map materialize vs)"
| "materialize v = v"

text \<open>Values without a mutable container, and values without a frozen one.\<close>

fun deep_frozen :: "field_value \<Rightarrow> bool" where
  "deep_frozen (Object frozen ms) = (frozen \<and> list_all (\<lambda>(_, v). deep_frozen v) ms)"
| "deep_frozen (Items frozen vs) = (frozen \<and> list_all deep_frozen vs)"
| "deep_frozen _ = True"

fun deep_mutable :: "field_value \<Rightarrow> bool" where
  "deep_mutable (Object frozen ms) = (\<not> frozen \<and> list_all (\<lambda>(_, v). deep_mutable v) ms)"
| "deep_mutable (Items frozen vs) = (\<not> frozen \<and> list_all deep_mutable vs)"
| "deep_mutable _ = True"

lemma freeze_facts:
  "freeze v = Inr w \<Longrightarrow> freeze w = Inr w \<and> deep_frozen w \<and> freeze (materialize w) = Inr w
     \<and> deep_mutable (materialize w)"
  "freeze_members ms = Inr ns \<Longrightarrow> freeze_members ns = Inr ns \<and> list_all (\<lambda>(_, v). deep_frozen v) ns
     \<and> freeze_members (map (\<lambda>(k, v). (k, materialize v)) ns) = Inr ns
     \<and> list_all (\<lambda>(_, v). deep_mutable v) (map (\<lambda>(k, v). (k, materialize v)) ns)"
  "freeze_items vs = Inr ws \<Longrightarrow> freeze_items ws = Inr ws \<and> list_all deep_frozen ws
     \<and> freeze_items (map materialize ws) = Inr ws \<and> list_all deep_mutable (map materialize ws)"
  by (induction v and ms and vs arbitrary: w and ns and ws
      rule: freeze_freeze_members_freeze_items.induct)
    (auto split: pyval.splits option.splits if_splits)

section \<open>Changes\<close>

definition validate_field_code :: "pyval \<Rightarrow> pystr result" where
  "validate_field_code v = (case v of
       PyStr s \<Rightarrow> if non_blank s then Inr s else Inl (ValueError ''field_code must be a non-empty exact str'')
     | _ \<Rightarrow> Inl (ValueError ''field_code must be a non-empty exact str''))"

text \<open>\<open>_validate_effectivity_inputs\<close>; the statuses are enumerations.\<close>

definition validate_effectivity_inputs :: "pyval \<Rightarrow> pyval \<Rightarrow> unit result" where
  "validate_effectivity_inputs effective_date baseline_date = all_checks
     [validate_exact_date effective_date ''effective_date'',
      validate_exact_date baseline_date ''baseline_date'']"

definition is_supplementary_change_effective ::
  "agreement_status \<Rightarrow> confirmation_status \<Rightarrow> confirmation_status \<Rightarrow> pyval \<Rightarrow> pyval \<Rightarrow> bool result" where
  "is_supplementary_change_effective agreement agreement_confirmation change_confirmation
       effective_date baseline_date =
     bind_result (validate_effectivity_inputs effective_date baseline_date) (\<lambda>_.
       Inr (agreement = AGREEMENT_CONFIRMED \<and> agreement_confirmation = CONFIRMED
         \<and> change_confirmation = CONFIRMED \<and> date_of effective_date \<le> date_of baseline_date))"

record field_change =
  change_agreement_id :: uuid
  change_field_code :: pystr
  change_new_value :: field_value
  change_agreement_status :: agreement_status
  change_agreement_confirmation :: confirmation_status
  change_confirmation :: confirmation_status
  change_effective_date :: date

text \<open>\<open>SupplementaryFieldChange.__post_init__\<close>.\<close>

definition new_field_change ::
  "pyval \<Rightarrow> pyval \<Rightarrow> field_value \<Rightarrow> agreement_status \<Rightarrow> confirmation_status \<Rightarrow> confirmation_status \<Rightarrow> pyval
   \<Rightarrow> field_change result" where
  "new_field_change agreement_id code v status confirmation change_conf effective_date =
     (case agreement_id of PyUuid u \<Rightarrow>
        bind_result (validate_field_code code) (\<lambda>code'.
        bind_result (validate_effectivity_inputs effective_date effective_date) (\<lambda>_.
        bind_result (freeze v) (\<lambda>v'.
        Inr \<lparr>change_agreement_id = u, change_field_code = code', change_new_value = v',
             change_agreement_status = status, change_agreement_confirmation = confirmation,
             change_confirmation = change_conf, change_effective_date = date_of effective_date\<rparr>)))
      | _ \<Rightarrow> Inl (ValueError ''agreement_id must be an exact uuid.UUID''))"

text \<open>What the constructor guarantees of a change.\<close>

definition valid_change :: "field_change \<Rightarrow> bool" where
  "valid_change c \<longleftrightarrow> non_blank (change_field_code c)
     \<and> freeze (change_new_value c) = Inr (change_new_value c)"

lemma new_field_change_valid: "new_field_change i code v s a k d = Inr c \<Longrightarrow> valid_change c"
  by (auto simp: new_field_change_def valid_change_def validate_field_code_def freeze_facts(1)
      split: pyval.splits if_splits)

section \<open>The projection\<close>

text \<open>A field's source: the original contract, or an agreement with its effective date.\<close>

type_synonym field_source = "(uuid \<times> date) option"

record projection =
  field_values :: "(pystr \<times> field_value) list"
  field_sources :: "(pystr \<times> field_source) list"
  applied_agreement_ids :: "uuid list"

text \<open>\<open>_copy_field_mapping\<close>.\<close>

definition copy_field_mapping :: "(pyval \<times> field_value) list \<Rightarrow> (pystr \<times> field_value) list result" where
  "copy_field_mapping = map_result (\<lambda>(k, v). bind_result (validate_field_code k) (\<lambda>code.
     bind_result (freeze v) (\<lambda>v'. Inr (code, v'))))"

text \<open>\<open>EffectiveFieldsProjection.__post_init__\<close>.\<close>

definition new_projection ::
  "(pystr \<times> field_value) list \<Rightarrow> (pystr \<times> field_source) list \<Rightarrow> uuid list \<Rightarrow> projection result" where
  "new_projection values sources ids =
     bind_result (copy_field_mapping (map (\<lambda>(k, v). (PyStr k, v)) values)) (\<lambda>values'.
     bind_result (map_result (\<lambda>(k, _). validate_field_code (PyStr k)) sources) (\<lambda>_.
     bind_result (check (fst ` set values' = fst ` set sources)
       ''field_values and field_sources must contain the same fields'') (\<lambda>_.
     bind_result (check (distinct ids) ''applied_agreement_ids must be unique'') (\<lambda>_.
     Inr \<lparr>field_values = values', field_sources = sources, applied_agreement_ids = ids\<rparr>))))"

definition materialize_field_values :: "projection \<Rightarrow> (pystr \<times> field_value) list" where
  "materialize_field_values p = map (\<lambda>(code, v). (code, materialize v)) (field_values p)"

text \<open>The first loop: one change per agreement and field, and one set of facts per agreement.\<close>

type_synonym agreement_facts = "agreement_status \<times> confirmation_status \<times> date"

definition facts_of :: "field_change \<Rightarrow> agreement_facts" where
  "facts_of c = (change_agreement_status c, change_agreement_confirmation c, change_effective_date c)"

fun scan_changes ::
  "(uuid \<times> pystr) list \<Rightarrow> (uuid \<rightharpoonup> agreement_facts) \<Rightarrow> field_change list \<Rightarrow> unit result" where
  "scan_changes seen facts [] = Inr ()"
| "scan_changes seen facts (c # cs) =
     (let i = change_agreement_id c; key = (i, change_field_code c); f = facts_of c in
      if key \<in> set seen then Inl (ValueError ''duplicate supplementary agreement field change'')
      else if (case facts i of None \<Rightarrow> f | Some g \<Rightarrow> g) \<noteq> f
      then Inl (ValueError ''supplementary agreement facts must be consistent'')
      else scan_changes (key # seen) (facts(i \<mapsto> f)) cs)"

text \<open>The statuses of an agreement's changes; it counts when all of them are confirmed.\<close>

definition change_statuses :: "field_change list \<Rightarrow> uuid \<Rightarrow> confirmation_status list" where
  "change_statuses cs i = map change_confirmation (filter (\<lambda>c. change_agreement_id c = i) cs)"

definition fully_confirmed :: "field_change list \<Rightarrow> uuid \<Rightarrow> bool" where
  "fully_confirmed cs i \<longleftrightarrow> change_statuses cs i \<noteq> [] \<and> list_all (\<lambda>s. s = CONFIRMED) (change_statuses cs i)"

fun filter_result :: "('a \<Rightarrow> bool result) \<Rightarrow> 'a list \<Rightarrow> 'a list result" where
  "filter_result f [] = Inr []"
| "filter_result f (x # xs) = bind_result (f x) (\<lambda>b.
     bind_result (filter_result f xs) (\<lambda>ys. Inr (if b then x # ys else ys)))"

definition conflict_key :: "field_change \<Rightarrow> pystr \<times> date \<times> uuid" where
  "conflict_key c = (change_field_code c, change_effective_date c, change_agreement_id c)"

definition replay_key :: "field_change \<Rightarrow> date \<times> uuid \<times> pystr" where
  "replay_key c = (change_effective_date c, change_agreement_id c, change_field_code c)"

definition applicable_changes :: "field_change list \<Rightarrow> pyval \<Rightarrow> field_change list result" where
  "applicable_changes cs baseline =
     bind_result (filter_result (\<lambda>c.
         if \<not> fully_confirmed cs (change_agreement_id c) then Inr False
         else is_supplementary_change_effective (change_agreement_status c)
           (change_agreement_confirmation c) (change_confirmation c)
           (PyDate (change_effective_date c)) baseline) cs)
       (\<lambda>xs. Inr (sort_key conflict_key xs))"

fun check_conflicts :: "(pystr \<times> date) list \<Rightarrow> field_change list \<Rightarrow> unit result" where
  "check_conflicts seen [] = Inr ()"
| "check_conflicts seen (c # cs) =
     (let key = (change_field_code c, change_effective_date c) in
      if key \<in> set seen then Inl (ValueError ''conflicting supplementary agreement field changes'')
      else check_conflicts (key # seen) cs)"

text \<open>The second loop: replay the changes over the values, the sources and the applied agreements.\<close>

fun replay_change ::
  "field_change \<Rightarrow> (pystr \<times> field_value) list \<times> (pystr \<times> field_source) list \<times> uuid list
   \<Rightarrow> (pystr \<times> field_value) list \<times> (pystr \<times> field_source) list \<times> uuid list" where
  "replay_change c (values, sources, ids) =
     (AList.update (change_field_code c) (change_new_value c) values,
      AList.update (change_field_code c) (Some (change_agreement_id c, change_effective_date c)) sources,
      if change_agreement_id c \<in> set ids then ids else ids @ [change_agreement_id c])"

definition project_effective_fields ::
  "(pyval \<times> field_value) list \<Rightarrow> field_change list \<Rightarrow> pyval \<Rightarrow> projection result" where
  "project_effective_fields original_fields changes baseline =
     bind_result (copy_field_mapping original_fields) (\<lambda>original.
     bind_result (validate_exact_date baseline ''baseline_date'') (\<lambda>_.
     bind_result (scan_changes [] Map.empty changes) (\<lambda>_.
     bind_result (applicable_changes changes baseline) (\<lambda>applicable.
     bind_result (check_conflicts [] applicable) (\<lambda>_.
     case fold replay_change (sort_key replay_key applicable)
         (original, map (\<lambda>(code, _). (code, None)) original, []) of
       (values, sources, ids) \<Rightarrow> new_projection values sources ids)))))"

section \<open>Lemmas\<close>

text \<open>The declarative reading: when a change takes effect at a date, and when a set is unambiguous.\<close>

definition takes_effect :: "field_change list \<Rightarrow> date \<Rightarrow> field_change \<Rightarrow> bool" where
  "takes_effect cs b c \<longleftrightarrow> c \<in> set cs \<and> change_agreement_status c = AGREEMENT_CONFIRMED
     \<and> change_agreement_confirmation c = CONFIRMED \<and> change_effective_date c \<le> b
     \<and> (\<forall>d \<in> set cs. change_agreement_id d = change_agreement_id c \<longrightarrow> change_confirmation d = CONFIRMED)"

definition consistent_changes :: "field_change list \<Rightarrow> bool" where
  "consistent_changes cs \<longleftrightarrow> distinct (map (\<lambda>c. (change_agreement_id c, change_field_code c)) cs)
     \<and> (\<forall>c \<in> set cs. \<forall>d \<in> set cs. change_agreement_id c = change_agreement_id d \<longrightarrow> facts_of c = facts_of d)"

definition unambiguous :: "field_change list \<Rightarrow> date \<Rightarrow> bool" where
  "unambiguous cs b \<longleftrightarrow> (\<forall>c d. takes_effect cs b c \<and> takes_effect cs b d
     \<and> change_field_code c = change_field_code d \<and> change_effective_date c = change_effective_date d \<longrightarrow> c = d)"

abbreviation change_key :: "field_change \<Rightarrow> uuid \<times> pystr" where
  "change_key c \<equiv> (change_agreement_id c, change_field_code c)"

abbreviation field_date :: "field_change \<Rightarrow> pystr \<times> date" where
  "field_date c \<equiv> (change_field_code c, change_effective_date c)"

lemma consistent_changes_Cons:
  "consistent_changes (c # cs) \<longleftrightarrow> consistent_changes cs \<and> change_key c \<notin> change_key ` set cs
     \<and> (\<forall>d \<in> set cs. change_agreement_id d = change_agreement_id c \<longrightarrow> facts_of d = facts_of c)"
  by (auto simp: consistent_changes_def image_iff)

lemma scan_changes_ok:
  "scan_changes seen facts cs = Inr () \<longleftrightarrow> consistent_changes cs
     \<and> (\<forall>c \<in> set cs. change_key c \<notin> set seen)
     \<and> (\<forall>c \<in> set cs. facts (change_agreement_id c) \<in> {None, Some (facts_of c)})"
proof (induction cs arbitrary: seen facts)
  case Nil
  then show ?case by (simp add: consistent_changes_def)
next
  case (Cons c cs)
  let ?i = "change_agreement_id c"
  have "(\<forall>d \<in> set cs. (facts(?i \<mapsto> facts_of c)) (change_agreement_id d) \<in> {None, Some (facts_of d)})
      \<longleftrightarrow> (\<forall>d \<in> set cs. change_agreement_id d = ?i \<longrightarrow> facts_of d = facts_of c)
        \<and> (\<forall>d \<in> set cs. change_agreement_id d \<noteq> ?i \<longrightarrow> facts (change_agreement_id d) \<in> {None, Some (facts_of d)})"
    by auto
  moreover have "(\<forall>d \<in> set cs. change_agreement_id d = ?i \<longrightarrow> facts_of d = facts_of c)
      \<Longrightarrow> facts ?i \<in> {None, Some (facts_of c)} \<Longrightarrow>
        (\<forall>d \<in> set cs. change_agreement_id d \<noteq> ?i \<longrightarrow> facts (change_agreement_id d) \<in> {None, Some (facts_of d)})
        = (\<forall>d \<in> set cs. facts (change_agreement_id d) \<in> {None, Some (facts_of d)})"
    by metis
  moreover have "((case facts ?i of None \<Rightarrow> facts_of c | Some g \<Rightarrow> g) = facts_of c)
      \<longleftrightarrow> facts ?i \<in> {None, Some (facts_of c)}"
    by (auto split: option.splits)
  moreover have "(\<forall>d \<in> set cs. change_key d \<notin> set (change_key c # seen))
      \<longleftrightarrow> change_key c \<notin> change_key ` set cs \<and> (\<forall>d \<in> set cs. change_key d \<notin> set seen)"
    by (auto simp: image_iff)
  ultimately show ?case
    by (simp add: Cons.IH consistent_changes_Cons Let_def del: fun_upd_apply insert_iff list.set) auto
qed

lemma check_conflicts_ok:
  "check_conflicts seen cs = Inr () \<longleftrightarrow> distinct (map field_date cs) \<and> (\<forall>c \<in> set cs. field_date c \<notin> set seen)"
  by (induction cs arbitrary: seen) (auto simp: Let_def image_iff)

lemma filter_result_Inr: "filter_result (\<lambda>x. Inr (P x)) xs = Inr (filter P xs)"
  by (induction xs) simp_all

lemma filter_result_cong:
  "(\<And>x. x \<in> set xs \<Longrightarrow> f x = g x) \<Longrightarrow> filter_result f xs = filter_result g xs"
  by (induction xs) simp_all

lemma applicable_changes_eq:
  "applicable_changes cs (PyDate b) = Inr (sort_key conflict_key (filter (takes_effect cs b) cs))"
proof -
  have "filter_result (\<lambda>c.
         if \<not> fully_confirmed cs (change_agreement_id c) then Inr False
         else is_supplementary_change_effective (change_agreement_status c)
           (change_agreement_confirmation c) (change_confirmation c)
           (PyDate (change_effective_date c)) (PyDate b)) cs = filter_result (\<lambda>c. Inr (takes_effect cs b c)) cs"
    by (rule filter_result_cong)
      (auto simp: takes_effect_def fully_confirmed_def change_statuses_def list_all_iff filter_empty_conv
        is_supplementary_change_effective_def validate_effectivity_inputs_def validator_defs
        all_checks.simps check_def)
  then show ?thesis by (simp add: applicable_changes_def filter_result_Inr)
qed

text \<open>What a replay leaves: per field the last change of it, over the original values.\<close>

lemma replay_result:
  assumes "fold replay_change cs (values, sources, ids) = (values', sources', ids')"
  shows "map_of values' code = (case find (\<lambda>c. change_field_code c = code) (rev cs) of
      Some c \<Rightarrow> Some (change_new_value c) | None \<Rightarrow> map_of values code)
    \<and> map_of sources' code = (case find (\<lambda>c. change_field_code c = code) (rev cs) of
      Some c \<Rightarrow> Some (Some (change_agreement_id c, change_effective_date c)) | None \<Rightarrow> map_of sources code)
    \<and> set ids' = set ids \<union> change_agreement_id ` set cs
    \<and> (distinct ids \<longrightarrow> distinct ids')
    \<and> fst ` set values' = fst ` set values \<union> change_field_code ` set cs
    \<and> fst ` set sources' = fst ` set sources \<union> change_field_code ` set cs
    \<and> set values' \<subseteq> set values \<union> (\<lambda>c. (change_field_code c, change_new_value c)) ` set cs"
  using assms
proof (induction cs arbitrary: values' sources' ids' rule: rev_induct)
  case Nil
  then show ?case by simp
next
  case (snoc c cs)
  obtain v s i where f: "fold replay_change cs (values, sources, ids) = (v, s, i)"
    by (metis prod_cases3)
  have sub: "set (AList.update k x al) \<subseteq> insert (k, x) (set al)" for k :: pystr and x :: field_value and al
    by (induction al) auto
  note IH = snoc.IH [OF f]
  let ?k = "change_field_code c"
  have new: "values' = AList.update ?k (change_new_value c) v"
    "sources' = AList.update ?k (Some (change_agreement_id c, change_effective_date c)) s"
    "ids' = (if change_agreement_id c \<in> set i then i else i @ [change_agreement_id c])"
    using snoc.prems f by auto
  show ?case
  proof (intro conjI)
    show "distinct ids \<longrightarrow> distinct ids'" using IH by (simp add: new)
    show "set ids' = set ids \<union> change_agreement_id ` set (cs @ [c])" using IH by (auto simp: new)
    show "set values' \<subseteq> set values \<union> (\<lambda>c. (change_field_code c, change_new_value c)) ` set (cs @ [c])"
      using IH sub [of ?k "change_new_value c" v] by (auto simp: new)
  qed (use IH in \<open>simp_all add: new AList.update_conv' AList.dom_update\<close>)
qed

lemma find_rev_sorted:
  assumes "sorted (map key xs)" and "find P (rev xs) = Some y" and "x \<in> set xs" and "P x"
  shows "key x \<le> key y"
  using assms
proof (induction xs rule: rev_induct)
  case Nil
  then show ?case by simp
next
  case (snoc z xs)
  then show ?case by (auto simp: sorted_append split: if_splits)
qed

definition frozen_entry :: "pystr \<times> field_value \<Rightarrow> bool" where
  "frozen_entry e \<longleftrightarrow> non_blank (fst e) \<and> freeze (snd e) = Inr (snd e)"

lemma copy_field_mapping_frozen: "copy_field_mapping xs = Inr ys \<Longrightarrow> list_all frozen_entry ys"
proof -
  assume "copy_field_mapping xs = Inr ys"
  then have "list_all2 (\<lambda>(k, v) y. frozen_entry y) xs ys"
    unfolding copy_field_mapping_def map_result_ok
    by (rule list_all2_mono)
      (auto simp: frozen_entry_def validate_field_code_def freeze_facts(1) split: pyval.splits if_splits)
  then show ?thesis by (induction rule: list_all2_induct) auto
qed

lemma copy_field_mapping_again:
  "list_all frozen_entry ys \<Longrightarrow> copy_field_mapping (map (\<lambda>(k, v). (PyStr k, v)) ys) = Inr ys"
  by (induction ys) (auto simp: copy_field_mapping_def validate_field_code_def frozen_entry_def)

text \<open>The replay order does not depend on the order in which the changes were given.\<close>

interpretation replay: ranking replay_key change_key
  by unfold_locales (simp add: replay_key_def)

definition replayed :: "field_change list \<Rightarrow> date \<Rightarrow> field_change list" where
  "replayed cs b = sort_key replay_key (filter (takes_effect cs b) cs)"

lemma takes_effect_mset: "mset cs = mset ds \<Longrightarrow> takes_effect cs b = takes_effect ds b"
  using mset_eq_setD [of cs ds] by (simp add: takes_effect_def fun_eq_iff)

lemma consistent_changes_mset: "mset cs = mset ds \<Longrightarrow> consistent_changes cs = consistent_changes ds"
  using mset_eq_setD [of cs ds] mset_eq_imp_distinct_iff [of "map change_key cs" "map change_key ds"]
  by (simp add: consistent_changes_def)

lemma replayed_mset:
  assumes "consistent_changes cs" and "mset cs = mset ds"
  shows "replayed cs b = replayed ds b"
  unfolding replayed_def takes_effect_mset [OF assms(2)]
proof (rule replay.rank_order_independent)
  show "distinct (map change_key (filter (takes_effect ds b) cs))"
    using assms(1) by (simp add: consistent_changes_def distinct_map_filter)
  show "mset (filter (takes_effect ds b) cs) = mset (filter (takes_effect ds b) ds)"
    using assms(2) by simp
qed

text \<open>The result of a projection whose checks pass, and when they do.\<close>

lemma set_replayed: "set (replayed cs b) = {c. takes_effect cs b c}"
  by (auto simp: replayed_def takes_effect_def)

lemma unambiguous_distinct:
  assumes "consistent_changes cs"
  shows "unambiguous cs b \<longleftrightarrow> distinct (map field_date (filter (takes_effect cs b) cs))"
proof -
  have "distinct cs" using assms by (auto simp: consistent_changes_def distinct_map)
  then show ?thesis
    by (auto simp: unambiguous_def distinct_map inj_on_def takes_effect_def)
qed

definition base_sources :: "(pystr \<times> field_value) list \<Rightarrow> (pystr \<times> field_source) list" where
  "base_sources values = map (\<lambda>(code, _). (code, None)) values"

lemma project_outcome:
  assumes copy: "copy_field_mapping original = Inr values" and valid: "list_all valid_change cs"
  shows "project_effective_fields original cs (PyDate b) =
    (if \<not> consistent_changes cs then Inl (projl (scan_changes [] Map.empty cs))
     else if \<not> unambiguous cs b
     then Inl (ValueError ''conflicting supplementary agreement field changes'')
     else case fold replay_change (replayed cs b) (values, base_sources values, []) of
       (values', sources', ids) \<Rightarrow>
         Inr \<lparr>field_values = values', field_sources = sources', applied_agreement_ids = ids\<rparr>)"
proof (cases "consistent_changes cs")
  case False
  then have "scan_changes [] Map.empty cs \<noteq> Inr ()" by (simp add: scan_changes_ok)
  then show ?thesis
    using False copy by (cases "scan_changes [] Map.empty cs")
      (simp_all add: project_effective_fields_def validator_defs check_def)
next
  case True
  then have scan: "scan_changes [] Map.empty cs = Inr ()" by (simp add: scan_changes_ok)
  let ?xs = "sort_key conflict_key (filter (takes_effect cs b) cs)"
  have conf: "check_conflicts [] ?xs = Inr () \<longleftrightarrow> unambiguous cs b"
    using unambiguous_distinct [OF True]
      mset_eq_imp_distinct_iff [of "map field_date ?xs" "map field_date (filter (takes_effect cs b) cs)"]
    by (simp add: check_conflicts_ok)
  have err: "check_conflicts seen ys \<noteq> Inr () \<Longrightarrow>
      check_conflicts seen ys = Inl (ValueError ''conflicting supplementary agreement field changes'')"
    for seen ys by (induction seen ys rule: check_conflicts.induct) (auto simp: Let_def)
  have sorted: "sort_key replay_key ?xs = replayed cs b"
    unfolding replayed_def
  proof (rule replay.rank_order_independent)
    have "distinct (map change_key (filter (takes_effect cs b) cs))"
      using True by (simp add: consistent_changes_def distinct_map_filter)
    then show "distinct (map change_key ?xs)" by (simp add: distinct_map)
  qed simp
  obtain v s i where f: "fold replay_change (replayed cs b) (values, base_sources values, []) = (v, s, i)"
    by (metis prod_cases3)
  note r = replay_result [OF f]
  have "set v \<subseteq> set values \<union> (\<lambda>c. (change_field_code c, change_new_value c)) ` set (replayed cs b)"
    using r by blast
  moreover have "\<forall>e \<in> set values. frozen_entry e"
    using copy_field_mapping_frozen [OF copy] by (simp add: list_all_iff)
  moreover have "\<forall>c \<in> set (replayed cs b). frozen_entry (change_field_code c, change_new_value c)"
    using valid by (simp add: set_replayed takes_effect_def list_all_iff frozen_entry_def valid_change_def)
  ultimately have entries: "list_all frozen_entry v" unfolding list_all_iff by blast
  have "fst ` set (base_sources values) = fst ` set values"
    by (simp add: base_sources_def image_image case_prod_beta)
  then have keys: "fst ` set v = fst ` set s" using r by simp
  have blank: "non_blank (fst e)" if "e \<in> set s" for e
  proof -
    have "fst e \<in> fst ` set v" unfolding keys using that by simp
    then obtain e' where "e' \<in> set v" "fst e' = fst e" by auto
    then show ?thesis using entries by (auto simp: list_all_iff frozen_entry_def)
  qed
  have "is_ok (map_result (\<lambda>(k, _). validate_field_code (PyStr k)) s)"
    by (rule map_result_total) (use blank in \<open>force simp: validate_field_code_def\<close>)
  moreover have "distinct i" using r by simp
  ultimately have "new_projection v s i
      = Inr \<lparr>field_values = v, field_sources = s, applied_agreement_ids = i\<rparr>"
    using keys copy_field_mapping_again [OF entries] by (auto simp: new_projection_def is_ok_iff check_def)
  then show ?thesis
    using True copy scan conf err [of "[]" ?xs] sorted f
    by (simp add: project_effective_fields_def applicable_changes_eq base_sources_def validator_defs check_def)
qed

lemma latest_replayed:
  assumes c: "takes_effect cs b c" and un: "unambiguous cs b"
    and max: "\<forall>d. takes_effect cs b d \<and> change_field_code d = change_field_code c
          \<longrightarrow> change_effective_date d \<le> change_effective_date c"
  shows "find (\<lambda>d. change_field_code d = change_field_code c) (rev (replayed cs b)) = Some c"
proof -
  have "find (\<lambda>d. change_field_code d = change_field_code c) (rev (replayed cs b)) \<noteq> None"
    using c by (auto simp: find_None_iff set_replayed)
  then obtain d where d: "find (\<lambda>d. change_field_code d = change_field_code c) (rev (replayed cs b)) = Some d"
    by blast
  then have d': "takes_effect cs b d" "change_field_code d = change_field_code c"
    using set_replayed [of cs b] by (auto simp: find_Some_iff in_set_conv_nth) (metis nth_mem set_rev length_rev mem_Collect_eq)
  have "sorted (map replay_key (replayed cs b))" "c \<in> set (replayed cs b)"
    using c by (simp_all add: set_replayed) (simp add: replayed_def)
  then have "replay_key c \<le> replay_key d" by (rule find_rev_sorted [OF _ d]) simp
  then have "change_effective_date c \<le> change_effective_date d"
    by (auto simp: replay_key_def less_eq_prod_def)
  then show ?thesis using d d' max c un by (force simp: unambiguous_def)
qed

lemma projection_ok:
  assumes "list_all valid_change cs"
  shows "is_ok (project_effective_fields original cs (PyDate b)) \<longleftrightarrow>
      is_ok (copy_field_mapping original) \<and> consistent_changes cs \<and> unambiguous cs b"
proof (cases "copy_field_mapping original")
  case (Inl e)
  then show ?thesis by (simp add: project_effective_fields_def)
next
  case (Inr base)
  show ?thesis
    unfolding project_outcome [OF Inr assms] using Inr by (auto split: prod.splits)
qed

section \<open>Properties\<close>

text \<open>A value that the code has frozen has no mutable container left, freezing it again changes
nothing, and handing it out as fresh dicts and lists loses nothing: the copy has no frozen container,
and freezing the copy gives the value back.\<close>

theorem field_values_isolated:
  assumes "freeze v = Inr w"
  shows "deep_frozen w \<and> freeze w = Inr w \<and> deep_mutable (materialize w)
    \<and> freeze (materialize w) = Inr w"
  using freeze_facts(1) [OF assms] by simp

theorem field_values_isolated_witness:
  "freeze (materialize (Object True [(PyStr [97], Items True [Scalar (PyInt 3)])]))
   = Inr (Object True [(PyStr [97], Items True [Scalar (PyInt 3)])])"
  using field_values_isolated [of "Object False [(PyStr [97], Items False [Scalar (PyInt 3)])]"
      "Object True [(PyStr [97], Items True [Scalar (PyInt 3)])]"] by simp

text \<open>C24. The effective fields of a contract at a date, for changes built by their constructor, are
refused exactly when an original field is invalid, a change is given twice for one agreement and field,
an agreement's facts disagree, or two changes that take effect set one field from the same date.\<close>

theorem effective_fields_defined:
  assumes "list_all valid_change cs"
  shows "(\<exists>p. project_effective_fields original cs (PyDate b) = Inr p) \<longleftrightarrow>
      (\<exists>values. copy_field_mapping original = Inr values) \<and> consistent_changes cs \<and> unambiguous cs b"
  using projection_ok [OF assms, of original b] by (simp add: is_ok_iff)

text \<open>C23. When the effective fields exist, a field has the value and source of the latest change of it
that takes effect (confirmed agreement, all of its changes confirmed, effective date reached); a field
without such a change keeps its original value and has no agreement as its source; and exactly the
agreements of such changes are reported, each once.\<close>

theorem effective_fields_latest:
  assumes valid: "list_all valid_change cs" and copy: "copy_field_mapping original = Inr values"
    and p: "project_effective_fields original cs (PyDate b) = Inr p"
  shows "(\<forall>c. takes_effect cs b c \<and> (\<forall>d. takes_effect cs b d \<and> change_field_code d = change_field_code c
          \<longrightarrow> change_effective_date d \<le> change_effective_date c) \<longrightarrow>
        map_of (field_values p) (change_field_code c) = Some (change_new_value c)
        \<and> map_of (field_sources p) (change_field_code c)
          = Some (Some (change_agreement_id c, change_effective_date c)))
      \<and> (\<forall>code. code \<notin> change_field_code ` {c. takes_effect cs b c} \<longrightarrow>
        map_of (field_values p) code = map_of values code
        \<and> map_of (field_sources p) code = map_option (\<lambda>_. None) (map_of values code))
      \<and> set (applied_agreement_ids p) = change_agreement_id ` {c. takes_effect cs b c}
      \<and> distinct (applied_agreement_ids p)"
proof -
  have ok: "consistent_changes cs" "unambiguous cs b"
    using projection_ok [OF valid, of original b] p by simp_all
  obtain v s i where f: "fold replay_change (replayed cs b) (values, base_sources values, []) = (v, s, i)"
    by (metis prod_cases3)
  with p ok have p': "field_values p = v" "field_sources p = s" "applied_agreement_ids p = i"
    by (auto simp: project_outcome [OF copy valid])
  note r = replay_result [OF f]
  have "find (\<lambda>c. change_field_code c = code) (rev (replayed cs b)) = None"
    if "code \<notin> change_field_code ` {c. takes_effect cs b c}" for code
    using that by (auto simp: find_None_iff set_replayed)
  moreover have "map_of (base_sources values) code = map_option (\<lambda>_. None) (map_of values code)" for code
    unfolding base_sources_def by (induction \<open>values\<close>) auto
  ultimately show ?thesis
    using r latest_replayed [OF _ ok(2)] by (auto simp: p' set_replayed)
qed

text \<open>The effective fields do not depend on the order in which the changes are read: any two orders
of the same changes are accepted together and give the same projection.\<close>

theorem effective_fields_order:
  assumes valid: "list_all valid_change cs" and same: "mset cs = mset ds"
  shows "project_effective_fields original cs (PyDate b) = Inr p
    \<longleftrightarrow> project_effective_fields original ds (PyDate b) = Inr p"
proof (cases "copy_field_mapping original")
  case (Inl e)
  then show ?thesis by (simp add: project_effective_fields_def)
next
  case (Inr base)
  have "list_all valid_change ds" using valid mset_eq_setD [OF same] by (simp add: list_all_iff)
  note out = project_outcome [OF Inr valid, of b] project_outcome [OF Inr this, of b]
  have "unambiguous cs b = unambiguous ds b"
    by (simp add: unambiguous_def takes_effect_mset [OF same])
  then show ?thesis
    using consistent_changes_mset [OF same] replayed_mset [OF _ same, of b]
      scan_changes_ok [of "[]" Map.empty cs] scan_changes_ok [of "[]" Map.empty ds]
    by (simp add: out)
qed

section \<open>Examples\<close>

definition sample_change :: "uuid \<Rightarrow> int \<Rightarrow> date \<Rightarrow> field_change" where
  "sample_change i n d = \<lparr>change_agreement_id = i, change_field_code = lit ''amount'',
     change_new_value = Scalar (PyInt n), change_agreement_status = AGREEMENT_CONFIRMED,
     change_agreement_confirmation = CONFIRMED, change_confirmation = CONFIRMED,
     change_effective_date = d\<rparr>"

definition sample_changes :: "field_change list" where
  "sample_changes = [sample_change 2 150 (Date 2026 3 1), sample_change 1 120 (Date 2026 2 1)]"

definition sample_original :: "(pyval \<times> field_value) list" where
  "sample_original = [(PyStr (lit ''amount''), Scalar (PyInt 100)), (PyStr (lit ''city''), Scalar PyNone)]"

lemma sample_changes_valid: "list_all valid_change sample_changes"
  by (simp add: sample_changes_def sample_change_def valid_change_def non_blank_iff lit_def py_isspace_def)

lemma sample_changes_consistent:
  "consistent_changes sample_changes" "unambiguous sample_changes (Date 2026 2 15)"
proof -
  show "consistent_changes sample_changes"
    by (simp add: sample_changes_def sample_change_def consistent_changes_def)
  then show "unambiguous sample_changes (Date 2026 2 15)"
    unfolding unambiguous_distinct [OF \<open>consistent_changes sample_changes\<close>]
    by (simp add: sample_changes_def sample_change_def)
qed

lemma sample_original_copied:
  "copy_field_mapping sample_original
   = Inr [(lit ''amount'', Scalar (PyInt 100)), (lit ''city'', Scalar PyNone)]"
  by (simp add: copy_field_mapping_def sample_original_def validate_field_code_def non_blank_iff lit_def
      py_isspace_def)

theorem effective_fields_defined_witness:
  "\<exists>p. project_effective_fields sample_original sample_changes (PyDate (Date 2026 2 15)) = Inr p"
  using effective_fields_defined [OF sample_changes_valid, of sample_original "Date 2026 2 15"]
    sample_changes_consistent sample_original_copied
  by blast

theorem effective_fields_latest_witness:
  "\<exists>p. project_effective_fields sample_original sample_changes (PyDate (Date 2026 2 15)) = Inr p
    \<and> map_of (field_values p) (lit ''amount'') = Some (Scalar (PyInt 120))
    \<and> applied_agreement_ids p \<noteq> []"
proof -
  have "is_ok (project_effective_fields sample_original sample_changes (PyDate (Date 2026 2 15)))"
    using projection_ok [OF sample_changes_valid] sample_changes_consistent sample_original_copied by simp
  then obtain p where p: "project_effective_fields sample_original sample_changes (PyDate (Date 2026 2 15)) = Inr p"
    by (auto simp: is_ok_iff)
  let ?c = "sample_change 1 120 (Date 2026 2 1)"
  have c: "takes_effect sample_changes (Date 2026 2 15) d \<longleftrightarrow> d = ?c" for d
    by (auto simp: takes_effect_def sample_changes_def sample_change_def)
  show ?thesis
    using effective_fields_latest [OF sample_changes_valid sample_original_copied p] p
    by (auto simp: c) (simp_all add: sample_change_def)
qed

theorem effective_fields_order_witness:
  "project_effective_fields sample_original (rev sample_changes) (PyDate (Date 2026 2 15))
   = project_effective_fields sample_original sample_changes (PyDate (Date 2026 2 15))"
proof -
  have "is_ok (project_effective_fields sample_original sample_changes (PyDate (Date 2026 2 15)))"
    using projection_ok [OF sample_changes_valid] sample_changes_consistent sample_original_copied by simp
  then obtain p where p: "project_effective_fields sample_original sample_changes (PyDate (Date 2026 2 15)) = Inr p"
    by (auto simp: is_ok_iff)
  have "mset sample_changes = mset (rev sample_changes)" by simp
  from effective_fields_order [OF sample_changes_valid this, of sample_original "Date 2026 2 15" p] p
  have "project_effective_fields sample_original (rev sample_changes) (PyDate (Date 2026 2 15)) = Inr p"
    by simp
  then show ?thesis by (simp add: p)
qed

end
