(* ===== verification/AiPricing.thy ===== *)
theory AiPricing
  imports PyValue
begin

text \<open>
  \<open>app/ai/pricing.py\<close>: versioned prices, budgets, the worst-case reservation made before a provider
  request and the reconciliation after it. Counts and prices are Python integers; the functions take
  them as dynamic values, since each one checks that it was given a non-negative integer and not a bool.
  Version 2 adds the currency.
\<close>

datatype billing_mode = EXTERNAL_USD | EXTERNAL_CNY | INTERNAL_UNMETERED

datatype cost_currency = USD | CNY

definition tokens_per_million :: int where "tokens_per_million = 1000000"

section \<open>Guards\<close>

definition require_non_empty :: "string \<Rightarrow> pyval \<Rightarrow> pystr result" where
  "require_non_empty name v = (case v of
       PyStr s \<Rightarrow> if non_blank s then Inr s else Inl (ValueError (name @ '' must be a non-empty string''))
     | _ \<Rightarrow> Inl (ValueError (name @ '' must be a non-empty string'')))"

definition require_non_negative_integer :: "string \<Rightarrow> pyval \<Rightarrow> int result" where
  "require_non_negative_integer name v = (case v of
       PyInt n \<Rightarrow> if 0 \<le> n then Inr n
         else Inl (ValueError (name @ '' must be a non-negative integer''))
     | _ \<Rightarrow> Inl (ValueError (name @ '' must be a non-negative integer'')))"

text \<open>Values that pass the guard of counts.\<close>

definition is_count :: "pyval \<Rightarrow> bool" where
  "is_count v \<longleftrightarrow> (case v of PyInt n \<Rightarrow> 0 \<le> n | _ \<Rightarrow> False)"

fun int_of :: "pyval \<Rightarrow> int" where
  "int_of (PyInt n) = n"
| "int_of _ = 0"

lemma require_count_ok [simp]:
  "require_non_negative_integer name v = Inr n \<longleftrightarrow> is_count v \<and> n = int_of v"
  by (cases v) (auto simp: require_non_negative_integer_def is_count_def)

lemma is_count_PyInt [simp]: "is_count (PyInt n) \<longleftrightarrow> 0 \<le> n"
  by (simp add: is_count_def)

lemma is_count_int_of [simp]: "is_count v \<Longrightarrow> 0 \<le> int_of v"
  by (cases v) (simp_all add: is_count_def)

lemma require_text_ok [simp]:
  "require_non_empty name v = Inr s \<longleftrightarrow> v = PyStr s \<and> non_blank s"
  by (cases v) (auto simp: require_non_empty_def)

text \<open>The loop over named counts: the first one that is not a count is reported.\<close>

definition require_counts :: "(string \<times> pyval) list \<Rightarrow> unit result" where
  "require_counts named = all_checks
     (map (\<lambda>(name, v). bind_result (require_non_negative_integer name v) (\<lambda>_. Inr ())) named)"

lemma require_counts_ok [simp]:
  "require_counts named = Inr u \<longleftrightarrow> list_all (\<lambda>(_, v). is_count v) named"
  by (auto simp: require_counts_def list_all_iff is_ok_iff)

definition guard :: "bool \<Rightarrow> string \<Rightarrow> 'a result \<Rightarrow> 'a result" where
  "guard bad msg r = (if bad then Inl (ValueError msg) else r)"

lemma guard_ok [simp]: "guard bad msg r = Inr x \<longleftrightarrow> \<not> bad \<and> r = Inr x"
  by (simp add: guard_def)

section \<open>Version 1\<close>

record pricing_profile =
  pricing_version :: pystr
  pricing_mode :: billing_mode
  input_price :: int
  output_price :: int

text \<open>\<open>PricingProfile.__post_init__\<close>.\<close>

definition new_pricing_profile :: "pyval \<Rightarrow> billing_mode \<Rightarrow> pyval \<Rightarrow> pyval \<Rightarrow> pricing_profile result" where
  "new_pricing_profile version mode input_p output_p =
     bind_result (require_non_empty ''pricing_version'' version) (\<lambda>version'.
     guard (mode = EXTERNAL_CNY) ''PricingProfile v1 only supports USD or internal unmetered''
     (bind_result (require_non_negative_integer ''input_price_micro_usd_per_million'' input_p) (\<lambda>inp.
      bind_result (require_non_negative_integer ''output_price_micro_usd_per_million'' output_p) (\<lambda>outp.
      guard (mode = INTERNAL_UNMETERED \<and> (inp \<noteq> 0 \<or> outp \<noteq> 0))
        ''internal_unmetered prices must both be zero''
        (Inr \<lparr>pricing_version = version', pricing_mode = mode, input_price = inp, output_price = outp\<rparr>)))))"

text \<open>\<open>calculate_request_cost_micro_usd\<close>: the exact price of the tokens, rounded up.\<close>

definition request_cost :: "billing_mode \<Rightarrow> int \<Rightarrow> int \<Rightarrow> int \<Rightarrow> int \<Rightarrow> int" where
  "request_cost mode inp outp input_tokens output_tokens =
     (if mode = INTERNAL_UNMETERED then 0
      else (input_tokens * inp + output_tokens * outp + tokens_per_million - 1) div tokens_per_million)"

definition calculate_request_cost_micro_usd :: "pricing_profile \<Rightarrow> pyval \<Rightarrow> pyval \<Rightarrow> int result" where
  "calculate_request_cost_micro_usd p input_tokens output_tokens =
     bind_result (require_non_negative_integer ''input_tokens'' input_tokens) (\<lambda>i.
     bind_result (require_non_negative_integer ''output_tokens'' output_tokens) (\<lambda>out.
     Inr (request_cost (pricing_mode p) (input_price p) (output_price p) i out)))"

record budget_profile =
  max_provider_attempts :: int
  max_input_tokens :: int
  max_output_tokens :: int
  max_total_tokens :: int
  max_cost :: int

definition new_budget_profile :: "pyval \<Rightarrow> pyval \<Rightarrow> pyval \<Rightarrow> pyval \<Rightarrow> pyval \<Rightarrow> budget_profile result" where
  "new_budget_profile attempts input_t output_t total_t cost =
     bind_result (require_non_negative_integer ''max_provider_attempts_per_business_operation'' attempts) (\<lambda>a.
     guard (a = 0) ''max_provider_attempts_per_business_operation must be positive''
     (bind_result (require_non_negative_integer ''max_input_tokens_per_request'' input_t) (\<lambda>i.
      bind_result (require_non_negative_integer ''max_output_tokens_per_request'' output_t) (\<lambda>out.
      bind_result (require_non_negative_integer ''max_total_tokens'' total_t) (\<lambda>t.
      bind_result (require_non_negative_integer ''max_cost_micro_usd'' cost) (\<lambda>c.
      Inr \<lparr>max_provider_attempts = a, max_input_tokens = i, max_output_tokens = out,
           max_total_tokens = t, max_cost = c\<rparr>))))))"

record attempt_reservation =
  res_pricing_version :: pystr
  res_input_tokens :: int
  res_output_tokens :: int
  res_cost :: int

definition new_attempt_reservation :: "pyval \<Rightarrow> pyval \<Rightarrow> pyval \<Rightarrow> pyval \<Rightarrow> attempt_reservation result" where
  "new_attempt_reservation version input_t output_t cost =
     bind_result (require_non_empty ''pricing_version'' version) (\<lambda>v.
     bind_result (require_non_negative_integer ''reserved_input_tokens'' input_t) (\<lambda>i.
     bind_result (require_non_negative_integer ''reserved_output_tokens'' output_t) (\<lambda>out.
     bind_result (require_non_negative_integer ''reserved_cost_micro_usd'' cost) (\<lambda>c.
     Inr \<lparr>res_pricing_version = v, res_input_tokens = i, res_output_tokens = out, res_cost = c\<rparr>))))"

definition reserved_total_tokens :: "attempt_reservation \<Rightarrow> int" where
  "reserved_total_tokens r = res_input_tokens r + res_output_tokens r"

record reconciled_usage =
  used_input_tokens :: int
  used_output_tokens :: int
  used_total_tokens :: int
  used_cost :: int

definition new_reconciled_usage :: "pyval \<Rightarrow> pyval \<Rightarrow> pyval \<Rightarrow> pyval \<Rightarrow> reconciled_usage result" where
  "new_reconciled_usage input_t output_t total_t cost =
     bind_result (require_non_negative_integer ''input_tokens'' input_t) (\<lambda>i.
     bind_result (require_non_negative_integer ''output_tokens'' output_t) (\<lambda>out.
     bind_result (require_non_negative_integer ''total_tokens'' total_t) (\<lambda>t.
     bind_result (require_non_negative_integer ''cost_micro_usd'' cost) (\<lambda>c.
     guard (t \<noteq> i + out) ''total_tokens must equal input_tokens + output_tokens''
       (Inr \<lparr>used_input_tokens = i, used_output_tokens = out, used_total_tokens = t, used_cost = c\<rparr>)))))"

definition calculate_preflight_reservation ::
  "budget_profile \<Rightarrow> pricing_profile \<Rightarrow> pyval \<Rightarrow> pyval \<Rightarrow> pyval \<Rightarrow> pyval \<Rightarrow> pyval \<Rightarrow> pyval \<Rightarrow> pyval
   \<Rightarrow> attempt_reservation result" where
  "calculate_preflight_reservation b p attempts_used repair_slots reserved_total reserved_cost
       input_t output_t context_window =
     bind_result (require_counts
       [(''provider_attempts_used'', attempts_used), (''future_model_repair_slots'', repair_slots),
        (''reserved_total_tokens'', reserved_total), (''reserved_cost_micro_usd'', reserved_cost),
        (''input_tokens'', input_t), (''max_output_tokens'', output_t),
        (''context_window_tokens'', context_window)]) (\<lambda>_.
     guard (int_of context_window = 0) ''context_window_tokens must be positive''
     (guard (int_of attempts_used + 1 + int_of repair_slots > max_provider_attempts b)
        ''max_provider_attempts_per_business_operation exceeded''
     (guard (int_of input_t > max_input_tokens b) ''max_input_tokens_per_request exceeded''
     (guard (int_of output_t > max_output_tokens b) ''max_output_tokens_per_request exceeded''
     (let requested = int_of input_t + int_of output_t in
      guard (requested > int_of context_window) ''context_window_tokens exceeded''
     (guard (int_of reserved_total + requested > max_total_tokens b) ''max_total_tokens exceeded''
     (bind_result (calculate_request_cost_micro_usd p input_t output_t) (\<lambda>cost.
      guard (int_of reserved_cost + cost > max_cost b) ''max_cost_micro_usd exceeded''
       (new_attempt_reservation (PyStr (pricing_version p)) input_t output_t (PyInt cost))))))))))"

definition reconcile_actual_usage ::
  "pricing_profile \<Rightarrow> attempt_reservation \<Rightarrow> pyval \<Rightarrow> pyval \<Rightarrow> pyval \<Rightarrow> reconciled_usage result" where
  "reconcile_actual_usage p r input_t output_t total_t =
     guard (pricing_version p \<noteq> res_pricing_version r) ''pricing_version must match reservation''
     (bind_result (require_counts
        [(''input_tokens'', input_t), (''output_tokens'', output_t), (''total_tokens'', total_t)]) (\<lambda>_.
      guard (int_of total_t \<noteq> int_of input_t + int_of output_t)
        ''total_tokens must equal input_tokens + output_tokens''
      (guard (int_of input_t > res_input_tokens r) ''input_tokens exceed reservation''
      (guard (int_of output_t > res_output_tokens r) ''output_tokens exceed reservation''
      (bind_result (calculate_request_cost_micro_usd p input_t output_t) (\<lambda>cost.
       guard (cost > res_cost r) ''cost_micro_usd exceeds reservation''
         (new_reconciled_usage input_t output_t total_t (PyInt cost))))))))"

section \<open>Version 2\<close>

record pricing_profile_v2 =
  pricing_version_v2 :: pystr
  pricing_mode_v2 :: billing_mode
  pricing_currency :: "cost_currency option"
  input_price_v2 :: int
  output_price_v2 :: int

fun expected_currency :: "billing_mode \<Rightarrow> cost_currency option" where
  "expected_currency EXTERNAL_USD = Some USD"
| "expected_currency EXTERNAL_CNY = Some CNY"
| "expected_currency INTERNAL_UNMETERED = None"

definition new_pricing_profile_v2 ::
  "pyval \<Rightarrow> billing_mode \<Rightarrow> cost_currency option \<Rightarrow> pyval \<Rightarrow> pyval \<Rightarrow> pricing_profile_v2 result" where
  "new_pricing_profile_v2 version mode currency input_p output_p =
     bind_result (require_non_empty ''pricing_version'' version) (\<lambda>version'.
     bind_result (require_non_negative_integer ''input_price_microunits_per_million'' input_p) (\<lambda>inp.
     bind_result (require_non_negative_integer ''output_price_microunits_per_million'' output_p) (\<lambda>outp.
     guard (currency \<noteq> expected_currency mode) ''billing_mode and cost_currency must match''
     (guard (mode = INTERNAL_UNMETERED \<and> (inp \<noteq> 0 \<or> outp \<noteq> 0))
        ''internal_unmetered prices must both be zero''
        (Inr \<lparr>pricing_version_v2 = version', pricing_mode_v2 = mode, pricing_currency = currency,
             input_price_v2 = inp, output_price_v2 = outp\<rparr>)))))"

definition calculate_request_cost_microunits :: "pricing_profile_v2 \<Rightarrow> pyval \<Rightarrow> pyval \<Rightarrow> int result" where
  "calculate_request_cost_microunits p input_tokens output_tokens =
     bind_result (require_non_negative_integer ''input_tokens'' input_tokens) (\<lambda>i.
     bind_result (require_non_negative_integer ''output_tokens'' output_tokens) (\<lambda>out.
     Inr (request_cost (pricing_mode_v2 p) (input_price_v2 p) (output_price_v2 p) i out)))"

record budget_profile_v2 =
  max_provider_attempts_v2 :: int
  max_input_tokens_v2 :: int
  max_output_tokens_v2 :: int
  max_total_tokens_v2 :: int
  budget_currency :: "cost_currency option"
  max_cost_v2 :: int

definition new_budget_profile_v2 ::
  "pyval \<Rightarrow> pyval \<Rightarrow> pyval \<Rightarrow> pyval \<Rightarrow> cost_currency option \<Rightarrow> pyval \<Rightarrow> budget_profile_v2 result" where
  "new_budget_profile_v2 attempts input_t output_t total_t currency cost =
     bind_result (require_non_negative_integer ''max_provider_attempts_per_business_operation'' attempts) (\<lambda>a.
     guard (a = 0) ''max_provider_attempts_per_business_operation must be positive''
     (bind_result (require_non_negative_integer ''max_input_tokens_per_request'' input_t) (\<lambda>i.
      bind_result (require_non_negative_integer ''max_output_tokens_per_request'' output_t) (\<lambda>out.
      bind_result (require_non_negative_integer ''max_total_tokens'' total_t) (\<lambda>t.
      bind_result (require_non_negative_integer ''max_cost_microunits'' cost) (\<lambda>c.
      guard (currency = None \<and> c \<noteq> 0) ''internal unmetered max cost must be zero''
      (Inr \<lparr>max_provider_attempts_v2 = a, max_input_tokens_v2 = i, max_output_tokens_v2 = out,
           max_total_tokens_v2 = t, budget_currency = currency, max_cost_v2 = c\<rparr>)))))))"

record attempt_reservation_v2 =
  res_pricing_version_v2 :: pystr
  res_currency :: "cost_currency option"
  res_input_tokens_v2 :: int
  res_output_tokens_v2 :: int
  res_cost_v2 :: int

definition new_attempt_reservation_v2 ::
  "pyval \<Rightarrow> cost_currency option \<Rightarrow> pyval \<Rightarrow> pyval \<Rightarrow> pyval \<Rightarrow> attempt_reservation_v2 result" where
  "new_attempt_reservation_v2 version currency input_t output_t cost =
     bind_result (require_non_empty ''pricing_version'' version) (\<lambda>v.
     bind_result (require_non_negative_integer ''reserved_input_tokens'' input_t) (\<lambda>i.
     bind_result (require_non_negative_integer ''reserved_output_tokens'' output_t) (\<lambda>out.
     bind_result (require_non_negative_integer ''reserved_cost_microunits'' cost) (\<lambda>c.
     guard (currency = None \<and> c \<noteq> 0) ''internal unmetered reservation must be zero''
     (Inr \<lparr>res_pricing_version_v2 = v, res_currency = currency, res_input_tokens_v2 = i,
          res_output_tokens_v2 = out, res_cost_v2 = c\<rparr>)))))"

definition reserved_total_tokens_v2 :: "attempt_reservation_v2 \<Rightarrow> int" where
  "reserved_total_tokens_v2 r = res_input_tokens_v2 r + res_output_tokens_v2 r"

record reconciled_usage_v2 =
  used_input_tokens_v2 :: int
  used_output_tokens_v2 :: int
  used_total_tokens_v2 :: int
  used_currency :: "cost_currency option"
  used_cost_v2 :: int

definition new_reconciled_usage_v2 ::
  "pyval \<Rightarrow> pyval \<Rightarrow> pyval \<Rightarrow> cost_currency option \<Rightarrow> pyval \<Rightarrow> reconciled_usage_v2 result" where
  "new_reconciled_usage_v2 input_t output_t total_t currency cost =
     bind_result (require_non_negative_integer ''input_tokens'' input_t) (\<lambda>i.
     bind_result (require_non_negative_integer ''output_tokens'' output_t) (\<lambda>out.
     bind_result (require_non_negative_integer ''total_tokens'' total_t) (\<lambda>t.
     bind_result (require_non_negative_integer ''actual_cost_microunits'' cost) (\<lambda>c.
     guard (t \<noteq> i + out) ''total_tokens must equal input_tokens + output_tokens''
     (guard (currency = None \<and> c \<noteq> 0) ''internal unmetered actual cost must be zero''
       (Inr \<lparr>used_input_tokens_v2 = i, used_output_tokens_v2 = out, used_total_tokens_v2 = t,
            used_currency = currency, used_cost_v2 = c\<rparr>))))))"

definition calculate_preflight_reservation_v2 ::
  "budget_profile_v2 \<Rightarrow> pricing_profile_v2 \<Rightarrow> pyval \<Rightarrow> pyval \<Rightarrow> pyval \<Rightarrow> pyval \<Rightarrow> pyval \<Rightarrow> pyval \<Rightarrow> pyval
   \<Rightarrow> attempt_reservation_v2 result" where
  "calculate_preflight_reservation_v2 b p attempts_used repair_slots reserved_total reserved_cost
       input_t output_t context_window =
     guard (budget_currency b \<noteq> pricing_currency p) ''cost_currency must match budget''
     (bind_result (require_counts
       [(''provider_attempts_used'', attempts_used), (''future_model_repair_slots'', repair_slots),
        (''reserved_total_tokens'', reserved_total), (''reserved_cost_microunits'', reserved_cost),
        (''input_tokens'', input_t), (''max_output_tokens'', output_t),
        (''context_window_tokens'', context_window)]) (\<lambda>_.
     guard (int_of context_window = 0) ''context_window_tokens must be positive''
     (guard (int_of attempts_used + 1 + int_of repair_slots > max_provider_attempts_v2 b)
        ''max_provider_attempts_per_business_operation exceeded''
     (guard (int_of input_t > max_input_tokens_v2 b) ''max_input_tokens_per_request exceeded''
     (guard (int_of output_t > max_output_tokens_v2 b) ''max_output_tokens_per_request exceeded''
     (let requested = int_of input_t + int_of output_t in
      guard (requested > int_of context_window) ''context_window_tokens exceeded''
     (guard (int_of reserved_total + requested > max_total_tokens_v2 b) ''max_total_tokens exceeded''
     (bind_result (calculate_request_cost_microunits p input_t output_t) (\<lambda>cost.
      guard (int_of reserved_cost + cost > max_cost_v2 b) ''max_cost_microunits exceeded''
       (new_attempt_reservation_v2 (PyStr (pricing_version_v2 p)) (pricing_currency p)
         input_t output_t (PyInt cost)))))))))))"

definition reconcile_actual_usage_v2 ::
  "pricing_profile_v2 \<Rightarrow> attempt_reservation_v2 \<Rightarrow> pyval \<Rightarrow> pyval \<Rightarrow> pyval \<Rightarrow> reconciled_usage_v2 result" where
  "reconcile_actual_usage_v2 p r input_t output_t total_t =
     guard (pricing_version_v2 p \<noteq> res_pricing_version_v2 r) ''pricing_version must match reservation''
     (guard (pricing_currency p \<noteq> res_currency r) ''cost_currency must match reservation''
     (bind_result (require_counts
        [(''input_tokens'', input_t), (''output_tokens'', output_t), (''total_tokens'', total_t)]) (\<lambda>_.
      guard (int_of total_t \<noteq> int_of input_t + int_of output_t)
        ''total_tokens must equal input_tokens + output_tokens''
      (guard (int_of input_t > res_input_tokens_v2 r) ''input_tokens exceed reservation''
      (guard (int_of output_t > res_output_tokens_v2 r) ''output_tokens exceed reservation''
      (bind_result (calculate_request_cost_microunits p input_t output_t) (\<lambda>cost.
       guard (cost > res_cost_v2 r) ''actual_cost_microunits exceeds reservation''
         (new_reconciled_usage_v2 input_t output_t total_t (pricing_currency p) (PyInt cost)))))))))"

section \<open>Prices\<close>

lemma request_cost_nonneg:
  assumes "0 \<le> inp" "0 \<le> outp" "0 \<le> i" "0 \<le> out"
  shows "0 \<le> request_cost mode inp outp i out"
  using assms by (simp add: request_cost_def tokens_per_million_def pos_imp_zdiv_nonneg_iff)

lemma request_cost_mono:
  assumes "0 \<le> inp" "0 \<le> outp" "i \<le> i'" "out \<le> out'"
  shows "request_cost mode inp outp i out \<le> request_cost mode inp outp i' out'"
  using assms unfolding request_cost_def tokens_per_million_def
  by (auto intro!: zdiv_mono1 add_mono mult_right_mono)

text \<open>Rounding up: the cost is the least integer that covers the exact price.\<close>

lemma request_cost_ceiling:
  assumes "mode \<noteq> INTERNAL_UNMETERED"
  shows "request_cost mode inp outp i out = \<lceil>real_of_int (i * inp + out * outp) / 1000000\<rceil>"
proof -
  have up: "(n + 999999) div 1000000 = \<lceil>real_of_int n / 1000000\<rceil>" for n :: int
  proof (rule ceiling_unique [symmetric])
    have "n + 999999 = 1000000 * ((n + 999999) div 1000000) + (n + 999999) mod 1000000"
      and "0 \<le> (n + 999999) mod 1000000" and "(n + 999999) mod 1000000 < 1000000"
      by simp_all
    then have "1000000 * ((n + 999999) div 1000000) < n + 1000000"
      and "n \<le> 1000000 * ((n + 999999) div 1000000)" by linarith+
    then show "real_of_int ((n + 999999) div 1000000) - 1 < real_of_int n / 1000000"
      and "real_of_int n / 1000000 \<le> real_of_int ((n + 999999) div 1000000)"
      by (simp_all add: field_simps flip: of_int_add of_int_mult)
  qed
  have "request_cost mode inp outp i out = ((i * inp + out * outp) + 999999) div 1000000"
    using assms by (simp add: request_cost_def tokens_per_million_def)
  then show ?thesis by (simp only: up)
qed

section \<open>Well-formed profiles\<close>

definition pricing_ok :: "pricing_profile \<Rightarrow> bool" where
  "pricing_ok p \<longleftrightarrow> non_blank (pricing_version p) \<and> pricing_mode p \<noteq> EXTERNAL_CNY \<and>
     0 \<le> input_price p \<and> 0 \<le> output_price p \<and>
     (pricing_mode p = INTERNAL_UNMETERED \<longrightarrow> input_price p = 0 \<and> output_price p = 0)"

definition budget_ok :: "budget_profile \<Rightarrow> bool" where
  "budget_ok b \<longleftrightarrow> 0 < max_provider_attempts b \<and> 0 \<le> max_input_tokens b \<and> 0 \<le> max_output_tokens b \<and>
     0 \<le> max_total_tokens b \<and> 0 \<le> max_cost b"

definition reservation_ok :: "attempt_reservation \<Rightarrow> bool" where
  "reservation_ok r \<longleftrightarrow> non_blank (res_pricing_version r) \<and> 0 \<le> res_input_tokens r \<and>
     0 \<le> res_output_tokens r \<and> 0 \<le> res_cost r"

definition pricing_v2_ok :: "pricing_profile_v2 \<Rightarrow> bool" where
  "pricing_v2_ok p \<longleftrightarrow> non_blank (pricing_version_v2 p) \<and>
     pricing_currency p = expected_currency (pricing_mode_v2 p) \<and>
     0 \<le> input_price_v2 p \<and> 0 \<le> output_price_v2 p \<and>
     (pricing_mode_v2 p = INTERNAL_UNMETERED \<longrightarrow> input_price_v2 p = 0 \<and> output_price_v2 p = 0)"

lemma new_pricing_profile_ok: "new_pricing_profile v mode i out = Inr p \<Longrightarrow> pricing_ok p"
  by (auto simp: new_pricing_profile_def pricing_ok_def)

lemma new_budget_profile_ok: "new_budget_profile a i out t c = Inr b \<Longrightarrow> budget_ok b"
  by (auto simp: new_budget_profile_def budget_ok_def intro: le_neq_trans)

lemma new_attempt_reservation_ok: "new_attempt_reservation v i out c = Inr r \<Longrightarrow> reservation_ok r"
  by (auto simp: new_attempt_reservation_def reservation_ok_def)

lemma new_pricing_profile_v2_ok: "new_pricing_profile_v2 v mode cur i out = Inr p \<Longrightarrow> pricing_v2_ok p"
  by (auto simp: new_pricing_profile_v2_def pricing_v2_ok_def)

lemma expected_currency_None [simp]: "expected_currency mode = None \<longleftrightarrow> mode = INTERNAL_UNMETERED"
  by (cases mode) simp_all

lemma cost_of_counts:
  "calculate_request_cost_micro_usd p i out = Inr c \<longleftrightarrow> is_count i \<and> is_count out \<and>
     c = request_cost (pricing_mode p) (input_price p) (output_price p) (int_of i) (int_of out)"
  by (auto simp: calculate_request_cost_micro_usd_def)

lemma cost_v2_of_counts:
  "calculate_request_cost_microunits p i out = Inr c \<longleftrightarrow> is_count i \<and> is_count out \<and>
     c = request_cost (pricing_mode_v2 p) (input_price_v2 p) (output_price_v2 p) (int_of i) (int_of out)"
  by (auto simp: calculate_request_cost_microunits_def)

lemma cost_of_ok_profile:
  assumes "pricing_ok p" "0 \<le> i" "0 \<le> out"
  shows "0 \<le> request_cost (pricing_mode p) (input_price p) (output_price p) i out"
  using assms by (simp add: pricing_ok_def request_cost_nonneg)

text \<open>What each function accepts, as one conjunction.\<close>

lemma new_reservation_iff:
  "new_attempt_reservation (PyStr v) i out (PyInt c) = Inr r \<longleftrightarrow>
    non_blank v \<and> is_count i \<and> is_count out \<and> 0 \<le> c \<and>
    r = \<lparr>res_pricing_version = v, res_input_tokens = int_of i, res_output_tokens = int_of out, res_cost = c\<rparr>"
  unfolding new_attempt_reservation_def by simp (rule iffI; (elim conjE)?; (intro conjI)?; simp)

lemma new_reservation_v2_iff:
  "new_attempt_reservation_v2 (PyStr v) (Some cur) i out (PyInt c) = Inr r \<longleftrightarrow>
    non_blank v \<and> is_count i \<and> is_count out \<and> 0 \<le> c \<and>
    r = \<lparr>res_pricing_version_v2 = v, res_currency = Some cur, res_input_tokens_v2 = int_of i,
         res_output_tokens_v2 = int_of out, res_cost_v2 = c\<rparr>"
  unfolding new_attempt_reservation_v2_def by simp (rule iffI; (elim conjE)?; (intro conjI)?; simp)

lemma preflight_iff:
  "calculate_preflight_reservation b p attempts slots tokens cost i out window = Inr r \<longleftrightarrow>
    list_all is_count [attempts, slots, tokens, cost, i, out, window] \<and> int_of window \<noteq> 0 \<and>
    int_of attempts + 1 + int_of slots \<le> max_provider_attempts b \<and>
    int_of i \<le> max_input_tokens b \<and> int_of out \<le> max_output_tokens b \<and>
    int_of i + int_of out \<le> int_of window \<and>
    int_of tokens + (int_of i + int_of out) \<le> max_total_tokens b \<and>
    (let c = request_cost (pricing_mode p) (input_price p) (output_price p) (int_of i) (int_of out) in
     int_of cost + c \<le> max_cost b \<and>
     new_attempt_reservation (PyStr (pricing_version p)) i out (PyInt c) = Inr r)"
  unfolding calculate_preflight_reservation_def Let_def
  by (simp add: cost_of_counts not_less) (rule iffI; (elim conjE)?; (intro conjI)?; simp)

lemma preflight_v2_iff:
  "calculate_preflight_reservation_v2 b p attempts slots tokens cost i out window = Inr r \<longleftrightarrow>
    budget_currency b = pricing_currency p \<and>
    list_all is_count [attempts, slots, tokens, cost, i, out, window] \<and> int_of window \<noteq> 0 \<and>
    int_of attempts + 1 + int_of slots \<le> max_provider_attempts_v2 b \<and>
    int_of i \<le> max_input_tokens_v2 b \<and> int_of out \<le> max_output_tokens_v2 b \<and>
    int_of i + int_of out \<le> int_of window \<and>
    int_of tokens + (int_of i + int_of out) \<le> max_total_tokens_v2 b \<and>
    (let c = request_cost (pricing_mode_v2 p) (input_price_v2 p) (output_price_v2 p) (int_of i) (int_of out) in
     int_of cost + c \<le> max_cost_v2 b \<and>
     new_attempt_reservation_v2 (PyStr (pricing_version_v2 p)) (pricing_currency p) i out (PyInt c) = Inr r)"
  unfolding calculate_preflight_reservation_v2_def Let_def
  by (simp add: cost_v2_of_counts not_less) (rule iffI; (elim conjE)?; (intro conjI)?; simp)

lemma reconcile_iff:
  "reconcile_actual_usage p r i out total_t = Inr u \<longleftrightarrow>
    pricing_version p = res_pricing_version r \<and> list_all is_count [i, out, total_t] \<and>
    int_of total_t = int_of i + int_of out \<and> int_of i \<le> res_input_tokens r \<and>
    int_of out \<le> res_output_tokens r \<and>
    (let c = request_cost (pricing_mode p) (input_price p) (output_price p) (int_of i) (int_of out) in
     c \<le> res_cost r \<and> 0 \<le> c \<and>
     u = \<lparr>used_input_tokens = int_of i, used_output_tokens = int_of out, used_total_tokens = int_of total_t,
          used_cost = c\<rparr>)"
  unfolding reconcile_actual_usage_def new_reconciled_usage_def Let_def
  by (simp add: cost_of_counts not_less) (rule iffI; (elim conjE)?; (intro conjI)?; simp)

lemma reconcile_v2_iff:
  "reconcile_actual_usage_v2 p r i out total_t = Inr u \<longleftrightarrow>
    pricing_version_v2 p = res_pricing_version_v2 r \<and> pricing_currency p = res_currency r \<and>
    list_all is_count [i, out, total_t] \<and>
    int_of total_t = int_of i + int_of out \<and> int_of i \<le> res_input_tokens_v2 r \<and>
    int_of out \<le> res_output_tokens_v2 r \<and>
    (let c = request_cost (pricing_mode_v2 p) (input_price_v2 p) (output_price_v2 p) (int_of i) (int_of out) in
     c \<le> res_cost_v2 r \<and> 0 \<le> c \<and> (pricing_currency p = None \<longrightarrow> c = 0) \<and>
     u = \<lparr>used_input_tokens_v2 = int_of i, used_output_tokens_v2 = int_of out,
          used_total_tokens_v2 = int_of total_t, used_currency = pricing_currency p, used_cost_v2 = c\<rparr>)"
  unfolding reconcile_actual_usage_v2_def new_reconciled_usage_v2_def Let_def
  by (simp add: cost_v2_of_counts not_less) (rule iffI; (elim conjE)?; (intro conjI)?; (simp; fail | auto))

section \<open>Properties\<close>

text \<open>C25. The worst-case reservation is made exactly when every argument is a non-negative integer,
  the context window is not zero, one more attempt and the later repairs fit in the attempts of the
  budget, the input and the output fit in the limits of a request and together in the window, and the
  tokens and the rounded-up price fit in what the budget has left; and then it records the profile's
  version, the tokens asked for and the price. Anything else is refused.\<close>

theorem preflight_reservation_iff:
  assumes "pricing_ok p"
  shows "calculate_preflight_reservation b p attempts slots tokens cost i out window = Inr r \<longleftrightarrow>
    list_all is_count [attempts, slots, tokens, cost, i, out, window] \<and>
    0 < int_of window \<and>
    int_of attempts + 1 + int_of slots \<le> max_provider_attempts b \<and>
    int_of i \<le> max_input_tokens b \<and> int_of out \<le> max_output_tokens b \<and>
    int_of i + int_of out \<le> int_of window \<and>
    int_of tokens + reserved_total_tokens r \<le> max_total_tokens b \<and>
    int_of cost + res_cost r \<le> max_cost b \<and>
    r = \<lparr>res_pricing_version = pricing_version p, res_input_tokens = int_of i,
         res_output_tokens = int_of out,
         res_cost = (if pricing_mode p = INTERNAL_UNMETERED then 0
           else \<lceil>real_of_int (int_of i * input_price p + int_of out * output_price p) / 1000000\<rceil>)\<rparr>"
    (is "_ \<longleftrightarrow> ?ok")
proof -
  have price: "request_cost (pricing_mode p) (input_price p) (output_price p) (int_of i) (int_of out) =
    (if pricing_mode p = INTERNAL_UNMETERED then 0
     else \<lceil>real_of_int (int_of i * input_price p + int_of out * output_price p) / 1000000\<rceil>)"
    using request_cost_ceiling [of "pricing_mode p"] by (simp add: request_cost_def)
  have version: "non_blank (pricing_version p)"
    using assms by (simp add: pricing_ok_def)
  have window: "is_count window \<Longrightarrow> int_of window \<noteq> 0 \<longleftrightarrow> 0 < int_of window"
    using is_count_int_of [of window] by linarith
  have nonneg: "is_count i \<Longrightarrow> is_count out \<Longrightarrow>
      0 \<le> request_cost (pricing_mode p) (input_price p) (output_price p) (int_of i) (int_of out)"
    using cost_of_ok_profile [OF assms] by simp
  show ?thesis
    unfolding preflight_iff new_reservation_iff price [symmetric] Let_def
    using window nonneg version by (auto simp: reserved_total_tokens_def)
qed

definition sample_budget :: budget_profile where
  "sample_budget = \<lparr>max_provider_attempts = 3, max_input_tokens = 100, max_output_tokens = 50,
     max_total_tokens = 500, max_cost = 9\<rparr>"

definition sample_pricing :: pricing_profile where
  "sample_pricing = \<lparr>pricing_version = lit ''v1'', pricing_mode = EXTERNAL_USD,
     input_price = 20000, output_price = 60001\<rparr>"

lemma sample_pricing_ok: "pricing_ok sample_pricing"
  by (simp add: pricing_ok_def sample_pricing_def non_blank_iff lit_def py_isspace_def)

lemma sample_reservation:
  "calculate_preflight_reservation sample_budget sample_pricing (PyInt 0) (PyInt 2) (PyInt 0) (PyInt 0)
     (PyInt 100) (PyInt 50) (PyInt 200) =
   Inr \<lparr>res_pricing_version = lit ''v1'', res_input_tokens = 100, res_output_tokens = 50, res_cost = 6\<rparr>"
  by (simp add: preflight_iff new_reservation_iff sample_budget_def sample_pricing_def request_cost_def
      tokens_per_million_def non_blank_iff lit_def py_isspace_def)

theorem preflight_reservation_iff_witness:
  "calculate_preflight_reservation sample_budget sample_pricing (PyInt 0) (PyInt 2) (PyInt 0) (PyInt 0)
     (PyInt 100) (PyInt 50) (PyInt 200) =
   Inr \<lparr>res_pricing_version = lit ''v1'', res_input_tokens = 100, res_output_tokens = 50, res_cost = 6\<rparr>"
  unfolding preflight_reservation_iff [OF sample_pricing_ok]
  by (simp add: sample_budget_def sample_pricing_def reserved_total_tokens_def ceiling_eq_iff)

text \<open>C26. Reconciliation never disputes a reservation it was made for: the usage a provider reports
  within the reserved input and output, with a consistent total, is always accepted, and its cost is at
  most the reserved cost; the version and cost refusals cannot be met.\<close>

theorem reconcile_within_reservation:
  assumes "pricing_ok p"
    and "calculate_preflight_reservation b p attempts slots tokens cost i out window = Inr r"
    and "0 \<le> used_in" "used_in \<le> int_of i" "0 \<le> used_out" "used_out \<le> int_of out"
  shows "\<exists>u. reconcile_actual_usage p r (PyInt used_in) (PyInt used_out) (PyInt (used_in + used_out)) = Inr u \<and>
    used_total_tokens u = used_in + used_out \<and> used_total_tokens u \<le> reserved_total_tokens r \<and>
    0 \<le> used_cost u \<and> used_cost u \<le> res_cost r"
proof -
  let ?cost = "request_cost (pricing_mode p) (input_price p) (output_price p)"
  have r: "res_pricing_version r = pricing_version p" "res_input_tokens r = int_of i"
      "res_output_tokens r = int_of out" "res_cost r = ?cost (int_of i) (int_of out)"
    using assms(2) by (simp_all add: preflight_iff new_reservation_iff Let_def)
  have mono: "?cost used_in used_out \<le> ?cost (int_of i) (int_of out)"
    using assms by (intro request_cost_mono) (simp_all add: pricing_ok_def)
  have nonneg: "0 \<le> ?cost used_in used_out"
    using assms by (intro cost_of_ok_profile) simp_all
  have "reconcile_actual_usage p r (PyInt used_in) (PyInt used_out) (PyInt (used_in + used_out)) =
      Inr \<lparr>used_input_tokens = used_in, used_output_tokens = used_out,
           used_total_tokens = used_in + used_out, used_cost = ?cost used_in used_out\<rparr>"
    using assms mono nonneg
    by (simp add: reconcile_iff r)
  then show ?thesis
    using assms mono nonneg by (simp add: r reserved_total_tokens_def)
qed

theorem reconcile_within_reservation_witness:
  "\<exists>u. reconcile_actual_usage sample_pricing
      \<lparr>res_pricing_version = lit ''v1'', res_input_tokens = 100, res_output_tokens = 50, res_cost = 6\<rparr>
      (PyInt 40) (PyInt 7) (PyInt (40 + 7)) = Inr u \<and> used_total_tokens u = 40 + 7 \<and>
    used_total_tokens u \<le> 150 \<and> 0 \<le> used_cost u \<and> used_cost u \<le> 6"
  using reconcile_within_reservation [OF sample_pricing_ok sample_reservation, of 40 7]
  by (simp add: reserved_total_tokens_def)

text \<open>A version 1 profile, budget and reservation priced in US dollars, as version 2 writes them.\<close>

definition usd_pricing :: "pricing_profile \<Rightarrow> pricing_profile_v2" where
  "usd_pricing p = \<lparr>pricing_version_v2 = pricing_version p, pricing_mode_v2 = pricing_mode p,
     pricing_currency = Some USD, input_price_v2 = input_price p, output_price_v2 = output_price p\<rparr>"

definition usd_budget :: "budget_profile \<Rightarrow> budget_profile_v2" where
  "usd_budget b = \<lparr>max_provider_attempts_v2 = max_provider_attempts b,
     max_input_tokens_v2 = max_input_tokens b, max_output_tokens_v2 = max_output_tokens b,
     max_total_tokens_v2 = max_total_tokens b, budget_currency = Some USD, max_cost_v2 = max_cost b\<rparr>"

definition usd_reservation :: "attempt_reservation \<Rightarrow> attempt_reservation_v2" where
  "usd_reservation r = \<lparr>res_pricing_version_v2 = res_pricing_version r, res_currency = Some USD,
     res_input_tokens_v2 = res_input_tokens r, res_output_tokens_v2 = res_output_tokens r,
     res_cost_v2 = res_cost r\<rparr>"

text \<open>In US dollars version 2 is version 1: on a version 1 profile and budget the second preflight
  accepts exactly what the first accepts and makes the same reservation, and whatever reservation the
  first made is reconciled by the second exactly when the first reconciles it, at the same cost.\<close>

theorem usd_versions_agree:
  assumes "pricing_mode p = EXTERNAL_USD"
  shows "(calculate_preflight_reservation_v2 (usd_budget b) (usd_pricing p) attempts slots tokens cost
      i out window = Inr r2 \<longleftrightarrow>
    (\<exists>r. calculate_preflight_reservation b p attempts slots tokens cost i out window = Inr r \<and>
         r2 = usd_reservation r)) \<and>
    ((\<exists>u2. reconcile_actual_usage_v2 (usd_pricing p) (usd_reservation r) i out total_t = Inr u2 \<and>
           used_cost_v2 u2 = c) \<longleftrightarrow>
    (\<exists>u. reconcile_actual_usage p r i out total_t = Inr u \<and> used_cost u = c))"
  using assms
  by (auto simp: preflight_iff preflight_v2_iff reconcile_iff reconcile_v2_iff new_reservation_iff
      new_reservation_v2_iff Let_def usd_budget_def usd_pricing_def usd_reservation_def)

theorem usd_versions_agree_witness:
  "calculate_preflight_reservation_v2 (usd_budget sample_budget) (usd_pricing sample_pricing)
     (PyInt 0) (PyInt 2) (PyInt 0) (PyInt 0) (PyInt 100) (PyInt 50) (PyInt 200) =
   Inr (usd_reservation
     \<lparr>res_pricing_version = lit ''v1'', res_input_tokens = 100, res_output_tokens = 50, res_cost = 6\<rparr>)"
  using usd_versions_agree [THEN conjunct1, of sample_pricing] sample_reservation by (simp add: sample_pricing_def)

end
