(* ===== verification/JsonText.thy ===== *)
theory JsonText
  imports Prelude "HOL-Library.Sublist"
begin

text \<open>
  The JSON decoder of Python's standard library (\<open>json.JSONDecoder\<close>) on texts of code points, with the
  hooks the code installs in it. \<open>scan_once\<close> is \<open>raw_decode\<close> at a position: it reads one value and
  returns it with the text that follows. Strings are strict: no control character is allowed in them.
  The interpreter's recursion limit is the number of containers that may be open at once, an argument.
\<close>

section \<open>Values, errors and hooks\<close>

datatype 'n json = JNull | JBool bool | JNumber 'n | JString pystr
  | JArray "'n json list" | JObject "(pystr \<times> 'n json) list"

text \<open>\<open>JSONDecodeError\<close>, a \<open>ValueError\<close> raised by a hook, \<open>RecursionError\<close>. The last error marks a member
  loop that was given too little room; \<open>scan_once_room\<close> shows that it does not occur.\<close>

datatype json_error = DecodeError | HookError | TooDeep | NoRoom

type_synonym 'a scanned = "json_error + ('a \<times> pystr)"

text \<open>A hook returns nothing when it raises.\<close>

record 'n decoder =
  parse_int :: "pystr \<Rightarrow> 'n option"
  parse_float :: "pystr \<Rightarrow> 'n option"
  parse_constant :: "pystr \<Rightarrow> 'n option"
  pairs_hook :: "(pystr \<times> 'n json) list \<Rightarrow> 'n json option"

fun scan_then :: "'a scanned \<Rightarrow> ('a \<Rightarrow> pystr \<Rightarrow> 'b scanned) \<Rightarrow> 'b scanned" where
  "scan_then (Inl e) f = Inl e"
| "scan_then (Inr (x, r)) f = f x r"

definition hook_result :: "'a option \<Rightarrow> pystr \<Rightarrow> 'a scanned" where
  "hook_result v r = (case v of None \<Rightarrow> Inl HookError | Some x \<Rightarrow> Inr (x, r))"

lemma scan_then_Inr [simp]:
  "scan_then m f = Inr y \<longleftrightarrow> (\<exists>x r. m = Inr (x, r) \<and> f x r = Inr y)"
  by (cases "(m, f)" rule: scan_then.cases) auto

lemma scan_then_Inl:
  "scan_then m f = Inl e \<longleftrightarrow> m = Inl e \<or> (\<exists>x r. m = Inr (x, r) \<and> f x r = Inl e)"
  by (cases "(m, f)" rule: scan_then.cases) auto

lemma hook_result_Inr [simp]: "hook_result v r = Inr (x, r') \<longleftrightarrow> v = Some x \<and> r' = r"
  by (auto simp: hook_result_def split: option.splits)

lemma hook_result_Inl [simp]: "hook_result v r = Inl e \<longleftrightarrow> v = None \<and> e = HookError"
  by (auto simp: hook_result_def split: option.splits)

section \<open>Tokens\<close>

definition json_ws :: "nat \<Rightarrow> bool" where
  "json_ws c \<longleftrightarrow> c = 32 \<or> c = 9 \<or> c = 10 \<or> c = 13"

definition skip_ws :: "pystr \<Rightarrow> pystr" where
  "skip_ws s = dropWhile json_ws s"

definition is_digit :: "nat \<Rightarrow> bool" where
  "is_digit c \<longleftrightarrow> 48 \<le> c \<and> c \<le> 57"

definition hex_digit :: "nat \<Rightarrow> nat option" where
  "hex_digit c = (if is_digit c then Some (c - 48)
     else if 97 \<le> c \<and> c \<le> 102 then Some (c - 87)
     else if 65 \<le> c \<and> c \<le> 70 then Some (c - 55) else None)"

definition hex4 :: "pystr \<Rightarrow> (nat \<times> pystr) option" where
  "hex4 s = (case s of a # b # c # d # r \<Rightarrow>
       (case (hex_digit a, hex_digit b, hex_digit c, hex_digit d) of
          (Some w, Some x, Some y, Some z) \<Rightarrow> Some (((w * 16 + x) * 16 + y) * 16 + z, r)
        | _ \<Rightarrow> None)
     | _ \<Rightarrow> None)"

lemma hex_digit_quote [simp]: "hex_digit 34 = None"
  by (simp add: hex_digit_def is_digit_def)

lemma hex4_suffix:
  "hex4 s = Some (h, r) \<Longrightarrow>
    \<exists>p. s = p @ r \<and> length p = 4 \<and> 34 \<notin> set p \<and> (\<forall>r'. hex4 (p @ r') = Some (h, r'))"
  by (auto simp: hex4_def split: list.splits option.splits)

text \<open>After the escape of a high surrogate, the escape of a low one completes the pair.\<close>

definition low_escape :: "nat \<Rightarrow> pystr \<Rightarrow> (nat \<times> pystr) option" where
  "low_escape h s = (if 55296 \<le> h \<and> h \<le> 56319 then
       (case s of b # u # t \<Rightarrow>
          if b = 92 \<and> u = 117 then
            (case hex4 t of Some (l, r) \<Rightarrow>
               if 56320 \<le> l \<and> l \<le> 57343 then Some (65536 + (h - 55296) * 1024 + (l - 56320), r) else None
             | None \<Rightarrow> None)
          else None
        | _ \<Rightarrow> None)
     else None)"

lemma low_escape_suffix:
  assumes "low_escape h s = Some (c, r)"
  shows "\<exists>p. s = p @ r \<and> length p = 6 \<and> 34 \<notin> set p \<and> (\<forall>r'. low_escape h (p @ r') = Some (c, r'))"
proof -
  from assms obtain t l where s: "s = 92 # 117 # t" and h: "hex4 t = Some (l, r)"
    by (auto simp: low_escape_def split: if_splits list.splits option.splits)
  from hex4_suffix [OF h] obtain p where "t = p @ r" "length p = 4" "34 \<notin> set p"
    "\<forall>r'. hex4 (p @ r') = Some (l, r')" by blast
  with assms s h show ?thesis
    by (intro exI [of _ "92 # 117 # p"]) (auto simp: low_escape_def split: if_splits)
qed

text \<open>No later text turns a prefix that contains a quote into the escape of a low surrogate.\<close>

lemma low_escape_None:
  assumes "low_escape h (p @ r) = None" "34 \<in> set p"
  shows "low_escape h (p @ r') = None"
proof (rule ccontr)
  assume "low_escape h (p @ r') \<noteq> None"
  then obtain c w where "low_escape h (p @ r') = Some (c, w)" by auto
  from low_escape_suffix [OF this] obtain q where q: "p @ r' = q @ w" "34 \<notin> set q"
    "\<forall>r'. low_escape h (q @ r') = Some (c, r')" by blast
  from q(1) consider z where "p = q @ z" | z where "q = p @ z"
    by (auto simp: append_eq_append_conv2)
  then show False
  proof cases
    case 1
    with q(3) assms(1) show False by simp
  next
    case 2
    with q(2) assms(2) show False by simp
  qed
qed

definition simple_escape :: "nat \<Rightarrow> nat option" where
  "simple_escape e = map_of [(34, 34), (92, 92), (47, 47), (98, 8), (102, 12), (110, 10), (114, 13), (116, 9)] e"

text \<open>The text after an opening quote, up to its closing quote.\<close>

function scan_chars :: "pystr \<Rightarrow> pystr scanned" where
  "scan_chars [] = Inl DecodeError"
| "scan_chars (c # t) =
     (if c = 34 then Inr ([], t)
      else if c = 92 then
        (case t of [] \<Rightarrow> Inl DecodeError
         | e # u \<Rightarrow>
           if e = 117 then
             (case hex4 u of None \<Rightarrow> Inl DecodeError
              | Some (h, v) \<Rightarrow>
                (case low_escape h v of
                   Some (x, w) \<Rightarrow> scan_then (scan_chars w) (\<lambda>cs r. Inr (x # cs, r))
                 | None \<Rightarrow> scan_then (scan_chars v) (\<lambda>cs r. Inr (h # cs, r))))
           else (case simple_escape e of None \<Rightarrow> Inl DecodeError
                 | Some x \<Rightarrow> scan_then (scan_chars u) (\<lambda>cs r. Inr (x # cs, r))))
      else if c \<le> 31 then Inl DecodeError
      else scan_then (scan_chars t) (\<lambda>cs r. Inr (c # cs, r)))"
  by pat_completeness auto
termination
  by (relation "measure length") (auto dest!: hex4_suffix low_escape_suffix)

definition scan_digits :: "pystr \<Rightarrow> pystr \<times> pystr" where
  "scan_digits s = (takeWhile is_digit s, dropWhile is_digit s)"

definition scan_integer :: "pystr \<Rightarrow> (pystr \<times> pystr) option" where
  "scan_integer s = (let (sign, t) = (case s of c # u \<Rightarrow> if c = 45 then ([45], u) else ([], s) | [] \<Rightarrow> ([], s))
     in case t of [] \<Rightarrow> None
        | c # u \<Rightarrow> if c = 48 then Some (sign @ [48], u)
            else if is_digit c then Some (sign @ takeWhile is_digit t, dropWhile is_digit t)
            else None)"

definition scan_fraction :: "pystr \<Rightarrow> pystr \<times> pystr" where
  "scan_fraction s = (case s of c # t \<Rightarrow>
       if c = 46 \<and> takeWhile is_digit t \<noteq> [] then (46 # takeWhile is_digit t, dropWhile is_digit t) else ([], s)
     | [] \<Rightarrow> ([], s))"

definition scan_exponent :: "pystr \<Rightarrow> pystr \<times> pystr" where
  "scan_exponent s = (case s of c # t \<Rightarrow>
       if c = 101 \<or> c = 69 then
         let (sign, u) = (case t of x # y \<Rightarrow> if x = 43 \<or> x = 45 then ([x], y) else ([], t) | [] \<Rightarrow> ([], t))
         in if takeWhile is_digit u \<noteq> [] then (c # sign @ takeWhile is_digit u, dropWhile is_digit u) else ([], s)
       else ([], s)
     | [] \<Rightarrow> ([], s))"

text \<open>A number's lexeme, whether it is a float, and the rest.\<close>

definition scan_number :: "pystr \<Rightarrow> (pystr \<times> bool \<times> pystr) option" where
  "scan_number s = (case scan_integer s of None \<Rightarrow> None
     | Some (i, r1) \<Rightarrow>
       let (f, r2) = scan_fraction r1; (e, r3) = scan_exponent r2
       in Some (i @ f @ e, f \<noteq> [] \<or> e \<noteq> [], r3))"

definition starts_with :: "string \<Rightarrow> pystr \<Rightarrow> bool" where
  "starts_with w s \<longleftrightarrow> take (length w) s = lit w"

section \<open>Values\<close>

text \<open>The members of an object after its opening brace and the elements of an array after its opening
  bracket, white space skipped; the first argument is room for the loop, the second reads a value.\<close>

fun scan_members :: "nat \<Rightarrow> (pystr \<Rightarrow> 'n json scanned) \<Rightarrow> pystr \<Rightarrow> (pystr \<times> 'n json) list scanned" where
  "scan_members 0 scan s = Inl NoRoom"
| "scan_members (Suc n) scan s = (case s of [] \<Rightarrow> Inl DecodeError
     | q # t \<Rightarrow>
       if q \<noteq> 34 then Inl DecodeError
       else scan_then (scan_chars t) (\<lambda>key r.
         (case skip_ws r of [] \<Rightarrow> Inl DecodeError
          | c # u \<Rightarrow>
            if c \<noteq> 58 then Inl DecodeError
            else scan_then (scan (skip_ws u)) (\<lambda>v r2.
              (case skip_ws r2 of [] \<Rightarrow> Inl DecodeError
               | d # w \<Rightarrow>
                 if d = 125 then Inr ([(key, v)], w)
                 else if d = 44 then
                   scan_then (scan_members n scan (skip_ws w)) (\<lambda>ms r3. Inr ((key, v) # ms, r3))
                 else Inl DecodeError)))))"

fun scan_elements :: "nat \<Rightarrow> (pystr \<Rightarrow> 'n json scanned) \<Rightarrow> pystr \<Rightarrow> 'n json list scanned" where
  "scan_elements 0 scan s = Inl NoRoom"
| "scan_elements (Suc n) scan s =
     scan_then (scan s) (\<lambda>v r.
       (case skip_ws r of [] \<Rightarrow> Inl DecodeError
        | d # w \<Rightarrow>
          if d = 93 then Inr ([v], w)
          else if d = 44 then scan_then (scan_elements n scan (skip_ws w)) (\<lambda>vs r2. Inr (v # vs, r2))
          else Inl DecodeError))"

definition scan_object :: "'n decoder \<Rightarrow> (pystr \<Rightarrow> 'n json scanned) \<Rightarrow> pystr \<Rightarrow> 'n json scanned" where
  "scan_object D scan t = (case skip_ws t of [] \<Rightarrow> Inl DecodeError
     | c # u \<Rightarrow>
       if c = 125 then hook_result (pairs_hook D []) u
       else scan_then (scan_members (length t) scan (c # u)) (\<lambda>ms r. hook_result (pairs_hook D ms) r))"

definition scan_array :: "(pystr \<Rightarrow> 'n json scanned) \<Rightarrow> pystr \<Rightarrow> 'n json scanned" where
  "scan_array scan t = (case skip_ws t of [] \<Rightarrow> Inl DecodeError
     | c # u \<Rightarrow>
       if c = 93 then Inr (JArray [], u)
       else scan_then (scan_elements (length t) scan (c # u)) (\<lambda>vs r. Inr (JArray vs, r)))"

definition scan_scalar :: "'n decoder \<Rightarrow> pystr \<Rightarrow> 'n json scanned" where
  "scan_scalar D s =
     (if starts_with ''null'' s then Inr (JNull, drop 4 s)
      else if starts_with ''true'' s then Inr (JBool True, drop 4 s)
      else if starts_with ''false'' s then Inr (JBool False, drop 5 s)
      else if starts_with ''NaN'' s then hook_result (map_option JNumber (parse_constant D (lit ''NaN''))) (drop 3 s)
      else if starts_with ''Infinity'' s then
        hook_result (map_option JNumber (parse_constant D (lit ''Infinity''))) (drop 8 s)
      else if starts_with ''-Infinity'' s then
        hook_result (map_option JNumber (parse_constant D (lit ''-Infinity''))) (drop 9 s)
      else (case scan_number s of None \<Rightarrow> Inl DecodeError
        | Some (lexeme, float, r) \<Rightarrow>
          hook_result (map_option JNumber (if float then parse_float D lexeme else parse_int D lexeme)) r))"

fun scan_once :: "'n decoder \<Rightarrow> nat \<Rightarrow> pystr \<Rightarrow> 'n json scanned" where
  "scan_once D depth [] = Inl DecodeError"
| "scan_once D depth (c # t) =
     (if c = 34 then scan_then (scan_chars t) (\<lambda>cs r. Inr (JString cs, r))
      else if c = 123 then (case depth of 0 \<Rightarrow> Inl TooDeep | Suc d \<Rightarrow> scan_object D (scan_once D d) t)
      else if c = 91 then (case depth of 0 \<Rightarrow> Inl TooDeep | Suc d \<Rightarrow> scan_array (scan_once D d) t)
      else scan_scalar D (c # t))"

section \<open>What a scanner reads\<close>

text \<open>Characters that cannot continue a number.\<close>

definition stops :: "pystr \<Rightarrow> bool" where
  "stops r \<longleftrightarrow> (case r of [] \<Rightarrow> True | c # _ \<Rightarrow> \<not> is_digit c \<and> c \<noteq> 46 \<and> c \<noteq> 101 \<and> c \<noteq> 69)"

text \<open>A scanner is local when it reads a non-empty prefix and reads the same value from that prefix
  whatever follows it, as long as that cannot continue a number.\<close>

definition local_scanner :: "(pystr \<Rightarrow> 'a scanned) \<Rightarrow> bool" where
  "local_scanner f \<longleftrightarrow> (\<forall>s v r. f s = Inr (v, r) \<longrightarrow>
     (\<exists>p. p \<noteq> [] \<and> s = p @ r \<and> (\<forall>r'. stops r' \<longrightarrow> f (p @ r') = Inr (v, r'))))"

lemma local_scannerD:
  assumes "local_scanner f" "f s = Inr (v, r)"
  obtains p where "p \<noteq> []" "s = p @ r" "\<And>r'. stops r' \<Longrightarrow> f (p @ r') = Inr (v, r')"
  using assms unfolding local_scanner_def by metis

lemma skip_ws_split:
  obtains w where "s = w @ skip_ws s" "list_all json_ws w"
  by (metis list_all_iff set_takeWhileD skip_ws_def takeWhile_dropWhile_id)

lemma skip_ws_Nil [simp]: "skip_ws [] = []"
  by (simp add: skip_ws_def)

lemma skip_ws_append: "list_all json_ws w \<Longrightarrow> skip_ws (w @ s) = skip_ws s"
  by (induction w) (auto simp: skip_ws_def)

lemma skip_ws_idle [simp]: "\<not> json_ws c \<Longrightarrow> skip_ws (c # s) = c # s"
  by (simp add: skip_ws_def)

lemma skip_ws_hd: "skip_ws s = c # t \<Longrightarrow> \<not> json_ws c"
  unfolding skip_ws_def using hd_dropWhile [of json_ws s] by auto

lemma stops_ws: "list_all json_ws w \<Longrightarrow> stops (c # s) \<Longrightarrow> stops (w @ c # s)"
  by (cases w) (auto simp: stops_def json_ws_def is_digit_def)

lemma scan_chars_local:
  "scan_chars s = Inr (cs, r) \<Longrightarrow> \<exists>p. 34 \<in> set p \<and> s = p @ r \<and> (\<forall>r'. scan_chars (p @ r') = Inr (cs, r'))"
proof (induction s arbitrary: cs rule: scan_chars.induct)
  case 1
  then show ?case by simp
next
  case (2 c t)
  consider (quote) "c = 34" "t = r" "cs = []"
    | (plain) cs' where "c \<noteq> 34" "c \<noteq> 92" "31 < c" "scan_chars t = Inr (cs', r)" "cs = c # cs'"
    | (simple) e u x cs' where "c = 92" "t = e # u" "e \<noteq> 117" "simple_escape e = Some x"
        "scan_chars u = Inr (cs', r)" "cs = x # cs'"
    | (single) u h v cs' where "c = 92" "t = 117 # u" "hex4 u = Some (h, v)" "low_escape h v = None"
        "scan_chars v = Inr (cs', r)" "cs = h # cs'"
    | (pair) u h v x w cs' where "c = 92" "t = 117 # u" "hex4 u = Some (h, v)" "low_escape h v = Some (x, w)"
        "scan_chars w = Inr (cs', r)" "cs = x # cs'"
    using 2(5) by (auto split: if_splits list.splits option.splits)
  then show ?case
  proof cases
    case quote
    then show ?thesis by (intro exI [of _ "[34]"]) simp
  next
    case plain
    from 2(4) [OF plain(1,2) _ plain(4)] plain(3) obtain p where
      "34 \<in> set p" "t = p @ r" "\<forall>r'. scan_chars (p @ r') = Inr (cs', r')" by auto
    with plain show ?thesis by (intro exI [of _ "c # p"]) simp
  next
    case simple
    from 2(3) [OF _ simple(1,2,3,4,5)] simple(1) obtain p where
      "34 \<in> set p" "u = p @ r" "\<forall>r'. scan_chars (p @ r') = Inr (cs', r')" by auto
    with simple show ?thesis by (intro exI [of _ "92 # e # p"]) simp
  next
    case single
    from 2(1) [OF _ single(1,2) refl single(3) refl single(4,5)] single(1) obtain p where
      p: "34 \<in> set p" "v = p @ r" "\<forall>r'. scan_chars (p @ r') = Inr (cs', r')" by auto
    from hex4_suffix [OF single(3)] obtain p4 where
      p4: "u = p4 @ v" "\<forall>r'. hex4 (p4 @ r') = Some (h, r')" by blast
    have "low_escape h (p @ r') = None" for r'
      using low_escape_None [OF _ p(1)] single(4) p(2) by metis
    with single p p4 show ?thesis by (intro exI [of _ "92 # 117 # p4 @ p"]) simp
  next
    case pair
    from 2(2) [OF _ pair(1,2) refl pair(3) refl pair(4) refl pair(5)] pair(1) obtain p where
      p: "34 \<in> set p" "w = p @ r" "\<forall>r'. scan_chars (p @ r') = Inr (cs', r')" by auto
    from hex4_suffix [OF pair(3)] obtain p4 where
      p4: "u = p4 @ v" "\<forall>r'. hex4 (p4 @ r') = Some (h, r')" by blast
    from low_escape_suffix [OF pair(4)] obtain p6 where
      p6: "v = p6 @ w" "\<forall>r'. low_escape h (p6 @ r') = Some (x, r')" by blast
    from pair p p4 p6 show ?thesis by (intro exI [of _ "92 # 117 # p4 @ p6 @ p"]) simp
  qed
qed

definition no_digit :: "pystr \<Rightarrow> bool" where
  "no_digit r \<longleftrightarrow> (case r of [] \<Rightarrow> True | c # _ \<Rightarrow> \<not> is_digit c)"

lemma no_digit_Cons [simp]: "no_digit (c # r) \<longleftrightarrow> \<not> is_digit c" "no_digit []"
  by (simp_all add: no_digit_def)

lemma takeWhile_digits: "no_digit r \<Longrightarrow> list_all is_digit ds \<Longrightarrow>
    takeWhile is_digit (ds @ r) = ds \<and> dropWhile is_digit (ds @ r) = r"
  by (induction ds) (auto simp: no_digit_def split: list.splits)

lemma digits_all [simp]: "list_all is_digit (takeWhile is_digit s)"
  by (auto simp: list_all_iff dest: set_takeWhileD)

lemma digit_codes [simp]: "is_digit 48" "\<not> is_digit 45" "\<not> is_digit 46" "\<not> is_digit 101" "\<not> is_digit 69"
    "\<not> is_digit 43"
  by (simp_all add: is_digit_def)

lemma scan_integer_unsigned:
  assumes "\<And>u. s \<noteq> 45 # u"
  shows "scan_integer s = (case s of [] \<Rightarrow> None | c # u \<Rightarrow> if c = 48 then Some ([48], u)
    else if is_digit c then Some (takeWhile is_digit s, dropWhile is_digit s) else None)"
  using assms by (auto simp: scan_integer_def split: list.splits)

lemma scan_integer_signed:
  "scan_integer (45 # s) = (case s of [] \<Rightarrow> None | c # u \<Rightarrow> if c = 48 then Some (45 # [48], u)
    else if is_digit c then Some (45 # takeWhile is_digit s, dropWhile is_digit s) else None)"
  by (simp add: scan_integer_def split: list.splits)

lemma scan_integer_local:
  assumes "scan_integer s = Some (i, r)"
  shows "s = i @ r" "\<exists>c l. is_digit c \<and> (i = c # l \<or> i = 45 # c # l)"
    "no_digit r' \<Longrightarrow> scan_integer (i @ r') = Some (i, r')"
proof -
  define body where "body t = (case t of [] \<Rightarrow> None | c # u \<Rightarrow> if c = 48 then Some ([48], u)
    else if is_digit c then Some (takeWhile is_digit t, dropWhile is_digit t) else None)" for t
  have body: "t = j @ q \<and> (\<exists>c l. is_digit c \<and> j = c # l) \<and> (no_digit r' \<longrightarrow> body (j @ r') = Some (j, r'))"
    if "body t = Some (j, q)" for t j q
  proof (cases t)
    case Nil
    with that show ?thesis by (simp add: body_def)
  next
    case (Cons c u)
    show ?thesis
    proof (cases "c = 48")
      case True
      with that Cons show ?thesis by (auto simp: body_def)
    next
      case False
      with that Cons have d: "is_digit c" "j = takeWhile is_digit t" "q = dropWhile is_digit t"
        by (auto simp: body_def split: if_splits)
      then have j: "j = c # takeWhile is_digit u" "list_all is_digit j" by (simp_all add: Cons)
      have "body (j @ r') = Some (j, r')" if "no_digit r'"
        using takeWhile_digits [OF that j(2)] False d(1) j(1) by (simp add: body_def)
      with d j show ?thesis by (metis takeWhile_dropWhile_id)
    qed
  qed
  show "s = i @ r" "\<exists>c l. is_digit c \<and> (i = c # l \<or> i = 45 # c # l)"
    "no_digit r' \<Longrightarrow> scan_integer (i @ r') = Some (i, r')"
  proof -
    have *: "s = i @ r \<and> (\<exists>c l. is_digit c \<and> (i = c # l \<or> i = 45 # c # l)) \<and>
        (no_digit r' \<longrightarrow> scan_integer (i @ r') = Some (i, r'))"
    proof (cases "\<exists>u. s = 45 # u")
      case True
      then obtain u where u: "s = 45 # u" by blast
      have sg: "scan_integer (45 # t) = map_option (\<lambda>(j, q). (45 # j, q)) (body t)" for t
        by (simp add: scan_integer_signed body_def split: list.splits)
      from assms u obtain j where j: "body u = Some (j, r)" "i = 45 # j"
        by (auto simp: sg)
      from body [OF j(1)] j u show ?thesis by (auto simp: sg)
    next
      case False
      then have "body s = Some (i, r)" using assms scan_integer_unsigned [of s] by (simp add: body_def)
      from body [OF this] obtain c l where b: "s = i @ r" "is_digit c" "i = c # l"
        "no_digit r' \<longrightarrow> body (i @ r') = Some (i, r')" by auto
      then have "i @ r' \<noteq> 45 # u" for u by auto
      then have "scan_integer (i @ r') = body (i @ r')"
        unfolding body_def by (rule scan_integer_unsigned)
      with b show ?thesis by auto
    qed
    then show "s = i @ r" "\<exists>c l. is_digit c \<and> (i = c # l \<or> i = 45 # c # l)"
      "no_digit r' \<Longrightarrow> scan_integer (i @ r') = Some (i, r')" by blast+
  qed
qed

lemma scan_fraction_local:
  assumes "scan_fraction s = (f, r)"
  shows "s = f @ r" "f = [] \<or> (\<exists>l. f = 46 # l)"
    "no_digit r' \<Longrightarrow> (f = [] \<longrightarrow> r' = [] \<or> hd r' \<noteq> 46) \<Longrightarrow> scan_fraction (f @ r') = (f, r')"
proof -
  consider "f = []" "s = r" | t where "s = 46 # t" "takeWhile is_digit t \<noteq> []" "f = 46 # takeWhile is_digit t"
      "r = dropWhile is_digit t"
    using assms by (auto simp: scan_fraction_def split: list.splits if_splits)
  then have *: "s = f @ r \<and> (f = [] \<or> (\<exists>l. f = 46 # l)) \<and>
    (no_digit r' \<longrightarrow> (f = [] \<longrightarrow> r' = [] \<or> hd r' \<noteq> 46) \<longrightarrow> scan_fraction (f @ r') = (f, r'))"
  proof cases
    case 1
    then show ?thesis by (auto simp: scan_fraction_def split: list.splits)
  next
    case 2
    then show ?thesis
      using takeWhile_digits [of r' "takeWhile is_digit t"] by (auto simp: scan_fraction_def)
  qed
  then show "s = f @ r" "f = [] \<or> (\<exists>l. f = 46 # l)"
    "no_digit r' \<Longrightarrow> (f = [] \<longrightarrow> r' = [] \<or> hd r' \<noteq> 46) \<Longrightarrow> scan_fraction (f @ r') = (f, r')"
    by blast+
qed

lemma scan_exponent_local:
  assumes "scan_exponent s = (e, r)"
  shows "s = e @ r" "e = [] \<or> (\<exists>c l. e = c # l \<and> (c = 101 \<or> c = 69))"
    "stops r' \<Longrightarrow> scan_exponent (e @ r') = (e, r')"
proof -
  consider "e = []" "s = r"
    | (signed) c x u where "s = c # x # u" "c = 101 \<or> c = 69" "x = 43 \<or> x = 45" "takeWhile is_digit u \<noteq> []"
      "e = c # x # takeWhile is_digit u" "r = dropWhile is_digit u"
    | (unsigned) c u where "s = c # u" "c = 101 \<or> c = 69" "takeWhile is_digit u \<noteq> []"
      "e = c # takeWhile is_digit u" "r = dropWhile is_digit u"
    using assms by (auto simp: scan_exponent_def Let_def split: list.splits if_splits)
  then have *: "s = e @ r \<and> (e = [] \<or> (\<exists>c l. e = c # l \<and> (c = 101 \<or> c = 69))) \<and>
    (stops r' \<longrightarrow> scan_exponent (e @ r') = (e, r'))"
  proof cases
    case 1
    then show ?thesis by (auto simp: scan_exponent_def stops_def split: list.splits)
  next
    case signed
    have "no_digit r'" if "stops r'" using that by (auto simp: stops_def no_digit_def split: list.splits)
    then show ?thesis
      using signed takeWhile_digits [of r' "takeWhile is_digit u"] by (auto simp: scan_exponent_def)
  next
    case unsigned
    have "no_digit r'" if "stops r'" using that by (auto simp: stops_def no_digit_def split: list.splits)
    moreover obtain d l where d: "takeWhile is_digit u = d # l" "is_digit d" "list_all is_digit l"
      using unsigned(3) digits_all [of u] by (cases "takeWhile is_digit u") auto
    moreover from this have "d \<noteq> 43" "d \<noteq> 45" "u = d # l @ dropWhile is_digit u"
      using takeWhile_dropWhile_id [of is_digit u] by auto
    ultimately show ?thesis
      using unsigned takeWhile_digits [of r' l] by (auto simp: scan_exponent_def)
  qed
  then show "s = e @ r" "e = [] \<or> (\<exists>c l. e = c # l \<and> (c = 101 \<or> c = 69))"
    "stops r' \<Longrightarrow> scan_exponent (e @ r') = (e, r')" by blast+
qed

lemma scan_number_local:
  assumes "scan_number s = Some (x, fl, r)"
  shows "s = x @ r" "\<exists>c l. is_digit c \<and> (x = c # l \<or> x = 45 # c # l)"
    "stops r' \<Longrightarrow> scan_number (x @ r') = Some (x, fl, r')"
proof -
  from assms obtain i r1 where i: "scan_integer s = Some (i, r1)" by (auto simp: scan_number_def split: option.splits)
  obtain f r2 where f: "scan_fraction r1 = (f, r2)" by fastforce
  obtain e r3 where e: "scan_exponent r2 = (e, r3)" by fastforce
  from assms i f e have x: "x = i @ f @ e" "fl = (f \<noteq> [] \<or> e \<noteq> [])" "r = r3"
    by (auto simp: scan_number_def)
  note loc = scan_integer_local [OF i] scan_fraction_local [OF f] scan_exponent_local [OF e]
  show "s = x @ r" using loc x by simp
  show "\<exists>c l. is_digit c \<and> (x = c # l \<or> x = 45 # c # l)" using loc(2) x(1) by (metis append_Cons)
  assume r': "stops r'"
  have "no_digit (e @ r')" "f = [] \<longrightarrow> e @ r' = [] \<or> hd (e @ r') \<noteq> 46"
    using loc(8) r' by (auto simp: stops_def no_digit_def split: list.splits)
  moreover from this have "no_digit (f @ e @ r')" using loc(5) by auto
  ultimately show "scan_number (x @ r') = Some (x, fl, r')"
    using loc(3,6,9) r' x by (simp add: scan_number_def)
qed

lemma starts_with_split: "starts_with w s \<longleftrightarrow> (\<exists>r. s = lit w @ r)"
proof
  assume "starts_with w s"
  then have "s = lit w @ drop (length w) s"
    by (metis append_take_drop_id starts_with_def)
  then show "\<exists>r. s = lit w @ r" by blast
next
  assume "\<exists>r. s = lit w @ r"
  then show "starts_with w s" by (auto simp: starts_with_def lit_def)
qed

lemma literal_codes:
  "lit ''null'' = [110, 117, 108, 108]" "lit ''true'' = [116, 114, 117, 101]"
  "lit ''false'' = [102, 97, 108, 115, 101]" "lit ''NaN'' = [78, 97, 78]"
  "lit ''Infinity'' = [73, 110, 102, 105, 110, 105, 116, 121]"
  "lit ''-Infinity'' = [45, 73, 110, 102, 105, 110, 105, 116, 121]"
  by (simp_all add: lit_def)

lemma scan_scalar_literals:
  "scan_scalar D (lit ''null'' @ t) = Inr (JNull, t)"
  "scan_scalar D (lit ''true'' @ t) = Inr (JBool True, t)"
  "scan_scalar D (lit ''false'' @ t) = Inr (JBool False, t)"
  "scan_scalar D (lit ''NaN'' @ t) = hook_result (map_option JNumber (parse_constant D (lit ''NaN''))) t"
  "scan_scalar D (lit ''Infinity'' @ t) = hook_result (map_option JNumber (parse_constant D (lit ''Infinity''))) t"
  "scan_scalar D (lit ''-Infinity'' @ t) = hook_result (map_option JNumber (parse_constant D (lit ''-Infinity''))) t"
  by (simp_all add: scan_scalar_def starts_with_def literal_codes)

lemma scan_scalar_local: "local_scanner (scan_scalar D)"
  unfolding local_scanner_def
proof (intro allI impI)
  fix s v r assume s: "scan_scalar D s = Inr (v, r)"
  show "\<exists>p. p \<noteq> [] \<and> s = p @ r \<and> (\<forall>r'. stops r' \<longrightarrow> scan_scalar D (p @ r') = Inr (v, r'))"
  proof (cases "\<exists>w \<in> {''null'', ''true'', ''false'', ''NaN'', ''Infinity'', ''-Infinity''}. starts_with w s")
    case True
    then obtain w t where w: "w \<in> {''null'', ''true'', ''false'', ''NaN'', ''Infinity'', ''-Infinity''}" "s = lit w @ t"
      by (auto simp: starts_with_split)
    have "t = r \<and> scan_scalar D (lit w @ r') = Inr (v, r')" for r'
      using w(1) s unfolding w(2)
      by (elim insertE emptyE) (simp_all only: scan_scalar_literals hook_result_Inr prod.inject sum.inject simp_thms)
    with w show ?thesis by (intro exI [of _ "lit w"]) auto
  next
    case False
    with s obtain x fl n where n: "scan_number s = Some (x, fl, r)" "v = JNumber n"
        "(if fl then parse_float D x else parse_int D x) = Some n"
      by (auto simp: scan_scalar_def split: option.splits)
    note loc = scan_number_local [OF n(1)]
    obtain c l where x: "is_digit c" "x = c # l \<or> x = 45 # c # l" using loc(2) by blast
    then have "c \<noteq> 45" "c \<noteq> 110" "c \<noteq> 116" "c \<noteq> 102" "c \<noteq> 78" "c \<noteq> 73" by (auto simp: is_digit_def)
    with x(2) have no_literal: "\<not> starts_with ''null'' (x @ r')" "\<not> starts_with ''true'' (x @ r')"
      "\<not> starts_with ''false'' (x @ r')" "\<not> starts_with ''NaN'' (x @ r')"
      "\<not> starts_with ''Infinity'' (x @ r')" "\<not> starts_with ''-Infinity'' (x @ r')" for r'
      by (auto simp: starts_with_def literal_codes)
    have "scan_scalar D (x @ r') = Inr (v, r')" if "stops r'" for r'
      using no_literal n loc(3) [OF that] by (simp add: scan_scalar_def)
    with loc(1,2) show ?thesis by blast
  qed
qed

lemma stops_after_ws:
  assumes "list_all json_ws w" "c \<in> {44, 58, 93, 125}"
  shows "stops (w @ c # s)"
  using assms by (cases w) (auto simp: stops_def json_ws_def is_digit_def)

lemma skip_ws_token:
  assumes "skip_ws r = c # t"
  obtains w where "list_all json_ws w" "r = w @ c # t" "\<not> json_ws c"
    "\<And>t'. skip_ws (w @ c # t') = c # t'"
proof -
  from skip_ws_split [of r] obtain w where "r = w @ skip_ws r" "list_all json_ws w" by blast
  with that assms skip_ws_hd [OF assms] show ?thesis by (simp add: skip_ws_append)
qed

lemma skip_ws_prefix:
  assumes "skip_ws s = p @ r" "p \<noteq> []"
  obtains w where "s = w @ p @ r" "\<And>r'. skip_ws (w @ p @ r') = p @ r'"
proof -
  from skip_ws_split [of s] obtain w where w: "s = w @ skip_ws s" "list_all json_ws w" by blast
  have "skip_ws (w @ p @ r') = p @ r'" for r'
    using skip_ws_append [OF w(2)] assms skip_ws_hd [of s] by (cases p) auto
  with that w(1) assms(1) show ?thesis by metis
qed

text \<open>The separator after a value decides between one more round and the end.\<close>

lemma scan_elements_round:
  assumes "scan_elements (Suc n) scan s = Inr (vs, r)"
  obtains v q d t where "scan s = Inr (v, q)" "skip_ws q = d # t" "d = 93 \<or> d = 44"
    "d = 93 \<Longrightarrow> vs = [v] \<and> t = r"
    "d = 44 \<Longrightarrow> \<exists>vs'. scan_elements n scan (skip_ws t) = Inr (vs', r) \<and> vs = v # vs'"
proof -
  from assms obtain v q where v: "scan s = Inr (v, q)"
    and e: "(case skip_ws q of [] \<Rightarrow> Inl DecodeError
        | d # w \<Rightarrow> if d = 93 then Inr ([v], w)
          else if d = 44 then scan_then (scan_elements n scan (skip_ws w)) (\<lambda>vs r2. Inr (v # vs, r2))
          else Inl DecodeError) = Inr (vs, r)"
    by auto
  then obtain d t where d: "skip_ws q = d # t" "d = 93 \<or> d = 44" by (auto split: list.splits if_splits)
  with e have "d = 93 \<Longrightarrow> vs = [v] \<and> t = r"
      "d = 44 \<Longrightarrow> \<exists>vs'. scan_elements n scan (skip_ws t) = Inr (vs', r) \<and> vs = v # vs'"
    by auto
  with that v d show ?thesis by blast
qed

lemma scan_members_round:
  assumes "scan_members (Suc n) scan s = Inr (ms, r)"
  obtains s' key q1 q2 v q d t where "s = 34 # s'" "scan_chars s' = Inr (key, q1)" "skip_ws q1 = 58 # q2"
    "scan (skip_ws q2) = Inr (v, q)" "skip_ws q = d # t" "d = 125 \<or> d = 44"
    "d = 125 \<Longrightarrow> ms = [(key, v)] \<and> t = r"
    "d = 44 \<Longrightarrow> \<exists>ms'. scan_members n scan (skip_ws t) = Inr (ms', r) \<and> ms = (key, v) # ms'"
proof -
  from assms obtain s' where s': "s = 34 # s'" by (auto split: list.splits if_splits)
  with assms obtain key q1 where key: "scan_chars s' = Inr (key, q1)" by auto
  with assms s' obtain q2 where colon: "skip_ws q1 = 58 # q2" by (auto split: list.splits if_splits)
  with assms s' key obtain v q where v: "scan (skip_ws q2) = Inr (v, q)"
    and e: "(case skip_ws q of [] \<Rightarrow> Inl DecodeError
        | d # w \<Rightarrow> if d = 125 then Inr ([(key, v)], w)
          else if d = 44 then scan_then (scan_members n scan (skip_ws w)) (\<lambda>ms r. Inr ((key, v) # ms, r))
          else Inl DecodeError) = Inr (ms, r)"
    by auto
  then obtain d t where d: "skip_ws q = d # t" "d = 125 \<or> d = 44" by (auto split: list.splits if_splits)
  with e have "d = 125 \<Longrightarrow> ms = [(key, v)] \<and> t = r"
      "d = 44 \<Longrightarrow> \<exists>ms'. scan_members n scan (skip_ws t) = Inr (ms', r) \<and> ms = (key, v) # ms'"
    by auto
  with that s' key colon v d show ?thesis by blast
qed

lemma scan_elements_local:
  assumes "local_scanner scan" "scan_elements n scan s = Inr (vs, r)"
  shows "\<exists>p. p \<noteq> [] \<and> s = p @ r \<and> (\<forall>r' m. length p \<le> m \<longrightarrow> scan_elements m scan (p @ r') = Inr (vs, r'))"
  using assms(2)
proof (induction n arbitrary: s vs)
  case 0
  then show ?case by simp
next
  case (Suc n)
  from scan_elements_round [OF Suc.prems] obtain v q d t where v: "scan s = Inr (v, q)"
    and d: "skip_ws q = d # t" "d = 93 \<or> d = 44"
    and d': "d = 93 \<Longrightarrow> vs = [v] \<and> t = r"
      "d = 44 \<Longrightarrow> \<exists>vs'. scan_elements n scan (skip_ws t) = Inr (vs', r) \<and> vs = v # vs'"
    by blast
  from local_scannerD [OF assms(1) v] obtain p where p: "p \<noteq> []" "s = p @ q"
    "\<And>r'. stops r' \<Longrightarrow> scan (p @ r') = Inr (v, r')" by blast
  from skip_ws_token [OF d(1)] obtain w where w: "list_all json_ws w" "q = w @ d # t"
    "\<And>t'. skip_ws (w @ d # t') = d # t'" by blast
  have v': "scan (p @ w @ d # t') = Inr (v, w @ d # t')" for t'
    using p(3) stops_after_ws [OF w(1)] d(2) by auto
  show ?case
  proof (cases "d = 93")
    case True
    have "scan_elements m scan (p @ w @ d # r') = Inr (vs, r')" if "0 < m" for m r'
      using that v' w(3) d'(1) [OF True] True by (cases m) auto
    with p(1,2) w(2) d'(1) [OF True] show ?thesis by (intro exI [of _ "p @ w @ [d]"]) auto
  next
    case False
    with d d' obtain vs' where e: "d = 44" "scan_elements n scan (skip_ws t) = Inr (vs', r)" "vs = v # vs'" by auto
    from Suc.IH [OF e(2)] obtain p2 where p2: "p2 \<noteq> []" "skip_ws t = p2 @ r"
      "\<And>r' m. length p2 \<le> m \<Longrightarrow> scan_elements m scan (p2 @ r') = Inr (vs', r')" by blast
    from skip_ws_prefix [OF p2(2,1)] obtain w2 where w2: "t = w2 @ p2 @ r" "\<And>r'. skip_ws (w2 @ p2 @ r') = p2 @ r'"
      by blast
    have "scan_elements m scan (p @ w @ d # w2 @ p2 @ r') = Inr (vs, r')"
      if "length (p @ w @ d # w2 @ p2) \<le> m" for m r'
      using that v' w(3) e p2(3) w2(2) by (cases m) auto
    with p(1,2) w(2) w2(1) show ?thesis
      by (intro exI [of _ "p @ w @ d # w2 @ p2"]) auto
  qed
qed

lemma scan_members_local:
  assumes "local_scanner scan" "scan_members n scan s = Inr (ms, r)"
  shows "\<exists>p. p \<noteq> [] \<and> s = p @ r \<and> (\<forall>r' m. length p \<le> m \<longrightarrow> scan_members m scan (p @ r') = Inr (ms, r'))"
  using assms(2)
proof (induction n arbitrary: s ms)
  case 0
  then show ?case by simp
next
  case (Suc n)
  from scan_members_round [OF Suc.prems] obtain s' key q1 q2 v q d t where s': "s = 34 # s'"
    and key: "scan_chars s' = Inr (key, q1)" and colon: "skip_ws q1 = 58 # q2"
    and v: "scan (skip_ws q2) = Inr (v, q)" and d: "skip_ws q = d # t" "d = 125 \<or> d = 44"
    and d': "d = 125 \<Longrightarrow> ms = [(key, v)] \<and> t = r"
      "d = 44 \<Longrightarrow> \<exists>ms'. scan_members n scan (skip_ws t) = Inr (ms', r) \<and> ms = (key, v) # ms'"
    by blast
  from scan_chars_local [OF key] obtain pk where pk: "s' = pk @ q1" "\<And>r'. scan_chars (pk @ r') = Inr (key, r')"
    by blast
  from skip_ws_token [OF colon] obtain w1 where w1: "q1 = w1 @ 58 # q2" "\<And>t'. skip_ws (w1 @ 58 # t') = 58 # t'"
    by blast
  from local_scannerD [OF assms(1) v] obtain p where p: "p \<noteq> []" "skip_ws q2 = p @ q"
    "\<And>r'. stops r' \<Longrightarrow> scan (p @ r') = Inr (v, r')" by blast
  from skip_ws_prefix [OF p(2,1)] obtain w2 where w2: "q2 = w2 @ p @ q" "\<And>r'. skip_ws (w2 @ p @ r') = p @ r'"
    by blast
  from skip_ws_token [OF d(1)] obtain w where w: "list_all json_ws w" "q = w @ d # t"
    "\<And>t'. skip_ws (w @ d # t') = d # t'" by blast
  have v': "scan (p @ w @ d # t') = Inr (v, w @ d # t')" for t'
    using p(3) stops_after_ws [OF w(1)] d(2) by auto
  note member = s' pk w1 w2 w v'
  show ?case
  proof (cases "d = 125")
    case True
    have "scan_members m scan ((34 # pk @ w1 @ 58 # w2 @ p @ w @ [d]) @ r') = Inr (ms, r')" if "0 < m" for m r'
      using that d'(1) [OF True] True
      by (cases m) (auto simp: pk(2) w1(2) w2(2) v' [unfolded True] w(3) [unfolded True])
    with member d'(1) [OF True] show ?thesis
      by (intro exI [of _ "34 # pk @ w1 @ 58 # w2 @ p @ w @ [d]"]) auto
  next
    case False
    with d d' obtain ms' where e: "d = 44" "scan_members n scan (skip_ws t) = Inr (ms', r)" "ms = (key, v) # ms'"
      by auto
    from Suc.IH [OF e(2)] obtain p2 where p2: "p2 \<noteq> []" "skip_ws t = p2 @ r"
      "\<And>r' m. length p2 \<le> m \<Longrightarrow> scan_members m scan (p2 @ r') = Inr (ms', r')" by blast
    from skip_ws_prefix [OF p2(2,1)] obtain w3 where w3: "t = w3 @ p2 @ r" "\<And>r'. skip_ws (w3 @ p2 @ r') = p2 @ r'"
      by blast
    have "scan_members m scan ((34 # pk @ w1 @ 58 # w2 @ p @ w @ d # w3 @ p2) @ r') = Inr (ms, r')"
      if "length (34 # pk @ w1 @ 58 # w2 @ p @ w @ d # w3 @ p2) \<le> m" for m r'
      using that e p2(3) by (cases m) (auto simp: pk(2) w1(2) w2(2) v' [unfolded e(1)] w(3) [unfolded e(1)] w3(2))
    with member w3 show ?thesis
      by (intro exI [of _ "34 # pk @ w1 @ 58 # w2 @ p @ w @ d # w3 @ p2"]) auto
  qed
qed

lemma scan_object_local:
  assumes "local_scanner scan" "scan_object D scan t = Inr (v, r)"
  shows "\<exists>p. t = p @ r \<and> (\<forall>r'. scan_object D scan (p @ r') = Inr (v, r'))"
proof -
  from assms(2) obtain c u where c: "skip_ws t = c # u" by (auto simp: scan_object_def split: list.splits)
  show ?thesis
  proof (cases "c = 125")
    case True
    from skip_ws_token [OF c] obtain w where "t = w @ c # u" "\<And>t'. skip_ws (w @ c # t') = c # t'" by blast
    with assms(2) c True show ?thesis
      by (intro exI [of _ "w @ [c]"]) (auto simp: scan_object_def)
  next
    case False
    with assms(2) c obtain ms where ms: "scan_members (length t) scan (skip_ws t) = Inr (ms, r)"
        "pairs_hook D ms = Some v"
      by (auto simp: scan_object_def)
    from scan_members_local [OF assms(1) ms(1)] obtain p where p: "p \<noteq> []" "skip_ws t = p @ r"
      "\<And>r' m. length p \<le> m \<Longrightarrow> scan_members m scan (p @ r') = Inr (ms, r')" by blast
    from skip_ws_prefix [OF p(2,1)] obtain w where w: "t = w @ p @ r" "\<And>r'. skip_ws (w @ p @ r') = p @ r'"
      by blast
    from p(1,2) c obtain p' where "p = c # p'" by (cases p) auto
    with False ms(2) p(3) w(2) have "scan_object D scan ((w @ p) @ r') = Inr (v, r')" for r'
      by (simp add: scan_object_def del: scan_members.simps)
    with w(1) show ?thesis by (intro exI [of _ "w @ p"]) simp
  qed
qed

lemma scan_array_local:
  assumes "local_scanner scan" "scan_array scan t = Inr (v, r)"
  shows "\<exists>p. t = p @ r \<and> (\<forall>r'. scan_array scan (p @ r') = Inr (v, r'))"
proof -
  from assms(2) obtain c u where c: "skip_ws t = c # u" by (auto simp: scan_array_def split: list.splits)
  show ?thesis
  proof (cases "c = 93")
    case True
    from skip_ws_token [OF c] obtain w where "t = w @ c # u" "\<And>t'. skip_ws (w @ c # t') = c # t'" by blast
    with assms(2) c True show ?thesis
      by (intro exI [of _ "w @ [c]"]) (auto simp: scan_array_def)
  next
    case False
    with assms(2) c obtain vs where vs: "scan_elements (length t) scan (skip_ws t) = Inr (vs, r)" "v = JArray vs"
      by (auto simp: scan_array_def)
    from scan_elements_local [OF assms(1) vs(1)] obtain p where p: "p \<noteq> []" "skip_ws t = p @ r"
      "\<And>r' m. length p \<le> m \<Longrightarrow> scan_elements m scan (p @ r') = Inr (vs, r')" by blast
    from skip_ws_prefix [OF p(2,1)] obtain w where w: "t = w @ p @ r" "\<And>r'. skip_ws (w @ p @ r') = p @ r'"
      by blast
    from p(1,2) c obtain p' where "p = c # p'" by (cases p) auto
    with False vs(2) p(3) w(2) have "scan_array scan ((w @ p) @ r') = Inr (v, r')" for r'
      by (simp add: scan_array_def del: scan_elements.simps)
    with w(1) show ?thesis by (intro exI [of _ "w @ p"]) simp
  qed
qed

lemma scan_once_cases:
  assumes "scan_once D depth s = Inr (v, r)"
  obtains (string) t cs where "s = 34 # t" "scan_chars t = Inr (cs, r)" "v = JString cs"
    | (object) d t where "s = 123 # t" "depth = Suc d" "scan_object D (scan_once D d) t = Inr (v, r)"
    | (array) d t where "s = 91 # t" "depth = Suc d" "scan_array (scan_once D d) t = Inr (v, r)"
    | (scalar) c t where "s = c # t" "c \<noteq> 34" "c \<noteq> 123" "c \<noteq> 91" "scan_scalar D s = Inr (v, r)"
  using assms by (cases s) (auto split: if_splits nat.splits)

lemma scan_once_local_step:
  assumes "\<And>d. depth = Suc d \<Longrightarrow> local_scanner (scan_once D d)"
  shows "local_scanner (scan_once D depth)"
  unfolding local_scanner_def
proof (intro allI impI)
  fix s v r assume "scan_once D depth s = Inr (v, r)"
  then show "\<exists>p. p \<noteq> [] \<and> s = p @ r \<and> (\<forall>r'. stops r' \<longrightarrow> scan_once D depth (p @ r') = Inr (v, r'))"
  proof (cases rule: scan_once_cases)
    case (string t cs)
    from scan_chars_local [OF string(2)] obtain p where "t = p @ r" "\<And>r'. scan_chars (p @ r') = Inr (cs, r')"
      by blast
    with string show ?thesis by (intro exI [of _ "34 # p"]) simp
  next
    case (object d t)
    from scan_object_local [OF assms [OF object(2)] object(3)] object
    obtain p where "t = p @ r" "\<And>r'. scan_object D (scan_once D d) (p @ r') = Inr (v, r')" by blast
    with object show ?thesis by (intro exI [of _ "123 # p"]) simp
  next
    case (array d t)
    from scan_array_local [OF assms [OF array(2)] array(3)]
    obtain p where "t = p @ r" "\<And>r'. scan_array (scan_once D d) (p @ r') = Inr (v, r')" by blast
    with array show ?thesis by (intro exI [of _ "91 # p"]) simp
  next
    case (scalar c t)
    from local_scannerD [OF scan_scalar_local scalar(5)] obtain p where p: "p \<noteq> []" "s = p @ r"
      "\<And>r'. stops r' \<Longrightarrow> scan_scalar D (p @ r') = Inr (v, r')" by blast
    with scalar obtain p' where "p = c # p'" by (cases p) auto
    with p scalar show ?thesis by (intro exI [of _ p]) auto
  qed
qed

lemma scan_once_local: "local_scanner (scan_once D depth)"
  by (induction depth) (rule scan_once_local_step; simp)+

text \<open>The loops have room: no scan ends for want of it.\<close>

lemma scan_elements_room:
  assumes "local_scanner scan" "\<And>s. scan s \<noteq> Inl NoRoom" "length s \<le> n" "0 < n"
  shows "scan_elements n scan s \<noteq> Inl NoRoom"
  using assms(3,4)
proof (induction n arbitrary: s)
  case 0
  then show ?case by simp
next
  case (Suc n)
  have "length (skip_ws w) < n" if "scan s = Inr (v, r)" "skip_ws r = d # w" for v r d w
  proof -
    from local_scannerD [OF assms(1) that(1)] have "length r < length s" by (metis length_append length_greater_0_conv less_add_same_cancel2)
    moreover have "length (skip_ws r) \<le> length r" "length (skip_ws w) \<le> length w"
      by (simp_all add: skip_ws_def length_dropWhile_le)
    ultimately show ?thesis using that(2) Suc.prems by simp
  qed
  then have "scan_elements n scan (skip_ws w) \<noteq> Inl NoRoom" if "scan s = Inr (v, r)" "skip_ws r = d # w" for v r d w
    using Suc.IH [of "skip_ws w"] that by fastforce
  with assms(2) show ?case
    by (auto simp: scan_then_Inl split: list.splits)
qed

lemma scan_chars_room: "scan_chars s \<noteq> Inl NoRoom"
  by (induction s rule: scan_chars.induct) (auto simp: scan_then_Inl split: list.splits option.splits)

lemma scan_members_room:
  assumes "local_scanner scan" "\<And>s. scan s \<noteq> Inl NoRoom" "length s \<le> n" "0 < n"
  shows "scan_members n scan s \<noteq> Inl NoRoom"
  using assms(3,4)
proof (induction n arbitrary: s)
  case 0
  then show ?case by simp
next
  case (Suc n)
  have "length (skip_ws w) < n"
    if "s = q # t" "scan_chars t = Inr (key, r)" "skip_ws r = c # u" "scan (skip_ws u) = Inr (v, r2)"
      "skip_ws r2 = d # w" for q t key r c u v r2 d w
  proof -
    have "length r2 < length (skip_ws u)"
      using local_scannerD [OF assms(1) that(4)]
      by (metis length_append length_greater_0_conv less_add_same_cancel2)
    moreover have "length r \<le> length t"
      using scan_chars_local [OF that(2)] by auto
    moreover have "length (skip_ws x) \<le> length x" for x
      by (simp add: skip_ws_def length_dropWhile_le)
    from this [of r] this [of u] this [of r2] this [of w]
    have "length u < length r" "length (skip_ws u) \<le> length u" "length w < length r2"
      "length (skip_ws w) \<le> length w" using that by simp_all
    ultimately show ?thesis using that(1) Suc.prems by simp
  qed
  then have "scan_members n scan (skip_ws w) \<noteq> Inl NoRoom"
    if "s = q # t" "scan_chars t = Inr (key, r)" "skip_ws r = c # u" "scan (skip_ws u) = Inr (v, r2)"
      "skip_ws r2 = d # w" for q t key r c u v r2 d w
    using Suc.IH [of "skip_ws w"] that by fastforce
  with assms(2) scan_chars_room show ?case
    by (auto simp: scan_then_Inl split: list.splits)
qed

lemma skip_ws_length: "length (skip_ws t) \<le> length t"
  by (simp add: skip_ws_def length_dropWhile_le)

lemma scan_array_room:
  assumes "local_scanner scan" "\<And>s. scan s \<noteq> Inl NoRoom"
  shows "scan_array scan t \<noteq> Inl NoRoom"
proof (cases "skip_ws t")
  case Nil
  then show ?thesis by (simp add: scan_array_def)
next
  case (Cons c u)
  with skip_ws_length [of t] have "length (c # u) \<le> length t" "0 < length t" by auto
  from scan_elements_room [OF assms this] Cons show ?thesis
    by (simp add: scan_array_def scan_then_Inl del: scan_elements.simps)
qed

lemma scan_object_room:
  assumes "local_scanner scan" "\<And>s. scan s \<noteq> Inl NoRoom"
  shows "scan_object D scan t \<noteq> Inl NoRoom"
proof (cases "skip_ws t")
  case Nil
  then show ?thesis by (simp add: scan_object_def)
next
  case (Cons c u)
  with skip_ws_length [of t] have "length (c # u) \<le> length t" "0 < length t" by auto
  from scan_members_room [OF assms this] Cons show ?thesis
    by (simp add: scan_object_def scan_then_Inl del: scan_members.simps)
qed

lemma scan_scalar_room: "scan_scalar D s \<noteq> Inl NoRoom"
  by (auto simp: scan_scalar_def split: option.splits)

lemma scan_once_room: "scan_once D depth s \<noteq> Inl NoRoom"
proof (induction depth arbitrary: s)
  case 0
  show ?case
    by (cases s) (simp_all add: scan_then_Inl scan_chars_room scan_scalar_room del: scan_chars.simps)
next
  case (Suc depth)
  note rooms = scan_array_room [OF scan_once_local Suc.IH] scan_object_room [OF scan_once_local Suc.IH]
  show ?case
    by (cases s) (simp_all add: scan_then_Inl scan_chars_room scan_scalar_room rooms del: scan_chars.simps)
qed

section \<open>Positions\<close>

text \<open>\<open>raw_decode(text, start)\<close>: the value and the position after it.\<close>

definition raw_decode :: "'n decoder \<Rightarrow> nat \<Rightarrow> pystr \<Rightarrow> nat \<Rightarrow> json_error + ('n json \<times> nat)" where
  "raw_decode D depth text start = (case scan_once D depth (drop start text) of
     Inl e \<Rightarrow> Inl e
   | Inr (v, r) \<Rightarrow> Inr (v, length text - length r))"

lemma raw_decode_range:
  assumes "raw_decode D depth text start = Inr (v, e)"
  shows "start < e" "e \<le> length text"
    "scan_once D depth (take (e - start) (drop start text)) = Inr (v, [])"
    "scan_once D depth (drop start text) = Inr (v, drop e text)"
proof -
  from assms obtain r where r: "scan_once D depth (drop start text) = Inr (v, r)" "e = length text - length r"
    by (auto simp: raw_decode_def split: sum.splits)
  from local_scannerD [OF scan_once_local r(1)] obtain p where p: "p \<noteq> []" "drop start text = p @ r"
    "\<And>r'. stops r' \<Longrightarrow> scan_once D depth (p @ r') = Inr (v, r')" by blast
  then have len: "length text - start = length p + length r" by (metis length_append length_drop)
  moreover have "0 < length p" using p(1) by simp
  ultimately have "length text = start + length p + length r" by linarith
  with p(1) r(2) show "start < e" "e \<le> length text" by auto
  have e: "e - start = length p" using len r(2) by simp
  with p(2) have take: "take (e - start) (drop start text) = p" by simp
  show "scan_once D depth (take (e - start) (drop start text)) = Inr (v, [])"
    unfolding take using p(3) [of "[]"] by (simp add: stops_def)
  have "drop e text = drop (e - start) (drop start text)" using \<open>start < e\<close> by simp
  then have "drop e text = r" using p(2) e by simp
  with r(1) show "scan_once D depth (drop start text) = Inr (v, drop e text)" by simp
qed

lemma raw_decode_advances:
  "raw_decode D depth text start = Inr (v, e) \<Longrightarrow> start < e \<and> e \<le> length text"
  using raw_decode_range(1,2) by blast

text \<open>Whatever holds of every value the scanner reads holds of the members and elements.\<close>

lemma scan_elements_all:
  assumes "\<And>s v r. scan s = Inr (v, r) \<Longrightarrow> P v"
  shows "scan_elements n scan s = Inr (vs, r) \<Longrightarrow> \<forall>v \<in> set vs. P v"
proof (induction n arbitrary: s vs)
  case (Suc n)
  from Suc.prems show ?case
  proof (rule scan_elements_round)
    fix v q d t
    assume v: "scan s = Inr (v, q)" and d: "d = 93 \<or> d = 44" "d = 93 \<Longrightarrow> vs = [v] \<and> t = r"
      "d = 44 \<Longrightarrow> \<exists>vs'. scan_elements n scan (skip_ws t) = Inr (vs', r) \<and> vs = v # vs'"
    from d consider "vs = [v]" | vs' where "scan_elements n scan (skip_ws t) = Inr (vs', r)" "vs = v # vs'"
      by blast
    then show ?thesis using assms [OF v] Suc.IH by cases auto
  qed
qed simp

lemma scan_members_all:
  assumes "\<And>s v r. scan s = Inr (v, r) \<Longrightarrow> P v"
  shows "scan_members n scan s = Inr (ms, r) \<Longrightarrow> \<forall>m \<in> set ms. P (snd m)"
proof (induction n arbitrary: s ms)
  case (Suc n)
  from Suc.prems show ?case
  proof (rule scan_members_round)
    fix s' key q1 q2 v q d t
    assume v: "scan (skip_ws q2) = Inr (v, q)" and d: "d = 125 \<or> d = 44" "d = 125 \<Longrightarrow> ms = [(key, v)] \<and> t = r"
      "d = 44 \<Longrightarrow> \<exists>ms'. scan_members n scan (skip_ws t) = Inr (ms', r) \<and> ms = (key, v) # ms'"
    from d consider "ms = [(key, v)]"
      | ms' where "scan_members n scan (skip_ws t) = Inr (ms', r)" "ms = (key, v) # ms'"
      by blast
    then show ?thesis using assms [OF v] Suc.IH by cases auto
  qed
qed simp

end
