(* ===== verification/StructuredOutput.thy ===== *)
theory StructuredOutput
  imports JsonText
begin

text \<open>
  \<open>app/ai/structured_output.py\<close>: the deterministic clean-up of a model's answer. An optional outer code
  fence is removed, the one JSON object of the text is cut out and handed to the caller's schema, and
  a failure is reported as safe issues: pointers and categories, never text of the answer. The schema
  (a Pydantic model) is an argument: its field names and its strict validation.
\<close>

datatype issue_category = JSON_ISSUE | REQUIRED_ISSUE | TYPE_ISSUE | ENUM_ISSUE | SCHEMA_ISSUE

fun category_value :: "issue_category \<Rightarrow> pystr" where
  "category_value JSON_ISSUE = lit ''json''"
| "category_value REQUIRED_ISSUE = lit ''required''"
| "category_value TYPE_ISSUE = lit ''type''"
| "category_value ENUM_ISSUE = lit ''enum''"
| "category_value SCHEMA_ISSUE = lit ''schema''"

datatype issue = Issue (issue_pointer: pystr) (issue_class: issue_category)

text \<open>\<open>StructuredOutputValidationError\<close> with its issues; building it without issues raises instead.\<close>

datatype output_error = Invalid "issue list" | NoIssues

definition output_invalid :: "issue list \<Rightarrow> output_error" where
  "output_invalid issues = (if issues = [] then NoIssues else Invalid issues)"

section \<open>The decoder's hooks\<close>

text \<open>An integer, or the literal of a finite float.\<close>

datatype number = IntNumber int | FloatNumber pystr

definition reject_duplicate_keys :: "(pystr \<times> number json) list \<Rightarrow> number json option" where
  "reject_duplicate_keys pairs = (if distinct (map fst pairs) then Some (JObject pairs) else None)"

definition max_json_integer_digits :: nat where "max_json_integer_digits = 4300"

definition digits_value :: "pystr \<Rightarrow> int" where
  "digits_value ds = foldl (\<lambda>n c. 10 * n + (int c - 48)) 0 ds"

definition unsigned_digits :: "pystr \<Rightarrow> pystr" where
  "unsigned_digits s = (case s of c # t \<Rightarrow> if c = 45 then t else s | [] \<Rightarrow> [])"

definition parse_bounded_integer :: "pystr \<Rightarrow> number option" where
  "parse_bounded_integer s = (if max_json_integer_digits < length (unsigned_digits s) then None
     else Some (IntNumber (if take 1 s = [45] then - digits_value (unsigned_digits s)
                           else digits_value (unsigned_digits s))))"

text \<open>A literal as mantissa and power of ten, and whether the nearest double is finite: its absolute value
  is below the midpoint between the largest double and the next power of two.\<close>

definition decimal_parts :: "pystr \<Rightarrow> int \<times> int" where
  "decimal_parts s = (let u = unsigned_digits s;
       mantissa = takeWhile (\<lambda>c. c \<noteq> 101 \<and> c \<noteq> 69) u;
       exponent = drop (Suc (length mantissa)) u;
       whole = takeWhile (\<lambda>c. c \<noteq> 46) mantissa;
       fraction = drop (Suc (length whole)) mantissa;
       e = (case exponent of [] \<Rightarrow> 0
            | c # t \<Rightarrow> if c = 45 then - digits_value t else if c = 43 then digits_value t
                else digits_value exponent)
     in (digits_value (whole @ fraction), e - int (length fraction)))"

definition finite_literal :: "pystr \<Rightarrow> bool" where
  "finite_literal s = (let (m, e) = decimal_parts s; bound = 2 ^ 1024 - 2 ^ 970 in
     if 0 \<le> e then m * 10 ^ nat e < bound else m < bound * 10 ^ nat (- e))"

definition parse_finite_float :: "pystr \<Rightarrow> number option" where
  "parse_finite_float s = (if finite_literal s then Some (FloatNumber s) else None)"

definition reject_non_finite_number :: "pystr \<Rightarrow> number option" where
  "reject_non_finite_number s = None"

definition output_decoder :: "number decoder" where
  "output_decoder = \<lparr>parse_int = parse_bounded_integer, parse_float = parse_finite_float,
     parse_constant = reject_non_finite_number, pairs_hook = reject_duplicate_keys\<rparr>"

section \<open>The fence\<close>

definition json_issue :: output_error where "json_issue = output_invalid [Issue [] JSON_ISSUE]"

definition schema_issue :: output_error where "schema_issue = output_invalid [Issue [] SCHEMA_ISSUE]"

definition is_blank :: "nat \<Rightarrow> bool" where "is_blank c \<longleftrightarrow> c = 32 \<or> c = 9"

definition backticks :: pystr where "backticks = [96, 96, 96]"

fun text_lines :: "pystr \<Rightarrow> pystr list" where
  "text_lines [] = [[]]"
| "text_lines (c # s) = (if c = 10 then [] # text_lines s
     else (case text_lines s of l # ls \<Rightarrow> (c # l) # ls | [] \<Rightarrow> [[c]]))"

text \<open>\<open>_FENCE_DELIMITER_LINE\<close>: some line has three backticks after blanks and no carriage return after them.\<close>

definition delimiter_line :: "pystr \<Rightarrow> bool" where
  "delimiter_line l = (let r = dropWhile is_blank l in take 3 r = backticks \<and> 13 \<notin> set (drop 3 r))"

definition has_delimiter_line :: "pystr \<Rightarrow> bool" where
  "has_delimiter_line s = list_ex delimiter_line (text_lines s)"

text \<open>\<open>_OUTER_FENCE\<close>: the text between an opening and a closing fence that together span the whole text.\<close>

definition drop_line_end :: "pystr \<Rightarrow> pystr option" where
  "drop_line_end s = (case s of c # t \<Rightarrow> if c = 10 then Some t
       else if c = 13 then (case t of d # u \<Rightarrow> if d = 10 then Some u else None | [] \<Rightarrow> None) else None
     | [] \<Rightarrow> None)"

definition after_opening :: "pystr \<Rightarrow> pystr option" where
  "after_opening s = (if take 3 s = backticks then
       let t = drop 3 s; u = (if starts_with ''json'' t then drop 4 t else t)
       in drop_line_end (dropWhile is_blank u)
     else None)"

definition before_closing :: "pystr \<Rightarrow> pystr option" where
  "before_closing s = (let r = dropWhile is_blank (rev s) in
     if take 4 r = backticks @ [10] then Some (rev (drop 4 r)) else None)"

definition outer_fence :: "pystr \<Rightarrow> pystr option" where
  "outer_fence s = (case after_opening s of None \<Rightarrow> None | Some t \<Rightarrow> before_closing t)"

definition strip_single_outer_fence :: "pystr \<Rightarrow> output_error + pystr" where
  "strip_single_outer_fence raw = (let text = py_strip raw in
     case outer_fence text of
       None \<Rightarrow> if has_delimiter_line text then Inl json_issue else Inr text
     | Some b \<Rightarrow> let body = py_strip b in if has_delimiter_line body then Inl json_issue else Inr body)"

section \<open>The one object\<close>

text \<open>\<open>_list_contains_object\<close>: the stack of pending items, its top first.\<close>

fun json_size :: "'n json \<Rightarrow> nat" where
  "json_size (JArray vs) = Suc (sum_list (map json_size vs))"
| "json_size _ = 1"

function pending_contains_object :: "'n json list \<Rightarrow> bool" where
  "pending_contains_object [] = False"
| "pending_contains_object (item # rest) = (case item of
     JObject _ \<Rightarrow> True
   | JArray vs \<Rightarrow> pending_contains_object (rev vs @ rest)
   | _ \<Rightarrow> pending_contains_object rest)"
  by pat_completeness auto
termination
  by (relation "measure (\<lambda>items. sum_list (map json_size items))") (auto simp: rev_map [symmetric] sum_list_rev)

definition list_contains_object :: "'n json list \<Rightarrow> bool" where
  "list_contains_object vs = pending_contains_object (rev vs)"

type_synonym span = "nat \<times> nat"

text \<open>The loop over the text from a position, with the span of the object found so far.\<close>

function find_object :: "nat \<Rightarrow> pystr \<Rightarrow> nat \<Rightarrow> span option \<Rightarrow> output_error + span option" where
  "find_object depth text start found =
     (if length text \<le> start then Inr found
      else if text ! start \<noteq> 123 \<and> text ! start \<noteq> 91 then find_object depth text (Suc start) found
      else (case raw_decode output_decoder depth text start of
        Inl _ \<Rightarrow> Inl json_issue
      | Inr (v, e) \<Rightarrow> (case v of
          JArray vs \<Rightarrow> if list_contains_object vs then Inl json_issue else find_object depth text e found
        | JObject _ \<Rightarrow> (case found of Some _ \<Rightarrow> Inl json_issue | None \<Rightarrow> find_object depth text e (Some (start, e)))
        | _ \<Rightarrow> find_object depth text (Suc start) found)))"
  by pat_completeness auto
termination
  by (relation "measure (\<lambda>(_, text, start, _). length text - start)")
    (auto dest!: raw_decode_advances intro: diff_less_mono2)

declare find_object.simps [simp del]

definition cut_span :: "pystr \<Rightarrow> span \<Rightarrow> pystr" where
  "cut_span text se = take (snd se - fst se) (drop (fst se) text)"

definition search_object :: "nat \<Rightarrow> pystr \<Rightarrow> nat \<Rightarrow> span option \<Rightarrow> output_error + pystr" where
  "search_object depth text start found = (case find_object depth text start found of
     Inl e \<Rightarrow> Inl e
   | Inr None \<Rightarrow> Inl json_issue
   | Inr (Some se) \<Rightarrow> Inr (cut_span text se))"

definition starts_container :: "pystr \<Rightarrow> bool" where
  "starts_container s \<longleftrightarrow> take 1 s = [123] \<or> take 1 s = [91]"

definition unique_json_object_text :: "nat \<Rightarrow> pystr \<Rightarrow> output_error + pystr" where
  "unique_json_object_text depth text = (case raw_decode output_decoder depth text 0 of
     Inl DecodeError \<Rightarrow> if starts_container text then Inl json_issue else search_object depth text 0 None
   | Inl _ \<Rightarrow> Inl json_issue
   | Inr (v, e) \<Rightarrow>
       if py_strip (drop e text) = [] then
         (case v of JObject _ \<Rightarrow> Inr (take e text) | _ \<Rightarrow> Inl json_issue)
       else (case v of JObject _ \<Rightarrow> search_object depth text e (Some (0, e))
         | _ \<Rightarrow> if starts_container text then Inl json_issue else search_object depth text 0 None))"

section \<open>Safe issues\<close>

text \<open>A position in the rejected value: a key or an index.\<close>

datatype loc_item = Key pystr | Index int

definition max_safe_issues :: nat where "max_safe_issues = 32"

definition max_safe_pointer_depth :: nat where "max_safe_pointer_depth = 16"

definition token_start :: "nat \<Rightarrow> bool" where
  "token_start c \<longleftrightarrow> (65 \<le> c \<and> c \<le> 90) \<or> (97 \<le> c \<and> c \<le> 122) \<or> c = 95"

text \<open>\<open>_SAFE_POINTER_TOKEN\<close>.\<close>

definition safe_pointer_token :: "pystr \<Rightarrow> bool" where
  "safe_pointer_token s \<longleftrightarrow> (case s of [] \<Rightarrow> False
     | c # t \<Rightarrow> token_start c \<and> list_all (\<lambda>x. token_start x \<or> is_digit x) t \<and> length t \<le> 63)"

text \<open>A schema: its fields with their aliases and its strict validation of a JSON text, which accepts a
  value, reports errors with their location and type, or raises something else.\<close>

datatype 'm validation = Accepted 'm | Rejected "(loc_item list \<times> string) list" | Crashed

record 'm schema =
  model_fields :: "(pystr \<times> pystr option) list"
  model_validate_json :: "pystr \<Rightarrow> 'm validation"

definition safe_root_fields :: "(pystr \<times> pystr option) list \<Rightarrow> pystr list" where
  "safe_root_fields declared =
     filter safe_pointer_token (map fst declared @ List.map_filter snd declared)"

definition pointer_token :: "pystr list \<Rightarrow> bool \<Rightarrow> loc_item \<Rightarrow> pystr" where
  "pointer_token roots first item = (case item of
     Key k \<Rightarrow> if first \<and> k \<in> set roots then k else [42]
   | Index n \<Rightarrow> if 0 \<le> n then dec_digits (nat n) else [42])"

definition pointer_tokens :: "pystr list \<Rightarrow> loc_item list \<Rightarrow> pystr list" where
  "pointer_tokens roots location =
     (case take max_safe_pointer_depth location of [] \<Rightarrow> []
      | item # items \<Rightarrow> pointer_token roots True item # map (pointer_token roots False) items)
     @ (if max_safe_pointer_depth < length location then [[42]] else [])"

definition pointer :: "pystr list \<Rightarrow> loc_item list \<Rightarrow> pystr" where
  "pointer roots location = (if location = [] then []
     else 47 # join_with [47] (pointer_tokens roots location))"

definition issue_category :: "string \<Rightarrow> issue_category" where
  "issue_category t =
     (if t = ''json_invalid'' then JSON_ISSUE
      else if t = ''missing'' then REQUIRED_ISSUE
      else if t \<in> {''enum'', ''literal_error''} then ENUM_ISSUE
      else if t = ''extra_forbidden'' then SCHEMA_ISSUE
      else TYPE_ISSUE)"

definition issue_key :: "issue \<Rightarrow> pystr \<times> pystr" where
  "issue_key i = (issue_pointer i, category_value (issue_class i))"

text \<open>The set of issues, sorted, the first thirty-two.\<close>

definition safe_schema_issues :: "(pystr \<times> pystr option) list \<Rightarrow> (loc_item list \<times> string) list \<Rightarrow> issue list" where
  "safe_schema_issues declared details =
     take max_safe_issues (sort_key issue_key (remdups (map (\<lambda>(location, t).
       Issue (pointer (safe_root_fields declared) location) (issue_category t)) details)))"

text \<open>\<open>validate_structured_output\<close> on a text; the recursion limit of the decoder comes first.\<close>

definition validate_structured_output :: "nat \<Rightarrow> 'm schema \<Rightarrow> pystr \<Rightarrow> output_error + 'm" where
  "validate_structured_output depth model raw =
     (case strip_single_outer_fence raw of Inl e \<Rightarrow> Inl e
      | Inr text \<Rightarrow> (case unique_json_object_text depth text of Inl e \<Rightarrow> Inl e
        | Inr object_text \<Rightarrow> (case model_validate_json model object_text of
            Accepted m \<Rightarrow> Inr m
          | Rejected details \<Rightarrow> Inl (output_invalid (safe_schema_issues (model_fields model) details))
          | Crashed \<Rightarrow> Inl schema_issue)))"

section \<open>What is cut out\<close>

text \<open>Text outside the object: no brace and no bracket, except around lists without objects.\<close>

inductive outside :: "nat \<Rightarrow> pystr \<Rightarrow> bool" for depth where
  outside_end: "outside depth []"
| outside_char: "c \<noteq> 123 \<Longrightarrow> c \<noteq> 91 \<Longrightarrow> outside depth s \<Longrightarrow> outside depth (c # s)"
| outside_list: "scan_once output_decoder depth p = Inr (JArray vs, []) \<Longrightarrow> \<not> list_contains_object vs \<Longrightarrow>
    outside depth s \<Longrightarrow> outside depth (p @ s)"

lemma outside_chars: "list_all (\<lambda>c. c \<noteq> 123 \<and> c \<noteq> 91) s \<Longrightarrow> outside depth s"
  by (induction s) (auto intro: outside.intros)

lemma drop_split:
  assumes "start \<le> e"
  shows "drop start text = take (e - start) (drop start text) @ drop e text"
proof -
  have "drop e text = drop (e - start) (drop start text)" using assms by simp
  then show ?thesis by (metis append_take_drop_id)
qed

lemma decode_brace:
  assumes "raw_decode output_decoder depth text start = Inr (v, e)" "start < length text" "text ! start = 123"
  obtains ms where "v = JObject ms" "distinct (map fst ms)"
proof -
  from raw_decode_range(4) [OF assms(1)] assms(2,3) obtain t where
    "scan_once output_decoder depth (123 # t) = Inr (v, drop e text)"
    by (metis Cons_nth_drop_Suc)
  then have "\<exists>ms. reject_duplicate_keys ms = Some v"
    by (auto simp: scan_object_def output_decoder_def split: nat.splits list.splits if_splits)
  with that show ?thesis by (auto simp: reject_duplicate_keys_def split: if_splits)
qed

lemma decode_bracket:
  assumes "raw_decode output_decoder depth text start = Inr (v, e)" "start < length text" "text ! start = 91"
  obtains vs where "v = JArray vs"
proof -
  from raw_decode_range(4) [OF assms(1)] assms(2,3) obtain t where
    "scan_once output_decoder depth (91 # t) = Inr (v, drop e text)"
    by (metis Cons_nth_drop_Suc)
  with that show ?thesis
    by (auto simp: scan_array_def split: nat.splits list.splits if_splits)
qed

lemma scan_object_start:
  assumes "scan_once D depth s = Inr (JObject ms, r)"
  shows "hd s = 123"
  using assms
proof (cases rule: scan_once_cases)
  case (array d t)
  then show ?thesis by (auto simp: scan_array_def split: list.splits if_splits)
next
  case (scalar c t)
  then show ?thesis
    by (auto simp: scan_scalar_def split: if_splits option.splits)
qed simp_all

text \<open>One round of the loop.\<close>

lemma find_object_round:
  assumes "find_object depth text start found = Inr x"
  obtains (past) "length text \<le> start" "x = found"
    | (plain) "start < length text" "text ! start \<noteq> 123" "text ! start \<noteq> 91"
        "find_object depth text (Suc start) found = Inr x"
    | (listed) vs e where "start < length text" "raw_decode output_decoder depth text start = Inr (JArray vs, e)"
        "\<not> list_contains_object vs" "find_object depth text e found = Inr x"
    | (object) ms e where "start < length text" "raw_decode output_decoder depth text start = Inr (JObject ms, e)"
        "found = None" "find_object depth text e (Some (start, e)) = Inr x"
proof (cases "length text \<le> start")
  case True
  with assms past show ?thesis by (simp add: find_object.simps)
next
  case inside: False
  show ?thesis
  proof (cases "text ! start \<noteq> 123 \<and> text ! start \<noteq> 91")
    case True
    with assms inside plain show ?thesis by (subst (asm) find_object.simps) simp
  next
    case False
    with assms inside obtain v e where v: "raw_decode output_decoder depth text start = Inr (v, e)"
      by (subst (asm) find_object.simps) (auto split: sum.splits)
    from False inside consider vs where "v = JArray vs" | ms where "v = JObject ms"
      using decode_brace [OF v] decode_bracket [OF v] by (metis not_le)
    then show ?thesis
    proof cases
      case 1
      with assms inside False v listed show ?thesis
        by (subst (asm) find_object.simps) (auto split: if_splits)
    next
      case 2
      with assms inside False v object show ?thesis
        by (subst (asm) find_object.simps) (auto split: if_splits option.splits)
    qed
  qed
qed

lemma find_object_found:
  "find_object depth text start (Some se) = Inr x \<Longrightarrow> x = Some se \<and> outside depth (drop start text)"
proof (induction "length text - start" arbitrary: start rule: less_induct)
  case less
  from less.prems show ?case
  proof (cases rule: find_object_round)
    case past
    then show ?thesis by (simp add: outside_end)
  next
    case plain
    have "drop start text = text ! start # drop (Suc start) text" using plain(1) by (simp add: Cons_nth_drop_Suc)
    with plain less.hyps [of "Suc start"] show ?thesis by (simp add: outside_char)
  next
    case (listed vs e)
    note r = raw_decode_range [OF listed(2)]
    with listed less.hyps [of e] have "x = Some se" "outside depth (drop e text)" by auto
    with outside_list [OF r(3) listed(3)] drop_split [of start e \<open>text\<close>] r(1) show ?thesis
      by (metis less_imp_le)
  next
    case (object ms e)
    then show ?thesis by simp
  qed
qed

lemma find_object_new:
  "find_object depth text start None = Inr x \<Longrightarrow>
    (case x of None \<Rightarrow> outside depth (drop start text)
     | Some (a, e) \<Rightarrow> start \<le> a \<and> outside depth (take (a - start) (drop start text)) \<and>
         (\<exists>ms. raw_decode output_decoder depth text a = Inr (JObject ms, e)) \<and> outside depth (drop e text))"
proof (induction "length text - start" arbitrary: start rule: less_induct)
  case less
  from less.prems show ?case
  proof (cases rule: find_object_round)
    case past
    then show ?thesis by (simp add: outside_end)
  next
    case plain
    have d: "drop start text = text ! start # drop (Suc start) text" using plain(1) by (simp add: Cons_nth_drop_Suc)
    have "take (a - start) (drop start text) = text ! start # take (a - Suc start) (drop (Suc start) text)"
      if "Suc start \<le> a" for a
      using that d by (metis Suc_diff_le diff_Suc_Suc take_Suc_Cons)
    moreover have "length text - Suc start < length text - start" using plain(1) by simp
    ultimately show ?thesis
      using less.hyps [OF _ plain(4)] plain(2,3) d by (cases x) (auto simp: outside_char)
  next
    case (listed vs e)
    note r = raw_decode_range [OF listed(2)]
    have prefix: "take (a - start) (drop start text) = take (e - start) (drop start text) @ take (a - e) (drop e text)"
      if "e \<le> a" for a
    proof -
      have "a - start = (e - start) + (a - e)" using that r(1) by simp
      then have "take (a - start) (drop start text) =
        take (e - start) (drop start text) @ take (a - e) (drop (e - start) (drop start text))"
        by (metis take_add)
      then show ?thesis using r(1) by simp
    qed
    have "length text - e < length text - start" using r(1,2) by simp
    note IH = less.hyps [OF this listed(4)]
    note item = outside_list [OF r(3) listed(3)]
    show ?thesis
    proof (cases x)
      case None
      with IH item have "outside depth (take (e - start) (drop start text) @ drop e text)" by simp
      with None show ?thesis using drop_split [OF less_imp_le [OF r(1)], of \<open>text\<close>] by simp
    next
      case (Some ae)
      then obtain a b where x: "x = Some (a, b)" by (cases ae) auto
      with IH have "e \<le> a" by simp
      with IH item prefix [OF this] r(1) x show ?thesis by simp
    qed
  next
    case (object ms e)
    with find_object_found [OF object(4)] show ?thesis by (simp add: outside_end)
  qed
qed

text \<open>No object of a decoded value repeats a key, at any depth.\<close>

fun unique_keys :: "'n json \<Rightarrow> bool" where
  "unique_keys (JObject ms) = (distinct (map fst ms) \<and> (\<forall>m \<in> set ms. unique_keys (snd m)))"
| "unique_keys (JArray vs) = (\<forall>v \<in> set vs. unique_keys v)"
| "unique_keys _ = True"

lemma scan_once_unique_keys: "scan_once output_decoder depth s = Inr (v, r) \<Longrightarrow> unique_keys v"
proof (induction depth arbitrary: s v r)
  case 0
  then show ?case
    by (cases rule: scan_once_cases) (auto simp: scan_scalar_def split: if_splits option.splits)
next
  case (Suc depth)
  from Suc.prems show ?case
  proof (cases rule: scan_once_cases)
    case string
    then show ?thesis by simp
  next
    case (object d t)
    then obtain ms where ms: "reject_duplicate_keys ms = Some v"
      "ms = [] \<or> (\<exists>n u r. scan_members n (scan_once output_decoder depth) u = Inr (ms, r))"
      by (auto simp: scan_object_def output_decoder_def split: list.splits if_splits)
    have "\<forall>m \<in> set ms. unique_keys (snd m)"
      using ms(2) scan_members_all [of "scan_once output_decoder depth" unique_keys, OF Suc.IH] by fastforce
    with ms(1) show ?thesis
      by (auto simp: reject_duplicate_keys_def split: if_splits)
  next
    case (array d t)
    then show ?thesis
      using scan_elements_all [of "scan_once output_decoder depth" unique_keys, OF Suc.IH]
      by (auto simp: scan_array_def split: list.splits if_splits)
  next
    case (scalar c t)
    then show ?thesis by (auto simp: scan_scalar_def split: if_splits option.splits)
  qed
qed

lemma unique_object_text:
  assumes "unique_json_object_text depth text = Inr t"
  shows "\<exists>a b ms. text = a @ t @ b \<and> scan_once output_decoder depth t = Inr (JObject ms, []) \<and>
    unique_keys (JObject ms) \<and> outside depth a \<and> outside depth b"
proof -
  have cut: "\<exists>ms. scan_once output_decoder depth (cut_span text (a, e)) = Inr (JObject ms, []) \<and> unique_keys (JObject ms)
      \<and> text = take a text @ cut_span text (a, e) @ drop e text"
    if r: "raw_decode output_decoder depth text a = Inr (JObject ms', e)" for a e ms'
  proof -
    note range = raw_decode_range [OF r]
    have "text = take a text @ cut_span text (a, e) @ drop e text"
      using drop_split [of a e \<open>text\<close>] range(1) by (simp add: cut_span_def)
    with range(3) scan_once_unique_keys [OF range(3)] show ?thesis by (auto simp: cut_span_def)
  qed
  have search: "\<exists>a b ms. text = a @ t @ b \<and> scan_once output_decoder depth t = Inr (JObject ms, []) \<and>
      unique_keys (JObject ms) \<and> outside depth a \<and> outside depth b"
    if "search_object depth text 0 None = Inr t"
  proof -
    from that obtain a e where f: "find_object depth text 0 None = Inr (Some (a, e))" "t = cut_span text (a, e)"
      by (auto simp: search_object_def split: sum.splits option.splits)
    from find_object_new [OF f(1)] obtain ms where "outside depth (take a text)"
      "raw_decode output_decoder depth text a = Inr (JObject ms, e)" "outside depth (drop e text)" by auto
    with cut [OF this(2)] f(2) show ?thesis by blast
  qed
  show ?thesis
  proof (cases "raw_decode output_decoder depth text 0")
    case (Inl err)
    with assms have "search_object depth text 0 None = Inr t"
      by (auto simp: unique_json_object_text_def split: json_error.splits if_splits)
    then show ?thesis by (rule search)
  next
    case (Inr ve)
    then obtain v e where ve: "raw_decode output_decoder depth text 0 = Inr (v, e)" by (cases ve) auto
    show ?thesis
    proof (cases "\<exists>ms. v = JObject ms")
      case True
      then obtain ms where ms: "v = JObject ms" by blast
      from cut [OF ve [unfolded ms]] obtain ms2 where c: "text = cut_span text (0, e) @ drop e text"
        "scan_once output_decoder depth (cut_span text (0, e)) = Inr (JObject ms2, [])" "unique_keys (JObject ms2)" by auto
      have "t = cut_span text (0, e) \<and> outside depth (drop e text)"
      proof (cases "py_strip (drop e text) = []")
        case True
        then have "\<not> non_blank (drop e text)" by (simp add: non_blank_def)
        then have "list_all (\<lambda>c. c \<noteq> 123 \<and> c \<noteq> 91) (drop e text)"
          by (auto simp: non_blank_iff list_all_iff py_isspace_def)
        with assms ve ms True show ?thesis
          by (simp add: unique_json_object_text_def cut_span_def outside_chars)
      next
        case False
        with assms ve ms have "search_object depth text e (Some (0, e)) = Inr t"
          by (simp add: unique_json_object_text_def)
        then show ?thesis
          using find_object_found [of depth \<open>text\<close> e "(0, e)"]
          by (auto simp: search_object_def split: sum.splits option.splits)
      qed
      with c show ?thesis by (metis append_Nil outside_end)
    next
      case False
      with assms ve have "search_object depth text 0 None = Inr t"
        by (auto simp: unique_json_object_text_def split: json.splits if_splits)
      then show ?thesis by (rule search)
    qed
  qed
qed

text \<open>The errors of the clean-up are fixed; only the schema's are computed.\<close>

lemma fence_error: "strip_single_outer_fence raw = Inl e \<Longrightarrow> e = json_issue"
  by (auto simp: strip_single_outer_fence_def Let_def split: option.splits if_splits)

lemma find_object_error: "find_object depth body k found = Inl e \<Longrightarrow> e = json_issue"
proof (induction depth body k found rule: find_object.induct)
  case (1 depth body k found)
  then show ?case
    by (subst (asm) (5) find_object.simps) (auto split: if_splits sum.splits json.splits option.splits)
qed

lemma unique_object_error: "unique_json_object_text depth body = Inl e \<Longrightarrow> e = json_issue"
  by (auto simp: unique_json_object_text_def search_object_def dest: find_object_error
      split: if_splits sum.splits json.splits option.splits json_error.splits)

lemma validate_errors:
  assumes "validate_structured_output depth model raw = Inl e"
  shows "e = json_issue \<or> e = schema_issue \<or>
    (\<exists>details. e = output_invalid (safe_schema_issues (model_fields model) details))"
  using assms by (auto simp: validate_structured_output_def dest: fence_error unique_object_error
      split: sum.splits validation.splits)

lemma invalid_has_issues: "validate_structured_output depth model raw = Inl (Invalid issues) \<Longrightarrow> issues \<noteq> []"
  by (auto dest!: validate_errors simp: json_issue_def schema_issue_def output_invalid_def split: if_splits)

section \<open>Properties\<close>

text \<open>C29. An accepted answer holds exactly one JSON object. Without its outer fence the answer has no line
  left that the code takes for a fence; it is a text with one object cut out of it, which decodes with nothing left over
  and without a repeated key at any depth; around the object there are no braces or brackets except those
  of lists that hold no object; and the schema accepted the text of this object, unchanged.\<close>

theorem accepted_output:
  assumes "validate_structured_output depth model raw = Inr m"
  shows "\<exists>a t b ms. strip_single_outer_fence raw = Inr (a @ t @ b) \<and> \<not> has_delimiter_line (a @ t @ b) \<and>
    outside depth a \<and> outside depth b \<and>
    scan_once output_decoder depth t = Inr (JObject ms, []) \<and> unique_keys (JObject ms) \<and>
    model_validate_json model t = Accepted m"
proof -
  from assms obtain body t where s: "strip_single_outer_fence raw = Inr body"
    and t: "unique_json_object_text depth body = Inr t" and m: "model_validate_json model t = Accepted m"
    by (auto simp: validate_structured_output_def split: sum.splits validation.splits)
  moreover have "\<not> has_delimiter_line body"
    using s by (auto simp: strip_single_outer_fence_def Let_def split: option.splits if_splits)
  ultimately show ?thesis using unique_object_text [OF t] by blast
qed

text \<open>The tokens a reported pointer may be made of.\<close>

definition safe_token :: "'m schema \<Rightarrow> pystr \<Rightarrow> bool" where
  "safe_token model w \<longleftrightarrow> w = [42] \<or> (\<exists>n. w = dec_digits n) \<or>
     (safe_pointer_token w \<and> (w \<in> fst ` set (model_fields model) \<or> Some w \<in> snd ` set (model_fields model)))"

lemma safe_root_fields_set:
  "w \<in> set (safe_root_fields declared) \<longleftrightarrow> safe_pointer_token w \<and>
    (w \<in> fst ` set declared \<or> Some w \<in> snd ` set declared)"
proof -
  have "set (List.map_filter snd declared) = {w. Some w \<in> snd ` set declared}"
    by (induction declared) (auto simp: List.map_filter_def split: option.splits)
  then show ?thesis by (auto simp: safe_root_fields_def)
qed

lemma pointer_safe:
  "pointer (safe_root_fields (model_fields model)) location = [] \<or>
   (\<exists>ws. pointer (safe_root_fields (model_fields model)) location = 47 # join_with [47] ws \<and>
     length ws \<le> Suc max_safe_pointer_depth \<and> (\<forall>w \<in> set ws. safe_token model w))"
proof -
  have token: "safe_token model (pointer_token (safe_root_fields (model_fields model)) b item)" for b item
    by (auto simp: pointer_token_def safe_token_def safe_root_fields_set split: loc_item.split)
  have "\<forall>w \<in> set (pointer_tokens (safe_root_fields (model_fields model)) location). safe_token model w"
    using token by (auto simp: pointer_tokens_def safe_token_def split: list.splits)
  moreover have "length (pointer_tokens (safe_root_fields (model_fields model)) location) \<le> Suc max_safe_pointer_depth"
  proof -
    have "length (case take n xs of [] \<Rightarrow> [] | x # ys \<Rightarrow> f x # map g ys) \<le> n" for n :: nat and xs :: "loc_item list"
        and f g :: "loc_item \<Rightarrow> pystr"
      by (cases "take n xs") (auto dest: arg_cong [where f = length])
    from this [where n = max_safe_pointer_depth and xs = location
        and f = "pointer_token (safe_root_fields (model_fields model)) True"
        and g = "pointer_token (safe_root_fields (model_fields model)) False"]
    show ?thesis unfolding pointer_tokens_def by (cases "max_safe_pointer_depth < length location") simp_all
  qed
  ultimately show ?thesis by (auto simp: pointer_def)
qed

text \<open>C30. What a rejected answer reveals: between one and thirty-two issues, sorted and without
  repetition, each with a pointer of at most seventeen tokens that are wildcards, indices, or names of
  the schema's own fields; no key and no value of the answer can appear in them.\<close>

theorem rejected_output_is_safe:
  assumes "validate_structured_output depth model raw = Inl (Invalid issues)"
  shows "issues \<noteq> [] \<and> length issues \<le> 32 \<and> distinct issues \<and> sorted (map issue_key issues) \<and>
    (\<forall>i \<in> set issues. issue_pointer i = [] \<or>
       (\<exists>ws. issue_pointer i = 47 # join_with [47] ws \<and> length ws \<le> 17 \<and> (\<forall>w \<in> set ws. safe_token model w)))"
proof -
  let ?report = "\<lambda>details. safe_schema_issues (model_fields model) details"
  consider "issues = [Issue [] JSON_ISSUE]" | "issues = [Issue [] SCHEMA_ISSUE]"
    | details where "issues = ?report details" "issues \<noteq> []"
    using assms validate_errors [OF assms]
    by (auto simp: json_issue_def schema_issue_def output_invalid_def split: if_splits)
  then show ?thesis
  proof cases
    case 3
    have "sorted (map issue_key (?report details))"
      by (simp add: safe_schema_issues_def take_map [symmetric] sorted_wrt_take)
    moreover have "distinct (?report details)"
      by (simp add: safe_schema_issues_def)
    moreover have "length (?report details) \<le> 32"
      by (simp add: safe_schema_issues_def max_safe_issues_def)
    moreover have "\<forall>i \<in> set (?report details). \<exists>l. issue_pointer i = pointer (safe_root_fields (model_fields model)) l"
      by (auto simp: safe_schema_issues_def dest!: in_set_takeD) blast
    ultimately show ?thesis
      using 3 pointer_safe [of model] by (simp add: max_safe_pointer_depth_def) metis
  qed simp_all
qed

definition sample_schema :: "nat schema" where
  "sample_schema = \<lparr>model_fields = [(lit ''a'', None)], model_validate_json = (\<lambda>_. Accepted 7)\<rparr>"

definition strict_schema :: "nat schema" where
  "strict_schema = \<lparr>model_fields = [(lit ''a'', None)], model_validate_json =
     (\<lambda>_. Rejected [([Key (lit ''a'')], ''enum''), ([Key (lit ''s'')], ''extra_forbidden'')])\<rparr>"

lemma sample_accepted: "validate_structured_output 3 sample_schema (lit ''ok {} '') = Inr 7"
  by code_simp

lemma sample_rejected: "validate_structured_output 3 strict_schema (lit ''{}'') =
    Inl (Invalid [Issue (lit ''/*'') SCHEMA_ISSUE, Issue (lit ''/a'') ENUM_ISSUE])"
  by code_simp

lemma sample_answers:
  "validate_structured_output 3 sample_schema [] = Inl (Invalid [Issue [] JSON_ISSUE])"
  "validate_structured_output 3 sample_schema (lit ''{}'') = Inr 7"
  by (code_simp, code_simp)

theorem accepted_output_witness:
  "\<exists>a t b ms. strip_single_outer_fence (lit ''ok {} '') = Inr (a @ t @ b) \<and> \<not> has_delimiter_line (a @ t @ b) \<and>
    outside 3 a \<and> outside 3 b \<and> scan_once output_decoder 3 t = Inr (JObject ms, []) \<and> unique_keys (JObject ms) \<and>
    model_validate_json sample_schema t = Accepted 7"
  using accepted_output [OF sample_accepted] .

theorem rejected_output_is_safe_witness:
  "\<exists>ws. lit ''/a'' = 47 # join_with [47] ws \<and> length ws \<le> 17 \<and> (\<forall>w \<in> set ws. safe_token strict_schema w)"
  using rejected_output_is_safe [OF sample_rejected] by (auto simp: lit_def)

text \<open>The guard against further fences reads lines that end in a line feed. The same answer is refused when
  its fence lines end in line feeds and passes when they end in carriage return and line feed.\<close>

definition fenced_with :: "pystr \<Rightarrow> pystr" where
  "fenced_with eol = lit ''a'' @ eol @ lit ''```json'' @ eol @ lit ''{}'' @ eol @ lit ''```'' @ eol @ lit ''b''"

lemma fence_guard_misses_crlf:
  "strip_single_outer_fence (fenced_with [10]) = Inl json_issue"
  "strip_single_outer_fence (fenced_with [13, 10]) = Inr (fenced_with [13, 10])"
  by (simp_all add: strip_single_outer_fence_def fenced_with_def lit_def py_strip_def py_lstrip_def py_isspace_def
      outer_fence_def after_opening_def backticks_def has_delimiter_line_def delimiter_line_def is_blank_def Let_def)

end
