(* ===== verification/StructuredRepair.thy ===== *)
theory StructuredRepair
  imports StructuredOutput AiPricing
begin

text \<open>
  \<open>app/ai/structured_repair.py\<close>: repairing a model's answer that the schema refused, under the budget
  shared by one business operation. The environment is an argument: the schema, the checks of the
  business facts (\<open>result_validator\<close>), the provider (\<open>repair_call\<close>), the sum of floats and the readings
  of the monotonic clock, numbered in the order they are taken. A reading is missing when the clock
  raises or returns no finite number.
\<close>

section \<open>The budget tracker\<close>

record repair_budget =
  op_budget :: budget_profile
  op_pricing :: pricing_profile
  attempts_used :: int
  tokens_reserved :: int
  cost_reserved :: int
  deadline :: rat
  readings :: nat

definition new_repair_budget ::
  "budget_profile \<Rightarrow> pricing_profile \<Rightarrow> pyval \<Rightarrow> pyval \<Rightarrow> pyval \<Rightarrow> rat option \<Rightarrow> repair_budget result" where
  "new_repair_budget b p attempts tokens cost deadline_monotonic =
     bind_result (require_non_negative_integer ''provider_attempts_used'' attempts) (\<lambda>a.
     bind_result (require_non_negative_integer ''reserved_total_tokens'' tokens) (\<lambda>t.
     bind_result (require_non_negative_integer ''reserved_cost_micro_usd'' cost) (\<lambda>c.
     guard (a > max_provider_attempts b) ''provider_attempts_used exceeds budget profile''
     (guard (t > max_total_tokens b) ''reserved_total_tokens exceeds budget profile''
     (guard (c > max_cost b) ''reserved_cost_micro_usd exceeds budget profile''
     (case deadline_monotonic of None \<Rightarrow> Inl (ValueError ''deadline_monotonic must be finite'')
      | Some d \<Rightarrow> Inr \<lparr>op_budget = b, op_pricing = p, attempts_used = a, tokens_reserved = t,
          cost_reserved = c, deadline = d, readings = 0\<rparr>))))))"

record 'm repair_env =
  answer_schema :: "'m schema"
  recursion_limit :: nat
  add_seconds :: "rat \<Rightarrow> rat \<Rightarrow> rat"
  clock :: "nat \<Rightarrow> rat option"

definition deadline_has_capacity :: "'m repair_env \<Rightarrow> repair_budget \<Rightarrow> rat \<Rightarrow> bool \<times> repair_budget" where
  "deadline_has_capacity env t minimum =
     ((case clock env (readings t) of None \<Rightarrow> False | Some now \<Rightarrow> add_seconds env now minimum < deadline t),
      t\<lparr>readings := Suc (readings t)\<rparr>)"

definition deadline_is_open :: "'m repair_env \<Rightarrow> repair_budget \<Rightarrow> bool \<times> repair_budget" where
  "deadline_is_open env t = deadline_has_capacity env t 0"

text \<open>\<open>_try_reserve\<close>: the worst case is committed before the request is sent and never released.\<close>

definition try_reserve ::
  "'m repair_env \<Rightarrow> repair_budget \<Rightarrow> pyval \<Rightarrow> pyval \<Rightarrow> pyval \<Rightarrow> pyval \<Rightarrow> rat
   \<Rightarrow> attempt_reservation option \<times> repair_budget" where
  "try_reserve env t slots input_t output_t window minimum =
     (let (capacity, t1) = deadline_has_capacity env t minimum in
      if \<not> capacity then (None, t1)
      else (case calculate_preflight_reservation (op_budget t1) (op_pricing t1) (PyInt (attempts_used t1)) slots
              (PyInt (tokens_reserved t1)) (PyInt (cost_reserved t1)) input_t output_t window of
          Inl _ \<Rightarrow> (None, t1)
        | Inr r \<Rightarrow> (Some r, t1\<lparr>attempts_used := attempts_used t1 + 1,
            tokens_reserved := tokens_reserved t1 + reserved_total_tokens r,
            cost_reserved := cost_reserved t1 + res_cost r\<rparr>)))"

section \<open>Repair requests\<close>

record 't repair_request =
  attempt_no :: int
  repair_target :: 't
  request_issues :: "issue list"
  request_reservation :: attempt_reservation

definition new_repair_request ::
  "int \<Rightarrow> 't \<Rightarrow> issue list \<Rightarrow> attempt_reservation \<Rightarrow> 't repair_request result" where
  "new_repair_request n target issues r =
     guard (\<not> (1 \<le> n \<and> n \<le> 2)) ''attempt_no must be 1 or 2''
     (guard (issues = []) ''issues must be a non-empty tuple of StructuredOutputIssue''
     (Inr \<lparr>attempt_no = n, repair_target = target, request_issues = issues, request_reservation = r\<rparr>))"

text \<open>What the business checks say of a result, and how \<open>_assert_result_valid\<close> passes it on: the two
  domain errors as they are, any other exception or a deferred check as an internal error.\<close>

datatype verdict = Passed | CitationRejected | ExplanationRejected | CheckFailed

datatype repair_error =
    Unavailable
  | OutputError output_error
  | CitationError
  | ExplanationError
  | CheckInternalError
  | ArgumentError py_error

fun assert_result_valid :: "verdict \<Rightarrow> repair_error + unit" where
  "assert_result_valid Passed = Inr ()"
| "assert_result_valid CitationRejected = Inl CitationError"
| "assert_result_valid ExplanationRejected = Inl ExplanationError"
| "assert_result_valid CheckFailed = Inl CheckInternalError"

text \<open>The arguments of one call, after its checks.\<close>

record ('m, 't) repair_call_args =
  check_result :: "'m \<Rightarrow> verdict"
  call_provider :: "'t repair_request \<Rightarrow> pystr option"
  call_target :: 't
  repairs_allowed :: nat
  repair_input :: pyval
  repair_output :: pyval
  repair_window :: pyval
  minimum_seconds :: rat

text \<open>The outcome: the result or the exception, the tracker afterwards and the requests sent, in order.\<close>

type_synonym ('m, 't) repair_outcome = "(repair_error + 'm) \<times> repair_budget \<times> 't repair_request list"

definition conclude ::
  "'m repair_env \<Rightarrow> ('m, 't) repair_call_args \<Rightarrow> repair_budget \<Rightarrow> 't repair_request list \<Rightarrow> 'm
   \<Rightarrow> ('m, 't) repair_outcome" where
  "conclude env args t sent m = (case assert_result_valid (check_result args m) of
     Inl e \<Rightarrow> (Inl e, t, sent)
   | Inr _ \<Rightarrow> (let (open_now, t1) = deadline_is_open env t in
       (if open_now then Inr m else Inl Unavailable, t1, sent)))"

text \<open>The loop over the attempts: the number of attempts left, the issues of the last answer, the tracker
  and the requests sent so far.\<close>

fun repair_loop ::
  "'m repair_env \<Rightarrow> ('m, 't) repair_call_args \<Rightarrow> nat \<Rightarrow> issue list \<Rightarrow> repair_budget \<Rightarrow> 't repair_request list
   \<Rightarrow> ('m, 't) repair_outcome" where
  "repair_loop env args 0 issues t sent = (Inl (OutputError (output_invalid issues)), t, sent)"
| "repair_loop env args (Suc left) issues t sent =
     (case try_reserve env t (PyInt (int left)) (repair_input args) (repair_output args) (repair_window args)
         (minimum_seconds args) of
        (None, t1) \<Rightarrow> (Inl Unavailable, t1, sent)
      | (Some r, t1) \<Rightarrow>
        (case new_repair_request (int (repairs_allowed args - left)) (call_target args) issues r of
           Inl e \<Rightarrow> (Inl (ArgumentError e), t1, sent)
         | Inr request \<Rightarrow>
           (case call_provider args request of
              None \<Rightarrow> (Inl Unavailable, t1, sent @ [request])
            | Some answer \<Rightarrow>
              (case validate_structured_output (recursion_limit env) (answer_schema env) answer of
                 Inl (Invalid issues') \<Rightarrow> repair_loop env args left issues' t1 (sent @ [request])
               | Inl NoIssues \<Rightarrow> (Inl (OutputError NoIssues), t1, sent @ [request])
               | Inr m \<Rightarrow> conclude env args t1 (sent @ [request]) m))))"

definition repair_argument_checks :: "pyval \<Rightarrow> pyval \<Rightarrow> pyval \<Rightarrow> pyval \<Rightarrow> rat option \<Rightarrow> unit result" where
  "repair_argument_checks repairs input_t output_t window minimum =
     bind_result (require_non_negative_integer ''max_model_repairs'' repairs) (\<lambda>n.
     guard (n > 2) ''max_model_repairs must not exceed 2''
     (bind_result (require_non_negative_integer ''repair_input_tokens'' input_t) (\<lambda>_.
      bind_result (require_non_negative_integer ''repair_max_output_tokens'' output_t) (\<lambda>_.
      bind_result (require_non_negative_integer ''context_window_tokens'' window) (\<lambda>w.
      guard (w = 0) ''context_window_tokens must be positive''
      (guard (case minimum of None \<Rightarrow> True | Some s \<Rightarrow> s \<le> 0) ''minimum_attempt_seconds must be positive and finite''
        (Inr ())))))))"

definition validate_structured_output_with_repair ::
  "'m repair_env \<Rightarrow> pystr \<Rightarrow> ('m \<Rightarrow> verdict) \<Rightarrow> ('t repair_request \<Rightarrow> pystr option) \<Rightarrow> 't \<Rightarrow> repair_budget
   \<Rightarrow> pyval \<Rightarrow> pyval \<Rightarrow> pyval \<Rightarrow> pyval \<Rightarrow> rat option \<Rightarrow> ('m, 't) repair_outcome" where
  "validate_structured_output_with_repair env raw result_validator provider target budget
       repairs input_t output_t window minimum =
     (case repair_argument_checks repairs input_t output_t window minimum of
        Inl e \<Rightarrow> (Inl (ArgumentError e), budget, [])
      | Inr _ \<Rightarrow>
        (let args = \<lparr>check_result = result_validator, call_provider = provider, call_target = target,
             repairs_allowed = nat (int_of repairs), repair_input = input_t, repair_output = output_t,
             repair_window = window, minimum_seconds = the minimum\<rparr> in
         (case validate_structured_output (recursion_limit env) (answer_schema env) raw of
            Inl (Invalid issues) \<Rightarrow> repair_loop env args (nat (int_of repairs)) issues budget []
          | Inl NoIssues \<Rightarrow> (Inl (OutputError NoIssues), budget, [])
          | Inr m \<Rightarrow> conclude env args budget [] m)))"

section \<open>Accounts\<close>

definition within_budget :: "repair_budget \<Rightarrow> bool" where
  "within_budget t \<longleftrightarrow> 0 \<le> attempts_used t \<and> attempts_used t \<le> max_provider_attempts (op_budget t) \<and>
     0 \<le> tokens_reserved t \<and> tokens_reserved t \<le> max_total_tokens (op_budget t) \<and>
     0 \<le> cost_reserved t \<and> cost_reserved t \<le> max_cost (op_budget t)"

text \<open>What a tracker owes after some requests, and that its profiles are the same.\<close>

definition charged :: "repair_budget \<Rightarrow> 't repair_request list \<Rightarrow> repair_budget \<Rightarrow> bool" where
  "charged t sent t' \<longleftrightarrow> op_budget t' = op_budget t \<and> op_pricing t' = op_pricing t \<and> deadline t' = deadline t \<and>
     attempts_used t' = attempts_used t + int (length sent) \<and>
     tokens_reserved t' = tokens_reserved t + (\<Sum>q \<leftarrow> sent. reserved_total_tokens (request_reservation q)) \<and>
     cost_reserved t' = cost_reserved t + (\<Sum>q \<leftarrow> sent. res_cost (request_reservation q))"

lemma charged_trans: "charged t s t' \<Longrightarrow> charged t' s' t'' \<Longrightarrow> charged t (s @ s') t''"
  by (auto simp: charged_def)

lemma capacity_charged: "deadline_has_capacity env t m = (b, t') \<Longrightarrow> charged t [] t' \<and> (within_budget t' \<longleftrightarrow> within_budget t)"
  by (auto simp: deadline_has_capacity_def charged_def within_budget_def)

lemma new_repair_budget_ok:
  "new_repair_budget b p a tk c d = Inr t \<Longrightarrow> within_budget t \<and> op_budget t = b \<and> attempts_used t = int_of a"
  by (auto simp: new_repair_budget_def within_budget_def split: option.splits)

lemma reservation_within:
  assumes "calculate_preflight_reservation b p attempts slots tokens cost i out window = Inr r"
  shows "0 \<le> reserved_total_tokens r" "0 \<le> res_cost r" "int_of attempts + 1 \<le> max_provider_attempts b"
    "int_of tokens + reserved_total_tokens r \<le> max_total_tokens b" "int_of cost + res_cost r \<le> max_cost b"
proof -
  from assms have c: "is_count slots" "is_count i" "is_count out"
      "int_of attempts + 1 + int_of slots \<le> max_provider_attempts b"
    by (simp_all add: preflight_iff)
  from c(1-3) [THEN is_count_int_of] c(4) show "int_of attempts + 1 \<le> max_provider_attempts b" by linarith
  from c(2,3) [THEN is_count_int_of] assms show "0 \<le> reserved_total_tokens r" "0 \<le> res_cost r"
    "int_of tokens + reserved_total_tokens r \<le> max_total_tokens b" "int_of cost + res_cost r \<le> max_cost b"
    by (simp_all add: preflight_iff new_reservation_iff Let_def reserved_total_tokens_def)
qed

lemma try_reserve_charged:
  fixes q :: "'t repair_request"
  assumes "within_budget t" "try_reserve env t slots i out window m = (x, t')"
  shows "within_budget t'" "x = None \<Longrightarrow> charged t ([] :: 't repair_request list) t'"
    "x = Some r \<Longrightarrow> request_reservation q = r \<Longrightarrow> charged t [q] t'"
proof -
  obtain b t1 where c: "deadline_has_capacity env t m = (b, t1)" by fastforce
  have t1: "charged t ([] :: 't repair_request list) t1" "within_budget t1 \<longleftrightarrow> within_budget t"
    by (rule capacity_charged [OF c, THEN conjunct1], rule capacity_charged [OF c, THEN conjunct2])
  consider "x = None" "t' = t1"
    | r where "calculate_preflight_reservation (op_budget t1) (op_pricing t1) (PyInt (attempts_used t1)) slots
          (PyInt (tokens_reserved t1)) (PyInt (cost_reserved t1)) i out window = Inr r" "x = Some r"
        "t' = t1\<lparr>attempts_used := attempts_used t1 + 1,
            tokens_reserved := tokens_reserved t1 + reserved_total_tokens r,
            cost_reserved := cost_reserved t1 + res_cost r\<rparr>"
    using assms(2) c
    by (cases b; cases "calculate_preflight_reservation (op_budget t1) (op_pricing t1) (PyInt (attempts_used t1))
        slots (PyInt (tokens_reserved t1)) (PyInt (cost_reserved t1)) i out window")
      (simp_all add: try_reserve_def)
  then have *: "within_budget t' \<and> (x = None \<longrightarrow> charged t ([] :: 't repair_request list) t') \<and>
    (x = Some r \<longrightarrow> request_reservation q = r \<longrightarrow> charged t [q] t')"
  proof cases
    case 1
    with t1 assms(1) show ?thesis by simp
  next
    case (2 r)
    note r = reservation_within [OF 2(1)]
    have "within_budget t1" using t1 assms(1) by simp
    with r have "within_budget t'" by (simp add: within_budget_def 2(3))
    with t1 show ?thesis by (auto simp: charged_def 2)
  qed
  then show "within_budget t'" "x = None \<Longrightarrow> charged t ([] :: 't repair_request list) t'"
    "x = Some r \<Longrightarrow> request_reservation q = r \<Longrightarrow> charged t [q] t'" by blast+
qed

lemma conclude_charged:
  assumes "conclude env args t sent m = (res, t', sent')"
  shows "sent' = sent" "charged t [] t'" "within_budget t' \<longleftrightarrow> within_budget t"
    "res = Inr m' \<Longrightarrow> m' = m \<and> check_result args m = Passed \<and>
      (\<exists>now. clock env (readings t' - 1) = Some now \<and> add_seconds env now 0 < deadline t')"
  using assms
  by (cases "check_result args m";
      auto simp: conclude_def deadline_is_open_def deadline_has_capacity_def charged_def within_budget_def
        split: option.splits if_splits)+

text \<open>The requests of a loop that starts with some repairs left.\<close>

definition loop_report ::
  "'m repair_env \<Rightarrow> ('m, 't) repair_call_args \<Rightarrow> nat \<Rightarrow> repair_budget \<Rightarrow> repair_error + 'm \<Rightarrow> repair_budget
   \<Rightarrow> 't repair_request list \<Rightarrow> bool" where
  "loop_report env args left t res t' further \<longleftrightarrow> length further \<le> left \<and> charged t further t' \<and> within_budget t' \<and>
     map attempt_no further = map int [repairs_allowed args - left + 1..<repairs_allowed args - left + 1 + length further] \<and>
     (\<forall>m. res = Inr m \<longrightarrow> further \<noteq> [] \<and> check_result args m = Passed \<and>
        (\<exists>answer. call_provider args (last further) = Some answer \<and>
           validate_structured_output (recursion_limit env) (answer_schema env) answer = Inr m) \<and>
        (\<exists>now. clock env (readings t' - 1) = Some now \<and> add_seconds env now 0 < deadline t'))"

lemma loop_report_last:
  assumes "charged t [q] t'" "within_budget t'" "attempt_no q = int (repairs_allowed args - left)"
    "Suc left \<le> repairs_allowed args"
  shows "loop_report env args (Suc left) t (Inl e) t' [q]"
  using assms by (auto simp: loop_report_def)

lemma loop_report_Cons:
  assumes "loop_report env args left t1 res t' further" "charged t [q] t1"
    "attempt_no q = int (repairs_allowed args - left)" "Suc left \<le> repairs_allowed args"
  shows "loop_report env args (Suc left) t res t' (q # further)"
proof -
  let ?k = "repairs_allowed args - left"
  have "[?k..<?k + 1 + length further] = ?k # [?k + 1..<?k + 1 + length further]"
    by (subst upt_conv_Cons) simp_all
  moreover have "charged t (q # further) t'"
    using charged_trans [OF assms(2), of further t'] assms(1) by (simp add: loop_report_def)
  moreover have "repairs_allowed args - Suc left + 1 = ?k" using assms(4) by simp
  ultimately show ?thesis
    using assms(1,3) unfolding loop_report_def by (simp del: upt_Suc)
qed

lemma repair_loop_charged:
  assumes "within_budget t" "issues \<noteq> []" "left \<le> repairs_allowed args"
    "repairs_allowed args \<le> 2" "repair_loop env args left issues t sent = (res, t', sent')"
  shows "\<exists>further. sent' = sent @ further \<and> loop_report env args left t res t' further"
  using assms
proof (induction left arbitrary: issues t sent)
  case 0
  then show ?case by (auto simp: loop_report_def charged_def)
next
  case (Suc left)
  obtain x t1 where x: "try_reserve env t (PyInt (int left)) (repair_input args) (repair_output args)
      (repair_window args) (minimum_seconds args) = (x, t1)" by fastforce
  note reserved = try_reserve_charged [OF Suc.prems(1) x]
  show ?case
  proof (cases x)
    case None
    with Suc.prems(5) x reserved show ?thesis by (auto simp: loop_report_def)
  next
    case (Some r)
    define q where "q = \<lparr>attempt_no = int (repairs_allowed args - left), repair_target = call_target args,
      request_issues = issues, request_reservation = r\<rparr>"
    have q: "new_repair_request (int (repairs_allowed args - left)) (call_target args) issues r = Inr q"
      using Suc.prems(2-4) by (auto simp: new_repair_request_def q_def)
    have ch: "charged t [q] t1" using reserved(3) [OF Some, of q] by (simp add: q_def)
    have no: "attempt_no q = int (repairs_allowed args - left)" by (simp add: q_def)
    show ?thesis
    proof (cases "call_provider args q")
      case None
      with Suc.prems(5) x Some q loop_report_last [OF ch reserved(1) no Suc.prems(3)] show ?thesis by auto
    next
      case answer: (Some answer)
      show ?thesis
      proof (cases "validate_structured_output (recursion_limit env) (answer_schema env) answer")
        case (Inl e)
        show ?thesis
        proof (cases e)
          case (Invalid issues')
          have step: "repair_loop env args left issues' t1 (sent @ [q]) = (res, t', sent')"
            using Suc.prems(5) x Some q answer Inl Invalid by simp
          have "issues' \<noteq> []" using invalid_has_issues Inl Invalid by blast
          from Suc.IH [OF reserved(1) this _ Suc.prems(4) step] Suc.prems(3) obtain further where
            further: "sent' = sent @ q # further" "loop_report env args left t1 res t' further" by auto
          have "loop_report env args (Suc left) t res t' (q # further)"
            using further(2) ch no Suc.prems(3) by (rule loop_report_Cons)
          with further(1) show ?thesis by auto
        next
          case NoIssues
          with Suc.prems(5) x Some q answer Inl loop_report_last [OF ch reserved(1) no Suc.prems(3)]
          show ?thesis by auto
        qed
      next
        case (Inr m)
        with Suc.prems(5) x Some q answer have "conclude env args t1 (sent @ [q]) m = (res, t', sent')" by simp
        note c = conclude_charged [OF this]
        have "loop_report env args (Suc left) t res t' [q]"
          using c(2-4) charged_trans [OF ch c(2)] reserved(1) no Suc.prems(3) answer Inr
          by (auto simp: loop_report_def Suc_diff_Suc)
        with c(1) show ?thesis by auto
      qed
    qed
  qed
qed

lemma repair_call_report:
  assumes "within_budget t" "validate_structured_output_with_repair env raw validator provider target t
      repairs i out window minimum = (res, t', sent)"
  shows "charged t sent t' \<and> within_budget t' \<and> int (length sent) \<le> max 0 (int_of repairs) \<and> length sent \<le> 2 \<and>
    map attempt_no sent = map int [1..<Suc (length sent)] \<and>
    (\<forall>m. res = Inr m \<longrightarrow> validator m = Passed \<and>
       (\<exists>answer. (if sent = [] then answer = raw else provider (last sent) = Some answer) \<and>
          validate_structured_output (recursion_limit env) (answer_schema env) answer = Inr m) \<and>
       (\<exists>now. clock env (readings t' - 1) = Some now \<and> add_seconds env now 0 < deadline t'))"
proof (cases "repair_argument_checks repairs i out window minimum")
  case (Inl e)
  with assms show ?thesis by (auto simp: validate_structured_output_with_repair_def charged_def)
next
  case (Inr u)
  then have two: "0 \<le> int_of repairs" "int_of repairs \<le> 2" by (auto simp: repair_argument_checks_def)
  define args where "args = \<lparr>check_result = validator, call_provider = provider, call_target = target,
    repairs_allowed = nat (int_of repairs), repair_input = i, repair_output = out, repair_window = window,
    minimum_seconds = the minimum\<rparr>"
  from assms(2) Inr have run: "(case validate_structured_output (recursion_limit env) (answer_schema env) raw of
      Inl (Invalid issues) \<Rightarrow> repair_loop env args (nat (int_of repairs)) issues t []
    | Inl NoIssues \<Rightarrow> (Inl (OutputError NoIssues), t, [])
    | Inr m \<Rightarrow> conclude env args t [] m) = (res, t', sent)"
    by (simp add: validate_structured_output_with_repair_def args_def [symmetric] Let_def)
  show ?thesis
  proof (cases "validate_structured_output (recursion_limit env) (answer_schema env) raw")
    case initial: (Inr m)
    with run have "conclude env args t [] m = (res, t', sent)" by simp
    from conclude_charged [OF this] assms(1) initial show ?thesis by (auto simp: args_def)
  next
    case (Inl e)
    show ?thesis
    proof (cases e)
      case NoIssues
      with run Inl assms(1) show ?thesis by (auto simp: charged_def)
    next
      case (Invalid issues)
      with run Inl have loop: "repair_loop env args (nat (int_of repairs)) issues t [] = (res, t', sent)" by simp
      have "issues \<noteq> []"
        using invalid_has_issues [of "recursion_limit env" "answer_schema env" raw issues] Inl Invalid by simp
      then have "loop_report env args (nat (int_of repairs)) t res t' sent"
        using repair_loop_charged [OF assms(1) _ _ _ loop] two
        by (simp add: args_def nat_le_iff)
      with two show ?thesis by (auto simp: loop_report_def args_def)
    qed
  qed
qed

section \<open>Properties\<close>

text \<open>The history of a tracker: any calls of the repair function, one after the other, with the requests
  they sent.\<close>

inductive repair_history :: "'m repair_env \<Rightarrow> repair_budget \<Rightarrow> 't repair_request list \<Rightarrow> repair_budget \<Rightarrow> bool"
  for env where
  history_start: "repair_history env t [] t"
| history_call: "repair_history env t sent t' \<Longrightarrow>
    validate_structured_output_with_repair env raw validator provider target t' repairs i out window minimum
      = (res, t'', sent') \<Longrightarrow> repair_history env t (sent @ sent') t''"

text \<open>C31. The shared budget holds for the whole business operation. From the construction of the tracker
  on, whatever answers, checks, providers and clocks do, the tracker has charged exactly the requests that
  were sent, each with its worst-case reservation, whether they failed or not; attempts, tokens and cost
  never exceed the budget; so the operation sends at most as many requests as it had attempts left.\<close>

theorem repair_budget_invariant:
  assumes "new_repair_budget b p attempts tokens cost limit = Inr t" "repair_history env t sent t'"
  shows "op_budget t' = b \<and> charged t sent t' \<and> within_budget t' \<and>
    int (length sent) \<le> max_provider_attempts b - int_of attempts"
proof -
  have start: "within_budget t" "op_budget t = b" "attempts_used t = int_of attempts"
    using new_repair_budget_ok [OF assms(1)] by simp_all
  from assms(2) start(1) have "charged t sent t' \<and> within_budget t'"
  proof induction
    case (history_start t)
    then show ?case by (simp add: charged_def)
  next
    case (history_call t sent t' raw validator provider target repairs i out window minimum res t'' sent')
    then show ?case
      using repair_call_report [of t'] charged_trans by metis
  qed
  then show ?thesis using start by (auto simp: charged_def within_budget_def)
qed

text \<open>C32. What a repair call returns. A returned value passed the business checks, was read before the
  deadline, and is what the schema makes of the original answer if no request was sent and of the answer
  to the last request otherwise. At most two requests are sent, numbered from one. When the original
  answer fits the schema none is sent, so a failed business check is never repaired; and a call that
  returns no value raises.\<close>

theorem repair_result_checked:
  assumes "within_budget t"
    and "validate_structured_output_with_repair env raw validator provider target t
      repairs i out window minimum = (res, t', sent)"
  shows "length sent \<le> 2 \<and> int (length sent) \<le> max 0 (int_of repairs) \<and>
    map attempt_no sent = map int [1..<Suc (length sent)] \<and>
    (\<forall>m. res = Inr m \<longrightarrow> validator m = Passed \<and>
       (\<exists>answer. (if sent = [] then answer = raw else provider (last sent) = Some answer) \<and>
          validate_structured_output (recursion_limit env) (answer_schema env) answer = Inr m) \<and>
       (\<exists>now. clock env (readings t' - 1) = Some now \<and> add_seconds env now 0 < deadline t')) \<and>
    (\<forall>m. validate_structured_output (recursion_limit env) (answer_schema env) raw = Inr m \<longrightarrow> sent = [])"
  using repair_call_report [OF assms] assms(2)
  by (auto simp: validate_structured_output_with_repair_def Let_def dest: conclude_charged(1) split: sum.splits)

section \<open>Examples\<close>

definition sample_env :: "nat repair_env" where
  "sample_env = \<lparr>answer_schema = sample_schema, recursion_limit = 3, add_seconds = (+), clock = (\<lambda>_. Some 0)\<rparr>"

definition sample_tracker :: repair_budget where
  "sample_tracker = \<lparr>op_budget = sample_budget, op_pricing = sample_pricing, attempts_used = 0,
     tokens_reserved = 0, cost_reserved = 0, deadline = 10, readings = 0\<rparr>"

definition sample_request :: "unit repair_request" where
  "sample_request = \<lparr>attempt_no = 1, repair_target = (), request_issues = [Issue [] JSON_ISSUE],
     request_reservation = \<lparr>res_pricing_version = lit ''v1'', res_input_tokens = 100, res_output_tokens = 50,
       res_cost = 6\<rparr>\<rparr>"

definition charged_tracker :: repair_budget where
  "charged_tracker = sample_tracker\<lparr>attempts_used := 1, tokens_reserved := 150, cost_reserved := 6,
     readings := 1\<rparr>"

lemma sample_tracker_new:
  "new_repair_budget sample_budget sample_pricing (PyInt 0) (PyInt 0) (PyInt 0) (Some 10) = Inr sample_tracker"
  by code_simp

lemma sample_reserve:
  "try_reserve sample_env sample_tracker (PyInt 0) (PyInt 100) (PyInt 50) (PyInt 200) 1 =
    (Some (request_reservation sample_request), charged_tracker)"
proof -
  have "calculate_preflight_reservation sample_budget sample_pricing (PyInt 0) (PyInt 0) (PyInt 0) (PyInt 0)
      (PyInt 100) (PyInt 50) (PyInt 200) = Inr (request_reservation sample_request)"
    by (simp add: preflight_iff new_reservation_iff sample_budget_def sample_pricing_def request_cost_def
        tokens_per_million_def non_blank_iff lit_def py_isspace_def sample_request_def)
  then show ?thesis
    by (simp add: try_reserve_def deadline_has_capacity_def sample_env_def sample_tracker_def charged_tracker_def
        sample_request_def reserved_total_tokens_def)
qed

lemma sample_call:
  "validate_structured_output_with_repair sample_env [] (\<lambda>_. Passed) (\<lambda>_. Some (lit ''{}'')) () sample_tracker
     (PyInt 1) (PyInt 100) (PyInt 50) (PyInt 200) (Some 1) =
   (Inr 7, charged_tracker\<lparr>readings := 2\<rparr>, [sample_request])"
proof -
  have checks: "repair_argument_checks (PyInt 1) (PyInt 100) (PyInt 50) (PyInt 200) (Some 1) = Inr ()"
    by (simp add: repair_argument_checks_def)
  have request: "new_repair_request 1 () [Issue [] JSON_ISSUE] (request_reservation sample_request) = Inr sample_request"
    by (simp add: new_repair_request_def sample_request_def)
  have env: "recursion_limit sample_env = 3" "answer_schema sample_env = sample_schema"
    by (simp_all add: sample_env_def)
  have "conclude sample_env args charged_tracker [sample_request] 7 =
      (Inr 7, charged_tracker\<lparr>readings := 2\<rparr>, [sample_request])" if "check_result args 7 = Passed"
      for args :: "(nat, unit) repair_call_args"
    using that by (simp add: conclude_def deadline_is_open_def deadline_has_capacity_def sample_env_def
        charged_tracker_def sample_tracker_def)
  then show ?thesis
    by (simp add: validate_structured_output_with_repair_def checks env sample_answers sample_reserve request)
qed

theorem repair_budget_invariant_witness:
  "within_budget (charged_tracker\<lparr>readings := 2\<rparr>) \<and>
   int (length [sample_request]) \<le> max_provider_attempts sample_budget - 0"
  using repair_budget_invariant [OF sample_tracker_new history_call [OF history_start sample_call]] by simp

theorem repair_result_checked_witness:
  "\<exists>answer. Some (lit ''{}'') = Some answer \<and> validate_structured_output 3 sample_schema answer = Inr 7"
  using repair_result_checked [OF _ sample_call] new_repair_budget_ok [OF sample_tracker_new]
  by (auto simp: sample_env_def)

end
