(* ===== verification/AiRuntimeControl.thy ===== *)
theory AiRuntimeControl
  imports PyValue "HOL-Library.AList"
begin

text \<open>
  \<open>app/ai/redis_runtime_control.py\<close>: concurrency, rate limits and circuit breaker for provider calls,
  shared by all processes through Redis. The two Lua scripts are modelled command by command on the keys
  they name. A key with a time to live is its value with the instant it expires; Redis runs a script
  atomically at one server time, so a script is a function of the keys and that time, in milliseconds.
  Lua's numbers are exact here: times and counts are integers, the contents of the buckets rationals.
\<close>

datatype pool = RAG | ASYNC_GENERATION | EMBEDDING

datatype runtime_outcome = Success | TransientFailure | Neutral

section \<open>Keys\<close>

type_synonym 'v key = "('v \<times> int) option"

text \<open>\<open>GET\<close> and its kin: an expired key is gone.\<close>

definition live :: "int \<Rightarrow> 'v key \<Rightarrow> 'v option" where
  "live now k = (case k of Some (v, e) \<Rightarrow> if now \<le> e then Some v else None | None \<Rightarrow> None)"

text \<open>\<open>PTTL\<close> of a live key and \<open>PEXPIRE\<close>.\<close>

definition pttl :: "int \<Rightarrow> 'v key \<Rightarrow> int" where
  "pttl now k = (case k of Some (v, e) \<Rightarrow> e - now | None \<Rightarrow> - 2)"

definition pexpire :: "int \<Rightarrow> int \<Rightarrow> 'v key \<Rightarrow> 'v key" where
  "pexpire now ms k = map_option (\<lambda>v. (v, now + ms)) (live now k)"

text \<open>A sorted set is a list of members with their scores; an empty set has no key.\<close>

definition zmembers :: "int \<Rightarrow> ('m \<times> int) list key \<Rightarrow> ('m \<times> int) list" where
  "zmembers now k = (case live now k of None \<Rightarrow> [] | Some zs \<Rightarrow> zs)"

definition zremrangebyscore :: "int \<Rightarrow> int \<Rightarrow> ('m \<times> int) list key \<Rightarrow> ('m \<times> int) list key" where
  "zremrangebyscore now bound k = (case k of None \<Rightarrow> None
     | Some (zs, e) \<Rightarrow> let kept = filter (\<lambda>z. bound < snd z) (zmembers now k) in
         if kept = [] then None else Some (kept, e))"

definition zrem :: "int \<Rightarrow> 'm \<Rightarrow> ('m \<times> int) list key \<Rightarrow> ('m \<times> int) list key" where
  "zrem now m k = (case k of None \<Rightarrow> None
     | Some (zs, e) \<Rightarrow> let kept = filter (\<lambda>z. fst z \<noteq> m) (zmembers now k) in
         if kept = [] then None else Some (kept, e))"

text \<open>\<open>ZADD\<close> followed by \<open>PEXPIRE\<close>.\<close>

definition zadd_expire :: "int \<Rightarrow> 'm \<Rightarrow> int \<Rightarrow> int \<Rightarrow> ('m \<times> int) list key \<Rightarrow> ('m \<times> int) list key" where
  "zadd_expire now m score ms k = Some (AList.update m score (zmembers now k), now + ms)"

record pool_keys =
  lease_set :: "(uuid \<times> int) list key"
  request_bucket :: "(rat \<times> int) key"
  token_bucket :: "(rat \<times> int) key"

record target_keys =
  failure_set :: "((int \<times> uuid) \<times> int) list key"
  open_until :: "int key"
  half_open :: "uuid key"

section \<open>The acquire script\<close>

datatype denial = BREAKER_OPEN | CONCURRENCY | REQUEST_RATE | TOKEN_RATE

text \<open>\<open>{1, half_open, 0}\<close> or \<open>{0, reason, retry_ms}\<close>.\<close>

datatype reply = Granted bool | Denied denial int

text \<open>The breaker: a denial with its retry time, or whether this call is the half-open probe. The key of the
  probe is free when it is claimed, so \<open>SET NX\<close> succeeds.\<close>

definition breaker_gate :: "int \<Rightarrow> uuid \<Rightarrow> int \<Rightarrow> target_keys \<Rightarrow> int + (bool \<times> target_keys)" where
  "breaker_gate now lease lease_ms t = (case live now (open_until t) of
     None \<Rightarrow> Inr (False, t\<lparr>half_open := None\<rparr>)
   | Some until \<Rightarrow>
       if now < until then Inl (until - now)
       else (case live now (half_open t) of
         Some _ \<Rightarrow> Inl (max (pttl now (half_open t)) 1)
       | None \<Rightarrow> Inr (True, t\<lparr>half_open := Some (lease, now + lease_ms),
           open_until := (if pttl now (open_until t) < lease_ms + 60000
             then pexpire now (lease_ms + 60000) (open_until t) else open_until t)\<rparr>)))"

definition release_half_open :: "int \<Rightarrow> uuid \<Rightarrow> bool \<Rightarrow> target_keys \<Rightarrow> target_keys" where
  "release_half_open now lease half t =
     (if half \<and> live now (half_open t) = Some lease then t\<lparr>half_open := None\<rparr> else t)"

text \<open>\<open>refill_bucket\<close>: the retry time, or what is left after the cost.\<close>

definition bucket_level :: "int \<Rightarrow> (rat \<times> int) key \<Rightarrow> int \<Rightarrow> int \<Rightarrow> rat" where
  "bucket_level now k capacity rate = (case live now k of
     None \<Rightarrow> of_int capacity
   | Some (tokens, updated_at) \<Rightarrow>
       min (of_int capacity) (tokens + of_int (max (now - updated_at) 0 * rate) / 60000))"

definition refill_bucket :: "int \<Rightarrow> (rat \<times> int) key \<Rightarrow> int \<Rightarrow> int \<Rightarrow> int \<Rightarrow> int + rat" where
  "refill_bucket now k capacity rate cost = (let tokens = bucket_level now k capacity rate in
     if tokens + 1 / 10000000 < of_int cost
     then Inl (max \<lceil>(of_int cost - tokens) * 60000 / of_int rate\<rceil> 1)
     else Inr (tokens - of_int cost))"

record rate_limits =
  limit_concurrency :: int
  limit_rpm :: int
  limit_tpm :: int
  limit_burst :: int

definition acquire_script ::
  "int \<Rightarrow> uuid \<Rightarrow> int \<Rightarrow> rate_limits \<Rightarrow> int \<Rightarrow> pool_keys \<Rightarrow> target_keys \<Rightarrow> reply \<times> pool_keys \<times> target_keys" where
  "acquire_script now lease token_cost limits lease_ms p t =
     (case breaker_gate now lease lease_ms t of
        Inl retry \<Rightarrow> (Denied BREAKER_OPEN retry, p, t)
      | Inr (half, t1) \<Rightarrow>
        (let p1 = p\<lparr>lease_set := zremrangebyscore now now (lease_set p)\<rparr>;
             leases = zmembers now (lease_set p1) in
         if limit_concurrency limits \<le> int (length leases)
         then (Denied CONCURRENCY (if leases = [] then 1000 else max (Min (snd ` set leases) - now) 1),
               p1, release_half_open now lease half t1)
         else (case refill_bucket now (request_bucket p1) (limit_burst limits) (limit_rpm limits) 1 of
            Inl retry \<Rightarrow> (Denied REQUEST_RATE retry, p1, release_half_open now lease half t1)
          | Inr requests_left \<Rightarrow>
            (case refill_bucket now (token_bucket p1) (limit_tpm limits) (limit_tpm limits) token_cost of
               Inl retry \<Rightarrow> (Denied TOKEN_RATE retry, p1, release_half_open now lease half t1)
             | Inr tokens_left \<Rightarrow>
               (Granted half,
                p1\<lparr>request_bucket := Some ((requests_left, now), now + 120000),
                   token_bucket := Some ((tokens_left, now), now + 120000),
                   lease_set := zadd_expire now lease (now + lease_ms) (max (lease_ms * 2) 120000)
                     (lease_set p1)\<rparr>,
                t1)))))"

section \<open>The finish script\<close>

record breaker_profile =
  breaker_failures :: int
  breaker_window_seconds :: int
  breaker_open_seconds :: int

definition finish_script ::
  "int \<Rightarrow> uuid \<Rightarrow> runtime_outcome \<Rightarrow> breaker_profile \<Rightarrow> pool_keys \<Rightarrow> target_keys \<Rightarrow> pool_keys \<times> target_keys" where
  "finish_script now lease result b p t =
     (let window_ms = breaker_window_seconds b * 1000; open_ms = breaker_open_seconds b * 1000;
          p1 = p\<lparr>lease_set := zrem now lease (lease_set p)\<rparr>;
          is_half_open = (live now (half_open t) = Some lease);
          t1 = (if is_half_open then t\<lparr>half_open := None\<rparr> else t) in
      if result \<noteq> TransientFailure then
        (p1, if is_half_open then t1\<lparr>failure_set := None, open_until := None, half_open := None\<rparr> else t1)
      else
        (let failures = zadd_expire now (now, lease) now (window_ms + open_ms + 60000)
               (zremrangebyscore now (now - window_ms) (failure_set t1));
             t2 = t1\<lparr>failure_set := failures\<rparr> in
         (p1, if is_half_open \<or> breaker_failures b \<le> int (length (zmembers now failures))
              then t2\<lparr>open_until := Some (now + open_ms, now + (open_ms * 2 + 60000))\<rparr> else t2)))"

section \<open>The controller\<close>

text \<open>\<open>AiRateLimitProfile\<close> and \<open>AiBreakerProfile\<close> with their checks.\<close>

definition positive_int :: "string \<Rightarrow> pyval \<Rightarrow> int result" where
  "positive_int name v = (case v of
       PyInt n \<Rightarrow> if 0 < n then Inr n else Inl (ValueError (name @ '' must be a positive integer''))
     | _ \<Rightarrow> Inl (ValueError (name @ '' must be a positive integer'')))"

definition new_rate_limits :: "pyval \<Rightarrow> pyval \<Rightarrow> pyval \<Rightarrow> pyval \<Rightarrow> rate_limits result" where
  "new_rate_limits concurrency rpm tpm burst =
     bind_result (positive_int ''concurrency'' concurrency) (\<lambda>c.
     bind_result (positive_int ''rpm'' rpm) (\<lambda>r.
     bind_result (positive_int ''tpm'' tpm) (\<lambda>t.
     bind_result (positive_int ''burst'' burst) (\<lambda>b.
     Inr \<lparr>limit_concurrency = c, limit_rpm = r, limit_tpm = t, limit_burst = b\<rparr>))))"

definition new_breaker_profile :: "pyval \<Rightarrow> pyval \<Rightarrow> pyval \<Rightarrow> pyval \<Rightarrow> breaker_profile result" where
  "new_breaker_profile failures window open_s probes =
     bind_result (positive_int ''failures'' failures) (\<lambda>f.
     bind_result (positive_int ''window_seconds'' window) (\<lambda>w.
     bind_result (positive_int ''open_seconds'' open_s) (\<lambda>u.
     bind_result (positive_int ''half_open_probes'' probes) (\<lambda>n.
     if n \<noteq> 1 then Inl (ValueError ''only one half-open probe is supported by the approved profile'')
     else Inr \<lparr>breaker_failures = f, breaker_window_seconds = w, breaker_open_seconds = u\<rparr>))))"

record control_error =
  control_code :: string
  retry_after_seconds :: "int option"

definition control_failure :: "string \<Rightarrow> control_error" where
  "control_failure code = \<lparr>control_code = code, retry_after_seconds = None\<rparr>"

definition unavailable :: control_error where
  "unavailable = control_failure ''AI_RUNTIME_CONTROL_UNAVAILABLE''"

text \<open>What the client library hands back: integers, bytes, text, lists or something else.\<close>

datatype redis_value = RInt int | RBytes "nat list" | RText pystr | RList "redis_value list" | ROther

definition result_tuple :: "redis_value \<Rightarrow> nat \<Rightarrow> control_error + redis_value list" where
  "result_tuple v n = (case v of
     RList vs \<Rightarrow> if length vs = n then Inr vs else Inl unavailable
   | _ \<Rightarrow> Inl unavailable)"

definition is_ascii :: "nat list \<Rightarrow> bool" where
  "is_ascii s = list_all (\<lambda>c. c < 128) s"

text \<open>\<open>int\<close> of a text: digits with single underscores between them, a sign, white space around.\<close>

fun digit_groups :: "pystr \<Rightarrow> pystr option" where
  "digit_groups [] = None"
| "digit_groups [c] = (if 48 \<le> c \<and> c \<le> 57 then Some [c] else None)"
| "digit_groups (c # d # s) =
     (if \<not> (48 \<le> c \<and> c \<le> 57) then None
      else map_option (\<lambda>ds. c # ds) (digit_groups (if d = 95 then s else d # s)))"

definition py_int :: "pystr \<Rightarrow> int option" where
  "py_int s = (let t = py_strip s;
       u = (case t of c # r \<Rightarrow> if c = 45 \<or> c = 43 then r else t | [] \<Rightarrow> []) in
     (case digit_groups u of
        None \<Rightarrow> None
      | Some ds \<Rightarrow> if 4300 < length ds then None
          else Some ((if take 1 t = [45] then - 1 else 1) * foldl (\<lambda>n c. 10 * n + (int c - 48)) 0 ds)))"

definition result_int :: "redis_value \<Rightarrow> control_error + int" where
  "result_int v = (case v of
     RInt n \<Rightarrow> Inr n
   | RBytes b \<Rightarrow> if is_ascii b then (case py_int b of Some n \<Rightarrow> Inr n | None \<Rightarrow> Inl unavailable)
       else Inl unavailable
   | _ \<Rightarrow> Inl unavailable)"

definition result_text :: "redis_value \<Rightarrow> control_error + pystr" where
  "result_text v = (case v of
     RBytes b \<Rightarrow> if is_ascii b then Inr b else Inl unavailable
   | RText s \<Rightarrow> if is_ascii s then Inr s else Inl unavailable
   | _ \<Rightarrow> Inl unavailable)"

fun denial_text :: "denial \<Rightarrow> string" where
  "denial_text BREAKER_OPEN = ''breaker_open''"
| "denial_text CONCURRENCY = ''concurrency''"
| "denial_text REQUEST_RATE = ''request_rate''"
| "denial_text TOKEN_RATE = ''token_rate''"

text \<open>A script's reply as Redis sends it: numbers as integers, strings as bytes.\<close>

definition reply_value :: "reply \<Rightarrow> redis_value" where
  "reply_value r = (case r of
     Granted half \<Rightarrow> RList [RInt 1, RInt (if half then 1 else 0), RInt 0]
   | Denied d ms \<Rightarrow> RList [RInt 0, RBytes (lit (denial_text d)), RInt ms])"

definition denial_code :: "pystr \<Rightarrow> string option" where
  "denial_code reason = map_of
     [(lit ''breaker_open'', ''AI_BREAKER_OPEN''), (lit ''concurrency'', ''AI_CONCURRENCY_LIMITED''),
      (lit ''request_rate'', ''AI_RATE_LIMITED''), (lit ''token_rate'', ''AI_RATE_LIMITED'')] reason"

definition bind_control :: "control_error + 'a \<Rightarrow> ('a \<Rightarrow> control_error + 'b) \<Rightarrow> control_error + 'b" where
  "bind_control r f = (case r of Inl e \<Rightarrow> Inl e | Inr x \<Rightarrow> f x)"

text \<open>How \<open>acquire\<close> reads the reply: whether the permit is the half-open probe, or the error.\<close>

definition read_reply :: "redis_value \<Rightarrow> control_error + bool" where
  "read_reply raw =
     bind_control (result_tuple raw 3) (\<lambda>vs.
     bind_control (result_int (vs ! 0)) (\<lambda>granted.
     if granted = 1 then
       bind_control (result_int (vs ! 1)) (\<lambda>half.
       if half \<notin> {0, 1} then Inl unavailable else Inr (half = 1))
     else
       bind_control (result_text (vs ! 1)) (\<lambda>reason.
       bind_control (result_int (vs ! 2)) (\<lambda>ms.
       (case denial_code reason of
          None \<Rightarrow> Inl unavailable
        | Some code \<Rightarrow> Inl \<lparr>control_code = code,
            retry_after_seconds = Some (max 1 \<lceil>of_int ms / (1000 :: rat)\<rceil>)\<rparr>)))))"

record 'k permit =
  permit_half_open :: bool
  permit_pool :: pool
  permit_target :: 'k
  permit_lease :: uuid
  permit_finished :: bool

text \<open>The keys of all pools and targets; a target's keys are named by a digest of it.\<close>

record 'k runtime =
  pool_state :: "pool \<Rightarrow> pool_keys"
  target_state :: "'k \<Rightarrow> target_keys"

record control_config =
  pool_limits :: "pool \<Rightarrow> rate_limits"
  breaker :: breaker_profile

definition lease_milliseconds :: "rat \<Rightarrow> int" where
  "lease_milliseconds seconds = \<lceil>seconds * 1000\<rceil>"

text \<open>\<open>acquire\<close>; the lease length is missing when it is not a finite number, and the connection may fail.\<close>

definition acquire ::
  "control_config \<Rightarrow> int \<Rightarrow> uuid \<Rightarrow> bool \<Rightarrow> pool \<Rightarrow> 'k \<Rightarrow> pyval \<Rightarrow> rat option \<Rightarrow> 'k runtime
   \<Rightarrow> (control_error + 'k permit) \<times> 'k runtime" where
  "acquire cfg now lease reachable p k estimated_tokens lease_seconds st =
     (case estimated_tokens of
        PyInt tokens \<Rightarrow>
          if tokens \<le> 0 then (Inl (control_failure ''AI_RUNTIME_CONTROL_TOKEN_ESTIMATE_INVALID''), st)
          else (case lease_seconds of
            None \<Rightarrow> (Inl (control_failure ''AI_RUNTIME_CONTROL_LEASE_INVALID''), st)
          | Some seconds \<Rightarrow>
            if seconds < 1 \<or> 600 < seconds then (Inl (control_failure ''AI_RUNTIME_CONTROL_LEASE_INVALID''), st)
            else if limit_tpm (pool_limits cfg p) < tokens
            then (Inl \<lparr>control_code = ''AI_RATE_LIMITED'', retry_after_seconds = Some 60\<rparr>, st)
            else if \<not> reachable then (Inl unavailable, st)
            else (let (r, ps, ts) = acquire_script now lease tokens (pool_limits cfg p)
                    (lease_milliseconds seconds) (pool_state st p) (target_state st k);
                  st' = st\<lparr>pool_state := (pool_state st)(p := ps), target_state := (target_state st)(k := ts)\<rparr>
              in (case read_reply (reply_value r) of
                    Inl e \<Rightarrow> (Inl e, st')
                  | Inr half \<Rightarrow> (Inr \<lparr>permit_half_open = half, permit_pool = p, permit_target = k,
                      permit_lease = lease, permit_finished = False\<rparr>, st'))))
      | _ \<Rightarrow> (Inl (control_failure ''AI_RUNTIME_CONTROL_TOKEN_ESTIMATE_INVALID''), st))"

text \<open>\<open>AiRuntimePermit.finish\<close>: once only.\<close>

definition finish ::
  "control_config \<Rightarrow> int \<Rightarrow> bool \<Rightarrow> 'k permit \<Rightarrow> runtime_outcome \<Rightarrow> 'k runtime
   \<Rightarrow> (control_error + 'k permit) \<times> 'k runtime" where
  "finish cfg now reachable permit result st =
     (if permit_finished permit then (Inl (control_failure ''AI_RUNTIME_CONTROL_PERMIT_ALREADY_FINISHED''), st)
      else if \<not> reachable then (Inl unavailable, st)
      else (let (ps, ts) = finish_script now (permit_lease permit) result (breaker cfg)
              (pool_state st (permit_pool permit)) (target_state st (permit_target permit))
        in (Inr (permit\<lparr>permit_finished := True\<rparr>),
            st\<lparr>pool_state := (pool_state st)(permit_pool permit := ps),
               target_state := (target_state st)(permit_target permit := ts)\<rparr>)))"

section \<open>Outcomes of the scripts\<close>

text \<open>Reading a reply gives back what the script decided.\<close>

lemma denial_text_ascii: "is_ascii (lit (denial_text d))"
  by (cases d) (simp_all add: is_ascii_def lit_def)

lemma denial_code_some: "\<exists>code. denial_code (lit (denial_text d)) = Some code"
  by (cases d) (simp_all add: denial_code_def)

lemma read_reply_granted: "read_reply (reply_value r) = Inr half \<longleftrightarrow> r = Granted half"
  by (auto simp: read_reply_def reply_value_def result_tuple_def result_int_def result_text_def bind_control_def
      denial_text_ascii split: reply.splits option.splits)

lemma acquire_cases:
  assumes "acquire cfg now lease reachable p k est secs st = (res, st')"
  obtains (refused) e where "res = Inl e" "st' = st"
    | (denied) e tokens seconds d ms ps ts where "res = Inl e" "secs = Some seconds" "1 \<le> seconds"
      "acquire_script now lease tokens (pool_limits cfg p) (lease_milliseconds seconds)
         (pool_state st p) (target_state st k) = (Denied d ms, ps, ts)"
      "st' = st\<lparr>pool_state := (pool_state st)(p := ps), target_state := (target_state st)(k := ts)\<rparr>"
    | (granted) tokens seconds half ps ts where "est = PyInt tokens" "0 < tokens" "secs = Some seconds" "1 \<le> seconds"
      "acquire_script now lease tokens (pool_limits cfg p) (lease_milliseconds seconds)
         (pool_state st p) (target_state st k) = (Granted half, ps, ts)"
      "st' = st\<lparr>pool_state := (pool_state st)(p := ps), target_state := (target_state st)(k := ts)\<rparr>"
      "res = Inr \<lparr>permit_half_open = half, permit_pool = p, permit_target = k, permit_lease = lease,
           permit_finished = False\<rparr>"
proof (cases "\<exists>tokens seconds. est = PyInt tokens \<and> 0 < tokens \<and> secs = Some seconds \<and> 1 \<le> seconds \<and>
    seconds \<le> 600 \<and> tokens \<le> limit_tpm (pool_limits cfg p) \<and> reachable")
  case False
  then have "\<exists>e. res = Inl e \<and> st' = st"
    using assms by (cases est; cases secs) (auto simp: acquire_def not_le not_less split: if_splits)
  with refused show ?thesis by blast
next
  case True
  then obtain tokens seconds where a: "est = PyInt tokens" "0 < tokens" "secs = Some seconds" "1 \<le> seconds"
    "seconds \<le> 600" "tokens \<le> limit_tpm (pool_limits cfg p)" reachable by blast
  obtain r ps ts where script: "acquire_script now lease tokens (pool_limits cfg p) (lease_milliseconds seconds)
         (pool_state st p) (target_state st k) = (r, ps, ts)" by (metis prod_cases3)
  have out: "st' = st\<lparr>pool_state := (pool_state st)(p := ps), target_state := (target_state st)(k := ts)\<rparr>"
    "res = (case read_reply (reply_value r) of Inl e \<Rightarrow> Inl e | Inr half \<Rightarrow>
       Inr \<lparr>permit_half_open = half, permit_pool = p, permit_target = k, permit_lease = lease,
         permit_finished = False\<rparr>)"
    using assms a script by (auto simp: acquire_def Let_def split: sum.splits)
  show ?thesis
  proof (cases r)
    case (Granted half)
    with read_reply_granted [of r half] out(2) a script out(1) granted show ?thesis by simp
  next
    case (Denied d ms)
    with read_reply_granted [of r] obtain e where "read_reply (reply_value r) = Inl e"
      by (cases "read_reply (reply_value r)") auto
    with Denied a script out denied show ?thesis by simp
  qed
qed

text \<open>What the acquire script does to the leases, to the buckets and to the breaker.\<close>

lemma zremrangebyscore_members:
  "zmembers now (zremrangebyscore now b k) = filter (\<lambda>z. b < snd z) (zmembers now k)"
  by (auto simp: zremrangebyscore_def zmembers_def live_def Let_def split: option.splits)

lemma acquire_script_denied:
  assumes "acquire_script now lease cost limits lease_ms p t = (Denied d ms, p', t')"
  shows "p' = p \<or> p' = p\<lparr>lease_set := zremrangebyscore now now (lease_set p)\<rparr>"
    "t' = t \<or> (\<exists>half t1. breaker_gate now lease lease_ms t = Inr (half, t1) \<and> t' = release_half_open now lease half t1)"
  using assms
  by (auto simp: acquire_script_def Let_def split: sum.splits prod.splits if_splits)

lemma acquire_script_granted:
  assumes "acquire_script now lease cost limits lease_ms p t = (Granted half, p', t')"
  obtains requests tokens where "breaker_gate now lease lease_ms t = Inr (half, t')"
    "int (length (filter (\<lambda>z. now < snd z) (zmembers now (lease_set p)))) < limit_concurrency limits"
    "refill_bucket now (request_bucket p) (limit_burst limits) (limit_rpm limits) 1 = Inr requests"
    "refill_bucket now (token_bucket p) (limit_tpm limits) (limit_tpm limits) cost = Inr tokens"
    "request_bucket p' = Some ((requests, now), now + 120000)"
    "token_bucket p' = Some ((tokens, now), now + 120000)"
    "lease_set p' = zadd_expire now lease (now + lease_ms) (max (lease_ms * 2) 120000)
       (zremrangebyscore now now (lease_set p))"
  using assms
  by (auto simp: acquire_script_def Let_def zremrangebyscore_members not_le
      split: sum.splits prod.splits if_splits)

end
