(* ===== verification/AiRuntimeProperties.thy ===== *)
theory AiRuntimeProperties
  imports AiRuntimeControl
begin

text \<open>
  What the shared runtime control of provider calls guarantees in every history of calls: the concurrency
  limit of a pool, the single probe of a half-open breaker, the rates of a pool, and the opening of a
  breaker. A history is a sequence of the controller's own operations with the server times at which
  Redis runs their scripts.
\<close>

section \<open>Histories\<close>

text \<open>The shared state with what its clients hold: the permits not yet finished with the end of their
  leases, the lease identifiers drawn so far, the time of the last call, and the grants made so far with
  pool, time and tokens.\<close>

record 'k system =
  shared :: "'k runtime"
  held :: "('k permit \<times> int) list"
  drawn :: "uuid set"
  last_call :: int
  grants :: "(pool \<times> int \<times> int) list"

definition no_keys :: "'k runtime" where
  "no_keys = \<lparr>pool_state = (\<lambda>_. \<lparr>lease_set = None, request_bucket = None, token_bucket = None\<rparr>),
     target_state = (\<lambda>_. \<lparr>failure_set = None, open_until = None, half_open = None\<rparr>)\<rparr>"

definition initial_system :: "int \<Rightarrow> 'k system" where
  "initial_system now = \<lparr>shared = no_keys, held = [], drawn = {}, last_call = now, grants = []\<rparr>"

definition token_estimate :: "pyval \<Rightarrow> int" where
  "token_estimate v = (case v of PyInt n \<Rightarrow> n | _ \<Rightarrow> 0)"

definition after_acquire ::
  "int \<Rightarrow> uuid \<Rightarrow> pool \<Rightarrow> pyval \<Rightarrow> rat option \<Rightarrow> (control_error + 'k permit) \<times> 'k runtime \<Rightarrow> 'k system \<Rightarrow> 'k system" where
  "after_acquire now lease p est secs out s =
     (let s1 = s\<lparr>shared := snd out, drawn := insert lease (drawn s), last_call := now\<rparr> in
      case fst out of Inl _ \<Rightarrow> s1
      | Inr permit \<Rightarrow> s1\<lparr>held := (permit, now + lease_milliseconds (the secs)) # held s1,
          grants := (p, now, token_estimate est) # grants s1\<rparr>)"

definition after_finish ::
  "int \<Rightarrow> 'k permit \<Rightarrow> (control_error + 'k permit) \<times> 'k runtime \<Rightarrow> 'k system \<Rightarrow> 'k system" where
  "after_finish now permit out s =
     (let s1 = s\<lparr>shared := snd out, last_call := now\<rparr> in
      case fst out of Inl _ \<Rightarrow> s1
      | Inr _ \<Rightarrow> s1\<lparr>held := filter (\<lambda>h. permit_lease (fst h) \<noteq> permit_lease permit) (held s1)\<rparr>)"

text \<open>Calls at non-decreasing server times, with fresh lease identifiers and leases of at most \<open>M\<close>
  milliseconds; a permit is finished at most once successfully, at any time.\<close>

inductive runtime_run :: "control_config \<Rightarrow> int \<Rightarrow> 'k system \<Rightarrow> bool" for cfg M where
  run_start: "runtime_run cfg M (initial_system now)"
| run_acquire: "runtime_run cfg M s \<Longrightarrow> last_call s \<le> now \<Longrightarrow> lease \<notin> drawn s \<Longrightarrow>
    (\<And>seconds. secs = Some seconds \<Longrightarrow> lease_milliseconds seconds \<le> M) \<Longrightarrow>
    runtime_run cfg M (after_acquire now lease p est secs
      (acquire cfg now lease reachable p k est secs (shared s)) s)"
| run_finish: "runtime_run cfg M s \<Longrightarrow> last_call s \<le> now \<Longrightarrow> (permit, e) \<in> set (held s) \<Longrightarrow>
    runtime_run cfg M (after_finish now permit (finish cfg now reachable permit result (shared s)) s)"

section \<open>Concurrency\<close>

text \<open>The lease set of a pool against the leases that are held: no running lease is missing from it, and at
  most the permitted number of its entries is running.\<close>

definition leases_ok :: "int \<Rightarrow> int \<Rightarrow> uuid set \<Rightarrow> (uuid \<times> int) list key \<Rightarrow> (uuid \<times> int) set \<Rightarrow> bool" where
  "leases_ok limit now ids k hs \<longleftrightarrow>
     (\<forall>h \<in> hs. now < snd h \<longrightarrow> (\<exists>zs x. k = Some (zs, x) \<and> h \<in> set zs)) \<and>
     (\<forall>zs x. k = Some (zs, x) \<longrightarrow> distinct (map fst zs) \<and> fst ` set zs \<subseteq> ids \<and>
        (\<forall>z \<in> set zs. snd z \<le> x \<and> snd z \<le> now + 120000) \<and>
        int (length (filter (\<lambda>z. now < snd z) zs)) \<le> limit)"

lemma filter_later_length:
  assumes "now \<le> (later :: int)"
  shows "length (filter (\<lambda>z. later < snd z) zs) \<le> length (filter (\<lambda>z. now < snd z) zs)"
proof (induction zs)
  case (Cons z zs)
  then show ?case using assms by auto
qed simp

lemma leases_ok_set:
  assumes "leases_ok limit now ids (Some (zs, x)) hs"
  shows "distinct (map fst zs)" "fst ` set zs \<subseteq> ids" "\<forall>z \<in> set zs. snd z \<le> x" "\<forall>z \<in> set zs. snd z \<le> now + 120000"
    "int (length (filter (\<lambda>z. now < snd z) zs)) \<le> limit"
  using assms by (simp_all add: leases_ok_def)

lemma leases_ok_later:
  assumes "leases_ok limit now ids k hs" "now \<le> later" "ids \<subseteq> ids'" "hs' \<subseteq> hs"
  shows "leases_ok limit later ids' k hs'"
  unfolding leases_ok_def
proof (intro conjI allI impI ballI)
  fix h assume "h \<in> hs'" "later < snd h"
  with assms(2,4) have "h \<in> hs" "now < snd h" by auto
  with assms(1) show "\<exists>zs x. k = Some (zs, x) \<and> h \<in> set zs" by (simp add: leases_ok_def)
next
  fix zs x assume k: "k = Some (zs, x)"
  with assms(1) have ok: "distinct (map fst zs)" "fst ` set zs \<subseteq> ids"
    "\<forall>z \<in> set zs. snd z \<le> x \<and> snd z \<le> now + 120000" "int (length (filter (\<lambda>z. now < snd z) zs)) \<le> limit"
    by (simp_all add: leases_ok_def)
  then show "distinct (map fst zs)" "fst ` set zs \<subseteq> ids'" using assms(3) by auto
  show "int (length (filter (\<lambda>z. later < snd z) zs)) \<le> limit"
    using ok(4) filter_later_length [OF assms(2), of zs] by linarith
  fix z assume "z \<in> set zs"
  with ok(3) assms(2) show "snd z \<le> x" "snd z \<le> later + 120000" by force+
qed

lemma live_members:
  assumes "leases_ok limit now ids (Some (zs, x)) hs" "z \<in> set zs" "now < snd z"
  shows "zmembers now (Some (zs, x)) = zs"
  using assms by (fastforce simp: leases_ok_def zmembers_def live_def)

lemma zmembers_subset: "zmembers now (Some (zs, x)) = zs \<or> zmembers now (Some (zs, x)) = []"
  by (simp add: zmembers_def live_def)

lemma leases_ok_filter:
  assumes "leases_ok limit now ids k hs" "\<And>z. z \<in> hs' \<Longrightarrow> now < snd z \<Longrightarrow> keep z" "hs' \<subseteq> hs" "0 \<le> limit"
  shows "leases_ok limit now ids (case k of None \<Rightarrow> None | Some (zs, x) \<Rightarrow>
    let kept = filter keep (zmembers now k) in if kept = [] then None else Some (kept, x)) hs'"
proof (cases k)
  case None
  with assms show ?thesis by (auto simp: leases_ok_def)
next
  case (Some zx)
  then obtain zs x where k: "k = Some (zs, x)" by (cases zx) auto
  have sub: "distinct (map fst kept) \<and> fst ` set kept \<subseteq> ids \<and> (\<forall>z \<in> set kept. snd z \<le> x \<and> snd z \<le> now + 120000) \<and>
      int (length (filter (\<lambda>z. now < snd z) kept)) \<le> limit" if kept: "kept = filter keep (zmembers now k)" for kept
  proof -
    from zmembers_subset [of now zs x] k consider "kept = filter keep zs" | "kept = []" using kept by fastforce
    then show ?thesis
    proof cases
      case 1
      have "length (filter (\<lambda>z. now < snd z) (filter keep zs)) \<le> length (filter (\<lambda>z. now < snd z) zs)"
        by (induction zs) auto
      with leases_ok_set [OF assms(1) [unfolded k]] have
        "int (length (filter (\<lambda>z. now < snd z) (filter keep zs))) \<le> limit" by linarith
      moreover have "distinct (map fst (filter keep zs))"
        using leases_ok_set(1) [OF assms(1) [unfolded k]] by (rule distinct_map_filter)
      moreover have "set (filter keep zs) \<subseteq> set zs" by auto
      ultimately show ?thesis
        using leases_ok_set(2-4) [OF assms(1) [unfolded k]] 1 by blast
    next
      case 2
      with assms(4) show ?thesis by simp
    qed
  qed
  have "h \<in> set (filter keep (zmembers now k))" if h: "h \<in> hs'" "now < snd h" for h
  proof -
    from h assms(1,3) k have "h \<in> set zs" by (auto simp: leases_ok_def)
    with live_members [OF assms(1) [unfolded k] this h(2)] k assms(2) h show ?thesis by simp
  qed
  then have kept: "\<forall>h \<in> hs'. now < snd h \<longrightarrow> h \<in> set (filter keep (zmembers now k))" by blast
  show ?thesis
  proof (cases "filter keep (zmembers now k) = []")
    case True
    with kept have "\<forall>h \<in> hs'. \<not> now < snd h" by auto
    with True k show ?thesis by (auto simp: leases_ok_def)
  next
    case False
    with kept sub [OF refl] k show ?thesis by (simp add: leases_ok_def)
  qed
qed

lemma leases_ok_prune:
  assumes "leases_ok limit now ids k hs" "0 \<le> limit"
  shows "leases_ok limit now ids (zremrangebyscore now now k) hs"
  using leases_ok_filter [OF assms(1), of hs "\<lambda>z. now < snd z"] assms(2)
  by (simp add: zremrangebyscore_def)

lemma leases_ok_release:
  assumes "leases_ok limit now ids k hs" "0 \<le> limit" "hs' \<subseteq> {h \<in> hs. fst h \<noteq> lease}"
  shows "leases_ok limit now ids (zrem now lease k) hs'"
  using leases_ok_filter [OF assms(1), of hs' "\<lambda>z. fst z \<noteq> lease"] assms(2,3)
  by (auto simp: zrem_def)

lemma update_new: "k \<notin> fst ` set xs \<Longrightarrow> AList.update k v xs = xs @ [(k, v)]"
  by (induction xs) auto

lemma leases_ok_add:
  assumes ok: "leases_ok limit now ids k hs" and new: "lease \<notin> ids"
    and len: "0 < ms" "ms \<le> 120000"
    and room: "int (length (filter (\<lambda>z. now < snd z) (zmembers now k))) < limit"
  shows "leases_ok limit now (insert lease ids)
    (zadd_expire now lease (now + ms) (max (ms * 2) 120000) k) (insert (lease, now + ms) hs)"
proof -
  let ?zs = "zmembers now k"
  have zs: "distinct (map fst ?zs)" "fst ` set ?zs \<subseteq> ids" "\<forall>z \<in> set ?zs. snd z \<le> now + 120000"
  proof -
    have "(\<exists>x. k = Some (?zs, x)) \<or> ?zs = []"
      by (cases k) (auto simp: zmembers_def live_def)
    then consider x where "k = Some (?zs, x)" | "?zs = []" by blast
    then have "distinct (map fst ?zs) \<and> fst ` set ?zs \<subseteq> ids \<and> (\<forall>z \<in> set ?zs. snd z \<le> now + 120000)"
      using ok leases_ok_set by cases (metis, simp)
    then show "distinct (map fst ?zs)" "fst ` set ?zs \<subseteq> ids" "\<forall>z \<in> set ?zs. snd z \<le> now + 120000" by blast+
  qed
  have upd: "AList.update lease (now + ms) ?zs = ?zs @ [(lease, now + ms)]"
  proof -
    have "lease \<notin> fst ` set ?zs" using zs(2) new by blast
    then show ?thesis by (rule update_new)
  qed
  have "h \<in> set ?zs" if "h \<in> hs" "now < snd h" for h
  proof -
    from that ok obtain zs x where "k = Some (zs, x)" "h \<in> set zs" unfolding leases_ok_def by blast
    with ok that(2) show ?thesis by (metis live_members)
  qed
  then have "\<forall>h \<in> insert (lease, now + ms) hs. now < snd h \<longrightarrow> h \<in> set (?zs @ [(lease, now + ms)])" by auto
  moreover have "distinct (map fst (?zs @ [(lease, now + ms)]))" using zs(1,2) new by auto
  moreover have "\<forall>z \<in> set (?zs @ [(lease, now + ms)]). snd z \<le> now + max (ms * 2) 120000 \<and> snd z \<le> now + 120000"
    using zs(3) len by force
  moreover have "int (length (filter (\<lambda>z. now < snd z) (?zs @ [(lease, now + ms)]))) \<le> limit"
    using room len(1) by simp
  ultimately show ?thesis
    using zs(2) by (auto simp: leases_ok_def zadd_expire_def upd)
qed

definition held_ok :: "'k system \<Rightarrow> bool" where
  "held_ok s \<longleftrightarrow> distinct (map (permit_lease \<circ> fst) (held s)) \<and> permit_lease ` fst ` set (held s) \<subseteq> drawn s \<and>
     (\<forall>h \<in> set (held s). \<not> permit_finished (fst h))"

lemma held_ok_acquire:
  assumes "held_ok s" "lease \<notin> drawn s"
  shows "held_ok (after_acquire now lease p est secs (acquire cfg now lease reachable p k est secs st) s)"
proof -
  obtain res st' where a: "acquire cfg now lease reachable p k est secs st = (res, st')" by fastforce
  show ?thesis
  proof (cases res)
    case (Inl e)
    with assms a show ?thesis by (auto simp: held_ok_def after_acquire_def)
  next
    case (Inr permit)
    from a [unfolded Inr] have "permit_lease permit = lease \<and> \<not> permit_finished permit"
      by (rule acquire_cases) simp_all
    with assms a Inr show ?thesis by (auto simp: held_ok_def after_acquire_def)
  qed
qed

lemma held_ok_finish:
  assumes "held_ok s"
  shows "held_ok (after_finish now permit out s)"
  using assms by (auto simp: held_ok_def after_finish_def Let_def distinct_map_filter split: sum.splits)

lemma run_held_ok: "runtime_run cfg M s \<Longrightarrow> held_ok s"
proof (induction rule: runtime_run.induct)
  case (run_start now)
  then show ?case by (simp add: held_ok_def initial_system_def)
qed (simp_all add: held_ok_acquire held_ok_finish)

definition pool_leases :: "pool \<Rightarrow> 'k system \<Rightarrow> (uuid \<times> int) set" where
  "pool_leases p s = (\<lambda>h. (permit_lease (fst h), snd h)) ` {h \<in> set (held s). permit_pool (fst h) = p}"

definition pool_ok :: "control_config \<Rightarrow> 'k system \<Rightarrow> pool \<Rightarrow> bool" where
  "pool_ok cfg s p \<longleftrightarrow> leases_ok (limit_concurrency (pool_limits cfg p)) (last_call s) (drawn s)
     (lease_set (pool_state (shared s) p)) (pool_leases p s)"

lemma pool_leases_Cons:
  "held s' = h # held s \<Longrightarrow> pool_leases p s' = (if permit_pool (fst h) = p
     then insert (permit_lease (fst h), snd h) (pool_leases p s) else pool_leases p s)"
  by (auto simp: pool_leases_def)

lemma lease_milliseconds_pos: "1 \<le> seconds \<Longrightarrow> 0 < lease_milliseconds seconds"
  by (simp add: lease_milliseconds_def less_ceiling_iff)

lemma pool_ok_acquire:
  assumes ok: "\<And>p. pool_ok cfg s p" and limit: "\<And>p. 0 \<le> limit_concurrency (pool_limits cfg p)"
    and time: "last_call s \<le> now" and new: "lease \<notin> drawn s"
    and len: "\<And>seconds. secs = Some seconds \<Longrightarrow> lease_milliseconds seconds \<le> 120000"
    and a: "acquire cfg now lease reachable p k est secs (shared s) = (res, st')"
  shows "pool_ok cfg (after_acquire now lease p est secs (res, st') s) q"
proof -
  note later = leases_ok_later [OF ok [unfolded pool_ok_def] time]
  from a show ?thesis
  proof (cases rule: acquire_cases)
    case (refused e)
    then show ?thesis
      using later [of "insert lease (drawn s)" "pool_leases q s" q]
      by (simp add: pool_ok_def after_acquire_def pool_leases_def subset_insertI)
  next
    case (denied e tokens seconds d ms ps ts)
    have "lease_set ps = lease_set (pool_state (shared s) p) \<or>
        lease_set ps = zremrangebyscore now now (lease_set (pool_state (shared s) p))"
      using acquire_script_denied(1) [OF denied(4)] by auto
    with later [of "insert lease (drawn s)" "pool_leases q s" q] leases_ok_prune [OF _ limit] denied
    show ?thesis
      by (auto simp: pool_ok_def after_acquire_def pool_leases_def subset_insertI)
  next
    case (granted tokens seconds half ps ts)
    have "held (after_acquire now lease p est secs (res, st') s) = (\<lparr>permit_half_open = half, permit_pool = p,
        permit_target = k, permit_lease = lease, permit_finished = False\<rparr>, now + lease_milliseconds seconds) # held s"
      using granted by (simp add: after_acquire_def)
    note held = pool_leases_Cons [OF this]
    show ?thesis
    proof (cases "q = p")
      case False
      then have "pool_leases q (after_acquire now lease p est secs (res, st') s) = pool_leases q s"
        by (simp add: held)
      with False granted later [of "insert lease (drawn s)" "pool_leases q s" q] show ?thesis
        by (simp add: pool_ok_def after_acquire_def subset_insertI)
    next
      case True
      from granted(5) obtain r1 r2 where g:
        "int (length (filter (\<lambda>z. now < snd z) (zmembers now (lease_set (pool_state (shared s) p))))) <
          limit_concurrency (pool_limits cfg p)"
        "lease_set ps = zadd_expire now lease (now + lease_milliseconds seconds) (max (lease_milliseconds seconds * 2) 120000)
          (zremrangebyscore now now (lease_set (pool_state (shared s) p)))"
        by (rule acquire_script_granted)
      have "leases_ok (limit_concurrency (pool_limits cfg p)) now (insert lease (drawn s)) (lease_set ps)
          (insert (lease, now + lease_milliseconds seconds) (pool_leases p s))"
        unfolding g(2)
        using leases_ok_prune [OF later [of "drawn s" "pool_leases p s" p] limit] new g(1)
          lease_milliseconds_pos [OF granted(4)] len [OF granted(3)]
        by (intro leases_ok_add) (auto simp: zremrangebyscore_members)
      moreover have "pool_leases p (after_acquire now lease p est secs (res, st') s) =
          insert (lease, now + lease_milliseconds seconds) (pool_leases p s)"
        by (simp add: held)
      ultimately show ?thesis
        using True granted by (simp add: pool_ok_def after_acquire_def)
    qed
  qed
qed

lemma pool_ok_finish:
  assumes ok: "\<And>p. pool_ok cfg s p" and limit: "\<And>p. 0 \<le> limit_concurrency (pool_limits cfg p)"
    and time: "last_call s \<le> now" and fresh: "\<not> permit_finished permit"
  shows "pool_ok cfg (after_finish now permit (finish cfg now reachable permit result (shared s)) s) q"
proof (cases reachable)
  case False
  with fresh leases_ok_later [OF ok [unfolded pool_ok_def] time, of "drawn s" "pool_leases q s" q] show ?thesis
    by (simp add: finish_def after_finish_def pool_ok_def pool_leases_def)
next
  case True
  note later = leases_ok_later [OF ok [unfolded pool_ok_def] time]
  obtain ps ts where f: "finish_script now (permit_lease permit) result (breaker cfg)
      (pool_state (shared s) (permit_pool permit)) (target_state (shared s) (permit_target permit)) = (ps, ts)"
    by fastforce
  have ps: "lease_set ps = zrem now (permit_lease permit) (lease_set (pool_state (shared s) (permit_pool permit)))"
    using f by (auto simp: finish_script_def Let_def split: if_splits)
  let ?s' = "after_finish now permit (finish cfg now reachable permit result (shared s)) s"
  have s': "pool_state (shared ?s') = (pool_state (shared s))(permit_pool permit := ps)" "last_call ?s' = now"
    "drawn ?s' = drawn s" "held ?s' = filter (\<lambda>h. permit_lease (fst h) \<noteq> permit_lease permit) (held s)"
    using True fresh f by (auto simp: finish_def after_finish_def)
  have sub: "pool_leases q ?s' \<subseteq> {h \<in> pool_leases q s. fst h \<noteq> permit_lease permit}"
    by (auto simp: pool_leases_def s'(4))
  show ?thesis
  proof (cases "q = permit_pool permit")
    case True
    with ps leases_ok_release [OF later [of "drawn s" "pool_leases q s" q] limit sub] show ?thesis
      by (simp add: pool_ok_def s'(1-3))
  next
    case False
    with later [of "drawn s" "pool_leases q ?s'" q] sub show ?thesis
      by (auto simp: pool_ok_def s'(1-3))
  qed
qed

lemma run_pool_ok:
  assumes "runtime_run cfg M s" "M \<le> 120000" "\<And>p. 0 \<le> limit_concurrency (pool_limits cfg p)"
  shows "\<forall>p. pool_ok cfg s p"
  using assms(1)
proof induction
  case (run_start now)
  with assms(3) show ?case
    by (simp add: pool_ok_def leases_ok_def initial_system_def no_keys_def pool_leases_def)
next
  case (run_acquire s now lease secs p est reachable k)
  then have len: "lease_milliseconds seconds \<le> 120000" if "secs = Some seconds" for seconds
    using assms(2) that by fastforce
  show ?case
    using pool_ok_acquire [OF _ assms(3) run_acquire.hyps(2,3) len] run_acquire.IH by (metis prod.collapse)
next
  case (run_finish s now permit e reachable result)
  then have "\<not> permit_finished permit" using run_held_ok [of cfg M s] by (force simp: held_ok_def)
  with run_finish pool_ok_finish [OF _ assms(3)] show ?case by metis
qed

text \<open>C27. The concurrency limit of a pool holds across all processes. In every history in which leases last
  at most two minutes, the permits of a pool that are neither finished nor past the end of their lease
  are never more than its limit, at the last call and at every later time.\<close>

theorem concurrency_limit_holds:
  assumes "runtime_run cfg 120000 s" "\<And>q. 0 \<le> limit_concurrency (pool_limits cfg q)" "last_call s \<le> now"
  shows "int (length (filter (\<lambda>h. permit_pool (fst h) = p \<and> now < snd h) (held s))) \<le>
    limit_concurrency (pool_limits cfg p)"
proof -
  have ok: "leases_ok (limit_concurrency (pool_limits cfg p)) now (drawn s)
      (lease_set (pool_state (shared s) p)) (pool_leases p s)"
    using run_pool_ok [OF assms(1) _ assms(2)] leases_ok_later [OF _ assms(3) order_refl order_refl]
    by (simp add: pool_ok_def)
  let ?hs = "filter (\<lambda>h. permit_pool (fst h) = p \<and> now < snd h) (held s)"
  let ?l = "\<lambda>h. (permit_lease (fst h), snd h)"
  have "distinct (map (permit_lease \<circ> fst) ?hs)"
    using run_held_ok [OF assms(1)] by (simp add: held_ok_def distinct_map_filter)
  then have inj: "inj_on ?l (set ?hs)" "distinct ?hs"
    by (auto simp: distinct_map inj_on_def)
  show ?thesis
  proof (cases "lease_set (pool_state (shared s) p)")
    case None
    with ok have "?hs = []" by (auto simp: leases_ok_def pool_leases_def filter_empty_conv)
    with assms(2) show ?thesis by simp
  next
    case (Some zx)
    then obtain zs x where k: "lease_set (pool_state (shared s) p) = Some (zs, x)" by (cases zx) auto
    have "?l ` set ?hs \<subseteq> set (filter (\<lambda>z. now < snd z) zs)"
      using ok k by (auto simp: leases_ok_def pool_leases_def)
    then have "card (?l ` set ?hs) \<le> length (filter (\<lambda>z. now < snd z) zs)"
      by (meson List.finite_set card_length card_mono le_trans)
    moreover have "card (?l ` set ?hs) = length ?hs"
      unfolding card_image [OF inj(1)] by (rule distinct_card [OF inj(2)])
    ultimately show ?thesis
      using leases_ok_set(5) [OF ok [unfolded k]] by linarith
  qed
qed

section \<open>The circuit breaker\<close>

text \<open>The probes of a target that are held, with the ends of their leases, against its keys.\<close>

definition probes :: "'k \<Rightarrow> 'k system \<Rightarrow> (uuid \<times> int) set" where
  "probes k s = (\<lambda>h. (permit_lease (fst h), snd h)) `
     {h \<in> set (held s). permit_half_open (fst h) \<and> permit_target (fst h) = k}"

definition probes_ok :: "int \<Rightarrow> target_keys \<Rightarrow> (uuid \<times> int) set \<Rightarrow> bool" where
  "probes_ok now t hs \<longleftrightarrow> (\<forall>h \<in> hs. now \<le> snd h \<longrightarrow>
     half_open t = Some h \<and> (\<exists>u x. open_until t = Some (u, x) \<and> snd h \<le> x))"

lemma probes_ok_later: "probes_ok now t hs \<Longrightarrow> now \<le> later \<Longrightarrow> hs' \<subseteq> hs \<Longrightarrow> probes_ok later t hs'"
  by (fastforce simp: probes_ok_def)

text \<open>A call passes the breaker only when no probe is running; the probe it becomes outlives neither its
  own key nor that of the open breaker.\<close>

lemma gate_no_probe:
  assumes "probes_ok now t hs" "breaker_gate now lease ms t = Inr (half, t')" "h \<in> hs"
  shows "\<not> now \<le> snd h"
proof
  assume run: "now \<le> snd h"
  with assms(1,3) obtain u x where "half_open t = Some h" "open_until t = Some (u, x)" "snd h \<le> x"
    unfolding probes_ok_def by blast
  with run assms(2) show False by (cases h) (auto simp: breaker_gate_def live_def split: if_splits)
qed

lemma gate_probe:
  assumes "breaker_gate now lease ms t = Inr (True, t')"
  shows "half_open t' = Some (lease, now + ms)" "\<exists>u x. open_until t' = Some (u, x) \<and> now + ms \<le> x"
proof -
  from assms obtain u x where u: "open_until t = Some (u, x)" "now \<le> x"
    by (auto simp: breaker_gate_def live_def split: option.splits if_splits)
  with assms show "half_open t' = Some (lease, now + ms)"
    by (auto simp: breaker_gate_def live_def split: option.splits if_splits)
  from assms u show "\<exists>u x. open_until t' = Some (u, x) \<and> now + ms \<le> x"
    by (auto simp: breaker_gate_def live_def pexpire_def pttl_def split: option.splits if_splits)
qed

lemma probes_ok_finish:
  assumes "probes_ok now t hs" "finish_script now lease result b p t = (p', t')"
    and "\<forall>h \<in> hs. snd h \<le> now + (breaker_open_seconds b * 2000 + 60000)"
    and sub: "hs' \<subseteq> {h \<in> hs. fst h \<noteq> lease}"
  shows "probes_ok now t' hs'"
  unfolding probes_ok_def
proof (intro ballI impI)
  fix h assume h: "h \<in> hs'" "now \<le> snd h"
  with sub have "h \<in> hs" "fst h \<noteq> lease" by auto
  with assms(1) h(2) obtain u x where k: "half_open t = Some h" "open_until t = Some (u, x)" "snd h \<le> x"
    unfolding probes_ok_def by blast
  with h(2) \<open>fst h \<noteq> lease\<close> have "live now (half_open t) \<noteq> Some lease"
    by (cases h) (auto simp: live_def)
  then have "half_open t' = half_open t \<and>
      (open_until t' = open_until t \<or> (\<exists>v. open_until t' = Some (v, now + (breaker_open_seconds b * 1000 * 2 + 60000))))"
    using assms(2) by (auto simp: finish_script_def Let_def split: if_splits)
  with k assms(3) \<open>h \<in> hs\<close> show "half_open t' = Some h \<and> (\<exists>u x. open_until t' = Some (u, x) \<and> snd h \<le> x)"
    by force
qed

definition ends_ok :: "int \<Rightarrow> 'k system \<Rightarrow> bool" where
  "ends_ok M s \<longleftrightarrow> (\<forall>h \<in> set (held s). snd h \<le> last_call s + M)"

definition target_ok :: "'k system \<Rightarrow> 'k \<Rightarrow> bool" where
  "target_ok s k \<longleftrightarrow> probes_ok (last_call s) (target_state (shared s) k) (probes k s)"

lemma probes_Cons:
  "held s' = h # held s \<Longrightarrow> probes k s' = (if permit_half_open (fst h) \<and> permit_target (fst h) = k
     then insert (permit_lease (fst h), snd h) (probes k s) else probes k s)"
  by (auto simp: probes_def)

lemma ends_ok_acquire:
  assumes "ends_ok M s" "last_call s \<le> now" "\<And>seconds. secs = Some seconds \<Longrightarrow> lease_milliseconds seconds \<le> M"
    and "acquire cfg now lease reachable p k est secs (shared s) = (res, st')"
  shows "ends_ok M (after_acquire now lease p est secs (res, st') s)"
  using assms(4)
proof (cases rule: acquire_cases)
  case (granted tokens seconds half ps ts)
  with assms(1-3) show ?thesis by (force simp: ends_ok_def after_acquire_def)
qed (use assms(1,2) in \<open>force simp: ends_ok_def after_acquire_def\<close>)+

lemma target_ok_acquire:
  assumes ok: "\<And>q. target_ok s q" and time: "last_call s \<le> now"
    and a: "acquire cfg now lease reachable p k est secs (shared s) = (res, st')"
  shows "target_ok (after_acquire now lease p est secs (res, st') s) q"
proof -
  note later = probes_ok_later [OF ok [unfolded target_ok_def] time order_refl]
  from a show ?thesis
  proof (cases rule: acquire_cases)
    case (refused e)
    with later [of q] show ?thesis by (simp add: target_ok_def after_acquire_def probes_def)
  next
    case (denied e tokens seconds d ms ps ts)
    have "probes_ok now ts (probes k s)"
    proof -
      from acquire_script_denied(2) [OF denied(4)] consider "ts = target_state (shared s) k"
        | half t1 where "breaker_gate now lease (lease_milliseconds seconds) (target_state (shared s) k) = Inr (half, t1)"
        by blast
      then show ?thesis
      proof cases
        case 1
        with later [of k] show ?thesis by simp
      next
        case 2
        with gate_no_probe [OF later [of k]] show ?thesis by (auto simp: probes_ok_def)
      qed
    qed
    with later [of q] denied show ?thesis by (auto simp: target_ok_def after_acquire_def probes_def)
  next
    case (granted tokens seconds half ps ts)
    have "held (after_acquire now lease p est secs (res, st') s) = (\<lparr>permit_half_open = half, permit_pool = p,
        permit_target = k, permit_lease = lease, permit_finished = False\<rparr>, now + lease_milliseconds seconds) # held s"
      using granted by (simp add: after_acquire_def)
    note held = probes_Cons [OF this]
    from granted(5) have gate:
      "breaker_gate now lease (lease_milliseconds seconds) (target_state (shared s) k) = Inr (half, ts)"
      by (rule acquire_script_granted)
    have "probes_ok now ts (probes k (after_acquire now lease p est secs (res, st') s))"
    proof (cases half)
      case True
      with gate have "breaker_gate now lease (lease_milliseconds seconds) (target_state (shared s) k) = Inr (True, ts)"
        by simp
      from gate_probe [OF this] gate_no_probe [OF later [of k] gate] True show ?thesis
        by (auto simp: held probes_ok_def)
    next
      case False
      with gate_no_probe [OF later [of k] gate] show ?thesis by (auto simp: held probes_ok_def)
    qed
    moreover have "probes q (after_acquire now lease p est secs (res, st') s) = probes q s" if "q \<noteq> k"
      using that held by simp
    ultimately show ?thesis
      using later [of q] granted by (cases "q = k") (simp_all add: target_ok_def after_acquire_def)
  qed
qed

lemma finish_cases:
  assumes "finish cfg now reachable permit result st = (res, st')" "\<not> permit_finished permit"
  obtains (lost) e where "res = Inl e" "st' = st"
    | (ran) ps ts permit' where "res = Inr permit'" "finish_script now (permit_lease permit) result (breaker cfg)
        (pool_state st (permit_pool permit)) (target_state st (permit_target permit)) = (ps, ts)"
      "st' = st\<lparr>pool_state := (pool_state st)(permit_pool permit := ps),
               target_state := (target_state st)(permit_target permit := ts)\<rparr>"
proof (cases reachable)
  case False
  with assms lost show ?thesis by (auto simp: finish_def)
next
  case True
  obtain ps ts where "finish_script now (permit_lease permit) result (breaker cfg)
        (pool_state st (permit_pool permit)) (target_state st (permit_target permit)) = (ps, ts)" by fastforce
  with True assms ran show ?thesis by (auto simp: finish_def)
qed

lemma target_ok_finish:
  assumes ok: "\<And>q. target_ok s q" and time: "last_call s \<le> now" and ends: "ends_ok M s"
    and M: "M \<le> breaker_open_seconds (breaker cfg) * 2000 + 60000"
    and f: "finish cfg now reachable permit result (shared s) = (res, st')" and fresh: "\<not> permit_finished permit"
  shows "target_ok (after_finish now permit (res, st') s) q"
proof -
  note later = probes_ok_later [OF ok [unfolded target_ok_def] time]
  from f fresh show ?thesis
  proof (cases rule: finish_cases)
    case (lost e)
    with later [of "probes q s" q] show ?thesis by (simp add: target_ok_def after_finish_def probes_def)
  next
    case (ran ps ts permit')
    have sub: "probes q (after_finish now permit (res, st') s) \<subseteq> {h \<in> probes q s. fst h \<noteq> permit_lease permit}"
      using ran by (auto simp: probes_def after_finish_def)
    have "\<forall>h \<in> probes q s. snd h \<le> now + (breaker_open_seconds (breaker cfg) * 2000 + 60000)"
      using ends time M by (force simp: ends_ok_def probes_def)
    note ends = this
    show ?thesis
    proof (cases "q = permit_target permit")
      case True
      with probes_ok_finish [OF later [OF order_refl] ran(2), of "probes (permit_target permit) s"] ends sub
      have "probes_ok now ts (probes q (after_finish now permit (res, st') s))"
        using probes_ok_finish [OF later [OF order_refl] ran(2)] by blast
      with True ran show ?thesis by (simp add: target_ok_def after_finish_def)
    next
      case False
      have "probes_ok now (target_state (shared s) q) (probes q (after_finish now permit (res, st') s))"
        using later [of _ q] sub by blast
      with False ran show ?thesis by (simp add: target_ok_def after_finish_def)
    qed
  qed
qed

lemma run_target_ok:
  assumes "runtime_run cfg M s" "M \<le> breaker_open_seconds (breaker cfg) * 2000 + 60000"
  shows "ends_ok M s \<and> (\<forall>k. target_ok s k)"
  using assms(1)
proof induction
  case (run_start now)
  then show ?case by (simp add: ends_ok_def target_ok_def probes_ok_def probes_def initial_system_def)
next
  case (run_acquire s now lease secs p est reachable k)
  obtain res st' where a: "acquire cfg now lease reachable p k est secs (shared s) = (res, st')" by fastforce
  show ?case
    unfolding a using ends_ok_acquire [OF _ run_acquire.hyps(2) run_acquire.hyps(4) a]
      target_ok_acquire [OF _ run_acquire.hyps(2) a] run_acquire.IH by blast
next
  case (run_finish s now permit e reachable result)
  then have fresh: "\<not> permit_finished permit" using run_held_ok [of cfg M s] by (force simp: held_ok_def)
  obtain res st' where f: "finish cfg now reachable permit result (shared s) = (res, st')" by fastforce
  have "ends_ok M (after_finish now permit (res, st') s)"
    using run_finish by (cases res) (force simp: ends_ok_def after_finish_def)+
  with target_ok_finish [OF _ run_finish.hyps(2) _ assms(2) f fresh] run_finish.IH show ?case
    unfolding f by blast
qed

text \<open>A half-open breaker lets one probe through. In every history whose leases do not outlast the
  time for which an opened breaker is remembered, two running permits of one target that were both
  granted as its half-open probe are the same permit.\<close>

theorem single_half_open_probe:
  assumes "runtime_run cfg M s" "M \<le> breaker_open_seconds (breaker cfg) * 2000 + 60000"
    and "g \<in> set (held s)" "h \<in> set (held s)" "permit_half_open (fst g)" "permit_half_open (fst h)"
    and "permit_target (fst g) = permit_target (fst h)" "last_call s \<le> snd g" "last_call s \<le> snd h"
  shows "g = h"
proof -
  let ?l = "\<lambda>h. (permit_lease (fst h), snd h)"
  have "?l g \<in> probes (permit_target (fst h)) s" "?l h \<in> probes (permit_target (fst h)) s"
    using assms by (auto simp: probes_def)
  with run_target_ok [OF assms(1,2)] assms(8,9)
  have "half_open (target_state (shared s) (permit_target (fst h))) = Some (?l g)"
    "half_open (target_state (shared s) (permit_target (fst h))) = Some (?l h)"
    unfolding target_ok_def probes_ok_def by (metis snd_conv)+
  then have "(permit_lease \<circ> fst) g = (permit_lease \<circ> fst) h" by simp
  moreover have "inj_on (permit_lease \<circ> fst) (set (held s))"
    using run_held_ok [OF assms(1)] by (simp add: held_ok_def distinct_map)
  ultimately show ?thesis using assms(3,4) by (meson inj_onD)
qed

lemma zmembers_add: "0 \<le> ms \<Longrightarrow> zmembers now (zadd_expire now m s ms k) = AList.update m s (zmembers now k)"
  by (simp add: zadd_expire_def zmembers_def live_def)

text \<open>The failures that open a breaker close the target at once. When the calls that failed within the
  window reach the limit, every call of the target in the following open period is refused before it
  touches anything, with the rest of the period as its retry time.\<close>

theorem breaker_opens:
  assumes "finish_script now lease TransientFailure b p t = (p', t')"
    and "breaker_failures b \<le> int (card (insert (now, lease)
      (fst ` {f \<in> set (zmembers now (failure_set t)). now - breaker_window_seconds b * 1000 < snd f})))"
    and "0 \<le> breaker_open_seconds b" "0 \<le> breaker_window_seconds b" "now \<le> later" "later < now + breaker_open_seconds b * 1000"
  shows "acquire_script later other cost limits ms q t' =
    (Denied BREAKER_OPEN (now + breaker_open_seconds b * 1000 - later), q, t')"
proof -
  let ?open = "breaker_open_seconds b * 1000" and ?window = "breaker_window_seconds b * 1000"
  let ?kept = "filter (\<lambda>z. now - ?window < snd z) (zmembers now (failure_set t))"
  have members: "zmembers now (zadd_expire now (now, lease) now (?window + ?open + 60000)
      (zremrangebyscore now (now - ?window) (failure_set t))) = AList.update (now, lease) now ?kept"
    using assms(3,4) by (simp add: zmembers_add zremrangebyscore_members)
  have "card (insert (now, lease) (fst ` set ?kept)) \<le> length (AList.update (now, lease) now ?kept)"
    using card_length [of "map fst (AList.update (now, lease) now ?kept)"] by (simp add: dom_update)
  with assms(2) have "breaker_failures b \<le> int (length (zmembers now (zadd_expire now (now, lease) now
      (?window + ?open + 60000) (zremrangebyscore now (now - ?window) (failure_set t)))))"
    unfolding members by simp
  then have "open_until t' = Some (now + ?open, now + (?open * 2 + 60000))"
    using assms(1) by (auto simp: finish_script_def Let_def split: if_splits)
  with assms(3-6) have "breaker_gate later other ms t' = Inl (now + ?open - later)"
    by (simp add: breaker_gate_def live_def)
  then show ?thesis by (simp add: acquire_script_def)
qed

section \<open>Rates\<close>

text \<open>A bucket that was last written now or earlier and may be in debt by no more than the script's tolerance.\<close>

definition bucket_ok :: "int \<Rightarrow> int \<Rightarrow> (rat \<times> int) key \<Rightarrow> bool" where
  "bucket_ok capacity now b \<longleftrightarrow> (\<forall>tokens written x. b = Some ((tokens, written), x) \<longrightarrow>
     x = written + 120000 \<and> written \<le> now \<and> - (1 / 10000000) \<le> tokens \<and> tokens \<le> of_int capacity)"

lemma bucket_level_le: "bucket_level now b capacity rate \<le> of_int capacity"
  by (auto simp: bucket_level_def split: option.split)

lemma bucket_level_ge:
  assumes "bucket_ok capacity now b" "0 < capacity" "0 < rate"
  shows "- (1 / 10000000) \<le> bucket_level now b capacity rate"
proof (cases "live now b")
  case None
  with assms(2) show ?thesis by (simp add: bucket_level_def order_trans [of _ 0])
next
  case (Some ta)
  then obtain tokens written x where b: "b = Some ((tokens, written), x)" "live now b = Some (tokens, written)"
    by (cases b; cases ta) (auto simp: live_def split: if_splits)
  have "0 \<le> (of_int (max (now - written) 0 * rate) :: rat) / 60000" using assms(3) by simp
  moreover have "- (1 / 10000000) \<le> tokens" using assms(1) b(1) by (auto simp: bucket_ok_def)
  ultimately have "- (1 / 10000000) \<le> tokens + of_int (max (now - written) 0 * rate) / 60000" by linarith
  moreover have "- (1 / 10000000) \<le> (of_int capacity :: rat)" using assms(2) by (simp add: order_trans [of _ 0])
  ultimately show ?thesis using b(2) by (simp add: bucket_level_def)
qed

text \<open>A bucket fills no faster than its rate, even when its key expires, since two minutes refill it.\<close>

lemma bucket_level_grows:
  assumes ok: "bucket_ok capacity now b" and time: "now \<le> later" and rate: "0 < rate" "capacity < 2 * rate"
  shows "bucket_level later b capacity rate \<le> bucket_level now b capacity rate + of_int ((later - now) * rate) / 60000"
proof -
  have gain: "0 \<le> (of_int ((later - now) * rate) :: rat) / 60000" using time rate(1) by simp
  show ?thesis
  proof (cases "live now b")
    case None
    with gain bucket_level_le [of later b capacity rate] show ?thesis by (simp add: bucket_level_def)
  next
    case (Some ta)
    then obtain tokens written x where b: "b = Some ((tokens, written), x)" "live now b = Some (tokens, written)"
      by (cases b; cases ta) (auto simp: live_def split: if_splits)
    with ok have facts: "x = written + 120000" "written \<le> now" "- (1 / 10000000) \<le> tokens"
      by (auto simp: bucket_ok_def)
    define e1 e2 where "e1 = (of_int ((now - written) * rate) :: rat) / 60000"
      and "e2 = (of_int ((later - now) * rate) :: rat) / 60000"
    have now_level: "bucket_level now b capacity rate = min (of_int capacity) (tokens + e1)"
      using b(2) facts(2) by (simp add: bucket_level_def e1_def)
    show ?thesis
    proof (cases "later \<le> x")
      case True
      have "(of_int ((later - written) * rate) :: rat) / 60000 = e1 + e2"
        by (simp add: e1_def e2_def field_simps)
      moreover have "bucket_level later b capacity rate =
          min (of_int capacity) (tokens + of_int ((later - written) * rate) / 60000)"
        using b(1) True facts(2) time by (simp add: bucket_level_def live_def)
      ultimately have "bucket_level later b capacity rate = min (of_int capacity) (tokens + (e1 + e2))"
        by (simp only:)
      with gain show ?thesis unfolding now_level e2_def [symmetric] by linarith
    next
      case False
      then have "120000 * rate \<le> (later - written) * rate" using facts(1) rate(1) by simp
      then have "(of_int (120000 * rate) :: rat) \<le> of_int ((later - written) * rate)" by (simp only: of_int_le_iff)
      then have "2 * of_int rate \<le> e1 + e2"
        by (simp add: e1_def e2_def field_simps)
      moreover have "(of_int capacity :: rat) + 1 \<le> 2 * of_int rate"
      proof -
        have "(of_int (capacity + 1) :: rat) \<le> of_int (2 * rate)" using rate(2) by (simp only: of_int_le_iff)
        then show ?thesis by simp
      qed
      ultimately have "of_int capacity \<le> tokens + e1 + e2" using facts(3) by linarith
      with gain bucket_level_le [of later b capacity rate] show ?thesis
        unfolding now_level e2_def [symmetric] by linarith
    qed
  qed
qed

text \<open>The amounts taken from a bucket since a given time, and the bound on them.\<close>

definition taken :: "int \<Rightarrow> (int \<times> int) list \<Rightarrow> int" where
  "taken since used = sum_list (map snd (filter (\<lambda>u. since \<le> fst u) used))"

definition metered :: "int \<Rightarrow> int \<Rightarrow> (rat \<times> int) key \<Rightarrow> int \<Rightarrow> (int \<times> int) list \<Rightarrow> bool" where
  "metered capacity rate b now used \<longleftrightarrow> bucket_ok capacity now b \<and> (\<forall>u \<in> set used. fst u \<le> now) \<and>
     (\<forall>since. since \<le> now \<longrightarrow> of_int (taken since used) + bucket_level now b capacity rate
        \<le> of_int capacity + of_int ((now - since) * rate) / 60000)"

lemma metered_later:
  assumes "metered capacity rate b now used" "now \<le> later" "0 < rate" "capacity < 2 * rate"
  shows "metered capacity rate b later used"
  unfolding metered_def
proof (intro conjI ballI allI impI)
  show "bucket_ok capacity later b" using assms by (auto simp: metered_def bucket_ok_def)
  show "fst u \<le> later" if "u \<in> set used" for u using assms that by (auto simp: metered_def)
  fix since assume "since \<le> later"
  have grow: "bucket_level later b capacity rate \<le> bucket_level now b capacity rate + of_int ((later - now) * rate) / 60000"
    using assms by (intro bucket_level_grows) (simp_all add: metered_def)
  show "of_int (taken since used) + bucket_level later b capacity rate
        \<le> of_int capacity + of_int ((later - since) * rate) / 60000"
  proof (cases "since \<le> now")
    case True
    with assms(1) have "of_int (taken since used) + bucket_level now b capacity rate
        \<le> of_int capacity + of_int ((now - since) * rate) / 60000" by (simp add: metered_def)
    moreover have "(of_int ((later - since) * rate) :: rat) / 60000 =
        of_int ((now - since) * rate) / 60000 + of_int ((later - now) * rate) / 60000" by (simp add: field_simps)
    ultimately show ?thesis using grow by linarith
  next
    case False
    then have "filter (\<lambda>u. since \<le> fst u) used = []"
      using assms(1) by (fastforce simp: metered_def filter_empty_conv)
    then have "taken since used = 0" by (simp add: taken_def)
    moreover have "0 \<le> (of_int ((later - since) * rate) :: rat) / 60000" using \<open>since \<le> later\<close> assms(3) by simp
    ultimately show ?thesis using bucket_level_le [of later b capacity rate] by simp
  qed
qed

lemma metered_take:
  assumes "metered capacity rate b now used" "refill_bucket now b capacity rate cost = Inr left" "0 \<le> cost"
  shows "metered capacity rate (Some ((left, now), now + 120000)) now ((now, cost) # used)"
proof -
  have left: "left = bucket_level now b capacity rate - of_int cost" "- (1 / 10000000) \<le> left"
    using assms(2) by (auto simp: refill_bucket_def Let_def split: if_splits)
  have "(0 :: rat) \<le> of_int cost" using assms(3) by simp
  then have "left \<le> of_int capacity"
    using left(1) bucket_level_le [of now b capacity rate] by linarith
  then have "bucket_level now (Some ((left, now), now + 120000)) capacity rate = left"
    by (simp add: bucket_level_def live_def)
  with assms left \<open>left \<le> of_int capacity\<close> show ?thesis
    by (auto simp: metered_def bucket_ok_def taken_def)
qed

lemma metered_new: "0 < rate \<Longrightarrow> metered capacity rate None now []"
  by (simp add: metered_def bucket_ok_def taken_def bucket_level_def live_def)

lemma metered_bound:
  assumes "metered capacity rate b now used" "0 < capacity" "0 < rate" "since \<le> now"
  shows "of_int (taken since used) \<le> of_int capacity + 1 / (10000000 :: rat) + of_int ((now - since) * rate) / 60000"
  using assms bucket_level_ge [of capacity now b rate] by (auto simp: metered_def dest: spec [of _ since])

definition tokens_used :: "pool \<Rightarrow> 'k system \<Rightarrow> (int \<times> int) list" where
  "tokens_used p s = map snd (filter (\<lambda>g. fst g = p) (grants s))"

definition requests_used :: "pool \<Rightarrow> 'k system \<Rightarrow> (int \<times> int) list" where
  "requests_used p s = map (\<lambda>g. (fst (snd g), 1)) (filter (\<lambda>g. fst g = p) (grants s))"

definition rates_sound :: "control_config \<Rightarrow> bool" where
  "rates_sound cfg \<longleftrightarrow> (\<forall>p. 0 < limit_rpm (pool_limits cfg p) \<and> 0 < limit_tpm (pool_limits cfg p) \<and>
     0 < limit_burst (pool_limits cfg p) \<and> limit_burst (pool_limits cfg p) < 2 * limit_rpm (pool_limits cfg p))"

definition meters_ok :: "control_config \<Rightarrow> 'k system \<Rightarrow> pool \<Rightarrow> bool" where
  "meters_ok cfg s p \<longleftrightarrow>
     metered (limit_tpm (pool_limits cfg p)) (limit_tpm (pool_limits cfg p)) (token_bucket (pool_state (shared s) p))
       (last_call s) (tokens_used p s) \<and>
     metered (limit_burst (pool_limits cfg p)) (limit_rpm (pool_limits cfg p)) (request_bucket (pool_state (shared s) p))
       (last_call s) (requests_used p s)"

lemma meters_ok_later:
  assumes "meters_ok cfg s q" "rates_sound cfg" "last_call s \<le> last_call s'"
    and "token_bucket (pool_state (shared s') q) = token_bucket (pool_state (shared s) q)"
    and "request_bucket (pool_state (shared s') q) = request_bucket (pool_state (shared s) q)"
    and "grants s' = grants s"
  shows "meters_ok cfg s' q"
  using assms by (auto simp: meters_ok_def rates_sound_def tokens_used_def requests_used_def intro: metered_later)

lemma meters_ok_acquire:
  assumes ok: "\<And>q. meters_ok cfg s q" and sound: "rates_sound cfg" and time: "last_call s \<le> now"
    and a: "acquire cfg now lease reachable p k est secs (shared s) = (res, st')"
  shows "meters_ok cfg (after_acquire now lease p est secs (res, st') s) q"
  using a
proof (cases rule: acquire_cases)
  case (refused e)
  with time show ?thesis by (intro meters_ok_later [OF ok sound]) (simp_all add: after_acquire_def)
next
  case (denied e tokens seconds d ms ps ts)
  have "token_bucket ps = token_bucket (pool_state (shared s) p)" "request_bucket ps = request_bucket (pool_state (shared s) p)"
    using acquire_script_denied(1) [OF denied(4)] by auto
  with time denied show ?thesis by (intro meters_ok_later [OF ok sound]) (simp_all add: after_acquire_def)
next
  case (granted tokens seconds half ps ts)
  let ?s' = "after_acquire now lease p est secs (res, st') s"
  have s': "grants ?s' = (p, now, tokens) # grants s" "last_call ?s' = now"
    "pool_state (shared ?s') = (pool_state (shared s))(p := ps)"
    using granted by (simp_all add: after_acquire_def token_estimate_def)
  show ?thesis
  proof (cases "q = p")
    case False
    have "meters_ok cfg (s\<lparr>last_call := now\<rparr>) q"
      using time by (intro meters_ok_later [OF ok sound]) simp_all
    with False s' show ?thesis by (simp add: meters_ok_def tokens_used_def requests_used_def)
  next
    case True
    from granted(5) obtain rl tl where g:
      "refill_bucket now (request_bucket (pool_state (shared s) p)) (limit_burst (pool_limits cfg p))
         (limit_rpm (pool_limits cfg p)) 1 = Inr rl"
      "refill_bucket now (token_bucket (pool_state (shared s) p)) (limit_tpm (pool_limits cfg p))
         (limit_tpm (pool_limits cfg p)) tokens = Inr tl"
      "request_bucket ps = Some ((rl, now), now + 120000)" "token_bucket ps = Some ((tl, now), now + 120000)"
      by (rule acquire_script_granted)
    have now: "meters_ok cfg (s\<lparr>last_call := now\<rparr>) p"
      using time by (intro meters_ok_later [OF ok sound]) simp_all
    from now metered_take [OF _ g(2)] granted(2)
    have "metered (limit_tpm (pool_limits cfg p)) (limit_tpm (pool_limits cfg p)) (token_bucket ps) now
        ((now, tokens) # tokens_used p s)"
      by (simp add: g(4) meters_ok_def tokens_used_def)
    moreover from now metered_take [OF _ g(1)]
    have "metered (limit_burst (pool_limits cfg p)) (limit_rpm (pool_limits cfg p)) (request_bucket ps) now
        ((now, 1) # requests_used p s)"
      by (simp add: g(3) meters_ok_def requests_used_def)
    ultimately show ?thesis
      using True s' by (simp add: meters_ok_def tokens_used_def requests_used_def)
  qed
qed

lemma meters_ok_finish:
  assumes "meters_ok cfg s q" "rates_sound cfg" "last_call s \<le> now" "\<not> permit_finished permit"
    and "finish cfg now reachable permit result (shared s) = (res, st')"
  shows "meters_ok cfg (after_finish now permit (res, st') s) q"
  using assms(5,4)
proof (cases rule: finish_cases)
  case (lost e)
  with assms(3) show ?thesis by (intro meters_ok_later [OF assms(1,2)]) (simp_all add: after_finish_def)
next
  case (ran ps ts permit')
  then have "token_bucket ps = token_bucket (pool_state (shared s) (permit_pool permit))"
    "request_bucket ps = request_bucket (pool_state (shared s) (permit_pool permit))"
    by (auto simp: finish_script_def Let_def split: if_splits)
  with ran assms(3) show ?thesis by (intro meters_ok_later [OF assms(1,2)]) (simp_all add: after_finish_def)
qed

lemma run_meters_ok:
  assumes "runtime_run cfg M s" "rates_sound cfg"
  shows "\<forall>p. meters_ok cfg s p"
  using assms(1)
proof induction
  case (run_start now)
  with assms(2) show ?case
    by (simp add: meters_ok_def metered_new tokens_used_def requests_used_def initial_system_def no_keys_def
        rates_sound_def)
next
  case (run_acquire s now lease secs p est reachable k)
  obtain res st' where a: "acquire cfg now lease reachable p k est secs (shared s) = (res, st')" by fastforce
  show ?case unfolding a using meters_ok_acquire [OF _ assms(2) run_acquire.hyps(2) a] run_acquire.IH by blast
next
  case (run_finish s now permit e reachable result)
  then have fresh: "\<not> permit_finished permit" using run_held_ok [of cfg M s] by (force simp: held_ok_def)
  obtain res st' where f: "finish cfg now reachable permit result (shared s) = (res, st')" by fastforce
  show ?case unfolding f using meters_ok_finish [OF _ assms(2) run_finish.hyps(2) fresh f] run_finish.IH by blast
qed

text \<open>C28. A pool's rates hold across all processes. In every history, whatever leases it uses, the tokens of
  the calls granted to a pool from any time on are at most one minute's budget and what the rate adds
  while that time passes, and its requests at most the burst and what their rate adds, both within the
  script's tolerance. The limits must be positive and the burst below two minutes of requests, the time
  after which Redis drops an unused bucket.\<close>

theorem rates_hold:
  assumes "runtime_run cfg M s" "rates_sound cfg" "since \<le> last_call s" "limits = pool_limits cfg p"
  shows "of_int (taken since (tokens_used p s)) \<le>
      of_int (limit_tpm limits) + 1 / (10000000 :: rat) + of_int ((last_call s - since) * limit_tpm limits) / 60000 \<and>
    of_int (taken since (requests_used p s)) \<le>
      of_int (limit_burst limits) + 1 / (10000000 :: rat) + of_int ((last_call s - since) * limit_rpm limits) / 60000"
proof -
  have m: "meters_ok cfg s p" using run_meters_ok [OF assms(1,2)] by blast
  have pos: "0 < limit_tpm limits" "0 < limit_rpm limits" "0 < limit_burst limits"
    using assms(2) by (simp_all add: rates_sound_def assms(4))
  show ?thesis
    using m metered_bound [OF _ pos(1,1) assms(3)] metered_bound [OF _ pos(3,2) assms(3)]
    unfolding meters_ok_def assms(4) by blast
qed

section \<open>Examples\<close>

text \<open>Two calls at a time, twelve requests and a thousand tokens a minute, and a breaker that the first failure
  opens for thirty seconds.\<close>

definition example_config :: control_config where
  "example_config = \<lparr>pool_limits = (\<lambda>_. \<lparr>limit_concurrency = 2, limit_rpm = 12, limit_tpm = 1000, limit_burst = 4\<rparr>),
     breaker = \<lparr>breaker_failures = 1, breaker_window_seconds = 60, breaker_open_seconds = 30\<rparr>\<rparr>"

definition example_permit :: "bool \<Rightarrow> uuid \<Rightarrow> unit permit" where
  "example_permit half lease = \<lparr>permit_half_open = half, permit_pool = RAG, permit_target = (),
     permit_lease = lease, permit_finished = False\<rparr>"

definition call :: "int \<Rightarrow> uuid \<Rightarrow> rat \<Rightarrow> unit system \<Rightarrow> unit system" where
  "call now lease secs s = after_acquire now lease RAG (PyInt 100) (Some secs)
     (acquire example_config now lease True RAG () (PyInt 100) (Some secs) (shared s)) s"

definition failed :: "int \<Rightarrow> uuid \<Rightarrow> unit system \<Rightarrow> unit system" where
  "failed now lease s = after_finish now (example_permit False lease)
     (finish example_config now True (example_permit False lease) TransientFailure (shared s)) s"

lemma call_run:
  assumes "runtime_run example_config M s" "last_call s \<le> now" "lease \<notin> drawn s" "lease_milliseconds secs \<le> M"
  shows "runtime_run example_config M (call now lease secs s)"
  unfolding call_def using assms by (intro run_acquire) auto

lemma call_drawn: "drawn (call now lease secs s) = insert lease (drawn s)" "last_call (call now lease secs s) = now"
  by (simp_all add: call_def after_acquire_def Let_def split: sum.split)

lemmas example_defs = call_def failed_def example_config_def example_permit_def after_acquire_def after_finish_def
  acquire_def finish_def acquire_script_def finish_script_def breaker_gate_def refill_bucket_def bucket_level_def
  zmembers_def zremrangebyscore_def zrem_def zadd_expire_def live_def read_reply_granted
  initial_system_def no_keys_def lease_milliseconds_def token_estimate_def Let_def

lemma granted_reply [simp]: "read_reply (reply_value (Granted half)) = Inr half"
  by (simp add: read_reply_granted)

definition two_calls :: "unit system" where
  "two_calls = call 10 2 30 (call 0 1 30 (initial_system 0))"

lemma two_calls_run: "runtime_run example_config 120000 two_calls"
  unfolding two_calls_def
  by (intro call_run run_start)
    (simp_all add: call_drawn lease_milliseconds_def initial_system_def)

lemma two_calls_state: "held two_calls = [(example_permit False 2, 30010), (example_permit False 1, 30000)]"
   "grants two_calls = [(RAG, 10, 100), (RAG, 0, 100)]" "last_call two_calls = 10"
  by (simp_all add: two_calls_def example_defs)

theorem concurrency_limit_holds_witness:
  "length (held two_calls) = 2 \<and> int (length (filter (\<lambda>h. permit_pool (fst h) = RAG \<and> 10 < snd h) (held two_calls))) \<le> 2"
  using concurrency_limit_holds [OF two_calls_run, of 10 RAG]
  by (simp add: two_calls_state example_config_def)

definition probing :: "unit system" where
  "probing = call 31000 2 30 (failed 10 1 (call 0 1 30 (initial_system 0)))"

lemma probing_run: "runtime_run example_config 120000 probing"
  unfolding probing_def failed_def
proof (intro call_run run_finish [where e = 30000] run_start)
  show "(example_permit False 1, 30000) \<in> set (held (call 0 1 30 (initial_system 0)))"
    by (simp add: example_defs)
qed (simp_all add: example_defs)

lemma probing_state: "held probing = [(example_permit True 2, 61000)]" "last_call probing = 31000"
  by (simp_all add: probing_def example_defs)

theorem single_half_open_probe_witness:
  "\<exists>g \<in> set (held probing). permit_half_open (fst g) \<and> (\<forall>h \<in> set (held probing). g = h)"
  using single_half_open_probe [OF probing_run, of "(example_permit True 2, 61000)" "(example_permit True 2, 61000)"]
  by (simp add: probing_state) (simp add: example_config_def example_permit_def)

theorem rates_hold_witness:
  "rat_of_int (taken 0 (tokens_used RAG two_calls)) \<le> 1000 + 1 / 10000000 + 10000 / 60000"
proof -
  have "rates_sound example_config" by (simp add: rates_sound_def example_config_def)
  from rates_hold [OF two_calls_run this _ refl, of 0 RAG] show ?thesis
    by (simp add: two_calls_state(3)) (simp add: example_config_def)
qed

theorem breaker_opens_witness:
  "fst (acquire_script 20 2 100 (pool_limits example_config RAG) 30000 (pool_state (shared two_calls) RAG)
     (snd (finish_script 10 1 TransientFailure (breaker example_config) (pool_state (shared two_calls) RAG)
        \<lparr>failure_set = None, open_until = None, half_open = None\<rparr>))) = Denied BREAKER_OPEN 29990"
  using breaker_opens [OF prod.collapse [symmetric], where now = 10 and lease = 1 and b = "breaker example_config"
      and t = "\<lparr>failure_set = None, open_until = None, half_open = None\<rparr>" and p = "pool_state (shared two_calls) RAG" and later = 20 and other = 2
      and cost = 100 and limits = "pool_limits example_config RAG" and ms = 30000 and q = "pool_state (shared two_calls) RAG"]
  by (simp add: example_config_def zmembers_def live_def)

text \<open>A lease longer than two minutes is forgotten when a short one follows it: the short one cuts the life
  of the whole lease set to two minutes, and the pool then runs more calls than its limit.\<close>

definition forgetting :: "unit system" where
  "forgetting = call 130000 4 30 (call 130000 3 30 (call 1 2 1 (call 0 1 600 (initial_system 0))))"

lemma short_lease_forgets_long_lease:
  "runtime_run example_config 600000 forgetting"
  "length (filter (\<lambda>h. permit_pool (fst h) = RAG \<and> last_call forgetting < snd h) (held forgetting)) = 3"
  "limit_concurrency (pool_limits example_config RAG) = 2"
proof -
  show "runtime_run example_config 600000 forgetting"
    unfolding forgetting_def
    by (intro call_run run_start)
      (simp_all add: call_drawn lease_milliseconds_def initial_system_def)
  have "held forgetting = [(example_permit False 4, 160000), (example_permit False 3, 160000),
      (example_permit False 2, 1001), (example_permit False 1, 600000)]"
    by (simp add: forgetting_def example_defs)
  then show "length (filter (\<lambda>h. permit_pool (fst h) = RAG \<and> last_call forgetting < snd h) (held forgetting)) = 3"
    by (simp add: forgetting_def call_drawn) (simp add: example_permit_def)
qed (simp add: example_config_def)

end
