(* ===== verification/CanonicalText.thy ===== *)
theory CanonicalText
  imports PyDecimal
begin

text \<open>
  The printed forms of identifiers, dates and decimals, and readers that accept exactly these forms. A
  \<open>canonical_text\<close> is a printer with such a reader: it is interpreted for each of them, and the modules
  that take identifiers or dates as text rest on its lemmas.
\<close>

section \<open>Canonical text\<close>

locale canonical_text =
  fixes render :: "'a \<Rightarrow> pystr" and reader :: "pystr \<Rightarrow> 'a option" and valid :: "'a \<Rightarrow> bool"
  assumes read_render: "valid x \<Longrightarrow> reader (render x) = Some x"
    and render_read: "reader s = Some x \<Longrightarrow> valid x \<and> render x = s"
begin

lemma read_iff: "reader s = Some x \<longleftrightarrow> valid x \<and> render x = s"
  using read_render render_read by blast

lemma render_inj: "valid x \<Longrightarrow> valid y \<Longrightarrow> render x = render y \<Longrightarrow> x = y"
  using read_render by (metis option.inject)

lemma refused_iff: "reader s = None \<longleftrightarrow> (\<forall>x. valid x \<longrightarrow> render x \<noteq> s)"
  using read_iff by (metis option.exhaust option.distinct(1))

end

definition positional :: "nat \<Rightarrow> (nat \<Rightarrow> nat) \<Rightarrow> pystr \<Rightarrow> nat" where
  "positional base digit s = foldl (\<lambda>n c. base * n + digit c) 0 s"

lemma positional_snoc: "positional base digit (s @ [c]) = base * positional base digit s + digit c"
  by (simp add: positional_def)

definition is_decimal_digit :: "nat \<Rightarrow> bool" where
  "is_decimal_digit c \<longleftrightarrow> 48 \<le> c \<and> c \<le> 57"

definition read_digits :: "pystr \<Rightarrow> nat" where
  "read_digits s = positional 10 (\<lambda>c. c - 48) s"

lemma read_dec_digits [simp]: "read_digits (dec_digits n) = n"
proof (induction n rule: dec_digits.induct)
  case (1 n)
  then show ?case
    by (cases "n < 10") (simp_all add: dec_digits.simps [of n] read_digits_def positional_snoc,
        simp add: positional_def)
qed

lemma read_zfill [simp]: "read_digits (zfill w s) = read_digits s"
proof -
  have "foldl (\<lambda>n c. 10 * n + (c - 48)) 0 (replicate k 48) = (0 :: nat)" for k
    by (induction k) simp_all
  then show ?thesis by (simp add: read_digits_def positional_def zfill_def)
qed

lemma dec_digits_all: "list_all is_decimal_digit (dec_digits n)"
  by (auto simp: list_all_iff is_decimal_digit_def dest: dec_digits_range)

lemma zfill_all: "list_all is_decimal_digit s \<Longrightarrow> list_all is_decimal_digit (zfill w s)"
  by (auto simp: zfill_def list_all_iff is_decimal_digit_def)

lemma dec_digits_length: "n < 10 ^ k \<Longrightarrow> 0 < k \<Longrightarrow> length (dec_digits n) \<le> k"
proof (induction n arbitrary: k rule: dec_digits.induct)
  case (1 n)
  show ?case
  proof (cases "n < 10")
    case True
    with 1(3) show ?thesis by (simp add: dec_digits.simps [of n])
  next
    case False
    then obtain j where k: "k = Suc j" "0 < j" using 1(2,3) by (cases k; cases "k = 1") auto
    with 1(2) have "n div 10 < 10 ^ j" by (simp add: less_mult_imp_div_less mult.commute)
    with 1(1) False k show ?thesis by (simp add: dec_digits.simps [of n])
  qed
qed

lemma decimal_digits_only: "list_all is_decimal_digit s \<Longrightarrow> c \<in> set s \<Longrightarrow> c \<noteq> 46 \<and> c \<noteq> 45"
  by (force simp: list_all_iff is_decimal_digit_def)

lemma zfill_length [simp]: "length (zfill w s) = max w (length s)"
  by (simp add: zfill_def)

subsection \<open>Identifiers\<close>

definition hex_char :: "nat \<Rightarrow> nat" where
  "hex_char d = (if d < 10 then 48 + d else 87 + d)"

definition hex_digit :: "nat \<Rightarrow> nat" where
  "hex_digit c = (if c < 58 then c - 48 else c - 87)"

definition is_lower_hex :: "nat \<Rightarrow> bool" where
  "is_lower_hex c \<longleftrightarrow> (48 \<le> c \<and> c \<le> 57) \<or> (97 \<le> c \<and> c \<le> 102)"

fun hex_fixed :: "nat \<Rightarrow> nat \<Rightarrow> pystr" where
  "hex_fixed 0 n = []"
| "hex_fixed (Suc w) n = hex_fixed w (n div 16) @ [hex_char (n mod 16)]"

lemma hex_fixed_length [simp]: "length (hex_fixed w n) = w"
  by (induction w arbitrary: n) simp_all

lemma hex_fixed_lower: "list_all is_lower_hex (hex_fixed w n)"
  by (induction w arbitrary: n) (auto simp: is_lower_hex_def hex_char_def)

lemma hex_fixed_value: "positional 16 hex_digit (hex_fixed w n) = n mod 16 ^ w"
proof (induction w arbitrary: n)
  case 0
  then show ?case by (simp add: positional_def)
next
  case (Suc w)
  have "hex_digit (hex_char (n mod 16)) = n mod 16"
    using mod_less_divisor [of 16 n] by (auto simp: hex_digit_def hex_char_def)
  then show ?case
    by (simp add: positional_snoc Suc.IH mod_mult2_eq)
qed

text \<open>\<open>str\<close> of a UUID and the reader of this form.\<close>

definition uuid_str :: "uuid \<Rightarrow> pystr" where
  "uuid_str u = (let h = hex_fixed 32 (unat u) in
     take 8 h @ [45] @ take 4 (drop 8 h) @ [45] @ take 4 (drop 12 h) @ [45] @ take 4 (drop 16 h) @ [45] @ drop 20 h)"

definition read_uuid :: "pystr \<Rightarrow> uuid option" where
  "read_uuid s = (let h = filter (\<lambda>c. c \<noteq> 45) s; u = of_nat (positional 16 hex_digit h) in
     if length h = 32 \<and> list_all is_lower_hex h \<and> uuid_str u = s then Some u else None)"

lemma hex_groups:
  "take 8 h @ take 4 (drop 8 h) @ take 4 (drop 12 h) @ take 4 (drop 16 h) @ drop 20 h = h"
proof -
  have part: "take k (drop n h) @ drop (k + n) h = drop n h" for k n
    by (metis append_take_drop_id drop_drop)
  show ?thesis
    using part [of 4 8] part [of 4 12] part [of 4 16] append_take_drop_id [of 8 h] by simp
qed

lemma uuid_str_hex: "filter (\<lambda>c. c \<noteq> 45) (uuid_str u) = hex_fixed 32 (unat u)"
proof -
  let ?h = "hex_fixed 32 (unat u)"
  have keep: "filter (\<lambda>c. c \<noteq> 45) xs = xs" if "set xs \<subseteq> set ?h" for xs
  proof -
    have "45 \<notin> set ?h" using hex_fixed_lower [of 32 "unat u"] by (auto simp: list_all_iff is_lower_hex_def)
    then show ?thesis using that by (auto simp: filter_id_conv)
  qed
  have "filter (\<lambda>c. c \<noteq> 45) (uuid_str u) =
      take 8 ?h @ take 4 (drop 8 ?h) @ take 4 (drop 12 ?h) @ take 4 (drop 16 ?h) @ drop 20 ?h"
    by (simp only: uuid_str_def Let_def filter_append)
      (simp add: keep set_take_subset set_drop_subset order_trans [OF set_take_subset set_drop_subset])
  then show ?thesis by (simp only: hex_groups)
qed

lemma read_uuid_str: "read_uuid (uuid_str u) = Some u"
proof -
  have "unat u < 16 ^ 32" using unsigned_less [of u, where ?'a = nat] by simp
  then have "positional 16 hex_digit (hex_fixed 32 (unat u)) = unat u"
    by (simp only: hex_fixed_value mod_less)
  then have "(of_nat (positional 16 hex_digit (hex_fixed 32 (unat u))) :: uuid) = u"
    by simp
  then show ?thesis
    by (simp only: read_uuid_def Let_def uuid_str_hex hex_fixed_length hex_fixed_lower simp_thms if_True)
qed

interpretation uuid_text: canonical_text uuid_str read_uuid "\<lambda>_. True"
  by unfold_locales (auto simp: read_uuid_str, auto simp: read_uuid_def Let_def split: if_splits)

subsection \<open>Dates\<close>

definition days_in_month :: "nat \<Rightarrow> nat \<Rightarrow> nat" where
  "days_in_month y m =
     (if m = 2 then (if 4 dvd y \<and> (\<not> 100 dvd y \<or> 400 dvd y) then 29 else 28)
      else if m \<in> {4, 6, 9, 11} then 30 else 31)"

definition calendar_date :: "date \<Rightarrow> bool" where
  "calendar_date dt = (case dt of Date y m d \<Rightarrow>
     1 \<le> y \<and> y \<le> 9999 \<and> 1 \<le> m \<and> m \<le> 12 \<and> 1 \<le> d \<and> d \<le> days_in_month y m)"

definition read_date :: "pystr \<Rightarrow> date option" where
  "read_date s = (let dt = Date (read_digits (take 4 s)) (read_digits (take 2 (drop 5 s))) (read_digits (drop 8 s)) in
     if length s = 10 \<and> list_all is_decimal_digit (take 4 s @ take 2 (drop 5 s) @ drop 8 s)
        \<and> calendar_date dt \<and> isoformat dt = s
     then Some dt else None)"

lemma read_isoformat:
  assumes "calendar_date dt"
  shows "read_date (isoformat dt) = Some dt"
proof -
  obtain y m d where dt: "dt = Date y m d" by (cases dt)
  let ?y = "zfill 4 (dec_digits y)" and ?m = "zfill 2 (dec_digits m)" and ?d = "zfill 2 (dec_digits d)"
  have "d \<le> 31" using assms by (auto simp: dt calendar_date_def days_in_month_def split: if_splits)
  then have "length (dec_digits y) \<le> 4" "length (dec_digits m) \<le> 2" "length (dec_digits d) \<le> 2"
    using assms by (auto simp: dt calendar_date_def intro!: dec_digits_length)
  then have len: "length ?y = 4" "length ?m = 2" "length ?d = 2" by simp_all
  have printed: "isoformat dt = ?y @ 45 # ?m @ 45 # ?d" by (simp add: dt isoformat_def lit_def)
  have parts: "take 4 (isoformat dt) = ?y" "take 2 (drop 5 (isoformat dt)) = ?m"
    "drop 8 (isoformat dt) = ?d" "length (isoformat dt) = 10"
    using len by (simp_all add: printed)
  have "list_all is_decimal_digit (?y @ ?m @ ?d)"
    using dec_digits_all zfill_all by simp
  then show ?thesis
    using assms unfolding read_date_def Let_def parts by (simp add: dt)
qed

interpretation date_text: canonical_text isoformat read_date calendar_date
  by unfold_locales (auto simp: read_isoformat, auto simp: read_date_def Let_def split: if_splits)

subsection \<open>Decimals\<close>

text \<open>\<open>format(d, "f")\<close> of a finite decimal.\<close>

definition format_f :: "decimal \<Rightarrow> pystr" where
  "format_f d = (case d of
     Finite s c e \<Rightarrow> (if s then [45] else []) @
       (if 0 < e then (if c = 0 then [48] else dec_digits c @ replicate (nat e) 48)
        else (let k = nat (- e); ds = zfill (Suc k) (dec_digits c) in
          take (length ds - k) ds @ (if k = 0 then [] else 46 # drop (length ds - k) ds)))
   | _ \<Rightarrow> [])"

text \<open>The reader of plain decimal numerals.\<close>

definition plain_parts :: "pystr \<Rightarrow> bool \<times> pystr \<times> pystr" where
  "plain_parts s = (let negative = (take 1 s = [45]); body = (if negative then drop 1 s else s);
       whole = takeWhile (\<lambda>c. c \<noteq> 46) body in (negative, whole, drop (Suc (length whole)) body))"

definition read_decimal :: "pystr \<Rightarrow> decimal option" where
  "read_decimal s = (case plain_parts s of (negative, whole, fraction) \<Rightarrow>
     (let d = Finite negative (read_digits (whole @ fraction)) (- int (length fraction)) in
      if list_all is_decimal_digit (whole @ fraction) \<and> whole \<noteq> [] \<and> format_f d = s then Some d else None))"

definition plain_decimal :: "decimal \<Rightarrow> bool" where
  "plain_decimal d = (case d of Finite s c e \<Rightarrow> e \<le> 0 | _ \<Rightarrow> False)"

lemma read_format_f:
  assumes "plain_decimal d"
  shows "read_decimal (format_f d) = Some d"
proof -
  obtain s c e where d: "d = Finite s c e" "e \<le> 0" using assms by (auto simp: plain_decimal_def split: decimal.splits)
  define k where "k = nat (- e)"
  define ds where "ds = zfill (Suc k) (dec_digits c)"
  define whole fraction where "whole = take (length ds - k) ds" and "fraction = drop (length ds - k) ds"
  have len: "k < length ds" by (simp add: ds_def)
  then have whole: "whole \<noteq> []" and fraction: "length fraction = k"
    by (auto simp: whole_def fraction_def)
  have join: "whole @ fraction = ds" by (simp add: whole_def fraction_def)
  have digits: "list_all is_decimal_digit ds" by (simp add: ds_def zfill_all dec_digits_all)
  then have "list_all is_decimal_digit (whole @ fraction)" by (simp only: join)
  then have no_dot: "\<forall>x \<in> set whole. x \<noteq> 46 \<and> x \<noteq> 45"
    by (auto dest: decimal_digits_only)
  let ?body = "whole @ (if k = 0 then [] else 46 # fraction)"
  have printed: "format_f d = (if s then [45] else []) @ ?body"
    using d by (simp add: format_f_def k_def ds_def whole_def fraction_def Let_def)
  obtain x xs where x: "whole = x # xs" "x \<noteq> 45" using whole no_dot by (cases whole) auto
  then have sign: "(take 1 (format_f d) = [45]) = s"
    "(if take 1 (format_f d) = [45] then drop 1 (format_f d) else format_f d) = ?body"
    by (simp_all add: printed)
  have parts: "takeWhile (\<lambda>c. c \<noteq> 46) ?body = whole" "drop (Suc (length whole)) ?body = fraction"
    using no_dot fraction by (auto simp: takeWhile_append2)
  have same: "Finite s (read_digits ds) (- int k) = d"
    using d by (simp add: ds_def k_def)
  have "plain_parts (format_f d) = (s, whole, fraction)"
    unfolding plain_parts_def Let_def sign(2) parts by (simp only: sign(1))
  then show ?thesis
    using digits whole by (simp add: read_decimal_def join [symmetric] same [folded join] fraction del: append_Nil2)
qed

lemma read_decimal_plain:
  assumes "read_decimal s = Some d"
  shows "plain_decimal d \<and> format_f d = s"
proof -
  have printed: "format_f d = s"
    using assms by (auto simp: read_decimal_def Let_def split: prod.splits if_splits)
  obtain n c k where "d = Finite n c (- int k)"
    using assms by (auto simp: read_decimal_def Let_def split: prod.splits if_splits)
  then show ?thesis using printed by (simp add: plain_decimal_def)
qed

interpretation decimal_text: canonical_text format_f read_decimal plain_decimal
  by unfold_locales (simp_all add: read_format_f read_decimal_plain)

end
