(* ===== verification/AuditSnapshot.thy ===== *)
theory AuditSnapshot
  imports OfflinePreview CanonicalText
begin

text \<open>
  \<open>app/audit/snapshot.py\<close>: the strict boundary of an execution's snapshot and the aggregation of the
  previews of its invoices. Pydantic's typing of the fields is the typing of the records; a refused
  snapshot is a \<open>ValueError\<close> with the first message. The texts of identifiers, dates and decimals are
  accepted only in the form in which Python prints them, so the readers below need to know only that form:
  whatever else \<open>UUID\<close>, \<open>date.fromisoformat\<close> and \<open>Decimal\<close> would read is refused afterwards.
\<close>

section \<open>Canonical text\<close>

text \<open>\<open>_parse_uuid\<close>, \<open>_parse_date\<close> and \<open>_parse_decimal\<close>.\<close>

definition parse_uuid :: "pyval \<Rightarrow> pyval result" where
  "parse_uuid v = (case v of
     PyUuid u \<Rightarrow> Inr v
   | PyStr s \<Rightarrow> (case read_uuid s of Some u \<Rightarrow> Inr (PyUuid u)
       | None \<Rightarrow> Inl (ValueError ''identifier must be a canonical UUID''))
   | _ \<Rightarrow> Inl (ValueError ''identifier must be a canonical UUID''))"

definition parse_date :: "pyval \<Rightarrow> pyval result" where
  "parse_date v = (case v of
     PyDate d \<Rightarrow> Inr v
   | PyStr s \<Rightarrow> (case read_date s of Some d \<Rightarrow> Inr (PyDate d)
       | None \<Rightarrow> Inl (ValueError ''date must use YYYY-MM-DD''))
   | _ \<Rightarrow> Inl (ValueError ''date must use YYYY-MM-DD''))"

definition parse_decimal :: "pyval \<Rightarrow> pyval result" where
  "parse_decimal v = (case v of
     PyNone \<Rightarrow> Inr v
   | PyDecimal d \<Rightarrow> Inr v
   | PyStr s \<Rightarrow> (case read_decimal s of Some d \<Rightarrow> Inr (PyDecimal d)
       | None \<Rightarrow> Inl (ValueError ''decimal must use a finite canonical string''))
   | _ \<Rightarrow> Inl (ValueError ''decimal must use a finite canonical string''))"

text \<open>\<open>str\<close>, which the JSON document of a snapshot uses, prints a decimal as \<open>format\<close> does unless it needs
  an exponent.\<close>

definition needs_no_exponent :: "decimal \<Rightarrow> bool" where
  "needs_no_exponent d = (case d of
     Finite s c e \<Rightarrow> e \<le> 0 \<and> - 6 < e + int (num_digits c) | _ \<Rightarrow> False)"

lemma dec_str_format:
  assumes "needs_no_exponent d"
  shows "dec_str d = format_f d"
proof -
  obtain s c e where d: "d = Finite s c e" "e \<le> 0" "- 6 < e + int (length (dec_digits c))"
    using assms by (auto simp: needs_no_exponent_def num_digits_def split: decimal.splits)
  let ?n = "length (dec_digits c)"
  consider (low) "e + int ?n \<le> 0" | (whole) "e = 0" | (mixed) "0 < e + int ?n" "e < 0" using d by linarith
  then show ?thesis
  proof cases
    case low
    define z where "z = nat (- (e + int ?n))"
    with low have "e = - int (z + ?n)" by simp
    moreover have "nat (int (z + ?n)) = z + ?n" "nat (int ?n + int z) = z + ?n" "0 < int ?n + int z"
      by (simp_all add: nat_add_distrib add_pos_nonneg)
    moreover have "0 < ?n" by simp
    ultimately show ?thesis
      using d by (simp add: dec_str_def format_f_def Let_def zfill_def lit_def)
  next
    case whole
    have "Suc 0 \<le> ?n" by (cases "dec_digits c") auto
    with whole d show ?thesis by (simp add: dec_str_def format_f_def Let_def zfill_def lit_def)
  next
    case mixed
    then have "Suc (nat (- e)) - ?n = 0" "nat (e + int ?n) = ?n - nat (- e)" by linarith+
    with mixed d show ?thesis
      by (simp add: dec_str_def format_f_def Let_def zfill_def lit_def)
  qed
qed

lemma dec_str_exponent:
  assumes "is_finite d" "\<not> needs_no_exponent d"
  shows "69 \<in> set (dec_str d)"
proof -
  obtain s c e where d: "d = Finite s c e" using assms(1) by (rule is_finite_cases)
  with assms(2) have "\<not> (e \<le> 0 \<and> - 6 < e + int (length (dec_digits c)))"
    by (simp add: needs_no_exponent_def num_digits_def)
  moreover have "\<not> (0 < e \<and> e + int (length (dec_digits c)) = 1)" by (cases "dec_digits c") auto
  ultimately show ?thesis
    using d by (auto simp: dec_str_def Let_def lit_def)
qed

section \<open>Snapshots\<close>

record snapshot_invoice =
  si_invoice_id :: uuid
  si_critical_fact_hash :: pystr
  si_invoice_code :: "pystr option"
  si_invoice_number :: "pystr option"
  si_invoice_type :: "pystr option"
  si_invoice_date :: "date option"
  si_buyer_name :: "pystr option"
  si_buyer_tax_no :: "pystr option"
  si_seller_name :: "pystr option"
  si_seller_tax_no :: "pystr option"
  si_amount_excluding_tax :: "decimal option"
  si_tax_amount :: "decimal option"
  si_total_amount :: "decimal option"
  si_line_net_amount :: "decimal option"
  si_currency :: pystr
  si_duplicate_status :: pystr
  si_has_existing_exact_invoice_identity :: "bool option"
  si_is_red_invoice :: "bool option"
  si_included_in_cumulative_total :: bool
  si_cumulative_exclusion_reason :: "pystr option"
  si_row_version :: int

definition lower_hex_sha256 :: "pystr \<Rightarrow> bool" where
  "lower_hex_sha256 s \<longleftrightarrow> length s = 64 \<and> list_all is_lower_hex s"

text \<open>A Pydantic decimal is finite.\<close>

definition finite_amounts :: "decimal option list \<Rightarrow> bool" where
  "finite_amounts ds = list_all (case_option True is_finite) ds"

definition new_snapshot_invoice :: "snapshot_invoice \<Rightarrow> snapshot_invoice result" where
  "new_snapshot_invoice i = after_checks
     [check (lower_hex_sha256 (si_critical_fact_hash i)) ''critical_fact_hash'',
      check (finite_amounts [si_amount_excluding_tax i, si_tax_amount i, si_total_amount i, si_line_net_amount i])
        ''decimal must be finite'',
      check (1 \<le> si_row_version i) ''row_version'',
      check (si_included_in_cumulative_total i \<noteq> (si_cumulative_exclusion_reason i \<noteq> None))
        ''cumulative inclusion and exclusion reason are inconsistent'']
     (Inr i)"

record audit_snapshot =
  sn_organization_id :: uuid
  sn_task_id :: uuid
  sn_execution_id :: uuid
  sn_baseline_date :: date
  sn_organization_tax_number :: pystr
  sn_contract_id :: "uuid option"
  sn_contract_critical_fact_hash :: "pystr option"
  sn_contract_no :: "pystr option"
  sn_contract_party_a_name :: "pystr option"
  sn_contract_party_a_tax_no :: "pystr option"
  sn_contract_party_b_name :: "pystr option"
  sn_contract_party_b_tax_no :: "pystr option"
  sn_effective_contract_amount :: "decimal option"
  sn_contract_currency :: "pystr option"
  sn_contract_effective_date :: "date option"
  sn_contract_expiry_date :: "date option"
  sn_contract_subjects_present :: bool
  sn_has_effective_unconfirmed_supplementary_agreement :: bool
  sn_cumulative_invoice_total :: "decimal option"
  sn_requires_policy_citation :: bool
  sn_retrieval_completed_successfully :: bool
  sn_has_applicable_policy_citation :: bool
  sn_invoices :: "snapshot_invoice list"

definition has_contract_facts :: "audit_snapshot \<Rightarrow> bool" where
  "has_contract_facts s \<longleftrightarrow>
     list_ex (\<lambda>v. v \<noteq> None)
       [sn_contract_critical_fact_hash s, sn_contract_no s, sn_contract_party_a_name s, sn_contract_party_a_tax_no s,
        sn_contract_party_b_name s, sn_contract_party_b_tax_no s, sn_contract_currency s]
     \<or> sn_effective_contract_amount s \<noteq> None \<or> sn_contract_effective_date s \<noteq> None
     \<or> sn_contract_expiry_date s \<noteq> None"

definition included_totals :: "audit_snapshot \<Rightarrow> decimal option list" where
  "included_totals s = map si_total_amount (filter si_included_in_cumulative_total (sn_invoices s))"

text \<open>The fields with their constraints, then \<open>validate_parent_and_contract_matrix\<close>; an overflow of the
  sum escapes.\<close>

definition new_audit_snapshot :: "audit_snapshot \<Rightarrow> audit_snapshot result" where
  "new_audit_snapshot s = bind_result (map_result new_snapshot_invoice (sn_invoices s)) (\<lambda>_. after_checks
     [check (1 \<le> length (sn_organization_tax_number s) \<and> length (sn_organization_tax_number s) \<le> 32)
        ''organization_tax_number'',
      check (case_option True lower_hex_sha256 (sn_contract_critical_fact_hash s)) ''contract_critical_fact_hash'',
      check (finite_amounts [sn_effective_contract_amount s, sn_cumulative_invoice_total s])
        ''decimal must be finite'',
      check (1 \<le> length (sn_invoices s) \<and> length (sn_invoices s) \<le> 100) ''invoices'',
      check (canonical_ids (map si_invoice_id (sn_invoices s)) = map si_invoice_id (sn_invoices s))
        ''snapshot invoices must be sorted and unique'',
      check (\<not> (sn_contract_id s = None \<and> has_contract_facts s)) ''no-contract snapshot contains contract facts'',
      check (\<not> (sn_contract_id s \<noteq> None \<and> sn_contract_critical_fact_hash s = None))
        ''contract snapshot requires a critical fact hash'',
      check (\<not> (\<not> sn_retrieval_completed_successfully s \<and> sn_has_applicable_policy_citation s))
        ''failed retrieval cannot contain an applicable citation'',
      check (None \<notin> set (included_totals s)) ''included invoice total is missing'']
     (bind_result (dec_sum (Finite False 0 0) (map the (included_totals s))) (\<lambda>expected_total.
        (case sn_cumulative_invoice_total s of
           Some t \<Rightarrow> if dec_eq t expected_total then Inr s
             else Inl (ValueError ''cumulative invoice total does not match included invoices'')
         | None \<Rightarrow> Inl (ValueError ''cumulative invoice total does not match included invoices'')))))"

fun py_opt :: "('a \<Rightarrow> pyval) \<Rightarrow> 'a option \<Rightarrow> pyval" where
  "py_opt f None = PyNone"
| "py_opt f (Some x) = f x"

text \<open>\<open>offline_facts_for_invoice\<close>, up to the checks of \<open>OfflineAuditFacts\<close> itself.\<close>

definition invoice_audit_facts :: "audit_snapshot \<Rightarrow> snapshot_invoice \<Rightarrow> audit_facts" where
  "invoice_audit_facts s i =
    \<lparr>preview_id = sn_execution_id s,
     has_confirmed_primary_contract = PyBool (sn_contract_id s \<noteq> None),
     contract_party_b_tax_no = py_opt PyStr (sn_contract_party_b_tax_no s),
     invoice_seller_tax_no = py_opt PyStr (si_seller_tax_no i),
     organization_tax_number = PyStr (sn_organization_tax_number s),
     invoice_buyer_tax_no = py_opt PyStr (si_buyer_tax_no i),
     cumulative_invoice_total = py_opt PyDecimal (sn_cumulative_invoice_total s),
     effective_contract_amount = py_opt PyDecimal (sn_effective_contract_amount s),
     invoice_date = py_opt PyDate (si_invoice_date i),
     contract_effective_date = py_opt PyDate (sn_contract_effective_date s),
     contract_expiry_date = py_opt PyDate (sn_contract_expiry_date s),
     has_existing_exact_invoice_identity = py_opt PyBool (si_has_existing_exact_invoice_identity i),
     contract_subjects_present = PyBool (sn_contract_subjects_present s),
     contract_amount_present = PyBool (sn_effective_contract_amount s \<noteq> None),
     contract_currency_present = PyBool (sn_contract_currency s \<noteq> None),
     contract_effective_date_present = PyBool (sn_contract_effective_date s \<noteq> None),
     invoice_code = py_opt PyStr (si_invoice_code i),
     invoice_number = py_opt PyStr (si_invoice_number i),
     invoice_total_amount = py_opt PyDecimal (si_total_amount i),
     contract_currency = py_opt PyStr (sn_contract_currency s),
     invoice_currency = PyStr (si_currency i),
     invoice_line_net_amount = py_opt PyDecimal (si_line_net_amount i),
     invoice_tax_amount = py_opt PyDecimal (si_tax_amount i),
     contract_no = py_opt PyStr (sn_contract_no s),
     has_effective_unconfirmed_supplementary_agreement =
       PyBool (sn_has_effective_unconfirmed_supplementary_agreement s),
     requires_policy_citation = PyBool (sn_requires_policy_citation s),
     retrieval_completed_successfully = PyBool (sn_retrieval_completed_successfully s),
     has_applicable_policy_citation = PyBool (sn_has_applicable_policy_citation s),
     standard_name_a = py_opt PyStr (sn_contract_party_b_name s),
     standard_name_b = py_opt PyStr (si_seller_name i),
     tax_identity_a = py_opt PyStr (sn_contract_party_b_tax_no s),
     tax_identity_b = py_opt PyStr (si_seller_tax_no i),
     is_red_invoice = py_opt PyBool (si_is_red_invoice i)\<rparr>"

definition offline_facts_for_invoice :: "audit_snapshot \<Rightarrow> snapshot_invoice \<Rightarrow> audit_facts result" where
  "offline_facts_for_invoice s i =
     bind_result (validate_audit_facts (invoice_audit_facts s i)) (\<lambda>_. Inr (invoice_audit_facts s i))"

section \<open>Aggregation\<close>

text \<open>\<open>RULE_CATALOG_CODES\<close> of the rule catalog.\<close>

definition rule_catalog_codes :: "pystr list" where
  "rule_catalog_codes = map (\<lambda>number. lit ''RULE-'' @ zfill 3 (dec_digits number)) [1..<16]"

lemma rule_catalog_codes [simp]: "rule_catalog_codes = rule_ids"
  by (simp add: rule_catalog_codes_def rule_ids_def)

definition aggregate_text :: "bool \<Rightarrow> preview_result list \<Rightarrow> pystr option" where
  "aggregate_text actual selected =
     (let values = List.map_filter (if actual then actual_value else expected_value) selected;
          unique = dict_fromkeys values in
      if values = [] then None
      else if length selected = 1 \<and> length unique = 1 then Some (hd unique)
      else if actual then Some (lit ''affected_invoice_count='' @ dec_digits (length selected))
      else Some (if length unique = 1 then hd unique else lit ''multiple_expected_values''))"

definition disposition_priority :: "disposition list" where
  "disposition_priority = [HIT, MISSING, NOT_HIT, DISP_NOT_APPLICABLE]"

text \<open>\<open>status_by_disposition\<close>.\<close>

fun status_by_disposition :: "disposition \<Rightarrow> rule_status" where
  "status_by_disposition HIT = FAILED"
| "status_by_disposition MISSING = NOT_APPLICABLE"
| "status_by_disposition NOT_HIT = PASSED"
| "status_by_disposition DISP_NOT_APPLICABLE = NOT_APPLICABLE"

text \<open>The preview of one invoice, with the invoice and the contract as references of every rule.\<close>

definition invoice_references :: "audit_snapshot \<Rightarrow> snapshot_invoice \<Rightarrow> uuid list" where
  "invoice_references s i = canonical_ids (case sn_contract_id s of
     None \<Rightarrow> [si_invoice_id i] | Some c \<Rightarrow> [si_invoice_id i, c])"

definition invoice_preview ::
  "(uuid \<Rightarrow> pystr \<Rightarrow> uuid) \<Rightarrow> audit_snapshot \<Rightarrow> (pystr \<times> risk_level) list \<Rightarrow> snapshot_invoice \<Rightarrow> audit_preview result" where
  "invoice_preview name_uuid s levels i =
     bind_result (map_result (\<lambda>code. new_rule_metadata code (the (map_of levels code)) (invoice_references s i))
       rule_catalog_codes) (\<lambda>metadata.
     bind_result (offline_facts_for_invoice s i) (\<lambda>facts.
       build_offline_audit_preview name_uuid facts metadata))"

text \<open>One turn of the loop over the rules: the results of this rule for all invoices are merged.\<close>

definition aggregate_rule ::
  "(pystr \<times> risk_level) list \<Rightarrow> pystr \<Rightarrow> preview_result list \<Rightarrow> preview_result result" where
  "aggregate_rule levels code candidates =
     (case List.find (\<lambda>d. list_ex (\<lambda>r. res_disposition r = d) candidates) disposition_priority of
        None \<Rightarrow> Inl StopIteration
      | Some disp \<Rightarrow>
        (let selected = filter (\<lambda>r. res_disposition r = disp) candidates;
             rid = (if disp = HIT then res_risk_id (hd selected) else None) in
         new_preview_result
          \<lparr>res_rule_id = code, res_status = status_by_disposition disp, res_disposition = disp,
           actual_value = aggregate_text True selected, expected_value = aggregate_text False selected,
           res_risk_id = rid,
           res_risk_level = (if rid \<noteq> None then Some (the (map_of levels code)) else None),
           res_reference_ids = canonical_ids (concat (map res_reference_ids selected))\<rparr>))"

definition build_aggregate_audit_preview ::
  "(uuid \<Rightarrow> pystr \<Rightarrow> uuid) \<Rightarrow> audit_snapshot \<Rightarrow> (pystr \<times> risk_level) list \<Rightarrow> audit_preview result" where
  "build_aggregate_audit_preview name_uuid s levels =
     (if set (map fst levels) \<noteq> set rule_catalog_codes
      then Inl (ValueError ''rule levels must contain the complete builtin catalog'')
      else bind_result (map_result (invoice_preview name_uuid s levels) (sn_invoices s)) (\<lambda>previews.
        bind_result (map_result (\<lambda>(index, code).
            aggregate_rule levels code (map (\<lambda>p. pv_rules p ! index) previews)) (enumerate 0 rule_catalog_codes))
          (\<lambda>rules. let risks = List.map_filter risk_of rules in
            bind_result (calculate_risk_summary risks) (\<lambda>summary.
              new_audit_preview (sn_execution_id s) rules risks summary))))"

end
