(* ===== verification/AuditSnapshotProperties.thy ===== *)
theory AuditSnapshotProperties
  imports AuditSnapshot
begin

text \<open>
  What \<open>AuditSnapshot\<close> guarantees: which facts an accepted snapshot gives the rules, how the results of its
  invoices are merged, and that stored identifiers, dates and amounts are read back.
\<close>

section \<open>Snapshots and the facts of their invoices\<close>

text \<open>The texts that the predicates read, and that the preview requires to be more than white space.\<close>

definition compared_texts :: "audit_snapshot \<Rightarrow> snapshot_invoice \<Rightarrow> pystr option list" where
  "compared_texts s i =
     [Some (sn_organization_tax_number s), sn_contract_party_b_tax_no s, sn_contract_party_b_name s, sn_contract_no s,
      sn_contract_currency s, si_seller_tax_no i, si_seller_name i, si_buyer_tax_no i, si_invoice_code i,
      si_invoice_number i, Some (si_currency i)]"

definition period_holds :: "audit_snapshot \<Rightarrow> bool" where
  "period_holds s \<longleftrightarrow> (case (sn_contract_effective_date s, sn_contract_expiry_date s) of
     (Some a, Some b) \<Rightarrow> a \<le> b | _ \<Rightarrow> True)"

lemma py_opt_shapes [simp]:
  "py_opt PyBool b = PyNone \<longleftrightarrow> b = None" "optional is_exact_bool (py_opt PyBool b)"
  "py_opt PyStr t = PyNone \<longleftrightarrow> t = None" "optional is_non_blank_str (py_opt PyStr t) = case_option True non_blank t"
  "py_opt PyDate d = PyNone \<longleftrightarrow> d = None" "optional is_exact_date (py_opt PyDate d)"
  "py_opt PyDecimal c = PyNone \<longleftrightarrow> c = None" "optional is_finite_decimal (py_opt PyDecimal c) = case_option True is_finite c"
  by (cases b; cases t; cases d; cases c; simp add: optional_def)+

lemma snapshot_parts:
  assumes "new_audit_snapshot s = Inr s'"
  shows "s' = s" "sn_invoices s \<noteq> []" "\<forall>i \<in> set (sn_invoices s). new_snapshot_invoice i = Inr i"
    "finite_amounts [sn_effective_contract_amount s, sn_cumulative_invoice_total s]"
proof -
  show "s' = s" "sn_invoices s \<noteq> []"
    "finite_amounts [sn_effective_contract_amount s, sn_cumulative_invoice_total s]"
    using assms by (auto simp: new_audit_snapshot_def split: option.splits if_splits)
  from assms obtain js where "map_result new_snapshot_invoice (sn_invoices s) = Inr js"
    by (auto simp: new_audit_snapshot_def)
  then have "\<forall>i \<in> set (sn_invoices s). \<exists>j. new_snapshot_invoice i = Inr j"
    by (auto simp: map_result_ok list_all2_conv_all_nth in_set_conv_nth)
  then show "\<forall>i \<in> set (sn_invoices s). new_snapshot_invoice i = Inr i"
    by (auto simp: new_snapshot_invoice_def)
qed

text \<open>What an accepted snapshot guarantees to the rules. For each of its invoices the facts of the
  preview are accepted exactly when no text they compare is blank and the contract does not end before it
  begins; types, finite amounts and the presence flags are guaranteed by the snapshot itself.\<close>

theorem snapshot_facts_valid:
  assumes "new_audit_snapshot s = Inr s'" "i \<in> set (sn_invoices s)"
  shows "offline_facts_for_invoice s i = Inr (invoice_audit_facts s i) \<longleftrightarrow>
    (\<forall>t \<in> set (compared_texts s i). case_option True non_blank t) \<and> period_holds s"
proof -
  have "finite_amounts [sn_effective_contract_amount s, sn_cumulative_invoice_total s]"
    "finite_amounts [si_amount_excluding_tax i, si_tax_amount i, si_total_amount i, si_line_net_amount i]"
    using snapshot_parts [OF assms(1)] assms(2) by (auto simp: new_snapshot_invoice_def)
  moreover have "period_ordered (py_opt PyDate (sn_contract_effective_date s)) (py_opt PyDate (sn_contract_expiry_date s))
      = period_holds s"
    by (cases "sn_contract_effective_date s"; cases "sn_contract_expiry_date s")
      (simp_all add: period_ordered_def period_holds_def)
  ultimately show ?thesis
    by (simp add: offline_facts_for_invoice_def invoice_audit_facts_def validate_audit_facts_def validator_defs
        presence_matches_def finite_amounts_def compared_texts_def conj_ac)
qed

section \<open>The aggregate of the invoices' results\<close>

definition row_disposition :: "audit_snapshot \<Rightarrow> pystr \<Rightarrow> snapshot_invoice \<Rightarrow> disposition" where
  "row_disposition s code i =
     disposition_of code (status_of (invoice_audit_facts s i) code) (invoice_audit_facts s i)"

lemma find_priority:
  assumes "x \<in> D"
  obtains d where "List.find (\<lambda>d. d \<in> D) disposition_priority = Some d" "d \<in> D"
    "HIT \<in> D \<longrightarrow> d = HIT" "HIT \<notin> D \<and> MISSING \<in> D \<longrightarrow> d = MISSING"
    "d = DISP_NOT_APPLICABLE \<longrightarrow> NOT_HIT \<notin> D"
proof -
  consider (hit) "HIT \<in> D" | (missing) "HIT \<notin> D" "MISSING \<in> D" | (not_hit) "HIT \<notin> D" "MISSING \<notin> D" "NOT_HIT \<in> D"
    | (none) "HIT \<notin> D" "MISSING \<notin> D" "NOT_HIT \<notin> D" "DISP_NOT_APPLICABLE \<in> D"
    using assms by (metis disposition.exhaust)
  then show thesis
  proof cases
    case hit
    then show ?thesis by (intro that [of HIT]) (simp_all add: disposition_priority_def)
  next
    case missing
    then show ?thesis by (intro that [of MISSING]) (simp_all add: disposition_priority_def)
  next
    case not_hit
    then show ?thesis by (intro that [of NOT_HIT]) (simp_all add: disposition_priority_def)
  next
    case none
    then show ?thesis by (intro that [of DISP_NOT_APPLICABLE]) (simp_all add: disposition_priority_def)
  qed
qed

definition aggregate_row ::
  "(uuid \<Rightarrow> pystr \<Rightarrow> uuid) \<Rightarrow> audit_snapshot \<Rightarrow> (pystr \<times> risk_level) list \<Rightarrow> pystr \<Rightarrow> disposition \<Rightarrow> preview_result list \<Rightarrow> preview_result" where
  "aggregate_row name_uuid s levels code d selected =
     \<lparr>res_rule_id = code, res_status = status_by_disposition d, res_disposition = d,
      actual_value = aggregate_text True selected, expected_value = aggregate_text False selected,
      res_risk_id = (if d = HIT then Some (name_uuid (sn_execution_id s) code) else None),
      res_risk_level = (if d = HIT then Some (the (map_of levels code)) else None),
      res_reference_ids = canonical_ids (concat (map res_reference_ids selected))\<rparr>"

lemma aggregate_text_shown:
  assumes "selected \<noteq> []" "\<forall>r \<in> set selected. both_shown (actual_value r, expected_value r)"
  shows "aggregate_text b selected \<noteq> None"
proof -
  have "List.map_filter (if b then actual_value else expected_value) selected \<noteq> []"
    using assms by (cases selected) (auto simp: both_shown_def map_filter_simps)
  then show ?thesis by (simp add: aggregate_text_def Let_def)
qed

lemma status_expected [simp]: "status_by_disposition d = expected_status d"
  by (cases d) simp_all

text \<open>The row of a rule for one invoice and what the aggregation needs of it.\<close>

definition invoice_table :: "audit_snapshot \<Rightarrow> (pystr \<times> risk_level) list \<Rightarrow> snapshot_invoice \<Rightarrow> (pystr \<times> rule_metadata) list" where
  "invoice_table s levels i = map (\<lambda>m. (meta_rule_id m, m)) (map (\<lambda>code. \<lparr>meta_rule_id = code,
     meta_risk_level = the (map_of levels code), meta_reference_ids = invoice_references s i\<rparr>) rule_ids)"

definition invoice_row ::
  "(uuid \<Rightarrow> pystr \<Rightarrow> uuid) \<Rightarrow> audit_snapshot \<Rightarrow> (pystr \<times> risk_level) list \<Rightarrow> pystr \<Rightarrow> snapshot_invoice \<Rightarrow> preview_result" where
  "invoice_row name_uuid s levels code i = result_row name_uuid (invoice_audit_facts s i) (invoice_table s levels i) code"

lemma invoice_table_lookup:
  "code \<in> set rule_ids \<Longrightarrow> map_of (invoice_table s levels i) code = Some \<lparr>meta_rule_id = code,
     meta_risk_level = the (map_of levels code), meta_reference_ids = invoice_references s i\<rparr>"
  by (simp add: invoice_table_def comp_def map_of_map_keys)

lemma invoice_row_simps:
  assumes "code \<in> set rule_ids"
  shows "res_disposition (invoice_row name_uuid s levels code i) = row_disposition s code i"
    "res_reference_ids (invoice_row name_uuid s levels code i) = invoice_references s i"
    "row_disposition s code i = HIT \<Longrightarrow>
       res_risk_id (invoice_row name_uuid s levels code i) = Some (name_uuid (sn_execution_id s) code)"
  using assms disposition_hit [OF assms, of "invoice_audit_facts s i"]
  by (simp_all add: invoice_row_def result_row_def row_disposition_def invoice_table_lookup invoice_audit_facts_def)

lemma invoice_row_shown:
  assumes "code \<in> set rule_ids" "validate_audit_facts (invoice_audit_facts s i) = Inr ()" "row_disposition s code i = HIT"
  shows "both_shown (actual_value (invoice_row name_uuid s levels code i),
    expected_value (invoice_row name_uuid s levels code i))"
proof -
  have "status_of (invoice_audit_facts s i) code = FAILED"
    using assms(3) disposition_hit [OF assms(1)] by (simp add: row_disposition_def)
  from failed_has_texts [OF assms(2,1) this] show ?thesis
    by (auto simp: invoice_row_def result_row_def)
qed

lemma invoice_preview_rows:
  assumes "offline_facts_for_invoice s i = Inr (invoice_audit_facts s i)"
    and "inj_on (name_uuid (sn_execution_id s)) (set rule_ids)"
  shows "\<exists>p. invoice_preview name_uuid s levels i = Inr p \<and>
    pv_rules p = map (\<lambda>code. invoice_row name_uuid s levels code i) rule_ids"
proof -
  let ?meta = "map (\<lambda>code. \<lparr>meta_rule_id = code, meta_risk_level = the (map_of levels code),
     meta_reference_ids = invoice_references s i\<rparr>) rule_ids"
  have canon: "canonical_ids (invoice_references s i) = invoice_references s i"
    by (simp add: invoice_references_def)
  have "map_result (\<lambda>code. new_rule_metadata code (the (map_of levels code)) (invoice_references s i)) rule_ids
      = Inr ?meta"
    using rule_ids_non_blank
    by (simp add: map_result_ok new_rule_metadata_def canon list_all2_map2 list_all2_same)
  moreover have "metadata_table ?meta" using canon by (auto simp: metadata_table_def comp_def)
  moreover have "validate_audit_facts (invoice_audit_facts s i) = Inr ()"
    using assms(1) by (auto simp: offline_facts_for_invoice_def)
  moreover have "preview_id (invoice_audit_facts s i) = sn_execution_id s" by (simp add: invoice_audit_facts_def)
  ultimately show ?thesis
    using build_preview_rows [of "invoice_audit_facts s i" ?meta name_uuid] assms
    by (auto simp: invoice_preview_def invoice_row_def invoice_table_def)
qed

lemma aggregate_rule_row:
  assumes code: "code \<in> set rule_ids" and some: "invoices \<noteq> []"
    and facts: "\<forall>i \<in> set invoices. validate_audit_facts (invoice_audit_facts s i) = Inr ()"
  obtains d where
    "aggregate_rule levels code (map (invoice_row name_uuid s levels code) invoices) = Inr (aggregate_row name_uuid s levels code d
       (map (invoice_row name_uuid s levels code) (filter (\<lambda>i. row_disposition s code i = d) invoices)))"
    "d \<in> row_disposition s code ` set invoices"
    "HIT \<in> row_disposition s code ` set invoices \<longrightarrow> d = HIT"
    "HIT \<notin> row_disposition s code ` set invoices \<and> MISSING \<in> row_disposition s code ` set invoices \<longrightarrow> d = MISSING"
    "d = DISP_NOT_APPLICABLE \<longrightarrow> NOT_HIT \<notin> row_disposition s code ` set invoices"
proof -
  let ?row = "invoice_row name_uuid s levels code" and ?D = "row_disposition s code ` set invoices"
  obtain i where "i \<in> set invoices" using some by (cases invoices) auto
  then obtain d where d: "List.find (\<lambda>d. d \<in> ?D) disposition_priority = Some d" "d \<in> ?D"
    "HIT \<in> ?D \<longrightarrow> d = HIT" "HIT \<notin> ?D \<and> MISSING \<in> ?D \<longrightarrow> d = MISSING"
    "d = DISP_NOT_APPLICABLE \<longrightarrow> NOT_HIT \<notin> ?D"
    using find_priority [of "row_disposition s code i" ?D] by blast
  let ?chosen = "filter (\<lambda>i. row_disposition s code i = d) invoices"
  have "(\<lambda>d. list_ex (\<lambda>r. res_disposition r = d) (map ?row invoices)) = (\<lambda>d. d \<in> ?D)"
    by (auto simp: fun_eq_iff list_ex_iff invoice_row_simps(1) [OF code])
  moreover have "filter (\<lambda>r. res_disposition r = d) (map ?row invoices) = map ?row ?chosen"
    by (simp add: filter_map comp_def invoice_row_simps(1) [OF code])
  moreover have chosen: "?chosen \<noteq> []" using d(2) by (auto simp: filter_empty_conv)
  moreover have "res_risk_id (hd (map ?row ?chosen)) = Some (name_uuid (sn_execution_id s) code)" if "d = HIT"
  proof -
    have "hd ?chosen \<in> set ?chosen" using chosen by (rule hd_in_set)
    with that chosen show ?thesis by (simp add: hd_map invoice_row_simps(3) [OF code])
  qed
  moreover have "aggregate_text b (map ?row ?chosen) \<noteq> None" if "d = HIT" for b
    using chosen facts that invoice_row_shown [OF code]
    by (intro aggregate_text_shown) (auto simp: filter_empty_conv)
  ultimately have "aggregate_rule levels code (map ?row invoices) =
      Inr (aggregate_row name_uuid s levels code d (map ?row ?chosen))"
    using d(1) rule_ids_non_blank [OF code]
    by (auto simp: aggregate_rule_def aggregate_row_def Let_def new_preview_result_def after_checks_pass)
  with d that show ?thesis by blast
qed

text \<open>The aggregated preview out of rows with known dispositions.\<close>

lemma new_preview_of_rows:
  assumes rows: "rules = map row rule_ids"
    and row: "\<forall>code \<in> set rule_ids. res_rule_id (row code) = code \<and>
       (if res_disposition (row code) = HIT
        then res_risk_id (row code) = Some (name_uuid pid code) \<and> res_risk_level (row code) = Some (level code)
        else res_risk_id (row code) = None)"
    and ids: "distinct (map (name_uuid pid) rule_ids)"
  defines "risks \<equiv> map (\<lambda>code. pending_risk (name_uuid pid code) (level code))
      (filter (\<lambda>code. res_disposition (row code) = HIT) rule_ids)"
  shows "List.map_filter risk_of rules = risks"
    "\<exists>summary. calculate_risk_summary risks = Inr summary \<and> new_audit_preview pid rules risks summary =
       Inr \<lparr>pv_preview_id = pid, pv_rules = rules, pv_risks = risks, pv_summary = summary, pv_ai_status = DISABLED\<rparr>"
proof -
  have "List.map_filter risk_of (map row codes) = map (\<lambda>code. pending_risk (name_uuid pid code) (level code))
      (filter (\<lambda>code. res_disposition (row code) = HIT) codes)" if "set codes \<subseteq> set rule_ids" for codes
    using that
  proof (induction codes)
    case (Cons code codes)
    then show ?case using bspec [OF row, of code]
      by (cases "res_disposition (row code) = HIT")
        (auto simp: map_filter_simps risk_of_def pending_risk_def split: option.split)
  qed (simp add: map_filter_simps)
  then show "List.map_filter risk_of rules = risks" by (simp add: rows risks_def)
  have "distinct (map risk_id risks)"
    using ids by (auto simp: risks_def pending_risk_def comp_def distinct_map intro: inj_on_subset)
  then obtain summary where summary: "calculate_risk_summary risks = Inr summary"
    by (simp add: calculate_risk_summary_def)
  have "map res_rule_id rules = rule_ids" using row by (simp add: rows map_idI)
  moreover have "hit_rules rules = map row (filter (\<lambda>code. res_disposition (row code) = HIT) rule_ids)"
    by (simp add: rows hit_rules_def filter_map comp_def)
  ultimately have "new_audit_preview pid rules risks summary =
       Inr \<lparr>pv_preview_id = pid, pv_rules = rules, pv_risks = risks, pv_summary = summary, pv_ai_status = DISABLED\<rparr>"
    using row by (auto simp: new_audit_preview_def summary after_checks_pass)
      (auto simp: risks_def pending_risk_def list_all2_map1 list_all2_map2 list_all2_same)
  with summary show "\<exists>summary. calculate_risk_summary risks = Inr summary \<and> new_audit_preview pid rules risks summary =
       Inr \<lparr>pv_preview_id = pid, pv_rules = rules, pv_risks = risks, pv_summary = summary, pv_ai_status = DISABLED\<rparr>"
    by blast
qed

text \<open>The merged row of a rule, relative to the dispositions of its invoices.\<close>

definition merged :: "audit_snapshot \<Rightarrow> preview_result \<Rightarrow> bool" where
  "merged s r \<longleftrightarrow>
     (let code = res_rule_id r; having = (\<lambda>d. filter (\<lambda>i. row_disposition s code i = d) (sn_invoices s)) in
      (res_status r = FAILED \<longleftrightarrow> having HIT \<noteq> []) \<and>
      (res_disposition r = MISSING \<longleftrightarrow> having HIT = [] \<and> having MISSING \<noteq> []) \<and>
      (res_status r = PASSED \<longleftrightarrow> having HIT = [] \<and> having MISSING = [] \<and> having NOT_HIT \<noteq> []) \<and>
      set (res_reference_ids r) = (\<Union>i \<in> set (having (res_disposition r)). set (invoice_references s i)))"

lemma aggregate_merged:
  assumes code: "code \<in> set rule_ids" and some: "sn_invoices s \<noteq> []"
    and facts: "\<forall>i \<in> set (sn_invoices s). validate_audit_facts (invoice_audit_facts s i) = Inr ()"
  obtains r where
    "aggregate_rule levels code (map (invoice_row name_uuid s levels code) (sn_invoices s)) = Inr r"
    "res_rule_id r = code" "merged s r" "res_disposition r = HIT \<longleftrightarrow> (\<exists>i \<in> set (sn_invoices s). row_disposition s code i = HIT)"
    "if res_disposition r = HIT
     then res_risk_id r = Some (name_uuid (sn_execution_id s) code) \<and> res_risk_level r = Some (the (map_of levels code))
     else res_risk_id r = None"
proof -
  let ?D = "row_disposition s code ` set (sn_invoices s)"
  obtain d where d:
    "aggregate_rule levels code (map (invoice_row name_uuid s levels code) (sn_invoices s)) =
       Inr (aggregate_row name_uuid s levels code d
         (map (invoice_row name_uuid s levels code) (filter (\<lambda>i. row_disposition s code i = d) (sn_invoices s))))"
    "d \<in> ?D" "HIT \<in> ?D \<longrightarrow> d = HIT" "HIT \<notin> ?D \<and> MISSING \<in> ?D \<longrightarrow> d = MISSING"
    "d = DISP_NOT_APPLICABLE \<longrightarrow> NOT_HIT \<notin> ?D"
    by (rule aggregate_rule_row [OF code some facts, of levels name_uuid])
  have having: "filter (\<lambda>i. row_disposition s code i = e) (sn_invoices s) \<noteq> [] \<longleftrightarrow> e \<in> ?D" for e
    by (auto simp: filter_empty_conv)
  then have empty: "filter (\<lambda>i. row_disposition s code i = e) (sn_invoices s) = [] \<longleftrightarrow> e \<notin> ?D" for e
    by blast
  let ?r = "aggregate_row name_uuid s levels code d
     (map (invoice_row name_uuid s levels code) (filter (\<lambda>i. row_disposition s code i = d) (sn_invoices s)))"
  have "set (res_reference_ids ?r) =
      (\<Union>i \<in> set (filter (\<lambda>i. row_disposition s code i = d) (sn_invoices s)). set (invoice_references s i))"
    by (simp add: aggregate_row_def invoice_row_simps(2) [OF code])
  moreover have rid: "res_rule_id ?r = code" "res_disposition ?r = d" by (simp_all add: aggregate_row_def)
  moreover have "res_status ?r = FAILED \<longleftrightarrow> HIT \<in> ?D" "d = MISSING \<longleftrightarrow> HIT \<notin> ?D \<and> MISSING \<in> ?D"
    "res_status ?r = PASSED \<longleftrightarrow> HIT \<notin> ?D \<and> MISSING \<notin> ?D \<and> NOT_HIT \<in> ?D"
    using d(2-5) by (cases d; auto simp: aggregate_row_def)+
  ultimately have "merged s ?r"
    by (simp only: merged_def Let_def rid having empty simp_thms)
  moreover have "d = HIT \<longleftrightarrow> (\<exists>i \<in> set (sn_invoices s). row_disposition s code i = HIT)"
    using d(2,3) by (auto simp: image_iff) metis
  ultimately show ?thesis
    by (intro that [of ?r] d(1)) (auto simp: aggregate_row_def)
qed

text \<open>C20. The preview of a snapshot with several invoices. When the snapshot and the facts of its invoices
  are accepted and the levels cover the catalog, the aggregate exists; it has one result per rule in the
  order of the catalog. A rule fails as soon as one invoice violates it, is missing when none does but one
  lacks the evidence, and passes when neither holds and one passes; its references are the invoices that
  decided it, with the contract. The risks are exactly the failed rules in order, pending at their level,
  and the summary is that of these risks.\<close>

theorem aggregate_preview_exact:
  assumes snapshot: "new_audit_snapshot s = Inr s"
    and facts: "\<forall>i \<in> set (sn_invoices s). offline_facts_for_invoice s i = Inr (invoice_audit_facts s i)"
    and levels: "set (map fst levels) = set rule_ids"
    and ids: "distinct (map (name_uuid (sn_execution_id s)) rule_ids)"
  shows "\<exists>p. build_aggregate_audit_preview name_uuid s levels = Inr p
    \<and> map res_rule_id (pv_rules p) = rule_ids
    \<and> (\<forall>r \<in> set (pv_rules p). merged s r)
    \<and> pv_risks p = map (\<lambda>code. pending_risk (name_uuid (sn_execution_id s) code) (the (map_of levels code)))
        (filter (\<lambda>code. \<exists>i \<in> set (sn_invoices s). status_of (invoice_audit_facts s i) code = FAILED) rule_ids)
    \<and> calculate_risk_summary (pv_risks p) = Inr (pv_summary p)"
proof -
  let ?invoices = "sn_invoices s" and ?row = "invoice_row name_uuid s levels"
  have some: "?invoices \<noteq> []" using snapshot_parts(2) [OF snapshot] .
  have valid: "\<forall>i \<in> set ?invoices. validate_audit_facts (invoice_audit_facts s i) = Inr ()"
    using facts by (auto simp: offline_facts_for_invoice_def)
  have inj: "inj_on (name_uuid (sn_execution_id s)) (set rule_ids)" using ids by (simp add: distinct_map)
  have "\<forall>i \<in> set ?invoices. \<exists>p. invoice_preview name_uuid s levels i = Inr p \<and>
      pv_rules p = map (\<lambda>code. ?row code i) rule_ids"
    using invoice_preview_rows facts inj by blast
  then obtain preview where preview: "\<forall>i \<in> set ?invoices. invoice_preview name_uuid s levels i = Inr (preview i) \<and>
      pv_rules (preview i) = map (\<lambda>code. ?row code i) rule_ids" by metis
  have "\<forall>code \<in> set rule_ids. \<exists>r. aggregate_rule levels code (map (?row code) ?invoices) = Inr r \<and>
      res_rule_id r = code \<and> merged s r \<and>
      (res_disposition r = HIT \<longleftrightarrow> (\<exists>i \<in> set ?invoices. row_disposition s code i = HIT)) \<and>
      (if res_disposition r = HIT
       then res_risk_id r = Some (name_uuid (sn_execution_id s) code) \<and> res_risk_level r = Some (the (map_of levels code))
       else res_risk_id r = None)"
    using aggregate_merged [OF _ some valid] by metis
  then obtain row where row: "\<forall>code \<in> set rule_ids. aggregate_rule levels code (map (?row code) ?invoices) = Inr (row code) \<and>
      res_rule_id (row code) = code \<and> merged s (row code) \<and>
      (res_disposition (row code) = HIT \<longleftrightarrow> (\<exists>i \<in> set ?invoices. row_disposition s code i = HIT)) \<and>
      (if res_disposition (row code) = HIT
       then res_risk_id (row code) = Some (name_uuid (sn_execution_id s) code) \<and>
         res_risk_level (row code) = Some (the (map_of levels code))
       else res_risk_id (row code) = None)" by metis
  have previews: "map_result (invoice_preview name_uuid s levels) ?invoices = Inr (map preview ?invoices)"
    using preview by (simp add: map_result_ok list_all2_map2 list_all2_same)
  have "map_result (\<lambda>(index, code). aggregate_rule levels code (map (\<lambda>p. pv_rules p ! index) (map preview ?invoices)))
      (enumerate 0 rule_ids) = Inr (map (\<lambda>(index, code). row code) (enumerate 0 rule_ids))"
    unfolding map_result_ok list_all2_map2 list_all2_same
  proof (intro ballI, clarify)
    fix index code assume "(index, code) \<in> set (enumerate 0 rule_ids)"
    then have at_index: "index < 15" "code = rule_ids ! index" by (auto simp: in_set_enumerate_eq)
    then have "code \<in> set rule_ids" by simp
    moreover have "map (\<lambda>p. pv_rules p ! index) (map preview ?invoices) = map (?row code) ?invoices"
      using preview at_index by simp
    ultimately show "aggregate_rule levels code (map (\<lambda>p. pv_rules p ! index) (map preview ?invoices)) = Inr (row code)"
      using row by metis
  qed
  moreover have "map (\<lambda>(index, code). row code) (enumerate 0 rule_ids) = map row rule_ids"
    by (rule nth_equalityI) (simp_all add: nth_enumerate_eq)
  ultimately have rules: "map_result (\<lambda>(index, code). aggregate_rule levels code
      (map (\<lambda>p. pv_rules p ! index) (map preview ?invoices))) (enumerate 0 rule_ids) = Inr (map row rule_ids)" by simp
  have shape: "\<forall>code \<in> set rule_ids. res_rule_id (row code) = code \<and>
       (if res_disposition (row code) = HIT
        then res_risk_id (row code) = Some (name_uuid (sn_execution_id s) code) \<and>
          res_risk_level (row code) = Some (the (map_of levels code))
        else res_risk_id (row code) = None)"
    using row by blast
  have hits: "filter (\<lambda>code. res_disposition (row code) = HIT) rule_ids =
      filter (\<lambda>code. \<exists>i \<in> set ?invoices. status_of (invoice_audit_facts s i) code = FAILED) rule_ids"
    using row disposition_hit by (intro filter_cong refl) (simp add: row_disposition_def)
  let ?risks = "map (\<lambda>code. pending_risk (name_uuid (sn_execution_id s) code) (the (map_of levels code)))
      (filter (\<lambda>code. \<exists>i \<in> set ?invoices. status_of (invoice_audit_facts s i) code = FAILED) rule_ids)"
  note built = new_preview_of_rows [where level = "\<lambda>code. the (map_of levels code)" and row = row
      and name_uuid = name_uuid and pid = "sn_execution_id s", OF refl shape ids, unfolded hits]
  from built(2) obtain summary where summary: "calculate_risk_summary ?risks = Inr summary"
    "new_audit_preview (sn_execution_id s) (map row rule_ids) ?risks summary =
       Inr \<lparr>pv_preview_id = sn_execution_id s, pv_rules = map row rule_ids, pv_risks = ?risks, pv_summary = summary,
         pv_ai_status = DISABLED\<rparr>" by blast
  have "build_aggregate_audit_preview name_uuid s levels =
       Inr \<lparr>pv_preview_id = sn_execution_id s, pv_rules = map row rule_ids, pv_risks = ?risks, pv_summary = summary,
         pv_ai_status = DISABLED\<rparr>"
    by (simp only: build_aggregate_audit_preview_def rule_catalog_codes levels previews rules bind_result.simps
        Let_def built(1) summary simp_thms if_False)
  moreover have "map res_rule_id (map row rule_ids) = rule_ids" using row by (simp add: map_idI)
  ultimately show ?thesis using summary(1) row by simp
qed

section \<open>Round trips\<close>

lemma format_f_chars:
  assumes "plain_decimal d" "c \<in> set (format_f d)"
  shows "c = 45 \<or> c = 46 \<or> is_decimal_digit c"
proof -
  obtain s n e where d: "d = Finite s n e" "e \<le> 0"
    using assms(1) by (auto simp: plain_decimal_def split: decimal.splits)
  have "list_all is_decimal_digit (zfill k (dec_digits n))" for k by (simp add: zfill_all dec_digits_all)
  then have "x \<in> set (zfill k (dec_digits n)) \<Longrightarrow> is_decimal_digit x" for x k by (auto simp: list_all_iff)
  then show ?thesis
    using assms(2) d by (auto simp: format_f_def Let_def split: if_splits dest: in_set_takeD in_set_dropD)
qed

lemma dec_str_plain_iff: "plain_decimal d \<and> format_f d = dec_str d \<longleftrightarrow> needs_no_exponent d"
proof (cases "is_finite d")
  case False
  then show ?thesis by (cases d) (simp_all add: plain_decimal_def needs_no_exponent_def)
next
  case True
  show ?thesis
  proof (cases "needs_no_exponent d")
    case yes: True
    then have "plain_decimal d" by (auto simp: needs_no_exponent_def plain_decimal_def split: decimal.splits)
    with yes show ?thesis by (simp add: dec_str_format)
  next
    case False
    have "format_f d \<noteq> dec_str d" if "plain_decimal d"
    proof
      assume "format_f d = dec_str d"
      with dec_str_exponent [OF True False] have "69 \<in> set (format_f d)" by simp
      from format_f_chars [OF that this] show False by (simp add: is_decimal_digit_def)
    qed
    with False show ?thesis by blast
  qed
qed

text \<open>C21. Reading back what was written. A text is read as an identifier, a date or a decimal exactly when
  it is the text that Python prints for it, so no two texts stand for one value; a decimal written by
  \<open>str\<close>, as in the stored JSON document, is read back unless printing it takes an exponent.\<close>

theorem snapshot_text_roundtrip:
  "(parse_uuid (PyStr t) = Inr (PyUuid u) \<longleftrightarrow> t = uuid_str u) \<and>
   (parse_date (PyStr t) = Inr (PyDate d) \<longleftrightarrow> calendar_date d \<and> t = isoformat d) \<and>
   (parse_decimal (PyStr t) = Inr (PyDecimal x) \<longleftrightarrow> plain_decimal x \<and> t = format_f x) \<and>
   (parse_decimal (PyStr (dec_str x)) = Inr (PyDecimal x) \<longleftrightarrow> needs_no_exponent x)"
proof -
  have "parse_uuid (PyStr t) = Inr (PyUuid u) \<longleftrightarrow> read_uuid t = Some u"
    by (simp add: parse_uuid_def split: option.split)
  then have uuids: "parse_uuid (PyStr t) = Inr (PyUuid u) \<longleftrightarrow> t = uuid_str u"
    using uuid_text.read_iff [of t u] by auto
  have "parse_date (PyStr t) = Inr (PyDate d) \<longleftrightarrow> read_date t = Some d"
    by (simp add: parse_date_def split: option.split)
  then have dates: "parse_date (PyStr t) = Inr (PyDate d) \<longleftrightarrow> calendar_date d \<and> t = isoformat d"
    using date_text.read_iff [of t d] by auto
  have "parse_decimal (PyStr w) = Inr (PyDecimal x) \<longleftrightarrow> read_decimal w = Some x" for w
    by (simp add: parse_decimal_def split: option.split)
  then have decimals: "parse_decimal (PyStr w) = Inr (PyDecimal x) \<longleftrightarrow> plain_decimal x \<and> w = format_f x" for w
    using decimal_text.read_iff [of w x] by auto
  have "parse_decimal (PyStr (dec_str x)) = Inr (PyDecimal x) \<longleftrightarrow> needs_no_exponent x"
    using decimals [of "dec_str x"] dec_str_plain_iff [of x] by metis
  with uuids dates decimals [of t] show ?thesis by blast
qed

section \<open>Examples\<close>

definition sample_invoice :: "uuid \<Rightarrow> pystr \<Rightarrow> snapshot_invoice" where
  "sample_invoice i seller_tax = \<lparr>si_invoice_id = i, si_critical_fact_hash = replicate 64 97,
     si_invoice_code = None, si_invoice_number = Some (lit ''N1''), si_invoice_type = None,
     si_invoice_date = Some (Date 2026 3 1), si_buyer_name = None, si_buyer_tax_no = Some (lit ''ORG''),
     si_seller_name = Some (lit ''S''), si_seller_tax_no = Some seller_tax, si_amount_excluding_tax = None,
     si_tax_amount = Some (Finite False 1300 (- 2)), si_total_amount = Some (Finite False 11300 (- 2)),
     si_line_net_amount = Some (Finite False 10000 (- 2)), si_currency = lit ''CNY'', si_duplicate_status = lit ''unique'',
     si_has_existing_exact_invoice_identity = Some False, si_is_red_invoice = Some False,
     si_included_in_cumulative_total = True, si_cumulative_exclusion_reason = None, si_row_version = 1\<rparr>"

definition sample_snapshot :: audit_snapshot where
  "sample_snapshot = \<lparr>sn_organization_id = 1, sn_task_id = 2, sn_execution_id = 3, sn_baseline_date = Date 2026 4 1,
     sn_organization_tax_number = lit ''ORG'', sn_contract_id = Some 9,
     sn_contract_critical_fact_hash = Some (replicate 64 98), sn_contract_no = Some (lit ''C-1''),
     sn_contract_party_a_name = None, sn_contract_party_a_tax_no = None, sn_contract_party_b_name = Some (lit ''S''),
     sn_contract_party_b_tax_no = Some (lit ''T1''), sn_effective_contract_amount = Some (Finite False 1000 0),
     sn_contract_currency = Some (lit ''CNY''), sn_contract_effective_date = Some (Date 2026 1 1),
     sn_contract_expiry_date = Some (Date 2026 12 31), sn_contract_subjects_present = True,
     sn_has_effective_unconfirmed_supplementary_agreement = False,
     sn_cumulative_invoice_total = Some (Finite False 226 0), sn_requires_policy_citation = False,
     sn_retrieval_completed_successfully = False, sn_has_applicable_policy_citation = False,
     sn_invoices = [sample_invoice 5 (lit ''T1''), sample_invoice 6 (lit ''T2'')]\<rparr>"

definition sample_levels :: "(pystr \<times> risk_level) list" where
  "sample_levels = map (\<lambda>code. (code, MEDIUM)) rule_ids"

lemma hash_replicate: "lower_hex_sha256 (replicate 64 97)" "lower_hex_sha256 (replicate 64 98)"
  by (simp_all add: lower_hex_sha256_def list_all_iff is_lower_hex_def)

lemma sample_sum: "dec_sum (Finite False 0 0) [Finite False 11300 (- 2), Finite False 11300 (- 2)] =
    Inr (Finite False 22600 (- 2))"
  by (simp add: signed_coef_def Let_def dec_fix_def num_digits_def dec_prec_def dec_etop_def dec_etiny_def)

lemma sample_snapshot_valid: "new_audit_snapshot sample_snapshot = Inr sample_snapshot"
proof -
  have "new_snapshot_invoice (sample_invoice i t) = Inr (sample_invoice i t)" for i t
    by (simp add: new_snapshot_invoice_def sample_invoice_def hash_replicate finite_amounts_def after_checks_pass)
  then have invoices: "map_result new_snapshot_invoice (sn_invoices sample_snapshot) = Inr (sn_invoices sample_snapshot)"
    by (simp add: sample_snapshot_def)
  have totals: "included_totals sample_snapshot = [Some (Finite False 11300 (- 2)), Some (Finite False 11300 (- 2))]"
    by (simp add: included_totals_def sample_snapshot_def sample_invoice_def)
  have "dec_eq (Finite False 226 0) (Finite False 22600 (- 2))" by (simp add: dec_eq_def signed_coef_def)
  then have total_matches: "dec_eq (the (sn_cumulative_invoice_total sample_snapshot)) (Finite False 22600 (- 2))"
    by (simp add: sample_snapshot_def)
  have sum: "dec_sum (Finite False 0 0) (map the (included_totals sample_snapshot)) = Inr (Finite False 22600 (- 2))"
    using sample_sum by (simp only: totals list.map option.sel)
  show ?thesis
    unfolding new_audit_snapshot_def invoices bind_result.simps sum
    using total_matches by (subst after_checks_pass)
      (simp_all add: totals, simp_all add: sample_snapshot_def sample_invoice_def hash_replicate finite_amounts_def
        canonical_ids_fixed has_contract_facts_def lit_def)
qed

lemma snapshot_sample_texts:
  "i \<in> set (sn_invoices sample_snapshot) \<Longrightarrow> \<forall>t \<in> set (compared_texts sample_snapshot i). case_option True non_blank t"
  "period_holds sample_snapshot"
  by (auto simp: compared_texts_def sample_snapshot_def sample_invoice_def non_blank_iff lit_def py_isspace_def period_holds_def)

theorem snapshot_facts_valid_witness:
  "list_all (\<lambda>i. offline_facts_for_invoice sample_snapshot i = Inr (invoice_audit_facts sample_snapshot i))
     (sn_invoices sample_snapshot)"
  unfolding list_all_iff using snapshot_facts_valid [OF sample_snapshot_valid] snapshot_sample_texts by blast

lemma sample_facts_accepted:
  assumes "i \<in> set (sn_invoices sample_snapshot)"
  shows "offline_facts_for_invoice sample_snapshot i = Inr (invoice_audit_facts sample_snapshot i)"
proof -
  have "validate_audit_facts (invoice_audit_facts sample_snapshot (sample_invoice k (lit t))) = Inr ()"
    if "t = ''T1'' \<or> t = ''T2''" for k t
    using that
    by (auto simp: invoice_audit_facts_def sample_snapshot_def sample_invoice_def validate_audit_facts_def validator_defs
        presence_matches_def non_blank_iff lit_def py_isspace_def period_ordered_def)
  then show ?thesis using assms by (auto simp: sample_snapshot_def offline_facts_for_invoice_def)
qed

theorem aggregate_preview_exact_witness:
  "\<exists>p. build_aggregate_audit_preview numbered_id sample_snapshot sample_levels = Inr p \<and>
     map res_rule_id (pv_rules p) = rule_ids \<and> (\<forall>r \<in> set (pv_rules p). merged sample_snapshot r)"
proof -
  have "set (map fst sample_levels) = set rule_ids" by (simp add: sample_levels_def image_image)
  moreover have "distinct (map (numbered_id (sn_execution_id sample_snapshot)) rule_ids)"
    by (simp add: rule_ids_literals numbered_id_def sample_snapshot_def lit_def)
  ultimately show ?thesis
    using aggregate_preview_exact [OF sample_snapshot_valid, where levels = sample_levels and name_uuid = numbered_id]
      sample_facts_accepted by blast
qed

end
