(* ===== verification/Timestamps.thy ===== *)
theory Timestamps
  imports CanonicalText
begin

text \<open>
  UTC timestamps with microseconds: their printed form, the reader of exactly this form, and the proofs
  that the order of the printed texts, that of the values and that of the instants agree.
\<close>

section \<open>Values and texts\<close>

text \<open>
  A UTC timestamp, \<open>2026-04-01T09:30:00.000000Z\<close>: the date and the microsecond of the day. The code
  compares two timestamps as texts; for the printed form that is the order of the pairs.
\<close>

type_synonym stamp = "date \<times> nat"

definition day_microseconds :: nat where "day_microseconds = 86400000000"

definition valid_stamp :: "stamp \<Rightarrow> bool" where
  "valid_stamp t \<longleftrightarrow> calendar_date (fst t) \<and> snd t < day_microseconds"

definition two :: "nat \<Rightarrow> pystr" where "two n = zfill 2 (dec_digits n)"

definition stamp_text :: "stamp \<Rightarrow> pystr" where
  "stamp_text t = (let u = snd t; s = u div 1000000 in
     isoformat (fst t) @ [84] @ two (s div 3600) @ [58] @ two (s div 60 mod 60) @ [58] @ two (s mod 60)
     @ [46] @ zfill 6 (dec_digits (u mod 1000000)) @ [90])"

definition read_stamp :: "pystr \<Rightarrow> stamp option" where
  "read_stamp s = (case read_date (take 10 s) of None \<Rightarrow> None
   | Some d \<Rightarrow>
       let part = (\<lambda>i n. read_digits (take n (drop i s)));
           t = (d, ((part 11 2 * 60 + part 14 2) * 60 + part 17 2) * 1000000 + part 20 6)
       in if snd t < day_microseconds \<and> stamp_text t = s then Some t else None)"

lemma two_length: "n < 100 \<Longrightarrow> length (two n) = 2"
  using dec_digits_length [of n 2] by (simp add: two_def)

lemma iso_length: "calendar_date d \<Longrightarrow> length (isoformat d) = 10"
  using date_text.read_render by (fastforce simp: read_date_def Let_def split: if_splits)

lemma read_stamp_text:
  assumes "valid_stamp t"
  shows "read_stamp (stamp_text t) = Some t"
proof -
  obtain d u where t: "t = (d, u)" by (cases t)
  have d: "calendar_date d" and u: "u < 86400000000" using assms by (simp_all add: t valid_stamp_def day_microseconds_def)
  define s where "s = u div 1000000"
  have s: "s < 86400" using u by (simp add: s_def less_mult_imp_div_less)
  then have "s div 3600 < 24" by (simp add: less_mult_imp_div_less)
  then have len: "length (two (s div 3600)) = 2" "length (two (s div 60 mod 60)) = 2" "length (two (s mod 60)) = 2"
    "length (zfill 6 (dec_digits (u mod 1000000))) = 6"
    using two_length [of "s div 60 mod 60"] two_length [of "s mod 60"] dec_digits_length [of "u mod 1000000" 6]
    by (simp_all add: two_length)
  have printed: "stamp_text t = isoformat d @ [84] @ two (s div 3600) @ [58] @ two (s div 60 mod 60) @ [58]
      @ two (s mod 60) @ [46] @ zfill 6 (dec_digits (u mod 1000000)) @ [90]"
    by (simp only: t stamp_text_def Let_def fst_conv snd_conv s_def)
  have parts: "take 10 (stamp_text t) = isoformat d" "take 2 (drop 11 (stamp_text t)) = two (s div 3600)"
    "take 2 (drop 14 (stamp_text t)) = two (s div 60 mod 60)" "take 2 (drop 17 (stamp_text t)) = two (s mod 60)"
    "take 6 (drop 20 (stamp_text t)) = zfill 6 (dec_digits (u mod 1000000))"
    using len iso_length [OF d] by (simp_all add: printed)
  have "s div 3600 * 60 + s div 60 mod 60 = s div 60" by (simp add: div_mult2_eq [of s 60 60, simplified])
  moreover have "s div 60 * 60 + s mod 60 = s" by simp
  moreover have "s * 1000000 + u mod 1000000 = u" by (simp add: s_def)
  ultimately have sum: "((s div 3600 * 60 + s div 60 mod 60) * 60 + s mod 60) * 1000000 + u mod 1000000 = u"
    by metis
  show ?thesis
    using d u unfolding read_stamp_def Let_def parts two_def read_zfill read_dec_digits sum
    by (simp add: date_text.read_render t day_microseconds_def)
qed

interpretation stamp: canonical_text stamp_text read_stamp valid_stamp
  by unfold_locales
    (simp add: read_stamp_text,
     auto simp: read_stamp_def valid_stamp_def Let_def date_text.read_iff split: option.splits if_splits)

section \<open>The order\<close>

lemma append_less:
  fixes xs ys us vs :: pystr
  shows "length xs = length ys \<Longrightarrow> (xs @ us < ys @ vs) = (xs < ys \<or> xs = ys \<and> us < vs)"
  by (induction xs ys rule: list_induct2) auto

lemma read_digits_Cons: "read_digits (c # s) = (c - 48) * 10 ^ length s + read_digits s"
proof -
  have "foldl (\<lambda>n c. 10 * n + (c - 48)) k s = k * 10 ^ length s + foldl (\<lambda>n c. 10 * n + (c - 48)) 0 s" for k :: nat
  proof (induction s arbitrary: k)
    case (Cons a s)
    show ?case
      using Cons.IH [of "10 * k + (a - 48)"] Cons.IH [of "a - 48"] by (simp add: algebra_simps)
  qed simp
  from this [of "c - 48"] show ?thesis by (simp add: read_digits_def positional_def)
qed

lemma read_digits_bound: "list_all is_decimal_digit s \<Longrightarrow> read_digits s < 10 ^ length s"
proof (induction s)
  case (Cons c s)
  then have "read_digits s < 10 ^ length s" "c - 48 \<le> 9" by (auto simp: is_decimal_digit_def)
  moreover have "(c - 48) * 10 ^ length s \<le> 9 * 10 ^ length s" using calculation(2) by (rule mult_le_mono1)
  ultimately show ?case unfolding read_digits_Cons length_Cons power_Suc by linarith
qed (simp add: read_digits_def positional_def)

lemma digits_less:
  assumes "length xs = length ys" "list_all is_decimal_digit xs" "list_all is_decimal_digit ys"
  shows "xs < ys \<longleftrightarrow> read_digits xs < read_digits ys"
  using assms
proof (induction xs ys rule: list_induct2)
  case (Cons x xs y ys)
  let ?p = "10 ^ length xs :: nat"
  have bounds: "read_digits xs < ?p" "read_digits ys < ?p"
    using Cons read_digits_bound [of xs] read_digits_bound [of ys] by auto
  have digits: "48 \<le> x" "48 \<le> y" using Cons.prems by (auto simp: is_decimal_digit_def)
  have lower: "a * ?p + r < b * ?p + t" if "a < b" "r < ?p" for a b r t :: nat
  proof -
    have "(a + 1) * ?p \<le> b * ?p" using that(1) by (intro mult_le_mono1) simp
    then show ?thesis using that(2) by simp
  qed
  show ?case
  proof (cases x y rule: linorder_cases)
    case less
    then have "x - 48 < y - 48" using digits by simp
    then show ?thesis
      using less lower [OF _ bounds(1), of "x - 48" "y - 48" "read_digits ys"] Cons.hyps by (simp add: read_digits_Cons)
  next
    case equal
    then show ?thesis using Cons by (simp add: read_digits_Cons)
  next
    case greater
    then have "y - 48 < x - 48" using digits by simp
    then show ?thesis
      using greater lower [OF _ bounds(2), of "y - 48" "x - 48" "read_digits xs"] Cons.hyps by (simp add: read_digits_Cons)
  qed
qed simp

lemma zfill_less:
  assumes "n < 10 ^ w" "m < 10 ^ w" "0 < w"
  shows "zfill w (dec_digits n) < zfill w (dec_digits m) \<longleftrightarrow> n < m"
    "zfill w (dec_digits n) = zfill w (dec_digits m) \<longleftrightarrow> n = m"
    "length (zfill w (dec_digits n)) = w"
proof -
  have len: "length (zfill w (dec_digits k)) = w" if "k < 10 ^ w" for k
    using dec_digits_length [OF that assms(3)] by simp
  then show "zfill w (dec_digits n) < zfill w (dec_digits m) \<longleftrightarrow> n < m"
    using assms by (subst digits_less) (simp_all add: zfill_all dec_digits_all)
  show "zfill w (dec_digits n) = zfill w (dec_digits m) \<longleftrightarrow> n = m"
    by (metis read_dec_digits read_zfill)
  show "length (zfill w (dec_digits n)) = w" using len assms(1) .
qed

lemma isoformat_less:
  assumes "calendar_date a" "calendar_date b"
  shows "isoformat a < isoformat b \<longleftrightarrow> a < b" "isoformat a = isoformat b \<longleftrightarrow> a = b"
proof -
  obtain y m d y' m' d' where ab: "a = Date y m d" "b = Date y' m' d'" by (cases a; cases b)
  have small: "y < 10 ^ 4" "y' < 10 ^ 4" "m < 10 ^ 2" "m' < 10 ^ 2" "d < 10 ^ 2" "d' < 10 ^ 2"
    using assms by (auto simp: ab calendar_date_def days_in_month_def split: if_splits)
  note parts = zfill_less [OF small(1,2)] zfill_less [OF small(2,1)] zfill_less [OF small(3,4)] zfill_less [OF small(4,3)]
    zfill_less [OF small(5,6)]
  show "isoformat a < isoformat b \<longleftrightarrow> a < b"
    by (auto simp: ab isoformat_def lit_def append_less parts less_date_def simp del: zfill_length)
  show "isoformat a = isoformat b \<longleftrightarrow> a = b"
    using date_text.render_inj [OF assms] by blast
qed

lemma clock_less:
  fixes u v :: nat
  defines "s \<equiv> u div 1000000" and "t \<equiv> v div 1000000"
  shows "u < v \<longleftrightarrow> s div 3600 < t div 3600 \<or> s div 3600 = t div 3600 \<and>
    (s div 60 mod 60 < t div 60 mod 60 \<or> s div 60 mod 60 = t div 60 mod 60 \<and>
      (s mod 60 < t mod 60 \<or> s mod 60 = t mod 60 \<and> u mod 1000000 < v mod 1000000))"
proof -
  have split: "a < b \<longleftrightarrow> a div k < b div k \<or> a div k = b div k \<and> a mod k < b mod k" for a b k :: nat
  proof
    assume "a < b"
    moreover have "a div k = b div k \<Longrightarrow> a mod k < b mod k"
      using \<open>a < b\<close> div_mult_mod_eq [of a k] div_mult_mod_eq [of b k] by (metis nat_add_left_cancel_less)
    ultimately show "a div k < b div k \<or> a div k = b div k \<and> a mod k < b mod k"
      using div_le_mono [of a b k] by linarith
  next
    assume "a div k < b div k \<or> a div k = b div k \<and> a mod k < b mod k"
    then show "a < b"
      using div_le_mono [of b a k] div_mult_mod_eq [of a k] div_mult_mod_eq [of b k]
      by (metis leD nat_add_left_cancel_less not_le)
  qed
  have same: "a = b \<longleftrightarrow> a div k = b div k \<and> a mod k = b mod k" for a b k :: nat
    by (metis div_mult_mod_eq)
  have hour: "x div 60 div 60 = x div 3600" for x :: nat by (simp add: div_mult2_eq [symmetric])
  have "u < v \<longleftrightarrow> s < t \<or> s = t \<and> u mod 1000000 < v mod 1000000"
    using split [of u v 1000000] by (simp add: s_def t_def)
  moreover have "s < t \<longleftrightarrow> s div 60 < t div 60 \<or> s div 60 = t div 60 \<and> s mod 60 < t mod 60"
    by (rule split)
  moreover have "s div 60 < t div 60 \<longleftrightarrow>
      s div 3600 < t div 3600 \<or> s div 3600 = t div 3600 \<and> s div 60 mod 60 < t div 60 mod 60"
    using split [of "s div 60" "t div 60" 60] by (simp only: hour)
  moreover have "s = t \<longleftrightarrow> s div 60 = t div 60 \<and> s mod 60 = t mod 60" by (rule same)
  moreover have "s div 60 = t div 60 \<longleftrightarrow> s div 3600 = t div 3600 \<and> s div 60 mod 60 = t div 60 mod 60"
    using same [of "s div 60" "t div 60" 60] by (simp only: hour)
  ultimately show ?thesis by blast
qed

lemma stamp_text_less:
  assumes "valid_stamp a" "valid_stamp b"
  shows "stamp_text a < stamp_text b \<longleftrightarrow> a < b"
proof -
  obtain d u d' v where ab: "a = (d, u)" "b = (d', v)" by (cases a; cases b)
  have dates: "calendar_date d" "calendar_date d'" and small: "u < 86400000000" "v < 86400000000"
    using assms by (simp_all add: ab valid_stamp_def day_microseconds_def)
  let ?s = "u div 1000000" and ?t = "v div 1000000"
  have "?s < 86400" "?t < 86400" using small by (simp_all add: less_mult_imp_div_less)
  then have "?s div 3600 < 10 ^ 2" "?t div 3600 < 10 ^ 2"
    using less_mult_imp_div_less [of ?s 24 3600] less_mult_imp_div_less [of ?t 24 3600] by simp_all
  note hours = zfill_less [OF this] zfill_less [OF this(2,1)]
  have bounds: "?s div 60 mod 60 < 10 ^ 2" "?t div 60 mod 60 < 10 ^ 2" "?s mod 60 < 10 ^ 2" "?t mod 60 < 10 ^ 2"
    "u mod 1000000 < 10 ^ 6" "v mod 1000000 < 10 ^ 6"
    by simp_all
  note parts = hours zfill_less [OF bounds(1,2)] zfill_less [OF bounds(2,1)] zfill_less [OF bounds(3,4)]
    zfill_less [OF bounds(4,3)] zfill_less [OF bounds(5,6)] zfill_less [OF bounds(6,5)]
  show ?thesis
    unfolding ab stamp_text_def Let_def fst_conv snd_conv two_def
    by (simp add: append_less iso_length dates isoformat_less parts less_prod_def clock_less [of u v] del: zfill_length)
      (auto simp: le_less)
qed

section \<open>Instants\<close>

text \<open>\<open>date.toordinal\<close> and the microseconds since the Unix epoch.\<close>

definition days_before_year :: "nat \<Rightarrow> int" where
  "days_before_year y = (let p = y - 1 in int (p * 365 + p div 4 + p div 400) - int (p div 100))"

definition days_before_month :: "nat \<Rightarrow> nat \<Rightarrow> nat" where
  "days_before_month y m = sum_list (map (days_in_month y) [1..<m])"

definition toordinal :: "date \<Rightarrow> int" where
  "toordinal dt = (case dt of Date y m d \<Rightarrow> days_before_year y + int (days_before_month y m + d))"

definition stamp_time :: "stamp \<Rightarrow> int" where
  "stamp_time t = (toordinal (fst t) - 719163) * int day_microseconds + int (snd t)"

lemma days_before_month_mono: "m \<le> n \<Longrightarrow> days_before_month y m \<le> days_before_month y n"
proof (induction n)
  case (Suc n)
  then show ?case
    by (cases "m = Suc n") (auto simp: days_before_month_def)
qed simp

lemma month_ends: "1 \<le> m \<Longrightarrow> d \<le> days_in_month y m \<Longrightarrow> m < n \<Longrightarrow>
    days_before_month y m + d \<le> days_before_month y n"
  using days_before_month_mono [of "Suc m" n y] by (simp add: days_before_month_def)

definition leap :: "nat \<Rightarrow> bool" where "leap y \<longleftrightarrow> 4 dvd y \<and> (\<not> 100 dvd y \<or> 400 dvd y)"

lemma year_length: "days_before_month y 13 = (if leap y then 366 else 365)"
proof -
  have "[1..<13] = [1, 2, 3, 4, 5, 6, 7, 8, 9, 10, 11, 12::nat]" by (simp add: upt_rec)
  then show ?thesis by (simp add: days_before_month_def days_in_month_def leap_def)
qed

lemma year_step: "1 \<le> y \<Longrightarrow> days_before_year (Suc y) = days_before_year y + (if leap y then 366 else 365)"
proof -
  assume "1 \<le> y"
  then obtain p where y: "y = Suc p" by (cases y) auto
  have step: "Suc p div k = (if k dvd Suc p then Suc (p div k) else p div k)" for k
    by (simp add: div_Suc dvd_eq_mod_eq_0)
  show ?thesis
    by (auto simp: y days_before_year_def leap_def Let_def step)
qed

lemma days_before_year_mono:
  assumes "1 \<le> y" "y < z"
  shows "days_before_year y + int (days_before_month y 13) \<le> days_before_year z"
  using assms(2)
proof (induction z)
  case (Suc z)
  show ?case
  proof (cases "y = z")
    case True
    then show ?thesis using assms(1) year_step [of y] by (simp add: year_length)
  next
    case False
    then have "days_before_year y + int (days_before_month y 13) \<le> days_before_year z" using Suc by simp
    then show ?thesis using year_step [of z] Suc.prems assms(1) by (simp split: if_splits)
  qed
qed simp

lemma toordinal_less:
  assumes "calendar_date a" "calendar_date b" "a < b"
  shows "toordinal a < toordinal b"
proof -
  obtain y m d y' m' d' where ab: "a = Date y m d" "b = Date y' m' d'" by (cases a; cases b)
  have ok: "1 \<le> y" "1 \<le> m" "m \<le> 12" "d \<le> days_in_month y m" "1 \<le> d'"
    using assms(1,2) by (simp_all add: ab calendar_date_def)
  consider "y < y'" | "y = y'" "m < m'" | "y = y'" "m = m'" "d < d'"
    using assms(3) by (auto simp: ab less_date_def)
  then show ?thesis
  proof cases
    case 1
    have "days_before_month y m + d \<le> days_before_month y 13" using ok month_ends [of m d y 13] by simp
    then show ?thesis using days_before_year_mono [OF ok(1) 1] ok(5) by (simp add: ab toordinal_def)
  next
    case 2
    then show ?thesis using ok month_ends [of m d y m'] by (simp add: ab toordinal_def)
  qed (simp add: ab toordinal_def)
qed

lemma stamp_time_less:
  assumes "valid_stamp a" "valid_stamp b"
  shows "stamp_time a < stamp_time b \<longleftrightarrow> a < b"
proof -
  have less: "stamp_time x < stamp_time y" if "valid_stamp x" "valid_stamp y" "x < y" for x y
  proof (cases "fst x = fst y")
    case True
    then show ?thesis using that(3) by (auto simp: stamp_time_def less_prod_def)
  next
    case False
    then have "toordinal (fst x) + 1 \<le> toordinal (fst y)"
      using that toordinal_less [of "fst x" "fst y"] by (auto simp: valid_stamp_def less_prod_def le_less)
    then have "(toordinal (fst x) + 1 - 719163) * int day_microseconds \<le> (toordinal (fst y) - 719163) * int day_microseconds"
      by (intro mult_right_mono) simp_all
    then show ?thesis using that(1) by (simp add: stamp_time_def valid_stamp_def algebra_simps)
  qed
  show ?thesis using less [OF assms] less [OF assms(2,1)] by (cases a b rule: linorder_cases) auto
qed

end
