(* ===== verification/AiCallEvents.thy ===== *)
theory AiCallEvents
  imports Outbox Timestamps AiPricing "HOL-Library.Monad_Syntax"
begin

text \<open>
  \<open>app/ai/events.py\<close>: the three events of a provider call (started, completed, late completion) in their
  two versions, the strict validation of an event document and the invariants of an event chain. A document
  is a Python dictionary with text keys, each key once; of numbers it holds integers and, as the JSON
  reader makes them, decimals. Whatever is wrong with a document, the caller sees one fixed error. An event
  is immutable, and a validated one is typed: version 1 and 2 differ in the cost they carry.
\<close>

type_synonym py_dict = "(string \<times> pyval) list"

section \<open>Fields\<close>

text \<open>A field is read from a document's value and printed back; what was read is read again after printing.\<close>

locale field_codec =
  fixes rd :: "pyval \<Rightarrow> 'a option" and pr :: "'a \<Rightarrow> pyval"
  assumes again: "rd v = Some x \<Longrightarrow> rd (pr x) = Some x"
    and no_null: "rd PyNone = None"
begin

lemma printed_not_null: "rd v = Some x \<Longrightarrow> pr x \<noteq> PyNone"
  using again no_null by fastforce

end

named_theorems codec_again \<open>a field that was read is read again after printing\<close>

definition text_field :: "(pystr \<Rightarrow> 'a option) \<Rightarrow> pyval \<Rightarrow> 'a option" where
  "text_field reader v = (case v of PyStr s \<Rightarrow> reader s | _ \<Rightarrow> None)"

definition null_field :: "(pyval \<Rightarrow> 'a option) \<Rightarrow> pyval \<Rightarrow> 'a option option" where
  "null_field f v = (case v of PyNone \<Rightarrow> Some None | _ \<Rightarrow> map_option Some (f v))"

definition null_value :: "('a \<Rightarrow> pyval) \<Rightarrow> 'a option \<Rightarrow> pyval" where
  "null_value pr x = (case x of None \<Rightarrow> PyNone | Some y \<Rightarrow> pr y)"

lemma null_again:
  assumes "field_codec rd pr" "null_field rd v = Some x"
  shows "null_field rd (null_value pr x) = Some x"
proof (cases x)
  case None
  then show ?thesis by (simp add: null_field_def null_value_def)
next
  case (Some y)
  then have y: "rd v = Some y" using assms(2) by (auto simp: null_field_def split: pyval.splits)
  then have "rd (pr y) = Some y" "pr y \<noteq> PyNone"
    using field_codec.again [OF assms(1)] field_codec.printed_not_null [OF assms(1)] by blast+
  then show ?thesis by (cases "pr y") (simp_all add: Some null_field_def null_value_def)
qed

lemma text_codec:
  assumes "canonical_text render reader ok"
  shows "field_codec (text_field reader) (\<lambda>x. PyStr (render x))"
proof
  fix v x assume "text_field reader v = Some x"
  then obtain s where "reader s = Some x" by (auto simp: text_field_def split: pyval.splits)
  then have "reader (render x) = Some x"
    using canonical_text.render_read [OF assms] canonical_text.read_render [OF assms] by blast
  then show "text_field reader (PyStr (render x)) = Some x" by (simp add: text_field_def)
qed (simp add: text_field_def)

subsection \<open>Text\<close>

definition shaped :: "nat \<Rightarrow> (nat \<Rightarrow> bool) \<Rightarrow> (nat \<Rightarrow> bool) \<Rightarrow> pystr \<Rightarrow> pystr option" where
  "shaped n first rest s =
     (if s \<noteq> [] \<and> length s \<le> n \<and> first (hd s) \<and> list_all rest (tl s) then Some s else None)"

definition is_upper :: "nat \<Rightarrow> bool" where "is_upper c \<longleftrightarrow> 65 \<le> c \<and> c \<le> 90"
definition is_lower :: "nat \<Rightarrow> bool" where "is_lower c \<longleftrightarrow> 97 \<le> c \<and> c \<le> 122"

definition is_alnum :: "nat \<Rightarrow> bool" where
  "is_alnum c \<longleftrightarrow> is_upper c \<or> is_lower c \<or> is_decimal_digit c"

definition among :: "string \<Rightarrow> nat \<Rightarrow> bool" where "among cs c \<longleftrightarrow> c \<in> set (lit cs)"

definition sha256_text :: "pystr \<Rightarrow> pystr option" where
  "sha256_text s = (if length s = 64 \<and> list_all is_lower_hex s then Some s else None)"

definition safe_text :: "pystr \<Rightarrow> pystr option" where
  "safe_text = shaped 200 is_alnum (\<lambda>c. is_alnum c \<or> among ''._:/-'' c)"

definition resource_type_text :: "pystr \<Rightarrow> pystr option" where
  "resource_type_text = shaped 60 (\<lambda>c. 33 \<le> c \<and> c \<le> 126) (\<lambda>c. 33 \<le> c \<and> c \<le> 126)"

definition endpoint_text :: "pystr \<Rightarrow> pystr option" where
  "endpoint_text = shaped 100 is_alnum (\<lambda>c. is_alnum c \<or> among ''._:-'' c)"

definition pricing_version_text :: "pystr \<Rightarrow> pystr option" where
  "pricing_version_text = shaped 80 is_alnum (\<lambda>c. is_alnum c \<or> among ''._:-'' c)"

text \<open>Any text but a lone surrogate, which neither UTF-8 nor the canonical JSON can carry.\<close>

definition is_scalar :: "nat \<Rightarrow> bool" where "is_scalar c \<longleftrightarrow> \<not> (55296 \<le> c \<and> c \<le> 57343) \<and> c < 1114112"

definition model_id_text :: "pystr \<Rightarrow> pystr option" where
  "model_id_text = shaped 200 is_scalar is_scalar"

definition safe_error_text :: "pystr \<Rightarrow> pystr option" where
  "safe_error_text = shaped 80 is_upper (\<lambda>c. is_upper c \<or> is_decimal_digit c \<or> c = 95)"

definition citation_text :: "pystr \<Rightarrow> pystr option" where
  "citation_text = shaped 30 is_lower (\<lambda>c. is_lower c \<or> is_decimal_digit c \<or> c = 95)"

lemmas text_shape_defs = sha256_text_def safe_text_def resource_type_text_def endpoint_text_def
  pricing_version_text_def model_id_text_def safe_error_text_def citation_text_def shaped_def

text \<open>Text that is checked but not converted is its own printed form.\<close>

lemma checked_text:
  assumes "\<And>s x. reader s = Some x \<Longrightarrow> x = s"
  shows "canonical_text (\<lambda>s. s) reader (\<lambda>s. reader s \<noteq> None)"
  by unfold_locales (use assms in fastforce)+

interpretation sha: field_codec "text_field sha256_text" PyStr
  by (rule text_codec [OF checked_text]) (simp add: text_shape_defs split: if_splits)
interpretation safe: field_codec "text_field safe_text" PyStr
  by (rule text_codec [OF checked_text]) (simp add: text_shape_defs split: if_splits)
interpretation resource: field_codec "text_field resource_type_text" PyStr
  by (rule text_codec [OF checked_text]) (simp add: text_shape_defs split: if_splits)
interpretation endpoint: field_codec "text_field endpoint_text" PyStr
  by (rule text_codec [OF checked_text]) (simp add: text_shape_defs split: if_splits)
interpretation price_version: field_codec "text_field pricing_version_text" PyStr
  by (rule text_codec [OF checked_text]) (simp add: text_shape_defs split: if_splits)
interpretation model: field_codec "text_field model_id_text" PyStr
  by (rule text_codec [OF checked_text]) (simp add: text_shape_defs split: if_splits)
interpretation error_code: field_codec "text_field safe_error_text" PyStr
  by (rule text_codec [OF checked_text]) (simp add: text_shape_defs split: if_splits)
interpretation citation: field_codec "text_field citation_text" PyStr
  by (rule text_codec [OF checked_text]) (simp add: text_shape_defs split: if_splits)
interpretation uuid_value: field_codec "text_field read_uuid" "\<lambda>u. PyStr (uuid_str u)"
  by (rule text_codec [OF uuid_text.canonical_text_axioms])

subsection \<open>Choices\<close>

text \<open>A choice of texts is a table from the values to their texts.\<close>

definition text_in :: "('a \<times> pystr) list \<Rightarrow> 'a \<Rightarrow> pystr" where
  "text_in table x = the (map_of table x)"

definition value_in :: "('a \<times> pystr) list \<Rightarrow> pystr \<Rightarrow> 'a option" where
  "value_in table s = map_option fst (List.find (\<lambda>e. snd e = s) table)"

lemma table_text:
  assumes "distinct (map fst table)" "distinct (map snd table)"
  shows "canonical_text (text_in table) (value_in table) (\<lambda>x. x \<in> fst ` set table)"
proof
  fix x assume "x \<in> fst ` set table"
  then obtain s where s: "(x, s) \<in> set table" by auto
  then have "text_in table x = s" using assms(1) by (simp add: text_in_def)
  moreover have "List.find (\<lambda>e. snd e = s) table = Some (x, s)"
    using s assms(2) by (induction table) (auto simp: rev_image_eqI)
  ultimately show "value_in table (text_in table x) = Some x" by (simp add: value_in_def)
next
  fix s x assume "value_in table s = Some x"
  then have "(x, s) \<in> set table" by (induction table) (auto simp: value_in_def split: if_splits)
  then show "x \<in> fst ` set table \<and> text_in table x = s"
    using assms(1) by (force simp: text_in_def)
qed

datatype call_type = CONTRACT_FIELD_EXTRACTION | EMBEDDING_CALL | INVOICE_FIELD_EXTRACTION | RAG_ANSWER
  | REPORT_DRAFT | RISK_EXPLANATION

datatype adapter = CHAT_COMPLETIONS_V1 | EMBEDDINGS_V1

datatype breaker_state = BREAKER_CLOSED | BREAKER_HALF_OPEN | BREAKER_IS_OPEN

datatype call_status = CALL_PENDING | CALL_SUCCEEDED | CALL_FAILED | CALL_DEGRADED | CALL_REJECTED
  | CALL_OUTCOME_UNKNOWN

datatype error_category = CLIENT_ERROR | CONTENT_REJECTED | CONTEXT_LIMIT | INVALID_RESPONSE
  | OUTPUT_TRUNCATED | PROVIDER_CONFIGURATION_ERROR | RATE_LIMITED | SERVER_ERROR | TRANSIENT

definition call_types :: "(call_type \<times> pystr) list" where
  "call_types = [(CONTRACT_FIELD_EXTRACTION, lit ''contract_field_extraction''),
     (EMBEDDING_CALL, lit ''embedding''), (INVOICE_FIELD_EXTRACTION, lit ''invoice_field_extraction''),
     (RAG_ANSWER, lit ''rag_answer''), (REPORT_DRAFT, lit ''report_draft''),
     (RISK_EXPLANATION, lit ''risk_explanation'')]"

definition adapters :: "(adapter \<times> pystr) list" where
  "adapters = [(CHAT_COMPLETIONS_V1, lit ''openai_chat_completions_v1''),
     (EMBEDDINGS_V1, lit ''openai_embeddings_v1'')]"

definition breaker_states :: "(breaker_state \<times> pystr) list" where
  "breaker_states = [(BREAKER_CLOSED, lit ''closed''), (BREAKER_HALF_OPEN, lit ''half_open''),
     (BREAKER_IS_OPEN, lit ''open'')]"

text \<open>The statuses of a completed event; those of a late completion leave out the last.\<close>

definition observed_statuses :: "(call_status \<times> pystr) list" where
  "observed_statuses = [(CALL_SUCCEEDED, lit ''succeeded''), (CALL_FAILED, lit ''failed''),
     (CALL_DEGRADED, lit ''degraded''), (CALL_REJECTED, lit ''rejected'')]"

definition completed_statuses :: "(call_status \<times> pystr) list" where
  "completed_statuses = observed_statuses @ [(CALL_OUTCOME_UNKNOWN, lit ''outcome_unknown'')]"

definition error_categories :: "(error_category \<times> pystr) list" where
  "error_categories = [(CLIENT_ERROR, lit ''client_error''), (CONTENT_REJECTED, lit ''content_rejected''),
     (CONTEXT_LIMIT, lit ''context_limit''), (INVALID_RESPONSE, lit ''invalid_response''),
     (OUTPUT_TRUNCATED, lit ''output_truncated''),
     (PROVIDER_CONFIGURATION_ERROR, lit ''provider_configuration_error''),
     (RATE_LIMITED, lit ''rate_limited''), (SERVER_ERROR, lit ''server_error''),
     (TRANSIENT, lit ''transient'')]"

definition currencies :: "(cost_currency \<times> pystr) list" where
  "currencies = [(USD, lit ''USD''), (CNY, lit ''CNY'')]"

lemmas choice_defs = call_types_def adapters_def breaker_states_def completed_statuses_def
  observed_statuses_def error_categories_def currencies_def

abbreviation choice :: "('a \<times> pystr) list \<Rightarrow> pyval \<Rightarrow> 'a option" where
  "choice table \<equiv> text_field (value_in table)"

abbreviation chosen :: "('a \<times> pystr) list \<Rightarrow> 'a \<Rightarrow> pyval" where
  "chosen table x \<equiv> PyStr (text_in table x)"

interpretation call_type: field_codec "choice call_types" "chosen call_types"
  by (rule text_codec [OF table_text]) (simp_all add: choice_defs)
interpretation adapter: field_codec "choice adapters" "chosen adapters"
  by (rule text_codec [OF table_text]) (simp_all add: choice_defs)
interpretation breaker: field_codec "choice breaker_states" "chosen breaker_states"
  by (rule text_codec [OF table_text]) (simp_all add: choice_defs)
interpretation observed: field_codec "choice observed_statuses" "chosen observed_statuses"
  by (rule text_codec [OF table_text]) (simp_all add: choice_defs)
interpretation completed: field_codec "choice completed_statuses" "chosen completed_statuses"
  by (rule text_codec [OF table_text]) (simp_all add: choice_defs)
interpretation category: field_codec "choice error_categories" "chosen error_categories"
  by (rule text_codec [OF table_text]) (simp_all add: choice_defs)
interpretation currency: field_codec "choice currencies" "chosen currencies"
  by (rule text_codec [OF table_text]) (simp_all add: choice_defs)

subsection \<open>Numbers\<close>

definition max_safe_integer :: int where "max_safe_integer = 9007199254740991"

definition integral_value :: "decimal \<Rightarrow> int option" where
  "integral_value d = (case d of
     Finite s c e \<Rightarrow>
       let sign = (if s then - 1 else 1) in
       if 0 \<le> e then Some (sign * int c * 10 ^ nat e)
       else if 10 ^ nat (- e) dvd c then Some (sign * int (c div 10 ^ nat (- e))) else None
   | _ \<Rightarrow> None)"

text \<open>\<open>_normalize_mathematical_integer\<close>, \<open>_normalize_positive_integer\<close> and \<open>_normalize_http_status\<close>.\<close>

definition safe_integer :: "int \<Rightarrow> int option" where
  "safe_integer n = (if 0 \<le> n \<and> n \<le> max_safe_integer then Some n else None)"

definition count_field :: "pyval \<Rightarrow> int option" where
  "count_field v = (case v of
     PyInt n \<Rightarrow> safe_integer n
   | PyDecimal d \<Rightarrow> Option.bind (integral_value d) safe_integer
   | _ \<Rightarrow> None)"

definition positive_field :: "pyval \<Rightarrow> int option" where
  "positive_field v = (case count_field v of Some n \<Rightarrow> if n = 0 then None else Some n | None \<Rightarrow> None)"

definition http_field :: "pyval \<Rightarrow> int option" where
  "http_field v = (case count_field v of Some n \<Rightarrow> if 100 \<le> n \<and> n \<le> 599 then Some n else None | None \<Rightarrow> None)"

definition bool_field :: "pyval \<Rightarrow> bool option" where
  "bool_field v = (case v of PyBool b \<Rightarrow> Some b | _ \<Rightarrow> None)"

lemma count_again: "count_field v = Some n \<Longrightarrow> count_field (PyInt n) = Some n"
  by (auto simp: count_field_def safe_integer_def bind_eq_Some_conv split: pyval.splits if_splits)

lemma count_bounds: "count_field v = Some n \<Longrightarrow> 0 \<le> n \<and> n \<le> max_safe_integer"
  by (auto simp: count_field_def safe_integer_def bind_eq_Some_conv split: pyval.splits if_splits)

interpretation count: field_codec count_field PyInt
  by unfold_locales (simp_all add: count_again, simp add: count_field_def)
interpretation positive: field_codec positive_field PyInt
  by unfold_locales
    (auto simp: positive_field_def dest: count_again split: option.splits if_splits, simp add: count_field_def)
interpretation http: field_codec http_field PyInt
  by unfold_locales
    (auto simp: http_field_def dest: count_again split: option.splits if_splits, simp add: count_field_def)
interpretation flag: field_codec bool_field PyBool
  by unfold_locales (simp_all add: bool_field_def)

interpretation time_field: field_codec "text_field read_stamp" "\<lambda>t. PyStr (stamp_text t)"
  by (rule text_codec [OF stamp.canonical_text_axioms])

section \<open>Events\<close>

text \<open>What links the events of a call.\<close>

record call_correlation =
  cc_event_id :: uuid
  cc_organization_id :: uuid
  cc_operation_id :: uuid
  cc_job_id :: "uuid option"
  cc_request_id :: "uuid option"
  cc_trace_id :: uuid
  cc_policy_version :: int
  cc_policy_hash :: pystr

text \<open>Version 1 reserves micro dollars; version 2 a currency and its millionths.\<close>

datatype reserved_cost = MicroUsd int | Microunits "cost_currency option" int

record started_event =
  st_call :: call_correlation
  st_resource_type :: "pystr option"
  st_resource_id :: "uuid option"
  st_call_type :: call_type
  st_generation_no :: int
  st_attempt_no :: int
  st_adapter :: adapter
  st_endpoint_id :: pystr
  st_model_id :: pystr
  st_model_version :: "pystr option"
  st_prompt_id :: "pystr option"
  st_prompt_version :: "pystr option"
  st_prompt_hash :: "pystr option"
  st_schema_version :: "pystr option"
  st_pricing_version :: pystr
  st_input_hash :: pystr
  st_input_tokens :: int
  st_output_tokens :: int
  st_cost :: reserved_cost
  st_attempt_count :: int
  st_is_fallback :: bool
  st_breaker_state :: "breaker_state option"
  st_started_at :: stamp

text \<open>The cost of a completed event of version 2: the currency and what was paid, if that is known.\<close>

record completed_event =
  co_call :: call_correlation
  co_cost :: "(cost_currency option \<times> int option) option"
  co_status :: call_status
  co_completed_at :: stamp
  co_duration_ms :: int
  co_output_hash :: "pystr option"
  co_input_tokens :: "int option"
  co_output_tokens :: "int option"
  co_vector_count :: "int option"
  co_http_status :: "int option"
  co_error_category :: "error_category option"
  co_safe_error :: "pystr option"
  co_citation_status :: "pystr option"

text \<open>A field of a late completion may be left out (\<open>None\<close>), be null (\<open>Some None\<close>) or hold a value.\<close>

record late_event =
  la_call :: call_correlation
  la_cost :: "(cost_currency option \<times> int option option) option"
  la_status :: call_status
  la_completed_at :: stamp
  la_duration_ms :: "int option option"
  la_output_hash :: "pystr option option"
  la_input_tokens :: "int option option"
  la_output_tokens :: "int option option"
  la_vector_count :: "int option option"
  la_http_status :: "int option option"
  la_error_category :: "error_category option option"
  la_safe_error :: "pystr option option"

datatype ai_call_event = Started started_event | Completed completed_event | Late late_event

fun event_call :: "ai_call_event \<Rightarrow> call_correlation" where
  "event_call (Started s) = st_call s"
| "event_call (Completed c) = co_call c"
| "event_call (Late l) = la_call l"

definition started_version :: "started_event \<Rightarrow> int" where
  "started_version s = (case st_cost s of MicroUsd _ \<Rightarrow> 1 | Microunits _ _ \<Rightarrow> 2)"

fun event_version_of :: "ai_call_event \<Rightarrow> int" where
  "event_version_of (Started s) = started_version s"
| "event_version_of (Completed c) = (if co_cost c = None then 1 else 2)"
| "event_version_of (Late l) = (if la_cost l = None then 1 else 2)"

fun event_sequence_of :: "ai_call_event \<Rightarrow> int" where
  "event_sequence_of (Started s) = 1"
| "event_sequence_of (Completed c) = 2"
| "event_sequence_of (Late l) = 3"

fun event_type_of :: "ai_call_event \<Rightarrow> string" where
  "event_type_of (Started s) = ''ai.call.started''"
| "event_type_of (Completed c) = ''ai.call.completed''"
| "event_type_of (Late l) = ''ai.call.late_completion''"

section \<open>Documents\<close>

subsection \<open>Reading\<close>

definition fld :: "py_dict \<Rightarrow> string \<Rightarrow> (pyval \<Rightarrow> 'a option) \<Rightarrow> 'a option" where
  "fld d k f = (case map_of d k of None \<Rightarrow> None | Some v \<Rightarrow> f v)"

definition opt_fld :: "py_dict \<Rightarrow> string \<Rightarrow> (pyval \<Rightarrow> 'a option) \<Rightarrow> 'a option option option" where
  "opt_fld d k f = (case map_of d k of None \<Rightarrow> Some None | Some v \<Rightarrow> map_option Some (null_field f v))"

definition accept :: "('a \<Rightarrow> bool) \<Rightarrow> 'a \<Rightarrow> 'a option" where
  "accept ok x = (if ok x then Some x else None)"

lemma accept_Some [simp]: "accept ok x = Some y \<longleftrightarrow> ok x \<and> y = x"
  by (auto simp: accept_def)

abbreviation uuid_field :: "pyval \<Rightarrow> uuid option" where "uuid_field \<equiv> text_field read_uuid"
abbreviation stamp_field :: "pyval \<Rightarrow> stamp option" where "stamp_field \<equiv> text_field read_stamp"

text \<open>\<open>extra="forbid"\<close> and the required fields.\<close>

definition closed_document :: "string list \<Rightarrow> string list \<Rightarrow> py_dict \<Rightarrow> bool" where
  "closed_document required optional_names d \<longleftrightarrow>
     list_all (\<lambda>k. map_of d k \<noteq> None) required
     \<and> list_all (\<lambda>(k, _). k \<in> set required \<or> k \<in> set optional_names) d"

definition envelope_fields :: "string list" where
  "envelope_fields = [''event_id'', ''event_version'', ''event_sequence'', ''event_type'',
     ''aggregate_type'', ''aggregate_id'']"

definition correlation_fields :: "string list" where
  "correlation_fields = [''organization_id'', ''business_operation_id'', ''job_id'', ''request_id'',
     ''trace_id'', ''policy_version'', ''policy_hash'']"

text \<open>The literals of the envelope and \<open>validate_envelope\<close>.\<close>

definition envelope_valid :: "int \<Rightarrow> int \<Rightarrow> string \<Rightarrow> py_dict \<Rightarrow> bool" where
  "envelope_valid version sequence name d \<longleftrightarrow>
     fld d ''event_version'' positive_field = Some version
     \<and> fld d ''event_sequence'' positive_field = Some sequence
     \<and> map_of d ''event_type'' = Some (PyStr (lit name))
     \<and> map_of d ''aggregate_type'' = Some (PyStr (lit ''ai_call''))
     \<and> fld d ''aggregate_id'' uuid_field = fld d ''event_id'' uuid_field"

definition read_correlation :: "py_dict \<Rightarrow> call_correlation option" where
  "read_correlation d = do {
     event \<leftarrow> fld d ''event_id'' uuid_field;
     organization \<leftarrow> fld d ''organization_id'' uuid_field;
     operation \<leftarrow> fld d ''business_operation_id'' uuid_field;
     job \<leftarrow> fld d ''job_id'' (null_field uuid_field);
     request \<leftarrow> fld d ''request_id'' (null_field uuid_field);
     trace \<leftarrow> fld d ''trace_id'' uuid_field;
     version \<leftarrow> fld d ''policy_version'' positive_field;
     hash \<leftarrow> fld d ''policy_hash'' (text_field sha256_text);
     Some \<lparr>cc_event_id = event, cc_organization_id = organization, cc_operation_id = operation,
       cc_job_id = job, cc_request_id = request, cc_trace_id = trace, cc_policy_version = version,
       cc_policy_hash = hash\<rparr> }"

definition read_reserved_cost :: "int \<Rightarrow> py_dict \<Rightarrow> reserved_cost option" where
  "read_reserved_cost version d =
     (if version = 1 then map_option MicroUsd (fld d ''reserved_cost_micro_usd'' count_field)
      else do {
        currency \<leftarrow> fld d ''cost_currency'' (null_field (choice currencies));
        units \<leftarrow> fld d ''reserved_cost_microunits'' count_field;
        Some (Microunits currency units) })"

definition started_fields :: "int \<Rightarrow> string list" where
  "started_fields version = envelope_fields @ correlation_fields @
     [''resource_type'', ''resource_id'', ''call_type'', ''logical_generation_no'', ''provider_attempt_no'',
      ''adapter_id'', ''endpoint_id'', ''model_id'', ''model_version'', ''prompt_id'', ''prompt_version'',
      ''prompt_hash'', ''schema_version'', ''pricing_version'', ''input_hash'', ''reserved_input_tokens'',
      ''reserved_output_tokens'', ''attempt_count'', ''is_fallback'', ''breaker_state'', ''status'',
      ''started_at''] @
     (if version = 1 then [''reserved_cost_micro_usd''] else [''cost_currency'', ''reserved_cost_microunits''])"

text \<open>\<open>validate_started_contract\<close> of both versions.\<close>

definition started_contract :: "started_event \<Rightarrow> bool" where
  "started_contract s \<longleftrightarrow>
     st_attempt_count s = st_attempt_no s
     \<and> (case st_cost s of Microunits None n \<Rightarrow> n = 0 | _ \<Rightarrow> True)
     \<and> (if st_call_type s = EMBEDDING_CALL
        then st_adapter s = EMBEDDINGS_V1 \<and> st_prompt_id s = None \<and> st_prompt_version s = None
          \<and> st_prompt_hash s = None \<and> st_schema_version s = None
        else st_adapter s = CHAT_COMPLETIONS_V1 \<and> st_prompt_id s \<noteq> None \<and> st_prompt_version s \<noteq> None
          \<and> st_prompt_hash s \<noteq> None)"

definition read_started :: "int \<Rightarrow> py_dict \<Rightarrow> started_event option" where
  "read_started version d =
     (if \<not> (closed_document (started_fields version) [] d \<and> envelope_valid version 1 ''ai.call.started'' d
        \<and> map_of d ''status'' = Some (PyStr (lit ''pending''))) then None
      else do {
        call \<leftarrow> read_correlation d;
        resource_type \<leftarrow> fld d ''resource_type'' (null_field (text_field resource_type_text));
        resource_id \<leftarrow> fld d ''resource_id'' (null_field uuid_field);
        call_type \<leftarrow> fld d ''call_type'' (choice call_types);
        generation \<leftarrow> fld d ''logical_generation_no'' positive_field;
        attempt \<leftarrow> fld d ''provider_attempt_no'' positive_field;
        adapter \<leftarrow> fld d ''adapter_id'' (choice adapters);
        endpoint \<leftarrow> fld d ''endpoint_id'' (text_field endpoint_text);
        model \<leftarrow> fld d ''model_id'' (text_field model_id_text);
        model_version \<leftarrow> fld d ''model_version'' (null_field (text_field safe_text));
        prompt_id \<leftarrow> fld d ''prompt_id'' (null_field (text_field safe_text));
        prompt_version \<leftarrow> fld d ''prompt_version'' (null_field (text_field safe_text));
        prompt_hash \<leftarrow> fld d ''prompt_hash'' (null_field (text_field sha256_text));
        schema_version \<leftarrow> fld d ''schema_version'' (null_field (text_field safe_text));
        price \<leftarrow> fld d ''pricing_version'' (text_field pricing_version_text);
        input_hash \<leftarrow> fld d ''input_hash'' (text_field sha256_text);
        input_tokens \<leftarrow> fld d ''reserved_input_tokens'' count_field;
        output_tokens \<leftarrow> fld d ''reserved_output_tokens'' count_field;
        cost \<leftarrow> read_reserved_cost version d;
        attempts \<leftarrow> fld d ''attempt_count'' positive_field;
        fallback \<leftarrow> fld d ''is_fallback'' bool_field;
        breaker \<leftarrow> fld d ''breaker_state'' (null_field (choice breaker_states));
        started \<leftarrow> fld d ''started_at'' stamp_field;
        accept started_contract \<lparr>st_call = call, st_resource_type = resource_type, st_resource_id = resource_id,
          st_call_type = call_type, st_generation_no = generation, st_attempt_no = attempt,
          st_adapter = adapter, st_endpoint_id = endpoint, st_model_id = model,
          st_model_version = model_version, st_prompt_id = prompt_id, st_prompt_version = prompt_version,
          st_prompt_hash = prompt_hash, st_schema_version = schema_version, st_pricing_version = price,
          st_input_hash = input_hash, st_input_tokens = input_tokens, st_output_tokens = output_tokens,
          st_cost = cost, st_attempt_count = attempts, st_is_fallback = fallback,
          st_breaker_state = breaker, st_started_at = started\<rparr> })"

definition read_actual_cost :: "int \<Rightarrow> py_dict \<Rightarrow> (cost_currency option \<times> int option) option option" where
  "read_actual_cost version d =
     (if version = 1 then Some None
      else do {
        currency \<leftarrow> fld d ''cost_currency'' (null_field (choice currencies));
        units \<leftarrow> fld d ''actual_cost_microunits'' (null_field count_field);
        Some (Some (currency, units)) })"

definition completed_fields :: "int \<Rightarrow> string list" where
  "completed_fields version = envelope_fields @ correlation_fields @
     [''status'', ''completed_at'', ''duration_ms'', ''output_hash'', ''input_tokens'', ''output_tokens'',
      ''vector_count'', ''http_status'', ''error_category'', ''safe_error_code'',
      ''citation_validation_status''] @
     (if version = 1 then [] else [''cost_currency'', ''actual_cost_microunits''])"

text \<open>\<open>validate_status_matrix\<close> of both versions. An unmetered call costs nothing.\<close>

definition unmetered_free :: "(cost_currency option \<times> int option) option \<Rightarrow> bool" where
  "unmetered_free cost = (case cost of Some (None, Some n) \<Rightarrow> n = 0 | _ \<Rightarrow> True)"

definition cost_known :: "(cost_currency option \<times> int option) option \<Rightarrow> bool" where
  "cost_known cost = (case cost of Some (_, units) \<Rightarrow> units \<noteq> None | None \<Rightarrow> True)"

definition cost_unknown :: "(cost_currency option \<times> int option) option \<Rightarrow> bool" where
  "cost_unknown cost = (case cost of Some (_, units) \<Rightarrow> units = None | None \<Rightarrow> True)"

definition status_matrix :: "completed_event \<Rightarrow> bool" where
  "status_matrix c \<longleftrightarrow> unmetered_free (co_cost c) \<and>
     (if co_status c = CALL_SUCCEEDED
      then co_output_hash c \<noteq> None \<and> co_input_tokens c \<noteq> None \<and> co_output_tokens c \<noteq> None
        \<and> co_http_status c = Some 200 \<and> co_error_category c = None \<and> co_safe_error c = None
        \<and> cost_known (co_cost c)
      else if co_status c = CALL_OUTCOME_UNKNOWN
      then co_output_hash c = None \<and> co_input_tokens c = None \<and> co_output_tokens c = None
        \<and> co_vector_count c = None \<and> co_http_status c = None \<and> co_error_category c = None
        \<and> co_citation_status c = None \<and> cost_unknown (co_cost c)
        \<and> co_safe_error c = Some (lit ''AI_OUTCOME_UNKNOWN'')
      else co_error_category c \<noteq> None \<and> co_safe_error c \<noteq> None
        \<and> (co_status c = CALL_FAILED \<longrightarrow> co_citation_status c = None))"

definition read_completed :: "int \<Rightarrow> py_dict \<Rightarrow> completed_event option" where
  "read_completed version d =
     (if \<not> (closed_document (completed_fields version) [] d
        \<and> envelope_valid version 2 ''ai.call.completed'' d) then None
      else do {
        call \<leftarrow> read_correlation d;
        cost \<leftarrow> read_actual_cost version d;
        status \<leftarrow> fld d ''status'' (choice completed_statuses);
        completed \<leftarrow> fld d ''completed_at'' stamp_field;
        duration \<leftarrow> fld d ''duration_ms'' count_field;
        output_hash \<leftarrow> fld d ''output_hash'' (null_field (text_field sha256_text));
        input_tokens \<leftarrow> fld d ''input_tokens'' (null_field count_field);
        output_tokens \<leftarrow> fld d ''output_tokens'' (null_field count_field);
        vectors \<leftarrow> fld d ''vector_count'' (null_field count_field);
        http_status \<leftarrow> fld d ''http_status'' (null_field http_field);
        category \<leftarrow> fld d ''error_category'' (null_field (choice error_categories));
        safe_error \<leftarrow> fld d ''safe_error_code'' (null_field (text_field safe_error_text));
        citation \<leftarrow> fld d ''citation_validation_status'' (null_field (text_field citation_text));
        accept status_matrix \<lparr>co_call = call, co_cost = cost, co_status = status, co_completed_at = completed,
          co_duration_ms = duration, co_output_hash = output_hash, co_input_tokens = input_tokens,
          co_output_tokens = output_tokens, co_vector_count = vectors, co_http_status = http_status,
          co_error_category = category, co_safe_error = safe_error, co_citation_status = citation\<rparr> })"

definition read_late_cost :: "int \<Rightarrow> py_dict \<Rightarrow> (cost_currency option \<times> int option option) option option" where
  "read_late_cost version d =
     (if version = 1 then Some None
      else do {
        currency \<leftarrow> fld d ''cost_currency'' (null_field (choice currencies));
        units \<leftarrow> opt_fld d ''actual_cost_microunits'' count_field;
        Some (Some (currency, units)) })"

definition late_fields :: "int \<Rightarrow> string list" where
  "late_fields version = envelope_fields @ correlation_fields @ [''observed_status'', ''provider_completed_at'']
     @ (if version = 1 then [] else [''cost_currency''])"

definition late_optional_fields :: "int \<Rightarrow> string list" where
  "late_optional_fields version =
     [''duration_ms'', ''output_hash'', ''input_tokens'', ''output_tokens'', ''vector_count'',
      ''http_status'', ''error_category'', ''safe_error_code''] @
     (if version = 1 then [] else [''actual_cost_microunits''])"

text \<open>\<open>validate_cost_matrix\<close>; a field that was left out reads as null.\<close>

definition late_paid :: "late_event \<Rightarrow> (cost_currency option \<times> int option) option" where
  "late_paid l = map_option (\<lambda>(currency, units). (currency, Option.bind units id)) (la_cost l)"

definition cost_matrix :: "late_event \<Rightarrow> bool" where
  "cost_matrix l \<longleftrightarrow> unmetered_free (late_paid l) \<and> (la_status l = CALL_SUCCEEDED \<longrightarrow> cost_known (late_paid l))"

definition read_late :: "int \<Rightarrow> py_dict \<Rightarrow> late_event option" where
  "read_late version d =
     (if \<not> (closed_document (late_fields version) (late_optional_fields version) d
        \<and> envelope_valid version 3 ''ai.call.late_completion'' d) then None
      else do {
        call \<leftarrow> read_correlation d;
        cost \<leftarrow> read_late_cost version d;
        status \<leftarrow> fld d ''observed_status'' (choice observed_statuses);
        completed \<leftarrow> fld d ''provider_completed_at'' stamp_field;
        duration \<leftarrow> opt_fld d ''duration_ms'' count_field;
        output_hash \<leftarrow> opt_fld d ''output_hash'' (text_field sha256_text);
        input_tokens \<leftarrow> opt_fld d ''input_tokens'' count_field;
        output_tokens \<leftarrow> opt_fld d ''output_tokens'' count_field;
        vectors \<leftarrow> opt_fld d ''vector_count'' count_field;
        http_status \<leftarrow> opt_fld d ''http_status'' http_field;
        category \<leftarrow> opt_fld d ''error_category'' (choice error_categories);
        safe_error \<leftarrow> opt_fld d ''safe_error_code'' (text_field safe_error_text);
        accept cost_matrix \<lparr>la_call = call, la_cost = cost, la_status = status, la_completed_at = completed,
          la_duration_ms = duration, la_output_hash = output_hash, la_input_tokens = input_tokens,
          la_output_tokens = output_tokens, la_vector_count = vectors, la_http_status = http_status,
          la_error_category = category, la_safe_error = safe_error\<rparr> })"

text \<open>\<open>validate_ai_call_event_v1\<close> and \<open>_v2\<close>: the type of the event chooses the schema.\<close>

definition read_event :: "int \<Rightarrow> py_dict \<Rightarrow> ai_call_event option" where
  "read_event version d = (case map_of d ''event_type'' of
     Some (PyStr t) \<Rightarrow>
       if t = lit ''ai.call.started'' then map_option Started (read_started version d)
       else if t = lit ''ai.call.completed'' then map_option Completed (read_completed version d)
       else if t = lit ''ai.call.late_completion'' then map_option Late (read_late version d)
       else None
   | _ \<Rightarrow> None)"

definition event_error :: "'a result" where
  "event_error = Inl (ValueError ''AiCallEventV1 validation failed'')"

definition or_event_error :: "'a option \<Rightarrow> 'a result" where
  "or_event_error x = (case x of Some e \<Rightarrow> Inr e | None \<Rightarrow> event_error)"

definition validate_ai_call_event_v1 :: "py_dict \<Rightarrow> ai_call_event result" where
  "validate_ai_call_event_v1 d = or_event_error (read_event 1 d)"

definition validate_ai_call_event_v2 :: "py_dict \<Rightarrow> ai_call_event result" where
  "validate_ai_call_event_v2 d = or_event_error (read_event 2 d)"

definition validate_ai_call_event :: "py_dict \<Rightarrow> ai_call_event result" where
  "validate_ai_call_event d = (case map_of d ''event_version'' of
     Some (PyInt n) \<Rightarrow> if n = 1 then validate_ai_call_event_v1 d
       else if n = 2 then validate_ai_call_event_v2 d else event_error
   | _ \<Rightarrow> event_error)"

lemma or_event_error_ok [simp]: "or_event_error x = Inr e \<longleftrightarrow> x = Some e"
  by (simp add: or_event_error_def event_error_def split: option.splits)

subsection \<open>Printing\<close>

definition envelope_payload :: "ai_call_event \<Rightarrow> py_dict" where
  "envelope_payload e = (let c = event_call e in
     [(''event_id'', PyStr (uuid_str (cc_event_id c))), (''event_version'', PyInt (event_version_of e)),
      (''event_sequence'', PyInt (event_sequence_of e)), (''event_type'', PyStr (lit (event_type_of e))),
      (''aggregate_type'', PyStr (lit ''ai_call'')), (''aggregate_id'', PyStr (uuid_str (cc_event_id c))),
      (''organization_id'', PyStr (uuid_str (cc_organization_id c))),
      (''business_operation_id'', PyStr (uuid_str (cc_operation_id c))),
      (''job_id'', null_value (\<lambda>u. PyStr (uuid_str u)) (cc_job_id c)),
      (''request_id'', null_value (\<lambda>u. PyStr (uuid_str u)) (cc_request_id c)),
      (''trace_id'', PyStr (uuid_str (cc_trace_id c))), (''policy_version'', PyInt (cc_policy_version c)),
      (''policy_hash'', PyStr (cc_policy_hash c))])"

definition currency_value :: "cost_currency option \<Rightarrow> pyval" where
  "currency_value = null_value (chosen currencies)"

definition started_payload :: "started_event \<Rightarrow> py_dict" where
  "started_payload s = envelope_payload (Started s) @
     [(''resource_type'', null_value PyStr (st_resource_type s)),
      (''resource_id'', null_value (\<lambda>u. PyStr (uuid_str u)) (st_resource_id s)),
      (''call_type'', chosen call_types (st_call_type s)),
      (''logical_generation_no'', PyInt (st_generation_no s)),
      (''provider_attempt_no'', PyInt (st_attempt_no s)),
      (''adapter_id'', chosen adapters (st_adapter s)), (''endpoint_id'', PyStr (st_endpoint_id s)),
      (''model_id'', PyStr (st_model_id s)), (''model_version'', null_value PyStr (st_model_version s)),
      (''prompt_id'', null_value PyStr (st_prompt_id s)),
      (''prompt_version'', null_value PyStr (st_prompt_version s)),
      (''prompt_hash'', null_value PyStr (st_prompt_hash s)),
      (''schema_version'', null_value PyStr (st_schema_version s)),
      (''pricing_version'', PyStr (st_pricing_version s)), (''input_hash'', PyStr (st_input_hash s)),
      (''reserved_input_tokens'', PyInt (st_input_tokens s)),
      (''reserved_output_tokens'', PyInt (st_output_tokens s)),
      (''attempt_count'', PyInt (st_attempt_count s)), (''is_fallback'', PyBool (st_is_fallback s)),
      (''breaker_state'', null_value (chosen breaker_states) (st_breaker_state s)),
      (''status'', PyStr (lit ''pending'')), (''started_at'', PyStr (stamp_text (st_started_at s)))] @
     (case st_cost s of
        MicroUsd n \<Rightarrow> [(''reserved_cost_micro_usd'', PyInt n)]
      | Microunits currency n \<Rightarrow>
          [(''cost_currency'', currency_value currency), (''reserved_cost_microunits'', PyInt n)])"

definition completed_payload :: "completed_event \<Rightarrow> py_dict" where
  "completed_payload c = envelope_payload (Completed c) @
     [(''status'', chosen completed_statuses (co_status c)),
      (''completed_at'', PyStr (stamp_text (co_completed_at c))), (''duration_ms'', PyInt (co_duration_ms c)),
      (''output_hash'', null_value PyStr (co_output_hash c)),
      (''input_tokens'', null_value PyInt (co_input_tokens c)),
      (''output_tokens'', null_value PyInt (co_output_tokens c)),
      (''vector_count'', null_value PyInt (co_vector_count c)),
      (''http_status'', null_value PyInt (co_http_status c)),
      (''error_category'', null_value (chosen error_categories) (co_error_category c)),
      (''safe_error_code'', null_value PyStr (co_safe_error c)),
      (''citation_validation_status'', null_value PyStr (co_citation_status c))] @
     (case co_cost c of
        None \<Rightarrow> []
      | Some (currency, units) \<Rightarrow>
          [(''cost_currency'', currency_value currency),
           (''actual_cost_microunits'', null_value PyInt units)])"

definition given :: "string \<Rightarrow> ('a \<Rightarrow> pyval) \<Rightarrow> 'a option option \<Rightarrow> py_dict" where
  "given k pr x = (case x of None \<Rightarrow> [] | Some y \<Rightarrow> [(k, null_value pr y)])"

definition late_payload :: "late_event \<Rightarrow> py_dict" where
  "late_payload l = envelope_payload (Late l) @
     [(''observed_status'', chosen observed_statuses (la_status l)),
      (''provider_completed_at'', PyStr (stamp_text (la_completed_at l)))] @
     given ''duration_ms'' PyInt (la_duration_ms l) @ given ''output_hash'' PyStr (la_output_hash l) @
     given ''input_tokens'' PyInt (la_input_tokens l) @ given ''output_tokens'' PyInt (la_output_tokens l) @
     given ''vector_count'' PyInt (la_vector_count l) @ given ''http_status'' PyInt (la_http_status l) @
     given ''error_category'' (chosen error_categories) (la_error_category l) @
     given ''safe_error_code'' PyStr (la_safe_error l) @
     (case la_cost l of
        None \<Rightarrow> []
      | Some (currency, units) \<Rightarrow>
          (''cost_currency'', currency_value currency) # given ''actual_cost_microunits'' PyInt units)"

fun event_payload :: "ai_call_event \<Rightarrow> py_dict" where
  "event_payload (Started s) = started_payload s"
| "event_payload (Completed c) = completed_payload c"
| "event_payload (Late l) = late_payload l"

subsection \<open>Round trip\<close>

declare map_of_append [simp del]

lemma map_of_parts:
  "map_of (xs @ ys) k = (case map_of xs k of None \<Rightarrow> map_of ys k | Some v \<Rightarrow> Some v)"
  by (induction xs) auto

lemma map_of_given [simp]:
  "map_of (given k pr x) j = (if j = k then map_option (null_value pr) x else None)"
  by (simp add: given_def split: option.splits)

lemmas fields_again =
  uuid_value.again sha.again safe.again resource.again endpoint.again price_version.again model.again
  error_code.again citation.again call_type.again adapter.again breaker.again observed.again
  completed.again category.again currency.again count.again positive.again http.again flag.again
  time_field.again

lemmas nulls_again = fields_again
  null_again [OF uuid_value.field_codec_axioms] null_again [OF sha.field_codec_axioms]
  null_again [OF safe.field_codec_axioms] null_again [OF resource.field_codec_axioms]
  null_again [OF error_code.field_codec_axioms] null_again [OF citation.field_codec_axioms]
  null_again [OF breaker.field_codec_axioms] null_again [OF category.field_codec_axioms]
  null_again [OF currency.field_codec_axioms] null_again [OF count.field_codec_axioms]
  null_again [OF http.field_codec_axioms]

lemma fld_Some: "fld d k f = Some x \<Longrightarrow> \<exists>v. f v = Some x"
  by (auto simp: fld_def split: option.splits)

lemma envelope_lookup:
  "map_of (envelope_payload e) ''event_id'' = Some (PyStr (uuid_str (cc_event_id (event_call e))))"
  "map_of (envelope_payload e) ''event_version'' = Some (PyInt (event_version_of e))"
  "map_of (envelope_payload e) ''event_sequence'' = Some (PyInt (event_sequence_of e))"
  "map_of (envelope_payload e) ''event_type'' = Some (PyStr (lit (event_type_of e)))"
  "map_of (envelope_payload e) ''aggregate_type'' = Some (PyStr (lit ''ai_call''))"
  "map_of (envelope_payload e) ''aggregate_id'' = Some (PyStr (uuid_str (cc_event_id (event_call e))))"
  "map_of (envelope_payload e) ''organization_id'' = Some (PyStr (uuid_str (cc_organization_id (event_call e))))"
  "map_of (envelope_payload e) ''business_operation_id'' = Some (PyStr (uuid_str (cc_operation_id (event_call e))))"
  "map_of (envelope_payload e) ''job_id'' = Some (null_value (\<lambda>u. PyStr (uuid_str u)) (cc_job_id (event_call e)))"
  "map_of (envelope_payload e) ''request_id'' = Some (null_value (\<lambda>u. PyStr (uuid_str u)) (cc_request_id (event_call e)))"
  "map_of (envelope_payload e) ''trace_id'' = Some (PyStr (uuid_str (cc_trace_id (event_call e))))"
  "map_of (envelope_payload e) ''policy_version'' = Some (PyInt (cc_policy_version (event_call e)))"
  "map_of (envelope_payload e) ''policy_hash'' = Some (PyStr (cc_policy_hash (event_call e)))"
  by (simp_all add: envelope_payload_def Let_def)

lemma envelope_keys: "map fst (envelope_payload e) = envelope_fields @ correlation_fields"
  by (simp add: envelope_payload_def Let_def envelope_fields_def correlation_fields_def)

lemma correlation_again:
  assumes "read_correlation d = Some c"
    and "\<And>k. k \<in> set correlation_fields \<or> k = ''event_id'' \<Longrightarrow> map_of d' k = map_of (envelope_payload e) k"
    and "event_call e = c"
  shows "read_correlation d' = Some c"
proof -
  have at: "fld d' k f = fld (envelope_payload e) k f" if "k \<in> set correlation_fields \<or> k = ''event_id''" for k and f :: "pyval \<Rightarrow> 'b option"
    using assms(2) [OF that] by (simp add: fld_def)
  show ?thesis
    using assms(1)
    by (auto simp: read_correlation_def bind_eq_Some_conv at correlation_fields_def assms(3)
        fld_def [of "envelope_payload e"] envelope_lookup dest!: fld_Some intro: nulls_again)
qed

definition common_fields :: "string list" where
  "common_fields = envelope_fields @ correlation_fields"

lemmas common_fields_defs = common_fields_def envelope_fields_def correlation_fields_def

lemma common_names: "map fst (envelope_payload e) = common_fields"
  by (simp only: envelope_keys common_fields_def)

lemma common_keys: "fst ` set (envelope_payload e) = set common_fields"
  using envelope_keys [of e] by (metis common_fields_def list.set_map)

lemma map_of_common:
  "map_of (envelope_payload e @ d) k =
     (if k \<in> set common_fields then map_of (envelope_payload e) k else map_of d k)"
  using map_of_eq_None_iff [of "envelope_payload e" k]
  by (auto simp: map_of_parts common_keys split: option.splits)

lemma fld_common:
  "fld (envelope_payload e @ d) k f =
     (if k \<in> set common_fields then fld (envelope_payload e) k f else fld d k f)"
  by (simp add: fld_def map_of_common)

lemma fld_Cons: "fld ((k, v) # d) j f = (if j = k then f v else fld d j f)"
  by (simp add: fld_def)

lemmas payload_lookup = fld_common map_of_common fld_Cons common_fields_defs

lemma closed_documentI:
  assumes "set required \<subseteq> set (map fst d)" "set (map fst d) \<subseteq> set required \<union> set optional_names"
  shows "closed_document required optional_names d"
  using assms map_of_eq_None_iff [of d] by (fastforce simp: closed_document_def list_all_iff)

lemma positive_literal: "n \<in> {1, 2, 3} \<Longrightarrow> positive_field (PyInt n) = Some n"
  by (auto simp: positive_field_def count_field_def safe_integer_def max_safe_integer_def)

lemma envelope_again:
  assumes same: "\<And>k. k \<in> set envelope_fields \<Longrightarrow> map_of d k = map_of (envelope_payload e) k"
    and "event_version_of e \<in> {1, 2}"
  shows "envelope_valid (event_version_of e) (event_sequence_of e) (event_type_of e) d"
proof -
  have "map_of d ''event_version'' = Some (PyInt (event_version_of e))"
    "map_of d ''event_sequence'' = Some (PyInt (event_sequence_of e))"
    "map_of d ''event_type'' = Some (PyStr (lit (event_type_of e)))"
    "map_of d ''aggregate_type'' = Some (PyStr (lit ''ai_call''))"
    "map_of d ''aggregate_id'' = Some (PyStr (uuid_str (cc_event_id (event_call e))))"
    "map_of d ''event_id'' = Some (PyStr (uuid_str (cc_event_id (event_call e))))"
    by (subst same, simp add: envelope_fields_def, rule envelope_lookup)+
  moreover have "positive_field (PyInt (event_version_of e)) = Some (event_version_of e)"
    using assms(2) by (intro positive_literal) auto
  moreover have "positive_field (PyInt (event_sequence_of e)) = Some (event_sequence_of e)"
    by (rule positive_literal) (cases e; simp)
  ultimately show ?thesis by (simp add: envelope_valid_def fld_def)
qed

lemma read_started_iff:
  "read_started version d = Some s \<longleftrightarrow>
     closed_document (started_fields version) [] d \<and> envelope_valid version 1 ''ai.call.started'' d
     \<and> map_of d ''status'' = Some (PyStr (lit ''pending'')) \<and> started_contract s
     \<and> read_correlation d = Some (st_call s)
     \<and> fld d ''resource_type'' (null_field (text_field resource_type_text)) = Some (st_resource_type s)
     \<and> fld d ''resource_id'' (null_field uuid_field) = Some (st_resource_id s)
     \<and> fld d ''call_type'' (choice call_types) = Some (st_call_type s)
     \<and> fld d ''logical_generation_no'' positive_field = Some (st_generation_no s)
     \<and> fld d ''provider_attempt_no'' positive_field = Some (st_attempt_no s)
     \<and> fld d ''adapter_id'' (choice adapters) = Some (st_adapter s)
     \<and> fld d ''endpoint_id'' (text_field endpoint_text) = Some (st_endpoint_id s)
     \<and> fld d ''model_id'' (text_field model_id_text) = Some (st_model_id s)
     \<and> fld d ''model_version'' (null_field (text_field safe_text)) = Some (st_model_version s)
     \<and> fld d ''prompt_id'' (null_field (text_field safe_text)) = Some (st_prompt_id s)
     \<and> fld d ''prompt_version'' (null_field (text_field safe_text)) = Some (st_prompt_version s)
     \<and> fld d ''prompt_hash'' (null_field (text_field sha256_text)) = Some (st_prompt_hash s)
     \<and> fld d ''schema_version'' (null_field (text_field safe_text)) = Some (st_schema_version s)
     \<and> fld d ''pricing_version'' (text_field pricing_version_text) = Some (st_pricing_version s)
     \<and> fld d ''input_hash'' (text_field sha256_text) = Some (st_input_hash s)
     \<and> fld d ''reserved_input_tokens'' count_field = Some (st_input_tokens s)
     \<and> fld d ''reserved_output_tokens'' count_field = Some (st_output_tokens s)
     \<and> read_reserved_cost version d = Some (st_cost s)
     \<and> fld d ''attempt_count'' positive_field = Some (st_attempt_count s)
     \<and> fld d ''is_fallback'' bool_field = Some (st_is_fallback s)
     \<and> fld d ''breaker_state'' (null_field (choice breaker_states)) = Some (st_breaker_state s)
     \<and> fld d ''started_at'' stamp_field = Some (st_started_at s)"
  by (cases s rule: started_event.cases_scheme; cases "started_event.more s")
     (auto simp: read_started_def bind_eq_Some_conv)

lemma started_values:
  "fld (started_payload s) ''resource_type'' f = f (null_value PyStr (st_resource_type s))"
  "fld (started_payload s) ''resource_id'' f = f (null_value (\<lambda>u. PyStr (uuid_str u)) (st_resource_id s))"
  "fld (started_payload s) ''call_type'' f1 = f1 (chosen call_types (st_call_type s))"
  "fld (started_payload s) ''logical_generation_no'' f2 = f2 (PyInt (st_generation_no s))"
  "fld (started_payload s) ''provider_attempt_no'' f2 = f2 (PyInt (st_attempt_no s))"
  "fld (started_payload s) ''adapter_id'' f3 = f3 (chosen adapters (st_adapter s))"
  "fld (started_payload s) ''endpoint_id'' f4 = f4 (PyStr (st_endpoint_id s))"
  "fld (started_payload s) ''model_id'' f4 = f4 (PyStr (st_model_id s))"
  "fld (started_payload s) ''model_version'' f5 = f5 (null_value PyStr (st_model_version s))"
  "fld (started_payload s) ''prompt_id'' f5 = f5 (null_value PyStr (st_prompt_id s))"
  "fld (started_payload s) ''prompt_version'' f5 = f5 (null_value PyStr (st_prompt_version s))"
  "fld (started_payload s) ''prompt_hash'' f5 = f5 (null_value PyStr (st_prompt_hash s))"
  "fld (started_payload s) ''schema_version'' f5 = f5 (null_value PyStr (st_schema_version s))"
  "fld (started_payload s) ''pricing_version'' f4 = f4 (PyStr (st_pricing_version s))"
  "fld (started_payload s) ''input_hash'' f4 = f4 (PyStr (st_input_hash s))"
  "fld (started_payload s) ''reserved_input_tokens'' f2 = f2 (PyInt (st_input_tokens s))"
  "fld (started_payload s) ''reserved_output_tokens'' f2 = f2 (PyInt (st_output_tokens s))"
  "fld (started_payload s) ''attempt_count'' f2 = f2 (PyInt (st_attempt_count s))"
  "fld (started_payload s) ''is_fallback'' f6 = f6 (PyBool (st_is_fallback s))"
  "fld (started_payload s) ''breaker_state'' f7 = f7 (null_value (chosen breaker_states) (st_breaker_state s))"
  "fld (started_payload s) ''started_at'' f8 = f8 (PyStr (stamp_text (st_started_at s)))"
  "map_of (started_payload s) ''status'' = Some (PyStr (lit ''pending''))"
  by (simp_all add: started_payload_def payload_lookup)

lemma started_costs:
  "st_cost s = MicroUsd n \<Longrightarrow> fld (started_payload s) ''reserved_cost_micro_usd'' f = f (PyInt n)"
  "st_cost s = Microunits currency n \<Longrightarrow> fld (started_payload s) ''cost_currency'' f = f (currency_value currency)"
  "st_cost s = Microunits currency n \<Longrightarrow> fld (started_payload s) ''reserved_cost_microunits'' f = f (PyInt n)"
  by (simp_all add: started_payload_def payload_lookup)

lemma started_common:
  "k \<in> set common_fields \<Longrightarrow> map_of (started_payload s) k = map_of (envelope_payload (Started s)) k"
  by (simp only: started_payload_def map_of_common if_True)

lemma read_reserved_version:
  "read_reserved_cost version d = Some c \<Longrightarrow> version \<in> {1, 2} \<Longrightarrow>
     (case c of MicroUsd _ \<Rightarrow> 1 | Microunits _ _ \<Rightarrow> 2) = version"
  by (auto simp: read_reserved_cost_def bind_eq_Some_conv split: if_splits)

lemma reserved_cost_again:
  assumes "read_reserved_cost version d = Some (st_cost s)"
  shows "read_reserved_cost version (started_payload s) = Some (st_cost s)"
  using assms
  by (cases "st_cost s")
    (auto simp: read_reserved_cost_def bind_eq_Some_conv started_costs currency_value_def
      dest!: fld_Some split: if_splits intro: nulls_again)

lemma started_again:
  assumes "read_started version d = Some s" "version \<in> {1, 2}"
  shows "read_started version (started_payload s) = Some s"
proof -
  note fields = assms(1) [unfolded read_started_iff]
  have version: "started_version s = version"
    using fields assms(2) by (auto simp: started_version_def dest: read_reserved_version)
  have call: "read_correlation d = Some (st_call s)" using fields by blast
  have "read_correlation (started_payload s) = Some (st_call s)"
    by (rule correlation_again [OF call, where e = "Started s"])
      (use started_common in \<open>auto simp: common_fields_def envelope_fields_def\<close>)
  moreover have "envelope_valid version 1 ''ai.call.started'' (started_payload s)"
    using envelope_again [of "started_payload s" "Started s"] started_common assms(2) version
    by (simp add: common_fields_def)
  moreover have "closed_document (started_fields version) [] (started_payload s)"
    by (rule closed_documentI)
      (use version in \<open>auto simp: started_payload_def common_names common_fields_def started_fields_def
         started_version_def split: reserved_cost.splits\<close>)
  moreover have "read_reserved_cost version (started_payload s) = Some (st_cost s)"
    using fields reserved_cost_again by blast
  ultimately show ?thesis
    using fields unfolding read_started_iff
    by (auto simp: started_values dest!: fld_Some intro: nulls_again)
qed

lemma read_completed_iff:
  "read_completed version d = Some c \<longleftrightarrow>
     closed_document (completed_fields version) [] d \<and> envelope_valid version 2 ''ai.call.completed'' d
     \<and> status_matrix c \<and> read_correlation d = Some (co_call c) \<and> read_actual_cost version d = Some (co_cost c)
     \<and> fld d ''status'' (choice completed_statuses) = Some (co_status c)
     \<and> fld d ''completed_at'' stamp_field = Some (co_completed_at c)
     \<and> fld d ''duration_ms'' count_field = Some (co_duration_ms c)
     \<and> fld d ''output_hash'' (null_field (text_field sha256_text)) = Some (co_output_hash c)
     \<and> fld d ''input_tokens'' (null_field count_field) = Some (co_input_tokens c)
     \<and> fld d ''output_tokens'' (null_field count_field) = Some (co_output_tokens c)
     \<and> fld d ''vector_count'' (null_field count_field) = Some (co_vector_count c)
     \<and> fld d ''http_status'' (null_field http_field) = Some (co_http_status c)
     \<and> fld d ''error_category'' (null_field (choice error_categories)) = Some (co_error_category c)
     \<and> fld d ''safe_error_code'' (null_field (text_field safe_error_text)) = Some (co_safe_error c)
     \<and> fld d ''citation_validation_status'' (null_field (text_field citation_text)) = Some (co_citation_status c)"
  by (cases c rule: completed_event.cases_scheme; cases "completed_event.more c")
     (auto simp: read_completed_def bind_eq_Some_conv)

lemma completed_values:
  "fld (completed_payload c) ''status'' f = f (chosen completed_statuses (co_status c))"
  "fld (completed_payload c) ''completed_at'' f1 = f1 (PyStr (stamp_text (co_completed_at c)))"
  "fld (completed_payload c) ''duration_ms'' f2 = f2 (PyInt (co_duration_ms c))"
  "fld (completed_payload c) ''output_hash'' f3 = f3 (null_value PyStr (co_output_hash c))"
  "fld (completed_payload c) ''input_tokens'' f4 = f4 (null_value PyInt (co_input_tokens c))"
  "fld (completed_payload c) ''output_tokens'' f4 = f4 (null_value PyInt (co_output_tokens c))"
  "fld (completed_payload c) ''vector_count'' f4 = f4 (null_value PyInt (co_vector_count c))"
  "fld (completed_payload c) ''http_status'' f4 = f4 (null_value PyInt (co_http_status c))"
  "fld (completed_payload c) ''error_category'' f5 = f5 (null_value (chosen error_categories) (co_error_category c))"
  "fld (completed_payload c) ''safe_error_code'' f3 = f3 (null_value PyStr (co_safe_error c))"
  "fld (completed_payload c) ''citation_validation_status'' f3 = f3 (null_value PyStr (co_citation_status c))"
  by (simp_all add: completed_payload_def payload_lookup)

lemma completed_costs:
  "co_cost c = Some (currency, units) \<Longrightarrow> fld (completed_payload c) ''cost_currency'' f = f (currency_value currency)"
  "co_cost c = Some (currency, units) \<Longrightarrow>
     fld (completed_payload c) ''actual_cost_microunits'' f2 = f2 (null_value PyInt units)"
  by (simp_all add: completed_payload_def payload_lookup)

lemma completed_common:
  "k \<in> set common_fields \<Longrightarrow> map_of (completed_payload c) k = map_of (envelope_payload (Completed c)) k"
  by (simp only: completed_payload_def map_of_common if_True)

lemma completed_names:
  "map fst (completed_payload c) = completed_fields (event_version_of (Completed c))"
  by (cases "co_cost c")
    (auto simp: completed_payload_def common_names completed_fields_def common_fields_def simp del: list.set_map)

lemma actual_cost_again:
  assumes "read_actual_cost version d = Some (co_cost c)"
  shows "read_actual_cost version (completed_payload c) = Some (co_cost c)"
  using assms
  by (cases "co_cost c")
    (auto simp: read_actual_cost_def bind_eq_Some_conv completed_costs currency_value_def
      dest!: fld_Some split: if_splits intro: nulls_again)

lemma read_actual_version:
  "read_actual_cost version d = Some c \<Longrightarrow> version \<in> {1, 2} \<Longrightarrow> (if c = None then 1 else 2) = version"
  by (auto simp: read_actual_cost_def bind_eq_Some_conv split: if_splits)

lemma completed_again:
  assumes "read_completed version d = Some c" "version \<in> {1, 2}"
  shows "read_completed version (completed_payload c) = Some c"
proof -
  note fields = assms(1) [unfolded read_completed_iff]
  have version: "event_version_of (Completed c) = version"
    using fields assms(2) by (auto dest: read_actual_version)
  have call: "read_correlation d = Some (co_call c)" using fields by blast
  have "read_correlation (completed_payload c) = Some (co_call c)"
    by (rule correlation_again [OF call, where e = "Completed c"])
      (use completed_common in \<open>auto simp: common_fields_def envelope_fields_def\<close>)
  moreover have "envelope_valid version 2 ''ai.call.completed'' (completed_payload c)"
    using envelope_again [of "completed_payload c" "Completed c"] completed_common assms(2) version
    by (simp add: common_fields_def)
  moreover have "closed_document (completed_fields version) [] (completed_payload c)"
    by (rule closed_documentI) (simp_all only: completed_names version, simp_all)
  moreover have "read_actual_cost version (completed_payload c) = Some (co_cost c)"
    using fields actual_cost_again by blast
  ultimately show ?thesis
    using fields unfolding read_completed_iff
    by (auto simp: completed_values dest!: fld_Some intro: nulls_again)
qed

lemma read_late_iff:
  "read_late version d = Some l \<longleftrightarrow>
     closed_document (late_fields version) (late_optional_fields version) d
     \<and> envelope_valid version 3 ''ai.call.late_completion'' d
     \<and> cost_matrix l \<and> read_correlation d = Some (la_call l) \<and> read_late_cost version d = Some (la_cost l)
     \<and> fld d ''observed_status'' (choice observed_statuses) = Some (la_status l)
     \<and> fld d ''provider_completed_at'' stamp_field = Some (la_completed_at l)
     \<and> opt_fld d ''duration_ms'' count_field = Some (la_duration_ms l)
     \<and> opt_fld d ''output_hash'' (text_field sha256_text) = Some (la_output_hash l)
     \<and> opt_fld d ''input_tokens'' count_field = Some (la_input_tokens l)
     \<and> opt_fld d ''output_tokens'' count_field = Some (la_output_tokens l)
     \<and> opt_fld d ''vector_count'' count_field = Some (la_vector_count l)
     \<and> opt_fld d ''http_status'' http_field = Some (la_http_status l)
     \<and> opt_fld d ''error_category'' (choice error_categories) = Some (la_error_category l)
     \<and> opt_fld d ''safe_error_code'' (text_field safe_error_text) = Some (la_safe_error l)"
  by (cases l rule: late_event.cases_scheme; cases "late_event.more l")
     (auto simp: read_late_def bind_eq_Some_conv)

definition again_value :: "(pyval \<Rightarrow> 'a option) \<Rightarrow> ('a \<Rightarrow> pyval) \<Rightarrow> 'a option option \<Rightarrow> 'a option option option" where
  "again_value f pr x = (case x of None \<Rightarrow> Some None | Some y \<Rightarrow> map_option Some (null_field f (null_value pr y)))"

lemma given_again:
  assumes "field_codec f pr" "opt_fld d k f = Some x"
  shows "again_value f pr x = Some x"
  using assms(2) null_again [OF assms(1)]
  by (auto simp: opt_fld_def again_value_def split: option.splits)

lemma opt_fld_common:
  "opt_fld (envelope_payload e @ d) k f =
     (if k \<in> set common_fields then opt_fld (envelope_payload e) k f else opt_fld d k f)"
  by (simp add: opt_fld_def map_of_common)

lemma opt_fld_Cons:
  "opt_fld ((k, v) # d) j f = (if j = k then map_option Some (null_field f v) else opt_fld d j f)"
  by (simp add: opt_fld_def)

lemma opt_fld_Nil: "opt_fld [] j f = Some None"
  by (simp add: opt_fld_def)

lemma opt_fld_other: "j \<noteq> k \<Longrightarrow> opt_fld (given k pr x @ d) j f = opt_fld d j f"
  "j \<noteq> k \<Longrightarrow> opt_fld (given k pr x) j f = Some None"
  "j \<noteq> k \<Longrightarrow> fld (given k pr x @ d) j f1 = fld d j f1"
  by (simp_all add: opt_fld_def fld_def given_def split: option.splits)

lemma opt_fld_given:
  "opt_fld d k f = Some None \<Longrightarrow> opt_fld (given k pr x @ d) k f = again_value f pr x"
  "opt_fld (given k pr x) k f = again_value f pr x"
  by (simp_all add: opt_fld_def given_def again_value_def split: option.splits)

lemma late_values:
  "fld (late_payload l) ''observed_status'' f = f (chosen observed_statuses (la_status l))"
  "fld (late_payload l) ''provider_completed_at'' f1 = f1 (PyStr (stamp_text (la_completed_at l)))"
  "opt_fld (late_payload l) ''duration_ms'' f2 = again_value f2 PyInt (la_duration_ms l)"
  "opt_fld (late_payload l) ''output_hash'' f3 = again_value f3 PyStr (la_output_hash l)"
  "opt_fld (late_payload l) ''input_tokens'' f2 = again_value f2 PyInt (la_input_tokens l)"
  "opt_fld (late_payload l) ''output_tokens'' f2 = again_value f2 PyInt (la_output_tokens l)"
  "opt_fld (late_payload l) ''vector_count'' f2 = again_value f2 PyInt (la_vector_count l)"
  "opt_fld (late_payload l) ''http_status'' f2 = again_value f2 PyInt (la_http_status l)"
  "opt_fld (late_payload l) ''error_category'' f5 = again_value f5 (chosen error_categories) (la_error_category l)"
  "opt_fld (late_payload l) ''safe_error_code'' f3 = again_value f3 PyStr (la_safe_error l)"
  by (cases "la_cost l";
      simp add: late_payload_def payload_lookup opt_fld_common opt_fld_Cons opt_fld_Nil opt_fld_other
        opt_fld_given split: prod.splits)+

lemma late_costs:
  "la_cost l = Some (currency, units) \<Longrightarrow> fld (late_payload l) ''cost_currency'' f = f (currency_value currency)"
  "la_cost l = Some (currency, units) \<Longrightarrow>
     opt_fld (late_payload l) ''actual_cost_microunits'' f2 = again_value f2 PyInt units"
  by (simp_all add: late_payload_def payload_lookup opt_fld_common opt_fld_Cons opt_fld_Nil opt_fld_other
        opt_fld_given)

lemma late_common:
  "k \<in> set common_fields \<Longrightarrow> map_of (late_payload l) k = map_of (envelope_payload (Late l)) k"
  by (simp only: late_payload_def map_of_common if_True)

lemma given_key: "x \<in> set (given k pr v) \<Longrightarrow> fst x = k"
  by (auto simp: given_def split: option.splits)

lemma late_names:
  "set (late_fields (event_version_of (Late l))) \<subseteq> set (map fst (late_payload l))"
  "set (map fst (late_payload l)) \<subseteq>
     set (late_fields (event_version_of (Late l))) \<union> set (late_optional_fields (event_version_of (Late l)))"
proof -
  have common: "set (map fst (envelope_payload (Late l))) = set common_fields" by (simp only: common_names)
  show "set (late_fields (event_version_of (Late l))) \<subseteq> set (map fst (late_payload l))"
    using common by (cases "la_cost l") (auto simp: late_payload_def late_fields_def common_fields_def image_iff)
  show "set (map fst (late_payload l)) \<subseteq>
     set (late_fields (event_version_of (Late l))) \<union> set (late_optional_fields (event_version_of (Late l)))"
    using common by (cases "la_cost l")
      (auto simp: late_payload_def late_fields_def late_optional_fields_def common_fields_def dest!: given_key)
qed

lemma late_cost_again:
  assumes "read_late_cost version d = Some (la_cost l)"
  shows "read_late_cost version (late_payload l) = Some (la_cost l)"
  using assms
  by (cases "la_cost l")
    (auto simp: read_late_cost_def bind_eq_Some_conv late_costs currency_value_def
      dest!: fld_Some split: if_splits intro: nulls_again given_again [OF count.field_codec_axioms])

lemma read_late_version:
  "read_late_cost version d = Some c \<Longrightarrow> version \<in> {1, 2} \<Longrightarrow> (if c = None then 1 else 2) = version"
  by (auto simp: read_late_cost_def bind_eq_Some_conv split: if_splits)

lemma late_again:
  assumes "read_late version d = Some l" "version \<in> {1, 2}"
  shows "read_late version (late_payload l) = Some l"
proof -
  note fields = assms(1) [unfolded read_late_iff]
  have version: "event_version_of (Late l) = version"
    using fields assms(2) by (auto dest: read_late_version)
  have call: "read_correlation d = Some (la_call l)" using fields by blast
  have "read_correlation (late_payload l) = Some (la_call l)"
    by (rule correlation_again [OF call, where e = "Late l"])
      (use late_common in \<open>auto simp: common_fields_def envelope_fields_def\<close>)
  moreover have "envelope_valid version 3 ''ai.call.late_completion'' (late_payload l)"
    using envelope_again [of "late_payload l" "Late l"] late_common assms(2) version
    by (simp add: common_fields_def)
  moreover have "closed_document (late_fields version) (late_optional_fields version) (late_payload l)"
    using closed_documentI [OF late_names [of l]] unfolding version .
  moreover have "read_late_cost version (late_payload l) = Some (la_cost l)"
    using fields late_cost_again by blast
  ultimately show ?thesis
    using fields unfolding read_late_iff
    by (auto simp: late_values dest!: fld_Some intro: nulls_again given_again [OF count.field_codec_axioms]
        given_again [OF sha.field_codec_axioms] given_again [OF http.field_codec_axioms]
        given_again [OF category.field_codec_axioms] given_again [OF error_code.field_codec_axioms])
qed

text \<open>The payload of a validated event validates to the same event.\<close>

lemma read_event_again:
  assumes "read_event version d = Some e" "version \<in> {1, 2}"
  shows "read_event version (event_payload e) = Some e \<and> event_version_of e = version"
proof (cases e)
  case (Started s)
  then have s: "read_started version d = Some s"
    using assms(1) by (auto simp: read_event_def split: option.splits pyval.splits if_splits)
  then have "started_version s = version"
    using assms(2) by (auto simp: read_started_iff started_version_def dest: read_reserved_version)
  then show ?thesis
    using started_again [OF s assms(2)] Started started_common [of "''event_type''" s]
    by (simp add: read_event_def common_fields_defs envelope_lookup)
next
  case (Completed c)
  then have c: "read_completed version d = Some c"
    using assms(1) by (auto simp: read_event_def split: option.splits pyval.splits if_splits)
  then have "event_version_of e = version"
    using assms(2) Completed by (auto simp: read_completed_iff dest: read_actual_version)
  then show ?thesis
    using completed_again [OF c assms(2)] Completed completed_common [of "''event_type''" c]
    by (simp add: read_event_def common_fields_defs envelope_lookup)
next
  case (Late l)
  then have l: "read_late version d = Some l"
    using assms(1) by (auto simp: read_event_def split: option.splits pyval.splits if_splits)
  then have "event_version_of e = version"
    using assms(2) Late by (auto simp: read_late_iff dest: read_late_version)
  then show ?thesis
    using late_again [OF l assms(2)] Late late_common [of "''event_type''" l]
    by (simp add: read_event_def common_fields_defs envelope_lookup)
qed

end
