(* ===== verification/AiCallChain.thy ===== *)
theory AiCallChain
  imports AiCallEvents
begin

text \<open>
  The rest of \<open>app/ai/events.py\<close>: the strict view of an event that is already typed, the replay of an event,
  the invariants that link the events of one call, and the way an event is stored in the outbox. Two
  canonical payloads are the same bytes just when the documents have the same members, since the canonical
  form orders the keys.
\<close>

section \<open>The strict view\<close>

text \<open>\<open>_strict_event_view\<close>: the event is validated again from its fields, and its payload goes with it.\<close>

definition strict_event_view :: "ai_call_event \<Rightarrow> (ai_call_event \<times> py_dict) result" where
  "strict_event_view e = bind_result (or_event_error (read_event (event_version_of e) (event_payload e)))
     (\<lambda>v. Inr (v, event_payload v))"

text \<open>\<open>validate_ai_call_event\<close> of a typed event.\<close>

definition revalidate :: "ai_call_event \<Rightarrow> ai_call_event result" where
  "revalidate e = bind_result (strict_event_view e) (\<lambda>(v, _). Inr v)"

definition valid_event :: "ai_call_event \<Rightarrow> bool" where
  "valid_event e \<longleftrightarrow> read_event (event_version_of e) (event_payload e) = Some e"

lemma version_cases: "event_version_of e \<in> {1, 2}"
  by (cases e) (auto simp: started_version_def split: reserved_cost.splits)

lemma valid_view: "valid_event e \<Longrightarrow> strict_event_view e = Inr (e, event_payload e)"
  by (simp add: strict_event_view_def valid_event_def or_event_error_def)

lemma revalidate_valid [simp]: "valid_event e \<Longrightarrow> revalidate e = Inr e"
  by (simp add: revalidate_def valid_view)

text \<open>Whatever validation returns is valid.\<close>

lemma read_valid:
  assumes "read_event version d = Some e" "version \<in> {1, 2}"
  shows "valid_event e"
  using read_event_again [OF assms] by (simp add: valid_event_def)

lemma view_valid: "strict_event_view e = Inr (v, p) \<Longrightarrow> valid_event v \<and> p = event_payload v"
  using version_cases [of e] by (auto simp: strict_event_view_def intro: read_valid)

lemma validate_valid: "validate_ai_call_event d = Inr e \<Longrightarrow> valid_event e"
  by (auto simp: validate_ai_call_event_def validate_ai_call_event_v1_def validate_ai_call_event_v2_def
      event_error_def split: option.splits pyval.splits if_splits intro: read_valid)

lemma event_version_payload: "map_of (event_payload e) ''event_version'' = Some (PyInt (event_version_of e))"
  by (cases e) (simp_all add: started_common completed_common late_common common_fields_defs envelope_lookup)

lemma validate_payload [simp]: "valid_event e \<Longrightarrow> validate_ai_call_event (event_payload e) = Inr e"
  using version_cases [of e]
  by (auto simp: validate_ai_call_event_def event_version_payload valid_event_def
      validate_ai_call_event_v1_def validate_ai_call_event_v2_def or_event_error_def)

section \<open>Documents with the same members\<close>

definition same_document :: "py_dict \<Rightarrow> py_dict \<Rightarrow> bool" where
  "same_document a b \<longleftrightarrow> set a = set b"

lemma read_event_same:
  assumes "map_of a = map_of b" "set a = set b"
  shows "read_event version a = read_event version b"
proof -
  have fields: "fld a = fld b" "opt_fld a = opt_fld b"
    by (rule ext, rule ext, simp add: fld_def opt_fld_def assms(1))+
  have closed: "closed_document r n a = closed_document r n b" for r n
    by (simp add: closed_document_def list_all_iff assms)
  have "read_correlation a = read_correlation b"
    by (simp only: read_correlation_def fields)
  moreover have "envelope_valid v n t a = envelope_valid v n t b" for v n t
    by (simp only: envelope_valid_def fields assms(1))
  ultimately show ?thesis
    unfolding read_event_def read_started_def read_completed_def read_late_def read_reserved_cost_def
      read_actual_cost_def read_late_cost_def closed fields assms(1) by (simp only:)
qed

lemma distinct_given [simp]: "distinct (map fst (given k pr x))"
  by (simp add: given_def split: option.splits)

lemma payload_distinct: "distinct (map fst (event_payload e))"
proof (cases e)
  case (Started s)
  have "map fst (started_payload s) = common_fields @
      [''resource_type'', ''resource_id'', ''call_type'', ''logical_generation_no'', ''provider_attempt_no'',
       ''adapter_id'', ''endpoint_id'', ''model_id'', ''model_version'', ''prompt_id'', ''prompt_version'',
       ''prompt_hash'', ''schema_version'', ''pricing_version'', ''input_hash'', ''reserved_input_tokens'',
       ''reserved_output_tokens'', ''attempt_count'', ''is_fallback'', ''breaker_state'', ''status'',
       ''started_at''] @
      (case st_cost s of MicroUsd _ \<Rightarrow> [''reserved_cost_micro_usd'']
       | Microunits _ _ \<Rightarrow> [''cost_currency'', ''reserved_cost_microunits''])"
    by (simp add: started_payload_def common_names split: reserved_cost.splits)
  then show ?thesis
    by (simp only: Started event_payload.simps) (simp add: common_fields_defs split: reserved_cost.splits)
next
  case (Completed c)
  then show ?thesis
    by (simp only: event_payload.simps completed_names) (simp add: completed_fields_def common_fields_defs)
next
  case (Late l)
  have "distinct (map fst (late_payload l))"
    by (cases "la_cost l")
      (auto simp: late_payload_def common_names common_fields_defs dest!: given_key simp del: list.set_map)
  then show ?thesis by (simp add: Late)
qed

text \<open>A valid event is determined by its payload.\<close>

lemma same_payload:
  assumes "valid_event e" "valid_event e'" "same_document (event_payload e) (event_payload e')"
  shows "e = e'"
proof -
  have members: "set (event_payload e) = set (event_payload e')" using assms(3) by (simp add: same_document_def)
  then have same: "map_of (event_payload e) = map_of (event_payload e')"
    by (simp only: map_of_inject_set [OF payload_distinct payload_distinct])
  have "Some (PyInt (event_version_of e)) = Some (PyInt (event_version_of e'))"
    using fun_cong [OF same, of "''event_version''"] by (simp only: event_version_payload)
  then have version: "event_version_of e = event_version_of e'" by simp
  have "Some e = Some e'"
    using assms(1,2) unfolding valid_event_def version read_event_same [OF same members] by (simp only:)
  then show ?thesis by simp
qed

section \<open>Replay\<close>

datatype replay = ReplayedSame | ReplayConflict

definition classify_ai_call_event_replay :: "ai_call_event \<Rightarrow> ai_call_event \<Rightarrow> replay result" where
  "classify_ai_call_event_replay existing candidate =
     bind_result (strict_event_view existing) (\<lambda>(old, old_payload).
     bind_result (strict_event_view candidate) (\<lambda>(new, new_payload).
     if (cc_event_id (event_call old), event_type_of old) \<noteq> (cc_event_id (event_call new), event_type_of new)
     then Inl (ValueError ''events do not share a replay key'')
     else Inr (if same_document old_payload new_payload then ReplayedSame else ReplayConflict)))"

section \<open>Chains\<close>

definition conflict_error :: "'a result" where
  "conflict_error = Inl (ValueError ''AI_CALL_EVENT_CONFLICT'')"

text \<open>The strict views at the head of the chain validators: any error of theirs is a conflict.\<close>

definition chain_viewed :: "started_event \<Rightarrow> completed_event \<Rightarrow> late_event option \<Rightarrow> bool" where
  "chain_viewed s c l \<longleftrightarrow> is_ok (revalidate (Started s)) \<and> is_ok (revalidate (Completed c))
     \<and> (case l of None \<Rightarrow> True | Some l' \<Rightarrow> is_ok (revalidate (Late l')))"

definition late_version_is :: "int \<Rightarrow> late_event option \<Rightarrow> bool" where
  "late_version_is version l = (case l of None \<Rightarrow> True | Some l' \<Rightarrow> event_version_of (Late l') = version)"

text \<open>The timestamps are compared as texts.\<close>

definition text_before :: "stamp \<Rightarrow> stamp \<Rightarrow> bool" where
  "text_before a b \<longleftrightarrow> stamp_text a < stamp_text b"

definition outcome_fits :: "started_event \<Rightarrow> completed_event \<Rightarrow> bool" where
  "outcome_fits s c \<longleftrightarrow>
     (if st_call_type s = EMBEDDING_CALL
      then co_status c = CALL_SUCCEEDED \<longrightarrow>
        co_output_tokens c = Some 0 \<and> co_vector_count c \<noteq> None \<and> co_vector_count c \<noteq> Some 0
      else co_vector_count c = None)"

definition chain_core ::
  "(ai_call_event \<Rightarrow> bool) \<Rightarrow> started_event \<Rightarrow> completed_event \<Rightarrow> late_event option \<Rightarrow> unit result" where
  "chain_core linked s c l =
     (if \<not> linked (Completed c) \<or> text_before (co_completed_at c) (st_started_at s) \<or> \<not> outcome_fits s c
      then conflict_error
      else (case l of None \<Rightarrow> Inr ()
        | Some l' \<Rightarrow> if co_status c \<noteq> CALL_OUTCOME_UNKNOWN \<or> \<not> linked (Late l') then conflict_error else Inr ()))"

text \<open>\<open>validate_ai_call_event_chain\<close>, for version 1.\<close>

definition validate_ai_call_event_chain ::
  "started_event \<Rightarrow> completed_event \<Rightarrow> late_event option \<Rightarrow> unit result" where
  "validate_ai_call_event_chain s c l =
     (if \<not> (chain_viewed s c l \<and> started_version s = 1 \<and> event_version_of (Completed c) = 1
        \<and> late_version_is 1 l) then conflict_error
      else chain_core (\<lambda>e. st_call s = event_call e) s c l)"

text \<open>Version 2 also links the events by their currency.\<close>

fun event_currency :: "ai_call_event \<Rightarrow> cost_currency option" where
  "event_currency (Started s) = (case st_cost s of Microunits currency _ \<Rightarrow> currency | MicroUsd _ \<Rightarrow> None)"
| "event_currency (Completed c) = Option.bind (co_cost c) fst"
| "event_currency (Late l) = Option.bind (la_cost l) fst"

definition validate_ai_call_event_chain_v2 ::
  "started_event \<Rightarrow> completed_event \<Rightarrow> late_event option \<Rightarrow> unit result" where
  "validate_ai_call_event_chain_v2 s c l =
     (if \<not> (chain_viewed s c l \<and> started_version s = 2 \<and> event_version_of (Completed c) = 2
        \<and> late_version_is 2 l) then conflict_error
      else chain_core (\<lambda>e. st_call s = event_call e \<and> event_currency (Started s) = event_currency e) s c l)"

definition validate_ai_call_event_chain_any ::
  "started_event \<Rightarrow> completed_event \<Rightarrow> late_event option \<Rightarrow> unit result" where
  "validate_ai_call_event_chain_any s c l =
     (if started_version s = 1 \<and> event_version_of (Completed c) = 1
      then if late_version_is 1 l then validate_ai_call_event_chain s c l else conflict_error
      else if started_version s = 2 \<and> event_version_of (Completed c) = 2
      then if late_version_is 2 l then validate_ai_call_event_chain_v2 s c l else conflict_error
      else conflict_error)"

lemma text_before_iff: "valid_stamp a \<Longrightarrow> valid_stamp b \<Longrightarrow> text_before a b \<longleftrightarrow> stamp_time a < stamp_time b"
  by (simp add: text_before_def stamp_text_less stamp_time_less)

text \<open>What the validators establish, whatever the version.\<close>

definition chained :: "started_event \<Rightarrow> completed_event \<Rightarrow> bool" where
  "chained s c \<longleftrightarrow> event_version_of (Completed c) = started_version s \<and> co_call c = st_call s
     \<and> event_currency (Completed c) = event_currency (Started s)
     \<and> \<not> text_before (co_completed_at c) (st_started_at s) \<and> outcome_fits s c"

definition chained_late :: "started_event \<Rightarrow> late_event \<Rightarrow> bool" where
  "chained_late s l \<longleftrightarrow> event_version_of (Late l) = started_version s \<and> la_call l = st_call s
     \<and> event_currency (Late l) = event_currency (Started s)"

lemma version_one_currency: "event_version_of e = 1 \<Longrightarrow> event_currency e = None"
  by (cases e) (auto simp: started_version_def split: reserved_cost.splits if_splits)

lemma chain_any_iff:
  assumes "valid_event (Started s)" "valid_event (Completed c)" "\<forall>l'. l = Some l' \<longrightarrow> valid_event (Late l')"
  shows "validate_ai_call_event_chain_any s c l = Inr () \<longleftrightarrow>
     chained s c \<and> (\<forall>l'. l = Some l' \<longrightarrow> co_status c = CALL_OUTCOME_UNKNOWN \<and> chained_late s l')"
proof -
  have viewed: "chain_viewed s c l"
    using assms by (auto simp: chain_viewed_def split: option.splits)
  have one: "event_currency e = None" if "event_version_of e = 1" for e
    using that by (rule version_one_currency)
  show ?thesis
    using version_cases [of "Started s"] one [of "Started s"] one [of "Completed c"] one [of "Late (the l)"] viewed
    by (cases l)
      (auto simp: validate_ai_call_event_chain_any_def validate_ai_call_event_chain_def
        validate_ai_call_event_chain_v2_def chain_core_def chained_def chained_late_def late_version_is_def
        conflict_error_def)
qed

lemma chain_any_error:
  "validate_ai_call_event_chain_any s c l \<noteq> Inr () \<Longrightarrow>
     validate_ai_call_event_chain_any s c l = Inl (ValueError ''AI_CALL_EVENT_CONFLICT'')"
  by (auto simp: validate_ai_call_event_chain_any_def validate_ai_call_event_chain_def
      validate_ai_call_event_chain_v2_def chain_core_def conflict_error_def split: if_splits option.splits)

section \<open>Storage\<close>

definition json_of_value :: "pyval \<Rightarrow> json_value" where
  "json_of_value v = (case v of
     PyNone \<Rightarrow> JNull | PyBool b \<Rightarrow> JBool b | PyInt n \<Rightarrow> JInt n
   | PyStr s \<Rightarrow> if list_all (\<lambda>c. c < 128) s then JText (map char_of s) else JUnicode s
   | _ \<Rightarrow> JOther [])"

definition value_of_json :: "json_value \<Rightarrow> pyval" where
  "value_of_json j = (case j of
     JNull \<Rightarrow> PyNone | JBool b \<Rightarrow> PyBool b | JInt n \<Rightarrow> PyInt n | JText s \<Rightarrow> PyStr (lit s)
   | JUnicode s \<Rightarrow> PyStr s | JOther s \<Rightarrow> PyOther 0)"

definition json_of_dict :: "py_dict \<Rightarrow> json_object" where
  "json_of_dict d = map (\<lambda>(k, v). (k, json_of_value v)) d"

definition dict_of_json :: "json_object \<Rightarrow> py_dict" where
  "dict_of_json j = map (\<lambda>(k, v). (k, value_of_json v)) j"

definition plain_json_value :: "pyval \<Rightarrow> bool" where
  "plain_json_value v = (case v of PyNone \<Rightarrow> True | PyBool _ \<Rightarrow> True | PyInt _ \<Rightarrow> True | PyStr _ \<Rightarrow> True | _ \<Rightarrow> False)"

lemma json_value_again: "plain_json_value v \<Longrightarrow> value_of_json (json_of_value v) = v"
proof -
  have "lit (map char_of s) = s" if "list_all (\<lambda>c. c < 128) s" for s :: pystr
    using that by (induction s) (simp_all add: lit_def)
  then show "plain_json_value v \<Longrightarrow> value_of_json (json_of_value v) = v"
    by (cases v) (auto simp: plain_json_value_def value_of_json_def json_of_value_def)
qed

lemma dict_again: "list_all (\<lambda>(_, v). plain_json_value v) d \<Longrightarrow> dict_of_json (json_of_dict d) = d"
  by (induction d) (auto simp: dict_of_json_def json_of_dict_def json_value_again)

lemma null_value_plain: "\<forall>x. plain_json_value (pr x) \<Longrightarrow> plain_json_value (null_value pr v)"
  by (simp add: null_value_def plain_json_value_def split: option.splits)

lemma payload_plain: "list_all (\<lambda>(_, v). plain_json_value v) (event_payload e)"
proof -
  have basic [simp]: "plain_json_value (PyStr s)" "plain_json_value (PyInt n)" "plain_json_value (PyBool b)" for s n b
    by (simp_all add: plain_json_value_def)
  have nulls [simp]: "plain_json_value (null_value PyStr x)" "plain_json_value (null_value PyInt y)"
    "plain_json_value (null_value (\<lambda>u. PyStr (uuid_str u)) z)"
    "plain_json_value (null_value (chosen breaker_states) b)"
    "plain_json_value (null_value (chosen error_categories) k)" "plain_json_value (currency_value c)" for x y z b k c
    by (auto simp: currency_value_def intro!: null_value_plain)
  have given_plain [simp]: "list_all (\<lambda>(_, v). plain_json_value v) (given k pr x)"
    if "\<forall>y. plain_json_value (null_value pr y)" for k and pr :: "'a \<Rightarrow> pyval" and x
    using that by (simp add: given_def split: option.splits)
  have envelope [simp]: "list_all (\<lambda>(_, v). plain_json_value v) (envelope_payload e')" for e'
    by (simp add: envelope_payload_def Let_def)
  show ?thesis
    by (cases e) (simp_all add: started_payload_def completed_payload_def late_payload_def
        split: reserved_cost.splits option.splits prod.splits)
qed

lemma stored_payload [simp]: "dict_of_json (json_of_dict (event_payload e)) = event_payload e"
  using payload_plain by (rule dict_again)

end
