(* ===== verification/AiCallAudit.thy ===== *)
theory AiCallAudit
  imports AiCallChain
begin

text \<open>
  \<open>app/repositories/ai_call_audit.py\<close>: the durable record of provider calls. An attempt is reserved by
  writing its started event into the outbox within the limits of its business operation; the completion is
  appended the same way; a maintenance process projects the events onto the table \<open>ai_call_logs\<close> and closes
  calls whose outcome never arrived. The table's constraints and its trigger are those of
  \<open>20260814_020_create_audit_report_runtime.py\<close> and \<open>20260817_024_add_currency_neutral_ai_cost.py\<close>, its
  column types those of \<open>app/models/audit.py\<close>. One repository call is one transaction: the advisory locks
  and row locks serialise the calls on an event or an operation and have no effect of their own. An error
  rolls the transaction back. Instants of the outbox are microseconds, those of the log table timestamps.
\<close>

section \<open>Limits\<close>

text \<open>\<open>AiCallAuditLimits\<close> and \<open>AiCallAuditLimitsV2\<close>; the cost limit shows the version.\<close>

record audit_limits =
  lim_attempts :: int
  lim_input_tokens :: int
  lim_output_tokens :: int
  lim_total_tokens :: int
  lim_cost :: reserved_cost

definition exact_count :: "string \<Rightarrow> pyval \<Rightarrow> int result" where
  "exact_count name v = (case v of
       PyInt n \<Rightarrow> if 0 \<le> n then Inr n else Inl (ValueError (name @ '' must be a non-negative integer''))
     | _ \<Rightarrow> Inl (ValueError (name @ '' must be a non-negative integer'')))"

definition new_audit_limits :: "pyval \<Rightarrow> pyval \<Rightarrow> pyval \<Rightarrow> pyval \<Rightarrow> pyval \<Rightarrow> audit_limits result" where
  "new_audit_limits attempts input_t output_t total_t cost =
     bind_result (exact_count ''max_provider_attempts_per_business_operation'' attempts) (\<lambda>a.
     bind_result (exact_count ''max_input_tokens_per_request'' input_t) (\<lambda>i.
     bind_result (exact_count ''max_output_tokens_per_request'' output_t) (\<lambda>out.
     bind_result (exact_count ''max_total_tokens'' total_t) (\<lambda>t.
     bind_result (exact_count ''max_cost_micro_usd'' cost) (\<lambda>c.
     guard (a = 0 \<or> t = 0) ''attempt and total-token limits must be positive''
       (Inr \<lparr>lim_attempts = a, lim_input_tokens = i, lim_output_tokens = out, lim_total_tokens = t,
            lim_cost = MicroUsd c\<rparr>))))))"

definition new_audit_limits_v2 ::
  "pyval \<Rightarrow> pyval \<Rightarrow> pyval \<Rightarrow> pyval \<Rightarrow> cost_currency option \<Rightarrow> pyval \<Rightarrow> audit_limits result" where
  "new_audit_limits_v2 attempts input_t output_t total_t currency cost =
     bind_result (exact_count ''max_provider_attempts_per_business_operation'' attempts) (\<lambda>a.
     bind_result (exact_count ''max_input_tokens_per_request'' input_t) (\<lambda>i.
     bind_result (exact_count ''max_output_tokens_per_request'' output_t) (\<lambda>out.
     bind_result (exact_count ''max_total_tokens'' total_t) (\<lambda>t.
     bind_result (exact_count ''max_cost_microunits'' cost) (\<lambda>c.
     guard (currency = None \<and> c \<noteq> 0) ''internal unmetered max cost must be zero''
     (guard (a = 0 \<or> t = 0) ''attempt and total-token limits must be positive''
       (Inr \<lparr>lim_attempts = a, lim_input_tokens = i, lim_output_tokens = out, lim_total_tokens = t,
            lim_cost = Microunits currency c\<rparr>)))))))"

text \<open>\<open>_validate_deadline\<close>; \<open>None\<close> stands for a number that is not finite or no number at all.\<close>

definition validate_deadline :: "rat option \<Rightarrow> rat option \<Rightarrow> rat option \<Rightarrow> bool result" where
  "validate_deadline deadline minimum current =
     (case deadline of None \<Rightarrow> Inl (ValueError ''deadline_monotonic must be finite'')
      | Some d \<Rightarrow> (case minimum of None \<Rightarrow> Inl (ValueError ''minimum_attempt_seconds must be finite'')
        | Some m \<Rightarrow> if m < 0 then Inl (ValueError ''minimum_attempt_seconds must be non-negative'')
          else (case current of None \<Rightarrow> Inl (ValueError ''monotonic clock must return a finite number'')
            | Some c \<Rightarrow> Inr (c + m < d))))"

section \<open>Tables\<close>

subsection \<open>The log of calls\<close>

text \<open>The columns a started event fills; no update may change them.\<close>

record started_columns =
  sc_id :: uuid
  sc_version :: int
  sc_organization_id :: uuid
  sc_operation_id :: uuid
  sc_job_id :: "uuid option"
  sc_request_id :: "uuid option"
  sc_resource_type :: "pystr option"
  sc_resource_id :: "uuid option"
  sc_trace_id :: uuid
  sc_call_type :: call_type
  sc_generation_no :: int
  sc_attempt_no :: int
  sc_adapter :: adapter
  sc_endpoint_id :: pystr
  sc_model_id :: pystr
  sc_model_version :: "pystr option"
  sc_prompt_id :: "pystr option"
  sc_prompt_version :: "pystr option"
  sc_prompt_hash :: "pystr option"
  sc_schema_version :: "pystr option"
  sc_policy_version :: pystr
  sc_policy_hash :: pystr
  sc_pricing_version :: pystr
  sc_input_hash :: pystr
  sc_input_tokens :: int
  sc_output_tokens :: int
  sc_attempt_count :: int
  sc_is_fallback :: bool
  sc_breaker_state :: "breaker_state option"
  sc_started_at :: stamp
  sc_cost_micro_usd :: "int option"
  sc_cost_currency :: "cost_currency option"
  sc_cost_microunits :: "int option"

text \<open>The columns of the outcome.\<close>

record outcome_columns =
  oc_sequence :: int
  oc_output_hash :: "pystr option"
  oc_input_tokens :: "int option"
  oc_output_tokens :: "int option"
  oc_vector_count :: "int option"
  oc_citation_status :: "pystr option"
  oc_status :: call_status
  oc_error_category :: "error_category option"
  oc_safe_error :: "pystr option"
  oc_http_status :: "int option"
  oc_completed_at :: "stamp option"
  oc_duration_ms :: "int option"
  oc_actual_cost :: "int option"

record call_log =
  lg_started :: started_columns
  lg_outcome :: outcome_columns

definition fits_int4 :: "int \<Rightarrow> bool" where "fits_int4 n \<longleftrightarrow> - (2 ^ 31) \<le> n \<and> n < 2 ^ 31"
definition fits_int8 :: "int \<Rightarrow> bool" where "fits_int8 n \<longleftrightarrow> - (2 ^ 63) \<le> n \<and> n < 2 ^ 63"

definition fits_text :: "nat \<Rightarrow> pystr \<Rightarrow> bool" where
  "fits_text n s \<longleftrightarrow> length s \<le> n \<and> 0 \<notin> set s"

definition nullable :: "('a \<Rightarrow> bool) \<Rightarrow> 'a option \<Rightarrow> bool" where
  "nullable p x = (case x of None \<Rightarrow> True | Some y \<Rightarrow> p y)"

text \<open>The column types.\<close>

definition started_columns_fit :: "started_columns \<Rightarrow> bool" where
  "started_columns_fit c \<longleftrightarrow>
     fits_int4 (sc_generation_no c) \<and> fits_int4 (sc_attempt_no c) \<and> fits_int4 (sc_attempt_count c)
     \<and> fits_int4 (sc_input_tokens c) \<and> fits_int4 (sc_output_tokens c)
     \<and> nullable fits_int8 (sc_cost_micro_usd c) \<and> nullable fits_int8 (sc_cost_microunits c)
     \<and> nullable (fits_text 60) (sc_resource_type c) \<and> fits_text 100 (sc_endpoint_id c)
     \<and> fits_text 200 (sc_model_id c) \<and> nullable (fits_text 100) (sc_model_version c)
     \<and> nullable (fits_text 100) (sc_prompt_id c) \<and> nullable (fits_text 100) (sc_prompt_version c)
     \<and> nullable (fits_text 100) (sc_schema_version c) \<and> fits_text 80 (sc_policy_version c)
     \<and> fits_text 80 (sc_pricing_version c)"

definition outcome_columns_fit :: "outcome_columns \<Rightarrow> bool" where
  "outcome_columns_fit c \<longleftrightarrow>
     nullable fits_int4 (oc_input_tokens c) \<and> nullable fits_int4 (oc_output_tokens c)
     \<and> nullable fits_int4 (oc_vector_count c) \<and> nullable fits_int4 (oc_http_status c)
     \<and> nullable fits_int8 (oc_duration_ms c) \<and> nullable fits_int8 (oc_actual_cost c)
     \<and> nullable (fits_text 30) (oc_citation_status c) \<and> nullable (fits_text 80) (oc_safe_error c)"

definition is_hash :: "pystr \<Rightarrow> bool" where "is_hash s \<longleftrightarrow> sha256_text s \<noteq> None"

text \<open>With a null currency the innermost test of this check is unknown rather than false.\<close>

definition cost_version_matrix :: "call_log \<Rightarrow> sql_bool" where
  "cost_version_matrix l = (let s = lg_started l; c = lg_outcome l in sql_any
     [sql_all [known (sc_version s = 1), is_not_null (sc_cost_micro_usd s), is_null (sc_cost_currency s),
        is_null (sc_cost_microunits s), is_null (oc_actual_cost c)],
      sql_all [known (sc_version s = 2), is_null (sc_cost_micro_usd s), is_not_null (sc_cost_microunits s),
        sql_any [sql_in (sc_cost_currency s) [USD, CNY],
          sql_all [is_null (sc_cost_currency s), sql_eq (sc_cost_microunits s) (Some 0),
            sql_any [is_null (oc_actual_cost c), sql_eq (oc_actual_cost c) (Some 0)]]]]])"

definition log_checks :: "call_log \<Rightarrow> unit result" where
  "log_checks l = (let s = lg_started l; c = lg_outcome l in first_violated
     [(sc_version s \<in> {1, 2}, ''event_version_allowed''),
      (oc_sequence c \<in> {1, 2}, ''event_sequence_allowed''),
      (sc_generation_no s > 0, ''generation_positive''),
      (sc_attempt_no s > 0, ''provider_attempt_positive''),
      (sc_attempt_count s > 0, ''attempt_count_positive''),
      (sc_input_tokens s \<ge> 0 \<and> sc_output_tokens s \<ge> 0 \<and> nullable (\<lambda>n. n \<ge> 0) (sc_cost_micro_usd s)
         \<and> nullable (\<lambda>n. n \<ge> 0) (sc_cost_microunits s) \<and> nullable (\<lambda>n. n \<ge> 0) (oc_actual_cost c),
       ''reservation_nonnegative''),
      (check_passes (cost_version_matrix l), ''cost_version_matrix''),
      (sc_version s = 1
       \<or> (oc_status c \<in> {CALL_PENDING, CALL_OUTCOME_UNKNOWN} \<and> oc_actual_cost c = None)
       \<or> (oc_status c = CALL_SUCCEEDED \<and> oc_actual_cost c \<noteq> None)
       \<or> oc_status c \<in> {CALL_FAILED, CALL_DEGRADED, CALL_REJECTED}, ''actual_cost_matrix''),
      (is_hash (sc_policy_hash s) \<and> is_hash (sc_input_hash s) \<and> nullable is_hash (sc_prompt_hash s)
         \<and> nullable is_hash (oc_output_hash c), ''hashes_lower_hex''),
      (if oc_status c = CALL_PENDING then oc_sequence c = 1 \<and> oc_completed_at c = None
       else oc_sequence c = 2 \<and> oc_completed_at c \<noteq> None, ''lifecycle_matrix'')])"

text \<open>The rows an event or a log refers to.\<close>

record referenced =
  known_organization :: "uuid \<Rightarrow> bool"
  known_job :: "uuid \<Rightarrow> bool"

definition data_error :: "'a result" where "data_error = Inl (DbError ''22003'' ''value out of range'')"

definition insert_log :: "referenced \<Rightarrow> call_log \<Rightarrow> call_log list \<Rightarrow> call_log list result" where
  "insert_log refs l logs =
     (if \<not> (started_columns_fit (lg_started l) \<and> outcome_columns_fit (lg_outcome l)) then data_error
      else bind_result (log_checks l) (\<lambda>_.
        if \<exists>l' \<in> set logs. sc_id (lg_started l') = sc_id (lg_started l)
        then Inl (DbError ''23505'' ''pk_ai_call_logs'')
        else if \<not> (known_organization refs (sc_organization_id (lg_started l))
            \<and> nullable (known_job refs) (sc_job_id (lg_started l)))
        then Inl (DbError ''23503'' ''ai_call_logs'')
        else Inr (logs @ [l])))"

text \<open>The update trigger (version 2) and the constraints.\<close>

definition update_log :: "call_log \<Rightarrow> call_log \<Rightarrow> call_log list \<Rightarrow> call_log list result" where
  "update_log old new logs =
     (if \<not> (started_columns_fit (lg_started new) \<and> outcome_columns_fit (lg_outcome new)) then data_error
      else if oc_status (lg_outcome old) \<noteq> CALL_PENDING \<or> oc_status (lg_outcome new) = CALL_PENDING
        \<or> oc_sequence (lg_outcome new) \<noteq> 2 \<or> lg_started new \<noteq> lg_started old
      then Inl (DbError ''55000'' ''ai call terminal projection invalid'')
      else bind_result (log_checks new) (\<lambda>_.
        Inr (map (\<lambda>l. if sc_id (lg_started l) = sc_id (lg_started new) then new else l) logs)))"

definition find_log :: "uuid \<Rightarrow> call_log list \<Rightarrow> call_log option" where
  "find_log i logs = List.find (\<lambda>l. sc_id (lg_started l) = i) logs"

subsection \<open>The outbox\<close>

record audit_rows =
  ad_events :: "outbox_event list"
  ad_logs :: "call_log list"

text \<open>\<open>_event_row\<close>.\<close>

definition event_row :: "uuid \<Rightarrow> string \<Rightarrow> audit_rows \<Rightarrow> outbox_event option" where
  "event_row i name db = List.find (\<lambda>r. event_id (event_fixed r) = i \<and> event_type (event_fixed r) = name) (ad_events db)"

definition row_document :: "outbox_event \<Rightarrow> py_dict" where
  "row_document r = dict_of_json (payload_json (event_fixed r))"

text \<open>\<open>_event_from_payload\<close>.\<close>

definition event_from_row :: "outbox_event \<Rightarrow> ai_call_event result" where
  "event_from_row r = validate_ai_call_event (row_document r)"

text \<open>\<open>_outbox_matches\<close>.\<close>

definition outbox_matches :: "outbox_event \<Rightarrow> ai_call_event \<Rightarrow> py_dict \<Rightarrow> bool" where
  "outbox_matches r e payload \<longleftrightarrow> (let x = event_fixed r; c = event_call e in
     aggregate_type x = ''ai_call'' \<and> aggregate_id x = cc_event_id c \<and> event_id x = cc_event_id c
     \<and> event_type x = event_type_of e \<and> event_version x = event_version_of e
     \<and> event_sequence x = event_sequence_of e \<and> same_document (row_document r) payload
     \<and> event_trace_id x = cc_trace_id c)"

text \<open>\<open>_add_outbox\<close> and the flush: \<open>new_id\<close> is the row's \<open>uuid4\<close>, \<open>t\<close> its \<open>created_at\<close>. A JSON text
  cannot hold the character zero.\<close>

definition outbox_row :: "uuid \<Rightarrow> time \<Rightarrow> ai_call_event \<Rightarrow> py_dict \<Rightarrow> outbox_event" where
  "outbox_row new_id t e payload = (let c = event_call e in
     \<lparr>event_fixed = \<lparr>outbox_id = new_id, aggregate_type = ''ai_call'', aggregate_id = cc_event_id c,
        event_id = cc_event_id c, event_type = event_type_of e, event_version = event_version_of e,
        event_sequence = event_sequence_of e, payload_json = json_of_dict payload,
        event_trace_id = cc_trace_id c, event_created_at = t\<rparr>,
      event_status = PENDING, attempt_count = 0, next_attempt_at = None, published_at = None,
      last_error = None\<rparr>)"

definition json_storable :: "json_object \<Rightarrow> bool" where
  "json_storable j = list_all (\<lambda>(_, v). case v of JText s \<Rightarrow> CHR 0x00 \<notin> set s | JUnicode s \<Rightarrow> 0 \<notin> set s | _ \<Rightarrow> True) j"

definition insert_event :: "outbox_event \<Rightarrow> audit_rows \<Rightarrow> audit_rows result" where
  "insert_event r db = (let x = event_fixed r in
     if \<not> json_storable (payload_json x) then Inl (DbError ''22P05'' ''payload_json'')
     else bind_result (event_insert_trigger None r) (\<lambda>row.
     bind_result (event_checks row) (\<lambda>_.
     if \<exists>r' \<in> set (ad_events db). outbox_id (event_fixed r') = outbox_id x
     then Inl (DbError ''23505'' ''pk_outbox_events'')
     else if \<exists>r' \<in> set (ad_events db). event_id (event_fixed r') = event_id x \<and> event_type (event_fixed r') = event_type x
     then Inl (DbError ''23505'' ''uq_outbox_events_event_id_event_type'')
     else if \<exists>r' \<in> set (ad_events db). aggregate_type (event_fixed r') = aggregate_type x
         \<and> aggregate_id (event_fixed r') = aggregate_id x \<and> event_sequence (event_fixed r') = event_sequence x
     then Inl (DbError ''23505'' ''uq_outbox_events_aggregate_type_aggregate_id_event_sequence'')
     else Inr (db\<lparr>ad_events := ad_events db @ [row]\<rparr>))))"

definition add_outbox :: "uuid \<Rightarrow> time \<Rightarrow> ai_call_event \<Rightarrow> py_dict \<Rightarrow> audit_rows \<Rightarrow> audit_rows result" where
  "add_outbox new_id t e payload db = insert_event (outbox_row new_id t e payload) db"

section \<open>Reservation\<close>

datatype reserve_status = RESERVED_NEW | RESERVE_REPLAYED | RESERVE_CONFLICT | RESERVE_UNKNOWN
  | BUDGET_EXHAUSTED | DEADLINE_EXHAUSTED

text \<open>\<open>payload_json->>name\<close>.\<close>

definition json_text :: "json_value \<Rightarrow> pystr option" where
  "json_text v = (case v of
     JText s \<Rightarrow> Some (lit s) | JUnicode s \<Rightarrow> Some s | JNull \<Rightarrow> None
   | JBool b \<Rightarrow> Some (lit (if b then ''true'' else ''false''))
   | JInt n \<Rightarrow> Some ((if n < 0 then [45] else []) @ dec_digits (nat \<bar>n\<bar>)) | JOther s \<Rightarrow> Some (lit s))"

definition payload_text :: "outbox_event \<Rightarrow> string \<Rightarrow> pystr option" where
  "payload_text r k = Option.bind (json_get (payload_json (event_fixed r)) k) json_text"

definition same_operation :: "call_correlation \<Rightarrow> outbox_event \<Rightarrow> bool" where
  "same_operation c r \<longleftrightarrow>
     aggregate_type (event_fixed r) = ''ai_call'' \<and> event_type (event_fixed r) = ''ai.call.started''
     \<and> payload_text r ''organization_id'' = Some (uuid_str (cc_organization_id c))
     \<and> payload_text r ''business_operation_id'' = Some (uuid_str (cc_operation_id c))
     \<and> payload_text r ''policy_version'' = Some (dec_digits (nat (cc_policy_version c)))"

definition row_order :: "outbox_event \<Rightarrow> time \<times> uuid" where
  "row_order r = (event_created_at (event_fixed r), outbox_id (event_fixed r))"

text \<open>\<open>_operation_started_events\<close>.\<close>

definition operation_started_events ::
  "call_correlation \<Rightarrow> audit_rows \<Rightarrow> (started_event \<times> event_status) list result" where
  "operation_started_events c db = map_result
     (\<lambda>r. bind_result (event_from_row r) (\<lambda>e. case e of
        Started s \<Rightarrow> Inr (s, event_status r)
      | _ \<Rightarrow> Inl (DomainError ''AI_AUDIT_STORED_EVENT_INVALID'')))
     (sort_key row_order (filter (same_operation c) (ad_events db)))"

text \<open>The loop over the attempts of the operation: the attempt numbers, tokens and cost reserved so far, or
  the status the loop returns with. Costs of different versions or currencies conflict.\<close>

fun cost_amount :: "reserved_cost \<Rightarrow> int" where
  "cost_amount (MicroUsd n) = n"
| "cost_amount (Microunits _ n) = n"

fun same_unit :: "reserved_cost \<Rightarrow> reserved_cost \<Rightarrow> bool" where
  "same_unit (MicroUsd _) (MicroUsd _) = True"
| "same_unit (Microunits c _) (Microunits c' _) = (c = c')"
| "same_unit _ _ = False"

fun count_reserved ::
  "started_event \<Rightarrow> (started_event \<times> event_status) list \<Rightarrow> int set \<times> int \<times> int
   \<Rightarrow> reserve_status + (int set \<times> int \<times> int)" where
  "count_reserved s [] acc = Inr acc"
| "count_reserved s ((old, old_status) # rest) (numbers, tokens, cost) =
     (if old_status = DEAD_LETTER then Inl RESERVE_UNKNOWN
      else if st_call_type old \<noteq> st_call_type s \<or> started_version old \<noteq> started_version s
        \<or> \<not> same_unit (st_cost old) (st_cost s) then Inl RESERVE_CONFLICT
      else count_reserved s rest
        (insert (st_attempt_no old) numbers, tokens + (st_input_tokens old + st_output_tokens old),
         cost + cost_amount (st_cost old)))"

definition cost_exceeded :: "reserved_cost \<Rightarrow> int \<Rightarrow> reserved_cost \<Rightarrow> bool" where
  "cost_exceeded limit reserved cost \<longleftrightarrow>
     (case (limit, cost) of
        (Microunits c _, Microunits c' _) \<Rightarrow> c \<noteq> c' \<or> reserved + cost_amount cost > cost_amount limit
      | _ \<Rightarrow> reserved + cost_amount cost > cost_amount limit)"

definition limits_version :: "audit_limits \<Rightarrow> int" where
  "limits_version l = (case lim_cost l of MicroUsd _ \<Rightarrow> 1 | Microunits _ _ \<Rightarrow> 2)"

definition reserve_attempt ::
  "uuid \<Rightarrow> time \<Rightarrow> rat option \<Rightarrow> rat option \<Rightarrow> rat option \<Rightarrow> ai_call_event \<Rightarrow> audit_limits \<Rightarrow> audit_rows
   \<Rightarrow> (reserve_status \<times> audit_rows) result" where
  "reserve_attempt new_id t deadline minimum current event limits db =
     bind_result (strict_event_view event) (\<lambda>(e, payload).
     case e of Started s \<Rightarrow>
       if (started_version s = 1) \<noteq> (limits_version limits = 1)
       then Inl (TypeError ''event and audit limits versions must match'')
       else (case event_row (cc_event_id (st_call s)) ''ai.call.started'' db of
         Some r \<Rightarrow> Inr (if outbox_matches r e payload
           then if event_status r = DEAD_LETTER then RESERVE_UNKNOWN else RESERVE_REPLAYED
           else RESERVE_CONFLICT, db)
       | None \<Rightarrow>
         bind_result (validate_deadline deadline minimum current) (\<lambda>in_time.
         if \<not> in_time then Inr (DEADLINE_EXHAUSTED, db)
         else bind_result (operation_started_events (st_call s) db) (\<lambda>committed.
           case count_reserved s committed ({}, 0, 0) of
             Inl result \<Rightarrow> Inr (result, db)
           | Inr (numbers, tokens, cost) \<Rightarrow>
               if st_attempt_no s \<in> numbers then Inr (RESERVE_CONFLICT, db)
               else if int (length committed) + 1 > lim_attempts limits
                 \<or> st_input_tokens s > lim_input_tokens limits \<or> st_output_tokens s > lim_output_tokens limits
                 \<or> tokens + st_input_tokens s + st_output_tokens s > lim_total_tokens limits
                 \<or> cost_exceeded (lim_cost limits) cost (st_cost s)
               then Inr (BUDGET_EXHAUSTED, db)
               else bind_result (add_outbox new_id t e payload db) (\<lambda>db'. Inr (RESERVED_NEW, db')))))
     | _ \<Rightarrow> Inl (TypeError ''reserve_attempt requires a started event''))"

section \<open>Completion\<close>

datatype complete_status = COMPLETED_NEW | COMPLETE_REPLAYED | LATE_RECORDED | COMPLETE_CONFLICT
  | COMPLETE_UNKNOWN | AUDIT_UNAVAILABLE

definition is_late :: "ai_call_event \<Rightarrow> bool" where
  "is_late e = (case e of Late _ \<Rightarrow> True | _ \<Rightarrow> False)"

text \<open>What the chain validator decides is a status here: it raises nothing but a conflict.\<close>

definition unless_conflict :: "unit result \<Rightarrow> (complete_status \<times> audit_rows) result \<Rightarrow> audit_rows
    \<Rightarrow> (complete_status \<times> audit_rows) result" where
  "unless_conflict chain r db = (case chain of Inl _ \<Rightarrow> Inr (COMPLETE_CONFLICT, db) | Inr _ \<Rightarrow> r)"

definition append_completion ::
  "uuid \<Rightarrow> time \<Rightarrow> ai_call_event \<Rightarrow> audit_rows \<Rightarrow> (complete_status \<times> audit_rows) result" where
  "append_completion new_id t event db =
     bind_result (strict_event_view event) (\<lambda>(e, payload).
     let i = cc_event_id (event_call e);
         append = bind_result (add_outbox new_id t e payload db)
           (\<lambda>db'. Inr (if is_late e then LATE_RECORDED else COMPLETED_NEW, db'))
     in case e of Started _ \<Rightarrow> Inl (TypeError ''append_completion requires completed or late event'')
     | _ \<Rightarrow>
       (case event_row i (event_type_of e) db of
         Some r \<Rightarrow> Inr (if \<not> outbox_matches r e payload then COMPLETE_CONFLICT
           else if event_status r = DEAD_LETTER then AUDIT_UNAVAILABLE
           else if is_late e then LATE_RECORDED else COMPLETE_REPLAYED, db)
       | None \<Rightarrow>
         (case event_row i ''ai.call.started'' db of
           None \<Rightarrow> Inr (COMPLETE_UNKNOWN, db)
         | Some started_row \<Rightarrow>
           if event_status started_row = DEAD_LETTER then Inr (COMPLETE_UNKNOWN, db)
           else bind_result (event_from_row started_row) (\<lambda>first.
             case first of Started s \<Rightarrow>
               (case e of
                  Completed c \<Rightarrow>
                    (if \<exists>l. find_log i (ad_logs db) = Some l \<and> oc_status (lg_outcome l) = CALL_OUTCOME_UNKNOWN
                     then Inr (COMPLETE_CONFLICT, db)
                     else unless_conflict (validate_ai_call_event_chain_any s c None) append db)
                | Late l \<Rightarrow>
                    (case event_row i ''ai.call.completed'' db of
                      None \<Rightarrow> Inr (COMPLETE_UNKNOWN, db)
                    | Some completed_row \<Rightarrow>
                      if event_status completed_row \<noteq> PUBLISHED then Inr (COMPLETE_UNKNOWN, db)
                      else bind_result (event_from_row completed_row) (\<lambda>second.
                        case second of Completed c \<Rightarrow>
                          unless_conflict (validate_ai_call_event_chain_any s c (Some l))
                            (case find_log i (ad_logs db) of
                               None \<Rightarrow> Inr (COMPLETE_CONFLICT, db)
                             | Some entry \<Rightarrow>
                                 if oc_status (lg_outcome entry) \<noteq> CALL_OUTCOME_UNKNOWN
                                 then Inr (COMPLETE_CONFLICT, db) else append) db
                        | _ \<Rightarrow> Inr (COMPLETE_CONFLICT, db)))
                | Started _ \<Rightarrow> Inr (COMPLETE_CONFLICT, db))
             | _ \<Rightarrow> Inr (COMPLETE_CONFLICT, db)))))"

section \<open>Projection\<close>

datatype projection_status = PROJECTION_IDLE | PROJECTED | PROJECTION_REPLAYED | PROJECTED_LATE
  | PROJECTION_DEAD_LETTER | PROJECTION_STALE

text \<open>\<open>_started_values\<close> and \<open>_completed_values\<close>.\<close>

definition started_values_of :: "started_event \<Rightarrow> started_columns" where
  "started_values_of s = (let c = st_call s in
     \<lparr>sc_id = cc_event_id c, sc_version = started_version s, sc_organization_id = cc_organization_id c,
      sc_operation_id = cc_operation_id c, sc_job_id = cc_job_id c, sc_request_id = cc_request_id c,
      sc_resource_type = st_resource_type s, sc_resource_id = st_resource_id s, sc_trace_id = cc_trace_id c,
      sc_call_type = st_call_type s, sc_generation_no = st_generation_no s, sc_attempt_no = st_attempt_no s,
      sc_adapter = st_adapter s, sc_endpoint_id = st_endpoint_id s, sc_model_id = st_model_id s,
      sc_model_version = st_model_version s, sc_prompt_id = st_prompt_id s,
      sc_prompt_version = st_prompt_version s, sc_prompt_hash = st_prompt_hash s,
      sc_schema_version = st_schema_version s, sc_policy_version = dec_digits (nat (cc_policy_version c)),
      sc_policy_hash = cc_policy_hash c, sc_pricing_version = st_pricing_version s,
      sc_input_hash = st_input_hash s, sc_input_tokens = st_input_tokens s,
      sc_output_tokens = st_output_tokens s, sc_attempt_count = st_attempt_count s,
      sc_is_fallback = st_is_fallback s, sc_breaker_state = st_breaker_state s,
      sc_started_at = st_started_at s,
      sc_cost_micro_usd = (case st_cost s of MicroUsd n \<Rightarrow> Some n | Microunits _ _ \<Rightarrow> None),
      sc_cost_currency = (case st_cost s of MicroUsd _ \<Rightarrow> None | Microunits currency _ \<Rightarrow> currency),
      sc_cost_microunits = (case st_cost s of MicroUsd _ \<Rightarrow> None | Microunits _ n \<Rightarrow> Some n)\<rparr>)"

definition pending_outcome :: outcome_columns where
  "pending_outcome = \<lparr>oc_sequence = 1, oc_output_hash = None, oc_input_tokens = None, oc_output_tokens = None,
     oc_vector_count = None, oc_citation_status = None, oc_status = CALL_PENDING, oc_error_category = None,
     oc_safe_error = None, oc_http_status = None, oc_completed_at = None, oc_duration_ms = None,
     oc_actual_cost = None\<rparr>"

text \<open>The outcome columns after the values of a completed event are set: version 1 leaves the actual cost.\<close>

definition completed_outcome :: "completed_event \<Rightarrow> outcome_columns \<Rightarrow> outcome_columns" where
  "completed_outcome c old =
     \<lparr>oc_sequence = 2, oc_output_hash = co_output_hash c, oc_input_tokens = co_input_tokens c,
      oc_output_tokens = co_output_tokens c, oc_vector_count = co_vector_count c,
      oc_citation_status = co_citation_status c, oc_status = co_status c,
      oc_error_category = co_error_category c, oc_safe_error = co_safe_error c,
      oc_http_status = co_http_status c, oc_completed_at = Some (co_completed_at c),
      oc_duration_ms = Some (co_duration_ms c),
      oc_actual_cost = (case co_cost c of None \<Rightarrow> oc_actual_cost old | Some (_, units) \<Rightarrow> units)\<rparr>"

text \<open>\<open>_project_started\<close>, \<open>_project_completed\<close> and \<open>_project_late\<close>.\<close>

definition project_started ::
  "referenced \<Rightarrow> started_event \<Rightarrow> audit_rows \<Rightarrow> (projection_status \<times> audit_rows) result" where
  "project_started refs s db = (let values_of = started_values_of s in
     case find_log (cc_event_id (st_call s)) (ad_logs db) of
       Some l \<Rightarrow> if lg_started l = values_of then Inr (PROJECTION_REPLAYED, db) else conflict_error
     | None \<Rightarrow> bind_result (insert_log refs \<lparr>lg_started = values_of, lg_outcome = pending_outcome\<rparr> (ad_logs db))
         (\<lambda>logs. Inr (PROJECTED, db\<lparr>ad_logs := logs\<rparr>)))"

definition published_event :: "uuid \<Rightarrow> string \<Rightarrow> audit_rows \<Rightarrow> ai_call_event result" where
  "published_event i name db = (case event_row i name db of
     None \<Rightarrow> conflict_error
   | Some r \<Rightarrow> if event_status r \<noteq> PUBLISHED then conflict_error else event_from_row r)"

definition project_completed :: "completed_event \<Rightarrow> audit_rows \<Rightarrow> (projection_status \<times> audit_rows) result" where
  "project_completed c db = (let i = cc_event_id (co_call c) in
     bind_result (published_event i ''ai.call.started'' db) (\<lambda>first.
     case first of Started s \<Rightarrow>
       bind_result (validate_ai_call_event_chain_any s c None) (\<lambda>_.
         (case find_log i (ad_logs db) of
            None \<Rightarrow> conflict_error
          | Some l \<Rightarrow>
              let outcome = completed_outcome c (lg_outcome l) in
              if oc_status (lg_outcome l) \<noteq> CALL_PENDING
              then if lg_outcome l = outcome then Inr (PROJECTION_REPLAYED, db) else conflict_error
              else bind_result (update_log l (l\<lparr>lg_outcome := outcome\<rparr>) (ad_logs db))
                (\<lambda>logs. Inr (PROJECTED, db\<lparr>ad_logs := logs\<rparr>))))
     | _ \<Rightarrow> conflict_error))"

definition project_late :: "late_event \<Rightarrow> audit_rows \<Rightarrow> (projection_status \<times> audit_rows) result" where
  "project_late l db = (let i = cc_event_id (la_call l) in
     case (event_row i ''ai.call.started'' db, event_row i ''ai.call.completed'' db) of
       (Some started_row, Some completed_row) \<Rightarrow>
         if event_status started_row \<noteq> PUBLISHED \<or> event_status completed_row \<noteq> PUBLISHED then conflict_error
         else bind_result (event_from_row started_row) (\<lambda>first.
           bind_result (event_from_row completed_row) (\<lambda>second.
           case (first, second) of
             (Started s, Completed c) \<Rightarrow>
               bind_result (validate_ai_call_event_chain_any s c (Some l)) (\<lambda>_.
               (case find_log i (ad_logs db) of
                  None \<Rightarrow> conflict_error
                | Some entry \<Rightarrow> if oc_status (lg_outcome entry) \<noteq> CALL_OUTCOME_UNKNOWN then conflict_error
                    else Inr (PROJECTED_LATE, db)))
           | _ \<Rightarrow> conflict_error))
     | _ \<Rightarrow> conflict_error)"

text \<open>\<open>_claim_specific\<close>: the claimed row, with what is read from it.\<close>

definition update_row ::
  "(string \<Rightarrow> nat list) \<Rightarrow> time \<Rightarrow> outbox_event \<Rightarrow> outbox_event \<Rightarrow> audit_rows \<Rightarrow> (outbox_event \<times> audit_rows) result" where
  "update_row digest now old new db = bind_result (update_event digest now old new)
     (\<lambda>row. Inr (row, db\<lparr>ad_events := replace_event row (ad_events db)\<rparr>))"

definition due :: "time \<Rightarrow> outbox_event \<Rightarrow> bool" where
  "due t r \<longleftrightarrow> event_status r = PENDING
     \<or> (event_status r = EVENT_FAILED \<and> holds (sql_le (next_attempt_at r) (Some t)))"

definition claim_specific ::
  "(string \<Rightarrow> nat list) \<Rightarrow> time \<Rightarrow> time \<Rightarrow> uuid \<Rightarrow> audit_rows \<Rightarrow> (outbox_event option \<times> audit_rows) result" where
  "claim_specific digest t now row_id db =
     (case List.find (\<lambda>r. event_row_id r = row_id) (ad_events db) of
        None \<Rightarrow> Inr (None, db)
      | Some r \<Rightarrow>
          if aggregate_type (event_fixed r) = ''ai_call'' \<and> due t r
          then bind_result (update_row digest now r (r\<lparr>event_status := PROCESSING\<rparr>) db)
            (\<lambda>(row, db'). Inr (Some row, db'))
          else Inr (None, db))"

definition fence_lost :: "'a result" where
  "fence_lost = Inl (DomainError ''AI_AUDIT_OUTBOX_FENCE_LOST'')"

text \<open>An update of the claimed row, fenced by its status and its delivery attempt.\<close>

definition finish_claim ::
  "(string \<Rightarrow> nat list) \<Rightarrow> time \<Rightarrow> outbox_event \<Rightarrow> (outbox_event \<Rightarrow> outbox_event) \<Rightarrow> audit_rows \<Rightarrow> audit_rows result" where
  "finish_claim digest now claim change db =
     (case List.find (\<lambda>r. event_row_id r = event_row_id claim) (ad_events db) of
        None \<Rightarrow> fence_lost
      | Some r \<Rightarrow>
          if event_status r = PROCESSING \<and> attempt_count r = attempt_count claim
          then bind_result (update_row digest now r (change r) db) (\<lambda>(_, db'). Inr db')
          else fence_lost)"

definition dead_letter ::
  "(string \<Rightarrow> nat list) \<Rightarrow> time \<Rightarrow> outbox_event \<Rightarrow> string \<Rightarrow> audit_rows \<Rightarrow> audit_rows result" where
  "dead_letter digest now claim code db =
     finish_claim digest now claim (\<lambda>r. r\<lparr>event_status := DEAD_LETTER, last_error := Some code\<rparr>) db"

definition claim_matches_event :: "outbox_event \<Rightarrow> ai_call_event \<Rightarrow> bool" where
  "claim_matches_event r e \<longleftrightarrow> (let x = event_fixed r; c = event_call e in
     aggregate_type x = ''ai_call'' \<and> aggregate_id x = cc_event_id c \<and> event_id x = cc_event_id c
     \<and> event_type x = event_type_of e \<and> event_version x = event_version_of e
     \<and> event_sequence x = event_sequence_of e \<and> event_trace_id x = cc_trace_id c)"

fun project_event :: "referenced \<Rightarrow> ai_call_event \<Rightarrow> audit_rows \<Rightarrow> (projection_status \<times> audit_rows) result" where
  "project_event refs (Started s) db = project_started refs s db"
| "project_event refs (Completed c) db = project_completed c db"
| "project_event refs (Late l) db = project_late l db"

text \<open>The errors that \<open>_project_claim\<close> turns into a dead letter; a database error ends the transaction.\<close>

definition dead_letters :: "py_error \<Rightarrow> bool" where
  "dead_letters err = (case err of ValueError _ \<Rightarrow> True | TypeError _ \<Rightarrow> True | _ \<Rightarrow> False)"

definition project_claim ::
  "(string \<Rightarrow> nat list) \<Rightarrow> time \<Rightarrow> referenced \<Rightarrow> outbox_event \<Rightarrow> audit_rows \<Rightarrow> (projection_status \<times> audit_rows) result" where
  "project_claim digest now refs claim db =
     (if event_version (event_fixed claim) \<notin> {1, 2}
      then bind_result (dead_letter digest now claim ''UNSUPPORTED_EVENT_VERSION'' db)
        (\<lambda>db'. Inr (PROJECTION_DEAD_LETTER, db'))
      else (case bind_result (event_from_row claim) (\<lambda>e.
            if claim_matches_event claim e then project_event refs e db
            else Inl (ValueError ''outbox identity mismatch'')) of
          Inr (result, db1) \<Rightarrow>
            bind_result (finish_claim digest now claim (\<lambda>r. r\<lparr>event_status := PUBLISHED\<rparr>) db1)
              (\<lambda>db'. Inr (result, db'))
        | Inl err \<Rightarrow>
            if dead_letters err
            then bind_result (dead_letter digest now claim ''SERIALIZATION_FAILED'' db)
              (\<lambda>db'. Inr (PROJECTION_DEAD_LETTER, db'))
            else Inl err))"

text \<open>\<open>project_next\<close>: the oldest event that is due and whose predecessor is settled. \<open>t\<close> and \<open>t'\<close> are the
  clock readings of the two statements, \<open>now\<close> and \<open>now'\<close> those of the trigger.\<close>

definition settled_prior :: "uuid \<Rightarrow> string \<Rightarrow> audit_rows \<Rightarrow> bool" where
  "settled_prior i name db \<longleftrightarrow> list_ex (\<lambda>r. aggregate_type (event_fixed r) = ''ai_call''
     \<and> aggregate_id (event_fixed r) = i \<and> event_type (event_fixed r) = name
     \<and> event_status r \<in> {PUBLISHED, DEAD_LETTER}) (ad_events db)"

definition projectable :: "time \<Rightarrow> audit_rows \<Rightarrow> outbox_event \<Rightarrow> bool" where
  "projectable t db r \<longleftrightarrow> (let x = event_fixed r in
     aggregate_type x = ''ai_call'' \<and> due t r
     \<and> (event_type x \<notin> {''ai.call.completed'', ''ai.call.late_completion''}
        \<or> event_type x = ''ai.call.completed''
          \<and> (event_sequence x \<noteq> 2 \<or> settled_prior (aggregate_id x) ''ai.call.started'' db)
        \<or> event_type x = ''ai.call.late_completion''
          \<and> (event_sequence x \<noteq> 3 \<or> settled_prior (aggregate_id x) ''ai.call.completed'' db)))"

definition project_next ::
  "(string \<Rightarrow> nat list) \<Rightarrow> time \<Rightarrow> time \<Rightarrow> time \<Rightarrow> time \<Rightarrow> referenced \<Rightarrow> audit_rows
   \<Rightarrow> (projection_status \<times> audit_rows) result" where
  "project_next digest t t' now now' refs db =
     (case filter (projectable t db) (ad_events db) of
        [] \<Rightarrow> Inr (PROJECTION_IDLE, db)
      | candidates \<Rightarrow>
          bind_result (claim_specific digest t' now (event_row_id (arg_min_list row_order candidates)) db)
            (\<lambda>(claim, db1). case claim of
               None \<Rightarrow> Inr (PROJECTION_STALE, db1)
             | Some row \<Rightarrow> project_claim digest now' refs row db1))"

section \<open>Reconciliation\<close>

datatype reconcile_status = RECONCILE_IDLE | RECONCILED_UNKNOWN | RECONCILED_COMPLETION
  | RECONCILE_BLOCKED | RECONCILE_STALE

text \<open>\<open>_validated_deadlines\<close>: a positive number of seconds for each of the six call types.\<close>

definition validated_deadlines :: "(pystr \<times> pyval) list \<Rightarrow> (call_type \<Rightarrow> int) result" where
  "validated_deadlines given_values =
     (if fst ` set given_values \<noteq> snd ` set call_types
      then Inl (ValueError ''deadline mapping must contain the six approved call types'')
      else if \<not> list_all (\<lambda>k. case map_of given_values (snd k) of Some (PyInt n) \<Rightarrow> 0 < n | _ \<Rightarrow> False) call_types
      then Inl (ValueError ''deadline values must be positive integers'')
      else Inr (\<lambda>k. case map_of given_values (text_in call_types k) of Some (PyInt n) \<Rightarrow> n | _ \<Rightarrow> 0))"

definition grace_seconds :: int where "grace_seconds = 30"

definition expired :: "(call_type \<Rightarrow> int) \<Rightarrow> time \<Rightarrow> call_log \<Rightarrow> bool" where
  "expired deadlines t l \<longleftrightarrow>
     stamp_time (sc_started_at (lg_started l)) + seconds (deadlines (sc_call_type (lg_started l)) + grace_seconds) \<le> t"

text \<open>The completed event that closes a call whose outcome is unknown.\<close>

definition outcome_document :: "started_event \<Rightarrow> stamp \<Rightarrow> int \<Rightarrow> py_dict" where
  "outcome_document s now duration = event_payload (Completed
     \<lparr>co_call = st_call s,
      co_cost = (case st_cost s of MicroUsd _ \<Rightarrow> None | Microunits currency _ \<Rightarrow> Some (currency, None)),
      co_status = CALL_OUTCOME_UNKNOWN, co_completed_at = now, co_duration_ms = duration,
      co_output_hash = None, co_input_tokens = None, co_output_tokens = None, co_vector_count = None,
      co_http_status = None, co_error_category = None, co_safe_error = Some (lit ''AI_OUTCOME_UNKNOWN''),
      co_citation_status = None\<rparr>)"

text \<open>\<open>int((now - started_at).total_seconds() * 1000)\<close>, never negative.\<close>

definition elapsed_ms :: "stamp \<Rightarrow> stamp \<Rightarrow> int" where
  "elapsed_ms started now = max 0 ((stamp_time now - stamp_time started) div 1000)"

text \<open>The clock readings of a reconciliation: of the search, of the explicit query, of the claim and of the
  trigger's runs.\<close>

record reconcile_clocks =
  rc_search :: time
  rc_now :: stamp
  rc_claim :: time
  rc_trigger :: time
  rc_trigger' :: time

definition reconcile_claim ::
  "(string \<Rightarrow> nat list) \<Rightarrow> reconcile_clocks \<Rightarrow> referenced \<Rightarrow> uuid \<Rightarrow> audit_rows
   \<Rightarrow> ((projection_status \<times> audit_rows) option) result" where
  "reconcile_claim digest clocks refs row_id db =
     bind_result (claim_specific digest (rc_claim clocks) (rc_trigger clocks) row_id db) (\<lambda>(claim, db1).
       case claim of None \<Rightarrow> Inr None
       | Some row \<Rightarrow> bind_result (project_claim digest (rc_trigger' clocks) refs row db1) (\<lambda>r. Inr (Some r)))"

definition close_unknown ::
  "(string \<Rightarrow> nat list) \<Rightarrow> uuid \<Rightarrow> time \<Rightarrow> reconcile_clocks \<Rightarrow> referenced \<Rightarrow> started_event \<Rightarrow> stamp \<Rightarrow> audit_rows
   \<Rightarrow> (reconcile_status \<times> audit_rows) result" where
  "close_unknown digest new_id created clocks refs s started db =
     bind_result (validate_ai_call_event
       (outcome_document s (rc_now clocks) (elapsed_ms started (rc_now clocks)))) (\<lambda>e.
     case e of Completed _ \<Rightarrow>
       bind_result (add_outbox new_id created e (event_payload e) db) (\<lambda>db1.
       bind_result (reconcile_claim digest clocks refs new_id db1) (\<lambda>r.
       case r of
         None \<Rightarrow> Inl (DomainError ''AI_OUTCOME_UNKNOWN_CLAIM_FAILED'')
       | Some (result, db2) \<Rightarrow>
           if result = PROJECTED then Inr (RECONCILED_UNKNOWN, db2)
           else Inl (DomainError ''AI_OUTCOME_UNKNOWN_PROJECTION_FAILED'')))
     | _ \<Rightarrow> Inl (DomainError ''AI_OUTCOME_UNKNOWN_EVENT_INVALID''))"

definition log_order :: "call_log \<Rightarrow> int \<times> uuid" where
  "log_order l = (stamp_time (sc_started_at (lg_started l)), sc_id (lg_started l))"

definition reconcile_expired_once ::
  "(string \<Rightarrow> nat list) \<Rightarrow> uuid \<Rightarrow> time \<Rightarrow> reconcile_clocks \<Rightarrow> referenced \<Rightarrow> (pystr \<times> pyval) list \<Rightarrow> audit_rows
   \<Rightarrow> (reconcile_status \<times> audit_rows) result" where
  "reconcile_expired_once digest new_id created clocks refs given_values db =
     bind_result (validated_deadlines given_values) (\<lambda>deadlines.
     case filter (\<lambda>l. oc_status (lg_outcome l) = CALL_PENDING \<and> expired deadlines (rc_search clocks) l) (ad_logs db) of
       [] \<Rightarrow> Inr (RECONCILE_IDLE, db)
     | candidates \<Rightarrow>
       (let i = sc_id (lg_started (arg_min_list log_order candidates)) in
        case event_row i ''ai.call.completed'' db of
          Some r \<Rightarrow>
            if event_status r = DEAD_LETTER then Inr (RECONCILE_BLOCKED, db)
            else if event_status r = PUBLISHED
            then Inr (case find_log i (ad_logs db) of
                Some l \<Rightarrow> if oc_status (lg_outcome l) \<noteq> CALL_PENDING then RECONCILED_COMPLETION else RECONCILE_BLOCKED
              | None \<Rightarrow> RECONCILE_BLOCKED, db)
            else bind_result (reconcile_claim digest clocks refs (event_row_id r) db) (\<lambda>projected.
              case projected of
                None \<Rightarrow> Inr (RECONCILE_STALE, db)
              | Some (result, db') \<Rightarrow>
                  Inr (if result \<in> {PROJECTED, PROJECTION_REPLAYED} then RECONCILED_COMPLETION
                    else RECONCILE_BLOCKED, db'))
        | None \<Rightarrow>
            (case find_log i (ad_logs db) of
               None \<Rightarrow> Inr (RECONCILE_STALE, db)
             | Some l \<Rightarrow>
               if oc_status (lg_outcome l) \<noteq> CALL_PENDING then Inr (RECONCILE_STALE, db)
               else if \<not> expired deadlines (stamp_time (rc_now clocks)) l then Inr (RECONCILE_STALE, db)
               else (case event_row i ''ai.call.started'' db of
                  None \<Rightarrow> Inr (RECONCILE_BLOCKED, db)
                | Some started_row \<Rightarrow>
                    if event_status started_row \<noteq> PUBLISHED then Inr (RECONCILE_BLOCKED, db)
                    else bind_result (event_from_row started_row) (\<lambda>first.
                      case first of
                        Started s \<Rightarrow> close_unknown digest new_id created clocks refs s
                            (sc_started_at (lg_started l)) db
                      | _ \<Rightarrow> Inr (RECONCILE_BLOCKED, db))))))"

section \<open>The summary of an operation\<close>

record attempt_audit =
  at_started :: started_columns
  at_status :: call_status
  at_input_tokens :: "int option"
  at_output_tokens :: "int option"
  at_completed_at :: "stamp option"
  at_safe_error :: "pystr option"
  at_actual_cost :: "int option"

record operation_summary =
  os_organization_id :: uuid
  os_operation_id :: uuid
  os_attempt_count :: int
  os_reserved_input_tokens :: int
  os_reserved_output_tokens :: int
  os_reserved_micro_usd :: "int option"
  os_actual_input_tokens :: int
  os_actual_output_tokens :: int
  os_attempts :: "attempt_audit list"
  os_currency :: "cost_currency option"
  os_reserved_microunits :: "int option"
  os_actual_microunits :: "int option"

definition attempt_of :: "call_log \<Rightarrow> attempt_audit" where
  "attempt_of l = (let c = lg_outcome l in
     \<lparr>at_started = lg_started l, at_status = oc_status c, at_input_tokens = oc_input_tokens c,
      at_output_tokens = oc_output_tokens c, at_completed_at = oc_completed_at c,
      at_safe_error = oc_safe_error c, at_actual_cost = oc_actual_cost c\<rparr>)"

definition get_operation_summary :: "uuid \<Rightarrow> uuid \<Rightarrow> audit_rows \<Rightarrow> operation_summary option" where
  "get_operation_summary organization operation db =
     (let rows = sort_key (\<lambda>l. (sc_attempt_no (lg_started l), sc_id (lg_started l)))
            (filter (\<lambda>l. sc_organization_id (lg_started l) = organization
               \<and> sc_operation_id (lg_started l) = operation) (ad_logs db));
          started = map lg_started rows; outcomes = map lg_outcome rows;
          all_v1 = list_all (\<lambda>s. sc_version s = 1) started;
          all_v2 = list_all (\<lambda>s. sc_version s = 2) started;
          currencies_used = remdups (map sc_cost_currency (filter (\<lambda>s. sc_version s = 2) started));
          one_currency = (all_v2 \<and> length currencies_used = 1)
      in if rows = [] then None
         else Some \<lparr>os_organization_id = organization, os_operation_id = operation,
           os_attempt_count = int (length rows),
           os_reserved_input_tokens = sum_list (map sc_input_tokens started),
           os_reserved_output_tokens = sum_list (map sc_output_tokens started),
           os_reserved_micro_usd =
             (if all_v1 then Some (sum_list (map (\<lambda>s. the (sc_cost_micro_usd s)) started)) else None),
           os_actual_input_tokens = sum_list (map (\<lambda>c. case oc_input_tokens c of Some n \<Rightarrow> n | None \<Rightarrow> 0) outcomes),
           os_actual_output_tokens = sum_list (map (\<lambda>c. case oc_output_tokens c of Some n \<Rightarrow> n | None \<Rightarrow> 0) outcomes),
           os_attempts = map attempt_of rows,
           os_currency = (if one_currency then hd currencies_used else None),
           os_reserved_microunits =
             (if one_currency then Some (sum_list (map (\<lambda>s. the (sc_cost_microunits s)) started)) else None),
           os_actual_microunits =
             (if one_currency \<and> list_all (\<lambda>c. oc_actual_cost c \<noteq> None) outcomes
              then Some (sum_list (map (\<lambda>c. the (oc_actual_cost c)) outcomes)) else None)\<rparr>)"

end
