(* ===== verification/AiCallHistory.thy ===== *)
theory AiCallHistory
  imports AiCallAudit
begin

text \<open>
  Histories of the call audit: the calls of the repository as steps on its tables, what the outbox holds in
  every history, and the life of a call as the published events tell it.
\<close>

section \<open>Steps\<close>

datatype audit_call =
    Reserve uuid time "rat option" "rat option" "rat option" ai_call_event audit_limits
  | Append uuid time ai_call_event
  | ProjectNext time time time time
  | Reconcile uuid time reconcile_clocks "(pystr \<times> pyval) list"

text \<open>A call that raises leaves the tables as they were.\<close>

definition committed :: "('a \<times> audit_rows) result \<Rightarrow> audit_rows \<Rightarrow> audit_rows" where
  "committed r db = (case r of Inr (_, db') \<Rightarrow> db' | Inl _ \<Rightarrow> db)"

fun audit_step :: "(string \<Rightarrow> nat list) \<Rightarrow> referenced \<Rightarrow> audit_call \<Rightarrow> audit_rows \<Rightarrow> audit_rows" where
  "audit_step digest refs (Reserve new_id t deadline minimum current e limits) db =
     committed (reserve_attempt new_id t deadline minimum current e limits db) db"
| "audit_step digest refs (Append new_id t e) db = committed (append_completion new_id t e db) db"
| "audit_step digest refs (ProjectNext t t' now now') db =
     committed (project_next digest t t' now now' refs db) db"
| "audit_step digest refs (Reconcile new_id t clocks deadlines) db =
     committed (reconcile_expired_once digest new_id t clocks refs deadlines db) db"

definition audit_run :: "(string \<Rightarrow> nat list) \<Rightarrow> referenced \<Rightarrow> audit_call list \<Rightarrow> audit_rows \<Rightarrow> audit_rows" where
  "audit_run digest refs calls db = fold (audit_step digest refs) calls db"

definition no_rows :: audit_rows where "no_rows = \<lparr>ad_events = [], ad_logs = []\<rparr>"

section \<open>Stored events\<close>

text \<open>A row that holds a valid event as the repository writes it.\<close>

definition stored :: "outbox_event \<Rightarrow> ai_call_event \<Rightarrow> bool" where
  "stored r e \<longleftrightarrow> valid_event e \<and> event_fixed r =
     event_fixed (outbox_row (outbox_id (event_fixed r)) (event_created_at (event_fixed r)) e (event_payload e))"

lemma stored_fields:
  assumes "stored r e"
  shows "valid_event e" "row_document r = event_payload e" "event_from_row r = Inr e"
    "aggregate_type (event_fixed r) = ''ai_call''" "aggregate_id (event_fixed r) = cc_event_id (event_call e)"
    "event_id (event_fixed r) = cc_event_id (event_call e)" "event_type (event_fixed r) = event_type_of e"
    "event_version (event_fixed r) = event_version_of e" "event_sequence (event_fixed r) = event_sequence_of e"
    "payload_json (event_fixed r) = json_of_dict (event_payload e)" "claim_matches_event r e"
proof -
  obtain x where x: "event_fixed r = x" by simp
  have fixed: "x = event_fixed (outbox_row (outbox_id x) (event_created_at x) e (event_payload e))" and e: "valid_event e"
    using assms by (simp_all add: stored_def x)
  from arg_cong [OF fixed, of aggregate_type] arg_cong [OF fixed, of aggregate_id] arg_cong [OF fixed, of event_id]
    arg_cong [OF fixed, of event_type] arg_cong [OF fixed, of event_version] arg_cong [OF fixed, of event_sequence]
    arg_cong [OF fixed, of payload_json] arg_cong [OF fixed, of event_trace_id]
  have fields: "aggregate_type x = ''ai_call''" "aggregate_id x = cc_event_id (event_call e)"
    "event_id x = cc_event_id (event_call e)" "event_type x = event_type_of e" "event_version x = event_version_of e"
    "event_sequence x = event_sequence_of e" "payload_json x = json_of_dict (event_payload e)"
    "event_trace_id x = cc_trace_id (event_call e)"
    by (simp_all add: outbox_row_def Let_def)
  show "valid_event e" "row_document r = event_payload e" "event_from_row r = Inr e"
    "aggregate_type (event_fixed r) = ''ai_call''" "aggregate_id (event_fixed r) = cc_event_id (event_call e)"
    "event_id (event_fixed r) = cc_event_id (event_call e)" "event_type (event_fixed r) = event_type_of e"
    "event_version (event_fixed r) = event_version_of e" "event_sequence (event_fixed r) = event_sequence_of e"
    "payload_json (event_fixed r) = json_of_dict (event_payload e)" "claim_matches_event r e"
    using e fields by (simp_all add: x row_document_def event_from_row_def claim_matches_event_def Let_def)
qed

lemma stored_unique: "stored r e \<Longrightarrow> stored r e' \<Longrightarrow> e = e'"
  by (metis stored_fields(3) sum.inject(2))

lemma stored_matches:
  assumes "stored r e" "valid_event e'"
  shows "outbox_matches r e' (event_payload e') \<longleftrightarrow> e' = e"
proof
  assume "outbox_matches r e' (event_payload e')"
  then have "same_document (event_payload e) (event_payload e')"
    by (simp add: outbox_matches_def Let_def stored_fields(2) [OF assms(1)])
  then show "e' = e" using same_payload [OF stored_fields(1) [OF assms(1)] assms(2)] by simp
next
  assume "e' = e"
  then show "outbox_matches r e' (event_payload e')"
    using stored_fields [OF assms(1)]
    by (simp add: outbox_matches_def Let_def same_document_def claim_matches_event_def)
qed

lemma stored_new: "valid_event e \<Longrightarrow> stored (outbox_row i t e (event_payload e)) e"
  by (simp add: stored_def outbox_row_def Let_def)

definition row_key :: "outbox_event \<Rightarrow> uuid \<times> string" where
  "row_key r = (event_id (event_fixed r), event_type (event_fixed r))"

definition rows_ok :: "audit_rows \<Rightarrow> bool" where
  "rows_ok db \<longleftrightarrow> distinct (map event_row_id (ad_events db)) \<and> distinct (map row_key (ad_events db))
     \<and> (\<forall>r \<in> set (ad_events db). \<exists>e. stored r e)"

lemma rows_ok_unique:
  assumes "rows_ok db" "r \<in> set (ad_events db)" "r' \<in> set (ad_events db)"
  shows "event_row_id r = event_row_id r' \<Longrightarrow> r = r'" "row_key r = row_key r' \<Longrightarrow> r = r'"
  using assms by (auto simp: rows_ok_def distinct_map inj_on_def)

lemma event_row_iff:
  assumes "rows_ok db"
  shows "event_row i name db = Some r \<longleftrightarrow> r \<in> set (ad_events db) \<and> row_key r = (i, name)"
proof
  assume "event_row i name db = Some r"
  then show "r \<in> set (ad_events db) \<and> row_key r = (i, name)"
    by (auto simp: event_row_def row_key_def find_Some_iff)
next
  assume r: "r \<in> set (ad_events db) \<and> row_key r = (i, name)"
  then obtain r' where "event_row i name db = Some r'"
    by (cases "event_row i name db") (auto simp: event_row_def row_key_def find_None_iff)
  moreover from this have "r' \<in> set (ad_events db)" "row_key r' = (i, name)"
    by (auto simp: event_row_def row_key_def find_Some_iff)
  ultimately show "event_row i name db = Some r" using rows_ok_unique(2) [OF assms, of r' r] r by simp
qed

lemma event_row_None: "event_row i name db = None \<longleftrightarrow> (\<forall>r \<in> set (ad_events db). row_key r \<noteq> (i, name))"
  by (auto simp: event_row_def row_key_def find_None_iff)

subsection \<open>New rows\<close>

lemma add_outbox_adds:
  assumes "add_outbox i t e (event_payload e) db = Inr db'"
  shows "db' = db\<lparr>ad_events := ad_events db @ [outbox_row i t e (event_payload e)]\<rparr>
    \<and> (\<forall>r \<in> set (ad_events db). event_row_id r \<noteq> i \<and> row_key r \<noteq> (cc_event_id (event_call e), event_type_of e))"
proof -
  let ?r = "outbox_row i t e (event_payload e)"
  have kind: "event_type_of e \<noteq> ''job.dispatch.requested''" by (cases e) simp_all
  then have "event_insert_trigger None ?r = Inr ?r"
    by (simp add: event_insert_trigger_def outbox_row_def Let_def)
  then show ?thesis
    using assms by (auto simp: add_outbox_def insert_event_def Let_def event_row_id_def row_key_def outbox_row_def
        split: if_splits)
qed

lemma new_row_fields [simp]:
  "event_row_id (outbox_row i t e p) = i" "event_status (outbox_row i t e p) = PENDING"
  "row_key (outbox_row i t e p) = (cc_event_id (event_call e), event_type_of e)"
  by (simp_all add: event_row_id_def outbox_row_def row_key_def Let_def)

lemma add_outbox_ok:
  assumes "add_outbox i t e (event_payload e) db = Inr db'" "rows_ok db" "valid_event e"
  shows "rows_ok db'"
  using add_outbox_adds [OF assms(1)] assms(2,3) by (auto simp: rows_ok_def intro: stored_new)

subsection \<open>Updated rows\<close>

lemma update_row_facts:
  assumes "update_row digest now old new db = Inr (row, db')"
  shows "update_event digest now old new = Inr row"
    "db' = db\<lparr>ad_events := replace_event row (ad_events db)\<rparr>" "event_fixed row = event_fixed old"
proof -
  show update: "update_event digest now old new = Inr row"
    and "db' = db\<lparr>ad_events := replace_event row (ad_events db)\<rparr>"
    using assms by (auto simp: update_row_def)
  show "event_fixed row = event_fixed old" using event_update_step [OF update] by simp
qed

lemma replace_keys:
  assumes "event_fixed row = event_fixed old" "old \<in> set (ad_events db)" "rows_ok db"
  shows "map event_fixed (replace_event row (ad_events db)) = map event_fixed (ad_events db)"
proof -
  have "event_fixed (if event_row_id e = event_row_id row then row else e) = event_fixed e" if "e \<in> set (ad_events db)" for e
    using rows_ok_unique(1) [OF assms(3) that assms(2)] assms(1) by (auto simp: event_row_id_def)
  then show ?thesis by (simp add: replace_event_def)
qed

lemma rows_ok_fixed:
  assumes "map event_fixed (ad_events db') = map event_fixed (ad_events db)" "rows_ok db"
  shows "rows_ok db'"
proof -
  have through: "map f (ad_events db') = map f (ad_events db)" if "\<And>r. f r = g (event_fixed r)" for f :: "outbox_event \<Rightarrow> 'b" and g
  proof -
    have "f = g \<circ> event_fixed" using that by auto
    then show ?thesis using arg_cong [OF assms(1), of "map g"] by simp
  qed
  have ids: "map event_row_id (ad_events db') = map event_row_id (ad_events db)"
    by (rule through [of _ outbox_id]) (simp add: event_row_id_def)
  have row_keys: "map row_key (ad_events db') = map row_key (ad_events db)"
    by (rule through [of _ "\<lambda>x. (event_id x, event_type x)"]) (simp add: row_key_def)
  have "\<exists>e. stored r e" if "r \<in> set (ad_events db')" for r
  proof -
    have "event_fixed r \<in> set (map event_fixed (ad_events db))" using that assms(1) [symmetric] by simp
    then obtain r' where "r' \<in> set (ad_events db)" "event_fixed r = event_fixed r'" by auto
    then show ?thesis using assms(2) by (auto simp: rows_ok_def stored_def)
  qed
  then show ?thesis using assms(2) ids row_keys by (simp add: rows_ok_def)
qed

lemma replace_ok:
  assumes "event_fixed row = event_fixed old" "old \<in> set (ad_events db)" "rows_ok db"
  shows "rows_ok (db\<lparr>ad_events := replace_event row (ad_events db)\<rparr>)"
  by (rule rows_ok_fixed [OF _ assms(3)]) (simp add: replace_keys [OF assms])

lemma replaced_row:
  assumes "event_fixed row = event_fixed old" "old \<in> set (ad_events db)" "rows_ok db"
  shows "event_row i name (db\<lparr>ad_events := replace_event row (ad_events db)\<rparr>) =
    (if row_key old = (i, name) then Some row else event_row i name db)"
proof -
  let ?db = "db\<lparr>ad_events := replace_event row (ad_events db)\<rparr>"
  note ok = replace_ok [OF assms]
  have same_key: "row_key row = row_key old" and same_id: "event_row_id row = event_row_id old"
    using assms(1) by (simp_all add: row_key_def event_row_id_def)
  have row: "row \<in> set (ad_events ?db)" using assms(2) same_id by (force simp: replace_event_def image_iff)
  show ?thesis
  proof (cases "row_key old = (i, name)")
    case True
    then have "event_row i name ?db = Some row"
      unfolding event_row_iff [OF ok] using row same_key by simp
    then show ?thesis using True by simp
  next
    case False
    show ?thesis
    proof (cases "event_row i name db")
      case None
      then have "\<forall>r \<in> set (ad_events ?db). row_key r \<noteq> (i, name)"
        using False same_key by (auto simp: event_row_None replace_event_def)
      then have "event_row i name ?db = None" by (simp only: event_row_None)
      then show ?thesis using None False by simp
    next
      case (Some r)
      then have r: "r \<in> set (ad_events db)" "row_key r = (i, name)" using event_row_iff [OF assms(3)] by auto
      then have "event_row_id r \<noteq> event_row_id row"
        using rows_ok_unique(1) [OF assms(3) r(1) assms(2)] False same_id by auto
      then have "r \<in> set (ad_events ?db)"
        using r(1) by (auto simp: replace_event_def intro!: image_eqI [of _ _ r])
      then have "event_row i name ?db = Some r" unfolding event_row_iff [OF ok] using r(2) by simp
      then show ?thesis using Some False by simp
    qed
  qed
qed

section \<open>The life of a call\<close>

text \<open>What the published events say of a call.\<close>

datatype call_life = NoCall | OpenCall started_event | ClosedCall started_event completed_event

definition call_life :: "audit_rows \<Rightarrow> uuid \<Rightarrow> call_life" where
  "call_life db i = (case published_event i ''ai.call.started'' db of
     Inr (Started s) \<Rightarrow> (case published_event i ''ai.call.completed'' db of
         Inr (Completed c) \<Rightarrow> ClosedCall s c | _ \<Rightarrow> OpenCall s)
   | _ \<Rightarrow> NoCall)"

text \<open>The row of the log table that a life stands for.\<close>

fun life_log :: "call_life \<Rightarrow> call_log option" where
  "life_log NoCall = None"
| "life_log (OpenCall s) = Some \<lparr>lg_started = started_values_of s, lg_outcome = pending_outcome\<rparr>"
| "life_log (ClosedCall s c) =
     Some \<lparr>lg_started = started_values_of s, lg_outcome = completed_outcome c pending_outcome\<rparr>"

text \<open>The abstract machine: a call opens once and closes once, with a completion that fits its start.\<close>

inductive life_step :: "uuid \<Rightarrow> call_life \<Rightarrow> call_life \<Rightarrow> bool" for i where
  opens: "cc_event_id (st_call s) = i \<Longrightarrow> life_step i NoCall (OpenCall s)"
| closes: "chained s c \<Longrightarrow> life_step i (OpenCall s) (ClosedCall s c)"

inductive lives_step :: "(uuid \<Rightarrow> call_life) \<Rightarrow> (uuid \<Rightarrow> call_life) \<Rightarrow> bool" where
  lives: "life_step i (v i) w \<Longrightarrow> lives_step v (v(i := w))"

inductive_cases life_stepE: "life_step i v w"

lemma conflict_not_ok [simp]: "conflict_error \<noteq> Inr x" "Inr x \<noteq> conflict_error"
  by (simp_all add: conflict_error_def)

lemma published_eventD:
  assumes "published_event i name db = Inr e" "rows_ok db"
  shows "\<exists>r \<in> set (ad_events db). stored r e \<and> event_status r = PUBLISHED \<and> cc_event_id (event_call e) = i
    \<and> event_type_of e = name"
proof -
  obtain r where r: "event_row i name db = Some r" "event_status r = PUBLISHED" "event_from_row r = Inr e"
    using assms(1) by (auto simp: published_event_def split: option.splits if_splits)
  then have "r \<in> set (ad_events db)" "row_key r = (i, name)" using event_row_iff [OF assms(2)] by auto
  moreover from this obtain e' where "stored r e'" using assms(2) by (auto simp: rows_ok_def)
  ultimately show ?thesis using r stored_fields [of r e'] by (auto simp: row_key_def)
qed

lemma started_typed: "event_type_of e = ''ai.call.started'' \<longleftrightarrow> (\<exists>s. e = Started s)"
  "event_type_of e = ''ai.call.completed'' \<longleftrightarrow> (\<exists>c. e = Completed c)"
  "event_type_of e = ''ai.call.late_completion'' \<longleftrightarrow> (\<exists>l. e = Late l)"
  by (cases e; simp)+

subsection \<open>Steps that publish nothing\<close>

lemma published_add:
  assumes "add_outbox i t e (event_payload e) db = Inr db'" "rows_ok db" "valid_event e"
  shows "is_ok (published_event j name db') = is_ok (published_event j name db)
    \<and> (is_ok (published_event j name db) \<longrightarrow> published_event j name db' = published_event j name db)"
proof -
  let ?r = "outbox_row i t e (event_payload e)"
  have db': "db' = db\<lparr>ad_events := ad_events db @ [?r]\<rparr>"
    and fresh: "\<forall>r \<in> set (ad_events db). row_key r \<noteq> row_key ?r"
    using add_outbox_adds [OF assms(1)] by simp_all
  note ok = add_outbox_ok [OF assms]
  show ?thesis
  proof (cases "event_row j name db")
    case (Some r)
    then have "r \<in> set (ad_events db)" "row_key r = (j, name)" using event_row_iff [OF assms(2)] by auto
    then have "event_row j name db' = Some r" using event_row_iff [OF ok] db' by simp
    then show ?thesis by (simp add: published_event_def Some)
  next
    case None
    have "event_row j name db' = None \<or> event_row j name db' = Some ?r"
    proof (cases "event_row j name db'")
      case (Some r')
      then have "r' \<in> set (ad_events db')" "row_key r' = (j, name)" using event_row_iff [OF ok] by auto
      then show ?thesis using None db' Some by (auto simp: event_row_None)
    qed simp
    then have "\<not> is_ok (published_event j name db')"
      by (auto simp: published_event_def conflict_error_def)
    then show ?thesis using None by (simp add: published_event_def conflict_error_def)
  qed
qed

lemma call_life_cong:
  assumes "\<forall>name. is_ok (published_event j name db') = is_ok (published_event j name db)
    \<and> (is_ok (published_event j name db) \<longrightarrow> published_event j name db' = published_event j name db)"
  shows "call_life db' j = call_life db j"
proof -
  have same: "(case published_event j name db' of Inl _ \<Rightarrow> a | Inr e \<Rightarrow> f e) =
      (case published_event j name db of Inl _ \<Rightarrow> a | Inr e \<Rightarrow> f e)" for name and a :: 'b and f
    using assms [rule_format, of name]
    by (cases "published_event j name db'"; cases "published_event j name db") auto
  show ?thesis unfolding call_life_def same ..
qed

lemma published_replace:
  assumes "event_fixed row = event_fixed old" "old \<in> set (ad_events db)" "rows_ok db"
    and "event_status old \<noteq> PUBLISHED" "event_status row \<noteq> PUBLISHED"
  shows "call_life (db\<lparr>ad_events := replace_event row (ad_events db)\<rparr>) j = call_life db j"
proof (rule call_life_cong, rule allI)
  fix name
  have "event_row j name db = Some old" if "row_key old = (j, name)"
    unfolding event_row_iff [OF assms(3)] using assms(2) that by simp
  then show "is_ok (published_event j name (db\<lparr>ad_events := replace_event row (ad_events db)\<rparr>)) =
      is_ok (published_event j name db) \<and> (is_ok (published_event j name db) \<longrightarrow>
      published_event j name (db\<lparr>ad_events := replace_event row (ad_events db)\<rparr>) = published_event j name db)"
    using assms(4,5)
    by (auto simp: published_event_def replaced_row [OF assms(1-3)] conflict_error_def)
qed

subsection \<open>Claims\<close>

lemma finish_claim_facts:
  assumes "finish_claim digest now claim change db = Inr db'" "rows_ok db" "claim \<in> set (ad_events db)"
  obtains row where "event_fixed row = event_fixed claim" "event_status claim = PROCESSING"
    "update_event digest now claim (change claim) = Inr row"
    "db' = db\<lparr>ad_events := replace_event row (ad_events db)\<rparr>"
proof -
  obtain r where r: "List.find (\<lambda>r. event_row_id r = event_row_id claim) (ad_events db) = Some r"
    "event_status r = PROCESSING" "bind_result (update_row digest now r (change r) db) (\<lambda>(_, db'). Inr db') = Inr db'"
    using assms(1) by (auto simp: finish_claim_def fence_lost_def split: option.splits if_splits)
  then have "r \<in> set (ad_events db)" "event_row_id r = event_row_id claim" by (auto simp: find_Some_iff)
  then have "r = claim" using rows_ok_unique(1) [OF assms(2) _ assms(3)] by blast
  then obtain row where "update_row digest now claim (change claim) db = Inr (row, db')" using r(3) by auto
  from update_row_facts [OF this] show ?thesis using that r(2) \<open>r = claim\<close> by blast
qed

lemma update_event_status:
  assumes "update_event digest now old new = Inr row"
  shows "event_status row = event_status new"
  using assms
  by (auto simp: update_event_def event_update_trigger_def to_dead_letter_def db_error_def guarded_def
      split: if_splits)

lemma claim_specific_facts:
  assumes "claim_specific digest t now row_id db = Inr (claim, db')" "rows_ok db"
  shows "rows_ok db' \<and> ad_logs db' = ad_logs db \<and> (\<forall>j. call_life db' j = call_life db j)
    \<and> map event_fixed (ad_events db') = map event_fixed (ad_events db)
    \<and> (\<forall>name j. is_ok (published_event j name db') = is_ok (published_event j name db))
    \<and> (\<forall>row. claim = Some row \<longrightarrow> row \<in> set (ad_events db') \<and> event_status row = PROCESSING \<and> event_row_id row = row_id)"
proof (cases claim)
  case None
  then show ?thesis using assms by (auto simp: claim_specific_def split: option.splits if_splits)
next
  case (Some row)
  then obtain r where r: "List.find (\<lambda>r. event_row_id r = row_id) (ad_events db) = Some r" "due t r"
    "update_row digest now r (r\<lparr>event_status := PROCESSING\<rparr>) db = Inr (row, db')"
    using assms(1) by (auto simp: claim_specific_def split: option.splits if_splits)
  then have mem: "r \<in> set (ad_events db)" "event_row_id r = row_id" by (auto simp: find_Some_iff)
  note facts = update_row_facts [OF r(3)]
  have processing: "event_status row = PROCESSING" using update_event_status [OF facts(1)] by simp
  have open_row: "event_status r \<noteq> PUBLISHED" using r(2) by (auto simp: due_def)
  have published: "is_ok (published_event j name db') = is_ok (published_event j name db)" for j name
  proof -
    have "event_row j name db = Some r" if "row_key r = (j, name)"
      unfolding event_row_iff [OF assms(2)] using mem that by simp
    then show ?thesis
      using processing open_row
      by (auto simp: facts(2) published_event_def replaced_row [OF facts(3) mem(1) assms(2)] conflict_error_def)
  qed
  have "row \<in> set (ad_events db')"
    using mem facts(3) by (auto simp: facts(2) replace_event_def event_row_id_def intro!: image_eqI [of _ _ r])
  moreover have "event_row_id row = row_id" using facts(3) mem(2) by (simp add: event_row_id_def)
  ultimately show ?thesis
    using replace_ok [OF facts(3) mem(1) assms(2)] published_replace [OF facts(3) mem(1) assms(2) open_row]
      replace_keys [OF facts(3) mem(1) assms(2)] processing published Some by (simp add: facts(2))
qed

text \<open>Publishing a claimed row adds its event to the published ones.\<close>

lemma published_publish:
  assumes "event_fixed row = event_fixed old" "old \<in> set (ad_events db)" "rows_ok db"
    and "event_status row = PUBLISHED" "stored old e"
  shows "published_event j name (db\<lparr>ad_events := replace_event row (ad_events db)\<rparr>) =
    (if (j, name) = (cc_event_id (event_call e), event_type_of e) then Inr e else published_event j name db)"
proof -
  have "row_key old = (cc_event_id (event_call e), event_type_of e)"
    using stored_fields [OF assms(5)] by (simp add: row_key_def)
  moreover have "event_from_row row = Inr e"
    using stored_fields(3) [OF assms(5)] assms(1) by (simp add: event_from_row_def row_document_def)
  ultimately show ?thesis
    using assms(4) by (auto simp: published_event_def replaced_row [OF assms(1-3)])
qed

section \<open>The invariant\<close>

definition audit_inv :: "audit_rows \<Rightarrow> bool" where
  "audit_inv db \<longleftrightarrow> rows_ok db
     \<and> (\<forall>i. find_log i (ad_logs db) = life_log (call_life db i))
     \<and> distinct (map (\<lambda>l. sc_id (lg_started l)) (ad_logs db))
     \<and> (\<forall>i. is_ok (published_event i ''ai.call.completed'' db) \<longrightarrow> is_ok (published_event i ''ai.call.started'' db))"

definition refined :: "audit_rows \<Rightarrow> audit_rows \<Rightarrow> bool" where
  "refined db db' \<longleftrightarrow> audit_inv db' \<and> lives_step\<^sup>=\<^sup>= (call_life db) (call_life db')"

lemma refined_same:
  assumes "audit_inv db" "rows_ok db'" "ad_logs db' = ad_logs db" "\<forall>j. call_life db' j = call_life db j"
    "\<forall>name j. is_ok (published_event j name db') = is_ok (published_event j name db)"
  shows "refined db db'"
proof -
  have "call_life db' = call_life db" using assms(4) by auto
  then show ?thesis using assms by (auto simp: refined_def audit_inv_def)
qed

lemma find_log_append:
  "find_log i (logs @ [l]) = (case find_log i logs of Some x \<Rightarrow> Some x | None \<Rightarrow> if sc_id (lg_started l) = i then Some l else None)"
  by (induction logs) (auto simp: find_log_def)

lemma find_log_id: "find_log i logs = Some l \<Longrightarrow> sc_id (lg_started l) = i \<and> l \<in> set logs"
  by (auto simp: find_log_def find_Some_iff)

lemma find_log_update:
  assumes "sc_id (lg_started new) = k"
  shows "find_log i (map (\<lambda>l. if sc_id (lg_started l) = k then new else l) logs) =
    (if i = k \<and> find_log k logs \<noteq> None then Some new else find_log i logs)"
  using assms by (induction logs) (auto simp: find_log_def)

lemma published_typed:
  assumes "published_event i name db = Inr e" "rows_ok db"
  shows "cc_event_id (event_call e) = i" "event_type_of e = name" "valid_event e"
  using published_eventD [OF assms] stored_fields(1) by auto

lemma published_started:
  assumes "rows_ok db" "is_ok (published_event i ''ai.call.started'' db)"
  obtains s where "published_event i ''ai.call.started'' db = Inr (Started s)" "cc_event_id (st_call s) = i"
proof -
  obtain e where e: "published_event i ''ai.call.started'' db = Inr e" using assms(2) by (auto simp: is_ok_iff)
  from published_typed [OF e assms(1)] obtain s where "e = Started s" by (auto simp: started_typed)
  with e published_typed [OF e assms(1)] show ?thesis using that by simp
qed

lemma published_completed:
  assumes "rows_ok db" "is_ok (published_event i ''ai.call.completed'' db)"
  obtains c where "published_event i ''ai.call.completed'' db = Inr (Completed c)" "cc_event_id (co_call c) = i"
proof -
  obtain e where e: "published_event i ''ai.call.completed'' db = Inr e" using assms(2) by (auto simp: is_ok_iff)
  from published_typed [OF e assms(1)] obtain c where "e = Completed c" by (auto simp: started_typed)
  with e published_typed [OF e assms(1)] show ?thesis using that by simp
qed

lemma call_life_no_call:
  assumes "rows_ok db"
  shows "call_life db i = NoCall \<longleftrightarrow> \<not> is_ok (published_event i ''ai.call.started'' db)"
proof (cases "is_ok (published_event i ''ai.call.started'' db)")
  case True
  then obtain s where "published_event i ''ai.call.started'' db = Inr (Started s)"
    by (rule published_started [OF assms])
  then show ?thesis using True
    by (auto simp: call_life_def split: sum.split ai_call_event.split)
next
  case False
  then show ?thesis by (cases "published_event i ''ai.call.started'' db") (auto simp: call_life_def)
qed

lemma not_published:
  assumes "rows_ok db" "r \<in> set (ad_events db)" "row_key r = (i, name)" "event_status r \<noteq> PUBLISHED"
  shows "published_event i name db = conflict_error"
proof -
  have "event_row i name db = Some r" unfolding event_row_iff [OF assms(1)] using assms(2,3) by simp
  then show ?thesis using assms(4) by (simp add: published_event_def)
qed

lemma not_ok_conflict [simp]: "\<not> is_ok conflict_error"
  by (simp add: conflict_error_def)

lemma call_life_eq:
  assumes "published_event j ''ai.call.started'' db' = published_event j ''ai.call.started'' db"
    "published_event j ''ai.call.completed'' db' = published_event j ''ai.call.completed'' db"
  shows "call_life db' j = call_life db j"
  unfolding call_life_def assms ..

text \<open>A projected start opens the call.\<close>

lemma project_started_refines:
  assumes inv: "audit_inv db" and claim: "claim \<in> set (ad_events db)" "event_status claim = PROCESSING"
    and "stored claim (Started s)" "project_started refs s db = Inr (st, db1)"
    and "event_fixed row = event_fixed claim" "event_status row = PUBLISHED"
  shows "refined db (db1\<lparr>ad_events := replace_event row (ad_events db)\<rparr>)"
proof -
  let ?i = "cc_event_id (st_call s)"
  have ok: "rows_ok db" using inv by (simp add: audit_inv_def)
  note stored = stored_fields [OF assms(4)]
  have key: "row_key claim = (?i, ''ai.call.started'')" using stored by (simp add: row_key_def)
  have absent: "published_event ?i ''ai.call.started'' db = conflict_error"
    using not_published [OF ok claim(1) key] claim(2) by simp
  then have life: "call_life db ?i = NoCall" using call_life_no_call [OF ok] by simp
  then have "find_log ?i (ad_logs db) = None" using inv by (simp add: audit_inv_def)
  then obtain logs where logs: "insert_log refs \<lparr>lg_started = started_values_of s, lg_outcome = pending_outcome\<rparr> (ad_logs db) = Inr logs"
    and db1: "db1 = db\<lparr>ad_logs := logs\<rparr>"
    using assms(5) by (auto simp: project_started_def Let_def)
  let ?new = "\<lparr>lg_started = started_values_of s, lg_outcome = pending_outcome\<rparr>"
  have logs': "logs = ad_logs db @ [?new]" and fresh: "\<forall>l \<in> set (ad_logs db). sc_id (lg_started l) \<noteq> sc_id (lg_started ?new)"
    using logs by (auto simp: insert_log_def data_error_def split: if_splits)
  have new_id: "sc_id (lg_started ?new) = ?i" by (simp add: started_values_of_def Let_def)
  let ?db = "db1\<lparr>ad_events := replace_event row (ad_events db)\<rparr>"
  let ?mid = "db\<lparr>ad_events := replace_event row (ad_events db)\<rparr>"
  have same: "published_event j name ?db = published_event j name ?mid" for j name
    by (simp add: published_event_def event_row_def db1)
  have published: "published_event j name ?db =
      (if (j, name) = (?i, ''ai.call.started'') then Inr (Started s) else published_event j name db)" for j name
    using published_publish [OF assms(6) claim(1) ok assms(7,4)] by (simp add: same)
  have kept: "published_event j ''ai.call.completed'' ?db = published_event j ''ai.call.completed'' db" for j
    by (simp add: published)
  have completed: "\<not> is_ok (published_event ?i ''ai.call.completed'' db)"
    using inv absent by (auto simp: audit_inv_def)
  have lives: "call_life ?db = (call_life db)(?i := OpenCall s)"
  proof
    fix j show "call_life ?db j = ((call_life db)(?i := OpenCall s)) j"
      using completed unfolding call_life_def kept
      by (cases "j = ?i"; cases "published_event ?i ''ai.call.completed'' db") (auto simp: published call_life_def)
  qed
  have all_logs: "ad_logs ?db = ad_logs db @ [?new]" by (simp add: db1 logs')
  have "rows_ok ?db" using replace_ok [OF assms(6) claim(1) ok] by (simp add: rows_ok_def)
  moreover have "find_log j (ad_logs ?db) = life_log (call_life ?db j)" for j
    using inv life new_id unfolding lives all_logs
    by (auto simp: find_log_append audit_inv_def split: option.splits)
  moreover have "distinct (map (\<lambda>l. sc_id (lg_started l)) (ad_logs ?db))"
    using inv fresh by (auto simp: db1 logs' audit_inv_def)
  moreover have "is_ok (published_event j ''ai.call.completed'' ?db) \<longrightarrow> is_ok (published_event j ''ai.call.started'' ?db)" for j
    using inv by (auto simp: published audit_inv_def)
  moreover have "lives_step (call_life db) (call_life ?db)"
    unfolding lives by (rule lives_step.intros) (simp add: life life_step.opens)
  ultimately show ?thesis by (auto simp: refined_def audit_inv_def)
qed

text \<open>A projected completion closes an open call.\<close>

lemma project_completed_refines:
  assumes inv: "audit_inv db" and claim: "claim \<in> set (ad_events db)" "event_status claim = PROCESSING"
    and "stored claim (Completed c)" "project_completed c db = Inr (st, db1)"
    and "event_fixed row = event_fixed claim" "event_status row = PUBLISHED"
  shows "refined db (db1\<lparr>ad_events := replace_event row (ad_events db)\<rparr>)"
proof -
  let ?i = "cc_event_id (co_call c)"
  have ok: "rows_ok db" using inv by (simp add: audit_inv_def)
  note stored = stored_fields [OF assms(4)]
  have key: "row_key claim = (?i, ''ai.call.completed'')" using stored by (simp add: row_key_def)
  have absent: "published_event ?i ''ai.call.completed'' db = conflict_error"
    using not_published [OF ok claim(1) key] claim(2) by simp
  obtain s where s: "published_event ?i ''ai.call.started'' db = Inr (Started s)"
    "validate_ai_call_event_chain_any s c None = Inr ()"
  proof -
    obtain e where e: "published_event ?i ''ai.call.started'' db = Inr e"
      using assms(5) by (auto simp: project_completed_def Let_def)
    then obtain s where "e = Started s" using published_typed(2) [OF e ok] by (auto simp: started_typed)
    then show ?thesis using that e assms(5) by (auto simp: project_completed_def Let_def)
  qed
  have "valid_event (Started s)" using published_typed(3) [OF s(1) ok] .
  then have chained: "chained s c" using s(2) stored(1) by (subst (asm) chain_any_iff) auto
  have life: "call_life db ?i = OpenCall s" by (simp add: call_life_def s(1) absent conflict_error_def)
  let ?old = "\<lparr>lg_started = started_values_of s, lg_outcome = pending_outcome\<rparr>"
  let ?new = "?old\<lparr>lg_outcome := completed_outcome c pending_outcome\<rparr>"
  have old: "find_log ?i (ad_logs db) = Some ?old" using inv life by (simp add: audit_inv_def)
  then have old_id: "sc_id (started_values_of s) = ?i" using find_log_id [OF old] by simp
  have pending: "oc_status pending_outcome = CALL_PENDING" by (simp add: pending_outcome_def)
  obtain logs where logs: "update_log ?old ?new (ad_logs db) = Inr logs" and db1: "db1 = db\<lparr>ad_logs := logs\<rparr>"
    using assms(5) by (auto simp: project_completed_def Let_def s old pending)
  have all_logs: "logs = map (\<lambda>l. if sc_id (lg_started l) = ?i then ?new else l) (ad_logs db)"
    using logs old_id by (auto simp: update_log_def data_error_def split: if_splits)
  let ?db = "db1\<lparr>ad_events := replace_event row (ad_events db)\<rparr>"
  let ?mid = "db\<lparr>ad_events := replace_event row (ad_events db)\<rparr>"
  have "published_event j name ?db = published_event j name ?mid" for j name
    by (simp add: published_event_def event_row_def db1)
  then have published: "published_event j name ?db =
      (if (j, name) = (?i, ''ai.call.completed'') then Inr (Completed c) else published_event j name db)" for j name
    using published_publish [OF assms(6) claim(1) ok assms(7,4)] by simp
  have kept: "published_event j ''ai.call.started'' ?db = published_event j ''ai.call.started'' db" for j
    by (simp add: published)
  have lives: "call_life ?db = (call_life db)(?i := ClosedCall s c)"
  proof
    fix j show "call_life ?db j = ((call_life db)(?i := ClosedCall s c)) j"
    proof (cases "j = ?i")
      case True
      then show ?thesis by (simp add: call_life_def kept s(1)) (simp add: published)
    next
      case False
      then have "call_life ?db j = call_life db j" by (intro call_life_eq) (simp_all add: published)
      then show ?thesis using False by simp
    qed
  qed
  have logs_db: "ad_logs ?db = logs" by (simp add: db1)
  have "rows_ok ?db" using replace_ok [OF assms(6) claim(1) ok] by (simp add: rows_ok_def)
  moreover have "find_log j (ad_logs ?db) = life_log (call_life ?db j)" for j
  proof -
    have all: "\<forall>j. find_log j (ad_logs db) = life_log (call_life db j)" using inv by (simp add: audit_inv_def)
    have "find_log j logs = (if j = ?i then Some ?new else find_log j (ad_logs db))"
      unfolding all_logs using find_log_update [of ?new ?i j "ad_logs db"] old old_id by simp
    then show ?thesis unfolding lives logs_db using all by simp
  qed
  moreover have "distinct (map (\<lambda>l. sc_id (lg_started l)) (ad_logs ?db))"
  proof -
    have "map (\<lambda>l. sc_id (lg_started l)) logs = map (\<lambda>l. sc_id (lg_started l)) (ad_logs db)"
      by (simp add: all_logs old_id)
    then show ?thesis using inv logs_db by (simp add: audit_inv_def)
  qed
  moreover have "is_ok (published_event j ''ai.call.completed'' ?db) \<longrightarrow> is_ok (published_event j ''ai.call.started'' ?db)" for j
    using inv s(1) by (auto simp: published audit_inv_def)
  moreover have "lives_step (call_life db) (call_life ?db)"
    unfolding lives by (rule lives_step.intros) (simp add: life life_step.closes chained)
  ultimately show ?thesis by (auto simp: refined_def audit_inv_def)
qed

lemma project_event_keeps:
  assumes "project_event refs e db = Inr (st, db1)"
  shows "ad_events db1 = ad_events db \<and> (\<forall>l. e = Late l \<longrightarrow> db1 = db)"
proof (cases e)
  case (Started s)
  then show ?thesis using assms by (auto simp: project_started_def Let_def split: option.splits if_splits)
next
  case (Completed c)
  then obtain first where "(case first of Started s \<Rightarrow>
       bind_result (validate_ai_call_event_chain_any s c None) (\<lambda>_.
         (case find_log (cc_event_id (co_call c)) (ad_logs db) of None \<Rightarrow> conflict_error
          | Some l \<Rightarrow> let outcome = completed_outcome c (lg_outcome l) in
              if oc_status (lg_outcome l) \<noteq> CALL_PENDING
              then if lg_outcome l = outcome then Inr (PROJECTION_REPLAYED, db) else conflict_error
              else bind_result (update_log l (l\<lparr>lg_outcome := outcome\<rparr>) (ad_logs db))
                (\<lambda>logs. Inr (PROJECTED, db\<lparr>ad_logs := logs\<rparr>))))
     | _ \<Rightarrow> conflict_error) = Inr (st, db1)"
    using assms by (auto simp: project_completed_def Let_def)
  then show ?thesis
    using Completed by (cases first) (auto simp: Let_def split: option.splits if_splits)
next
  case (Late l)
  obtain first second where "(case (first, second) of
      (Started s, Completed c) \<Rightarrow> bind_result (validate_ai_call_event_chain_any s c (Some l)) (\<lambda>_.
         (case find_log (cc_event_id (la_call l)) (ad_logs db) of None \<Rightarrow> conflict_error
          | Some entry \<Rightarrow> if oc_status (lg_outcome entry) \<noteq> CALL_OUTCOME_UNKNOWN then conflict_error
              else Inr (PROJECTED_LATE, db)))
    | _ \<Rightarrow> conflict_error) = Inr (st, db1)"
    using assms Late by (auto simp: project_late_def Let_def split: option.splits if_splits)
  then show ?thesis
    using Late by (cases first; cases second) (auto split: option.splits if_splits)
qed

text \<open>A late completion is recorded without touching the log.\<close>

lemma project_late_refines:
  assumes inv: "audit_inv db" and claim: "claim \<in> set (ad_events db)" "event_status claim = PROCESSING"
    and "stored claim (Late l)" "project_late l db = Inr (st, db1)"
    and "event_fixed row = event_fixed claim" "event_status row = PUBLISHED"
  shows "refined db (db1\<lparr>ad_events := replace_event row (ad_events db)\<rparr>)"
proof -
  have ok: "rows_ok db" using inv by (simp add: audit_inv_def)
  have db1: "db1 = db" using project_event_keeps [of refs "Late l" db st db1] assms(5) by simp
  let ?db = "db\<lparr>ad_events := replace_event row (ad_events db)\<rparr>"
  have published: "published_event j name ?db = published_event j name db" if "name \<noteq> ''ai.call.late_completion''" for j name
    using published_publish [OF assms(6) claim(1) ok assms(7,4)] that by simp
  have lives: "call_life ?db = call_life db" by (rule ext, rule call_life_eq) (simp_all add: published)
  then show ?thesis
    using inv replace_ok [OF assms(6) claim(1) ok] by (auto simp: refined_def audit_inv_def db1 published)
qed

lemma dead_letter_refines:
  assumes "audit_inv db" "claim \<in> set (ad_events db)" "dead_letter digest now claim code db = Inr db'"
  shows "refined db db'"
proof -
  have ok: "rows_ok db" using assms(1) by (simp add: audit_inv_def)
  obtain row where row: "event_fixed row = event_fixed claim" "event_status claim = PROCESSING"
    "update_event digest now claim (claim\<lparr>event_status := DEAD_LETTER, last_error := Some code\<rparr>) = Inr row"
    "db' = db\<lparr>ad_events := replace_event row (ad_events db)\<rparr>"
    using finish_claim_facts [OF assms(3) [unfolded dead_letter_def] ok assms(2)] by blast
  have dead: "event_status row = DEAD_LETTER" using update_event_status [OF row(3)] by simp
  have "event_row j name db = Some claim" if "row_key claim = (j, name)" for j name
    unfolding event_row_iff [OF ok] using assms(2) that by simp
  then have "is_ok (published_event j name db') = is_ok (published_event j name db)" for j name
    using dead row(2)
    by (auto simp: row(4) published_event_def replaced_row [OF row(1) assms(2) ok] conflict_error_def)
  then show ?thesis
    using refined_same [OF assms(1)] replace_ok [OF row(1) assms(2) ok]
      published_replace [OF row(1) assms(2) ok] dead row(2,4) by simp
qed

lemma project_event_refines:
  assumes "audit_inv db" "claim \<in> set (ad_events db)" "event_status claim = PROCESSING" "stored claim e"
    and "project_event refs e db = Inr (st, db1)"
    and "event_fixed row = event_fixed claim" "event_status row = PUBLISHED"
  shows "refined db (db1\<lparr>ad_events := replace_event row (ad_events db)\<rparr>)"
  using assms project_started_refines [OF assms(1-3) _ _ assms(6,7)]
    project_completed_refines [OF assms(1-3) _ _ assms(6,7)] project_late_refines [OF assms(1-3) _ _ assms(6,7)]
  by (cases e) simp_all

lemma project_claim_refines:
  assumes inv: "audit_inv db" and claim: "claim \<in> set (ad_events db)" "event_status claim = PROCESSING"
    and "project_claim digest now refs claim db = Inr (st, db')"
  shows "refined db db'"
proof -
  have ok: "rows_ok db" using inv by (simp add: audit_inv_def)
  obtain e where e: "stored claim e" using ok claim(1) by (auto simp: rows_ok_def)
  note stored = stored_fields [OF e]
  show ?thesis
  proof (cases "\<exists>code. dead_letter digest now claim code db = Inr db'")
    case True
    then show ?thesis using dead_letter_refines [OF inv claim(1)] by blast
  next
    case False
    then obtain st' db1 where projected: "project_event refs e db = Inr (st', db1)"
      and finish: "finish_claim digest now claim (\<lambda>r. r\<lparr>event_status := PUBLISHED\<rparr>) db1 = Inr db'"
      using assms(4) by (auto simp: project_claim_def stored split: if_splits sum.splits)
    have events: "ad_events db1 = ad_events db" using project_event_keeps [OF projected] by simp
    then have ok1: "rows_ok db1" and claim1: "claim \<in> set (ad_events db1)" using ok claim(1) by (simp_all add: rows_ok_def)
    obtain row where row: "event_fixed row = event_fixed claim"
      "update_event digest now claim (claim\<lparr>event_status := PUBLISHED\<rparr>) = Inr row"
      "db' = db1\<lparr>ad_events := replace_event row (ad_events db1)\<rparr>"
      using finish_claim_facts [OF finish ok1 claim1] by blast
    have "event_status row = PUBLISHED" using update_event_status [OF row(2)] by simp
    then show ?thesis using project_event_refines [OF inv claim e projected row(1)] row(3) events by simp
  qed
qed

subsection \<open>Every step\<close>

definition quiet :: "audit_rows \<Rightarrow> audit_rows \<Rightarrow> bool" where
  "quiet db db' \<longleftrightarrow> audit_inv db' \<and> call_life db' = call_life db"

lemma refined_quiet: "audit_inv db \<Longrightarrow> refined db db"
  by (simp add: refined_def)

lemma quiet_refined: "quiet db db1 \<Longrightarrow> refined db1 db2 \<Longrightarrow> refined db db2"
  by (simp add: quiet_def refined_def)

lemma quiet_refined_self: "quiet db db' \<Longrightarrow> refined db db'"
  by (simp add: quiet_def refined_def)

lemma add_outbox_quiet:
  assumes "audit_inv db" "add_outbox i t e (event_payload e) db = Inr db'" "valid_event e"
  shows "quiet db db'"
proof -
  have ok: "rows_ok db" using assms(1) by (simp add: audit_inv_def)
  have "call_life db' = call_life db"
    by (rule ext, rule call_life_cong) (use published_add [OF assms(2) ok assms(3)] in blast)
  moreover have "ad_logs db' = ad_logs db" using add_outbox_adds [OF assms(2)] by simp
  ultimately show ?thesis
    using assms(1) add_outbox_ok [OF assms(2) ok assms(3)] published_add [OF assms(2) ok assms(3)]
    by (simp add: quiet_def audit_inv_def)
qed

lemma claim_specific_quiet:
  assumes "audit_inv db" "claim_specific digest t now row_id db = Inr (claim, db')"
  shows "quiet db db'"
    and "claim = Some row \<Longrightarrow> row \<in> set (ad_events db') \<and> event_status row = PROCESSING"
proof -
  have ok: "rows_ok db" using assms(1) by (simp add: audit_inv_def)
  note facts = claim_specific_facts [OF assms(2) ok]
  then have "call_life db' = call_life db" by auto
  then show "quiet db db'" using assms(1) facts by (simp add: quiet_def audit_inv_def)
  show "claim = Some row \<Longrightarrow> row \<in> set (ad_events db') \<and> event_status row = PROCESSING" using facts by simp
qed

text \<open>A reservation that writes has passed every comparison with the limits.\<close>

lemma reserve_attempt_within:
  assumes "reserve_attempt new_id t deadline minimum current event limits db = Inr (st, db')"
  shows "db' = db \<or> (\<exists>s reserved numbers tokens cost. st = RESERVED_NEW \<and> valid_event (Started s)
    \<and> strict_event_view event = Inr (Started s, event_payload (Started s)) \<and> event_row (cc_event_id (st_call s)) ''ai.call.started'' db = None
    \<and> (started_version s = 1 \<longleftrightarrow> limits_version limits = 1)
    \<and> operation_started_events (st_call s) db = Inr reserved
    \<and> count_reserved s reserved ({}, 0, 0) = Inr (numbers, tokens, cost)
    \<and> st_attempt_no s \<notin> numbers \<and> int (length reserved) + 1 \<le> lim_attempts limits
    \<and> st_input_tokens s \<le> lim_input_tokens limits \<and> st_output_tokens s \<le> lim_output_tokens limits
    \<and> tokens + st_input_tokens s + st_output_tokens s \<le> lim_total_tokens limits
    \<and> \<not> cost_exceeded (lim_cost limits) cost (st_cost s)
    \<and> add_outbox new_id t (Started s) (event_payload (Started s)) db = Inr db')"
proof -
  obtain e payload where view: "strict_event_view event = Inr (e, payload)"
    using assms by (auto simp: reserve_attempt_def)
  note valid = view_valid [OF view]
  obtain s where s: "e = Started s" using assms view by (cases e) (auto simp: reserve_attempt_def)
  note call = assms [unfolded reserve_attempt_def view s, simplified]
  show ?thesis
  proof (cases "event_row (cc_event_id (st_call s)) ''ai.call.started'' db = None
      \<and> validate_deadline deadline minimum current = Inr True")
    case False
    then show ?thesis using call by (auto split: if_splits option.splits)
  next
    case True
    then obtain reserved where reserved: "operation_started_events (st_call s) db = Inr reserved"
      using call by (auto split: if_splits)
    show ?thesis
    proof (cases "count_reserved s reserved ({}, 0, 0)")
      case (Inl result)
      then show ?thesis using call True reserved by (auto split: if_splits)
    next
      case (Inr counted)
      then obtain numbers tokens cost where "count_reserved s reserved ({}, 0, 0) = Inr (numbers, tokens, cost)"
        by (cases counted) auto
      then show ?thesis using call True reserved valid view s by (auto split: if_splits)
    qed
  qed
qed

lemma reserve_attempt_adds:
  assumes "reserve_attempt new_id t deadline minimum current event limits db = Inr (st, db')"
  shows "db' = db \<or> (\<exists>e. valid_event e \<and> add_outbox new_id t e (event_payload e) db = Inr db')"
  using reserve_attempt_within [OF assms] by blast

text \<open>What a call may leave behind, one construct of the code at a time.\<close>

definition leaves :: "audit_rows \<Rightarrow> (audit_rows \<Rightarrow> bool) \<Rightarrow> ('a \<times> audit_rows) result \<Rightarrow> bool" where
  "leaves db P r \<longleftrightarrow> (\<forall>x db'. r = Inr (x, db') \<longrightarrow> db' = db \<or> P db')"

lemma leaves_simps [simp]: "leaves db P (Inl e)" "leaves db P (Inr (x, db))" "leaves db P conflict_error"
  by (simp_all add: leaves_def conflict_error_def)

lemma leaves_bind: "(\<And>x. r = Inr x \<Longrightarrow> leaves db P (f x)) \<Longrightarrow> leaves db P (bind_result r f)"
  by (auto simp: leaves_def)

lemma leaves_unless_conflict: "leaves db P r \<Longrightarrow> leaves db P (unless_conflict chain r db)"
  by (simp add: unless_conflict_def split: sum.split)

lemma leaves_last: "leaves db P r \<Longrightarrow> r = Inr (x, db') \<Longrightarrow> db' = db \<or> P db'"
  by (simp add: leaves_def)

lemma leaves_append:
  "P = (\<lambda>db'. \<exists>e. valid_event e \<and> (\<forall>s. e \<noteq> Started s) \<and> add_outbox i t e (event_payload e) db = Inr db')
   \<Longrightarrow> valid_event e \<Longrightarrow> (\<forall>s. e \<noteq> Started s) \<Longrightarrow> payload = event_payload e
   \<Longrightarrow> leaves db P (bind_result (add_outbox i t e payload db) (\<lambda>db'. Inr (f, db')))"
  by (auto simp: leaves_def)

lemma append_completion_adds:
  assumes "append_completion new_id t event db = Inr (st, db')"
  shows "db' = db \<or> (\<exists>e. valid_event e \<and> (\<forall>s. e \<noteq> Started s) \<and> add_outbox new_id t e (event_payload e) db = Inr db')"
proof (rule leaves_last [OF _ assms])
  let ?added = "\<lambda>db'. \<exists>e. valid_event e \<and> (\<forall>s. e \<noteq> Started s) \<and> add_outbox new_id t e (event_payload e) db = Inr db'"
  obtain e payload where view: "strict_event_view event = Inr (e, payload)"
    using assms by (fastforce simp: append_completion_def)
  note valid = view_valid [OF view]
  have kind: "\<forall>s. e \<noteq> Started s" using assms view by (auto simp: append_completion_def)
  note append = leaves_append [where P = ?added, OF refl conjunct1 [OF valid] kind conjunct2 [OF valid]]
  show "leaves db ?added (append_completion new_id t event db)"
  proof (cases e)
    case (Completed c)
    show ?thesis
      unfolding append_completion_def view Let_def Completed
      by (simp only: bind_result.simps prod.case ai_call_event.case)
        (auto intro!: append [unfolded Completed] leaves_unless_conflict leaves_bind [of "event_from_row x" for x]
          split: ai_call_event.split option.split if_split)
  next
    case (Late l)
    show ?thesis
      unfolding append_completion_def view Let_def Late
      by (simp only: bind_result.simps prod.case ai_call_event.case)
        (auto intro!: append [unfolded Late] leaves_unless_conflict leaves_bind [of "event_from_row x" for x]
          split: ai_call_event.split option.split if_split)
  qed (use kind in simp)
qed

lemma project_next_refines:
  assumes "audit_inv db" "project_next digest t t' now now' refs db = Inr (st, db')"
  shows "refined db db'"
proof (cases "filter (projectable t db) (ad_events db)")
  case Nil
  then show ?thesis using assms refined_quiet by (simp add: project_next_def)
next
  case (Cons r rs)
  then obtain claim db1 where claim: "claim_specific digest t' now (event_row_id (arg_min_list row_order (r # rs))) db = Inr (claim, db1)"
    and rest: "(case claim of None \<Rightarrow> Inr (PROJECTION_STALE, db1) | Some row \<Rightarrow> project_claim digest now' refs row db1) = Inr (st, db')"
    using assms(2) by (auto simp: project_next_def)
  note quiet = claim_specific_quiet [OF assms(1) claim]
  then have "audit_inv db1" by (simp add: quiet_def)
  with rest quiet show ?thesis
    by (cases claim) (auto intro: quiet_refined_self quiet_refined project_claim_refines)
qed

lemma reconcile_claim_refines:
  assumes "audit_inv db" "reconcile_claim digest clocks refs row_id db = Inr (Some (st, db'))"
  shows "refined db db'"
proof -
  obtain row db1 where claim: "claim_specific digest (rc_claim clocks) (rc_trigger clocks) row_id db = Inr (Some row, db1)"
    and rest: "project_claim digest (rc_trigger' clocks) refs row db1 = Inr (st, db')"
    using assms(2) by (auto simp: reconcile_claim_def split: option.splits)
  note quiet = claim_specific_quiet [OF assms(1) claim]
  then show ?thesis using rest by (auto simp: quiet_def intro: quiet_refined project_claim_refines)
qed

lemma close_unknown_refines:
  assumes "audit_inv db" "close_unknown digest new_id created clocks refs s started db = Inr (st, db')"
  shows "refined db db'"
proof -
  obtain e where valid: "valid_event e"
    and e: "(case e of Completed _ \<Rightarrow>
       bind_result (add_outbox new_id created e (event_payload e) db) (\<lambda>db1.
       bind_result (reconcile_claim digest clocks refs new_id db1) (\<lambda>r.
       case r of
         None \<Rightarrow> Inl (DomainError ''AI_OUTCOME_UNKNOWN_CLAIM_FAILED'')
       | Some (result, db2) \<Rightarrow>
           if result = PROJECTED then Inr (RECONCILED_UNKNOWN, db2)
           else Inl (DomainError ''AI_OUTCOME_UNKNOWN_PROJECTION_FAILED'')))
     | _ \<Rightarrow> Inl (DomainError ''AI_OUTCOME_UNKNOWN_EVENT_INVALID'')) = Inr (st, db')"
    using assms(2) validate_valid by (auto simp: close_unknown_def)
  then obtain db1 r where "add_outbox new_id created e (event_payload e) db = Inr db1"
    and claim: "reconcile_claim digest clocks refs new_id db1 = Inr (Some (r, db'))"
    by (cases e) (auto split: option.splits if_splits)
  then have quiet: "quiet db db1" using add_outbox_quiet [OF assms(1) _ valid] by blast
  then show ?thesis using quiet_refined reconcile_claim_refines [OF _ claim] by (simp add: quiet_def)
qed

lemma reconcile_leaves:
  assumes "\<And>row_id result db'. reconcile_claim digest clocks refs row_id db = Inr (Some (result, db')) \<Longrightarrow> P db'"
    and "\<And>s started st db'. close_unknown digest new_id created clocks refs s started db = Inr (st, db') \<Longrightarrow> P db'"
  shows "leaves db P (reconcile_expired_once digest new_id created clocks refs given_values db)"
proof -
  have claimed: "leaves db P (bind_result (reconcile_claim digest clocks refs row_id db) (\<lambda>projected.
      case projected of None \<Rightarrow> Inr (RECONCILE_STALE, db) | Some (result, db') \<Rightarrow> Inr (f result, db')))" for row_id f
  proof (rule leaves_bind)
    fix projected assume "reconcile_claim digest clocks refs row_id db = Inr projected"
    then show "leaves db P (case projected of None \<Rightarrow> Inr (RECONCILE_STALE, db)
        | Some (result, db') \<Rightarrow> Inr (f result, db'))"
      using assms(1) by (cases projected) (auto simp: leaves_def)
  qed
  have closed: "leaves db P (close_unknown digest new_id created clocks refs s started db)" for s started
    using assms(2) by (auto simp: leaves_def)
  show ?thesis
    unfolding reconcile_expired_once_def Let_def
    by (auto intro!: claimed closed leaves_bind [of "event_from_row x" for x] leaves_bind [of "validated_deadlines x" for x]
        split: list.split option.split ai_call_event.split if_split)
qed

lemma reconcile_refines:
  assumes "audit_inv db" "reconcile_expired_once digest new_id created clocks refs given_values db = Inr (st, db')"
  shows "refined db db'"
proof -
  have "leaves db (refined db) (reconcile_expired_once digest new_id created clocks refs given_values db)"
    by (intro reconcile_leaves reconcile_claim_refines close_unknown_refines assms(1))
  then show ?thesis using assms(2) refined_quiet [OF assms(1)] by (auto simp: leaves_def)
qed

theorem audit_step_refines:
  assumes "audit_inv db"
  shows "refined db (audit_step digest refs call db)"
proof (cases call)
  case (Reserve new_id t deadline minimum current e limits)
  then show ?thesis
    using refined_quiet [OF assms] reserve_attempt_adds quiet_refined_self [OF add_outbox_quiet [OF assms]]
    by (fastforce simp: committed_def split: sum.split prod.split)
next
  case (Append new_id t e)
  then show ?thesis
    using refined_quiet [OF assms] append_completion_adds quiet_refined_self [OF add_outbox_quiet [OF assms]]
    by (fastforce simp: committed_def split: sum.split prod.split)
next
  case (ProjectNext t t' now now')
  then show ?thesis
    using refined_quiet [OF assms] project_next_refines [OF assms] by (auto simp: committed_def split: sum.split)
next
  case (Reconcile new_id t clocks deadlines)
  then show ?thesis
    using refined_quiet [OF assms] reconcile_refines [OF assms] by (auto simp: committed_def split: sum.split)
qed

subsection \<open>Every history\<close>

text \<open>A machine whose steps keep an invariant and are, seen through an abstraction, steps of another machine
  or no step at all.\<close>

locale simulation =
  fixes step :: "'c \<Rightarrow> 's \<Rightarrow> 's" and inv :: "'s \<Rightarrow> bool" and view :: "'s \<Rightarrow> 'a"
    and abstract_step :: "'a \<Rightarrow> 'a \<Rightarrow> bool"
  assumes keeps: "inv s \<Longrightarrow> inv (step c s)"
    and simulates: "inv s \<Longrightarrow> abstract_step\<^sup>=\<^sup>= (view s) (view (step c s))"
begin

lemma run_keeps: "inv s \<Longrightarrow> inv (fold step cs s)"
  by (induction cs arbitrary: s) (simp_all add: keeps)

lemma run_simulates: "inv s \<Longrightarrow> abstract_step\<^sup>*\<^sup>* (view s) (view (fold step cs s))"
proof (induction cs arbitrary: s)
  case (Cons c cs)
  then have "abstract_step\<^sup>*\<^sup>* (view (step c s)) (view (fold step cs (step c s)))" by (simp add: keeps)
  moreover have "abstract_step\<^sup>*\<^sup>* (view s) (view (step c s))" using simulates [OF Cons.prems, of c] by auto
  ultimately show ?case by simp
qed simp

end

interpretation audit: simulation "audit_step digest refs" audit_inv call_life lives_step for digest refs
  using audit_step_refines by unfold_locales (simp_all add: refined_def)

lemma no_rows_inv [simp]: "audit_inv no_rows" and no_rows_life [simp]: "call_life no_rows = (\<lambda>_. NoCall)"
  by (simp_all add: audit_inv_def no_rows_def rows_ok_def find_log_def call_life_def published_event_def
      event_row_def conflict_error_def fun_eq_iff)

lemma audit_run_inv [simp]: "audit_inv (audit_run digest refs calls no_rows)"
  by (simp add: audit_run_def audit.run_keeps)

section \<open>What is reserved\<close>

text \<open>The started events of an operation, in terms of the parts of the rows that never change.\<close>

definition bare :: "event_identity \<Rightarrow> outbox_event" where
  "bare x = \<lparr>event_fixed = x, event_status = PENDING, attempt_count = 0, next_attempt_at = None,
     published_at = None, last_error = None\<rparr>"

definition started_part :: "ai_call_event result \<Rightarrow> started_event" where
  "started_part e = (case e of Inr (Started s) \<Rightarrow> s)"

definition reserved :: "call_correlation \<Rightarrow> audit_rows \<Rightarrow> started_event multiset" where
  "reserved c db = image_mset (\<lambda>x. started_part (event_from_row (bare x)))
     (filter_mset (\<lambda>x. same_operation c (bare x)) (mset (map event_fixed (ad_events db))))"

lemma bare_same: "same_operation c (bare (event_fixed r)) = same_operation c r"
  "event_from_row (bare (event_fixed r)) = event_from_row r"
  by (simp_all add: bare_def same_operation_def payload_text_def event_from_row_def row_document_def)

lemma map_result_map: "\<forall>x \<in> set xs. f x = Inr (g x) \<Longrightarrow> map_result f xs = Inr (map g xs)"
  by (induction xs) simp_all

lemma operation_started_events_reserved:
  assumes "rows_ok db"
  obtains xs where "operation_started_events c db = Inr xs" "mset (map fst xs) = reserved c db"
proof -
  let ?rows = "sort_key row_order (filter (same_operation c) (ad_events db))"
  let ?g = "\<lambda>r. (started_part (event_from_row r), event_status r)"
  have "bind_result (event_from_row r) (\<lambda>e. case e of Started s \<Rightarrow> Inr (s, event_status r)
      | _ \<Rightarrow> Inl (DomainError ''AI_AUDIT_STORED_EVENT_INVALID'')) = Inr (?g r)" if "r \<in> set ?rows" for r
  proof -
    have r: "r \<in> set (ad_events db)" "event_type (event_fixed r) = ''ai.call.started''"
      using that by (auto simp: same_operation_def)
    then obtain e where e: "stored r e" using assms by (auto simp: rows_ok_def)
    then obtain s where "e = Started s" using stored_fields [OF e] r(2) started_typed(1) [of e] by auto
    then show ?thesis using stored_fields(3) [OF e] by (simp add: started_part_def)
  qed
  then have "operation_started_events c db = Inr (map ?g ?rows)"
    unfolding operation_started_events_def by (intro map_result_map) blast
  moreover have "mset (map fst (map ?g ?rows)) = reserved c db"
  proof -
    have "reserved c db = mset (map (\<lambda>r. started_part (event_from_row r)) (filter (same_operation c) (ad_events db)))"
      unfolding reserved_def mset_filter [symmetric] mset_map [symmetric]
      by (simp add: filter_map comp_def bare_same)
    then show ?thesis by (simp add: comp_def mset_map)
  qed
  ultimately show ?thesis using that by blast
qed

lemma reserved_fixed:
  "map event_fixed (ad_events db') = map event_fixed (ad_events db) \<Longrightarrow> reserved c db' = reserved c db"
  by (simp only: reserved_def)

lemma text_of_lit: "json_text (json_of_value (PyStr t)) = Some t"
proof -
  have "lit (map char_of t) = t" if "list_all (\<lambda>c. c < 128) t" for t :: pystr
    using that by (induction t) (simp_all add: lit_def)
  then show ?thesis by (simp add: json_text_def json_of_value_def)
qed

lemma json_get_dict: "json_get (json_of_dict d) k = map_option json_of_value (map_of d k)"
  by (induction d) (auto simp: json_get_def json_of_dict_def)

lemma payload_common:
  "k \<in> set common_fields \<Longrightarrow> map_of (event_payload e) k = map_of (envelope_payload e) k"
  by (cases e) (simp_all only: event_payload.simps started_common completed_common late_common if_True)

lemma valid_policy_version:
  assumes "valid_event e"
  shows "0 < cc_policy_version (event_call e)"
proof -
  have "read_correlation (event_payload e) \<noteq> None"
    using assms by (auto simp: valid_event_def read_event_def read_started_def read_completed_def read_late_def
        bind_eq_Some_conv simp del: event_payload.simps split: if_splits option.splits pyval.splits)
  then have "fld (event_payload e) ''policy_version'' positive_field \<noteq> None"
    by (auto simp: read_correlation_def bind_eq_Some_conv)
  then have "positive_field (PyInt (cc_policy_version (event_call e))) \<noteq> None"
    by (simp add: fld_def payload_common common_fields_defs envelope_lookup)
  then show ?thesis
    by (auto simp: positive_field_def count_field_def safe_integer_def split: if_splits option.splits)
qed

lemma same_operation_new:
  assumes "valid_event e" "0 < cc_policy_version c"
  shows "same_operation c (outbox_row i t e (event_payload e)) \<longleftrightarrow>
    (\<exists>s. e = Started s) \<and> cc_organization_id (event_call e) = cc_organization_id c
    \<and> cc_operation_id (event_call e) = cc_operation_id c \<and> cc_policy_version (event_call e) = cc_policy_version c"
proof -
  have uuids: "uuid_str u = uuid_str v \<longleftrightarrow> u = v" for u v using uuid_text.render_inj [of u v] by auto
  have numbers: "dec_digits m = dec_digits n \<longleftrightarrow> m = n" for m n by (metis read_dec_digits)
  have positive: "json_text (json_of_value (PyInt n)) = Some (dec_digits (nat n))" if "0 < n" for n
    using that by (simp add: json_of_value_def json_text_def)
  note version = valid_policy_version [OF assms(1)]
  show ?thesis
    using assms(2) version
    by (auto simp: same_operation_def payload_text_def outbox_row_def Let_def json_get_dict payload_common
        common_fields_defs envelope_lookup text_of_lit positive uuids numbers started_typed)
qed

lemma reserved_new:
  assumes "valid_event e" "0 < cc_policy_version c" "ad_events db' = ad_events db @ [outbox_row i t e (event_payload e)]"
  shows "reserved c db' = (if (\<exists>s. e = Started s) \<and> cc_organization_id (event_call e) = cc_organization_id c
      \<and> cc_operation_id (event_call e) = cc_operation_id c \<and> cc_policy_version (event_call e) = cc_policy_version c
    then add_mset (started_part (Inr e)) (reserved c db) else reserved c db)"
  using stored_fields(3) [OF stored_new [OF assms(1)]] same_operation_new [OF assms(1,2)]
  by (simp add: reserved_def assms(3) bare_same)

end
