(* ===== verification/AiCallSamples.thy ===== *)
theory AiCallSamples
  imports AiCallHistory
begin

text \<open>
  When an event is valid, field by field, and the sample events of a call: a reserved start, its completion
  and the outbox after the reservation.
\<close>

section \<open>Printed fields\<close>

lemma printed_uuid [simp]: "uuid_field (PyStr (uuid_str u)) = Some u"
  using uuid_text.read_render [of u] by (simp add: text_field_def)

lemma printed_uuids [simp]: "null_field uuid_field (null_value (\<lambda>u. PyStr (uuid_str u)) x) = Some x"
  by (cases x) (simp_all add: null_field_def null_value_def)

lemma printed_stamp: "valid_stamp t \<Longrightarrow> stamp_field (PyStr (stamp_text t)) = Some t"
  using stamp.read_render [of t] by (simp add: text_field_def)

lemma printed_choice:
  "distinct (map fst table) \<Longrightarrow> distinct (map snd table) \<Longrightarrow> x \<in> fst ` set table
   \<Longrightarrow> value_in table (text_in table x) = Some x"
  by (rule canonical_text.read_render [OF table_text])

lemma printed_choices [simp]:
  shows "value_in call_types (text_in call_types a) = Some a" and "value_in adapters (text_in adapters b) = Some b"
    and "value_in currencies (text_in currencies c) = Some c"
    and "value_in breaker_states (text_in breaker_states d) = Some d"
proof -
  show "value_in call_types (text_in call_types a) = Some a"
    by (rule printed_choice) (cases a; simp add: choice_defs)+
  show "value_in adapters (text_in adapters b) = Some b" by (rule printed_choice) (cases b; simp add: choice_defs)+
  show "value_in currencies (text_in currencies c) = Some c" by (rule printed_choice) (cases c; simp add: choice_defs)+
  show "value_in breaker_states (text_in breaker_states d) = Some d"
    by (rule printed_choice) (cases d; simp add: choice_defs)+
qed

lemma null_printed:
  "(\<And>y. rd (pr y) = Some y \<and> pr y \<noteq> PyNone) \<Longrightarrow> null_field rd (null_value pr x) = Some x"
proof (cases x)
  case (Some y)
  assume "\<And>y. rd (pr y) = Some y \<and> pr y \<noteq> PyNone"
  then have "rd (pr y) = Some y" "pr y \<noteq> PyNone" by blast+
  then show ?thesis using Some by (cases "pr y") (simp_all add: null_field_def null_value_def)
qed (simp add: null_field_def null_value_def)

lemma printed_breakers [simp]:
  "null_field (choice breaker_states) (null_value (chosen breaker_states) x) = Some x"
  "null_field (choice currencies) (currency_value c) = Some c"
  unfolding currency_value_def by (rule null_printed, simp add: text_field_def)+

lemma printed_flag [simp]: "bool_field (PyBool b) = Some b"
  by (simp add: bool_field_def)

lemma correlation_readable:
  assumes "0 < cc_policy_version (event_call e)" "cc_policy_version (event_call e) \<le> max_safe_integer"
    "sha256_text (cc_policy_hash (event_call e)) = Some (cc_policy_hash (event_call e))"
  shows "read_correlation (envelope_payload e) = Some (event_call e)"
  using assms
  by (simp add: read_correlation_def fld_def envelope_lookup positive_field_def count_field_def
      safe_integer_def text_field_def read_uuid_str printed_uuids [unfolded text_field_def])

lemma valid_startedI:
  assumes "started_contract s" "0 < cc_policy_version (st_call s)" "cc_policy_version (st_call s) \<le> max_safe_integer"
    "sha256_text (cc_policy_hash (st_call s)) = Some (cc_policy_hash (st_call s))"
    "null_field (text_field resource_type_text) (null_value PyStr (st_resource_type s)) = Some (st_resource_type s)"
    "positive_field (PyInt (st_generation_no s)) = Some (st_generation_no s)"
    "positive_field (PyInt (st_attempt_no s)) = Some (st_attempt_no s)"
    "endpoint_text (st_endpoint_id s) = Some (st_endpoint_id s)" "model_id_text (st_model_id s) = Some (st_model_id s)"
    "null_field (text_field safe_text) (null_value PyStr (st_model_version s)) = Some (st_model_version s)"
    "null_field (text_field safe_text) (null_value PyStr (st_prompt_id s)) = Some (st_prompt_id s)"
    "null_field (text_field safe_text) (null_value PyStr (st_prompt_version s)) = Some (st_prompt_version s)"
    "null_field (text_field sha256_text) (null_value PyStr (st_prompt_hash s)) = Some (st_prompt_hash s)"
    "null_field (text_field safe_text) (null_value PyStr (st_schema_version s)) = Some (st_schema_version s)"
    "pricing_version_text (st_pricing_version s) = Some (st_pricing_version s)"
    "sha256_text (st_input_hash s) = Some (st_input_hash s)"
    "count_field (PyInt (st_input_tokens s)) = Some (st_input_tokens s)"
    "count_field (PyInt (st_output_tokens s)) = Some (st_output_tokens s)"
    "count_field (PyInt (cost_amount (st_cost s))) = Some (cost_amount (st_cost s))"
    "valid_stamp (st_started_at s)"
  shows "valid_event (Started s)"
proof -
  have call: "read_correlation (envelope_payload (Started s)) = Some (st_call s)"
    using correlation_readable [of "Started s"] assms(2-4) by simp
  have "read_correlation (started_payload s) = Some (st_call s)"
    by (rule correlation_again [OF call, where e = "Started s"])
      (use started_common in \<open>auto simp: common_fields_def envelope_fields_def\<close>)
  moreover have version: "started_version s \<in> {1, 2}" by (simp add: started_version_def split: reserved_cost.split)
  moreover have "envelope_valid (started_version s) 1 ''ai.call.started'' (started_payload s)"
    using envelope_again [of "started_payload s" "Started s"] started_common version
    by (simp add: common_fields_def)
  moreover have "closed_document (started_fields (started_version s)) [] (started_payload s)"
    by (rule closed_documentI)
      (auto simp: started_payload_def common_names common_fields_def started_fields_def
         started_version_def split: reserved_cost.splits)
  moreover have "read_reserved_cost (started_version s) (started_payload s) = Some (st_cost s)"
    using assms(19) by (cases "st_cost s") (simp_all add: read_reserved_cost_def started_version_def started_costs)
  ultimately have "read_started (started_version s) (started_payload s) = Some s"
    using assms unfolding read_started_iff
    by (simp add: started_values text_field_def stamp.read_render printed_breakers [unfolded text_field_def]
        printed_uuids [unfolded text_field_def] started_contract_def)
  then show ?thesis
    using started_common [of "''event_type''" s]
    by (simp add: valid_event_def read_event_def common_fields_defs envelope_lookup)
qed

definition sample_call :: call_correlation where
  "sample_call = \<lparr>cc_event_id = 7, cc_organization_id = 1, cc_operation_id = 2, cc_job_id = None,
     cc_request_id = None, cc_trace_id = 3, cc_policy_version = 4, cc_policy_hash = replicate 64 97\<rparr>"

definition sample_started :: "pystr \<Rightarrow> started_event" where
  "sample_started prompt = \<lparr>st_call = sample_call, st_resource_type = Some (lit ''contract''), st_resource_id = Some 9,
     st_call_type = RAG_ANSWER, st_generation_no = 1, st_attempt_no = 1, st_adapter = CHAT_COMPLETIONS_V1,
     st_endpoint_id = lit ''primary'', st_model_id = lit ''m'', st_model_version = None,
     st_prompt_id = Some prompt, st_prompt_version = Some (lit ''v1''),
     st_prompt_hash = Some (replicate 64 98), st_schema_version = None, st_pricing_version = lit ''p1'',
     st_input_hash = replicate 64 99, st_input_tokens = 100, st_output_tokens = 50,
     st_cost = Microunits (Some USD) 700, st_attempt_count = 1, st_is_fallback = False,
     st_breaker_state = Some BREAKER_CLOSED, st_started_at = (Date 2026 8 20, 0)\<rparr>"

lemma call_sample_texts:
  "sha256_text (replicate 64 97) = Some (replicate 64 97)" "sha256_text (replicate 64 98) = Some (replicate 64 98)"
  "sha256_text (replicate 64 99) = Some (replicate 64 99)" "endpoint_text (lit ''primary'') = Some (lit ''primary'')"
  "model_id_text (lit ''m'') = Some (lit ''m'')" "safe_text (lit ''v1'') = Some (lit ''v1'')"
  "pricing_version_text (lit ''p1'') = Some (lit ''p1'')" "resource_type_text (lit ''contract'') = Some (lit ''contract'')"
  by (simp_all add: text_shape_defs lit_def is_alnum_def is_upper_def is_lower_def is_decimal_digit_def is_scalar_def
      among_def list_all_iff is_lower_hex_def)

lemma sample_stamp: "valid_stamp (Date 2026 8 20, n) \<longleftrightarrow> n < day_microseconds"
  by (simp add: valid_stamp_def calendar_date_def days_in_month_def)

lemma sample_started_valid:
  assumes "safe_text prompt = Some prompt"
  shows "valid_event (Started (sample_started prompt))"
  using assms call_sample_texts sample_stamp
    by (intro valid_startedI)
      (simp_all add: sample_started_def sample_call_def started_contract_def max_safe_integer_def
        null_field_def null_value_def text_field_def positive_field_def count_field_def safe_integer_def day_microseconds_def)

lemma valid_completedI:
  assumes "status_matrix c" "0 < cc_policy_version (co_call c)" "cc_policy_version (co_call c) \<le> max_safe_integer"
    "sha256_text (cc_policy_hash (co_call c)) = Some (cc_policy_hash (co_call c))"
    "choice completed_statuses (chosen completed_statuses (co_status c)) = Some (co_status c)"
    "valid_stamp (co_completed_at c)" "count_field (PyInt (co_duration_ms c)) = Some (co_duration_ms c)"
    "null_field (text_field sha256_text) (null_value PyStr (co_output_hash c)) = Some (co_output_hash c)"
    "null_field count_field (null_value PyInt (co_input_tokens c)) = Some (co_input_tokens c)"
    "null_field count_field (null_value PyInt (co_output_tokens c)) = Some (co_output_tokens c)"
    "null_field count_field (null_value PyInt (co_vector_count c)) = Some (co_vector_count c)"
    "null_field http_field (null_value PyInt (co_http_status c)) = Some (co_http_status c)"
    "null_field (choice error_categories) (null_value (chosen error_categories) (co_error_category c)) = Some (co_error_category c)"
    "null_field (text_field safe_error_text) (null_value PyStr (co_safe_error c)) = Some (co_safe_error c)"
    "null_field (text_field citation_text) (null_value PyStr (co_citation_status c)) = Some (co_citation_status c)"
    "\<forall>currency units. co_cost c = Some (currency, units) \<longrightarrow> null_field count_field (null_value PyInt units) = Some units"
  shows "valid_event (Completed c)"
proof -
  let ?version = "event_version_of (Completed c)"
  have call: "read_correlation (envelope_payload (Completed c)) = Some (co_call c)"
    using correlation_readable [of "Completed c"] assms(2-4) by simp
  have "read_correlation (completed_payload c) = Some (co_call c)"
    by (rule correlation_again [OF call, where e = "Completed c"])
      (use completed_common in \<open>auto simp: common_fields_def envelope_fields_def\<close>)
  moreover have "envelope_valid ?version 2 ''ai.call.completed'' (completed_payload c)"
    using envelope_again [of "completed_payload c" "Completed c"] completed_common
    by (simp add: common_fields_def)
  moreover have "closed_document (completed_fields ?version) [] (completed_payload c)"
    by (rule closed_documentI) (simp_all only: completed_names, simp_all)
  moreover have "read_actual_cost ?version (completed_payload c) = Some (co_cost c)"
    using assms(16) by (cases "co_cost c") (auto simp: read_actual_cost_def completed_costs)
  ultimately have "read_completed ?version (completed_payload c) = Some c"
    using assms unfolding read_completed_iff
    by (simp add: completed_values text_field_def stamp.read_render)
  then show ?thesis
    using completed_common [of "''event_type''" c]
    by (simp add: valid_event_def read_event_def common_fields_defs envelope_lookup)
qed

definition sample_completed :: completed_event where
  "sample_completed = \<lparr>co_call = sample_call, co_cost = Some (Some USD, Some 650), co_status = CALL_SUCCEEDED,
     co_completed_at = (Date 2026 8 20, 2000000), co_duration_ms = 2000, co_output_hash = Some (replicate 64 98),
     co_input_tokens = Some 90, co_output_tokens = Some 40, co_vector_count = None, co_http_status = Some 200,
     co_error_category = None, co_safe_error = None, co_citation_status = None\<rparr>"

lemma sample_completed_valid: "valid_event (Completed sample_completed)"
  using call_sample_texts sample_stamp
  by (intro valid_completedI)
    (simp_all add: sample_completed_def sample_call_def status_matrix_def unmetered_free_def cost_known_def max_safe_integer_def
      null_field_def null_value_def text_field_def count_field_def safe_integer_def http_field_def day_microseconds_def
      printed_choice choice_defs)

lemma sample_chained: "chained (sample_started (lit ''answer'')) sample_completed"
proof -
  have "\<not> text_before (Date 2026 8 20, 2000000) (Date 2026 8 20, 0)"
    by (subst text_before_iff) (simp_all add: sample_stamp day_microseconds_def stamp_time_def)
  then show ?thesis
    by (simp add: chained_def sample_started_def sample_completed_def started_version_def outcome_fits_def)
qed

lemma storable_value: "(case v of PyStr t \<Rightarrow> 0 \<notin> set t | _ \<Rightarrow> True) \<Longrightarrow>
   (case json_of_value v of JText s \<Rightarrow> CHR 0x00 \<notin> set s | JUnicode s \<Rightarrow> 0 \<notin> set s | _ \<Rightarrow> True)"
proof (cases v)
  case (PyStr t)
  have "c = 0" if "CHR 0x00 = char_of c" "c < 128" for c :: nat
    using arg_cong [OF that(1), of "of_char :: char \<Rightarrow> nat"] that(2) by simp
  then show "(case v of PyStr t \<Rightarrow> 0 \<notin> set t | _ \<Rightarrow> True) \<Longrightarrow> ?thesis"
    using PyStr by (auto simp: json_of_value_def list_all_iff)
qed (auto simp: json_of_value_def)

lemma no_zero_uuid [simp]: "0 \<notin> set (uuid_str u)"
proof
  assume "0 \<in> set (uuid_str u)"
  then have "0 \<in> set (filter (\<lambda>c. c \<noteq> 45) (uuid_str u))" by simp
  then show False using hex_fixed_lower [of 32 "unat u"] by (auto simp: uuid_str_hex list_all_iff is_lower_hex_def)
qed

lemma no_zero_digits [simp]: "0 \<notin> set (dec_digits n)"
  using dec_digits_range by fastforce

lemma no_zero_stamp [simp]: "0 \<notin> set (stamp_text t)"
  by (cases "fst t") (simp add: stamp_text_def Let_def two_def zfill_def isoformat_def lit_def)

lemma payload_storable:
  assumes "0 \<notin> set prompt"
  shows "json_storable (json_of_dict (event_payload (Started (sample_started prompt))))"
proof -
  have "json_storable (json_of_dict d)" if "list_all (\<lambda>(_, v). case v of PyStr t \<Rightarrow> 0 \<notin> set t | _ \<Rightarrow> True) d" for d
    using that storable_value by (induction d) (auto simp: json_storable_def json_of_dict_def)
  moreover have "list_all (\<lambda>(_, v). case v of PyStr t \<Rightarrow> 0 \<notin> set t | _ \<Rightarrow> True) (event_payload (Started (sample_started prompt)))"
    using assms
    by (simp add: started_payload_def envelope_payload_def Let_def null_value_def sample_started_def sample_call_def
        currency_value_def text_in_def choice_defs lit_def started_version_def)
  ultimately show ?thesis by blast
qed

definition sample_limits :: audit_limits where
  "sample_limits = \<lparr>lim_attempts = 3, lim_input_tokens = 1000, lim_output_tokens = 1000, lim_total_tokens = 5000,
       lim_cost = Microunits (Some USD) 10000\<rparr>"

definition sample_reserve :: "pystr \<Rightarrow> audit_call" where
  "sample_reserve prompt = Reserve 5 10 (Some 100) (Some 1) (Some 2) (Started (sample_started prompt)) sample_limits"

definition sample_row :: "pystr \<Rightarrow> outbox_event" where
  "sample_row prompt = outbox_row 5 10 (Started (sample_started prompt)) (event_payload (Started (sample_started prompt)))"

lemma sample_reserved:
  assumes "valid_event (Started (sample_started prompt))" "0 \<notin> set prompt"
  shows "reserve_attempt 5 10 (Some 100) (Some 1) (Some 2) (Started (sample_started prompt)) sample_limits no_rows
      = Inr (RESERVED_NEW, no_rows\<lparr>ad_events := [sample_row prompt]\<rparr>)"
proof -
  let ?s = "sample_started prompt"
  have added: "add_outbox 5 10 (Started ?s) (event_payload (Started ?s)) no_rows = Inr (no_rows\<lparr>ad_events := [sample_row prompt]\<rparr>)"
    using payload_storable [OF assms(2)]
    by (simp add: add_outbox_def insert_event_def Let_def sample_row_def outbox_row_def event_insert_trigger_def
        event_checks_def event_identity_checks_def event_state_matrix_def no_rows_def sql_truth started_version_def
        sample_started_def btrim_empty_def)
  show ?thesis
    unfolding reserve_attempt_def valid_view [OF assms(1)]
    using added
    by (simp add: started_version_def sample_started_def [of prompt] limits_version_def sample_limits_def event_row_def
        validate_deadline_def operation_started_events_def cost_exceeded_def no_rows_def del: event_payload.simps)
qed

lemma sample_stored:
  assumes "valid_event (Started (sample_started prompt))" "0 \<notin> set prompt"
  shows "audit_run digest refs [sample_reserve prompt] no_rows = no_rows\<lparr>ad_events := [sample_row prompt]\<rparr>"
  using sample_reserved [OF assms] by (simp add: audit_run_def sample_reserve_def committed_def)

text \<open>The completion of the sample call, after its reservation.\<close>

lemma sample_prompt: "valid_event (Started (sample_started (lit ''answer'')))" "0 \<notin> set (lit ''answer'')"
  by (rule sample_started_valid) (simp_all add: text_shape_defs lit_def is_alnum_def is_upper_def is_lower_def is_decimal_digit_def among_def)

definition completed_row :: outbox_event where
  "completed_row = outbox_row 6 20 (Completed sample_completed) (event_payload (Completed sample_completed))"

lemma sample_completed_storable: "json_storable (json_of_dict (event_payload (Completed sample_completed)))"
proof -
  have "json_storable (json_of_dict d)" if "list_all (\<lambda>(_, v). case v of PyStr t \<Rightarrow> 0 \<notin> set t | _ \<Rightarrow> True) d" for d
    using that storable_value by (induction d) (auto simp: json_storable_def json_of_dict_def)
  moreover have "list_all (\<lambda>(_, v). case v of PyStr t \<Rightarrow> 0 \<notin> set t | _ \<Rightarrow> True) (event_payload (Completed sample_completed))"
    by (simp add: completed_payload_def envelope_payload_def Let_def null_value_def sample_completed_def sample_call_def
        currency_value_def text_in_def choice_defs lit_def)
  ultimately show ?thesis by blast
qed

lemma sample_completion:
  "append_completion 6 20 (Completed sample_completed) (no_rows\<lparr>ad_events := [sample_row (lit ''answer'')]\<rparr>)
    = Inr (COMPLETED_NEW, no_rows\<lparr>ad_events := [sample_row (lit ''answer''), completed_row]\<rparr>)"
proof -
  let ?db = "no_rows\<lparr>ad_events := [sample_row (lit ''answer'')]\<rparr>"
  have row: "event_id (event_fixed (sample_row p)) = 7" "event_type (event_fixed (sample_row p)) = ''ai.call.started''"
    "event_status (sample_row p) = PENDING" "outbox_id (event_fixed (sample_row p)) = 5"
    "aggregate_type (event_fixed (sample_row p)) = ''ai_call''" "aggregate_id (event_fixed (sample_row p)) = 7"
    "event_sequence (event_fixed (sample_row p)) = 1" for p
    by (simp_all add: sample_row_def outbox_row_def Let_def sample_started_def sample_call_def)
  have call: "cc_event_id (co_call sample_completed) = 7" by (simp add: sample_completed_def sample_call_def)
  have stored: "event_from_row (sample_row (lit ''answer'')) = Inr (Started (sample_started (lit ''answer'')))"
    unfolding sample_row_def by (rule stored_fields(3) [OF stored_new [OF sample_prompt(1)]])
  have added: "add_outbox 6 20 (Completed sample_completed) (event_payload (Completed sample_completed)) ?db
      = Inr (no_rows\<lparr>ad_events := [sample_row (lit ''answer''), completed_row]\<rparr>)"
    using sample_completed_storable row call
    by (simp add: add_outbox_def insert_event_def Let_def completed_row_def outbox_row_def event_insert_trigger_def
        event_checks_def event_identity_checks_def event_state_matrix_def no_rows_def sql_truth
        sample_completed_def btrim_empty_def)
  have chain: "validate_ai_call_event_chain_any (sample_started (lit ''answer'')) sample_completed None = Inr ()"
    using chain_any_iff [OF sample_prompt(1) sample_completed_valid, of None] sample_chained by simp
  show ?thesis
    unfolding append_completion_def valid_view [OF sample_completed_valid]
    using added chain row call stored
    by (simp add: event_row_def unless_conflict_def is_late_def no_rows_def find_log_def del: event_payload.simps)
qed

end
