(* ===== verification/AiCallAuditProperties.thy ===== *)
theory AiCallAuditProperties
  imports AiCallSamples
begin

text \<open>
  The properties of the call audit: the log table is a projection of the published events, reservations stay
  within the limits of their operation, an event that does not fit the log's columns stops the projection.
\<close>

section \<open>The log and the lives\<close>

text \<open>C5. In every history of reservations, completions, projections and reconciliations, the table of call
  logs is exactly what the published events say: one row per call whose start is published, pending while no
  completion is published and with the completion's values afterwards; each call of the repository moves at
  most one call of the provider one step along its life, from none to open to closed, and closes it only with
  a completion that fits its start.\<close>

theorem audit_log_follows_lives:
  "let db = audit_run digest refs calls no_rows in
     (\<forall>i. find_log i (ad_logs db) = life_log (call_life db i))
     \<and> distinct (map (\<lambda>l. sc_id (lg_started l)) (ad_logs db))
     \<and> lives_step\<^sup>*\<^sup>* (\<lambda>_. NoCall) (call_life db)
     \<and> lives_step\<^sup>=\<^sup>= (call_life db) (call_life (audit_step digest refs call db))"
  using audit_run_inv [of digest refs calls] audit.simulates [OF audit_run_inv]
    audit.run_simulates [OF no_rows_inv, of digest refs calls]
  by (simp add: Let_def audit_inv_def audit_run_def)

section \<open>Limits\<close>

definition same_key :: "call_correlation \<Rightarrow> call_correlation \<Rightarrow> bool" where
  "same_key c c' \<longleftrightarrow> cc_organization_id c = cc_organization_id c' \<and> cc_operation_id c = cc_operation_id c'
     \<and> cc_policy_version c = cc_policy_version c'"

text \<open>Every reservation for the operation of \<open>c\<close> is made under the limits \<open>L\<close>.\<close>

definition reserves_with :: "call_correlation \<Rightarrow> audit_limits \<Rightarrow> audit_call \<Rightarrow> bool" where
  "reserves_with c L call = (case call of
     Reserve _ _ _ _ _ e limits \<Rightarrow>
       (case strict_event_view e of Inr (Started s, _) \<Rightarrow> same_key (st_call s) c \<longrightarrow> limits = L | _ \<Rightarrow> True)
   | _ \<Rightarrow> True)"

definition within_limits :: "audit_limits \<Rightarrow> started_event list \<Rightarrow> bool" where
  "within_limits L xs \<longleftrightarrow> int (length xs) \<le> lim_attempts L \<and> distinct (map st_attempt_no xs)
     \<and> list_all (\<lambda>s. st_input_tokens s \<le> lim_input_tokens L \<and> st_output_tokens s \<le> lim_output_tokens L
         \<and> same_unit (st_cost s) (lim_cost L)) xs
     \<and> (\<Sum>s\<leftarrow>xs. st_input_tokens s + st_output_tokens s) \<le> lim_total_tokens L
     \<and> (\<Sum>s\<leftarrow>xs. cost_amount (st_cost s)) \<le> cost_amount (lim_cost L)"

lemma within_limits_mset:
  assumes "mset xs = mset ys"
  shows "within_limits L xs \<longleftrightarrow> within_limits L ys"
proof -
  have sums: "(\<Sum>s\<leftarrow>xs. f s) = (\<Sum>s\<leftarrow>ys. f s)" for f :: "started_event \<Rightarrow> int"
    using arg_cong [OF assms, of "\<lambda>m. sum_mset (image_mset f m)"]
    by (simp only: sum_mset_sum_list mset_map [symmetric])
  have "mset (map st_attempt_no xs) = mset (map st_attempt_no ys)" using assms by simp
  then have "distinct (map st_attempt_no xs) = distinct (map st_attempt_no ys)" by (rule mset_eq_imp_distinct_iff)
  then show ?thesis
    using mset_eq_length [OF assms] mset_eq_setD [OF assms]
    by (simp only: within_limits_def list_all_iff sums)
qed

lemma same_unit_sym: "same_unit a b \<longleftrightarrow> same_unit b a"
  by (cases a; cases b) auto

lemma same_unit_trans: "same_unit a b \<Longrightarrow> same_unit b c \<Longrightarrow> same_unit a c"
  by (cases a; cases b; cases c) auto

lemma count_reserved_sums:
  "count_reserved s xs (numbers, tokens, cost) = Inr (numbers', tokens', cost') \<Longrightarrow>
     numbers' = numbers \<union> st_attempt_no ` fst ` set xs
     \<and> tokens' = tokens + (\<Sum>x\<leftarrow>map fst xs. st_input_tokens x + st_output_tokens x)
     \<and> cost' = cost + (\<Sum>x\<leftarrow>map fst xs. cost_amount (st_cost x))"
  by (induction s xs "(numbers, tokens, cost)" arbitrary: numbers tokens cost rule: count_reserved.induct)
    (auto split: if_splits)

lemma same_key_reserved:
  assumes "same_key c c'"
  shows "reserved c db = reserved c' db"
  using assms by (simp add: reserved_def same_operation_def same_key_def)

text \<open>A reservation within the limits extends attempts that are within the limits.\<close>

lemma within_limits_Cons:
  assumes "within_limits L xs \<or> xs = []" "count_reserved s rs ({}, 0, 0) = Inr (numbers, tokens, cost)"
    and "mset (map fst rs) = mset xs" "(started_version s = 1) = (limits_version L = 1)"
    and "st_attempt_no s \<notin> numbers" "int (length rs) + 1 \<le> lim_attempts L"
    and "st_input_tokens s \<le> lim_input_tokens L" "st_output_tokens s \<le> lim_output_tokens L"
    and "tokens + st_input_tokens s + st_output_tokens s \<le> lim_total_tokens L"
    and "\<not> cost_exceeded (lim_cost L) cost (st_cost s)"
  shows "within_limits L (s # xs)"
proof -
  note sums = count_reserved_sums [OF assms(2)]
  have total: "sum_list (map (f \<circ> fst) rs) = (\<Sum>x\<leftarrow>xs. f x)" for f :: "started_event \<Rightarrow> int"
    using arg_cong [OF assms(3), of "\<lambda>m. sum_mset (image_mset f m)"]
    by (simp only: sum_mset_sum_list mset_map [symmetric] map_map)
  have "length rs = length xs" using arg_cong [OF assms(3), of size] by simp
  moreover have "fst ` set rs = set xs" using arg_cong [OF assms(3), of set_mset] by simp
  moreover have "same_unit (st_cost s) (lim_cost L)"
    and "cost + cost_amount (st_cost s) \<le> cost_amount (lim_cost L)"
    using assms(4,10)
    by (auto simp: started_version_def limits_version_def cost_exceeded_def split: reserved_cost.splits)
  ultimately show ?thesis
    using assms(1,5-9) sums by (auto simp: within_limits_def total)
qed

section \<open>Steps\<close>

lemma project_claim_fixed:
  assumes "project_claim digest now refs claim db = Inr (st, db')" "rows_ok db" "claim \<in> set (ad_events db)"
  shows "map event_fixed (ad_events db') = map event_fixed (ad_events db)"
proof -
  have finish: "map event_fixed (ad_events db2) = map event_fixed (ad_events db1)"
    if "finish_claim digest now claim change db1 = Inr db2" "ad_events db1 = ad_events db" for change db1 db2
  proof -
    have ok: "rows_ok db1" and mem: "claim \<in> set (ad_events db1)" using assms(2,3) that(2) by (simp_all add: rows_ok_def)
    note finished = that(1)
    obtain row where row: "event_fixed row = event_fixed claim"
      "db2 = db1\<lparr>ad_events := replace_event row (ad_events db1)\<rparr>"
      using finish_claim_facts [OF finished ok mem] by blast
    then show ?thesis using replace_keys [OF row(1) mem ok] by simp
  qed
  obtain e where e: "stored claim e" using assms(2,3) by (auto simp: rows_ok_def)
  show ?thesis
  proof (cases "\<exists>code. dead_letter digest now claim code db = Inr db'")
    case True
    then show ?thesis using finish by (auto simp: dead_letter_def)
  next
    case False
    then obtain st' db1 where projected: "project_event refs e db = Inr (st', db1)"
      and last: "finish_claim digest now claim (\<lambda>r. r\<lparr>event_status := PUBLISHED\<rparr>) db1 = Inr db'"
      using assms(1) by (auto simp: project_claim_def stored_fields [OF e] split: if_splits sum.splits)
    then show ?thesis using finish [OF last] project_event_keeps [OF projected] by simp
  qed
qed

lemma project_next_fixed:
  assumes "project_next digest t t' now now' refs db = Inr (st, db')" "rows_ok db"
  shows "map event_fixed (ad_events db') = map event_fixed (ad_events db)"
proof (cases "filter (projectable t db) (ad_events db)")
  case (Cons r rs)
  then obtain claim db1 where claim: "claim_specific digest t' now (event_row_id (arg_min_list row_order (r # rs))) db = Inr (claim, db1)"
    and rest: "(case claim of None \<Rightarrow> Inr (PROJECTION_STALE, db1) | Some row \<Rightarrow> project_claim digest now' refs row db1) = Inr (st, db')"
    using assms(1) by (auto simp: project_next_def)
  note facts = claim_specific_facts [OF claim assms(2)]
  show ?thesis
  proof (cases claim)
    case (Some row)
    then show ?thesis using rest facts project_claim_fixed [of digest now' refs row db1 st db'] by simp
  qed (use facts rest in auto)
qed (use assms in \<open>simp add: project_next_def\<close>)

lemma reconcile_claim_fixed:
  assumes "reconcile_claim digest clocks refs row_id db = Inr (Some (st, db'))" "rows_ok db"
  shows "map event_fixed (ad_events db') = map event_fixed (ad_events db)"
proof -
  obtain row db1 where claim: "claim_specific digest (rc_claim clocks) (rc_trigger clocks) row_id db = Inr (Some row, db1)"
    and rest: "project_claim digest (rc_trigger' clocks) refs row db1 = Inr (st, db')"
    using assms(1) by (auto simp: reconcile_claim_def split: option.splits)
  note facts = claim_specific_facts [OF claim assms(2)]
  then show ?thesis using project_claim_fixed [OF rest] by simp
qed

text \<open>A step leaves what is reserved for an operation as it is, or adds one attempt within the limits.\<close>

lemma reserved_not_started:
  assumes "add_outbox i t e (event_payload e) db = Inr db'" "valid_event e" "0 < cc_policy_version c" "\<not> (\<exists>s. e = Started s)"
  shows "reserved c db' = reserved c db"
  using reserved_new [OF assms(2,3)] add_outbox_adds [OF assms(1)] assms(4) by simp

lemma close_unknown_reserved:
  assumes "close_unknown digest new_id created clocks refs s started db = Inr (st, db')" "rows_ok db"
    "0 < cc_policy_version c"
  shows "reserved c db' = reserved c db"
proof -
  obtain e where valid: "valid_event e"
    and e: "(case e of Completed _ \<Rightarrow>
       bind_result (add_outbox new_id created e (event_payload e) db) (\<lambda>db1.
       bind_result (reconcile_claim digest clocks refs new_id db1) (\<lambda>r.
       case r of
         None \<Rightarrow> Inl (DomainError ''AI_OUTCOME_UNKNOWN_CLAIM_FAILED'')
       | Some (result, db2) \<Rightarrow>
           if result = PROJECTED then Inr (RECONCILED_UNKNOWN, db2)
           else Inl (DomainError ''AI_OUTCOME_UNKNOWN_PROJECTION_FAILED'')))
     | _ \<Rightarrow> Inl (DomainError ''AI_OUTCOME_UNKNOWN_EVENT_INVALID'')) = Inr (st, db')"
    using assms(1) validate_valid by (auto simp: close_unknown_def)
  then obtain db1 r where added: "add_outbox new_id created e (event_payload e) db = Inr db1"
    and claim: "reconcile_claim digest clocks refs new_id db1 = Inr (Some (r, db'))"
    and completed: "\<not> (\<exists>s. e = Started s)"
    by (cases e) (auto split: option.splits if_splits)
  have "rows_ok db1" by (rule add_outbox_ok [OF added assms(2) valid])
  then show ?thesis
    using reserved_fixed [OF reconcile_claim_fixed [OF claim]] reserved_not_started [OF added valid assms(3) completed]
    by simp
qed

lemma leaves_committed: "leaves db P r \<Longrightarrow> P db \<Longrightarrow> P (committed r db)"
  by (auto simp: leaves_def committed_def split: sum.split)

lemma audit_step_reserved:
  assumes "audit_inv db" "0 < cc_policy_version c" "\<forall>new_id t deadline minimum current e limits.
    call \<noteq> Reserve new_id t deadline minimum current e limits"
  shows "reserved c (audit_step digest refs call db) = reserved c db"
proof -
  have ok: "rows_ok db" using assms(1) by (simp add: audit_inv_def)
  have "leaves db (\<lambda>db'. reserved c db' = reserved c db) (append_completion new_id t e db)" for new_id t e
    using append_completion_adds reserved_not_started [OF _ _ assms(2)] unfolding leaves_def by blast
  moreover have "leaves db (\<lambda>db'. reserved c db' = reserved c db) (project_next digest t t' now now' refs db)" for t t' now now'
    using reserved_fixed [OF project_next_fixed [OF _ ok]] unfolding leaves_def by blast
  moreover have "leaves db (\<lambda>db'. reserved c db' = reserved c db)
      (reconcile_expired_once digest new_id created clocks refs given_values db)" for new_id created clocks given_values
    by (rule reconcile_leaves)
      (use reserved_fixed [OF reconcile_claim_fixed [OF _ ok]] close_unknown_reserved [OF _ ok assms(2)] in blast)+
  ultimately show ?thesis using assms(3) 
    by (cases call) (simp_all add: leaves_committed [where P = "\<lambda>db'. reserved c db' = reserved c db"])
qed

lemma reserve_step_within:
  assumes "audit_inv db" "0 < cc_policy_version c" "call = Reserve new_id t deadline minimum current e limits"
    "reserves_with c L call" "\<exists>xs. mset xs = reserved c db \<and> (within_limits L xs \<or> xs = [])"
  shows "\<exists>xs. mset xs = reserved c (audit_step digest refs call db) \<and> (within_limits L xs \<or> xs = [])"
proof (cases "audit_step digest refs call db = db")
  case False
  have ok: "rows_ok db" using assms(1) by (simp add: audit_inv_def)
  obtain st where step: "reserve_attempt new_id t deadline minimum current e limits db = Inr (st, audit_step digest refs call db)"
    using False assms(3) by (auto simp: committed_def split: sum.splits)
  from False reserve_attempt_within [OF step] obtain s rs numbers tokens cost where
    new: "valid_event (Started s)" "(started_version s = 1) = (limits_version limits = 1)"
      "operation_started_events (st_call s) db = Inr rs" "count_reserved s rs ({}, 0, 0) = Inr (numbers, tokens, cost)"
      "st_attempt_no s \<notin> numbers" "int (length rs) + 1 \<le> lim_attempts limits"
      "st_input_tokens s \<le> lim_input_tokens limits" "st_output_tokens s \<le> lim_output_tokens limits"
      "tokens + st_input_tokens s + st_output_tokens s \<le> lim_total_tokens limits"
      "\<not> cost_exceeded (lim_cost limits) cost (st_cost s)"
    and added: "add_outbox new_id t (Started s) (event_payload (Started s)) db = Inr (audit_step digest refs call db)"
    and view: "strict_event_view e = Inr (Started s, event_payload (Started s))"
    by blast
  have grows: "reserved c (audit_step digest refs call db) =
      (if same_key (st_call s) c then add_mset s (reserved c db) else reserved c db)"
    using reserved_new [OF new(1) assms(2)] add_outbox_adds [OF added] by (simp add: same_key_def started_part_def)
  show ?thesis
  proof (cases "same_key (st_call s) c")
    case True
    then have limits: "limits = L" using assms(3,4) view by (simp add: reserves_with_def)
    obtain rs' where rs': "operation_started_events (st_call s) db = Inr rs'" "mset (map fst rs') = reserved (st_call s) db"
      by (rule operation_started_events_reserved [OF ok])
    obtain xs where xs: "mset xs = reserved c db" "within_limits L xs \<or> xs = []" using assms(5) by blast
    have "mset (map fst rs) = mset xs" using rs' new(3) xs(1) same_key_reserved [OF True] by simp
    then have "within_limits L (s # xs)" using within_limits_Cons [OF xs(2) new(4) _ new(2,5-10) [unfolded limits]] by simp
    then show ?thesis using grows True xs(1) by (intro exI [of _ "s # xs"]) simp
  qed (use grows assms(5) in simp)
qed (use assms(5) in simp)

lemma reserved_within:
  assumes "list_all (reserves_with c L) calls" "0 < cc_policy_version c" "audit_inv db"
    "\<exists>xs. mset xs = reserved c db \<and> (within_limits L xs \<or> xs = [])"
  shows "\<exists>xs. mset xs = reserved c (audit_run digest refs calls db) \<and> (within_limits L xs \<or> xs = [])"
  using assms
proof (induction calls arbitrary: db)
  case (Cons call calls)
  let ?db = "audit_step digest refs call db"
  have "\<exists>xs. mset xs = reserved c ?db \<and> (within_limits L xs \<or> xs = [])"
  proof (cases "\<exists>new_id t deadline minimum current e limits. call = Reserve new_id t deadline minimum current e limits")
    case True
    then show ?thesis using reserve_step_within [OF Cons.prems(3,2) _ _ Cons.prems(4)] Cons.prems(1) by auto
  next
    case False
    then show ?thesis using audit_step_reserved [OF Cons.prems(3,2), of call] Cons.prems(4) by simp
  qed
  then have "\<exists>xs. mset xs = reserved c (audit_run digest refs calls ?db) \<and> (within_limits L xs \<or> xs = [])"
    using Cons.prems by (intro Cons.IH audit.keeps) simp_all
  then show ?case by (simp add: audit_run_def)
qed (simp add: audit_run_def)

text \<open>C6. However reservations, completions, projections and reconciliations follow each other, the attempts
  reserved for a business operation stay within its limits: when all its reservations are made under the
  limits \<open>L\<close>, the attempts in the outbox are no more than the limit, carry different numbers, ask for no more
  tokens per request than allowed, are priced in one unit, and their tokens and costs together stay within the
  totals. The attempts can always be read back.\<close>

theorem reservations_within_limits:
  assumes "list_all (reserves_with c L) calls" "0 < cc_policy_version c"
  shows "\<exists>rows. operation_started_events c (audit_run digest refs calls no_rows) = Inr rows
    \<and> (rows = [] \<or> within_limits L (map fst rows))"
proof -
  have ok: "rows_ok (audit_run digest refs calls no_rows)"
    using audit_run_inv [of digest refs calls] by (simp add: audit_inv_def)
  have "reserved c no_rows = {#}" by (simp add: reserved_def no_rows_def)
  then obtain xs where xs: "mset xs = reserved c (audit_run digest refs calls no_rows)" "within_limits L xs \<or> xs = []"
    using reserved_within [OF assms no_rows_inv, of digest refs] by fastforce
  obtain rows where rows: "operation_started_events c (audit_run digest refs calls no_rows) = Inr rows"
    "mset (map fst rows) = reserved c (audit_run digest refs calls no_rows)"
    by (rule operation_started_events_reserved [OF ok])
  have "mset (map fst rows) = mset xs" using xs(1) rows(2) by simp
  then show ?thesis using rows(1) xs(2) within_limits_mset [of "map fst rows" xs L] by auto
qed

lemma reservations_within_limits_witness:
  "\<exists>rows. operation_started_events sample_call
      (audit_run (\<lambda>_. []) \<lparr>known_organization = \<lambda>_. True, known_job = \<lambda>_. True\<rparr>
        [sample_reserve (lit ''answer''), ProjectNext 11 12 13 14, sample_reserve (lit ''answer'')] no_rows) = Inr rows
    \<and> (rows = [] \<or> within_limits sample_limits (map fst rows))"
  by (rule reservations_within_limits)
    (auto simp: reserves_with_def sample_reserve_def sample_call_def split: sum.split ai_call_event.split)

section \<open>Events and the constraints of the log\<close>

lemma field_ranges:
  "fld d k count_field = Some n \<Longrightarrow> 0 \<le> n \<and> n \<le> max_safe_integer"
  "fld d k positive_field = Some n \<Longrightarrow> 0 < n \<and> n \<le> max_safe_integer"
  "fld d k (null_field count_field) = Some x \<Longrightarrow> nullable (\<lambda>n. 0 \<le> n \<and> n \<le> max_safe_integer) x"
  "fld d k (null_field http_field) = Some x \<Longrightarrow> nullable (\<lambda>n. 100 \<le> n \<and> n \<le> 599) x"
  by (auto simp: fld_def null_field_def positive_field_def count_field_def safe_integer_def http_field_def
      nullable_def bind_eq_Some_conv split: option.splits pyval.splits if_splits)

lemma field_texts:
  "fld d k (text_field sha256_text) = Some s \<Longrightarrow> is_hash s"
  "fld d k (null_field (text_field sha256_text)) = Some x \<Longrightarrow> nullable is_hash x"
  by (auto simp: fld_def null_field_def text_field_def is_hash_def nullable_def sha256_text_def
      split: option.splits pyval.splits if_splits)

lemma shaped_fits: "shaped n p q t = Some s \<Longrightarrow> \<not> p 0 \<Longrightarrow> \<not> q 0 \<Longrightarrow> n \<le> m \<Longrightarrow> fits_text m s"
  by (cases t) (auto simp: shaped_def fits_text_def list_all_iff split: if_splits)

lemma text_field_fits:
  assumes "fld d k (text_field reader) = Some s" "\<And>t. reader t = Some s \<Longrightarrow> P s"
  shows "P s"
  using assms by (auto simp: fld_def text_field_def split: option.splits pyval.splits)

lemma null_field_fits:
  assumes "fld d k (null_field (text_field reader)) = Some x" "\<And>t s. reader t = Some s \<Longrightarrow> P s"
  shows "nullable P x"
  using assms by (auto simp: fld_def null_field_def text_field_def nullable_def split: option.splits pyval.splits)

lemma not_zero [simp]: "\<not> is_alnum 0" "\<not> is_upper 0" "\<not> is_lower 0" "\<not> is_decimal_digit 0"
  "\<not> among ''._:-'' 0" "\<not> among ''._:/-'' 0"
  by (auto simp: is_alnum_def is_upper_def is_lower_def is_decimal_digit_def among_def lit_def)

lemma dec_digits_fits:
  assumes "0 < n" "n \<le> max_safe_integer"
  shows "fits_text 80 (dec_digits (nat n))"
proof -
  have "nat n < 10 ^ 16" using assms by (simp add: max_safe_integer_def nat_less_iff)
  then have "length (dec_digits (nat n)) \<le> 80" using dec_digits_length [of "nat n" 16] by simp
  then show ?thesis using dec_digits_all [of "nat n"] by (auto simp: fits_text_def list_all_iff)
qed

lemma correlation_fields_read:
  "read_correlation d = Some c \<Longrightarrow> fld d ''policy_hash'' (text_field sha256_text) = Some (cc_policy_hash c)
     \<and> fld d ''policy_version'' positive_field = Some (cc_policy_version c)"
  by (auto simp: read_correlation_def bind_eq_Some_conv)

text \<open>What a validated start and a validated completion hold.\<close>

lemma valid_started_fields:
  assumes "valid_event (Started s)"
  obtains d version where "read_started version d = Some s" "version \<in> {1, 2}"
  using assms version_cases [of "Started s"]
  by (auto simp: valid_event_def read_event_def split: option.splits pyval.splits if_splits)

lemma valid_completed_fields:
  assumes "valid_event (Completed c)"
  obtains d version where "read_completed version d = Some c" "version \<in> {1, 2}"
  using assms version_cases [of "Completed c"]
  by (auto simp: valid_event_def read_event_def split: option.splits pyval.splits if_splits)

lemma both_currencies [simp]: "\<not> refuted (sql_in c [USD, CNY])"
proof (cases c)
  case (Some x)
  then show ?thesis by (cases x) simp_all
qed simp

lemma other_currency [simp]: "a \<noteq> CNY \<longleftrightarrow> a = USD"
  by (cases a) simp_all

lemma started_log_checks:
  assumes "valid_event (Started s)"
  shows "log_checks \<lparr>lg_started = started_values_of s, lg_outcome = pending_outcome\<rparr> = Inr ()"
proof -
  obtain d version where read: "read_started version d = Some s" and version: "version \<in> {1, 2}"
    by (rule valid_started_fields [OF assms])
  note fields = read [unfolded read_started_iff]
  have call: "fld d ''policy_hash'' (text_field sha256_text) = Some (cc_policy_hash (st_call s))"
    using fields correlation_fields_read by blast
  have amounts: "0 < st_generation_no s" "0 < st_attempt_no s" "0 < st_attempt_count s"
    "0 \<le> st_input_tokens s" "0 \<le> st_output_tokens s"
    using fields field_ranges by blast+
  have hashes: "is_hash (cc_policy_hash (st_call s))" "is_hash (st_input_hash s)" "nullable is_hash (st_prompt_hash s)"
    using call fields field_texts by blast+
  have contract: "started_contract s" using fields by blast
  show ?thesis
  proof (cases "st_cost s")
    case (MicroUsd n)
    then have "0 \<le> n" using fields field_ranges(1) by (auto simp: read_reserved_cost_def bind_eq_Some_conv split: if_splits)
    then show ?thesis using amounts hashes MicroUsd
      by (simp add: log_checks_def Let_def started_values_of_def pending_outcome_def first_violated_def
          nullable_def started_version_def cost_version_matrix_def sql_truth)
  next
    case (Microunits currency n)
    then have "0 \<le> n" using fields field_ranges(1) by (auto simp: read_reserved_cost_def bind_eq_Some_conv split: if_splits)
    moreover have "currency = None \<Longrightarrow> n = 0" using contract Microunits by (simp add: started_contract_def)
    ultimately show ?thesis using amounts hashes Microunits
      by (simp add: log_checks_def Let_def started_values_of_def pending_outcome_def first_violated_def
          nullable_def started_version_def cost_version_matrix_def sql_truth)
  qed
qed

lemma completed_status_ended:
  assumes "fld d k (choice completed_statuses) = Some st"
  shows "st \<noteq> CALL_PENDING"
  using assms by (auto simp: fld_def text_field_def value_in_def choice_defs find_Some_iff
      split: option.splits pyval.splits if_splits)

text \<open>The two cost checks on the row of a call that a completion closes.\<close>

lemma completed_costs_pass:
  assumes "status_matrix c" "chained s c" "co_status c \<noteq> CALL_PENDING" "started_contract s"
    and "row = \<lparr>lg_started = started_values_of s, lg_outcome = completed_outcome c pending_outcome\<rparr>"
  shows "check_passes (cost_version_matrix row)"
    and "sc_version (lg_started row) = 1
       \<or> (oc_status (lg_outcome row) \<in> {CALL_PENDING, CALL_OUTCOME_UNKNOWN} \<and> oc_actual_cost (lg_outcome row) = None)
       \<or> (oc_status (lg_outcome row) = CALL_SUCCEEDED \<and> oc_actual_cost (lg_outcome row) \<noteq> None)
       \<or> oc_status (lg_outcome row) \<in> {CALL_FAILED, CALL_DEGRADED, CALL_REJECTED}"
proof -
  show "check_passes (cost_version_matrix row)"
  proof (cases "st_cost s")
    case (MicroUsd n)
    then have "co_cost c = None" using assms(2) by (auto simp: chained_def started_version_def split: if_splits)
    then show ?thesis using MicroUsd
      by (simp add: assms(5) cost_version_matrix_def started_values_of_def Let_def completed_outcome_def
          pending_outcome_def started_version_def sql_truth)
  next
    case (Microunits currency n)
    then obtain units where "co_cost c = Some (currency, units)"
      using assms(2) by (auto simp: chained_def started_version_def split: if_splits)
    then show ?thesis using Microunits assms(1,4)
      by (cases currency; cases units)
        (auto simp: assms(5) cost_version_matrix_def started_values_of_def Let_def completed_outcome_def
          pending_outcome_def started_version_def sql_truth status_matrix_def unmetered_free_def started_contract_def)
  qed
  show "sc_version (lg_started row) = 1
       \<or> (oc_status (lg_outcome row) \<in> {CALL_PENDING, CALL_OUTCOME_UNKNOWN} \<and> oc_actual_cost (lg_outcome row) = None)
       \<or> (oc_status (lg_outcome row) = CALL_SUCCEEDED \<and> oc_actual_cost (lg_outcome row) \<noteq> None)
       \<or> oc_status (lg_outcome row) \<in> {CALL_FAILED, CALL_DEGRADED, CALL_REJECTED}"
  proof (cases "co_status c")
    case CALL_SUCCEEDED
    then show ?thesis using assms(1,2)
      by (cases "st_cost s"; cases "co_cost c")
        (auto simp: assms(5) started_values_of_def Let_def completed_outcome_def status_matrix_def cost_known_def
          chained_def started_version_def split: if_splits)
  next
    case CALL_OUTCOME_UNKNOWN
    then show ?thesis using assms(1)
      by (cases "co_cost c")
        (auto simp: assms(5) completed_outcome_def pending_outcome_def status_matrix_def cost_unknown_def)
  qed (use assms(3) in \<open>simp_all add: assms(5) completed_outcome_def\<close>)
qed

lemma completed_log_checks:
  assumes "valid_event (Started s)" "valid_event (Completed c)" "chained s c"
  shows "log_checks \<lparr>lg_started = started_values_of s, lg_outcome = completed_outcome c pending_outcome\<rparr> = Inr ()"
proof -
  let ?row = "\<lparr>lg_started = started_values_of s, lg_outcome = completed_outcome c pending_outcome\<rparr>"
  obtain d version where read: "read_completed version d = Some c" and version: "version \<in> {1, 2}"
    by (rule valid_completed_fields [OF assms(2)])
  note fields = read [unfolded read_completed_iff]
  obtain d' version' where "read_started version' d' = Some s" by (rule valid_started_fields [OF assms(1)])
  then have contract: "started_contract s" by (simp add: read_started_iff)
  have ended: "co_status c \<noteq> CALL_PENDING" using fields completed_status_ended by blast
  have hash: "nullable is_hash (co_output_hash c)" using fields field_texts by blast
  have matrix: "status_matrix c" using fields by blast
  have paid: "nullable (\<lambda>n. 0 \<le> n) (oc_actual_cost (completed_outcome c pending_outcome))"
    using fields field_ranges(3) [of d "''actual_cost_microunits''"]
    by (auto simp: nullable_def read_actual_cost_def bind_eq_Some_conv completed_outcome_def pending_outcome_def
        split: option.splits if_splits)
  note costs = completed_costs_pass [OF matrix assms(3) ended contract refl]
  have "list_all fst
     [(sc_version (lg_started ?row) \<in> {1, 2}, ''event_version_allowed''),
      (sc_generation_no (lg_started ?row) > 0, ''generation_positive''),
      (sc_attempt_no (lg_started ?row) > 0, ''provider_attempt_positive''),
      (sc_attempt_count (lg_started ?row) > 0, ''attempt_count_positive''),
      (sc_input_tokens (lg_started ?row) \<ge> 0 \<and> sc_output_tokens (lg_started ?row) \<ge> 0
        \<and> nullable (\<lambda>n. n \<ge> 0) (sc_cost_micro_usd (lg_started ?row))
        \<and> nullable (\<lambda>n. n \<ge> 0) (sc_cost_microunits (lg_started ?row)), ''reservation_nonnegative''),
      (is_hash (sc_policy_hash (lg_started ?row)) \<and> is_hash (sc_input_hash (lg_started ?row))
        \<and> nullable is_hash (sc_prompt_hash (lg_started ?row)), ''hashes_lower_hex'')]"
    using started_log_checks [OF assms(1)] by (simp add: log_checks_def Let_def)
  then show ?thesis
    unfolding log_checks_def Let_def first_violated_ok
    using costs ended hash paid by (simp add: completed_outcome_def)
qed

text \<open>Which columns a validated event may be too large for.\<close>

definition short_texts :: "pystr option list \<Rightarrow> bool" where
  "short_texts ts = list_all (nullable (\<lambda>t. length t \<le> 100)) ts"

lemma safe_text_fits: "nullable (\<lambda>t. 0 \<notin> set t) x \<Longrightarrow> nullable (fits_text 100) x \<longleftrightarrow> nullable (\<lambda>t. length t \<le> 100) x"
  by (auto simp: nullable_def fits_text_def split: option.splits)

lemma safe_text_plain: "fld d k (null_field (text_field safe_text)) = Some x \<Longrightarrow> nullable (\<lambda>t. 0 \<notin> set t) x"
  by (erule null_field_fits) (use shaped_fits [of 200 _ _ _ _ 200] in \<open>auto simp: safe_text_def fits_text_def\<close>)

lemma int4_fits: "0 \<le> n \<Longrightarrow> fits_int4 n \<longleftrightarrow> n < 2 ^ 31"
  by (simp add: fits_int4_def)

lemma int8_fits: "0 \<le> n \<Longrightarrow> n \<le> max_safe_integer \<Longrightarrow> fits_int8 n"
  by (simp add: fits_int8_def max_safe_integer_def)

lemma nullable_mono: "nullable p x \<Longrightarrow> (\<And>y. p y \<Longrightarrow> q y) \<Longrightarrow> nullable q x"
  by (auto simp: nullable_def split: option.splits)

lemma started_fits_iff:
  assumes "valid_event (Started s)"
  shows "started_columns_fit (started_values_of s) \<longleftrightarrow>
    st_generation_no s < 2 ^ 31 \<and> st_attempt_no s < 2 ^ 31 \<and> st_input_tokens s < 2 ^ 31 \<and> st_output_tokens s < 2 ^ 31
    \<and> short_texts [st_model_version s, st_prompt_id s, st_prompt_version s, st_schema_version s]
    \<and> 0 \<notin> set (st_model_id s)"
proof -
  obtain d version where read: "read_started version d = Some s" and version: "version \<in> {1, 2}"
    by (rule valid_started_fields [OF assms])
  note fields = read [unfolded read_started_iff]
  have contract: "st_attempt_count s = st_attempt_no s" using fields by (simp add: started_contract_def)
  have amounts: "0 < st_generation_no s" "0 < st_attempt_no s" "0 \<le> st_input_tokens s" "0 \<le> st_output_tokens s"
    using fields field_ranges by blast+
  have policy: "fits_text 80 (dec_digits (nat (cc_policy_version (st_call s))))"
    using fields correlation_fields_read field_ranges(2) dec_digits_fits by blast
  have costs: "0 \<le> cost_amount (st_cost s) \<and> cost_amount (st_cost s) \<le> max_safe_integer"
  proof (cases "st_cost s")
    case (MicroUsd n)
    then show ?thesis using fields field_ranges(1)
      by (auto simp: read_reserved_cost_def bind_eq_Some_conv split: if_splits)
  next
    case (Microunits currency n)
    then show ?thesis using fields field_ranges(1)
      by (auto simp: read_reserved_cost_def bind_eq_Some_conv split: if_splits)
  qed
  have resource: "nullable (fits_text 60) (st_resource_type s)"
    by (rule null_field_fits [of d "''resource_type''" resource_type_text])
      (use fields in \<open>auto simp: resource_type_text_def elim: shaped_fits\<close>)
  have endpoint: "fits_text 100 (st_endpoint_id s)"
    by (rule text_field_fits [of d "''endpoint_id''" endpoint_text])
      (use fields in \<open>auto simp: endpoint_text_def elim: shaped_fits\<close>)
  have price: "fits_text 80 (st_pricing_version s)"
    by (rule text_field_fits [of d "''pricing_version''" pricing_version_text])
      (use fields in \<open>auto simp: pricing_version_text_def elim: shaped_fits\<close>)
  have model: "length (st_model_id s) \<le> 200"
    by (rule text_field_fits [of d "''model_id''" model_id_text])
      (use fields in \<open>auto simp: model_id_text_def shaped_def split: if_splits\<close>)
  have texts: "nullable (\<lambda>t. 0 \<notin> set t) (st_model_version s)" "nullable (\<lambda>t. 0 \<notin> set t) (st_prompt_id s)"
    "nullable (\<lambda>t. 0 \<notin> set t) (st_prompt_version s)" "nullable (\<lambda>t. 0 \<notin> set t) (st_schema_version s)"
    using fields safe_text_plain by blast+
  show ?thesis
    using amounts policy costs resource endpoint price model texts contract
    by (cases "st_cost s")
      (auto simp: started_columns_fit_def started_values_of_def Let_def int4_fits safe_text_fits short_texts_def
        nullable_def [of fits_int8] int8_fits fits_text_def [of 200])
qed

lemma completed_fits_iff:
  assumes "valid_event (Completed c)"
  shows "outcome_columns_fit (completed_outcome c pending_outcome) \<longleftrightarrow>
    list_all (nullable (\<lambda>n. n < 2 ^ 31)) [co_input_tokens c, co_output_tokens c, co_vector_count c]"
proof -
  obtain d version where read: "read_completed version d = Some c" and version: "version \<in> {1, 2}"
    by (rule valid_completed_fields [OF assms])
  note fields = read [unfolded read_completed_iff]
  have counts: "nullable (\<lambda>n. 0 \<le> n \<and> n \<le> max_safe_integer) (co_input_tokens c)"
    "nullable (\<lambda>n. 0 \<le> n \<and> n \<le> max_safe_integer) (co_output_tokens c)"
    "nullable (\<lambda>n. 0 \<le> n \<and> n \<le> max_safe_integer) (co_vector_count c)"
    "nullable (\<lambda>n. 100 \<le> n \<and> n \<le> 599) (co_http_status c)"
    using fields field_ranges by blast+
  have http: "nullable fits_int4 (co_http_status c)" using counts(4) by (rule nullable_mono) (simp add: fits_int4_def)
  have duration: "fits_int8 (co_duration_ms c)" using fields field_ranges(1) int8_fits by blast
  have paid: "nullable fits_int8 (oc_actual_cost (completed_outcome c pending_outcome))"
    using fields field_ranges(3) [of d "''actual_cost_microunits''"] int8_fits
    by (auto simp: nullable_def read_actual_cost_def bind_eq_Some_conv completed_outcome_def pending_outcome_def
        split: option.splits if_splits)
  have "nullable (fits_text 30) (co_citation_status c)"
    by (rule null_field_fits [of d "''citation_validation_status''" citation_text])
      (use fields in \<open>auto simp: citation_text_def elim: shaped_fits\<close>)
  moreover have "nullable (fits_text 80) (co_safe_error c)"
    by (rule null_field_fits [of d "''safe_error_code''" safe_error_text])
      (use fields in \<open>auto simp: safe_error_text_def elim: shaped_fits\<close>)
  moreover have "nullable fits_int4 x \<longleftrightarrow> nullable (\<lambda>n. n < 2 ^ 31) x"
    if "nullable (\<lambda>n. 0 \<le> n \<and> n \<le> max_safe_integer) x" for x
    using that by (auto simp: nullable_def int4_fits split: option.splits)
  ultimately show ?thesis
    using counts(1-3) http duration paid
    by (simp add: outcome_columns_fit_def completed_outcome_def) (simp add: nullable_def)
qed

text \<open>C33. Events that pass validation pass every CHECK constraint of the log table: the row that a validated
  start inserts and the row that a validated completion of the same chain leaves satisfy all ten. What may still
  not fit are the sizes of the columns, and exactly these: the generation, attempt and token numbers, of which
  validation admits more than four bytes, and four texts that may have two hundred characters where the columns
  have one hundred.\<close>

theorem validated_events_satisfy_checks:
  assumes "validate_ai_call_event d = Inr (Started s)" "validate_ai_call_event d' = Inr (Completed c)"
    "validate_ai_call_event_chain_any s c None = Inr ()"
  shows "log_checks \<lparr>lg_started = started_values_of s, lg_outcome = pending_outcome\<rparr> = Inr ()
    \<and> log_checks \<lparr>lg_started = started_values_of s, lg_outcome = completed_outcome c pending_outcome\<rparr> = Inr ()
    \<and> (started_columns_fit (started_values_of s) \<longleftrightarrow>
        st_generation_no s < 2 ^ 31 \<and> st_attempt_no s < 2 ^ 31 \<and> st_input_tokens s < 2 ^ 31
        \<and> st_output_tokens s < 2 ^ 31
        \<and> short_texts [st_model_version s, st_prompt_id s, st_prompt_version s, st_schema_version s]
        \<and> 0 \<notin> set (st_model_id s))
    \<and> (outcome_columns_fit (completed_outcome c pending_outcome) \<longleftrightarrow>
        list_all (nullable (\<lambda>n. n < 2 ^ 31)) [co_input_tokens c, co_output_tokens c, co_vector_count c])"
proof -
  have s: "valid_event (Started s)" and c: "valid_event (Completed c)" using assms(1,2) validate_valid by blast+
  have "chained s c" using assms(3) chain_any_iff [OF s c, of None] by simp
  then show ?thesis
    using started_log_checks [OF s] completed_log_checks [OF s c] started_fits_iff [OF s] completed_fits_iff [OF c]
    by blast
qed

lemma validated_events_satisfy_checks_witness:
  "log_checks \<lparr>lg_started = started_values_of (sample_started (lit ''answer'')), lg_outcome = pending_outcome\<rparr> = Inr ()
    \<and> outcome_columns_fit (completed_outcome sample_completed pending_outcome)
    \<and> started_columns_fit (started_values_of (sample_started (lit ''answer'')))"
proof -
  have s: "valid_event (Started (sample_started (lit ''answer'')))"
    by (rule sample_started_valid)
      (simp add: text_shape_defs lit_def is_alnum_def is_upper_def is_lower_def is_decimal_digit_def among_def)
  note valid = s sample_completed_valid
  have chain: "validate_ai_call_event_chain_any (sample_started (lit ''answer'')) sample_completed None = Inr ()"
    using chain_any_iff [OF valid, of None] sample_chained by simp
  show ?thesis
    using validated_events_satisfy_checks [OF validate_payload [OF s] validate_payload [OF sample_completed_valid] chain]
    by (simp add: sample_started_def sample_completed_def short_texts_def nullable_def lit_def)
qed

section \<open>A start that does not fit\<close>

text \<open>The event that the next projection takes: pending, and no unfinished event is older.\<close>

definition first_in_queue :: "outbox_event \<Rightarrow> audit_rows \<Rightarrow> bool" where
  "first_in_queue r db \<longleftrightarrow> r \<in> set (ad_events db) \<and> event_status r = PENDING
     \<and> list_all (\<lambda>r'. event_status r' \<in> {PENDING, EVENT_FAILED} \<longrightarrow> row_order r \<le> row_order r') (ad_events db)"

lemma first_in_queue_taken:
  assumes "rows_ok db" "first_in_queue r db" "projectable t db r"
  shows "\<exists>c cs. filter (projectable t db) (ad_events db) = c # cs \<and> arg_min_list row_order (c # cs) = r"
proof -
  let ?candidates = "filter (projectable t db) (ad_events db)"
  have r: "r \<in> set ?candidates" using assms(2,3) by (simp add: first_in_queue_def)
  then have some: "?candidates \<noteq> []" by (auto simp: filter_empty_conv)
  let ?m = "arg_min_list row_order ?candidates"
  have m: "?m \<in> set ?candidates" by (rule arg_min_list_in [OF some])
  then have "row_order r \<le> row_order ?m"
    using assms(2) by (auto simp: first_in_queue_def list_all_iff projectable_def due_def Let_def)
  moreover have "row_order ?m \<le> row_order r"
    using r f_arg_min_list_f [OF some, of row_order] by simp
  ultimately have "event_row_id ?m = event_row_id r" by (auto simp: row_order_def event_row_id_def)
  then have "?m = r" using rows_ok_unique(1) [OF assms(1)] m r by auto
  then show ?thesis using some by (cases ?candidates) auto
qed

lemma oversized_claim_fails:
  assumes inv: "audit_inv db" and row: "row \<in> set (ad_events db)" "event_status row = PROCESSING" "stored row (Started s)"
    and size: "\<not> started_columns_fit (started_values_of s)"
  shows "project_claim digest now refs row db = data_error"
proof -
  let ?i = "cc_event_id (st_call s)"
  have ok: "rows_ok db" using inv by (simp add: audit_inv_def)
  note stored = stored_fields [OF row(3)]
  have "row_key row = (?i, ''ai.call.started'')" using stored by (simp add: row_key_def)
  then have "published_event ?i ''ai.call.started'' db = conflict_error"
    using not_published [OF ok row(1)] row(2) by simp
  then have "call_life db ?i = NoCall" using call_life_no_call [OF ok] by simp
  then have "find_log ?i (ad_logs db) = None" using inv by (simp add: audit_inv_def)
  then have "project_started refs s db = data_error"
    using size by (simp add: project_started_def Let_def insert_log_def data_error_def)
  moreover have "event_version (event_fixed row) \<in> {1, 2}" using stored version_cases [of "Started s"] by simp
  ultimately show ?thesis
    using stored by (simp add: project_claim_def data_error_def dead_letters_def)
qed

lemma oversized_start_fails:
  assumes inv: "audit_inv db" and r: "first_in_queue r db" "stored r (Started s)"
    and size: "\<not> started_columns_fit (started_values_of s)"
  shows "\<exists>err. project_next digest t t' now now' refs db = Inl err"
proof -
  have ok: "rows_ok db" using inv by (simp add: audit_inv_def)
  have mem: "r \<in> set (ad_events db)" "event_status r = PENDING" using r(1) by (simp_all add: first_in_queue_def)
  have "projectable t db r" using stored_fields [OF r(2)] mem by (simp add: projectable_def Let_def due_def)
  then obtain c cs where taken: "filter (projectable t db) (ad_events db) = c # cs" "arg_min_list row_order (c # cs) = r"
    using first_in_queue_taken [OF ok r(1)] by blast
  show ?thesis
  proof (cases "claim_specific digest t' now (event_row_id r) db")
    case (Inr claimed)
    then obtain claim db1 where claim: "claim_specific digest t' now (event_row_id r) db = Inr (claim, db1)"
      by (cases claimed) auto
    have found: "List.find (\<lambda>x. event_row_id x = event_row_id r) (ad_events db) = Some r"
    proof -
      obtain x where x: "List.find (\<lambda>x. event_row_id x = event_row_id r) (ad_events db) = Some x"
        using mem(1) by (cases "List.find (\<lambda>x. event_row_id x = event_row_id r) (ad_events db)") (auto simp: find_None_iff)
      then have "x \<in> set (ad_events db)" "event_row_id x = event_row_id r" by (auto simp: find_Some_iff)
      then show ?thesis using rows_ok_unique(1) [OF ok _ mem(1)] x by blast
    qed
    then obtain row where row: "claim = Some row" "update_row digest now r (r\<lparr>event_status := PROCESSING\<rparr>) db = Inr (row, db1)"
      using claim stored_fields [OF r(2)] mem by (auto simp: claim_specific_def due_def)
    have "stored row (Started s)" using r(2) update_row_facts(3) [OF row(2)] by (simp add: stored_def)
    moreover have "audit_inv db1" using claim_specific_quiet(1) [OF inv claim] by (simp add: quiet_def)
    moreover have "row \<in> set (ad_events db1) \<and> event_status row = PROCESSING"
      using claim_specific_quiet(2) [OF inv claim row(1)] .
    ultimately have "project_claim digest now' refs row db1 = data_error" using size by (intro oversized_claim_fails) simp_all
    then show ?thesis using claim row(1) taken by (simp add: project_next_def data_error_def)
  qed (use taken in \<open>simp add: project_next_def\<close>)
qed

definition is_projection :: "audit_call \<Rightarrow> bool" where
  "is_projection call = (case call of ProjectNext _ _ _ _ \<Rightarrow> True | _ \<Rightarrow> False)"

text \<open>C34. A reserved start that is too large for the log's columns stops the projection of every call for good.
  Validation and reservation accept it, its projection raises a database error, the error rolls back the
  claim with everything else, so neither its delivery attempts nor its status change, and the next projection
  takes the same event again: no number of projections, at whatever times, changes anything.\<close>

theorem oversized_start_stops_projection:
  assumes "db = audit_run digest refs calls no_rows" "first_in_queue r db" "event_from_row r = Inr (Started s)"
    "\<not> started_columns_fit (started_values_of s)" "list_all is_projection projections"
  shows "audit_run digest refs projections db = db"
proof -
  have inv: "audit_inv db" using assms(1) by simp
  then obtain e where "stored r e" using assms(2) by (auto simp: first_in_queue_def audit_inv_def rows_ok_def)
  then have stored: "stored r (Started s)" using stored_fields(3) [of r e] assms(3) by simp
  have "audit_step digest refs call db = db" if "is_projection call" for call
  proof (cases call)
    case (ProjectNext t t' now now')
    then show ?thesis
      using oversized_start_fails [OF inv assms(2) stored assms(4), of digest t t' now now' refs]
      by (auto simp: committed_def)
  qed (use that in \<open>simp_all add: is_projection_def\<close>)
  then show ?thesis using assms(5) by (induction projections) (simp_all add: audit_run_def)
qed

lemma oversized_start_stops_projection_witness:
  "audit_run (\<lambda>_. []) \<lparr>known_organization = \<lambda>_. True, known_job = \<lambda>_. True\<rparr> [ProjectNext 11 12 13 14, ProjectNext 21 22 23 24]
     (no_rows\<lparr>ad_events := [sample_row (replicate 101 97)]\<rparr>) = no_rows\<lparr>ad_events := [sample_row (replicate 101 97)]\<rparr>"
proof (rule oversized_start_stops_projection)
  let ?s = "sample_started (replicate 101 97)"
  have valid: "valid_event (Started ?s)"
    by (rule sample_started_valid)
      (simp add: text_shape_defs is_alnum_def is_upper_def is_lower_def is_decimal_digit_def among_def list_all_iff lit_def)
  show "no_rows\<lparr>ad_events := [sample_row (replicate 101 97)]\<rparr> = audit_run (\<lambda>_. [])
      \<lparr>known_organization = \<lambda>_. True, known_job = \<lambda>_. True\<rparr> [sample_reserve (replicate 101 97)] no_rows"
    by (rule sample_stored [symmetric, OF valid]) simp
  show "first_in_queue (sample_row (replicate 101 97)) (no_rows\<lparr>ad_events := [sample_row (replicate 101 97)]\<rparr>)"
    by (simp add: first_in_queue_def sample_row_def)
  show "event_from_row (sample_row (replicate 101 97)) = Inr (Started ?s)"
    unfolding sample_row_def by (rule stored_fields(3) [OF stored_new [OF valid]])
  show "\<not> started_columns_fit (started_values_of ?s)"
    unfolding started_fits_iff [OF valid] by (simp add: short_texts_def nullable_def sample_started_def)
  show "list_all is_projection [ProjectNext 11 12 13 14, ProjectNext 21 22 23 24]"
    by (simp add: is_projection_def)
qed

end
