(* ===== verification/AiContracts.thy ===== *)
theory AiContracts
  imports AiCallEvents AiRuntimeControl
begin

text \<open>
  \<open>ai/contracts.py\<close>, \<open>ai/gateway.py\<close> and \<open>ai/routing.py\<close>: the values that pass between the program and a model
  provider, the gateway that dispatches one request to the adapter of an explicit target, and the fixed map from
  the purpose of a call to its candidate models. A number argument is \<open>None\<close> when it is not finite or no number;
  text arguments are dynamic values. An adapter is the caller's, so it is an argument.
\<close>

section \<open>Contracts\<close>

definition require_positive_finite :: "string \<Rightarrow> rat option \<Rightarrow> rat result" where
  "require_positive_finite name v = (case v of
     Some x \<Rightarrow> if 0 < x then Inr x else Inl (ValueError (name @ '' must be a positive finite number''))
   | None \<Rightarrow> Inl (ValueError (name @ '' must be a positive finite number'')))"

definition require_positive_integer :: "string \<Rightarrow> pyval \<Rightarrow> int result" where
  "require_positive_integer name v = (case v of
     PyInt n \<Rightarrow> if 0 < n then Inr n else Inl (ValueError (name @ '' must be a positive integer''))
   | _ \<Rightarrow> Inl (ValueError (name @ '' must be a positive integer'')))"

text \<open>\<open>_validate_optional_usage\<close> and \<open>_validate_optional_sha256\<close>.\<close>

definition optional_usage :: "string \<Rightarrow> pyval \<Rightarrow> int option result" where
  "optional_usage name v = (case v of
     PyNone \<Rightarrow> Inr None
   | PyInt n \<Rightarrow> if 0 \<le> n then Inr (Some n) else Inl (ValueError (name @ '' must be a non-negative integer or None''))
   | _ \<Rightarrow> Inl (ValueError (name @ '' must be a non-negative integer or None'')))"

definition optional_sha256 :: "string \<Rightarrow> pyval \<Rightarrow> pystr option result" where
  "optional_sha256 name v = (case v of
     PyNone \<Rightarrow> Inr None
   | PyStr s \<Rightarrow> if length s = 64 \<and> list_all (\<lambda>c. c \<in> set (lit ''0123456789abcdef'')) s then Inr (Some s)
       else Inl (ValueError (name @ '' must be a lowercase SHA-256 digest or None''))
   | _ \<Rightarrow> Inl (ValueError (name @ '' must be a lowercase SHA-256 digest or None'')))"

record transport_policy =
  connect_timeout :: rat
  read_timeout :: rat
  total_timeout :: rat
  max_attempts :: int

definition new_transport_policy :: "rat option \<Rightarrow> rat option \<Rightarrow> rat option \<Rightarrow> pyval \<Rightarrow> transport_policy result" where
  "new_transport_policy connect reading overall attempts =
     bind_result (require_positive_finite ''connect_timeout_seconds'' connect) (\<lambda>c.
     bind_result (require_positive_finite ''read_timeout_seconds'' reading) (\<lambda>r.
     bind_result (require_positive_finite ''total_timeout_seconds'' overall) (\<lambda>t.
     bind_result (require_positive_integer ''max_attempts'' attempts) (\<lambda>n.
     Inr \<lparr>connect_timeout = c, read_timeout = r, total_timeout = t, max_attempts = n\<rparr>))))"

record model_target =
  target_adapter :: pystr
  target_model :: pystr

definition new_model_target :: "pyval \<Rightarrow> pyval \<Rightarrow> model_target result" where
  "new_model_target adapter_id model_id =
     bind_result (require_non_empty ''adapter_id'' adapter_id) (\<lambda>a.
     bind_result (require_non_empty ''model_id'' model_id) (\<lambda>m.
     Inr \<lparr>target_adapter = a, target_model = m\<rparr>))"

record model_route =
  route_purpose :: pystr
  route_candidates :: "model_target list"

definition new_model_route :: "pyval \<Rightarrow> model_target list \<Rightarrow> model_route result" where
  "new_model_route purpose candidates =
     bind_result (require_non_empty ''purpose'' purpose) (\<lambda>p.
     guard (candidates = []) ''candidates must not be empty''
     (guard (\<not> distinct candidates) ''candidates must be unique''
       (Inr \<lparr>route_purpose = p, route_candidates = candidates\<rparr>)))"

record generation_parameters =
  gen_temperature :: rat
  gen_top_p :: rat
  gen_max_tokens :: int

definition new_generation_parameters :: "rat option \<Rightarrow> rat option \<Rightarrow> pyval \<Rightarrow> generation_parameters result" where
  "new_generation_parameters temperature top_p max_tokens =
     (case temperature of
        None \<Rightarrow> Inl (ValueError ''temperature must be a finite number between 0 and 2'')
      | Some t \<Rightarrow> guard (t < 0 \<or> 2 < t) ''temperature must be a finite number between 0 and 2''
     (case top_p of
        None \<Rightarrow> Inl (ValueError ''top_p must be a finite number between 0 and 1'')
      | Some p \<Rightarrow> guard (p \<le> 0 \<or> 1 < p) ''top_p must be a finite number between 0 and 1''
     (bind_result (require_positive_integer ''max_tokens'' max_tokens) (\<lambda>n.
      Inr \<lparr>gen_temperature = t, gen_top_p = p, gen_max_tokens = n\<rparr>))))"

record llm_request =
  lr_trace_id :: pystr
  lr_system :: pystr
  lr_user :: pystr
  lr_parameters :: "generation_parameters option"

definition new_llm_request :: "pyval \<Rightarrow> pyval \<Rightarrow> pyval \<Rightarrow> generation_parameters option \<Rightarrow> llm_request result" where
  "new_llm_request trace system user parameters =
     bind_result (require_non_empty ''trace_id'' trace) (\<lambda>t.
     bind_result (require_non_empty ''system_instruction'' system) (\<lambda>s.
     bind_result (require_non_empty ''user_content'' user) (\<lambda>u.
     Inr \<lparr>lr_trace_id = t, lr_system = s, lr_user = u, lr_parameters = parameters\<rparr>)))"

record llm_result =
  ll_trace_id :: pystr
  ll_target :: model_target
  ll_output :: pystr
  ll_input_tokens :: "int option"
  ll_output_tokens :: "int option"
  ll_body_sha256 :: "pystr option"

definition new_llm_result ::
  "pyval \<Rightarrow> model_target \<Rightarrow> pyval \<Rightarrow> pyval \<Rightarrow> pyval \<Rightarrow> pyval \<Rightarrow> llm_result result" where
  "new_llm_result trace target output input_tokens output_tokens sha =
     bind_result (require_non_empty ''trace_id'' trace) (\<lambda>t.
     case output of
       PyStr text \<Rightarrow>
         bind_result (optional_usage ''input_tokens'' input_tokens) (\<lambda>i.
         bind_result (optional_usage ''output_tokens'' output_tokens) (\<lambda>out.
         bind_result (optional_sha256 ''response_body_sha256'' sha) (\<lambda>h.
         Inr \<lparr>ll_trace_id = t, ll_target = target, ll_output = text, ll_input_tokens = i, ll_output_tokens = out,
              ll_body_sha256 = h\<rparr>)))
     | _ \<Rightarrow> Inl (ValueError ''output_text must be a string''))"

record embedding_request =
  em_trace_id :: pystr
  em_texts :: "pystr list"

text \<open>\<open>None\<close> stands for an argument that is no sequence, or is text or bytes.\<close>

definition new_embedding_request :: "pyval \<Rightarrow> pyval list option \<Rightarrow> embedding_request result" where
  "new_embedding_request trace texts =
     bind_result (require_non_empty ''trace_id'' trace) (\<lambda>t.
     case texts of
       Some vs \<Rightarrow> if vs = [] \<or> \<not> list_all is_non_blank_str vs
         then Inl (ValueError ''input_texts must be an ordered non-empty string batch'')
         else Inr \<lparr>em_trace_id = t, em_texts = map (\<lambda>v. case v of PyStr s \<Rightarrow> s | _ \<Rightarrow> []) vs\<rparr>
     | None \<Rightarrow> Inl (ValueError ''input_texts must be an ordered non-empty string batch''))"

record embedding_result =
  er_trace_id :: pystr
  er_target :: model_target
  er_vectors :: "rat list list"
  er_input_tokens :: "int option"
  er_body_sha256 :: "pystr option"

definition finite_vector :: "rat option list option \<Rightarrow> bool" where
  "finite_vector v = (case v of Some xs \<Rightarrow> xs \<noteq> [] \<and> list_all (\<lambda>x. x \<noteq> None) xs | None \<Rightarrow> False)"

definition new_embedding_result ::
  "pyval \<Rightarrow> model_target \<Rightarrow> rat option list option list option \<Rightarrow> pyval \<Rightarrow> pyval \<Rightarrow> embedding_result result" where
  "new_embedding_result trace target vectors input_tokens sha =
     bind_result (require_non_empty ''trace_id'' trace) (\<lambda>t.
     case vectors of
       Some vs \<Rightarrow> if vs = [] \<or> \<not> list_all finite_vector vs
         then Inl (ValueError ''vectors must be an ordered non-empty finite-number batch'')
         else bind_result (optional_usage ''input_tokens'' input_tokens) (\<lambda>i.
           bind_result (optional_sha256 ''response_body_sha256'' sha) (\<lambda>h.
           Inr \<lparr>er_trace_id = t, er_target = target, er_vectors = map (\<lambda>v. map the (the v)) vs,
                er_input_tokens = i, er_body_sha256 = h\<rparr>))
     | None \<Rightarrow> Inl (ValueError ''vectors must be an ordered non-empty finite-number batch''))"

subsection \<open>External errors\<close>

datatype retry_disposition = DISPOSE_TRANSIENT | DISPOSE_PERMANENT | DISPOSE_CONDITIONAL | DISPOSE_UNRESOLVED

datatype external_category = EXT_CONNECTION_ERROR | EXT_CONNECT_TIMEOUT | EXT_READ_TIMEOUT | EXT_RATE_LIMITED
  | EXT_SERVER_ERROR | EXT_CLIENT_ERROR | EXT_CONTEXT_LIMIT | EXT_INVALID_RESPONSE | EXT_CONTENT_REJECTED
  | EXT_PROVIDER_CONFIGURATION_ERROR | EXT_OUTPUT_TRUNCATED

definition external_categories :: "(external_category \<times> pystr) list" where
  "external_categories =
     [(EXT_CONNECTION_ERROR, lit ''connection_error''), (EXT_CONNECT_TIMEOUT, lit ''connect_timeout''),
      (EXT_READ_TIMEOUT, lit ''read_timeout''), (EXT_RATE_LIMITED, lit ''rate_limited''),
      (EXT_SERVER_ERROR, lit ''server_error''), (EXT_CLIENT_ERROR, lit ''client_error''),
      (EXT_CONTEXT_LIMIT, lit ''context_limit''), (EXT_INVALID_RESPONSE, lit ''invalid_response''),
      (EXT_CONTENT_REJECTED, lit ''content_rejected''),
      (EXT_PROVIDER_CONFIGURATION_ERROR, lit ''provider_configuration_error''),
      (EXT_OUTPUT_TRUNCATED, lit ''output_truncated'')]"

record external_error =
  ee_trace_id :: pystr
  ee_category :: external_category
  ee_status_code :: "int option"
  ee_retry_after :: "rat option"

text \<open>The status code that a category allows: the message of \<open>__post_init__\<close> where it does not.\<close>

fun status_refused :: "external_category \<Rightarrow> int option \<Rightarrow> string option" where
  "status_refused _ None = None"
| "status_refused category (Some n) =
     (if category \<in> {EXT_CONNECTION_ERROR, EXT_CONNECT_TIMEOUT, EXT_READ_TIMEOUT}
      then Some ''network errors must not include status_code''
      else if category = EXT_RATE_LIMITED
      then if n = 429 then None else Some ''rate-limited errors only allow status_code 429''
      else if category = EXT_SERVER_ERROR
      then if 500 \<le> n \<and> n \<le> 599 then None else Some ''server errors only allow 5xx status_code''
      else if category \<in> {EXT_CLIENT_ERROR, EXT_CONTEXT_LIMIT}
      then if 400 \<le> n \<and> n \<le> 499 \<and> n \<noteq> 429 then None
        else Some ''client and context errors only allow non-429 4xx status_code''
      else if category = EXT_INVALID_RESPONSE
      then if 200 \<le> n \<and> n \<le> 299 then None else Some ''invalid responses only allow 2xx status_code''
      else if category = EXT_CONTENT_REJECTED
      then if n \<in> {200, 400, 403} then None else Some ''content-rejected errors only allow status 200, 400, or 403''
      else if category = EXT_PROVIDER_CONFIGURATION_ERROR
      then if 300 \<le> n \<and> n \<le> 399 then None else Some ''provider-configuration errors only allow 3xx status_code''
      else if n = 200 then None else Some ''output-truncated errors only allow status 200'')"

text \<open>\<open>ExternalError.__post_init__\<close>; the retry time is absent or a number.\<close>

definition new_external_error ::
  "pyval \<Rightarrow> external_category \<Rightarrow> pyval \<Rightarrow> rat option option \<Rightarrow> external_error result" where
  "new_external_error trace category status_code retry_after =
     bind_result (require_non_empty ''trace_id'' trace) (\<lambda>t.
     bind_result (case status_code of
         PyNone \<Rightarrow> Inr None
       | PyInt n \<Rightarrow> if 100 \<le> n \<and> n \<le> 599 then Inr (Some n) else Inl (ValueError ''status_code must be a valid HTTP status'')
       | _ \<Rightarrow> Inl (ValueError ''status_code must be an integer'')) (\<lambda>code.
     case status_refused category code of
       Some msg \<Rightarrow> Inl (ValueError msg)
     | None \<Rightarrow> bind_result (case retry_after of
         None \<Rightarrow> Inr None
       | Some None \<Rightarrow> Inl (ValueError ''retry_after_seconds must be a non-negative finite number'')
       | Some (Some r) \<Rightarrow>
           if r < 0 then Inl (ValueError ''retry_after_seconds must be a non-negative finite number'')
           else if category \<noteq> EXT_RATE_LIMITED
           then Inl (ValueError ''retry_after_seconds is only valid for rate-limited errors'')
           else Inr (Some r)) (\<lambda>retry.
       Inr \<lparr>ee_trace_id = t, ee_category = category, ee_status_code = code, ee_retry_after = retry\<rparr>)))"

definition error_disposition :: "external_error \<Rightarrow> retry_disposition" where
  "error_disposition e =
     (if ee_category e = EXT_SERVER_ERROR
      then if ee_status_code e \<in> Some ` {500, 502, 503, 504} then DISPOSE_TRANSIENT else DISPOSE_PERMANENT
      else if ee_category e \<in> {EXT_CONNECTION_ERROR, EXT_CONNECT_TIMEOUT, EXT_READ_TIMEOUT, EXT_RATE_LIMITED}
      then DISPOSE_TRANSIENT else DISPOSE_PERMANENT)"

section \<open>The gateway\<close>

datatype llm_outcome = LlmAnswer llm_result | LlmFailure external_error

datatype embedding_outcome = EmbeddingAnswer embedding_result | EmbeddingFailure external_error

text \<open>What an adapter does: it raises, returns an outcome, or returns something else.\<close>

datatype 'a adapter_reply = AdapterRaises | AdapterReturns 'a | AdapterReturnsOther

datatype gateway_error = AdapterNotRegistered pystr | GatewayAdapterFailed pystr | GatewayContractBroken pystr

type_synonym llm_adapter = "llm_request \<Rightarrow> model_target \<Rightarrow> transport_policy \<Rightarrow> llm_outcome adapter_reply"
type_synonym embedding_adapter =
  "embedding_request \<Rightarrow> model_target \<Rightarrow> transport_policy \<Rightarrow> embedding_outcome adapter_reply"

definition gateway_generate ::
  "(pystr \<rightharpoonup> llm_adapter) \<Rightarrow> llm_request \<Rightarrow> model_target \<Rightarrow> transport_policy \<Rightarrow> gateway_error + llm_outcome" where
  "gateway_generate registry request target policy =
     (case registry (target_adapter target) of
        None \<Rightarrow> Inl (AdapterNotRegistered (lr_trace_id request))
      | Some call \<Rightarrow> (case call request target policy of
          AdapterRaises \<Rightarrow> Inl (GatewayAdapterFailed (lr_trace_id request))
        | AdapterReturnsOther \<Rightarrow> Inl (GatewayContractBroken (lr_trace_id request))
        | AdapterReturns (LlmFailure e) \<Rightarrow>
            if ee_trace_id e \<noteq> lr_trace_id request then Inl (GatewayContractBroken (lr_trace_id request))
            else Inr (LlmFailure e)
        | AdapterReturns (LlmAnswer r) \<Rightarrow>
            if ll_trace_id r \<noteq> lr_trace_id request \<or> ll_target r \<noteq> target
            then Inl (GatewayContractBroken (lr_trace_id request)) else Inr (LlmAnswer r)))"

definition gateway_embed ::
  "(pystr \<rightharpoonup> embedding_adapter) \<Rightarrow> embedding_request \<Rightarrow> model_target \<Rightarrow> transport_policy
   \<Rightarrow> gateway_error + embedding_outcome" where
  "gateway_embed registry request target policy =
     (case registry (target_adapter target) of
        None \<Rightarrow> Inl (AdapterNotRegistered (em_trace_id request))
      | Some call \<Rightarrow> (case call request target policy of
          AdapterRaises \<Rightarrow> Inl (GatewayAdapterFailed (em_trace_id request))
        | AdapterReturnsOther \<Rightarrow> Inl (GatewayContractBroken (em_trace_id request))
        | AdapterReturns (EmbeddingFailure e) \<Rightarrow>
            if ee_trace_id e \<noteq> em_trace_id request then Inl (GatewayContractBroken (em_trace_id request))
            else Inr (EmbeddingFailure e)
        | AdapterReturns (EmbeddingAnswer r) \<Rightarrow>
            if er_trace_id r \<noteq> em_trace_id request \<or> er_target r \<noteq> target
              \<or> length (er_vectors r) \<noteq> length (em_texts request)
            then Inl (GatewayContractBroken (em_trace_id request)) else Inr (EmbeddingAnswer r)))"

section \<open>Routing\<close>

text \<open>\<open>P0AiPurpose\<close> has the members of the call types of the audit; \<open>rate_limit_pool_for_purpose\<close>.\<close>

fun pool_for_purpose :: "call_type \<Rightarrow> pool" where
  "pool_for_purpose CONTRACT_FIELD_EXTRACTION = ASYNC_GENERATION"
| "pool_for_purpose INVOICE_FIELD_EXTRACTION = ASYNC_GENERATION"
| "pool_for_purpose RISK_EXPLANATION = ASYNC_GENERATION"
| "pool_for_purpose RAG_ANSWER = RAG"
| "pool_for_purpose REPORT_DRAFT = ASYNC_GENERATION"
| "pool_for_purpose EMBEDDING_CALL = EMBEDDING"

record routing_config =
  rc_llm_adapter :: pystr
  rc_embedding_adapter :: pystr
  rc_extraction_model :: pystr
  rc_generation_model :: pystr
  rc_fallback_model :: pystr
  rc_report_uses_fallback :: bool
  rc_embedding_model :: pystr

text \<open>\<open>P0AiRoutingConfig.__post_init__\<close>, the checks in the order of the code's dictionary.\<close>

definition new_routing_config ::
  "pyval \<Rightarrow> pyval \<Rightarrow> pyval \<Rightarrow> pyval \<Rightarrow> pyval \<Rightarrow> pyval \<Rightarrow> pyval \<Rightarrow> routing_config result" where
  "new_routing_config llm_adapter embedding_adapter extraction generation fallback report_fallback embedding =
     bind_result (require_non_empty ''llm_adapter_id'' llm_adapter) (\<lambda>l.
     bind_result (require_non_empty ''embedding_adapter_id'' embedding_adapter) (\<lambda>a.
     bind_result (require_non_empty ''extraction_model_id'' extraction) (\<lambda>x.
     bind_result (require_non_empty ''generation_model_id'' generation) (\<lambda>g.
     bind_result (require_non_empty ''fallback_model_id'' fallback) (\<lambda>f.
     bind_result (require_non_empty ''embedding_model_id'' embedding) (\<lambda>e.
     case report_fallback of
       PyBool b \<Rightarrow> guard (f \<in> {x, g}) ''fallback target must differ from primary targets''
         (Inr \<lparr>rc_llm_adapter = l, rc_embedding_adapter = a, rc_extraction_model = x, rc_generation_model = g,
              rc_fallback_model = f, rc_report_uses_fallback = b, rc_embedding_model = e\<rparr>)
     | _ \<Rightarrow> Inl (ValueError ''report_draft_uses_fallback must be a bool'')))))))"

definition routed_purposes :: "call_type list" where
  "routed_purposes = [CONTRACT_FIELD_EXTRACTION, INVOICE_FIELD_EXTRACTION, RISK_EXPLANATION, RAG_ANSWER,
     REPORT_DRAFT, EMBEDDING_CALL]"

definition build_p0_model_routes :: "routing_config \<Rightarrow> (call_type \<times> model_route) list result" where
  "build_p0_model_routes c =
     bind_result (new_model_target (PyStr (rc_llm_adapter c)) (PyStr (rc_extraction_model c))) (\<lambda>extraction.
     bind_result (new_model_target (PyStr (rc_llm_adapter c)) (PyStr (rc_generation_model c))) (\<lambda>generation.
     bind_result (new_model_target (PyStr (rc_embedding_adapter c)) (PyStr (rc_embedding_model c))) (\<lambda>embedding.
     bind_result (new_model_target (PyStr (rc_llm_adapter c)) (PyStr (rc_fallback_model c))) (\<lambda>fallback.
     map_result (\<lambda>p. bind_result
         (new_model_route (PyStr (text_in call_types p))
           (if p \<in> {CONTRACT_FIELD_EXTRACTION, INVOICE_FIELD_EXTRACTION} then [extraction, fallback]
            else if p = REPORT_DRAFT \<and> \<not> rc_report_uses_fallback c then [generation]
            else if p = EMBEDDING_CALL then [embedding] else [generation, fallback]))
         (\<lambda>r. Inr (p, r))) routed_purposes))))"

text \<open>A validated configuration has a route for every purpose.\<close>

lemma routes_exist:
  assumes "new_routing_config l a x g f b e = Inr c"
  obtains routes where "build_p0_model_routes c = Inr routes" "map fst routes = routed_purposes"
    "\<forall>p. \<exists>r. map_of routes p = Some r \<and> route_purpose r = text_in call_types p \<and> distinct (route_candidates r)
       \<and> route_candidates r \<noteq> []"
proof -
  have texts: "non_blank (rc_llm_adapter c)" "non_blank (rc_embedding_adapter c)" "non_blank (rc_extraction_model c)"
    "non_blank (rc_generation_model c)" "non_blank (rc_fallback_model c)" "non_blank (rc_embedding_model c)"
    and other: "rc_fallback_model c \<noteq> rc_extraction_model c" "rc_fallback_model c \<noteq> rc_generation_model c"
    using assms by (cases b; auto simp: new_routing_config_def)+
  have purpose: "non_blank (text_in call_types p)" for p
    by (cases p) (auto simp: text_in_def call_types_def lit_def non_blank_iff py_isspace_def)
  let ?t = "\<lambda>a m. \<lparr>target_adapter = a, target_model = m\<rparr>"
  let ?candidates = "\<lambda>p. if p \<in> {CONTRACT_FIELD_EXTRACTION, INVOICE_FIELD_EXTRACTION}
      then [?t (rc_llm_adapter c) (rc_extraction_model c), ?t (rc_llm_adapter c) (rc_fallback_model c)]
    else if p = REPORT_DRAFT \<and> \<not> rc_report_uses_fallback c then [?t (rc_llm_adapter c) (rc_generation_model c)]
    else if p = EMBEDDING_CALL then [?t (rc_embedding_adapter c) (rc_embedding_model c)]
    else [?t (rc_llm_adapter c) (rc_generation_model c), ?t (rc_llm_adapter c) (rc_fallback_model c)]"
  let ?routes = "map (\<lambda>p. (p, \<lparr>route_purpose = text_in call_types p, route_candidates = ?candidates p\<rparr>)) routed_purposes"
  have "build_p0_model_routes c = Inr ?routes"
    using texts other purpose
    by (simp add: build_p0_model_routes_def new_model_target_def new_model_route_def routed_purposes_def require_non_empty_def
        guard_def)
  moreover have "\<exists>r. map_of ?routes p = Some r \<and> route_purpose r = text_in call_types p \<and> distinct (route_candidates r)
       \<and> route_candidates r \<noteq> []" for p
    using other by (cases p) (simp_all add: routed_purposes_def)
  ultimately show ?thesis using that by (simp add: comp_def)
qed

end
