(* ===== verification/AiRetry.thy ===== *)
theory AiRetry
  imports Timestamps AiContracts
begin

text \<open>
  \<open>ai/retry_policy.py\<close>: when a connection may start, how long a retry waits, how a provider's \<open>Retry-After\<close> is
  read, and whether a retry still fits before the deadline. Numbers are exact rationals, \<open>None\<close> when an argument
  is not finite or no number; bytes are lists of numbers below 256.
\<close>

definition finite_number :: "string \<Rightarrow> rat option \<Rightarrow> rat result" where
  "finite_number name v = (case v of Some x \<Rightarrow> Inr x | None \<Rightarrow> Inl (ValueError (name @ '' must be a finite number'')))"

definition max_retry_wait :: rat where "max_retry_wait = 30"

section \<open>Deadlines\<close>

definition can_start_connection :: "rat option \<Rightarrow> rat option \<Rightarrow> rat option \<Rightarrow> bool result" where
  "can_start_connection remaining connecting margin =
     bind_result (finite_number ''remaining_deadline_seconds'' remaining) (\<lambda>r.
     bind_result (finite_number ''connect_timeout_seconds'' connecting) (\<lambda>c.
     bind_result (finite_number ''min_processing_margin_seconds'' margin) (\<lambda>m.
     guard (c \<le> 0) ''connect_timeout_seconds must be positive''
     (guard (m < 0) ''min_processing_margin_seconds must be non-negative''
       (Inr (c + m < r))))))"

definition can_retry_before_deadline :: "rat option \<Rightarrow> rat option \<Rightarrow> rat option \<Rightarrow> rat option \<Rightarrow> bool result" where
  "can_retry_before_deadline monotonic_now wait margin deadline =
     bind_result (finite_number ''monotonic_now'' monotonic_now) (\<lambda>n.
     bind_result (finite_number ''effective_wait_seconds'' wait) (\<lambda>w.
     bind_result (finite_number ''min_processing_margin_seconds'' margin) (\<lambda>m.
     bind_result (finite_number ''deadline_monotonic'' deadline) (\<lambda>d.
     guard (w < 0) ''effective_wait_seconds must be non-negative''
     (guard (m < 0) ''min_processing_margin_seconds must be non-negative''
       (Inr (if max_retry_wait < w then False else n + w + m < d)))))))"

section \<open>Waiting\<close>

definition base_wait :: "int \<Rightarrow> rat" where
  "base_wait k = (if 6 \<le> k then 30 else 2 ^ nat (k - 1))"

definition jittered_wait :: "int \<Rightarrow> rat \<Rightarrow> rat" where
  "jittered_wait k u = min max_retry_wait (base_wait k * (4 / 5 + 2 / 5 * u))"

definition calculate_retry_wait_seconds :: "pyval \<Rightarrow> rat option \<Rightarrow> pyval \<Rightarrow> rat result" where
  "calculate_retry_wait_seconds ordinal random retry_after =
     (case ordinal of
        PyInt k \<Rightarrow> guard (k < 1) ''retry_ordinal must be a positive integer''
          (bind_result (finite_number ''random_unit_interval'' random) (\<lambda>u.
           guard (\<not> (0 \<le> u \<and> u < 1)) ''random_unit_interval must satisfy 0 <= u < 1''
           (bind_result (case retry_after of
                PyNone \<Rightarrow> Inr 0
              | PyInt n \<Rightarrow> if n < 0 then Inl (ValueError ''parsed_retry_after_seconds must be a non-negative integer'') else Inr n
              | _ \<Rightarrow> Inl (ValueError ''parsed_retry_after_seconds must be a non-negative integer'')) (\<lambda>n.
            Inr (max (jittered_wait k u) (of_int n))))))
      | _ \<Rightarrow> Inl (ValueError ''retry_ordinal must be a positive integer''))"

section \<open>Retry-After\<close>

definition weekdays :: "pystr list" where
  "weekdays = map lit [''Mon'', ''Tue'', ''Wed'', ''Thu'', ''Fri'', ''Sat'', ''Sun'']"

definition months :: "pystr list" where
  "months = map lit [''Jan'', ''Feb'', ''Mar'', ''Apr'', ''May'', ''Jun'', ''Jul'', ''Aug'', ''Sep'', ''Oct'', ''Nov'', ''Dec'']"

text \<open>\<open>datetime.weekday\<close>: the ordinal 1 was a Monday.\<close>

definition weekday :: "date \<Rightarrow> nat" where
  "weekday d = nat ((toordinal d + 6) mod 7)"

definition epoch_ordinal :: int where "epoch_ordinal = toordinal (Date 1970 1 1)"

definition index_of :: "'a \<Rightarrow> 'a list \<Rightarrow> nat option" where
  "index_of x xs = List.find (\<lambda>i. xs ! i = x) [0 ..< length xs]"

text \<open>The groups of \<open>_IMF_FIXDATE\<close>, a pattern of fixed width.\<close>

definition imf_groups :: "nat list \<Rightarrow> (pystr \<times> nat \<times> nat \<times> nat \<times> nat \<times> nat \<times> nat) option" where
  "imf_groups s =
     (let part = (\<lambda>i n. take n (drop i s)); digits = (\<lambda>i n. list_all is_decimal_digit (part i n)) in
      if length s = 29 \<and> part 0 3 \<in> set weekdays \<and> part 3 2 = lit '', '' \<and> digits 5 2 \<and> part 7 1 = lit '' ''
        \<and> part 8 3 \<in> set months \<and> part 11 1 = lit '' '' \<and> digits 12 4 \<and> part 16 1 = lit '' '' \<and> digits 17 2
        \<and> part 19 1 = lit '':'' \<and> digits 20 2 \<and> part 22 1 = lit '':'' \<and> digits 23 2 \<and> part 25 4 = lit '' GMT''
      then Some (part 0 3, read_digits (part 12 4), the (index_of (part 8 3) months) + 1, read_digits (part 5 2),
        read_digits (part 17 2), read_digits (part 20 2), read_digits (part 23 2))
      else None)"

text \<open>\<open>_parse_imf_fixdate\<close>; \<open>datetime\<close> refuses a day that does not exist and a clock out of range.\<close>

definition parse_imf_fixdate :: "nat list \<Rightarrow> rat option \<Rightarrow> int option result" where
  "parse_imf_fixdate s wall_clock =
     (case imf_groups s of
        None \<Rightarrow> Inr None
      | Some (name, y, m, d, h, mi, sec) \<Rightarrow>
          if \<not> (calendar_date (Date y m d) \<and> h < 24 \<and> mi < 60 \<and> sec < 60) then Inr None
          else if weekdays ! weekday (Date y m d) \<noteq> name then Inr None
          else bind_result (finite_number ''wall_clock_epoch_seconds'' wall_clock) (\<lambda>w.
            let provider = (toordinal (Date y m d) - epoch_ordinal) * 86400 + int (h * 3600 + mi * 60 + sec)
            in Inr (Some (max 0 \<lceil>of_int provider - w\<rceil>))))"

definition strip_blanks :: "nat list \<Rightarrow> nat list" where
  "strip_blanks s = rev (dropWhile (\<lambda>c. c \<in> {32, 9}) (rev (dropWhile (\<lambda>c. c \<in> {32, 9}) s)))"

text \<open>\<open>parse_retry_after_seconds\<close>: the headers are \<open>None\<close> when they are no sequence, a header when it is no bytes.\<close>

definition parse_retry_after_seconds :: "pyval \<Rightarrow> nat list option list option \<Rightarrow> rat option \<Rightarrow> int option result" where
  "parse_retry_after_seconds status_code headers wall_clock =
     (case (status_code, headers) of
        (PyInt n, Some [Some raw]) \<Rightarrow>
          if n \<noteq> 429 then Inr None
          else let value = strip_blanks raw in
            if value = [] then Inr None
            else if list_all is_decimal_digit value
            then Inr (Some (if 16 < length value then 31 else int (read_digits value)))
            else parse_imf_fixdate value wall_clock
      | _ \<Rightarrow> Inr None)"

section \<open>Printed dates\<close>

text \<open>The form RFC 9110 prescribes, \<open>Sun, 06 Nov 1994 08:49:37 GMT\<close>, of a date and the second of its day.\<close>

definition imf_text :: "date \<Rightarrow> nat \<Rightarrow> nat list" where
  "imf_text dt t = (case dt of Date y m d \<Rightarrow>
     weekdays ! weekday dt @ lit '', '' @ two d @ lit '' '' @ months ! (m - 1) @ lit '' '' @ zfill 4 (dec_digits y)
     @ lit '' '' @ two (t div 3600) @ lit '':'' @ two (t div 60 mod 60) @ lit '':'' @ two (t mod 60) @ lit '' GMT'')"

definition epoch_seconds :: "date \<Rightarrow> nat \<Rightarrow> int" where
  "epoch_seconds dt t = (toordinal dt - epoch_ordinal) * 86400 + int t"

lemma digits_printed:
  assumes "list_all is_decimal_digit xs" "length xs = n" "0 < n"
  shows "zfill n (dec_digits (read_digits xs)) = xs"
proof -
  let ?ys = "zfill n (dec_digits (read_digits xs))"
  have "length (dec_digits (read_digits xs)) \<le> n"
    using dec_digits_length [OF read_digits_bound [OF assms(1)]] assms by simp
  then have len: "length ?ys = length xs" using assms(2) by (simp add: zfill_def)
  have digits: "list_all is_decimal_digit ?ys" by (simp add: zfill_all dec_digits_all)
  have "\<not> ?ys < xs" "\<not> xs < ?ys"
    using digits_less [OF len digits assms(1)] digits_less [OF len [symmetric] assms(1) digits] by simp_all
  then show ?thesis by simp
qed

lemma weekday_range: "weekday d < 7"
  by (simp add: weekday_def nat_less_iff)

lemma index_of_nth: "distinct xs \<Longrightarrow> i < length xs \<Longrightarrow> index_of (xs ! i) xs = Some i"
  by (auto simp: index_of_def find_Some_iff nth_eq_iff_index_eq)

lemma length_lit [simp]: "length (lit s) = length s"
  by (simp add: lit_def)

lemma name_lengths: "w \<in> set weekdays \<Longrightarrow> length w = 3" "m \<in> set months \<Longrightarrow> length m = 3"
  by (auto simp: weekdays_def months_def)

lemma imf_groups_parts:
  assumes "W \<in> set weekdays" "M \<in> set months" "length D = 2" "length Y = 4" "length H = 2" "length I = 2" "length S = 2"
    "list_all is_decimal_digit D" "list_all is_decimal_digit Y" "list_all is_decimal_digit H"
    "list_all is_decimal_digit I" "list_all is_decimal_digit S"
  shows "imf_groups (W @ lit '', '' @ D @ lit '' '' @ M @ lit '' '' @ Y @ lit '' '' @ H @ lit '':'' @ I @ lit '':'' @ S @ lit '' GMT'')
    = Some (W, read_digits Y, the (index_of M months) + 1, read_digits D, read_digits H, read_digits I, read_digits S)"
  using assms name_lengths(1) [OF assms(1)] name_lengths(2) [OF assms(2)] by (simp add: imf_groups_def Let_def)

lemma drop_parts: "take n (drop i s) @ drop (i + n) s = drop i s"
  by (metis add.commute append_take_drop_id drop_drop)

lemma imf_groupsD:
  assumes "imf_groups s = Some (W, y, m, d, h, i, c)"
  obtains D M Y H I S where "s = W @ lit '', '' @ D @ lit '' '' @ M @ lit '' '' @ Y @ lit '' '' @ H @ lit '':'' @ I @ lit '':'' @ S @ lit '' GMT''"
    "W \<in> set weekdays" "M \<in> set months" "length D = 2" "length Y = 4" "length H = 2" "length I = 2" "length S = 2"
    "list_all is_decimal_digit D" "list_all is_decimal_digit Y" "list_all is_decimal_digit H"
    "list_all is_decimal_digit I" "list_all is_decimal_digit S"
    "y = read_digits Y" "m = the (index_of M months) + 1" "d = read_digits D" "h = read_digits H" "i = read_digits I"
    "c = read_digits S"
proof -
  note facts = assms [unfolded imf_groups_def Let_def]
  have len: "length s = 29" using facts by (auto split: if_splits)
  have tail: "drop 25 s = take 4 (drop 25 s)" using len by simp
  have "s = take 3 s @ take 2 (drop 3 s) @ take 2 (drop 5 s) @ take 1 (drop 7 s) @ take 3 (drop 8 s) @ take 1 (drop 11 s)
      @ take 4 (drop 12 s) @ take 1 (drop 16 s) @ take 2 (drop 17 s) @ take 1 (drop 19 s) @ take 2 (drop 20 s)
      @ take 1 (drop 22 s) @ take 2 (drop 23 s) @ take 4 (drop 25 s)"
    using drop_parts [of 2 3 s] drop_parts [of 2 5 s] drop_parts [of 1 7 s] drop_parts [of 3 8 s] drop_parts [of 1 11 s]
      drop_parts [of 4 12 s] drop_parts [of 1 16 s] drop_parts [of 2 17 s] drop_parts [of 1 19 s] drop_parts [of 2 20 s]
      drop_parts [of 1 22 s] drop_parts [of 2 23 s] append_take_drop_id [of 3 s]
    by (simp only: tail [symmetric]) simp
  then show thesis
    using facts len
    by (intro that [where D = "take 2 (drop 5 s)" and M = "take 3 (drop 8 s)" and Y = "take 4 (drop 12 s)"
          and H = "take 2 (drop 17 s)" and I = "take 2 (drop 20 s)" and S = "take 2 (drop 23 s)"])
      (simp_all split: if_splits)
qed

lemma distinct_months: "distinct months" "length months = 12" "length weekdays = 7"
  by (simp_all add: months_def weekdays_def)

lemma month_found:
  assumes "M \<in> set months"
  shows "months ! the (index_of M months) = M" "the (index_of M months) < 12"
proof -
  obtain i where "i < 12" "M = months ! i" using assms by (auto simp: in_set_conv_nth distinct_months)
  then show "months ! the (index_of M months) = M" "the (index_of M months) < 12"
    using index_of_nth [OF distinct_months(1), of i] by (simp_all add: distinct_months)
qed

lemma clock_parts:
  assumes "h < 24" "i < 60" "c < (60::nat)"
  defines "t \<equiv> h * 3600 + i * 60 + c"
  shows "t < 86400" "t div 3600 = h" "t div 60 mod 60 = i" "t mod 60 = c"
proof -
  have t: "t = (h * 60 + i) * 60 + c" by (simp add: t_def algebra_simps)
  then have minutes: "t div 60 = h * 60 + i" using assms(3) by simp
  have "t div 3600 = t div 60 div 60" by (simp add: div_mult2_eq [of t 60 60, simplified])
  then show "t div 3600 = h" using minutes assms(2) by simp
  show "t div 60 mod 60 = i" using minutes assms(2) by simp
  show "t mod 60 = c" unfolding t mod_mult_self3 using assms(3) by (rule mod_less)
  show "t < 86400" using assms by simp
qed

lemma clock_sum: "t div 3600 * 3600 + t div 60 mod 60 * 60 + t mod 60 = (t::nat)"
proof -
  have "t div 3600 = t div 60 div 60" by (simp add: div_mult2_eq [of t 60 60, simplified])
  then have "t div 3600 * 60 + t div 60 mod 60 = t div 60" by simp
  then have "(t div 3600 * 60 + t div 60 mod 60) * 60 + t mod 60 = t" by simp
  then show ?thesis by (simp add: algebra_simps)
qed

lemma two_digits: "n < 100 \<Longrightarrow> list_all is_decimal_digit (two n)" "read_digits (two n) = n"
  by (simp_all add: two_def zfill_all dec_digits_all)

text \<open>C37. Exactly the dates in the form RFC 9110 prescribes are read: a header text yields a delay just when it is
  the printed form of a calendar date with its true weekday and of a second of that day, and the delay is then
  the number of whole seconds, rounded up, from the wall clock to that instant, never negative.\<close>

theorem imf_date_exact:
  "parse_imf_fixdate s (Some w) = Inr (Some n) \<longleftrightarrow>
     (\<exists>dt t. calendar_date dt \<and> t < 86400 \<and> s = imf_text dt t \<and> n = max 0 \<lceil>of_int (epoch_seconds dt t) - w\<rceil>)"
proof
  assume parsed: "parse_imf_fixdate s (Some w) = Inr (Some n)"
  then obtain name y m d h i c where groups: "imf_groups s = Some (name, y, m, d, h, i, c)"
    by (cases "imf_groups s") (auto simp: parse_imf_fixdate_def)
  note facts = parsed [unfolded parse_imf_fixdate_def groups]
  let ?dt = "Date y m d" and ?t = "h * 3600 + i * 60 + c"
  have clock: "calendar_date ?dt" "h < 24" "i < 60" "c < 60" "weekdays ! weekday ?dt = name"
    using facts by (auto split: if_splits)
  have delay: "n = max 0 \<lceil>of_int (epoch_seconds ?dt ?t) - w\<rceil>"
    using facts clock by (simp add: finite_number_def Let_def epoch_seconds_def)
  note parts = clock_parts [OF clock(2-4)]
  have "s = imf_text ?dt ?t"
    using groups
  proof (rule imf_groupsD)
    fix D M Y H I S
    assume s: "s = name @ lit '', '' @ D @ lit '' '' @ M @ lit '' '' @ Y @ lit '' '' @ H @ lit '':'' @ I @ lit '':'' @ S @ lit '' GMT''"
      and M: "M \<in> set months" "m = the (index_of M months) + 1"
      and lengths: "length D = 2" "length Y = 4" "length H = 2" "length I = 2" "length S = 2"
      and digits: "list_all is_decimal_digit D" "list_all is_decimal_digit Y" "list_all is_decimal_digit H"
        "list_all is_decimal_digit I" "list_all is_decimal_digit S"
      and read: "y = read_digits Y" "d = read_digits D" "h = read_digits H" "i = read_digits I" "c = read_digits S"
    have printed: "two d = D" "zfill 4 (dec_digits y) = Y" "two h = H" "two i = I" "two c = S"
      unfolding read two_def by (simp_all add: digits_printed digits lengths)
    have month: "months ! (m - 1) = M" using month_found [OF M(1)] M(2) by simp
    show ?thesis by (simp only: imf_text_def date.case parts clock(5) printed month s)
  qed
  then show "\<exists>dt t. calendar_date dt \<and> t < 86400 \<and> s = imf_text dt t \<and> n = max 0 \<lceil>of_int (epoch_seconds dt t) - w\<rceil>"
    using clock(1) parts(1) delay by blast
next
  assume "\<exists>dt t. calendar_date dt \<and> t < 86400 \<and> s = imf_text dt t \<and> n = max 0 \<lceil>of_int (epoch_seconds dt t) - w\<rceil>"
  then obtain y m d t where date: "calendar_date (Date y m d)" and t: "t < 86400" and s: "s = imf_text (Date y m d) t"
    and n: "n = max 0 \<lceil>of_int (epoch_seconds (Date y m d) t) - w\<rceil>" by (metis date.exhaust)
  have ranges: "1 \<le> m" "m \<le> 12" "d < 100" "y < 10000"
    using date by (auto simp: calendar_date_def days_in_month_def split: if_splits)
  have hours: "t div 3600 < 24" using t by (simp add: less_mult_imp_div_less)
  have lengths: "length (two d) = 2" "length (two (t div 3600)) = 2" "length (two (t div 60 mod 60)) = 2"
    "length (two (t mod 60)) = 2" "length (zfill 4 (dec_digits y)) = 4"
    using two_length [of d] two_length [of "t div 60 mod 60"] two_length [of "t mod 60"] two_length [of "t div 3600"] hours
      ranges dec_digits_length [of y 4] by (simp_all add: zfill_def)
  have names: "weekdays ! weekday (Date y m d) \<in> set weekdays" "months ! (m - 1) \<in> set months"
    using weekday_range [of "Date y m d"] ranges by (simp_all add: distinct_months)
  have "index_of (months ! (m - 1)) months = Some (m - 1)"
    using index_of_nth [OF distinct_months(1), of "m - 1"] ranges by (simp add: distinct_months)
  then have "imf_groups s = Some (weekdays ! weekday (Date y m d), y, m, d, t div 3600, t div 60 mod 60, t mod 60)"
    unfolding s imf_text_def date.case
    by (subst imf_groups_parts) (use names lengths ranges hours in \<open>simp_all add: two_digits zfill_all dec_digits_all\<close>)
  moreover have "int (t div 3600 * 3600 + t div 60 mod 60 * 60 + t mod 60) = int t" by (simp only: clock_sum)
  ultimately show "parse_imf_fixdate s (Some w) = Inr (Some n)"
    using date hours n by (simp add: parse_imf_fixdate_def finite_number_def Let_def epoch_seconds_def)
qed

text \<open>A retry that is permitted waits between four fifths of the exponential base, which is one second doubled
  per retry up to thirty, and thirty seconds, never less than the provider asked for, and ends with the processing
  margin still left before the deadline.\<close>

theorem permitted_retry_bounds:
  assumes "calculate_retry_wait_seconds (PyInt k) (Some u) retry_after = Inr w"
    "can_retry_before_deadline (Some now) (Some w) (Some margin) (Some deadline) = Inr True"
  shows "4 / 5 * base_wait k \<le> w \<and> w \<le> max_retry_wait \<and> (\<forall>n. retry_after = PyInt n \<longrightarrow> of_int n \<le> w)
    \<and> base_wait k = min 30 (2 ^ nat (k - 1)) \<and> now + w + margin < deadline"
proof -
  have k: "1 \<le> k" and u: "0 \<le> u" "u < 1" and w: "jittered_wait k u \<le> w" "\<forall>n. retry_after = PyInt n \<longrightarrow> of_int n \<le> w"
    using assms(1) by (auto simp: calculate_retry_wait_seconds_def finite_number_def split: pyval.splits if_splits)
  have base: "base_wait k = min 30 (2 ^ nat (k - 1))"
  proof (cases "6 \<le> k")
    case True
    then have "5 \<le> nat (k - 1)" by simp
    then have "(2::rat) ^ 5 \<le> 2 ^ nat (k - 1)" by (rule power_increasing) simp
    then show ?thesis using True by (simp add: base_wait_def)
  next
    case False
    then have "nat (k - 1) \<le> 4" using k by simp
    then have "(2::rat) ^ nat (k - 1) \<le> 2 ^ 4" by (rule power_increasing) simp
    then show ?thesis using False by (simp add: base_wait_def)
  qed
  have pos: "0 \<le> base_wait k" "base_wait k \<le> 30" by (simp_all add: base)
  have "4 / 5 * base_wait k \<le> base_wait k * (4 / 5 + 2 / 5 * u)"
    using mult_left_mono [of "4 / 5" "4 / 5 + 2 / 5 * u" "base_wait k"] pos(1) u(1) by (simp add: mult.commute)
  then have "4 / 5 * base_wait k \<le> jittered_wait k u" using pos by (simp add: jittered_wait_def max_retry_wait_def)
  then show ?thesis using w base assms(2)
    by (auto simp: can_retry_before_deadline_def finite_number_def split: if_splits)
qed

lemma permitted_retry_bounds_witness:
  "4 / 5 * base_wait 3 \<le> 5 \<and> 5 \<le> max_retry_wait \<and> (\<forall>n. PyInt 5 = PyInt n \<longrightarrow> of_int n \<le> (5::rat))
    \<and> base_wait 3 = min 30 (2 ^ nat (3 - 1)) \<and> 100 + 5 + 1 < (120::rat)"
  by (rule permitted_retry_bounds [where u = "1 / 2"])
    (simp_all add: calculate_retry_wait_seconds_def finite_number_def jittered_wait_def base_wait_def max_retry_wait_def
      can_retry_before_deadline_def)

end
