(* ===== verification/AiPolicyResolver.thy ===== *)
theory AiPolicyResolver
  imports AiContracts
begin

text \<open>
  \<open>ai/policy_resolver.py\<close>: the graph of operations and model profiles of a policy is checked as a whole and turned
  into the targets of each operation. The fields are dynamic values, since each check begins with their exact
  types; a tuple is \<open>None\<close> when the argument is no tuple. Every failure raises the same error.
\<close>

definition route_error :: "'a result" where
  "route_error = Inl (ValueError ''AI_POLICY_ROUTE_GRAPH_INVALID'')"

definition demand :: "bool \<Rightarrow> 'a result \<Rightarrow> 'a result" where
  "demand ok r = (if ok then r else route_error)"

lemma demand_ok [simp]: "demand ok r = Inr x \<longleftrightarrow> ok \<and> r = Inr x"
  by (simp add: demand_def route_error_def)

section \<open>Values\<close>

record profile_value =
  pv_profile_id :: pyval
  pv_adapter_id :: pyval
  pv_endpoint_id :: pyval
  pv_model_id :: pyval
  pv_capabilities :: "pyval list option"

record operation_value =
  ov_operation_id :: pyval
  ov_primary_id :: pyval
  ov_fallback_id :: pyval
  ov_report_fallback :: pyval

record target_identity =
  ti_profile_id :: pystr
  ti_adapter_id :: pystr
  ti_endpoint_id :: pystr
  ti_model_id :: pystr

record resolved_operation =
  ro_operation :: pystr
  ro_primary :: target_identity
  ro_fallback :: "target_identity option"

text \<open>A profile and an operation that passed their own checks.\<close>

record profile =
  pf_target :: target_identity
  pf_capabilities :: "pystr list"

record operation =
  op_id :: pystr
  op_primary :: pystr
  op_fallback :: "pystr option"
  op_report_fallback :: bool

section \<open>Constants\<close>

definition operation_order :: "pystr list" where
  "operation_order = map lit [''contract_field_extraction'', ''embedding'', ''invoice_field_extraction'', ''rag_answer'',
     ''report_draft'', ''risk_explanation'']"

definition llm_capabilities :: "pystr list" where
  "llm_capabilities = [lit ''llm_extraction'', lit ''llm_generation'']"

definition required_capability :: "pystr \<Rightarrow> pystr" where
  "required_capability operation =
     (if operation \<in> {lit ''contract_field_extraction'', lit ''invoice_field_extraction''} then lit ''llm_extraction''
      else if operation = lit ''embedding'' then lit ''embedding'' else lit ''llm_generation'')"

definition mandatory_fallback :: "pystr list" where
  "mandatory_fallback = map lit [''contract_field_extraction'', ''invoice_field_extraction'', ''rag_answer'',
     ''risk_explanation'']"

definition is_profile_id :: "pystr \<Rightarrow> bool" where
  "is_profile_id s \<longleftrightarrow> 1 \<le> length s \<and> length s \<le> 100
     \<and> list_all (\<lambda>c. is_lower c \<or> is_decimal_digit c \<or> among ''_-'' c) s"

definition is_stable_id :: "pystr \<Rightarrow> bool" where
  "is_stable_id s \<longleftrightarrow> (case s of [] \<Rightarrow> False | c # r \<Rightarrow> is_alnum c \<and> length r \<le> 199
     \<and> list_all (\<lambda>c. is_alnum c \<or> among ''._:-'' c) r)"

section \<open>The profiles\<close>

definition given_text :: "pyval \<Rightarrow> pystr option" where
  "given_text v = (case v of PyStr s \<Rightarrow> Some s | _ \<Rightarrow> None)"

definition validate_profile :: "profile_value \<Rightarrow> profile result" where
  "validate_profile p =
     (case (given_text (pv_profile_id p), given_text (pv_adapter_id p), given_text (pv_endpoint_id p), given_text (pv_model_id p),
         pv_capabilities p) of
       (Some i, Some a, Some e, Some m, Some cs) \<Rightarrow>
         let caps = map (\<lambda>v. case v of PyStr s \<Rightarrow> s | _ \<Rightarrow> []) cs in
         demand (is_profile_id i \<and> a \<in> {lit ''openai_chat_completions_v1'', lit ''openai_embeddings_v1''}
             \<and> is_stable_id e \<and> 1 \<le> length m \<and> length m \<le> 200 \<and> cs \<noteq> []
             \<and> list_all (\<lambda>v. given_text v \<noteq> None) cs \<and> distinct caps)
           (demand (if a = lit ''openai_embeddings_v1'' then caps = [lit ''embedding'']
               else set caps \<subseteq> set llm_capabilities)
             (Inr \<lparr>pf_target = \<lparr>ti_profile_id = i, ti_adapter_id = a, ti_endpoint_id = e, ti_model_id = m\<rparr>,
                  pf_capabilities = caps\<rparr>))
     | _ \<Rightarrow> route_error)"

definition profile_id :: "profile \<Rightarrow> pystr" where
  "profile_id p = ti_profile_id (pf_target p)"

definition model_identity :: "target_identity \<Rightarrow> pystr \<times> pystr \<times> pystr" where
  "model_identity t = (ti_adapter_id t, ti_endpoint_id t, ti_model_id t)"

definition profile_model :: "profile \<Rightarrow> pystr \<times> pystr \<times> pystr" where
  "profile_model p = model_identity (pf_target p)"

text \<open>The loop over the profiles, with those already seen.\<close>

fun load_profiles :: "profile_value list \<Rightarrow> profile list \<Rightarrow> profile list result" where
  "load_profiles [] seen = Inr seen"
| "load_profiles (v # vs) seen = bind_result (validate_profile v) (\<lambda>p.
     demand (profile_id p \<notin> set (map profile_id seen)
         \<and> profile_model p \<notin> set (map profile_model seen))
       (load_profiles vs (seen @ [p])))"

section \<open>The operations\<close>

definition validate_operation :: "operation_value \<Rightarrow> operation result" where
  "validate_operation v =
     (case (given_text (ov_operation_id v), given_text (ov_primary_id v), ov_report_fallback v) of
       (Some i, Some p, PyBool b) \<Rightarrow>
         demand (p \<noteq> [] \<and> (case ov_fallback_id v of PyNone \<Rightarrow> True | PyStr f \<Rightarrow> f \<noteq> [] | _ \<Rightarrow> False))
           (Inr \<lparr>op_id = i, op_primary = p, op_fallback = given_text (ov_fallback_id v), op_report_fallback = b\<rparr>)
     | _ \<Rightarrow> route_error)"

fun load_operations :: "operation_value list \<Rightarrow> operation list \<Rightarrow> operation list result" where
  "load_operations [] seen = Inr seen"
| "load_operations (v # vs) seen = bind_result (validate_operation v) (\<lambda>p.
     demand (op_id p \<notin> set (map op_id seen)) (load_operations vs (seen @ [p])))"

definition find_profile :: "profile list \<Rightarrow> pystr \<Rightarrow> profile option" where
  "find_profile ps i = List.find (\<lambda>p. profile_id p = i) ps"

definition fallback_allowed :: "operation \<Rightarrow> bool" where
  "fallback_allowed p \<longleftrightarrow>
     (if op_id p \<in> set mandatory_fallback then op_fallback p \<noteq> None \<and> \<not> op_report_fallback p
      else if op_id p = lit ''report_draft'' then op_report_fallback p = (op_fallback p \<noteq> None)
      else op_fallback p = None \<and> \<not> op_report_fallback p)"

text \<open>One turn of the last loop: an operation with its profiles.\<close>

definition resolve_operation :: "profile list \<Rightarrow> operation \<Rightarrow> (resolved_operation \<times> pystr list) result" where
  "resolve_operation ps p =
     demand (fallback_allowed p \<and> op_fallback p \<noteq> Some (op_primary p))
       (case find_profile ps (op_primary p) of
          None \<Rightarrow> route_error
        | Some primary \<Rightarrow>
          let capability = required_capability (op_id p) in
          (case op_fallback p of
             None \<Rightarrow> demand (capability \<in> set (pf_capabilities primary))
               (Inr (\<lparr>ro_operation = op_id p, ro_primary = pf_target primary, ro_fallback = None\<rparr>, [profile_id primary]))
           | Some i \<Rightarrow> (case find_profile ps i of
               None \<Rightarrow> route_error
             | Some fallback \<Rightarrow>
                 demand (capability \<in> set (pf_capabilities primary) \<and> capability \<in> set (pf_capabilities fallback))
                   (Inr (\<lparr>ro_operation = op_id p, ro_primary = pf_target primary, ro_fallback = Some (pf_target fallback)\<rparr>,
                     [profile_id primary, profile_id fallback])))))"

text \<open>\<open>resolve_policy_operations\<close>; an element is \<open>None\<close> when it is no profile, or no operation.\<close>

definition resolve_policy_operations ::
  "profile_value option list option \<Rightarrow> operation_value option list option \<Rightarrow> resolved_operation list result" where
  "resolve_policy_operations profiles operations =
     (case (profiles, operations) of
       (Some pvs, Some ovs) \<Rightarrow>
         demand (pvs \<noteq> [] \<and> None \<notin> set pvs \<and> None \<notin> set ovs)
           (bind_result (load_profiles (map the pvs) []) (\<lambda>ps.
            bind_result (load_operations (map the ovs) []) (\<lambda>os.
            demand (set (map op_id os) = set operation_order)
              (bind_result (map_result (\<lambda>i. resolve_operation ps (the (List.find (\<lambda>p. op_id p = i) os))) operation_order) (\<lambda>rs.
               demand (set (concat (map snd rs)) = set (map profile_id ps)) (Inr (map fst rs)))))))
     | _ \<Rightarrow> route_error)"

section \<open>Resolved graphs\<close>

lemma validate_profile_ok:
  assumes "validate_profile v = Inr p"
  shows "pf_capabilities p \<noteq> [] \<and> (ti_adapter_id (pf_target p) = lit ''openai_embeddings_v1'' \<longleftrightarrow> pf_capabilities p = [lit ''embedding''])
    \<and> ti_adapter_id (pf_target p) \<in> {lit ''openai_chat_completions_v1'', lit ''openai_embeddings_v1''}"
  using assms
  by (auto simp: validate_profile_def Let_def route_error_def llm_capabilities_def split: option.splits if_splits)

lemma load_profiles_ok:
  assumes "load_profiles vs seen = Inr ps"
    "distinct (map profile_id seen)" "distinct (map profile_model seen)"
    "\<forall>p \<in> set seen. \<exists>v. validate_profile v = Inr p"
  shows "distinct (map profile_id ps) \<and> distinct (map profile_model ps)
    \<and> (\<forall>p \<in> set ps. \<exists>v. validate_profile v = Inr p)"
  using assms
proof (induction vs seen rule: load_profiles.induct)
  case (2 v vs seen)
  from "2.prems"(1) obtain p where p: "validate_profile v = Inr p" "profile_id p \<notin> set (map profile_id seen)"
    "profile_model p \<notin> set (map profile_model seen)" "load_profiles vs (seen @ [p]) = Inr ps"
    by (auto simp del: set_map)
  have "distinct (map profile_id (seen @ [p]))" "distinct (map profile_model (seen @ [p]))"
    using "2.prems"(2,3) p(2,3) by simp_all
  moreover have "\<forall>q \<in> set (seen @ [p]). \<exists>v. validate_profile v = Inr q" using "2.prems"(4) p(1) by auto
  ultimately show ?case by (rule "2.IH" [OF p(4)])
qed simp

text \<open>The values that a loaded profile and a loaded operation were read from.\<close>

definition profile_value_of :: "profile \<Rightarrow> profile_value" where
  "profile_value_of p = (let t = pf_target p in
     \<lparr>pv_profile_id = PyStr (ti_profile_id t), pv_adapter_id = PyStr (ti_adapter_id t),
      pv_endpoint_id = PyStr (ti_endpoint_id t), pv_model_id = PyStr (ti_model_id t),
      pv_capabilities = Some (map PyStr (pf_capabilities p))\<rparr>)"

definition operation_value_of :: "operation \<Rightarrow> operation_value" where
  "operation_value_of p =
     \<lparr>ov_operation_id = PyStr (op_id p), ov_primary_id = PyStr (op_primary p),
      ov_fallback_id = (case op_fallback p of None \<Rightarrow> PyNone | Some f \<Rightarrow> PyStr f),
      ov_report_fallback = PyBool (op_report_fallback p)\<rparr>"

lemma given_text_Some [simp]: "given_text v = Some s \<longleftrightarrow> v = PyStr s"
  by (cases v) (auto simp: given_text_def)

lemma given_texts:
  "list_all (\<lambda>v. given_text v \<noteq> None) cs \<Longrightarrow> map PyStr (map (\<lambda>v. case v of PyStr s \<Rightarrow> s | _ \<Rightarrow> []) cs) = cs"
  by (induction cs) (auto simp: given_text_def split: pyval.splits)

lemma validate_profile_value: "validate_profile v = Inr p \<Longrightarrow> v = profile_value_of p"
  by (cases v) (auto simp: validate_profile_def profile_value_of_def Let_def route_error_def given_texts
    simp del: map_map split: option.splits)

lemma validate_operation_value: "validate_operation v = Inr p \<Longrightarrow> v = operation_value_of p"
  by (cases v) (auto simp: validate_operation_def operation_value_of_def route_error_def given_text_def
    split: option.splits pyval.splits)

lemma load_profiles_values:
  "load_profiles vs seen = Inr ps \<Longrightarrow> \<exists>qs. ps = seen @ qs \<and> vs = map profile_value_of qs"
proof (induction vs seen rule: load_profiles.induct)
  case (2 v vs seen)
  then obtain p where p: "validate_profile v = Inr p" "load_profiles vs (seen @ [p]) = Inr ps"
    and new: "profile_id p \<notin> set (map profile_id seen)" "profile_model p \<notin> set (map profile_model seen)"
    by (auto simp del: set_map)
  then obtain qs where "ps = (seen @ [p]) @ qs" "vs = map profile_value_of qs"
    using "2.IH" by blast
  then show ?case using validate_profile_value [OF p(1)] by (intro exI [of _ "p # qs"]) simp
qed simp

lemma load_operations_values:
  "load_operations vs seen = Inr ps \<Longrightarrow> distinct (map op_id seen)
     \<Longrightarrow> distinct (map op_id ps) \<and> (\<exists>qs. ps = seen @ qs \<and> vs = map operation_value_of qs)"
proof (induction vs seen rule: load_operations.induct)
  case (2 v vs seen)
  then obtain p where p: "validate_operation v = Inr p" "load_operations vs (seen @ [p]) = Inr ps"
    and new: "op_id p \<notin> set (map op_id seen)"
    by (auto simp del: set_map)
  have "distinct (map op_id (seen @ [p]))" using new "2.prems"(2) by simp
  from "2.IH" [OF p(2) this] obtain qs
    where "distinct (map op_id ps)" "ps = (seen @ [p]) @ qs" "vs = map operation_value_of qs"
    by blast
  then show ?case using validate_operation_value [OF p(1)] by (intro conjI exI [of _ "p # qs"]) simp_all
qed simp

lemma find_profile_ok: "find_profile ps i = Some p \<Longrightarrow> p \<in> set ps \<and> profile_id p = i"
  by (auto simp: find_profile_def find_Some_iff)

text \<open>What one resolved operation satisfies.\<close>

definition well_routed :: "profile list \<Rightarrow> resolved_operation \<Rightarrow> bool" where
  "well_routed ps r \<longleftrightarrow>
     (\<exists>p \<in> set ps. ro_primary r = pf_target p \<and> required_capability (ro_operation r) \<in> set (pf_capabilities p))
     \<and> (case ro_fallback r of
         None \<Rightarrow> ro_operation r \<notin> set mandatory_fallback
       | Some t \<Rightarrow> ro_operation r \<noteq> lit ''embedding'' \<and> model_identity t \<noteq> model_identity (ro_primary r)
           \<and> (\<exists>p \<in> set ps. t = pf_target p \<and> required_capability (ro_operation r) \<in> set (pf_capabilities p)))"

text \<open>An operation keeps the profiles its row names: the primary one as primary, the other as fallback.\<close>

definition routed_as :: "operation \<Rightarrow> resolved_operation \<Rightarrow> bool" where
  "routed_as p r \<longleftrightarrow> ro_operation r = op_id p \<and> ti_profile_id (ro_primary r) = op_primary p
     \<and> map_option ti_profile_id (ro_fallback r) = op_fallback p
     \<and> (op_report_fallback p \<longleftrightarrow> op_id p = lit ''report_draft'' \<and> ro_fallback r \<noteq> None)"

lemma resolve_operation_ok:
  assumes "resolve_operation ps p = Inr (r, used)" "distinct (map profile_id ps)"
    "distinct (map profile_model ps)"
  shows "routed_as p r \<and> well_routed ps r
    \<and> set used = insert (ti_profile_id (ro_primary r)) (ti_profile_id ` set_option (ro_fallback r))"
proof -
  obtain primary where primary: "find_profile ps (op_primary p) = Some primary"
    using assms(1) by (auto simp: resolve_operation_def route_error_def split: option.splits)
  note in_ps = find_profile_ok [OF primary]
  have other: "model_identity (pf_target q) \<noteq> model_identity (pf_target primary)"
    if "q \<in> set ps" "profile_id q \<noteq> profile_id primary" for q
    using assms(3) that in_ps by (auto simp: distinct_map inj_on_def profile_model_def)
  have embedding: "lit ''embedding'' \<notin> set mandatory_fallback" "lit ''embedding'' \<noteq> lit ''report_draft''"
    by (simp_all add: mandatory_fallback_def)
  show ?thesis
  proof (cases "op_fallback p")
    case None
    then show ?thesis using assms(1) primary in_ps
      by (auto simp: resolve_operation_def Let_def well_routed_def routed_as_def profile_id_def fallback_allowed_def
        mandatory_fallback_def split: if_splits)
  next
    case (Some i)
    then obtain fallback where fallback: "find_profile ps i = Some fallback"
      using assms(1) primary by (auto simp: resolve_operation_def Let_def route_error_def split: option.splits)
    note in_ps' = find_profile_ok [OF fallback]
    show ?thesis using assms(1) primary fallback Some in_ps in_ps' other [of fallback] embedding
      by (auto simp: resolve_operation_def Let_def well_routed_def routed_as_def profile_id_def fallback_allowed_def
        mandatory_fallback_def split: if_splits)
  qed
qed

lemma map_result_order:
  assumes "map_result f xs = Inr ys" "\<And>x y. x \<in> set xs \<Longrightarrow> f x = Inr y \<Longrightarrow> P x y"
  shows "list_all2 P xs ys"
  using assms(1) assms(2) unfolding map_result_ok by (auto simp: list_all2_conv_all_nth)

lemma list_all2_map_fst: "list_all2 (\<lambda>x y. g y = x) xs ys \<Longrightarrow> map g ys = xs"
  by (induction rule: list_all2_induct) simp_all

lemma list_all2_second: "list_all2 P xs ys \<Longrightarrow> (\<And>x y. P x y \<Longrightarrow> Q y) \<Longrightarrow> \<forall>y \<in> set ys. Q y"
  by (induction rule: list_all2_induct) auto

lemma find_in: "x \<in> set xs \<Longrightarrow> P x \<Longrightarrow> \<exists>y. List.find P xs = Some y \<and> P y"
  by (cases "List.find P xs") (auto simp: find_None_iff find_Some_iff)

text \<open>C36. A route graph that is accepted keeps what its rows say: the profiles and the operations are read field by
  field, each resolved operation has the profile its row names as primary as its primary target and the one it
  names as fallback, if any, as its fallback, and the six operations come out in the fixed order. Extraction, answers
  and risk explanations always have a fallback, report drafts exactly when their row asks for one, embeddings never;
  a fallback differs from the primary in adapter, endpoint or model. Every target has the capability its operation
  needs; no two profiles share a name, or adapter, endpoint and model; and every profile is used.\<close>

theorem resolved_graph:
  assumes "resolve_policy_operations (Some pvs) (Some ovs) = Inr rs"
  shows "\<exists>ps xs. load_profiles (map the pvs) [] = Inr ps \<and> map the pvs = map profile_value_of ps
     \<and> load_operations (map the ovs) [] = Inr xs \<and> map the ovs = map operation_value_of xs
     \<and> distinct (map profile_id ps) \<and> distinct (map profile_model ps) \<and> distinct (map op_id xs)
     \<and> map ro_operation rs = operation_order \<and> list_all (well_routed ps) rs
     \<and> (\<forall>r \<in> set rs. \<exists>p \<in> set xs. routed_as p r)
     \<and> (\<Union>r \<in> set rs. insert (ti_profile_id (ro_primary r)) (ti_profile_id ` set_option (ro_fallback r)))
         = set (map profile_id ps)"
proof -
  from assms [unfolded resolve_policy_operations_def] obtain ps xs turns where
    ps: "load_profiles (map the pvs) [] = Inr ps" and ops: "load_operations (map the ovs) [] = Inr xs"
    and xs: "set (map op_id xs) = set operation_order"
    and turns: "map_result (\<lambda>i. resolve_operation ps (the (List.find (\<lambda>p. op_id p = i) xs))) operation_order = Inr turns"
    and used: "set (concat (map snd turns)) = set (map profile_id ps)" and rs: "rs = map fst turns"
    by auto
  have loaded: "distinct (map profile_id ps)" "distinct (map profile_model ps)"
    using load_profiles_ok [OF ps] by simp_all
  have read: "map the pvs = map profile_value_of ps" "map the ovs = map operation_value_of xs"
    "distinct (map op_id xs)"
    using load_profiles_values [OF ps] load_operations_values [OF ops] by auto
  let ?good = "\<lambda>i y. ro_operation (fst y) = i \<and> well_routed ps (fst y) \<and> (\<exists>p \<in> set xs. routed_as p (fst y))
      \<and> set (snd y) = insert (ti_profile_id (ro_primary (fst y))) (ti_profile_id ` set_option (ro_fallback (fst y)))"
  have each: "?good i y"
    if "i \<in> set operation_order" "resolve_operation ps (the (List.find (\<lambda>p. op_id p = i) xs)) = Inr y" for i y
  proof -
    have "i \<in> op_id ` set xs" using xs that(1) by simp
    then obtain p where p: "List.find (\<lambda>p. op_id p = i) xs = Some p" "op_id p = i"
      using find_in [of _ xs "\<lambda>p. op_id p = i"] by fastforce
    then have "p \<in> set xs" by (auto simp: find_Some_iff)
    moreover have "resolve_operation ps p = Inr (fst y, snd y)" using that(2) p by simp
    from resolve_operation_ok [OF this loaded] have "routed_as p (fst y)" "well_routed ps (fst y)"
      "set (snd y) = insert (ti_profile_id (ro_primary (fst y))) (ti_profile_id ` set_option (ro_fallback (fst y)))"
      by simp_all
    ultimately show ?thesis using p(2) by (auto simp: routed_as_def)
  qed
  have all: "list_all2 ?good operation_order turns" using turns by (rule map_result_order) (rule each)
  have "map ro_operation rs = operation_order"
    using list_all2_map_fst [OF list_all2_mono [OF all, of "\<lambda>i y. ro_operation (fst y) = i"]] by (simp add: rs comp_def)
  moreover have facts: "\<forall>y \<in> set turns. well_routed ps (fst y) \<and> (\<exists>p \<in> set xs. routed_as p (fst y))
      \<and> set (snd y) = insert (ti_profile_id (ro_primary (fst y))) (ti_profile_id ` set_option (ro_fallback (fst y)))"
    using all by (rule list_all2_second) blast
  moreover have "(\<Union>r \<in> set rs. insert (ti_profile_id (ro_primary r)) (ti_profile_id ` set_option (ro_fallback r)))
      = set (map profile_id ps)"
    using facts used by (simp add: rs)
  moreover have "list_all (well_routed ps) rs" "\<forall>r \<in> set rs. \<exists>p \<in> set xs. routed_as p r"
    using facts by (simp_all add: rs list_all_iff)
  ultimately show ?thesis using ps ops loaded read by blast
qed

text \<open>A policy with one model per capability and one fallback.\<close>

definition sample_profile :: "string \<Rightarrow> string \<Rightarrow> string \<Rightarrow> string list \<Rightarrow> profile_value" where
  "sample_profile name adapter model caps = \<lparr>pv_profile_id = PyStr (lit name), pv_adapter_id = PyStr (lit adapter),
     pv_endpoint_id = PyStr (lit ''e1''), pv_model_id = PyStr (lit model),
     pv_capabilities = Some (map (\<lambda>c. PyStr (lit c)) caps)\<rparr>"

definition sample_profiles :: "profile_value option list" where
  "sample_profiles = map Some
     [sample_profile ''main'' ''openai_chat_completions_v1'' ''m1'' [''llm_extraction'', ''llm_generation''],
      sample_profile ''spare'' ''openai_chat_completions_v1'' ''m2'' [''llm_generation'', ''llm_extraction''],
      sample_profile ''vectors'' ''openai_embeddings_v1'' ''m3'' [''embedding'']]"

definition sample_operations :: "operation_value option list" where
  "sample_operations = map (\<lambda>(i, p, f). Some \<lparr>ov_operation_id = PyStr (lit i), ov_primary_id = PyStr (lit p),
       ov_fallback_id = f, ov_report_fallback = PyBool False\<rparr>)
     [(''rag_answer'', ''main'', PyStr (lit ''spare'')), (''embedding'', ''vectors'', PyNone),
      (''report_draft'', ''main'', PyNone), (''risk_explanation'', ''spare'', PyStr (lit ''main'')),
      (''contract_field_extraction'', ''main'', PyStr (lit ''spare'')),
      (''invoice_field_extraction'', ''main'', PyStr (lit ''spare''))]"

lemma sample_resolved: "is_ok (resolve_policy_operations (Some sample_profiles) (Some sample_operations))"
  by code_simp

lemma sample_resolved_rag:
  "map_option (\<lambda>r. (ti_profile_id (ro_primary r), map_option ti_profile_id (ro_fallback r)))
     (case resolve_policy_operations (Some sample_profiles) (Some sample_operations) of
        Inl _ \<Rightarrow> None | Inr rs \<Rightarrow> List.find (\<lambda>r. ro_operation r = lit ''rag_answer'') rs)
   = Some (lit ''main'', Some (lit ''spare''))"
  by code_simp

lemma resolved_graph_witness:
  "\<exists>ps xs rs. load_profiles (map the sample_profiles) [] = Inr ps \<and> list_all (well_routed ps) rs
     \<and> load_operations (map the sample_operations) [] = Inr xs \<and> (\<forall>r \<in> set rs. \<exists>p \<in> set xs. routed_as p r)
     \<and> map ro_operation rs = operation_order
     \<and> (\<exists>r \<in> set rs. ti_profile_id (ro_primary r) = lit ''main'' \<and> map_option ti_profile_id (ro_fallback r) = Some (lit ''spare''))"
proof -
  obtain rs where rs: "resolve_policy_operations (Some sample_profiles) (Some sample_operations) = Inr rs"
    using sample_resolved by (auto simp: is_ok_iff)
  have "\<exists>r \<in> set rs. ti_profile_id (ro_primary r) = lit ''main'' \<and> map_option ti_profile_id (ro_fallback r) = Some (lit ''spare'')"
    using sample_resolved_rag
    by (auto simp: rs find_Some_iff simp del: map_option_eq_Some) (metis nth_mem option.simps(9))
  with resolved_graph [OF rs] show ?thesis by blast
qed

end
