(* ===== verification/AiCallSink.thy ===== *)
theory AiCallSink
  imports AiCallAuditProperties
begin

text \<open>
  \<open>services/ai_call_audit.py\<close> and \<open>services/ai_call_event_sink.py\<close>: the transactions around the call audit and the
  event sink that turns what they report into permits of the current process. A send permit lets the process
  call the provider once, an adoption permit lets it use the answer once. The sink of one process runs beside
  the transactions of all the others; a commit may fail, or succeed without the process learning it.
\<close>

section \<open>The transactions\<close>

text \<open>What becomes of a transaction at its commit: it is committed, committed but the reply is lost, or lost.\<close>

datatype commit_fate = Commits | ReplyLost | CommitFails

record transaction_env =
  tx_fate :: commit_fate
  tx_row_id :: uuid
  tx_time :: time
  tx_monotonic :: "rat option"

text \<open>\<open>with session_factory.begin()\<close> under \<open>except DBAPIError\<close>: a database error, of the commit too, is answered
  with the st unknown, any other exception rolls back and escapes.\<close>

definition in_transaction :: "commit_fate \<Rightarrow> 'a \<Rightarrow> ('a \<times> 'w) result \<Rightarrow> 'w \<Rightarrow> 'a result \<times> 'w" where
  "in_transaction fate unknown r db = (case r of
     Inl (DbError _ _) \<Rightarrow> (Inr unknown, db)
   | Inl e \<Rightarrow> (Inl e, db)
   | Inr (x, db') \<Rightarrow> (case fate of
       Commits \<Rightarrow> (Inr x, db') | ReplyLost \<Rightarrow> (Inr unknown, db') | CommitFails \<Rightarrow> (Inr unknown, db)))"

record reserve_context =
  ctx_limits :: audit_limits
  ctx_deadline :: rat
  ctx_minimum :: rat

text \<open>\<open>AiCallReserveContext\<close>; \<open>None\<close> stands for a number that is not finite or no number.\<close>

definition new_reserve_context :: "audit_limits \<Rightarrow> rat option \<Rightarrow> rat option \<Rightarrow> reserve_context result" where
  "new_reserve_context limits deadline minimum =
     (case (deadline, minimum) of
        (None, _) \<Rightarrow> Inl (ValueError ''deadline_monotonic must be finite'')
      | (_, None) \<Rightarrow> Inl (ValueError ''minimum_attempt_seconds must be finite'')
      | (Some d, Some m) \<Rightarrow>
          if m < 0 then Inl (ValueError ''minimum_attempt_seconds must be non-negative'')
          else Inr \<lparr>ctx_limits = limits, ctx_deadline = d, ctx_minimum = m\<rparr>)"

text \<open>\<open>AiCallAuditService.reserve_attempt\<close> and \<open>complete_attempt\<close>.\<close>

definition service_reserve ::
  "transaction_env \<Rightarrow> ai_call_event \<Rightarrow> reserve_context \<Rightarrow> audit_rows \<Rightarrow> reserve_status result \<times> audit_rows" where
  "service_reserve v e ctx db = in_transaction (tx_fate v) RESERVE_UNKNOWN
     (reserve_attempt (tx_row_id v) (tx_time v) (Some (ctx_deadline ctx)) (Some (ctx_minimum ctx)) (tx_monotonic v)
        e (ctx_limits ctx) db) db"

definition service_complete ::
  "transaction_env \<Rightarrow> ai_call_event \<Rightarrow> audit_rows \<Rightarrow> complete_status result \<times> audit_rows" where
  "service_complete v e db = in_transaction (tx_fate v) COMPLETE_UNKNOWN
     (append_completion (tx_row_id v) (tx_time v) e db) db"

text \<open>\<open>TransactionalAiCallCompletionWriter.complete_attempt\<close>: the transaction is the caller's, so a database
  error is the caller's too.\<close>

definition joined_complete ::
  "transaction_env \<Rightarrow> ai_call_event \<Rightarrow> audit_rows \<Rightarrow> complete_status result \<times> audit_rows" where
  "joined_complete v e db = (case append_completion (tx_row_id v) (tx_time v) e db of
     Inl x \<Rightarrow> (Inl x, db) | Inr (st, db') \<Rightarrow> (Inr st, db'))"

section \<open>The sink\<close>

text \<open>\<open>SinkEvent\<close>: the event validated again from its payload.\<close>

definition new_sink_event :: "ai_call_event \<Rightarrow> ai_call_event result" where
  "new_sink_event e = bind_result (strict_event_view e) (\<lambda>(_, payload). validate_ai_call_event payload)"

fun event_status_of :: "ai_call_event \<Rightarrow> call_status" where
  "event_status_of (Started s) = CALL_PENDING"
| "event_status_of (Completed c) = co_status c"
| "event_status_of (Late l) = la_status l"

abbreviation event_id_of :: "ai_call_event \<Rightarrow> uuid" where
  "event_id_of e \<equiv> cc_event_id (event_call e)"

text \<open>A scope token is an object: two tokens are the same when their number and owner are. The owner stands
  for the sink's \<open>object()\<close>.\<close>

record call_scope =
  scope_no :: nat
  scope_event_id :: uuid
  scope_generation :: int
  scope_owner :: nat

record sink_permit =
  pm_scope :: call_scope
  pm_consumed :: bool

record event_sink =
  sk_owner :: nat
  sk_generation :: int
  sk_scopes :: nat
  sk_contexts :: "call_scope \<rightharpoonup> reserve_context"
  sk_sent :: "uuid \<rightharpoonup> call_scope"
  sk_adopted :: "uuid \<rightharpoonup> call_scope"
  sk_reserve_unknown :: "call_scope set"
  sk_complete_unknown :: "(call_scope \<times> uuid \<times> string) set"

definition new_event_sink :: "nat \<Rightarrow> event_sink" where
  "new_event_sink owner = \<lparr>sk_owner = owner, sk_generation = 0, sk_scopes = 0, sk_contexts = Map.empty,
     sk_sent = Map.empty, sk_adopted = Map.empty, sk_reserve_unknown = {}, sk_complete_unknown = {}\<rparr>"

definition permit_error :: "string \<Rightarrow> 'a result" where
  "permit_error code = Inl (DomainError code)"

text \<open>\<open>create_call_scope\<close>; the factory of reserve contexts is the caller's.\<close>

definition create_call_scope ::
  "(ai_call_event \<Rightarrow> reserve_context result) \<Rightarrow> ai_call_event \<Rightarrow> event_sink \<Rightarrow> call_scope result \<times> event_sink" where
  "create_call_scope factory event sk =
     (case validate_ai_call_event (event_payload event) of
        Inl e \<Rightarrow> (Inl e, sk)
      | Inr dto \<Rightarrow>
          let scope = \<lparr>scope_no = sk_scopes sk, scope_event_id = event_id_of event,
                scope_generation = sk_generation sk, scope_owner = sk_owner sk\<rparr>;
              sk1 = sk\<lparr>sk_scopes := sk_scopes sk + 1\<rparr>
          in (case dto of
            Started _ \<Rightarrow> (case factory dto of
                Inl e \<Rightarrow> (Inl e, sk1)
              | Inr ctx \<Rightarrow> (Inr scope, sk1\<lparr>sk_contexts := (sk_contexts sk1)(scope \<mapsto> ctx)\<rparr>))
          | _ \<Rightarrow> (Inr scope, sk1)))"

definition validate_scope :: "event_sink \<Rightarrow> ai_call_event \<Rightarrow> call_scope \<Rightarrow> unit result" where
  "validate_scope sk event scope =
     (if scope_owner scope \<noteq> sk_owner sk then permit_error ''CALL_SCOPE_NOT_OWNED''
      else if scope_generation scope \<noteq> sk_generation sk then permit_error ''CALL_SCOPE_EXPIRED''
      else if scope_event_id scope \<noteq> event_id_of event then permit_error ''CALL_SCOPE_EVENT_MISMATCH''
      else Inr ())"

subsection \<open>Send permits\<close>

definition issue_send_permit :: "call_scope \<Rightarrow> event_sink \<Rightarrow> sink_permit result" where
  "issue_send_permit scope sk =
     (if sk_sent sk (scope_event_id scope) \<noteq> None then Inl (DomainError ''AI_AUDIT_SEND_STATE_CONFLICT'')
      else Inr \<lparr>pm_scope = scope, pm_consumed = False\<rparr>)"

definition recover_send_permit :: "call_scope \<Rightarrow> event_sink \<Rightarrow> sink_permit option result \<times> event_sink" where
  "recover_send_permit scope sk =
     (if scope \<notin> sk_reserve_unknown sk then (Inr None, sk)
      else let sk' = sk\<lparr>sk_reserve_unknown := sk_reserve_unknown sk - {scope}\<rparr> in
        if sk_sent sk (scope_event_id scope) \<noteq> None then (Inr None, sk')
        else (bind_result (issue_send_permit scope sk') (\<lambda>p. Inr (Some p)), sk'))"

text \<open>\<open>ReserveAttemptDecision.__post_init__\<close>.\<close>

definition new_reserve_decision :: "reserve_status \<Rightarrow> sink_permit option \<Rightarrow> (reserve_status \<times> sink_permit option) result" where
  "new_reserve_decision st p =
     (if st = RESERVED_NEW \<and> p = None then Inl (ValueError ''reserved_new requires a SendPermit'')
      else if p \<noteq> None \<and> st \<notin> {RESERVED_NEW, RESERVE_REPLAYED}
      then Inl (ValueError ''reserve result does not allow a SendPermit'')
      else Inr (st, p))"

definition settle_reserve ::
  "ai_call_event \<Rightarrow> call_scope \<Rightarrow> reserve_status \<Rightarrow> event_sink
   \<Rightarrow> (reserve_status \<times> sink_permit option) result \<times> event_sink" where
  "settle_reserve event scope st sk =
     (let cleared = sk\<lparr>sk_reserve_unknown := sk_reserve_unknown sk - {scope}\<rparr> in
      if st = RESERVE_UNKNOWN
      then (new_reserve_decision st None,
            if sk_sent sk (event_id_of event) = None
            then sk\<lparr>sk_reserve_unknown := insert scope (sk_reserve_unknown sk)\<rparr> else sk)
      else if st = RESERVED_NEW
      then (bind_result (issue_send_permit scope cleared) (\<lambda>p. new_reserve_decision st (Some p)), cleared)
      else if st = RESERVE_REPLAYED
      then (case recover_send_permit scope sk of (r, sk') \<Rightarrow>
              (bind_result r (\<lambda>p. new_reserve_decision st p), sk'))
      else (new_reserve_decision st None, cleared))"

text \<open>\<open>reserve_attempt_sync\<close>. The writer is the injected service with the state \<open>w\<close> it works on.\<close>

definition reserve_attempt_sync ::
  "(ai_call_event \<Rightarrow> reserve_context \<Rightarrow> 'w \<Rightarrow> reserve_status result \<times> 'w)
   \<Rightarrow> ai_call_event \<Rightarrow> call_scope \<Rightarrow> event_sink \<Rightarrow> 'w
   \<Rightarrow> (reserve_status \<times> sink_permit option) result \<times> event_sink \<times> 'w" where
  "reserve_attempt_sync writer event scope sk w =
     (case bind_result (validate_scope sk event scope) (\<lambda>_.
           bind_result (validate_ai_call_event (event_payload event)) (\<lambda>dto. case dto of
             Started _ \<Rightarrow> (case sk_contexts sk scope of
                 None \<Rightarrow> permit_error ''CALL_SCOPE_RESERVE_CONTEXT_MISSING''
               | Some ctx \<Rightarrow> Inr (dto, ctx))
           | _ \<Rightarrow> Inl (ValueError ''reserve_attempt requires ai.call.started''))) of
        Inl e \<Rightarrow> (Inl e, sk, w)
      | Inr (dto, ctx) \<Rightarrow> (case writer dto ctx w of
            (Inl e, w') \<Rightarrow> (Inl e, sk, w')
          | (Inr st, w') \<Rightarrow> (case settle_reserve event scope st sk of (d, sk') \<Rightarrow> (d, sk', w'))))"

subsection \<open>Adoption permits\<close>

definition completion_can_be_adopted :: "ai_call_event \<Rightarrow> call_scope \<Rightarrow> event_sink \<Rightarrow> bool" where
  "completion_can_be_adopted event scope sk \<longleftrightarrow>
     event_type_of event = ''ai.call.completed'' \<and> event_status_of event \<noteq> CALL_OUTCOME_UNKNOWN
     \<and> sk_sent sk (event_id_of event) = Some scope \<and> sk_adopted sk (event_id_of event) = None"

definition issue_adopt_permit :: "ai_call_event \<Rightarrow> call_scope \<Rightarrow> event_sink \<Rightarrow> sink_permit option" where
  "issue_adopt_permit event scope sk =
     (if completion_can_be_adopted event scope sk then Some \<lparr>pm_scope = scope, pm_consumed = False\<rparr> else None)"

definition recovery_key :: "ai_call_event \<Rightarrow> call_scope \<Rightarrow> call_scope \<times> uuid \<times> string" where
  "recovery_key event scope = (scope, event_id_of event, event_type_of event)"

definition recover_adopt_permit :: "ai_call_event \<Rightarrow> call_scope \<Rightarrow> event_sink \<Rightarrow> sink_permit option \<times> event_sink" where
  "recover_adopt_permit event scope sk =
     (if recovery_key event scope \<notin> sk_complete_unknown sk then (None, sk)
      else let sk' = sk\<lparr>sk_complete_unknown := sk_complete_unknown sk - {recovery_key event scope}\<rparr>
        in (issue_adopt_permit event scope sk', sk'))"

definition new_complete_decision :: "complete_status \<Rightarrow> sink_permit option \<Rightarrow> (complete_status \<times> sink_permit option) result" where
  "new_complete_decision st p =
     (if p \<noteq> None \<and> st \<notin> {COMPLETED_NEW, COMPLETE_REPLAYED}
      then Inl (ValueError ''complete result does not allow an AdoptPermit'')
      else Inr (st, p))"

text \<open>\<open>_complete_with_writer\<close> once the writer has answered.\<close>

definition settle_complete ::
  "ai_call_event \<Rightarrow> call_scope \<Rightarrow> complete_status \<Rightarrow> event_sink
   \<Rightarrow> (complete_status \<times> sink_permit option) result \<times> event_sink" where
  "settle_complete event scope st sk =
     (let cleared = sk\<lparr>sk_complete_unknown := sk_complete_unknown sk - {recovery_key event scope}\<rparr> in
      if st = COMPLETE_UNKNOWN
      then (new_complete_decision st None,
            if completion_can_be_adopted event scope sk
            then sk\<lparr>sk_complete_unknown := insert (recovery_key event scope) (sk_complete_unknown sk)\<rparr> else sk)
      else if st = COMPLETED_NEW
      then (new_complete_decision st (issue_adopt_permit event scope cleared), cleared)
      else if st = COMPLETE_REPLAYED
      then (case recover_adopt_permit event scope sk of (p, sk') \<Rightarrow> (new_complete_decision st p, sk'))
      else (new_complete_decision st None, cleared))"

text \<open>\<open>complete_attempt_sync\<close>, and \<open>complete_attempt_in_transaction_sync\<close> with the writer of the caller.\<close>

definition complete_attempt_sync ::
  "(ai_call_event \<Rightarrow> 'w \<Rightarrow> complete_status result \<times> 'w)
   \<Rightarrow> ai_call_event \<Rightarrow> call_scope \<Rightarrow> event_sink \<Rightarrow> 'w
   \<Rightarrow> (complete_status \<times> sink_permit option) result \<times> event_sink \<times> 'w" where
  "complete_attempt_sync writer event scope sk w =
     (case bind_result (validate_scope sk event scope) (\<lambda>_.
           bind_result (validate_ai_call_event (event_payload event)) (\<lambda>dto. case dto of
             Started _ \<Rightarrow> Inl (ValueError ''complete_attempt requires completed or late event'')
           | _ \<Rightarrow> Inr dto)) of
        Inl e \<Rightarrow> (Inl e, sk, w)
      | Inr dto \<Rightarrow> (case writer dto w of
            (Inl e, w') \<Rightarrow> (Inl e, sk, w')
          | (Inr st, w') \<Rightarrow> (case settle_complete event scope st sk of (d, sk') \<Rightarrow> (d, sk', w'))))"

subsection \<open>Using a permit\<close>

text \<open>\<open>_SingleUsePermit.consume\<close>: the permit is used up before the sink is asked.\<close>

definition consume ::
  "string \<Rightarrow> (call_scope \<Rightarrow> event_sink \<Rightarrow> event_sink result) \<Rightarrow> sink_permit \<Rightarrow> event_sink
   \<Rightarrow> unit result \<times> sink_permit \<times> event_sink" where
  "consume used callback p sk =
     (if pm_consumed p then (permit_error used, p, sk)
      else (case callback (pm_scope p) sk of
          Inl e \<Rightarrow> (Inl e, p\<lparr>pm_consumed := True\<rparr>, sk)
        | Inr sk' \<Rightarrow> (Inr (), p\<lparr>pm_consumed := True\<rparr>, sk')))"

definition consume_send :: "call_scope \<Rightarrow> event_sink \<Rightarrow> event_sink result" where
  "consume_send scope sk =
     (if scope_owner scope \<noteq> sk_owner sk \<or> scope_generation scope \<noteq> sk_generation sk
      then permit_error ''SEND_PERMIT_SCOPE_EXPIRED''
      else if sk_sent sk (scope_event_id scope) \<noteq> None then permit_error ''SEND_ALREADY_RECORDED''
      else Inr (sk\<lparr>sk_sent := (sk_sent sk)(scope_event_id scope \<mapsto> scope)\<rparr>))"

definition consume_adopt :: "call_scope \<Rightarrow> event_sink \<Rightarrow> event_sink result" where
  "consume_adopt scope sk =
     (if scope_owner scope \<noteq> sk_owner sk \<or> scope_generation scope \<noteq> sk_generation sk
      then permit_error ''ADOPT_PERMIT_SCOPE_EXPIRED''
      else if sk_sent sk (scope_event_id scope) \<noteq> Some scope then permit_error ''SEND_PERMIT_NOT_CONSUMED''
      else if sk_adopted sk (scope_event_id scope) \<noteq> None then permit_error ''AI_RESULT_ALREADY_ADOPTED''
      else Inr (sk\<lparr>sk_adopted := (sk_adopted sk)(scope_event_id scope \<mapsto> scope)\<rparr>))"

abbreviation use_send_permit :: "sink_permit \<Rightarrow> event_sink \<Rightarrow> unit result \<times> sink_permit \<times> event_sink" where
  "use_send_permit \<equiv> consume ''SEND_PERMIT_ALREADY_CONSUMED'' consume_send"

abbreviation use_adopt_permit :: "sink_permit \<Rightarrow> event_sink \<Rightarrow> unit result \<times> sink_permit \<times> event_sink" where
  "use_adopt_permit \<equiv> consume ''ADOPT_PERMIT_ALREADY_CONSUMED'' consume_adopt"

end
