(* ===== verification/AiCallSinkProperties.thy ===== *)
theory AiCallSinkProperties
  imports AiCallSink
begin

text \<open>
  Histories of one process and its event sink among the transactions of all the others: what may be sent to the
  provider, and what may be adopted.
\<close>

section \<open>Histories of a sink\<close>

record 'w sink_world =
  wd_store :: 'w
  wd_sink :: event_sink
  wd_scopes :: "call_scope list"
  wd_send_permits :: "sink_permit list"
  wd_adopt_permits :: "sink_permit list"
  wd_sends :: "uuid list"
  wd_adoptions :: "uuid list"

text \<open>What the process may do, in any order and with any scope or permit it was given. A completion written
  inside a transaction of the caller may be rolled back with it.\<close>

datatype ('v, 'o) sink_action =
    OpenScope ai_call_event "reserve_context result"
  | ReserveCall nat ai_call_event 'v
  | CompleteCall nat ai_call_event 'v
  | CompleteInside nat ai_call_event 'v bool
  | UseSend nat
  | UseAdopt nat
  | Elsewhere 'o

definition add_permit :: "sink_permit option \<Rightarrow> sink_permit list \<Rightarrow> sink_permit list" where
  "add_permit p ps = (case p of None \<Rightarrow> ps | Some x \<Rightarrow> ps @ [x])"

definition permit_of :: "('a \<times> sink_permit option) result \<Rightarrow> sink_permit option" where
  "permit_of r = (case r of Inl _ \<Rightarrow> None | Inr (_, p) \<Rightarrow> p)"

fun sink_step ::
  "('v \<Rightarrow> ai_call_event \<Rightarrow> reserve_context \<Rightarrow> 'w \<Rightarrow> reserve_status result \<times> 'w)
   \<Rightarrow> ('v \<Rightarrow> ai_call_event \<Rightarrow> 'w \<Rightarrow> complete_status result \<times> 'w)
   \<Rightarrow> ('v \<Rightarrow> ai_call_event \<Rightarrow> 'w \<Rightarrow> complete_status result \<times> 'w)
   \<Rightarrow> ('o \<Rightarrow> 'w \<Rightarrow> 'w) \<Rightarrow> ('v, 'o) sink_action \<Rightarrow> 'w sink_world \<Rightarrow> 'w sink_world" where
  "sink_step reserve closing joined other (OpenScope e ctx) s =
     (case new_sink_event e of Inl _ \<Rightarrow> s | Inr event \<Rightarrow>
       (case create_call_scope (\<lambda>_. ctx) event (wd_sink s) of
          (Inl _, sk) \<Rightarrow> s\<lparr>wd_sink := sk\<rparr>
        | (Inr scope, sk) \<Rightarrow> s\<lparr>wd_sink := sk, wd_scopes := wd_scopes s @ [scope]\<rparr>))"
| "sink_step reserve closing joined other (ReserveCall n e v) s =
     (case new_sink_event e of Inl _ \<Rightarrow> s | Inr event \<Rightarrow>
       if length (wd_scopes s) \<le> n then s
       else (case reserve_attempt_sync (reserve v) event (wd_scopes s ! n) (wd_sink s) (wd_store s) of (d, sk, w) \<Rightarrow>
         s\<lparr>wd_store := w, wd_sink := sk, wd_send_permits := add_permit (permit_of d) (wd_send_permits s)\<rparr>))"
| "sink_step reserve closing joined other (CompleteCall n e v) s =
     (case new_sink_event e of Inl _ \<Rightarrow> s | Inr event \<Rightarrow>
       if length (wd_scopes s) \<le> n then s
       else (case complete_attempt_sync (closing v) event (wd_scopes s ! n) (wd_sink s) (wd_store s) of (d, sk, w) \<Rightarrow>
         s\<lparr>wd_store := w, wd_sink := sk, wd_adopt_permits := add_permit (permit_of d) (wd_adopt_permits s)\<rparr>))"
| "sink_step reserve closing joined other (CompleteInside n e v commits) s =
     (case new_sink_event e of Inl _ \<Rightarrow> s | Inr event \<Rightarrow>
       if length (wd_scopes s) \<le> n then s
       else (case complete_attempt_sync (joined v) event (wd_scopes s ! n) (wd_sink s) (wd_store s) of (d, sk, w) \<Rightarrow>
         s\<lparr>wd_store := if commits then w else wd_store s, wd_sink := sk,
            wd_adopt_permits := add_permit (permit_of d) (wd_adopt_permits s)\<rparr>))"
| "sink_step reserve closing joined other (UseSend n) s =
     (if length (wd_send_permits s) \<le> n then s
      else (case use_send_permit (wd_send_permits s ! n) (wd_sink s) of (r, p, sk) \<Rightarrow>
        s\<lparr>wd_sink := sk, wd_send_permits := (wd_send_permits s)[n := p],
           wd_sends := (if is_ok r then wd_sends s @ [scope_event_id (pm_scope p)] else wd_sends s)\<rparr>))"
| "sink_step reserve closing joined other (UseAdopt n) s =
     (if length (wd_adopt_permits s) \<le> n then s
      else (case use_adopt_permit (wd_adopt_permits s ! n) (wd_sink s) of (r, p, sk) \<Rightarrow>
        s\<lparr>wd_sink := sk, wd_adopt_permits := (wd_adopt_permits s)[n := p],
           wd_adoptions := (if is_ok r then wd_adoptions s @ [scope_event_id (pm_scope p)] else wd_adoptions s)\<rparr>))"
| "sink_step reserve closing joined other (Elsewhere x) s = s\<lparr>wd_store := other x (wd_store s)\<rparr>"

definition fresh_world :: "'w \<Rightarrow> nat \<Rightarrow> 'w sink_world" where
  "fresh_world w owner = \<lparr>wd_store = w, wd_sink = new_event_sink owner, wd_scopes = [], wd_send_permits = [],
     wd_adopt_permits = [], wd_sends = [], wd_adoptions = []\<rparr>"

text \<open>Every transaction the caller completes a call in is committed.\<close>

definition commits_all :: "('v, 'o) sink_action \<Rightarrow> bool" where
  "commits_all a = (case a of CompleteInside _ _ _ commits \<Rightarrow> commits | _ \<Rightarrow> True)"

section \<open>Decisions\<close>

lemma new_sink_event_iff: "new_sink_event e = Inr x \<Longrightarrow> valid_event x"
  using validate_valid by (auto simp: new_sink_event_def)

lemma validate_scope_ok [simp]: "validate_scope sk event scope = Inr u \<longleftrightarrow>
   scope_owner scope = sk_owner sk \<and> scope_generation scope = sk_generation sk \<and> scope_event_id scope = event_id_of event"
  by (auto simp: validate_scope_def permit_error_def)

lemma validate_scope_error: "validate_scope sk event scope = Inl x \<Longrightarrow> \<exists>code. x = DomainError code"
  by (auto simp: validate_scope_def permit_error_def split: if_splits)

lemma permit_of_simps [simp]: "permit_of (Inl e) = None" "permit_of (Inr (x, p)) = p"
  by (simp_all add: permit_of_def)

text \<open>The part of a sink that permits are used against.\<close>

definition same_uses :: "event_sink \<Rightarrow> event_sink \<Rightarrow> bool" where
  "same_uses sk sk' \<longleftrightarrow> sk_owner sk' = sk_owner sk \<and> sk_generation sk' = sk_generation sk
     \<and> sk_sent sk' = sk_sent sk \<and> sk_adopted sk' = sk_adopted sk"

lemma settle_reserve_facts:
  assumes "settle_reserve event scope st sk = (d, sk')" "scope_event_id scope = event_id_of event"
  shows "same_uses sk sk'"
    "permit_of d = Some p \<Longrightarrow> st \<in> {RESERVED_NEW, RESERVE_REPLAYED} \<and> p = \<lparr>pm_scope = scope, pm_consumed = False\<rparr>"
  using assms
  by (auto simp: settle_reserve_def Let_def same_uses_def permit_of_def new_reserve_decision_def issue_send_permit_def
      recover_send_permit_def split: if_splits)

lemma settle_complete_facts:
  assumes "settle_complete event scope st sk = (d, sk')"
  shows "same_uses sk sk'"
    "permit_of d = Some p \<Longrightarrow> st \<in> {COMPLETED_NEW, COMPLETE_REPLAYED} \<and> p = \<lparr>pm_scope = scope, pm_consumed = False\<rparr>
       \<and> completion_can_be_adopted event scope sk"
  using assms
  by (auto simp: settle_complete_def Let_def same_uses_def permit_of_def new_complete_decision_def issue_adopt_permit_def
      recover_adopt_permit_def completion_can_be_adopted_def split: if_splits)

text \<open>What a call of the sink may do, one case per outcome.\<close>

lemma reserve_attempt_syncE:
  assumes "reserve_attempt_sync writer event scope sk w = (d, sk', w')" "valid_event event"
  obtains (refused) "sk' = sk" "w' = w" "permit_of d = None"
  | (failed) s ctx e where "event = Started s" "writer event ctx w = (Inl e, w')" "sk' = sk" "permit_of d = None"
  | (answered) s ctx st where "event = Started s" "writer event ctx w = (Inr st, w')" "same_uses sk sk'"
      "scope_owner scope = sk_owner sk" "scope_generation scope = sk_generation sk" "scope_event_id scope = event_id_of event"
      "\<And>p. permit_of d = Some p \<Longrightarrow> st \<in> {RESERVED_NEW, RESERVE_REPLAYED} \<and> p = \<lparr>pm_scope = scope, pm_consumed = False\<rparr>"
proof -
  let ?guard = "bind_result (validate_scope sk event scope) (\<lambda>_.
           bind_result (validate_ai_call_event (event_payload event)) (\<lambda>dto. case dto of
             Started _ \<Rightarrow> (case sk_contexts sk scope of
                 None \<Rightarrow> permit_error ''CALL_SCOPE_RESERVE_CONTEXT_MISSING''
               | Some ctx \<Rightarrow> Inr (dto, ctx))
           | _ \<Rightarrow> Inl (ValueError ''reserve_attempt requires ai.call.started'')))"
  show thesis
  proof (cases ?guard)
    case (Inl e)
    then show thesis using assms by (intro refused) (auto simp: reserve_attempt_sync_def)
  next
    case (Inr checked)
    then obtain s ctx where s: "event = Started s" "checked = (event, ctx)"
      and scope: "scope_owner scope = sk_owner sk" "scope_generation scope = sk_generation sk" "scope_event_id scope = event_id_of event"
      using assms(2) by (auto simp: permit_error_def split: ai_call_event.splits option.splits)
    obtain r w1 where r: "writer event ctx w = (r, w1)" by (cases "writer event ctx w")
    note call = assms(1) [unfolded reserve_attempt_sync_def Inr s(2), simplified, unfolded r, simplified]
    show thesis
    proof (cases r)
      case (Inl e)
      then show thesis using call r s by (intro failed) auto
    next
      case (Inr st)
      then have settled: "settle_reserve event scope st sk = (d, sk')" and w: "w1 = w'"
        using call by (auto split: prod.splits)
      show thesis
        using answered [OF s(1) _ settle_reserve_facts(1) [OF settled scope(3)] scope
            settle_reserve_facts(2) [OF settled scope(3)]] r Inr w by simp
    qed
  qed
qed

lemma complete_attempt_syncE:
  assumes "complete_attempt_sync writer event scope sk w = (d, sk', w')" "valid_event event"
  obtains (refused) "sk' = sk" "w' = w" "permit_of d = None"
  | (failed) e where "\<forall>s. event \<noteq> Started s" "writer event w = (Inl e, w')" "sk' = sk" "permit_of d = None"
  | (answered) st where "\<forall>s. event \<noteq> Started s" "writer event w = (Inr st, w')" "same_uses sk sk'"
      "scope_owner scope = sk_owner sk" "scope_generation scope = sk_generation sk" "scope_event_id scope = event_id_of event"
      "\<And>p. permit_of d = Some p \<Longrightarrow> st \<in> {COMPLETED_NEW, COMPLETE_REPLAYED} \<and> p = \<lparr>pm_scope = scope, pm_consumed = False\<rparr>
         \<and> completion_can_be_adopted event scope sk"
proof -
  let ?guard = "bind_result (validate_scope sk event scope) (\<lambda>_.
           bind_result (validate_ai_call_event (event_payload event)) (\<lambda>dto. case dto of
             Started _ \<Rightarrow> Inl (ValueError ''complete_attempt requires completed or late event'')
           | _ \<Rightarrow> Inr dto))"
  show thesis
  proof (cases ?guard)
    case (Inl e)
    then show thesis using assms by (intro refused) (auto simp: complete_attempt_sync_def)
  next
    case (Inr checked)
    then have s: "\<forall>s. event \<noteq> Started s" "checked = event"
      and scope: "scope_owner scope = sk_owner sk" "scope_generation scope = sk_generation sk" "scope_event_id scope = event_id_of event"
      using assms(2) by (auto split: ai_call_event.splits)
    obtain r w1 where r: "writer event w = (r, w1)" by (cases "writer event w")
    note call = assms(1) [unfolded complete_attempt_sync_def Inr s(2), simplified, unfolded r, simplified]
    show thesis
    proof (cases r)
      case (Inl e)
      then show thesis using call r s by (intro failed) auto
    next
      case (Inr st)
      then have settled: "settle_complete event scope st sk = (d, sk')" and w: "w1 = w'"
        using call by (auto split: prod.splits)
      show thesis
        using answered [OF s(1) _ settle_complete_facts(1) [OF settled] scope settle_complete_facts(2) [OF settled]]
          r Inr w by simp
    qed
  qed
qed

section \<open>What a sink relies on\<close>

definition start_recorded :: "('w \<Rightarrow> ai_call_event \<Rightarrow> bool) \<Rightarrow> 'w \<Rightarrow> uuid \<Rightarrow> bool" where
  "start_recorded has w i \<longleftrightarrow> (\<exists>s. has w (Started s) \<and> cc_event_id (st_call s) = i)"

definition outcome_recorded :: "('w \<Rightarrow> ai_call_event \<Rightarrow> bool) \<Rightarrow> 'w \<Rightarrow> uuid \<Rightarrow> bool" where
  "outcome_recorded has w i \<longleftrightarrow>
     (\<exists>c. has w (Completed c) \<and> cc_event_id (co_call c) = i \<and> co_status c \<noteq> CALL_OUTCOME_UNKNOWN)"

definition uses_ok :: "'w sink_world \<Rightarrow> bool" where
  "uses_ok s \<longleftrightarrow> distinct (wd_sends s) \<and> set (wd_sends s) = dom (sk_sent (wd_sink s))
     \<and> distinct (wd_adoptions s) \<and> set (wd_adoptions s) = dom (sk_adopted (wd_sink s))
     \<and> sk_adopted (wd_sink s) \<subseteq>\<^sub>m sk_sent (wd_sink s)"

definition all_recorded :: "('w \<Rightarrow> ai_call_event \<Rightarrow> bool) \<Rightarrow> bool \<Rightarrow> 'w sink_world \<Rightarrow> bool" where
  "all_recorded has firm s \<longleftrightarrow>
     (\<forall>p \<in> set (wd_send_permits s). start_recorded has (wd_store s) (scope_event_id (pm_scope p)))
     \<and> (\<forall>i \<in> set (wd_sends s). start_recorded has (wd_store s) i)
     \<and> (firm \<longrightarrow>
         (\<forall>p \<in> set (wd_adopt_permits s). outcome_recorded has (wd_store s) (scope_event_id (pm_scope p)))
         \<and> (\<forall>i \<in> set (wd_adoptions s). outcome_recorded has (wd_store s) i))"

lemma uses_ok_same: "uses_ok s \<Longrightarrow> same_uses (wd_sink s) (wd_sink s') \<Longrightarrow> wd_sends s' = wd_sends s
   \<Longrightarrow> wd_adoptions s' = wd_adoptions s \<Longrightarrow> uses_ok s'"
  by (simp add: uses_ok_def same_uses_def)

lemma same_uses_refl [simp]: "same_uses sk sk"
  by (simp add: same_uses_def)

lemma recorded_mono:
  "(\<And>x. has w x \<Longrightarrow> has w' x) \<Longrightarrow> start_recorded has w i \<Longrightarrow> start_recorded has w' i"
  "(\<And>x. has w x \<Longrightarrow> has w' x) \<Longrightarrow> outcome_recorded has w i \<Longrightarrow> outcome_recorded has w' i"
  by (auto simp: start_recorded_def outcome_recorded_def)

lemma all_recorded_mono:
  assumes "all_recorded has firm s" "\<And>x. has (wd_store s) x \<Longrightarrow> has (wd_store s') x"
    "set (wd_send_permits s') = set (wd_send_permits s)" "wd_sends s' = wd_sends s"
    "set (wd_adopt_permits s') = set (wd_adopt_permits s)" "wd_adoptions s' = wd_adoptions s"
  shows "all_recorded has firm s'"
  using assms recorded_mono [of has "wd_store s" "wd_store s'"] unfolding all_recorded_def by simp

lemma update_all: "\<forall>q \<in> set ps. P q \<Longrightarrow> P p \<Longrightarrow> \<forall>q \<in> set (ps[n := p]). P q"
  by (auto dest: set_update_subset_insert [THEN subsetD])

lemma set_add_permit: "set (add_permit p ps) = set ps \<union> (case p of None \<Rightarrow> {} | Some x \<Rightarrow> {x})"
  by (simp add: add_permit_def split: option.split)

text \<open>What the sink needs of its writers: a status that says that an event is recorded is true, and what is
  recorded stays recorded, whoever writes.\<close>

locale durable_writer =
  fixes reserve :: "'v \<Rightarrow> ai_call_event \<Rightarrow> reserve_context \<Rightarrow> 'w \<Rightarrow> reserve_status result \<times> 'w"
    and closing :: "'v \<Rightarrow> ai_call_event \<Rightarrow> 'w \<Rightarrow> complete_status result \<times> 'w"
    and joined :: "'v \<Rightarrow> ai_call_event \<Rightarrow> 'w \<Rightarrow> complete_status result \<times> 'w"
    and other :: "'o \<Rightarrow> 'w \<Rightarrow> 'w"
    and has :: "'w \<Rightarrow> ai_call_event \<Rightarrow> bool"
    and ok :: "'w \<Rightarrow> bool"
  assumes reserve_keeps: "ok w \<Longrightarrow> reserve v e ctx w = (r, w') \<Longrightarrow> ok w' \<and> (\<forall>x. has w x \<longrightarrow> has w' x)"
    and closing_keeps: "ok w \<Longrightarrow> closing v e w = (q, w') \<Longrightarrow> ok w' \<and> (\<forall>x. has w x \<longrightarrow> has w' x)"
    and joined_keeps: "ok w \<Longrightarrow> joined v e w = (q, w') \<Longrightarrow> ok w' \<and> (\<forall>x. has w x \<longrightarrow> has w' x)"
    and other_keeps: "ok w \<Longrightarrow> ok (other y w) \<and> (\<forall>x. has w x \<longrightarrow> has (other y w) x)"
    and reserve_records: "ok w \<Longrightarrow> valid_event (Started s) \<Longrightarrow> reserve v (Started s) ctx w = (Inr st, w')
      \<Longrightarrow> st \<in> {RESERVED_NEW, RESERVE_REPLAYED} \<Longrightarrow> has w' (Started s)"
    and closing_records: "ok w \<Longrightarrow> valid_event (Completed c) \<Longrightarrow> closing v (Completed c) w = (Inr st', w')
      \<Longrightarrow> st' \<in> {COMPLETED_NEW, COMPLETE_REPLAYED} \<Longrightarrow> has w' (Completed c)"
    and joined_records: "ok w \<Longrightarrow> valid_event (Completed c) \<Longrightarrow> joined v (Completed c) w = (Inr st', w')
      \<Longrightarrow> st' \<in> {COMPLETED_NEW, COMPLETE_REPLAYED} \<Longrightarrow> has w' (Completed c)"
begin

abbreviation "step \<equiv> sink_step reserve closing joined other"

definition world_inv :: "bool \<Rightarrow> 'w sink_world \<Rightarrow> bool" where
  "world_inv firm s \<longleftrightarrow> ok (wd_store s) \<and> uses_ok s \<and> all_recorded has firm s"

text \<open>A completion, through whichever writer.\<close>

lemma complete_keeps_inv:
  assumes "world_inv firm s" "valid_event event"
    "complete_attempt_sync writer event scope (wd_sink s) (wd_store s) = (d, sk, w)"
    "\<And>r w'. writer event (wd_store s) = (r, w') \<Longrightarrow> ok w' \<and> (\<forall>x. has (wd_store s) x \<longrightarrow> has w' x)"
    "\<And>c st w'. event = Completed c \<Longrightarrow> writer event (wd_store s) = (Inr st, w')
      \<Longrightarrow> st \<in> {COMPLETED_NEW, COMPLETE_REPLAYED} \<Longrightarrow> has w' (Completed c)"
    "w2 = w \<or> (w2 = wd_store s \<and> \<not> firm)"
  shows "world_inv firm (s\<lparr>wd_store := w2, wd_sink := sk,
     wd_adopt_permits := add_permit (permit_of d) (wd_adopt_permits s)\<rparr>)"
  using assms(3,2)
proof (cases rule: complete_attempt_syncE)
  case refused
  then show ?thesis using assms(1,6)
    by (auto simp: world_inv_def set_add_permit intro: uses_ok_same all_recorded_mono)
next
  case (failed e)
  then show ?thesis using assms(1,6) assms(4) [OF failed(2)]
    by (auto simp: world_inv_def set_add_permit intro: uses_ok_same all_recorded_mono)
next
  case (answered st)
  note keeps = assms(4) [OF answered(2)]
  let ?s = "s\<lparr>wd_store := w2, wd_sink := sk, wd_adopt_permits := add_permit (permit_of d) (wd_adopt_permits s)\<rparr>"
  have store: "ok w2" "\<And>x. has (wd_store s) x \<Longrightarrow> has w2 x"
    using keeps assms(1,6) by (auto simp: world_inv_def)
  have new: "outcome_recorded has w2 (scope_event_id (pm_scope p))" if p: "permit_of d = Some p" and firm for p
  proof -
    from answered(7) [OF p] obtain c where c: "event = Completed c" "co_status c \<noteq> CALL_OUTCOME_UNKNOWN"
      "st \<in> {COMPLETED_NEW, COMPLETE_REPLAYED}" "pm_scope p = scope"
      by (cases event) (auto simp: completion_can_be_adopted_def)
    have "has w (Completed c)" using assms(5) [OF c(1) answered(2) c(3)] .
    then show ?thesis using c answered(6) assms(6) that(2) by (auto simp: outcome_recorded_def)
  qed
  have "all_recorded has firm ?s"
    using assms(1) new recorded_mono [of has "wd_store s" w2] store(2)
    by (auto simp: world_inv_def all_recorded_def set_add_permit split: option.splits)
  moreover have "uses_ok ?s" using assms(1) answered(3) by (auto simp: world_inv_def intro: uses_ok_same)
  ultimately show ?thesis using store(1) by (simp add: world_inv_def)
qed

lemma reserve_keeps_inv:
  assumes "world_inv firm s" "valid_event event"
    "reserve_attempt_sync (reserve v) event scope (wd_sink s) (wd_store s) = (d, sk, w)"
  shows "world_inv firm (s\<lparr>wd_store := w, wd_sink := sk,
     wd_send_permits := add_permit (permit_of d) (wd_send_permits s)\<rparr>)"
  using assms(3,2)
proof (cases rule: reserve_attempt_syncE)
  case refused
  then show ?thesis using assms(1)
    by (auto simp: world_inv_def set_add_permit intro: uses_ok_same all_recorded_mono)
next
  case (failed s0 ctx e)
  then show ?thesis using assms(1) reserve_keeps [OF _ failed(2)]
    by (auto simp: world_inv_def set_add_permit intro: uses_ok_same all_recorded_mono)
next
  case (answered x ctx st)
  let ?s = "s\<lparr>wd_store := w, wd_sink := sk, wd_send_permits := add_permit (permit_of d) (wd_send_permits s)\<rparr>"
  have store: "ok w" "\<And>x. has (wd_store s) x \<Longrightarrow> has w x"
    using reserve_keeps [OF _ answered(2)] assms(1) by (auto simp: world_inv_def)
  have new: "start_recorded has w (scope_event_id (pm_scope p))" if "permit_of d = Some p" for p
  proof -
    have "has w (Started x)"
      using reserve_records [of "wd_store s" x v ctx st w] answered(1,2) answered(7) [OF that] assms(1,2)
      by (auto simp: world_inv_def)
    then show ?thesis using answered(1,6) answered(7) [OF that] by (auto simp: start_recorded_def)
  qed
  have "all_recorded has firm ?s"
    using assms(1) new recorded_mono [of has "wd_store s" w] store(2)
    by (auto simp: world_inv_def all_recorded_def set_add_permit split: option.splits)
  moreover have "uses_ok ?s" using assms(1) answered(3) by (auto simp: world_inv_def intro: uses_ok_same)
  ultimately show ?thesis using store(1) by (simp add: world_inv_def)
qed

lemma open_keeps_inv:
  assumes "world_inv firm s" "create_call_scope factory event (wd_sink s) = (r, sk)"
  shows "world_inv firm (s\<lparr>wd_sink := sk, wd_scopes := scopes\<rparr>)"
proof -
  have "same_uses (wd_sink s) sk"
    using assms(2) by (auto simp: create_call_scope_def Let_def same_uses_def split: sum.splits ai_call_event.splits)
  then show ?thesis using assms(1) by (auto simp: world_inv_def intro: uses_ok_same all_recorded_mono)
qed

lemma send_keeps_inv:
  assumes "world_inv firm s" "n < length (wd_send_permits s)"
    "use_send_permit (wd_send_permits s ! n) (wd_sink s) = (r, p, sk)"
  shows "world_inv firm (s\<lparr>wd_sink := sk, wd_send_permits := (wd_send_permits s)[n := p],
     wd_sends := (if is_ok r then wd_sends s @ [scope_event_id (pm_scope p)] else wd_sends s)\<rparr>)"
proof -
  let ?p = "wd_send_permits s ! n"
  let ?i = "scope_event_id (pm_scope p)"
  have scope: "pm_scope p = pm_scope ?p"
    and kept: "\<not> is_ok r \<Longrightarrow> sk = wd_sink s"
    and used: "is_ok r \<Longrightarrow> sk = (wd_sink s)\<lparr>sk_sent := (sk_sent (wd_sink s))(?i \<mapsto> pm_scope p)\<rparr> \<and> sk_sent (wd_sink s) ?i = None"
    using assms(3) by (auto simp: consume_def consume_send_def permit_error_def split: if_splits sum.splits)
  have "start_recorded has (wd_store s) ?i"
    using assms(1,2) scope by (simp add: world_inv_def all_recorded_def)
  moreover from this have "\<forall>q \<in> set ((wd_send_permits s)[n := p]). start_recorded has (wd_store s) (scope_event_id (pm_scope q))"
    using assms(1) by (intro update_all) (simp_all add: world_inv_def all_recorded_def)
  moreover have "sk_adopted (wd_sink s) \<subseteq>\<^sub>m (sk_sent (wd_sink s))(?i \<mapsto> pm_scope p)"
    if "sk_sent (wd_sink s) ?i = None" "sk_adopted (wd_sink s) \<subseteq>\<^sub>m sk_sent (wd_sink s)"
    using that by (fastforce simp: map_le_def dom_def)
  ultimately show ?thesis
    using assms(1) kept used by (cases "is_ok r") (simp_all add: world_inv_def all_recorded_def uses_ok_def domIff)
qed

lemma adopt_keeps_inv:
  assumes "world_inv firm s" "n < length (wd_adopt_permits s)"
    "use_adopt_permit (wd_adopt_permits s ! n) (wd_sink s) = (r, p, sk)"
  shows "world_inv firm (s\<lparr>wd_sink := sk, wd_adopt_permits := (wd_adopt_permits s)[n := p],
     wd_adoptions := (if is_ok r then wd_adoptions s @ [scope_event_id (pm_scope p)] else wd_adoptions s)\<rparr>)"
proof -
  let ?p = "wd_adopt_permits s ! n"
  let ?i = "scope_event_id (pm_scope p)"
  have scope: "pm_scope p = pm_scope ?p"
    and kept: "\<not> is_ok r \<Longrightarrow> sk = wd_sink s"
    and used: "is_ok r \<Longrightarrow> sk = (wd_sink s)\<lparr>sk_adopted := (sk_adopted (wd_sink s))(?i \<mapsto> pm_scope p)\<rparr>
      \<and> sk_adopted (wd_sink s) ?i = None \<and> sk_sent (wd_sink s) ?i = Some (pm_scope p)"
    using assms(3) by (auto simp: consume_def consume_adopt_def permit_error_def split: if_splits sum.splits)
  have "firm \<Longrightarrow> outcome_recorded has (wd_store s) ?i"
    using assms(1,2) scope by (simp add: world_inv_def all_recorded_def)
  moreover from this have "firm \<longrightarrow> (\<forall>q \<in> set ((wd_adopt_permits s)[n := p]). outcome_recorded has (wd_store s) (scope_event_id (pm_scope q)))"
    using assms(1) by (intro impI update_all) (simp_all add: world_inv_def all_recorded_def)
  moreover have "(sk_adopted (wd_sink s))(?i \<mapsto> pm_scope p) \<subseteq>\<^sub>m sk_sent (wd_sink s)"
    if "sk_sent (wd_sink s) ?i = Some (pm_scope p)" "sk_adopted (wd_sink s) \<subseteq>\<^sub>m sk_sent (wd_sink s)"
    using that by (auto simp: map_le_def)
  ultimately show ?thesis
    using assms(1) kept used by (cases "is_ok r") (simp_all add: world_inv_def all_recorded_def uses_ok_def domIff)
qed

lemma step_keeps_inv:
  assumes "world_inv firm s" "firm \<longrightarrow> commits_all action"
  shows "world_inv firm (step action s)"
proof -
  have store: "ok (wd_store s)" using assms(1) by (simp add: world_inv_def)
  show ?thesis
proof (cases action)
  case (OpenScope e ctx)
  then show ?thesis using assms(1) open_keeps_inv [OF assms(1), of "\<lambda>_. ctx", where scopes = "wd_scopes s"]
      open_keeps_inv [OF assms(1), of "\<lambda>_. ctx"]
    by (auto split: sum.split prod.split)
next
  case (ReserveCall n e v)
  then show ?thesis using assms(1) reserve_keeps_inv [OF assms(1) new_sink_event_iff]
    by (auto split: sum.split prod.split)
next
  case (CompleteCall n e v)
  have "world_inv firm (s\<lparr>wd_store := w, wd_sink := sk,
      wd_adopt_permits := add_permit (permit_of d) (wd_adopt_permits s)\<rparr>)"
    if "new_sink_event e = Inr event"
      "complete_attempt_sync (closing v) event scope (wd_sink s) (wd_store s) = (d, sk, w)" for event scope d sk w
  proof (rule complete_keeps_inv [OF assms(1) new_sink_event_iff [OF that(1)] that(2)])
    show "ok w' \<and> (\<forall>x. has (wd_store s) x \<longrightarrow> has w' x)" if "closing v event (wd_store s) = (r, w')" for r w'
      using closing_keeps [OF store that] .
    show "has w' (Completed c)" if "event = Completed c" "closing v event (wd_store s) = (Inr st, w')"
      "st \<in> {COMPLETED_NEW, COMPLETE_REPLAYED}" for c st w'
      using closing_records [OF store, of c v st w'] new_sink_event_iff [OF \<open>new_sink_event e = Inr event\<close>] that by simp
  qed simp
  then show ?thesis using CompleteCall assms(1) by (auto split: sum.split prod.split)
next
  case (CompleteInside n e v commits)
  have "world_inv firm (s\<lparr>wd_store := if commits then w else wd_store s, wd_sink := sk,
      wd_adopt_permits := add_permit (permit_of d) (wd_adopt_permits s)\<rparr>)"
    if "new_sink_event e = Inr event"
      "complete_attempt_sync (joined v) event scope (wd_sink s) (wd_store s) = (d, sk, w)" for event scope d sk w
  proof (rule complete_keeps_inv [OF assms(1) new_sink_event_iff [OF that(1)] that(2)])
    show "ok w' \<and> (\<forall>x. has (wd_store s) x \<longrightarrow> has w' x)" if "joined v event (wd_store s) = (r, w')" for r w'
      using joined_keeps [OF store that] .
    show "has w' (Completed c)" if "event = Completed c" "joined v event (wd_store s) = (Inr st, w')"
      "st \<in> {COMPLETED_NEW, COMPLETE_REPLAYED}" for c st w'
      using joined_records [OF store, of c v st w'] new_sink_event_iff [OF \<open>new_sink_event e = Inr event\<close>] that by simp
    show "(if commits then w else wd_store s) = w \<or> (if commits then w else wd_store s) = wd_store s \<and> \<not> firm"
      using assms(2) CompleteInside by (auto simp: commits_all_def)
  qed
  then show ?thesis using CompleteInside assms(1) by (auto split: sum.split prod.split)
next
  case (UseSend n)
  then show ?thesis using assms(1) send_keeps_inv [OF assms(1)] by (auto split: prod.split)
next
  case (UseAdopt n)
  then show ?thesis using assms(1) adopt_keeps_inv [OF assms(1)] by (auto split: prod.split)
next
  case (Elsewhere y)
  then show ?thesis using assms(1) other_keeps [of "wd_store s" y]
    by (auto simp: world_inv_def intro: uses_ok_same all_recorded_mono)
qed
qed

lemma run_keeps_inv:
  assumes "world_inv firm s" "firm \<longrightarrow> list_all commits_all actions"
  shows "world_inv firm (fold step actions s)"
  using assms by (induction actions arbitrary: s) (simp_all add: step_keeps_inv)

lemma fresh_inv: "ok w \<Longrightarrow> world_inv firm (fresh_world w owner)"
  by (simp add: world_inv_def fresh_world_def uses_ok_def all_recorded_def new_event_sink_def)

end

section \<open>The call audit as a writer\<close>

text \<open>An event is recorded when a row of the outbox holds it; rows keep what they hold, and are never removed.\<close>

definition event_recorded :: "audit_rows \<Rightarrow> ai_call_event \<Rightarrow> bool" where
  "event_recorded db e \<longleftrightarrow> (\<exists>r \<in> set (ad_events db). stored r e)"

definition grows :: "audit_rows \<Rightarrow> audit_rows \<Rightarrow> bool" where
  "grows db db' \<longleftrightarrow> event_fixed ` set (ad_events db) \<subseteq> event_fixed ` set (ad_events db')"

lemma grows_refl [simp]: "grows db db"
  by (simp add: grows_def)

lemma grows_fixed: "map event_fixed (ad_events db') = map event_fixed (ad_events db) \<Longrightarrow> grows db db'"
  by (simp add: grows_def flip: set_map)

lemma grows_add: "add_outbox i t e (event_payload e) db = Inr db' \<Longrightarrow> grows db db'"
  using add_outbox_adds by (fastforce simp: grows_def)

lemma stored_fixed: "event_fixed r' = event_fixed r \<Longrightarrow> stored r' e = stored r e"
  by (simp add: stored_def)

lemma recorded_grows:
  assumes "grows db db'" "event_recorded db e"
  shows "event_recorded db' e"
proof -
  obtain r where r: "r \<in> set (ad_events db)" "stored r e" using assms(2) by (auto simp: event_recorded_def)
  then obtain r' where "r' \<in> set (ad_events db')" "event_fixed r' = event_fixed r"
    using assms(1) by (fastforce simp: grows_def)
  moreover from this have "stored r' e" using r(2) stored_fixed [of r' r e] by simp
  ultimately show ?thesis by (auto simp: event_recorded_def)
qed

lemma close_unknown_grows:
  assumes "close_unknown digest new_id created clocks refs s started db = Inr (st, db')" "rows_ok db"
  shows "grows db db'"
proof -
  obtain e where valid: "valid_event e"
    and e: "(case e of Completed _ \<Rightarrow>
       bind_result (add_outbox new_id created e (event_payload e) db) (\<lambda>db1.
       bind_result (reconcile_claim digest clocks refs new_id db1) (\<lambda>r.
       case r of
         None \<Rightarrow> Inl (DomainError ''AI_OUTCOME_UNKNOWN_CLAIM_FAILED'')
       | Some (result, db2) \<Rightarrow>
           if result = PROJECTED then Inr (RECONCILED_UNKNOWN, db2)
           else Inl (DomainError ''AI_OUTCOME_UNKNOWN_PROJECTION_FAILED'')))
     | _ \<Rightarrow> Inl (DomainError ''AI_OUTCOME_UNKNOWN_EVENT_INVALID'')) = Inr (st, db')"
    using assms(1) validate_valid by (auto simp: close_unknown_def)
  then obtain db1 r where added: "add_outbox new_id created e (event_payload e) db = Inr db1"
    and claim: "reconcile_claim digest clocks refs new_id db1 = Inr (Some (r, db'))"
    by (cases e) (auto split: option.splits if_splits)
  have "rows_ok db1" by (rule add_outbox_ok [OF added assms(2) valid])
  then show ?thesis
    using grows_add [OF added] grows_fixed [OF reconcile_claim_fixed [OF claim]] by (auto simp: grows_def)
qed

lemma audit_step_grows:
  assumes "audit_inv db"
  shows "grows db (audit_step digest refs call db)"
proof -
  have ok: "rows_ok db" using assms by (simp add: audit_inv_def)
  have "leaves db (grows db) (reserve_attempt new_id t deadline minimum current e limits db)"
    for new_id t deadline minimum current e limits
    using reserve_attempt_adds grows_add unfolding leaves_def by blast
  moreover have "leaves db (grows db) (append_completion new_id t e db)" for new_id t e
    using append_completion_adds grows_add unfolding leaves_def by blast
  moreover have "leaves db (grows db) (project_next digest t t' now now' refs db)" for t t' now now'
    using grows_fixed [OF project_next_fixed [OF _ ok]] unfolding leaves_def by blast
  moreover have "leaves db (grows db) (reconcile_expired_once digest new_id created clocks refs given_values db)"
    for new_id created clocks given_values
    by (rule reconcile_leaves)
      (use grows_fixed [OF reconcile_claim_fixed [OF _ ok]] close_unknown_grows [OF _ ok] in blast)+
  ultimately show ?thesis by (cases call) (simp_all add: leaves_committed [where P = "grows db"])
qed

text \<open>A transaction leaves the tables as they were or as the repository call leaves them.\<close>

lemma in_transaction_cases:
  assumes "in_transaction fate unknown r db = (q, db')"
  shows "db' = db \<or> db' = committed r db"
    and "q = Inr x \<Longrightarrow> x \<noteq> unknown \<Longrightarrow> r = Inr (x, db')"
  using assms
  by (auto simp: in_transaction_def committed_def split: sum.splits py_error.splits commit_fate.splits)

lemma service_step:
  assumes "audit_inv db"
  shows "service_reserve v e ctx db = (r, db') \<Longrightarrow> audit_inv db' \<and> grows db db'"
    and "service_complete v e db = (q, db') \<Longrightarrow> audit_inv db' \<and> grows db db'"
    and "joined_complete v e db = (q, db') \<Longrightarrow> audit_inv db' \<and> grows db db'"
proof -
  fix digest refs
  note steps = audit_step_grows [OF assms, of digest refs] audit.keeps [OF assms, of digest refs]
  note reserve_step = steps [of "Reserve (tx_row_id v) (tx_time v) (Some (ctx_deadline ctx)) (Some (ctx_minimum ctx))
    (tx_monotonic v) e (ctx_limits ctx)"]
  note append_step = steps [of "Append (tx_row_id v) (tx_time v) e"]
  show "audit_inv db' \<and> grows db db'" if "service_reserve v e ctx db = (r, db')"
    using in_transaction_cases(1) [OF that [unfolded service_reserve_def]] reserve_step assms by auto
  show "audit_inv db' \<and> grows db db'" if "service_complete v e db = (q, db')"
    using in_transaction_cases(1) [OF that [unfolded service_complete_def]] append_step assms by auto
  show "audit_inv db' \<and> grows db db'" if "joined_complete v e db = (q, db')"
    using that append_step assms by (auto simp: joined_complete_def committed_def split: sum.splits)
qed

text \<open>What the statuses of the repository say.\<close>

lemma count_reserved_status: "count_reserved s xs acc = Inl st \<Longrightarrow> st \<in> {RESERVE_UNKNOWN, RESERVE_CONFLICT}"
  by (induction s xs acc rule: count_reserved.induct) (auto split: if_splits)

lemma event_row_recorded:
  assumes "event_row i name db = Some r" "outbox_matches r e (event_payload e)" "rows_ok db" "valid_event e"
  shows "event_recorded db e"
proof -
  have r: "r \<in> set (ad_events db)" using assms(1,3) event_row_iff by blast
  then obtain e' where e': "stored r e'" using assms(3) by (auto simp: rows_ok_def)
  then have "e = e'" using stored_matches [OF e' assms(4)] assms(2) by simp
  then show ?thesis using r e' by (auto simp: event_recorded_def)
qed

lemma add_outbox_recorded:
  assumes "add_outbox i t e (event_payload e) db = Inr db'" "valid_event e"
  shows "event_recorded db' e"
  using add_outbox_adds [OF assms(1)] stored_new [OF assms(2)] by (auto simp: event_recorded_def)

text \<open>What a call establishes when it answers, one construct of the code at a time.\<close>

definition establishes :: "('a \<Rightarrow> 'w \<Rightarrow> bool) \<Rightarrow> ('a \<times> 'w) result \<Rightarrow> bool" where
  "establishes P r \<longleftrightarrow> (\<forall>x w. r = Inr (x, w) \<longrightarrow> P x w)"

lemma establishes_simps [simp]: "establishes P (Inl e)" "establishes P (Inr (x, w)) \<longleftrightarrow> P x w"
  by (simp_all add: establishes_def)

lemma establishes_bind: "(\<And>x. r = Inr x \<Longrightarrow> establishes P (f x)) \<Longrightarrow> establishes P (bind_result r f)"
  by (auto simp: establishes_def)

lemma establishes_unless_conflict:
  "establishes P r \<Longrightarrow> P COMPLETE_CONFLICT db \<Longrightarrow> establishes P (unless_conflict chain r db)"
  by (simp add: unless_conflict_def split: sum.split)

lemma establishes_last: "establishes P r \<Longrightarrow> r = Inr (x, w) \<Longrightarrow> P x w"
  by (simp add: establishes_def)

definition reserve_tells :: "started_event \<Rightarrow> reserve_status \<Rightarrow> audit_rows \<Rightarrow> bool" where
  "reserve_tells s st db \<longleftrightarrow> (st \<in> {RESERVED_NEW, RESERVE_REPLAYED} \<longrightarrow> event_recorded db (Started s))"

definition complete_tells :: "completed_event \<Rightarrow> complete_status \<Rightarrow> audit_rows \<Rightarrow> bool" where
  "complete_tells c st db \<longleftrightarrow> (st \<in> {COMPLETED_NEW, COMPLETE_REPLAYED} \<longrightarrow> event_recorded db (Completed c))"

lemma reserve_attempt_recorded:
  assumes "rows_ok db" "valid_event (Started s)"
  shows "establishes (reserve_tells s) (reserve_attempt new_id t deadline minimum current (Started s) limits db)"
proof -
  have add: "establishes (reserve_tells s)
      (bind_result (add_outbox new_id t (Started s) (event_payload (Started s)) db) (\<lambda>db'. Inr (RESERVED_NEW, db')))"
    using add_outbox_recorded [OF _ assms(2)] by (intro establishes_bind) (simp add: reserve_tells_def)
  have replayed: "reserve_tells s RESERVE_REPLAYED db"
    if "event_row (cc_event_id (st_call s)) ''ai.call.started'' db = Some r"
      "outbox_matches r (Started s) (event_payload (Started s))" for r
    using event_row_recorded [OF that assms] by (simp add: reserve_tells_def)
  have other: "reserve_tells s RESERVE_UNKNOWN db" "reserve_tells s RESERVE_CONFLICT db"
    "reserve_tells s DEADLINE_EXHAUSTED db" "reserve_tells s BUDGET_EXHAUSTED db"
    by (simp_all add: reserve_tells_def)
  show ?thesis
    unfolding reserve_attempt_def valid_view [OF assms(2)] bind_result.simps prod.case ai_call_event.case
    by (auto simp del: event_payload.simps intro: replayed dest!: count_reserved_status intro!: add other
        establishes_bind [of "validate_deadline x y z" for x y z] establishes_bind [of "operation_started_events x y" for x y]
        split: option.split if_split sum.split prod.split)
qed

lemma append_completion_recorded:
  assumes "rows_ok db" "valid_event (Completed c)"
  shows "establishes (complete_tells c) (append_completion new_id t (Completed c) db)"
proof -
  have add: "establishes (complete_tells c)
      (bind_result (add_outbox new_id t (Completed c) (event_payload (Completed c)) db)
        (\<lambda>db'. Inr (COMPLETED_NEW, db')))"
    using add_outbox_recorded [OF _ assms(2)] by (intro establishes_bind) (simp add: complete_tells_def)
  have replayed: "complete_tells c COMPLETE_REPLAYED db"
    if "event_row (cc_event_id (co_call c)) ''ai.call.completed'' db = Some r"
      "outbox_matches r (Completed c) (event_payload (Completed c))" for r
    using event_row_recorded [OF that assms] by (simp add: complete_tells_def)
  have other: "complete_tells c COMPLETE_UNKNOWN db" "complete_tells c COMPLETE_CONFLICT db"
    "complete_tells c AUDIT_UNAVAILABLE db" "complete_tells c LATE_RECORDED db"
    by (simp_all add: complete_tells_def)
  show ?thesis
    unfolding append_completion_def valid_view [OF assms(2)] bind_result.simps prod.case ai_call_event.case Let_def
      event_call.simps event_type_of.simps
    by (auto simp: is_late_def simp del: event_payload.simps intro: replayed intro!: add other establishes_unless_conflict
        establishes_bind [of "event_from_row x" for x] split: option.split if_split ai_call_event.split)
qed

interpretation audited: durable_writer service_reserve service_complete joined_complete "audit_step digest refs"
  event_recorded audit_inv for digest refs
proof
  fix w w' :: audit_rows and v e ctx and r :: "reserve_status result" and q :: "complete_status result" and y s c st st'
  assume inv: "audit_inv w"
  then have ok: "rows_ok w" by (simp add: audit_inv_def)
  show "service_reserve v e ctx w = (r, w') \<Longrightarrow> audit_inv w' \<and> (\<forall>x. event_recorded w x \<longrightarrow> event_recorded w' x)"
    using service_step(1) [OF inv] recorded_grows by blast
  show "service_complete v e w = (q, w') \<Longrightarrow> audit_inv w' \<and> (\<forall>x. event_recorded w x \<longrightarrow> event_recorded w' x)"
    using service_step(2) [OF inv] recorded_grows by blast
  show "joined_complete v e w = (q, w') \<Longrightarrow> audit_inv w' \<and> (\<forall>x. event_recorded w x \<longrightarrow> event_recorded w' x)"
    using service_step(3) [OF inv] recorded_grows by blast
  show "audit_inv (audit_step digest refs y w) \<and> (\<forall>x. event_recorded w x \<longrightarrow> event_recorded (audit_step digest refs y w) x)"
    using audit.keeps [OF inv] audit_step_grows [OF inv] recorded_grows by blast
  show "event_recorded w' (Started s)" if "valid_event (Started s)"
    "service_reserve v (Started s) ctx w = (Inr st, w')" "st \<in> {RESERVED_NEW, RESERVE_REPLAYED}"
    using in_transaction_cases(2) [OF that(2) [unfolded service_reserve_def], of st] that(3)
      establishes_last [OF reserve_attempt_recorded [OF ok that(1)]] by (auto simp: reserve_tells_def)
  show "event_recorded w' (Completed c)" if "valid_event (Completed c)"
    "service_complete v (Completed c) w = (Inr st', w')" "st' \<in> {COMPLETED_NEW, COMPLETE_REPLAYED}"
    using in_transaction_cases(2) [OF that(2) [unfolded service_complete_def], of st'] that(3)
      establishes_last [OF append_completion_recorded [OF ok that(1)]] by (auto simp: complete_tells_def)
  show "event_recorded w' (Completed c)" if "valid_event (Completed c)"
    "joined_complete v (Completed c) w = (Inr st', w')" "st' \<in> {COMPLETED_NEW, COMPLETE_REPLAYED}"
    using that(2,3) establishes_last [OF append_completion_recorded [OF ok that(1)]]
    by (auto simp: joined_complete_def complete_tells_def split: sum.splits)
qed

section \<open>Sends and adoptions\<close>

type_synonym audited_action = "(transaction_env, audit_call) sink_action"

definition sink_run ::
  "(string \<Rightarrow> nat list) \<Rightarrow> referenced \<Rightarrow> audited_action list \<Rightarrow> audit_rows \<Rightarrow> nat \<Rightarrow> audit_rows sink_world" where
  "sink_run digest refs actions db owner =
     fold (sink_step service_reserve service_complete joined_complete (audit_step digest refs)) actions (fresh_world db owner)"

text \<open>A sample process: it reserves, sends, completes inside a transaction that commits, and adopts.\<close>

definition sample_transaction :: "uuid \<Rightarrow> time \<Rightarrow> transaction_env" where
  "sample_transaction i t = \<lparr>tx_fate = Commits, tx_row_id = i, tx_time = t, tx_monotonic = Some 2\<rparr>"

definition sample_context :: reserve_context where
  "sample_context = \<lparr>ctx_limits = sample_limits, ctx_deadline = 100, ctx_minimum = 1\<rparr>"

definition sample_actions :: "audited_action list" where
  "sample_actions = (let s = Started (sample_started (lit ''answer'')) in
     [OpenScope s (Inr sample_context), ReserveCall 0 s (sample_transaction 5 10), UseSend 0,
      CompleteInside 0 (Completed sample_completed) (sample_transaction 6 20) True, UseAdopt 0])"

lemma sample_sink_events:
  "new_sink_event (Started (sample_started (lit ''answer''))) = Inr (Started (sample_started (lit ''answer'')))"
  "new_sink_event (Completed sample_completed) = Inr (Completed sample_completed)"
  using sample_prompt(1) sample_completed_valid by (simp_all add: new_sink_event_def valid_view del: event_payload.simps)

lemma sample_ids: "cc_event_id (co_call sample_completed) = 7" "cc_event_id (st_call (sample_started p)) = 7"
  "co_status sample_completed = CALL_SUCCEEDED"
  by (simp_all add: sample_completed_def sample_started_def sample_call_def)

lemma sample_run:
  "let s = sink_run digest refs sample_actions (audit_run digest refs [] no_rows) 0
   in wd_sends s = [7] \<and> wd_adoptions s = [7]"
  using sample_reserved [OF sample_prompt] sample_completion sample_prompt(1) sample_completed_valid
  by (simp add: sink_run_def sample_actions_def Let_def fresh_world_def new_event_sink_def sample_sink_events
      create_call_scope_def audit_run_def reserve_attempt_sync_def validate_scope_def service_reserve_def in_transaction_def
      sample_transaction_def sample_context_def settle_reserve_def new_reserve_decision_def issue_send_permit_def add_permit_def
      consume_def consume_send_def complete_attempt_sync_def joined_complete_def settle_complete_def issue_adopt_permit_def
      completion_can_be_adopted_def new_complete_decision_def consume_adopt_def sample_ids del: event_payload.simps)

text \<open>C13. Whatever a process does with its event sink, in any order and among the transactions of all other
  processes, commits that fail and replies that are lost included: it uses at most one send permit per event,
  and only after the started event is durably in the outbox; it adopts the answer of an event at most once, and
  only of an event it has sent itself. When none of the transactions it completes calls in is rolled back, an
  adopted event also has a durable completion with a known outcome.\<close>

theorem sends_recorded_and_single:
  "let s = sink_run digest refs actions (audit_run digest refs calls no_rows) owner in
     distinct (wd_sends s) \<and> distinct (wd_adoptions s) \<and> set (wd_adoptions s) \<subseteq> set (wd_sends s)
     \<and> (\<forall>i. i \<in> set (wd_sends s) \<longrightarrow> (\<exists>x. event_recorded (wd_store s) (Started x) \<and> cc_event_id (st_call x) = i))
     \<and> (list_all commits_all actions \<longrightarrow> (\<forall>i. i \<in> set (wd_adoptions s) \<longrightarrow>
          (\<exists>c. event_recorded (wd_store s) (Completed c) \<and> cc_event_id (co_call c) = i
             \<and> co_status c \<noteq> CALL_OUTCOME_UNKNOWN)))"
proof -
  have "audited.world_inv (list_all commits_all actions)
      (sink_run digest refs actions (audit_run digest refs calls no_rows) owner)"
    unfolding sink_run_def by (intro audited.run_keeps_inv audited.fresh_inv) simp_all
  then show ?thesis
    by (auto simp: Let_def audited.world_inv_def uses_ok_def all_recorded_def start_recorded_def outcome_recorded_def
        dest!: map_le_implies_dom_le)
qed

lemma sends_recorded_and_single_witness:
  "let db = wd_store (sink_run (\<lambda>_. []) \<lparr>known_organization = \<lambda>_. True, known_job = \<lambda>_. True\<rparr> sample_actions
       (audit_run (\<lambda>_. []) \<lparr>known_organization = \<lambda>_. True, known_job = \<lambda>_. True\<rparr> [] no_rows) 0) in
     (\<exists>x. event_recorded db (Started x) \<and> cc_event_id (st_call x) = 7)
     \<and> (\<exists>c. event_recorded db (Completed c) \<and> cc_event_id (co_call c) = 7 \<and> co_status c \<noteq> CALL_OUTCOME_UNKNOWN)"
proof -
  have "list_all commits_all sample_actions" by (simp add: sample_actions_def Let_def commits_all_def)
  then show ?thesis
    using sends_recorded_and_single [of "\<lambda>_. []" "\<lparr>known_organization = \<lambda>_. True, known_job = \<lambda>_. True\<rparr>" sample_actions "[]" 0]
      sample_run [of "\<lambda>_. []" "\<lparr>known_organization = \<lambda>_. True, known_job = \<lambda>_. True\<rparr>"]
    unfolding Let_def by (metis list.set_intros(1))
qed

section \<open>Sends and limits\<close>

text \<open>Every reservation for the operation of \<open>c\<close> is made under the limits \<open>L\<close>, here and elsewhere.\<close>

definition action_with :: "call_correlation \<Rightarrow> audit_limits \<Rightarrow> audited_action \<Rightarrow> bool" where
  "action_with c L a = (case a of
     OpenScope _ (Inr ctx) \<Rightarrow> ctx_limits ctx = L
   | Elsewhere call \<Rightarrow> reserves_with c L call
   | _ \<Rightarrow> True)"

definition limited_world ::
  "(string \<Rightarrow> nat list) \<Rightarrow> referenced \<Rightarrow> call_correlation \<Rightarrow> audit_limits \<Rightarrow> audit_rows sink_world \<Rightarrow> bool" where
  "limited_world digest refs c L s \<longleftrightarrow>
     (\<exists>calls. wd_store s = audit_run digest refs calls no_rows \<and> list_all (reserves_with c L) calls)
     \<and> (\<forall>ctx \<in> ran (sk_contexts (wd_sink s)). ctx_limits ctx = L)"

text \<open>What a transaction may leave: the tables as they were, or as a call under the limits leaves them.\<close>

definition limited_effect ::
  "(string \<Rightarrow> nat list) \<Rightarrow> referenced \<Rightarrow> call_correlation \<Rightarrow> audit_limits \<Rightarrow> audit_rows \<Rightarrow> audit_rows \<Rightarrow> bool" where
  "limited_effect digest refs c L db db' \<longleftrightarrow>
     db' = db \<or> (\<exists>call. reserves_with c L call \<and> db' = audit_step digest refs call db)"

lemma limited_effect_refl [simp]: "limited_effect digest refs c L db db"
  by (simp add: limited_effect_def)

lemma limited_world_effect:
  assumes "limited_world digest refs c L s" "limited_effect digest refs c L (wd_store s) (wd_store s')"
    "ran (sk_contexts (wd_sink s')) \<subseteq> ran (sk_contexts (wd_sink s)) \<union> C" "\<forall>ctx \<in> C. ctx_limits ctx = L"
  shows "limited_world digest refs c L s'"
proof -
  obtain calls where calls: "wd_store s = audit_run digest refs calls no_rows" "list_all (reserves_with c L) calls"
    using assms(1) by (auto simp: limited_world_def)
  have step: "audit_step digest refs call (wd_store s) = audit_run digest refs (calls @ [call]) no_rows" for call
    using calls by (simp add: audit_run_def)
  have "\<exists>calls. wd_store s' = audit_run digest refs calls no_rows \<and> list_all (reserves_with c L) calls"
    using assms(2) unfolding limited_effect_def
  proof
    assume "\<exists>call. reserves_with c L call \<and> wd_store s' = audit_step digest refs call (wd_store s)"
    then obtain call where "reserves_with c L call" "wd_store s' = audit_step digest refs call (wd_store s)" by blast
    then show ?thesis using calls(2) step by (intro exI [of _ "calls @ [call]"]) simp
  qed (use calls in auto)
  then show ?thesis using assms(1,3,4) by (auto simp: limited_world_def)
qed

lemma service_effect:
  "ctx_limits ctx = L \<Longrightarrow> service_reserve v e ctx db = (r, db') \<Longrightarrow> limited_effect digest refs c L db db'"
  "service_complete v e db = (q, db') \<Longrightarrow> limited_effect digest refs c L db db'"
  "joined_complete v e db = (q, db') \<Longrightarrow> limited_effect digest refs c L db db'"
proof -
  have idle: "reserves_with c L (Append i t e)" for i t e by (simp add: reserves_with_def)
  show "limited_effect digest refs c L db db'" if "ctx_limits ctx = L" "service_reserve v e ctx db = (r, db')"
  proof -
    let ?call = "Reserve (tx_row_id v) (tx_time v) (Some (ctx_deadline ctx)) (Some (ctx_minimum ctx)) (tx_monotonic v)
      e (ctx_limits ctx)"
    have "reserves_with c L ?call" using that(1) by (simp add: reserves_with_def split: sum.split ai_call_event.split)
    then show ?thesis
      using in_transaction_cases(1) [OF that(2) [unfolded service_reserve_def]] unfolding limited_effect_def
      by (metis audit_step.simps(1))
  qed
  show "limited_effect digest refs c L db db'" if "service_complete v e db = (q, db')"
    using in_transaction_cases(1) [OF that [unfolded service_complete_def]] idle unfolding limited_effect_def
    by (metis audit_step.simps(2))
  show "limited_effect digest refs c L db db'" if "joined_complete v e db = (q, db')"
  proof -
    have "db' = db \<or> db' = audit_step digest refs (Append (tx_row_id v) (tx_time v) e) db"
      using that by (auto simp: joined_complete_def committed_def split: sum.splits)
    then show ?thesis using idle unfolding limited_effect_def by blast
  qed
qed

lemma contexts_kept:
  "settle_reserve event scope st sk = (d, sk') \<Longrightarrow> sk_contexts sk' = sk_contexts sk"
  "settle_complete event scope st' sk = (d', sk') \<Longrightarrow> sk_contexts sk' = sk_contexts sk"
  "use_send_permit p sk = (r, p', sk') \<Longrightarrow> sk_contexts sk' = sk_contexts sk"
  "use_adopt_permit p sk = (r, p', sk') \<Longrightarrow> sk_contexts sk' = sk_contexts sk"
  by (auto simp: settle_reserve_def settle_complete_def Let_def recover_send_permit_def recover_adopt_permit_def
      consume_def consume_send_def consume_adopt_def permit_error_def split: if_splits sum.splits)

lemma reserve_sync_store:
  assumes "reserve_attempt_sync writer event scope sk w = (d, sk', w')"
  shows "sk_contexts sk' = sk_contexts sk
    \<and> (w' = w \<or> (\<exists>dto ctx r. ctx \<in> ran (sk_contexts sk) \<and> writer dto ctx w = (r, w')))"
  using assms
  by (auto simp: reserve_attempt_sync_def permit_error_def ran_def contexts_kept
      split: sum.splits prod.splits ai_call_event.splits option.splits)

lemma complete_sync_store:
  assumes "complete_attempt_sync writer event scope sk w = (d, sk', w')"
  shows "sk_contexts sk' = sk_contexts sk \<and> (w' = w \<or> (\<exists>dto r. writer dto w = (r, w')))"
  using assms
  by (auto simp: complete_attempt_sync_def contexts_kept split: sum.splits prod.splits)

lemma create_scope_contexts:
  assumes "create_call_scope (\<lambda>_. ctx) event sk = (r, sk')"
  shows "ran (sk_contexts sk') \<subseteq> ran (sk_contexts sk) \<union> (case ctx of Inr x \<Rightarrow> {x} | _ \<Rightarrow> {})"
  using assms
  by (auto simp: create_call_scope_def Let_def ran_def split: sum.splits ai_call_event.splits if_splits)

lemma step_limited:
  assumes "limited_world digest refs c L s" "action_with c L a"
  shows "limited_world digest refs c L
    (sink_step service_reserve service_complete joined_complete (audit_step digest refs) a s)"
proof -
  note effect = limited_world_effect [OF assms(1), where C = "{}"]
  have contexts: "ctx \<in> ran (sk_contexts (wd_sink s)) \<Longrightarrow> ctx_limits ctx = L" for ctx
    using assms(1) by (simp add: limited_world_def)
  show ?thesis
  proof (cases a)
    case (OpenScope e ctx)
    have "limited_world digest refs c L (s\<lparr>wd_sink := sk, wd_scopes := scopes\<rparr>)"
      if "create_call_scope (\<lambda>_. ctx) event (wd_sink s) = (r, sk)" for event r sk scopes
      using limited_world_effect [OF assms(1) _ _ , of _ "case ctx of Inr x \<Rightarrow> {x} | _ \<Rightarrow> {}"]
        create_scope_contexts [OF that] OpenScope assms(2) by (simp add: action_with_def split: sum.splits)
    from this [where scopes = "wd_scopes s"] this show ?thesis
      using OpenScope assms(1) by (simp split: sum.split prod.split)
  next
    case (ReserveCall n e v)
    have "limited_world digest refs c L (s\<lparr>wd_store := w, wd_sink := sk, wd_send_permits := ps\<rparr>)"
      if "reserve_attempt_sync (service_reserve v) event scope (wd_sink s) (wd_store s) = (d, sk, w)"
      for event scope d sk w ps
    proof (rule effect)
      show "limited_effect digest refs c L (wd_store s) (wd_store (s\<lparr>wd_store := w, wd_sink := sk, wd_send_permits := ps\<rparr>))"
        using reserve_sync_store [OF that] by (auto intro: service_effect(1) [OF contexts])
    qed (use reserve_sync_store [OF that] in simp_all)
    then show ?thesis using ReserveCall assms(1) by (auto split: sum.split prod.split)
  next
    case (CompleteCall n e v)
    have "limited_world digest refs c L (s\<lparr>wd_store := w, wd_sink := sk, wd_adopt_permits := ps\<rparr>)"
      if "complete_attempt_sync (service_complete v) event scope (wd_sink s) (wd_store s) = (d, sk, w)"
      for event scope d sk w ps
    proof (rule effect)
      show "limited_effect digest refs c L (wd_store s) (wd_store (s\<lparr>wd_store := w, wd_sink := sk, wd_adopt_permits := ps\<rparr>))"
        using complete_sync_store [OF that] service_effect(2) by auto
    qed (use complete_sync_store [OF that] in simp_all)
    then show ?thesis using CompleteCall assms(1) by (auto split: sum.split prod.split)
  next
    case (CompleteInside n e v commits)
    have "limited_world digest refs c L
        (s\<lparr>wd_store := if commits then w else wd_store s, wd_sink := sk, wd_adopt_permits := ps\<rparr>)"
      if "complete_attempt_sync (joined_complete v) event scope (wd_sink s) (wd_store s) = (d, sk, w)"
      for event scope d sk w ps
    proof (rule effect)
      show "limited_effect digest refs c L (wd_store s) (wd_store
          (s\<lparr>wd_store := if commits then w else wd_store s, wd_sink := sk, wd_adopt_permits := ps\<rparr>))"
        using complete_sync_store [OF that] service_effect(3) by auto
    qed (use complete_sync_store [OF that] in simp_all)
    then show ?thesis using CompleteInside assms(1) by (auto split: sum.split prod.split)
  next
    case (UseSend n)
    have "limited_world digest refs c L (s\<lparr>wd_sink := sk, wd_send_permits := ps, wd_sends := is\<rparr>)"
      if "use_send_permit p (wd_sink s) = (r, p', sk)" for p r p' sk ps "is"
      by (rule effect) (use contexts_kept(3) [OF that] in simp_all)
    then show ?thesis using UseSend assms(1) by (auto split: prod.split)
  next
    case (UseAdopt n)
    have "limited_world digest refs c L (s\<lparr>wd_sink := sk, wd_adopt_permits := ps, wd_adoptions := is\<rparr>)"
      if "use_adopt_permit p (wd_sink s) = (r, p', sk)" for p r p' sk ps "is"
      by (rule effect) (use contexts_kept(4) [OF that] in simp_all)
    then show ?thesis using UseAdopt assms(1) by (auto split: prod.split)
  next
    case (Elsewhere call)
    show ?thesis unfolding Elsewhere
      by (rule effect) (use assms(2) Elsewhere in \<open>auto simp: action_with_def limited_effect_def\<close>)
  qed
qed

lemma sink_run_limited:
  assumes "list_all (reserves_with c L) calls" "list_all (action_with c L) actions"
  shows "limited_world digest refs c L (sink_run digest refs actions (audit_run digest refs calls no_rows) owner)"
proof -
  have "limited_world digest refs c L (fold
      (sink_step service_reserve service_complete joined_complete (audit_step digest refs)) actions s)"
    if "limited_world digest refs c L s" for s
    using assms(2) that by (induction actions arbitrary: s) (simp_all add: step_limited)
  moreover have "limited_world digest refs c L (fresh_world (audit_run digest refs calls no_rows) owner)"
    using assms(1) by (auto simp: limited_world_def fresh_world_def new_event_sink_def)
  ultimately show ?thesis by (simp add: sink_run_def)
qed

text \<open>A recorded start counts among what is reserved for its operation.\<close>

lemma recorded_reserved:
  assumes "event_recorded db (Started x)" "same_key (st_call x) c" "0 < cc_policy_version c"
  shows "x \<in># reserved c db"
proof -
  obtain r where r: "r \<in> set (ad_events db)" "stored r (Started x)" using assms(1) by (auto simp: event_recorded_def)
  have fixed: "event_fixed r = event_fixed (outbox_row (outbox_id (event_fixed r)) (event_created_at (event_fixed r))
      (Started x) (event_payload (Started x)))" and valid: "valid_event (Started x)"
    using r(2) by (simp_all only: stored_def)
  have "same_operation c r \<longleftrightarrow> same_operation c (outbox_row (outbox_id (event_fixed r)) (event_created_at (event_fixed r))
      (Started x) (event_payload (Started x)))"
    by (subst (1 2) bare_same(1) [symmetric]) (simp only: fixed [symmetric])
  then have "same_operation c r"
    using same_operation_new [OF valid assms(3)] assms(2) by (simp add: same_key_def)
  moreover have "event_from_row r = Inr (Started x)" by (rule stored_fields(3) [OF r(2)])
  ultimately show ?thesis
    using r(1) by (force simp: reserved_def bare_same started_part_def intro!: image_eqI [of _ _ "event_fixed r"])
qed

text \<open>C14. However a process uses its sink and whatever other processes do, when every reservation for a business
  operation is made under the same limits, the process calls the provider for that operation at most as often
  as the limit on attempts allows.\<close>

theorem sends_within_attempt_limit:
  assumes "list_all (reserves_with c L) calls" "list_all (action_with c L) actions" "0 < cc_policy_version c"
  shows "let s = sink_run digest refs actions (audit_run digest refs calls no_rows) owner in
     int (card {i \<in> set (wd_sends s). \<exists>x. event_recorded (wd_store s) (Started x) \<and> cc_event_id (st_call x) = i
       \<and> same_key (st_call x) c}) \<le> max 0 (lim_attempts L)"
proof -
  let ?s = "sink_run digest refs actions (audit_run digest refs calls no_rows) owner"
  obtain calls' where store: "wd_store ?s = audit_run digest refs calls' no_rows" "list_all (reserves_with c L) calls'"
    using sink_run_limited [OF assms(1,2), of digest refs owner] by (auto simp: limited_world_def)
  have "reserved c no_rows = {#}" by (simp add: reserved_def no_rows_def)
  then obtain xs where xs: "mset xs = reserved c (wd_store ?s)" "within_limits L xs \<or> xs = []"
    using reserved_within [OF store(2) assms(3) no_rows_inv, of digest refs] store(1) by fastforce
  let ?sent = "{i \<in> set (wd_sends ?s). \<exists>x. event_recorded (wd_store ?s) (Started x) \<and> cc_event_id (st_call x) = i
       \<and> same_key (st_call x) c}"
  have "?sent \<subseteq> (\<lambda>x. cc_event_id (st_call x)) ` set xs"
    using recorded_reserved [OF _ _ assms(3)] xs(1) by (auto simp flip: set_mset_mset)
  then have "card ?sent \<le> length xs"
    using card_mono [of "(\<lambda>x. cc_event_id (st_call x)) ` set xs" ?sent] card_image_le [of "set xs" "\<lambda>x. cc_event_id (st_call x)"]
      card_length [of xs] by simp
  moreover have "int (length xs) \<le> max 0 (lim_attempts L)" using xs(2) by (auto simp: within_limits_def)
  ultimately show ?thesis by (simp add: Let_def)
qed

lemma sends_within_attempt_limit_witness:
  "let s = sink_run (\<lambda>_. []) \<lparr>known_organization = \<lambda>_. True, known_job = \<lambda>_. True\<rparr> sample_actions
       (audit_run (\<lambda>_. []) \<lparr>known_organization = \<lambda>_. True, known_job = \<lambda>_. True\<rparr> [sample_reserve (lit ''answer'')] no_rows) 0 in
     int (card {i \<in> set (wd_sends s). \<exists>x. event_recorded (wd_store s) (Started x) \<and> cc_event_id (st_call x) = i
       \<and> same_key (st_call x) sample_call}) \<le> max 0 (lim_attempts sample_limits)"
  by (rule sends_within_attempt_limit)
    (auto simp: reserves_with_def sample_reserve_def sample_actions_def Let_def action_with_def sample_context_def
       sample_call_def split: sum.split ai_call_event.split)

end
