(* ===== verification/AuditedLlm.thy ===== *)
theory AuditedLlm
  imports AiCallSinkProperties AiContracts
begin

text \<open>
  \<open>services/audited_llm.py\<close>: one physical call of a language model under budget, shared runtime control, durable
  audit and single adoption. The audit writer and the runtime controller are injected, so they are arguments: each
  works on a state of its own, and its n-th call may see what other processes did before. The clocks, the new event
  identifier, the bytes of the request and the digest come from outside. The trace lists what the call does to the
  runtime permit and to the gateway, with the state of the audit when the gateway is called.
\<close>

section \<open>Policies and identities\<close>

text \<open>Of the live policy of the model the fields that an invocation reads.\<close>

record llm_policy =
  lp_endpoint_id :: pystr
  lp_model_id :: pystr
  lp_model_version :: pystr
  lp_context_window :: int
  lp_pricing_version :: pystr
  lp_input_price :: int
  lp_output_price :: int
  lp_temperature :: rat
  lp_top_p :: rat

record operation_policy =
  lo_deadline_seconds :: int
  lo_max_attempts :: int
  lo_max_repairs :: int
  lo_max_input_tokens :: int
  lo_max_output_tokens :: int
  lo_max_total_tokens :: int
  lo_max_cost :: int

record policy_snapshot =
  sn_version :: int
  sn_hash :: pystr

record call_identity =
  ci_organization_id :: uuid
  ci_operation_id :: uuid
  ci_job_id :: "uuid option"
  ci_resource_type :: "pystr option"
  ci_resource_id :: "uuid option"
  ci_trace_id :: uuid
  ci_call_type :: pystr
  ci_generation_no :: int
  ci_attempt_no :: int
  ci_prompt_id :: pystr
  ci_prompt_version :: pystr
  ci_prompt_hash :: pystr
  ci_schema_version :: pystr
  ci_event_id :: "uuid option"

text \<open>The errors of the module, and any other exception that escapes it.\<close>

datatype llm_error = InvocationError string | OutputRejected string | Escaped py_error

definition lift_error :: "'a result \<Rightarrow> llm_error + 'a" where
  "lift_error r = (case r of Inl e \<Rightarrow> Inl (Escaped e) | Inr x \<Rightarrow> Inr x)"

text \<open>\<open>except ValueError\<close>.\<close>

definition on_value_error :: "string \<Rightarrow> 'a result \<Rightarrow> llm_error + 'a" where
  "on_value_error code r = (case r of
     Inl (ValueError _) \<Rightarrow> Inl (InvocationError code) | Inl e \<Rightarrow> Inl (Escaped e) | Inr x \<Rightarrow> Inr x)"

definition bind_llm :: "llm_error + 'a \<Rightarrow> ('a \<Rightarrow> llm_error + 'b) \<Rightarrow> llm_error + 'b" where
  "bind_llm r f = (case r of Inl e \<Rightarrow> Inl e | Inr x \<Rightarrow> f x)"

definition llm_check :: "bool \<Rightarrow> string \<Rightarrow> llm_error + unit" where
  "llm_check ok code = (if ok then Inr () else Inl (InvocationError code))"

lemma bind_llm_ok [simp]: "bind_llm r f = Inr y \<longleftrightarrow> (\<exists>x. r = Inr x \<and> f x = Inr y)"
  by (simp add: bind_llm_def split: sum.split)

lemma lift_error_ok [simp]: "lift_error r = Inr x \<longleftrightarrow> r = Inr x"
  by (simp add: lift_error_def split: sum.split)

lemma on_value_error_ok [simp]: "on_value_error code r = Inr x \<longleftrightarrow> r = Inr x"
  by (auto simp: on_value_error_def split: sum.split py_error.split)

lemma llm_check_ok [simp]: "llm_check ok code = Inr u \<longleftrightarrow> ok"
  by (simp add: llm_check_def)

section \<open>Events\<close>

definition opt_uuid :: "uuid option \<Rightarrow> pyval" where "opt_uuid = null_value (\<lambda>u. PyStr (uuid_str u))"
definition opt_text :: "pystr option \<Rightarrow> pyval" where "opt_text = null_value PyStr"
definition opt_int :: "int option \<Rightarrow> pyval" where "opt_int = null_value PyInt"

text \<open>\<open>_started_event\<close>: the document that is validated.\<close>

definition started_document ::
  "uuid \<Rightarrow> call_identity \<Rightarrow> policy_snapshot \<Rightarrow> llm_policy \<Rightarrow> pystr \<Rightarrow> int \<Rightarrow> int \<Rightarrow> int \<Rightarrow> stamp \<Rightarrow> bool option \<Rightarrow> py_dict" where
  "started_document new_id i snapshot policy body_hash input_tokens output_tokens cost began half =
     [(''event_id'', PyStr (uuid_str new_id)), (''event_version'', PyInt 2), (''event_sequence'', PyInt 1),
      (''event_type'', PyStr (lit ''ai.call.started'')), (''aggregate_type'', PyStr (lit ''ai_call'')),
      (''aggregate_id'', PyStr (uuid_str new_id)),
      (''organization_id'', PyStr (uuid_str (ci_organization_id i))),
      (''business_operation_id'', PyStr (uuid_str (ci_operation_id i))), (''job_id'', opt_uuid (ci_job_id i)),
      (''request_id'', PyNone), (''resource_type'', opt_text (ci_resource_type i)),
      (''resource_id'', opt_uuid (ci_resource_id i)), (''trace_id'', PyStr (uuid_str (ci_trace_id i))),
      (''call_type'', PyStr (ci_call_type i)), (''logical_generation_no'', PyInt (ci_generation_no i)),
      (''provider_attempt_no'', PyInt (ci_attempt_no i)), (''adapter_id'', PyStr (lit ''openai_chat_completions_v1'')),
      (''endpoint_id'', PyStr (lp_endpoint_id policy)), (''model_id'', PyStr (lp_model_id policy)),
      (''model_version'', PyStr (lp_model_version policy)), (''prompt_id'', PyStr (ci_prompt_id i)),
      (''prompt_version'', PyStr (ci_prompt_version i)), (''prompt_hash'', PyStr (ci_prompt_hash i)),
      (''schema_version'', PyStr (ci_schema_version i)), (''policy_version'', PyInt (sn_version snapshot)),
      (''policy_hash'', PyStr (sn_hash snapshot)), (''pricing_version'', PyStr (lp_pricing_version policy)),
      (''input_hash'', PyStr body_hash), (''reserved_input_tokens'', PyInt input_tokens),
      (''reserved_output_tokens'', PyInt output_tokens), (''cost_currency'', PyStr (lit ''USD'')),
      (''reserved_cost_microunits'', PyInt cost), (''attempt_count'', PyInt (ci_attempt_no i)),
      (''is_fallback'', PyBool False),
      (''breaker_state'', null_value (\<lambda>half. PyStr (lit (if half then ''half_open'' else ''closed''))) half),
      (''status'', PyStr (lit ''pending'')), (''started_at'', PyStr (stamp_text began))]"

definition started_event_of ::
  "uuid \<Rightarrow> call_identity \<Rightarrow> policy_snapshot \<Rightarrow> llm_policy \<Rightarrow> pystr \<Rightarrow> int \<Rightarrow> int \<Rightarrow> int \<Rightarrow> stamp \<Rightarrow> bool option
   \<Rightarrow> llm_error + ai_call_event" where
  "started_event_of new_id i snapshot policy body_hash input_tokens output_tokens cost began half =
     bind_llm (lift_error (validate_ai_call_event_v2
       (started_document new_id i snapshot policy body_hash input_tokens output_tokens cost began half)))
     (\<lambda>e. case e of Started _ \<Rightarrow> Inr e | _ \<Rightarrow> Inl (InvocationError ''AI_EVENT_BUILD_FAILED''))"

text \<open>\<open>_completed_event\<close> with its keyword arguments.\<close>

record completion_args =
  ca_status :: string
  ca_completed_at :: stamp
  ca_duration_ms :: int
  ca_output_hash :: "pystr option"
  ca_input_tokens :: "int option"
  ca_output_tokens :: "int option"
  ca_http_status :: "int option"
  ca_category :: "pystr option"
  ca_safe_error :: "pystr option"
  ca_cost :: "int option"

definition completed_document :: "uuid \<Rightarrow> call_identity \<Rightarrow> policy_snapshot \<Rightarrow> completion_args \<Rightarrow> py_dict" where
  "completed_document new_id i snapshot a =
     [(''event_id'', PyStr (uuid_str new_id)), (''event_version'', PyInt 2), (''event_sequence'', PyInt 2),
      (''event_type'', PyStr (lit ''ai.call.completed'')), (''aggregate_type'', PyStr (lit ''ai_call'')),
      (''aggregate_id'', PyStr (uuid_str new_id)),
      (''organization_id'', PyStr (uuid_str (ci_organization_id i))),
      (''business_operation_id'', PyStr (uuid_str (ci_operation_id i))), (''job_id'', opt_uuid (ci_job_id i)),
      (''request_id'', PyNone), (''trace_id'', PyStr (uuid_str (ci_trace_id i))),
      (''policy_version'', PyInt (sn_version snapshot)), (''policy_hash'', PyStr (sn_hash snapshot)),
      (''cost_currency'', PyStr (lit ''USD'')), (''actual_cost_microunits'', opt_int (ca_cost a)),
      (''status'', PyStr (lit (ca_status a))), (''completed_at'', PyStr (stamp_text (ca_completed_at a))),
      (''duration_ms'', PyInt (ca_duration_ms a)), (''output_hash'', opt_text (ca_output_hash a)),
      (''input_tokens'', opt_int (ca_input_tokens a)), (''output_tokens'', opt_int (ca_output_tokens a)),
      (''vector_count'', PyNone), (''http_status'', opt_int (ca_http_status a)),
      (''error_category'', opt_text (ca_category a)), (''safe_error_code'', opt_text (ca_safe_error a)),
      (''citation_validation_status'', PyNone)]"

definition completed_event_of :: "call_identity \<Rightarrow> policy_snapshot \<Rightarrow> completion_args \<Rightarrow> llm_error + ai_call_event" where
  "completed_event_of i snapshot a =
     (case ci_event_id i of
        None \<Rightarrow> Inl (InvocationError ''AI_EVENT_BUILD_FAILED'')
      | Some new_id \<Rightarrow> bind_llm (lift_error (validate_ai_call_event_v2 (completed_document new_id i snapshot a)))
          (\<lambda>e. case e of Completed _ \<Rightarrow> Inr e | _ \<Rightarrow> Inl (InvocationError ''AI_EVENT_BUILD_FAILED'')))"

text \<open>\<open>_SAFE_ERROR_BY_CATEGORY\<close> and \<open>_event_error_category\<close>.\<close>

fun safe_error_of :: "external_category \<Rightarrow> string" where
  "safe_error_of EXT_CONNECTION_ERROR = ''AI_CONNECTION_ERROR''"
| "safe_error_of EXT_CONNECT_TIMEOUT = ''AI_CONNECT_TIMEOUT''"
| "safe_error_of EXT_READ_TIMEOUT = ''AI_READ_TIMEOUT''"
| "safe_error_of EXT_RATE_LIMITED = ''AI_RATE_LIMITED''"
| "safe_error_of EXT_SERVER_ERROR = ''AI_PROVIDER_SERVER_ERROR''"
| "safe_error_of EXT_CLIENT_ERROR = ''AI_PROVIDER_CLIENT_ERROR''"
| "safe_error_of EXT_CONTEXT_LIMIT = ''AI_CONTEXT_LIMIT''"
| "safe_error_of EXT_INVALID_RESPONSE = ''AI_INVALID_RESPONSE''"
| "safe_error_of EXT_CONTENT_REJECTED = ''AI_CONTENT_REJECTED''"
| "safe_error_of EXT_PROVIDER_CONFIGURATION_ERROR = ''AI_PROVIDER_CONFIGURATION_ERROR''"
| "safe_error_of EXT_OUTPUT_TRUNCATED = ''AI_OUTPUT_TRUNCATED''"

definition event_category_of :: "external_category \<Rightarrow> pystr" where
  "event_category_of c =
     (if c \<in> {EXT_CONNECTION_ERROR, EXT_CONNECT_TIMEOUT, EXT_READ_TIMEOUT} then lit ''transient''
      else text_in external_categories c)"

section \<open>What is injected\<close>

record 'w audit_writer =
  aw_reserve :: "nat \<Rightarrow> ai_call_event \<Rightarrow> reserve_context \<Rightarrow> 'w \<Rightarrow> reserve_status result \<times> 'w"
  aw_complete :: "nat \<Rightarrow> ai_call_event \<Rightarrow> 'w \<Rightarrow> complete_status result \<times> 'w"

text \<open>
  A runtime controller: a granted permit comes with whether it is the half-open probe. \<open>acquire\<close> fails with an
  error of the control or with a \<open>ValueError\<close> (\<open>Inl None\<close>), which the invocation catches as well.
\<close>

record ('c, 'p) runtime_controller =
  rt_acquire :: "pool \<Rightarrow> model_target \<Rightarrow> int \<Rightarrow> rat \<Rightarrow> 'c
    \<Rightarrow> (control_error option + bool \<times> 'p) \<times> 'c"
  rt_finish :: "'p \<Rightarrow> runtime_outcome \<Rightarrow> 'c \<Rightarrow> (control_error + unit) \<times> 'c"

datatype 'w llm_act = PermitAcquired | PermitFinished runtime_outcome | GatewayCalled llm_request 'w

record ('w, 'c) llm_world =
  lw_audit :: 'w
  lw_control :: 'c
  lw_trace :: "'w llm_act list"

text \<open>What one invocation reads from outside: identifier, request bytes, digest, clocks.\<close>

record llm_inputs =
  in_event_id :: uuid
  in_owner :: nat
  in_body :: "llm_request \<Rightarrow> nat list option"
  in_digest :: "nat list \<Rightarrow> pystr"
  in_clock_before :: rat
  in_clock_reserved :: rat
  in_clock_start :: rat
  in_clock_end :: rat
  in_started_at :: stamp
  in_completed_at :: stamp

record ('w, 'c, 'p) invoker =
  iv_registry :: "pystr \<rightharpoonup> llm_adapter"
  iv_target :: model_target
  iv_snapshot :: policy_snapshot
  iv_policy :: llm_policy
  iv_writer :: "'w audit_writer"
  iv_control :: "('c, 'p) runtime_controller option"

text \<open>\<open>AuditedLlmInvoker.__init__\<close>: the checks on the policy; the currency of the policy is always dollars.\<close>

definition new_invoker_checks :: "bool \<Rightarrow> int \<Rightarrow> unit result" where
  "new_invoker_checks calls_enabled version =
     check (calls_enabled \<and> version = 2) ''provider Policy v2 snapshot is not enabled''"

section \<open>Runtime control\<close>

definition acquire_runtime_permit ::
  "('w, 'c, 'p) invoker \<Rightarrow> call_identity \<Rightarrow> int \<Rightarrow> rat \<Rightarrow> ('w, 'c) llm_world
   \<Rightarrow> (llm_error + (bool \<times> 'p) option) \<times> ('w, 'c) llm_world" where
  "acquire_runtime_permit v i tokens lease_seconds w =
     (case iv_control v of
        None \<Rightarrow> (Inr None, w)
      | Some control \<Rightarrow> (case value_in call_types (ci_call_type i) of
          None \<Rightarrow> (Inl (InvocationError ''AI_RUNTIME_CONTROL_POOL_INVALID''), w)
        | Some purpose \<Rightarrow>
            (case rt_acquire control (pool_for_purpose purpose) (iv_target v) tokens lease_seconds (lw_control w) of
               (Inl None, c) \<Rightarrow> (Inl (InvocationError ''AI_RUNTIME_CONTROL_POOL_INVALID''), w\<lparr>lw_control := c\<rparr>)
             | (Inl (Some e), c) \<Rightarrow> (Inl (InvocationError (control_code e)), w\<lparr>lw_control := c\<rparr>)
             | (Inr granted, c) \<Rightarrow> (Inr (Some granted), w\<lparr>lw_control := c, lw_trace := lw_trace w @ [PermitAcquired]\<rparr>))))"

definition finish_runtime_permit ::
  "('w, 'c, 'p) invoker \<Rightarrow> (bool \<times> 'p) option \<Rightarrow> runtime_outcome \<Rightarrow> ('w, 'c) llm_world \<Rightarrow> bool \<times> ('w, 'c) llm_world" where
  "finish_runtime_permit v granted outcome w =
     (case (granted, iv_control v) of
        (Some (half, p), Some control) \<Rightarrow>
          (case rt_finish control p outcome (lw_control w) of (r, c) \<Rightarrow>
             ((case r of Inl _ \<Rightarrow> False | Inr _ \<Rightarrow> True), w\<lparr>lw_control := c, lw_trace := lw_trace w @ [PermitFinished outcome]\<rparr>))
      | _ \<Rightarrow> (True, w))"

section \<open>Before the call\<close>

text \<open>The request with the parameters of the policy, its bytes, the price list and the worst-case reservation.\<close>

definition prepare_call ::
  "('w, 'c, 'p) invoker \<Rightarrow> llm_inputs \<Rightarrow> llm_request \<Rightarrow> call_identity \<Rightarrow> operation_policy \<Rightarrow> pyval
   \<Rightarrow> llm_error + (llm_request \<times> nat list \<times> pricing_profile_v2 \<times> attempt_reservation_v2)" where
  "prepare_call v x request i operation repair_slots =
     bind_llm (lift_error (new_generation_parameters (Some (lp_temperature (iv_policy v))) (Some (lp_top_p (iv_policy v)))
       (PyInt (lo_max_output_tokens operation)))) (\<lambda>parameters.
     let request' = request\<lparr>lr_parameters := Some parameters\<rparr> in
     case in_body x request' of
       None \<Rightarrow> Inl (InvocationError ''AI_REQUEST_INVALID'')
     | Some body \<Rightarrow>
         bind_llm (lift_error (new_pricing_profile_v2 (PyStr (lp_pricing_version (iv_policy v))) EXTERNAL_USD (Some USD)
           (PyInt (lp_input_price (iv_policy v))) (PyInt (lp_output_price (iv_policy v))))) (\<lambda>pricing.
         bind_llm (lift_error (new_budget_profile_v2 (PyInt (lo_max_attempts operation))
           (PyInt (lo_max_input_tokens operation)) (PyInt (lo_max_output_tokens operation))
           (PyInt (lo_max_total_tokens operation)) (Some USD) (PyInt (lo_max_cost operation)))) (\<lambda>budget.
         bind_llm (on_value_error ''AI_BUDGET_PREFLIGHT_REJECTED'' (calculate_preflight_reservation_v2 budget pricing
           (PyInt (ci_attempt_no i - 1)) repair_slots (PyInt 0) (PyInt 0) (PyInt (int (length body) + 4096))
           (PyInt (lo_max_output_tokens operation)) (PyInt (lp_context_window (iv_policy v))))) (\<lambda>reservation.
         Inr (request', body, pricing, reservation)))))"

text \<open>The reservation: one more try with the same event when the outcome of the first is unknown.\<close>

definition reserve_twice ::
  "'w audit_writer \<Rightarrow> ai_call_event \<Rightarrow> call_scope \<Rightarrow> event_sink \<Rightarrow> 'w
   \<Rightarrow> (reserve_status \<times> sink_permit option) result \<times> event_sink \<times> 'w" where
  "reserve_twice writer e scope sk w =
     (case reserve_attempt_sync (aw_reserve writer 0) e scope sk w of
        (Inr (RESERVE_UNKNOWN, _), sk', w') \<Rightarrow> reserve_attempt_sync (aw_reserve writer 1) e scope sk' w'
      | r \<Rightarrow> r)"

definition reserve_call ::
  "('w, 'c, 'p) invoker \<Rightarrow> llm_inputs \<Rightarrow> call_identity \<Rightarrow> operation_policy \<Rightarrow> rat \<Rightarrow> nat list
   \<Rightarrow> attempt_reservation_v2 \<Rightarrow> bool option \<Rightarrow> 'w \<Rightarrow> (llm_error + (event_sink \<times> call_scope \<times> rat)) \<times> 'w" where
  "reserve_call v x i operation deadline body reservation half w =
     (case bind_llm (started_event_of (in_event_id x) i (iv_snapshot v) (iv_policy v) (in_digest x body)
             (res_input_tokens_v2 reservation) (res_output_tokens_v2 reservation) (res_cost_v2 reservation)
             (in_started_at x) half) (\<lambda>started.
           bind_llm (lift_error (new_audit_limits_v2 (PyInt (lo_max_attempts operation)) (PyInt (lo_max_input_tokens operation))
             (PyInt (lo_max_output_tokens operation)) (PyInt (lo_max_total_tokens operation)) (Some USD)
             (PyInt (lo_max_cost operation)))) (\<lambda>limits.
           bind_llm (lift_error (new_sink_event started)) (\<lambda>event.
           case create_call_scope (\<lambda>_. new_reserve_context limits (Some deadline) (Some 1)) event (new_event_sink (in_owner x)) of
             (r, sk) \<Rightarrow> bind_llm (lift_error r) (\<lambda>scope. Inr (event, scope, sk))))) of
        Inl e \<Rightarrow> (Inl e, w)
      | Inr (event, scope, sk) \<Rightarrow>
          (case reserve_twice (iv_writer v) event scope sk w of
             (Inl e, _, w') \<Rightarrow> (Inl (Escaped e), w')
           | (Inr (st, None), _, w') \<Rightarrow> (Inl (InvocationError ''AI_AUDIT_RESERVATION_UNAVAILABLE''), w')
           | (Inr (st, Some p), sk', w') \<Rightarrow>
               if st \<notin> {RESERVED_NEW, RESERVE_REPLAYED}
               then (Inl (InvocationError ''AI_AUDIT_RESERVATION_UNAVAILABLE''), w')
               else if deadline - in_clock_reserved x \<le> 1 then (Inl (InvocationError ''AI_DEADLINE_EXHAUSTED''), w')
               else (case use_send_permit p sk' of
                   (Inl e, _, _) \<Rightarrow> (Inl (Escaped e), w')
                 | (Inr _, _, sk'') \<Rightarrow> (Inr (sk'', scope, deadline - in_clock_reserved x), w'))))"

section \<open>After the call\<close>

text \<open>\<open>_complete_without_adoption\<close>: one more try with the same event when the outcome of the first is unknown.\<close>

definition complete_without_adoption ::
  "'w audit_writer \<Rightarrow> event_sink \<Rightarrow> call_scope \<Rightarrow> ai_call_event \<Rightarrow> 'w \<Rightarrow> (llm_error + unit) \<times> 'w" where
  "complete_without_adoption writer sk scope completed w =
     (case new_sink_event completed of
        Inl e \<Rightarrow> (Inl (Escaped e), w)
      | Inr event \<Rightarrow>
          (case (case complete_attempt_sync (aw_complete writer 0) event scope sk w of
              (Inr (COMPLETE_UNKNOWN, _), sk', w') \<Rightarrow> complete_attempt_sync (aw_complete writer 1) event scope sk' w'
            | r \<Rightarrow> r) of
             (Inl e, _, w') \<Rightarrow> (Inl (Escaped e), w')
           | (Inr (st, _), _, w') \<Rightarrow>
               (llm_check (st \<in> {COMPLETED_NEW, COMPLETE_REPLAYED}) ''AI_AUDIT_COMPLETION_UNAVAILABLE'', w')))"

text \<open>A call that ends without an adoptable answer: the completion is recorded, then the error is raised.\<close>

definition close_call ::
  "('w, 'c, 'p) invoker \<Rightarrow> call_identity \<Rightarrow> event_sink \<Rightarrow> call_scope \<Rightarrow> completion_args \<Rightarrow> llm_error
   \<Rightarrow> ('w, 'c) llm_world \<Rightarrow> (llm_error + 'r) \<times> ('w, 'c) llm_world" where
  "close_call v i sk scope a e w =
     (case completed_event_of i (iv_snapshot v) a of
        Inl e' \<Rightarrow> (Inl e', w)
      | Inr completed \<Rightarrow>
          (case complete_without_adoption (iv_writer v) sk scope completed (lw_audit w) of
             (Inl e', db) \<Rightarrow> (Inl e', w\<lparr>lw_audit := db\<rparr>)
           | (Inr _, db) \<Rightarrow> (Inl e, w\<lparr>lw_audit := db\<rparr>)))"

record completion_facts =
  cf_output_hash :: pystr
  cf_input_tokens :: int
  cf_output_tokens :: int
  cf_duration_ms :: int
  cf_cost :: int

record adoption =
  an_sink :: event_sink
  an_scope :: call_scope
  an_success :: ai_call_event
  an_facts :: completion_facts
  an_identity :: call_identity
  an_snapshot :: policy_snapshot
  an_used :: bool

definition duration_ms :: "llm_inputs \<Rightarrow> int" where
  "duration_ms x = max 0 \<lfloor>(in_clock_end x - in_clock_start x) * 1000\<rfloor>"

definition failed_args :: "llm_inputs \<Rightarrow> completion_args" where
  "failed_args x = \<lparr>ca_status = ''failed'', ca_completed_at = in_completed_at x, ca_duration_ms = duration_ms x,
     ca_output_hash = None, ca_input_tokens = None, ca_output_tokens = None, ca_http_status = None,
     ca_category = None, ca_safe_error = None, ca_cost = None\<rparr>"

text \<open>The arguments that every completion of a returned answer shares.\<close>

definition answered_args :: "llm_inputs \<Rightarrow> string \<Rightarrow> llm_result \<Rightarrow> completion_args" where
  "answered_args x st r = (failed_args x)\<lparr>ca_status := st, ca_output_hash := ll_body_sha256 r,
     ca_input_tokens := ll_input_tokens r, ca_output_tokens := ll_output_tokens r, ca_http_status := Some 200\<rparr>"

definition because :: "string \<Rightarrow> string \<Rightarrow> completion_args \<Rightarrow> completion_args" where
  "because category code a = a\<lparr>ca_category := Some (lit category), ca_safe_error := Some (lit code)\<rparr>"

text \<open>What follows the answer of the gateway.\<close>

definition settle_answer ::
  "('w, 'c, 'p) invoker \<Rightarrow> llm_inputs \<Rightarrow> call_identity \<Rightarrow> (pystr \<Rightarrow> 'a result) \<Rightarrow> pricing_profile_v2
   \<Rightarrow> attempt_reservation_v2 \<Rightarrow> (bool \<times> 'p) option \<Rightarrow> event_sink \<Rightarrow> call_scope \<Rightarrow> llm_result
   \<Rightarrow> ('w, 'c) llm_world \<Rightarrow> (llm_error + 'a \<times> adoption) \<times> ('w, 'c) llm_world" where
  "settle_answer v x i validate pricing reservation granted sk scope r w =
     (case (ll_input_tokens r, ll_output_tokens r, ll_body_sha256 r) of
        (Some input_tokens, Some output_tokens, Some hash) \<Rightarrow>
          (case calculate_request_cost_microunits pricing (PyInt input_tokens) (PyInt output_tokens) of
             Inl e \<Rightarrow> (Inl (Escaped e), w)
           | Inr reported \<Rightarrow>
          (case reconcile_actual_usage_v2 pricing reservation (PyInt input_tokens) (PyInt output_tokens)
                  (PyInt (input_tokens + output_tokens)) of
             Inl (ValueError _) \<Rightarrow>
               close_call v i sk scope ((because ''invalid_response'' ''AI_USAGE_EXCEEDS_RESERVATION''
                   (answered_args x ''rejected'' r))\<lparr>ca_cost := Some reported\<rparr>)
                 (InvocationError ''AI_USAGE_EXCEEDS_RESERVATION'') (snd (finish_runtime_permit v granted Neutral w))
           | Inl e \<Rightarrow> (Inl (Escaped e), w)
           | Inr usage \<Rightarrow>
          (case finish_runtime_permit v granted Success w of
             (False, w1) \<Rightarrow>
               close_call v i sk scope ((because ''transient'' ''AI_RUNTIME_CONTROL_UNAVAILABLE''
                   (answered_args x ''failed'' r))\<lparr>ca_cost := Some (used_cost_v2 usage)\<rparr>)
                 (InvocationError ''AI_RUNTIME_CONTROL_UNAVAILABLE'') w1
           | (True, w1) \<Rightarrow>
          (case validate (ll_output r) of
             Inl (ValueError _) \<Rightarrow>
               close_call v i sk scope ((because ''invalid_response'' ''AI_STRUCTURED_OUTPUT_INVALID''
                   (answered_args x ''rejected'' r))\<lparr>ca_cost := Some (used_cost_v2 usage)\<rparr>)
                 (OutputRejected ''AI_STRUCTURED_OUTPUT_INVALID'') w1
           | Inl e \<Rightarrow> (Inl (Escaped e), w1)
           | Inr val \<Rightarrow>
               (bind_llm (completed_event_of i (iv_snapshot v)
                    ((answered_args x ''succeeded'' r)\<lparr>ca_cost := Some (used_cost_v2 usage)\<rparr>)) (\<lambda>success.
                bind_llm (lift_error (new_sink_event success)) (\<lambda>event.
                Inr (val, \<lparr>an_sink = sk, an_scope = scope, an_success = event,
                  an_facts = \<lparr>cf_output_hash = hash, cf_input_tokens = input_tokens, cf_output_tokens = output_tokens,
                    cf_duration_ms = duration_ms x, cf_cost = used_cost_v2 usage\<rparr>,
                  an_identity = i, an_snapshot = iv_snapshot v, an_used = False\<rparr>))), w1)))))
      | _ \<Rightarrow> close_call v i sk scope (because ''invalid_response'' ''AI_USAGE_UNAVAILABLE'' (answered_args x ''failed'' r))
          (InvocationError ''AI_USAGE_UNAVAILABLE'') (snd (finish_runtime_permit v granted Neutral w)))"

definition call_gateway ::
  "('w, 'c, 'p) invoker \<Rightarrow> llm_inputs \<Rightarrow> call_identity \<Rightarrow> (pystr \<Rightarrow> 'a result) \<Rightarrow> pricing_profile_v2
   \<Rightarrow> attempt_reservation_v2 \<Rightarrow> (bool \<times> 'p) option \<Rightarrow> llm_request \<Rightarrow> event_sink \<Rightarrow> call_scope \<Rightarrow> rat
   \<Rightarrow> ('w, 'c) llm_world \<Rightarrow> (llm_error + 'a \<times> adoption) \<times> ('w, 'c) llm_world" where
  "call_gateway v x i validate pricing reservation granted request sk scope remaining w =
     (case new_transport_policy (Some (min 5 remaining)) (Some remaining) (Some remaining) (PyInt 1) of
        Inl e \<Rightarrow> (Inl (Escaped e), w)
      | Inr transport \<Rightarrow>
        (let w1 = w\<lparr>lw_trace := lw_trace w @ [GatewayCalled request (lw_audit w)]\<rparr> in
         case gateway_generate (iv_registry v) request (iv_target v) transport of
           Inl problem \<Rightarrow>
             close_call v i sk scope (because ''provider_configuration_error'' ''AI_GATEWAY_FAILURE'' (failed_args x))
               (InvocationError ''AI_GATEWAY_FAILURE'')
               (snd (finish_runtime_permit v granted
                 (case problem of GatewayAdapterFailed _ \<Rightarrow> TransientFailure | _ \<Rightarrow> Neutral) w1))
         | Inr (LlmFailure e) \<Rightarrow>
             close_call v i sk scope ((failed_args x)\<lparr>ca_http_status := ee_status_code e,
                 ca_category := Some (event_category_of (ee_category e)),
                 ca_safe_error := Some (lit (safe_error_of (ee_category e)))\<rparr>)
               (InvocationError (safe_error_of (ee_category e)))
               (snd (finish_runtime_permit v granted
                 (if error_disposition e = DISPOSE_TRANSIENT then TransientFailure else Neutral) w1))
         | Inr (LlmAnswer r) \<Rightarrow> settle_answer v x i validate pricing reservation granted sk scope r w1))"

text \<open>\<open>invoke\<close>.\<close>

definition invoke ::
  "('w, 'c, 'p) invoker \<Rightarrow> llm_inputs \<Rightarrow> llm_request \<Rightarrow> call_identity \<Rightarrow> operation_policy \<Rightarrow> rat \<Rightarrow> pyval
   \<Rightarrow> (pystr \<Rightarrow> 'a result) \<Rightarrow> ('w, 'c) llm_world \<Rightarrow> (llm_error + 'a \<times> adoption) \<times> ('w, 'c) llm_world" where
  "invoke v x request identity operation deadline repair_slots validate w =
     (let i = identity\<lparr>ci_event_id := Some (in_event_id x)\<rparr> in
      case prepare_call v x request i operation repair_slots of
        Inl e \<Rightarrow> (Inl e, w)
      | Inr (request', body, pricing, reservation) \<Rightarrow>
        if deadline - in_clock_before x \<le> 1 then (Inl (InvocationError ''AI_DEADLINE_EXHAUSTED''), w)
        else (case acquire_runtime_permit v i (res_input_tokens_v2 reservation + res_output_tokens_v2 reservation)
                 (deadline - in_clock_before x) w of
            (Inl e, w1) \<Rightarrow> (Inl e, w1)
          | (Inr granted, w1) \<Rightarrow>
            (case reserve_call v x i operation deadline body reservation (map_option fst granted) (lw_audit w1) of
               (Inl e, db) \<Rightarrow> (Inl e, snd (finish_runtime_permit v granted Neutral (w1\<lparr>lw_audit := db\<rparr>)))
             | (Inr (sk, scope, remaining), db) \<Rightarrow>
                 call_gateway v x i validate pricing reservation granted request' sk scope remaining (w1\<lparr>lw_audit := db\<rparr>))))"

section \<open>Adoption\<close>

text \<open>\<open>adopt_in_transaction\<close> and \<open>reject_in_transaction\<close>; the writer is that of the caller's transaction.\<close>

definition adopt_in_transaction ::
  "(ai_call_event \<Rightarrow> 'w \<Rightarrow> complete_status result \<times> 'w) \<Rightarrow> adoption \<Rightarrow> 'w \<Rightarrow> (llm_error + unit) \<times> adoption \<times> 'w" where
  "adopt_in_transaction writer a w =
     (if an_used a then (Inl (InvocationError ''AI_ADOPTION_ALREADY_USED''), a, w)
      else (case complete_attempt_sync writer (an_success a) (an_scope a) (an_sink a) w of
          (Inl e, sk, w') \<Rightarrow> (Inl (Escaped e), a\<lparr>an_sink := sk\<rparr>, w')
        | (Inr (st, None), sk, w') \<Rightarrow> (Inl (InvocationError ''AI_AUDIT_ADOPTION_UNAVAILABLE''), a\<lparr>an_sink := sk\<rparr>, w')
        | (Inr (st, Some p), sk, w') \<Rightarrow>
            if st \<noteq> COMPLETED_NEW
            then (Inl (InvocationError ''AI_AUDIT_ADOPTION_UNAVAILABLE''), a\<lparr>an_sink := sk\<rparr>, w')
            else (case use_adopt_permit p sk of
                (Inl e, _, sk') \<Rightarrow> (Inl (Escaped e), a\<lparr>an_sink := sk'\<rparr>, w')
              | (Inr _, _, sk') \<Rightarrow> (Inr (), a\<lparr>an_sink := sk', an_used := True\<rparr>, w'))))"

definition reject_in_transaction ::
  "(ai_call_event \<Rightarrow> 'w \<Rightarrow> complete_status result \<times> 'w) \<Rightarrow> pystr \<Rightarrow> stamp \<Rightarrow> adoption \<Rightarrow> 'w
   \<Rightarrow> (llm_error + unit) \<times> adoption \<times> 'w" where
  "reject_in_transaction writer safe_error ended a w =
     (if an_used a then (Inl (InvocationError ''AI_ADOPTION_ALREADY_USED''), a, w)
      else (case bind_llm (completed_event_of (an_identity a) (an_snapshot a)
              \<lparr>ca_status = ''rejected'', ca_completed_at = ended, ca_duration_ms = cf_duration_ms (an_facts a),
               ca_output_hash = Some (cf_output_hash (an_facts a)), ca_input_tokens = Some (cf_input_tokens (an_facts a)),
               ca_output_tokens = Some (cf_output_tokens (an_facts a)), ca_http_status = Some 200,
               ca_category = Some (lit ''invalid_response''), ca_safe_error = Some safe_error,
               ca_cost = Some (cf_cost (an_facts a))\<rparr>) (\<lambda>rejected. lift_error (new_sink_event rejected)) of
          Inl e \<Rightarrow> (Inl e, a, w)
        | Inr event \<Rightarrow>
            (case complete_attempt_sync writer event (an_scope a) (an_sink a) w of
               (Inl e, sk, w') \<Rightarrow> (Inl (Escaped e), a\<lparr>an_sink := sk\<rparr>, w')
             | (Inr (st, _), sk, w') \<Rightarrow>
                 if st \<noteq> COMPLETED_NEW
                 then (Inl (InvocationError ''AI_AUDIT_REJECTION_UNAVAILABLE''), a\<lparr>an_sink := sk\<rparr>, w')
                 else (Inr (), a\<lparr>an_sink := sk, an_used := True\<rparr>, w'))))"

end
