(* ===== verification/AuditedLlmSamples.thy ===== *)
theory AuditedLlmSamples
  imports AuditedLlm
begin

text \<open>
  A sample invocation, evaluated: an empty audit, a control that grants every permit, and a provider that answers
  within the reservation; the answer is then adopted in a transaction.
\<close>

lemma new_sink_event_same: "valid_event e \<Longrightarrow> new_sink_event e = Inr e' \<longleftrightarrow> e' = e"
  by (auto simp: new_sink_event_def valid_view simp del: event_payload.simps)

section \<open>The sample\<close>

definition llm_call :: call_correlation where
  "llm_call = sample_call\<lparr>cc_policy_version := 2\<rparr>"

definition llm_started :: started_event where
  "llm_started = (sample_started (lit ''answer''))\<lparr>st_call := llm_call, st_schema_version := Some (lit ''s1''),
     st_model_version := Some (lit ''v1''), st_input_tokens := 4096, st_cost := Microunits (Some USD) 4146\<rparr>"

definition llm_completed :: completed_event where
  "llm_completed = sample_completed\<lparr>co_call := llm_call, co_cost := Some (Some USD, Some 130)\<rparr>"

definition sample_identity :: call_identity where
  "sample_identity = \<lparr>ci_organization_id = 1, ci_operation_id = 2, ci_job_id = None,
     ci_resource_type = Some (lit ''contract''), ci_resource_id = Some 9, ci_trace_id = 3, ci_call_type = lit ''rag_answer'',
     ci_generation_no = 1, ci_attempt_no = 1, ci_prompt_id = lit ''answer'', ci_prompt_version = lit ''v1'',
     ci_prompt_hash = replicate 64 98, ci_schema_version = lit ''s1'', ci_event_id = None\<rparr>"

definition sample_operation :: operation_policy where
  "sample_operation = \<lparr>lo_deadline_seconds = 100, lo_max_attempts = 3, lo_max_repairs = 1, lo_max_input_tokens = 10000,
     lo_max_output_tokens = 50, lo_max_total_tokens = 30000, lo_max_cost = 30000\<rparr>"

definition sample_target :: model_target where
  "sample_target = \<lparr>target_adapter = lit ''a'', target_model = lit ''m''\<rparr>"

definition llm_sample_request :: llm_request where
  "llm_sample_request = \<lparr>lr_trace_id = lit ''t'', lr_system = lit ''s'', lr_user = lit ''u'', lr_parameters = None\<rparr>"

definition sample_answer :: llm_result where
  "sample_answer = \<lparr>ll_trace_id = lit ''t'', ll_target = sample_target, ll_output = lit ''ok'', ll_input_tokens = Some 90,
     ll_output_tokens = Some 40, ll_body_sha256 = Some (replicate 64 98)\<rparr>"

definition sample_inputs :: llm_inputs where
  "sample_inputs = \<lparr>in_event_id = 7, in_owner = 0, in_body = (\<lambda>_. Some []), in_digest = (\<lambda>_. replicate 64 99),
     in_clock_before = 2, in_clock_reserved = 3, in_clock_start = 3, in_clock_end = 5,
     in_started_at = (Date 2026 8 20, 0), in_completed_at = (Date 2026 8 20, 2000000)\<rparr>"

definition sample_policy :: llm_policy where
  "sample_policy = \<lparr>lp_endpoint_id = lit ''primary'', lp_model_id = lit ''m'', lp_model_version = lit ''v1'',
     lp_context_window = 100000, lp_pricing_version = lit ''p1'', lp_input_price = 1000000, lp_output_price = 1000000,
     lp_temperature = 0, lp_top_p = 1\<rparr>"

definition sample_invoker :: "'w audit_writer \<Rightarrow> ('w, unit, unit) invoker" where
  "sample_invoker writer = \<lparr>iv_registry = [lit ''a'' \<mapsto> \<lambda>_ _ _. AdapterReturns (LlmAnswer sample_answer)],
     iv_target = sample_target, iv_snapshot = \<lparr>sn_version = 2, sn_hash = replicate 64 97\<rparr>, iv_policy = sample_policy,
     iv_writer = writer,
     iv_control = Some \<lparr>rt_acquire = \<lambda>_ _ _ _ c. (Inr (False, ()), c), rt_finish = \<lambda>_ _ c. (Inr (), c)\<rparr>\<rparr>"

section \<open>Its events\<close>

lemma llm_started_valid: "valid_event (Started llm_started)"
  using call_sample_texts sample_stamp
    by (intro valid_startedI)
      (simp_all add: llm_started_def llm_call_def sample_started_def sample_call_def started_contract_def max_safe_integer_def
        null_field_def null_value_def text_field_def positive_field_def count_field_def safe_integer_def day_microseconds_def
        text_shape_defs lit_def is_alnum_def is_upper_def is_lower_def is_decimal_digit_def among_def)

lemma llm_completed_valid: "valid_event (Completed llm_completed)"
  using call_sample_texts sample_stamp
  by (intro valid_completedI)
    (simp_all add: llm_completed_def llm_call_def sample_completed_def sample_call_def status_matrix_def unmetered_free_def
      cost_known_def max_safe_integer_def null_field_def null_value_def text_field_def count_field_def safe_integer_def
      http_field_def day_microseconds_def printed_choice choice_defs)

definition sample_started_document :: py_dict where
  "sample_started_document = started_document 7 (sample_identity\<lparr>ci_event_id := Some 7\<rparr>)
     \<lparr>sn_version = 2, sn_hash = replicate 64 97\<rparr> sample_policy (replicate 64 99) 4096 50 4146 (Date 2026 8 20, 0) (Some False)"

text \<open>The sample records, unfolded, and the fields that are printed and read again.\<close>

lemmas sample_records = sample_identity_def sample_policy_def llm_started_def llm_call_def sample_started_def sample_call_def
lemmas optional_fields = opt_uuid_def opt_text_def opt_int_def null_value_def

lemma sample_choices:
  "value_in call_types (lit ''rag_answer'') = Some RAG_ANSWER"
  "value_in adapters (lit ''openai_chat_completions_v1'') = Some CHAT_COMPLETIONS_V1"
  "value_in currencies (lit ''USD'') = Some USD" "value_in breaker_states (lit ''closed'') = Some BREAKER_CLOSED"
  "value_in completed_statuses (lit ''succeeded'') = Some CALL_SUCCEEDED"
  by (simp_all add: value_in_def choice_defs lit_def)

lemma llm_sample_texts: "safe_text (lit ''answer'') = Some (lit ''answer'')" "safe_text (lit ''s1'') = Some (lit ''s1'')"
  by (simp_all add: text_shape_defs lit_def is_alnum_def is_upper_def is_lower_def is_decimal_digit_def among_def)

lemmas sample_readings = call_sample_texts llm_sample_texts sample_choices stamp.read_render sample_stamp text_field_def null_field_def
  positive_field_def count_field_def safe_integer_def max_safe_integer_def day_microseconds_def read_uuid_str bool_field_def
  http_field_def

text \<open>A document is closed when its names are the required ones, in whatever order; the builders write the same groups
  of names as the payload in another order.\<close>

lemma closed_by_names: "set (map fst d) = set required \<Longrightarrow> closed_document required [] d"
  by (rule closed_documentI) simp_all

lemma regrouped_names: "set (a @ b @ c @ d @ e @ f @ g @ h @ k) = set (a @ (b @ d @ f) @ (c @ e @ g @ k) @ h)"
  by auto

lemma started_field_names: "started_fields 2 = envelope_fields
    @ ([''organization_id'', ''business_operation_id'', ''job_id'', ''request_id''] @ [''trace_id'']
       @ [''policy_version'', ''policy_hash''])
    @ ([''resource_type'', ''resource_id'']
       @ [''call_type'', ''logical_generation_no'', ''provider_attempt_no'', ''adapter_id'', ''endpoint_id'', ''model_id'',
          ''model_version'', ''prompt_id'', ''prompt_version'', ''prompt_hash'', ''schema_version'']
       @ [''pricing_version'', ''input_hash'', ''reserved_input_tokens'', ''reserved_output_tokens'']
       @ [''attempt_count'', ''is_fallback'', ''breaker_state'', ''status'', ''started_at''])
    @ [''cost_currency'', ''reserved_cost_microunits'']"
  by (simp add: started_fields_def correlation_fields_def)

lemma started_document_names: "map fst (started_document i c sn p h m n k t b) = envelope_fields
    @ [''organization_id'', ''business_operation_id'', ''job_id'', ''request_id''] @ [''resource_type'', ''resource_id'']
    @ [''trace_id'']
    @ [''call_type'', ''logical_generation_no'', ''provider_attempt_no'', ''adapter_id'', ''endpoint_id'', ''model_id'',
       ''model_version'', ''prompt_id'', ''prompt_version'', ''prompt_hash'', ''schema_version'']
    @ [''policy_version'', ''policy_hash'']
    @ [''pricing_version'', ''input_hash'', ''reserved_input_tokens'', ''reserved_output_tokens'']
    @ [''cost_currency'', ''reserved_cost_microunits'']
    @ [''attempt_count'', ''is_fallback'', ''breaker_state'', ''status'', ''started_at'']"
  by (simp add: started_document_def envelope_fields_def)

lemma completed_field_names: "completed_fields 2 = envelope_fields
    @ ([''organization_id'', ''business_operation_id'', ''job_id'', ''request_id'', ''trace_id'', ''policy_version'', ''policy_hash'']
       @ [] @ [])
    @ ([] @ [] @ []
       @ [''status'', ''completed_at'', ''duration_ms'', ''output_hash'', ''input_tokens'', ''output_tokens'', ''vector_count'',
          ''http_status'', ''error_category'', ''safe_error_code'', ''citation_validation_status''])
    @ [''cost_currency'', ''actual_cost_microunits'']"
  by (simp add: completed_fields_def correlation_fields_def)

lemma completed_document_names: "map fst (completed_document i c sn a) = envelope_fields
    @ [''organization_id'', ''business_operation_id'', ''job_id'', ''request_id'', ''trace_id'', ''policy_version'', ''policy_hash'']
    @ [] @ [] @ [] @ [] @ [] @ [''cost_currency'', ''actual_cost_microunits'']
    @ [''status'', ''completed_at'', ''duration_ms'', ''output_hash'', ''input_tokens'', ''output_tokens'', ''vector_count'',
       ''http_status'', ''error_category'', ''safe_error_code'', ''citation_validation_status'']"
  by (simp add: completed_document_def envelope_fields_def)

lemma sample_started_read: "read_started 2 sample_started_document = Some llm_started"
  unfolding read_started_iff
proof (intro conjI)
  note document = sample_started_document_def started_document_def
  show "closed_document (started_fields 2) [] sample_started_document"
    by (rule closed_by_names, unfold sample_started_document_def started_document_names started_field_names)
      (rule regrouped_names)
  show "envelope_valid 2 1 ''ai.call.started'' sample_started_document"
    by (simp add: document envelope_valid_def fld_def sample_readings)
  show "started_contract llm_started" by (simp add: started_contract_def sample_records)
  show "read_correlation sample_started_document = Some (st_call llm_started)"
    by (simp add: document read_correlation_def fld_def sample_records optional_fields sample_readings)
qed (simp_all add: sample_started_document_def started_document_def read_reserved_cost_def fld_def sample_records
       optional_fields sample_readings)

lemma sample_started_event:
  "started_event_of 7 (sample_identity\<lparr>ci_event_id := Some 7\<rparr>) \<lparr>sn_version = 2, sn_hash = replicate 64 97\<rparr> sample_policy
     (replicate 64 99) 4096 50 4146 (Date 2026 8 20, 0) (Some False) = Inr (Started llm_started)"
  using sample_started_read
  by (simp add: started_event_of_def validate_ai_call_event_v2_def read_event_def sample_started_document_def [symmetric])
    (simp add: sample_started_document_def started_document_def)

definition sample_completion_args :: completion_args where
  "sample_completion_args = (answered_args sample_inputs ''succeeded'' sample_answer)\<lparr>ca_cost := Some 130\<rparr>"

lemma sample_completed_event:
  "completed_event_of (sample_identity\<lparr>ci_event_id := Some 7\<rparr>) \<lparr>sn_version = 2, sn_hash = replicate 64 97\<rparr>
     sample_completion_args = Inr (Completed llm_completed)"
proof -
  define d where "d = completed_document 7 (sample_identity\<lparr>ci_event_id := Some 7\<rparr>) \<lparr>sn_version = 2, sn_hash = replicate 64 97\<rparr>
     sample_completion_args"
  note document = d_def completed_document_def
  note records = sample_records llm_completed_def sample_completed_def sample_completion_args_def answered_args_def
    failed_args_def sample_inputs_def sample_answer_def duration_ms_def
  have "read_completed 2 d = Some llm_completed"
    unfolding read_completed_iff
  proof (intro conjI)
    show "closed_document (completed_fields 2) [] d"
      by (rule closed_by_names, unfold d_def completed_document_names completed_field_names) (rule regrouped_names)
    show "envelope_valid 2 2 ''ai.call.completed'' d"
      by (simp add: document envelope_valid_def fld_def sample_readings)
    show "status_matrix llm_completed"
      by (simp add: llm_completed_def sample_completed_def status_matrix_def unmetered_free_def cost_known_def)
    show "read_correlation d = Some (co_call llm_completed)"
      by (simp add: document read_correlation_def fld_def records optional_fields sample_readings)
  qed (simp_all add: document read_actual_cost_def fld_def records optional_fields sample_readings)
  moreover have "map_of d ''event_type'' = Some (PyStr (lit ''ai.call.completed''))" by (simp add: document)
  ultimately show ?thesis
    by (simp add: completed_event_of_def validate_ai_call_event_v2_def read_event_def d_def)
qed

section \<open>Its transactions\<close>

definition llm_limits :: audit_limits where
  "llm_limits = \<lparr>lim_attempts = 3, lim_input_tokens = 10000, lim_output_tokens = 50, lim_total_tokens = 30000,
       lim_cost = Microunits (Some USD) 30000\<rparr>"

definition llm_row :: outbox_event where
  "llm_row = outbox_row 5 10 (Started llm_started) (event_payload (Started llm_started))"

definition llm_completed_row :: outbox_event where
  "llm_completed_row = outbox_row 6 20 (Completed llm_completed) (event_payload (Completed llm_completed))"

lemma llm_storable:
  "json_storable (json_of_dict (event_payload (Started llm_started)))"
  "json_storable (json_of_dict (event_payload (Completed llm_completed)))"
proof -
  have dict: "json_storable (json_of_dict d)" if "list_all (\<lambda>(_, v). case v of PyStr t \<Rightarrow> 0 \<notin> set t | _ \<Rightarrow> True) d" for d
    using that storable_value by (induction d) (auto simp: json_storable_def json_of_dict_def)
  show "json_storable (json_of_dict (event_payload (Started llm_started)))"
    by (rule dict) (simp add: started_payload_def envelope_payload_def Let_def null_value_def sample_records
        currency_value_def text_in_def choice_defs lit_def started_version_def)
  show "json_storable (json_of_dict (event_payload (Completed llm_completed)))"
    by (rule dict) (simp add: completed_payload_def envelope_payload_def Let_def null_value_def llm_completed_def
        sample_completed_def llm_call_def sample_call_def currency_value_def text_in_def choice_defs lit_def)
qed

lemma llm_reserved:
  "reserve_attempt 5 10 (Some 100) (Some 1) (Some 2) (Started llm_started) llm_limits no_rows
     = Inr (RESERVED_NEW, no_rows\<lparr>ad_events := [llm_row]\<rparr>)"
proof -
  have added: "add_outbox 5 10 (Started llm_started) (event_payload (Started llm_started)) no_rows
      = Inr (no_rows\<lparr>ad_events := [llm_row]\<rparr>)"
    using llm_storable(1)
    by (simp add: add_outbox_def insert_event_def Let_def llm_row_def outbox_row_def event_insert_trigger_def
        event_checks_def event_identity_checks_def event_state_matrix_def no_rows_def sql_truth started_version_def
        sample_records btrim_empty_def)
  show ?thesis
    unfolding reserve_attempt_def valid_view [OF llm_started_valid]
    using added
    by (simp add: started_version_def llm_started_def sample_started_def limits_version_def llm_limits_def event_row_def
        validate_deadline_def operation_started_events_def cost_exceeded_def no_rows_def del: event_payload.simps)
qed

lemma llm_completion:
  "append_completion 6 20 (Completed llm_completed) (no_rows\<lparr>ad_events := [llm_row]\<rparr>)
    = Inr (COMPLETED_NEW, no_rows\<lparr>ad_events := [llm_row, llm_completed_row]\<rparr>)"
proof -
  let ?db = "no_rows\<lparr>ad_events := [llm_row]\<rparr>"
  have row: "event_id (event_fixed llm_row) = 7" "event_type (event_fixed llm_row) = ''ai.call.started''"
    "event_status llm_row = PENDING" "outbox_id (event_fixed llm_row) = 5"
    "aggregate_type (event_fixed llm_row) = ''ai_call''" "aggregate_id (event_fixed llm_row) = 7"
    "event_sequence (event_fixed llm_row) = 1"
    by (simp_all add: llm_row_def outbox_row_def Let_def sample_records)
  have call: "cc_event_id (co_call llm_completed) = 7" by (simp add: llm_completed_def sample_records)
  have stored: "event_from_row llm_row = Inr (Started llm_started)"
    unfolding llm_row_def by (rule stored_fields(3) [OF stored_new [OF llm_started_valid]])
  have added: "add_outbox 6 20 (Completed llm_completed) (event_payload (Completed llm_completed)) ?db
      = Inr (no_rows\<lparr>ad_events := [llm_row, llm_completed_row]\<rparr>)"
    using llm_storable(2) row call
    by (simp add: add_outbox_def insert_event_def Let_def llm_completed_row_def outbox_row_def event_insert_trigger_def
        event_checks_def event_identity_checks_def event_state_matrix_def no_rows_def sql_truth
        llm_completed_def sample_completed_def btrim_empty_def)
  have "\<not> text_before (Date 2026 8 20, 2000000) (Date 2026 8 20, 0)"
    by (subst text_before_iff) (simp_all add: sample_stamp day_microseconds_def stamp_time_def)
  then have "chained llm_started llm_completed"
    by (simp add: chained_def llm_started_def sample_started_def llm_completed_def sample_completed_def started_version_def
        outcome_fits_def)
  then have chain: "validate_ai_call_event_chain_any llm_started llm_completed None = Inr ()"
    using chain_any_iff [OF llm_started_valid llm_completed_valid, of None] by simp
  show ?thesis
    unfolding append_completion_def valid_view [OF llm_completed_valid]
    using added chain row call stored
    by (simp add: event_row_def unless_conflict_def is_late_def no_rows_def find_log_def del: event_payload.simps)
qed

section \<open>Its run\<close>

definition sent_request :: llm_request where
  "sent_request = llm_sample_request\<lparr>lr_parameters := Some \<lparr>gen_temperature = 0, gen_top_p = 1, gen_max_tokens = 50\<rparr>\<rparr>"

definition llm_pricing :: pricing_profile_v2 where
  "llm_pricing = \<lparr>pricing_version_v2 = lit ''p1'', pricing_mode_v2 = EXTERNAL_USD, pricing_currency = Some USD,
     input_price_v2 = 1000000, output_price_v2 = 1000000\<rparr>"

definition llm_reservation :: attempt_reservation_v2 where
  "llm_reservation = \<lparr>res_pricing_version_v2 = lit ''p1'', res_currency = Some USD, res_input_tokens_v2 = 4096,
     res_output_tokens_v2 = 50, res_cost_v2 = 4146\<rparr>"

lemma sample_price_text: "non_blank (lit ''p1'')"
  by (auto simp: lit_def non_blank_iff py_isspace_def)

lemma sample_preflight:
  assumes "max_provider_attempts_v2 b = 3" "max_input_tokens_v2 b = 10000" "max_output_tokens_v2 b = 50"
    "max_total_tokens_v2 b = 30000" "budget_currency b = Some USD" "max_cost_v2 b = 30000"
  shows "calculate_preflight_reservation_v2 b llm_pricing (PyInt 0) (PyInt 1) (PyInt 0) (PyInt 0) (PyInt 4096)
     (PyInt 50) (PyInt 100000) = Inr llm_reservation"
  using assms sample_price_text
  by (simp add: preflight_v2_iff new_reservation_v2_iff llm_pricing_def llm_reservation_def request_cost_def
      tokens_per_million_def Let_def)

lemma sample_prepared:
  "prepare_call (sample_invoker writer) sample_inputs llm_sample_request (sample_identity\<lparr>ci_event_id := Some 7\<rparr>)
     sample_operation (PyInt 1) = Inr (sent_request, [], llm_pricing, llm_reservation)"
  using sample_price_text sample_preflight
  by (simp add: prepare_call_def sample_invoker_def sample_policy_def sample_operation_def sample_inputs_def sample_identity_def
      sent_request_def llm_sample_request_def new_generation_parameters_def require_positive_integer_def guard_def Let_def
      bind_llm_def lift_error_def on_value_error_def new_pricing_profile_v2_def require_non_empty_def
      require_non_negative_integer_def new_budget_profile_v2_def llm_pricing_def)

definition llm_scope :: call_scope where
  "llm_scope = \<lparr>scope_no = 0, scope_event_id = 7, scope_generation = 0, scope_owner = 0\<rparr>"

definition llm_context :: reserve_context where
  "llm_context = \<lparr>ctx_limits = llm_limits, ctx_deadline = 100, ctx_minimum = 1\<rparr>"

definition llm_sink :: event_sink where
  "llm_sink = (new_event_sink 0)\<lparr>sk_scopes := 1, sk_contexts := [llm_scope \<mapsto> llm_context], sk_sent := [7 \<mapsto> llm_scope]\<rparr>"

lemma llm_ids [simp]: "cc_event_id (st_call llm_started) = 7" "cc_event_id (co_call llm_completed) = 7"
  "co_status llm_completed = CALL_SUCCEEDED"
  by (simp_all add: sample_records llm_completed_def sample_completed_def)

lemma llm_sink_events: "new_sink_event (Started llm_started) = Inr (Started llm_started)"
  "new_sink_event (Completed llm_completed) = Inr (Completed llm_completed)"
  using llm_started_valid llm_completed_valid by (simp_all add: new_sink_event_same)

lemma sample_reserve_call:
  assumes "aw_reserve writer 0 (Started llm_started) llm_context w = (Inr RESERVED_NEW, w1)"
  shows "reserve_call (sample_invoker writer) sample_inputs (sample_identity\<lparr>ci_event_id := Some 7\<rparr>) sample_operation 100 []
     llm_reservation (Some False) w = (Inr (llm_sink, llm_scope, 97), w1)"
proof -
  have started: "started_event_of (in_event_id sample_inputs) (sample_identity\<lparr>ci_event_id := Some 7\<rparr>)
      (iv_snapshot (sample_invoker writer)) (iv_policy (sample_invoker writer)) (in_digest sample_inputs [])
      (res_input_tokens_v2 llm_reservation) (res_output_tokens_v2 llm_reservation) (res_cost_v2 llm_reservation)
      (in_started_at sample_inputs) (Some False) = Inr (Started llm_started)"
    using sample_started_event by (simp add: sample_inputs_def sample_invoker_def llm_reservation_def)
  have limits: "new_audit_limits_v2 (PyInt (lo_max_attempts sample_operation)) (PyInt (lo_max_input_tokens sample_operation))
      (PyInt (lo_max_output_tokens sample_operation)) (PyInt (lo_max_total_tokens sample_operation)) (Some USD)
      (PyInt (lo_max_cost sample_operation)) = Inr llm_limits"
    by (simp add: new_audit_limits_v2_def sample_operation_def llm_limits_def exact_count_def guard_def)
  have ctx: "new_reserve_context llm_limits (Some 100) (Some 1) = Inr llm_context"
    by (simp add: new_reserve_context_def llm_context_def)
  show ?thesis
    unfolding reserve_call_def started limits
    using assms llm_started_valid
    by (simp add: bind_llm_def lift_error_def llm_sink_events create_call_scope_def new_event_sink_def ctx Let_def
        reserve_twice_def reserve_attempt_sync_def validate_scope_def settle_reserve_def issue_send_permit_def
        new_reserve_decision_def consume_def consume_send_def llm_scope_def llm_sink_def sample_inputs_def sample_invoker_def
        del: event_payload.simps)
qed

definition llm_adoption :: adoption where
  "llm_adoption = \<lparr>an_sink = llm_sink, an_scope = llm_scope, an_success = Completed llm_completed,
     an_facts = \<lparr>cf_output_hash = replicate 64 98, cf_input_tokens = 90, cf_output_tokens = 40, cf_duration_ms = 2000, cf_cost = 130\<rparr>,
     an_identity = sample_identity\<lparr>ci_event_id := Some 7\<rparr>, an_snapshot = \<lparr>sn_version = 2, sn_hash = replicate 64 97\<rparr>,
     an_used = False\<rparr>"

lemma sample_settled:
  "settle_answer (sample_invoker writer) sample_inputs (sample_identity\<lparr>ci_event_id := Some 7\<rparr>) Inr llm_pricing
     llm_reservation (Some (False, ())) llm_sink llm_scope sample_answer w
   = (Inr (lit ''ok'', llm_adoption), w\<lparr>lw_trace := lw_trace w @ [PermitFinished Success]\<rparr>)"
proof -
  have usage: "reconcile_actual_usage_v2 llm_pricing llm_reservation (PyInt 90) (PyInt 40) (PyInt 130)
     = Inr \<lparr>used_input_tokens_v2 = 90, used_output_tokens_v2 = 40, used_total_tokens_v2 = 130, used_currency = Some USD,
         used_cost_v2 = 130\<rparr>"
    by (simp add: reconcile_v2_iff llm_pricing_def llm_reservation_def request_cost_def tokens_per_million_def Let_def)
  have cost: "calculate_request_cost_microunits llm_pricing (PyInt 90) (PyInt 40) = Inr 130"
    by (simp add: calculate_request_cost_microunits_def llm_pricing_def request_cost_def tokens_per_million_def)
  have args: "(answered_args sample_inputs ''succeeded'' sample_answer)\<lparr>ca_cost := Some 130\<rparr> = sample_completion_args"
    by (simp add: sample_completion_args_def)
  have answer: "ll_input_tokens sample_answer = Some 90" "ll_output_tokens sample_answer = Some 40"
    "ll_body_sha256 sample_answer = Some (replicate 64 98)" "ll_output sample_answer = lit ''ok''"
    by (simp_all add: sample_answer_def)
  have snapshot: "iv_snapshot (sample_invoker writer) = \<lparr>sn_version = 2, sn_hash = replicate 64 97\<rparr>"
    by (simp add: sample_invoker_def)
  have finish: "finish_runtime_permit (sample_invoker writer) (Some (False, ())) Success w
      = (True, w\<lparr>lw_trace := lw_trace w @ [PermitFinished Success]\<rparr>)"
    by (simp add: finish_runtime_permit_def sample_invoker_def)
  show ?thesis
    unfolding settle_answer_def answer snapshot finish
    by (simp add: cost usage args sample_completed_event bind_llm_def lift_error_def llm_sink_events llm_adoption_def
        duration_ms_def) (simp add: sample_inputs_def)
qed

lemma sample_invocation:
  assumes "aw_reserve writer 0 (Started llm_started) llm_context w = (Inr RESERVED_NEW, w1)"
  shows "invoke (sample_invoker writer) sample_inputs llm_sample_request sample_identity sample_operation 100 (PyInt 1) Inr
       \<lparr>lw_audit = w, lw_control = (), lw_trace = []\<rparr>
     = (Inr (lit ''ok'', llm_adoption), \<lparr>lw_audit = w1, lw_control = (),
          lw_trace = [PermitAcquired, GatewayCalled sent_request w1, PermitFinished Success]\<rparr>)"
proof -
  have acquire: "acquire_runtime_permit (sample_invoker writer) (sample_identity\<lparr>ci_event_id := Some 7\<rparr>) n lease
      \<lparr>lw_audit = w, lw_control = (), lw_trace = []\<rparr>
     = (Inr (Some (False, ())), \<lparr>lw_audit = w, lw_control = (), lw_trace = [PermitAcquired]\<rparr>)" for n lease
    using sample_choices(1) by (simp add: acquire_runtime_permit_def sample_invoker_def sample_identity_def)
  have inputs: "in_event_id sample_inputs = 7" "in_clock_before sample_inputs = 2" by (simp_all add: sample_inputs_def)
  have transport: "new_transport_policy (Some 5) (Some 97) (Some 97) (PyInt 1)
      = Inr \<lparr>connect_timeout = 5, read_timeout = 97, total_timeout = 97, max_attempts = 1\<rparr>"
    by (simp add: new_transport_policy_def require_positive_finite_def require_positive_integer_def)
  have gateway: "gateway_generate (iv_registry (sample_invoker writer)) sent_request (iv_target (sample_invoker writer)) t
      = Inr (LlmAnswer sample_answer)" for t
    by (simp add: gateway_generate_def sample_invoker_def sample_target_def sample_answer_def sent_request_def llm_sample_request_def)
  show ?thesis
    unfolding invoke_def Let_def inputs sample_prepared
    using sample_reserve_call [OF assms]
    by (simp add: acquire call_gateway_def transport gateway sample_settled min_def)
qed

lemma sample_adopted:
  assumes "writer (Completed llm_completed) w = (Inr COMPLETED_NEW, w1)"
  shows "\<exists>a. adopt_in_transaction writer llm_adoption w = (Inr (), a, w1)"
  using assms llm_completed_valid
  by (simp add: adopt_in_transaction_def llm_adoption_def complete_attempt_sync_def validate_scope_def llm_scope_def llm_sink_def
      new_event_sink_def settle_complete_def issue_adopt_permit_def completion_can_be_adopted_def new_complete_decision_def
      consume_def consume_adopt_def Let_def del: event_payload.simps)

end
