(* ===== verification/AuditedLlmProperties.thy ===== *)
theory AuditedLlmProperties
  imports AuditedLlmSamples
begin

text \<open>
  What an invocation of the language model guarantees: the provider is asked at most once and only under a durable
  reservation of the worst case, the runtime permit is given back exactly once on every path, and every call that
  was sent ends in an adoptable answer, a durable completion, or an explicit audit failure.
\<close>

section \<open>Built events\<close>

lemma correlation_parts:
  "read_correlation d = Some c \<Longrightarrow> fld d ''event_id'' uuid_field = Some (cc_event_id c)
     \<and> fld d ''organization_id'' uuid_field = Some (cc_organization_id c)
     \<and> fld d ''business_operation_id'' uuid_field = Some (cc_operation_id c)"
  by (auto simp: read_correlation_def bind_eq_Some_conv)

lemma started_event_of_ok:
  assumes "started_event_of new_id i snapshot policy body_hash input_tokens output_tokens cost began half = Inr e"
  obtains s where "e = Started s" "valid_event e" "cc_event_id (st_call s) = new_id" "st_attempt_no s = ci_attempt_no i"
    "st_input_tokens s = input_tokens" "st_output_tokens s = output_tokens" "st_cost s = Microunits (Some USD) cost"
    "cc_organization_id (st_call s) = ci_organization_id i" "cc_operation_id (st_call s) = ci_operation_id i"
proof -
  let ?d = "started_document new_id i snapshot policy body_hash input_tokens output_tokens cost began half"
  obtain e' where e': "read_event 2 ?d = Some e'"
    "(case e' of Started _ \<Rightarrow> Inr e' | _ \<Rightarrow> Inl (InvocationError ''AI_EVENT_BUILD_FAILED'')) = Inr e"
    using assms by (auto simp: started_event_of_def validate_ai_call_event_v2_def)
  then obtain s where e: "e = Started s" and read: "read_event 2 ?d = Some (Started s)" by (cases e') auto
  have "read_started 2 ?d = Some s"
    using read by (auto simp: read_event_def started_document_def)
  note fields = this [unfolded read_started_iff]
  have one: "fld ?d ''provider_attempt_no'' positive_field = Some (st_attempt_no s)"
    "fld ?d ''reserved_input_tokens'' count_field = Some (st_input_tokens s)"
    "fld ?d ''reserved_output_tokens'' count_field = Some (st_output_tokens s)"
    "read_reserved_cost 2 ?d = Some (st_cost s)" "read_correlation ?d = Some (st_call s)"
    using fields by blast+
  have number: "count_field (PyInt n) = Some m \<longleftrightarrow> m = n \<and> 0 \<le> n \<and> n \<le> max_safe_integer" for n m
    by (auto simp: count_field_def safe_integer_def)
  have "st_attempt_no s = ci_attempt_no i" using one(1)
    by (auto simp: fld_def started_document_def positive_field_def number split: option.splits if_splits)
  moreover have "st_input_tokens s = input_tokens" "st_output_tokens s = output_tokens" using one(2,3)
    by (auto simp: fld_def started_document_def number)
  moreover have "st_cost s = Microunits (Some USD) cost" using one(4)
    by (auto simp: read_reserved_cost_def fld_def started_document_def number null_field_def text_field_def value_in_def
        currencies_def bind_eq_Some_conv)
  moreover have "cc_event_id (st_call s) = new_id" "cc_organization_id (st_call s) = ci_organization_id i"
    "cc_operation_id (st_call s) = ci_operation_id i" using correlation_parts [OF one(5)]
    by (auto simp: fld_def started_document_def text_field_def uuid_text.read_render)
  moreover have "valid_event e" using read_valid [OF read] e by simp
  ultimately show thesis using that e by blast
qed

lemma completed_event_of_ok:
  assumes "completed_event_of i snapshot a = Inr e"
  obtains c where "e = Completed c" "valid_event e" "ci_event_id i = Some (cc_event_id (co_call c))"
    "value_in completed_statuses (lit (ca_status a)) = Some (co_status c)" "co_input_tokens c = ca_input_tokens a"
    "co_output_tokens c = ca_output_tokens a" "co_cost c = Some (Some USD, ca_cost a)"
proof -
  obtain new_id where i: "ci_event_id i = Some new_id"
    using assms by (auto simp: completed_event_of_def split: option.splits)
  let ?d = "completed_document new_id i snapshot a"
  obtain e' where e': "read_event 2 ?d = Some e'"
    "(case e' of Completed _ \<Rightarrow> Inr e' | _ \<Rightarrow> Inl (InvocationError ''AI_EVENT_BUILD_FAILED'')) = Inr e"
    using assms by (auto simp: completed_event_of_def i validate_ai_call_event_v2_def)
  then obtain c where e: "e = Completed c" and read: "read_event 2 ?d = Some (Completed c)" by (cases e') auto
  have "read_completed 2 ?d = Some c"
    using read by (auto simp: read_event_def completed_document_def)
  note fields = this [unfolded read_completed_iff]
  have one: "fld ?d ''status'' (choice completed_statuses) = Some (co_status c)"
    "fld ?d ''input_tokens'' (null_field count_field) = Some (co_input_tokens c)"
    "fld ?d ''output_tokens'' (null_field count_field) = Some (co_output_tokens c)"
    "read_actual_cost 2 ?d = Some (co_cost c)" "read_correlation ?d = Some (co_call c)"
    using fields by blast+
  have number: "null_field count_field (opt_int n) = Some m \<Longrightarrow> m = n" for n m
    by (cases n) (auto simp: null_field_def opt_int_def null_value_def count_field_def safe_integer_def split: if_splits)
  have "value_in completed_statuses (lit (ca_status a)) = Some (co_status c)"
    using one(1) by (simp add: fld_def completed_document_def text_field_def)
  moreover have "co_input_tokens c = ca_input_tokens a" "co_output_tokens c = ca_output_tokens a" using one(2,3)
    by (auto simp: fld_def completed_document_def dest: number)
  moreover have "co_cost c = Some (Some USD, ca_cost a)" using one(4)
    by (auto simp: read_actual_cost_def fld_def completed_document_def null_field_def text_field_def value_in_def
        currencies_def bind_eq_Some_conv dest: number [unfolded null_field_def])
  moreover have "new_id = cc_event_id (co_call c)" using correlation_parts [OF one(5)]
    by (auto simp: fld_def completed_document_def text_field_def uuid_text.read_render)
  moreover have "valid_event e" using read_valid [OF read] e by simp
  ultimately show thesis using that e i by blast
qed


section \<open>Reservations\<close>

text \<open>The started event that belongs to an invocation.\<close>

definition start_of_call :: "uuid \<Rightarrow> call_identity \<Rightarrow> attempt_reservation_v2 \<Rightarrow> started_event \<Rightarrow> bool" where
  "start_of_call new_id i reservation s \<longleftrightarrow>
     cc_event_id (st_call s) = new_id \<and> cc_organization_id (st_call s) = ci_organization_id i
     \<and> cc_operation_id (st_call s) = ci_operation_id i \<and> st_attempt_no s = ci_attempt_no i
     \<and> st_input_tokens s = res_input_tokens_v2 reservation \<and> st_output_tokens s = res_output_tokens_v2 reservation
     \<and> st_cost s = Microunits (Some USD) (res_cost_v2 reservation)"

text \<open>A sink that has sent the event of the scope and adopted nothing.\<close>

definition ready_to_settle :: "uuid \<Rightarrow> call_scope \<Rightarrow> event_sink \<Rightarrow> bool" where
  "ready_to_settle new_id scope sk \<longleftrightarrow> scope_event_id scope = new_id \<and> scope_owner scope = sk_owner sk
     \<and> scope_generation scope = sk_generation sk \<and> sk_sent sk new_id = Some scope \<and> sk_adopted sk = Map.empty"

lemma use_send_ok:
  assumes "use_send_permit p sk = (Inr u, p', sk')"
  shows "sk' = sk\<lparr>sk_sent := (sk_sent sk)(scope_event_id (pm_scope p) \<mapsto> pm_scope p)\<rparr>"
  using assms by (auto simp: consume_def consume_send_def permit_error_def split: if_splits sum.splits)

lemma create_scope_ok:
  assumes "create_call_scope factory event (new_event_sink owner) = (Inr scope, sk)"
  shows "scope_event_id scope = event_id_of event \<and> scope_owner scope = sk_owner sk
    \<and> scope_generation scope = sk_generation sk \<and> sk_adopted sk = Map.empty"
  using assms
  by (auto simp: create_call_scope_def new_event_sink_def Let_def split: sum.splits ai_call_event.splits)

lemma built_scope: "(case p of (r, sk) \<Rightarrow> bind_llm (lift_error r) (\<lambda>scope. Inr (e, scope, sk))) = Inr (e', scope', sk')
   \<longleftrightarrow> e' = e \<and> p = (Inr scope', sk')"
  by (cases p) auto

context durable_writer
begin

definition keeps :: "'w \<Rightarrow> 'w \<Rightarrow> bool" where
  "keeps w w' \<longleftrightarrow> (ok w \<longrightarrow> ok w' \<and> (\<forall>x. has w x \<longrightarrow> has w' x))"

definition writer :: "(nat \<Rightarrow> 'v) \<Rightarrow> (nat \<Rightarrow> 'v) \<Rightarrow> 'w audit_writer" where
  "writer ra ca = \<lparr>aw_reserve = \<lambda>n. reserve (ra n), aw_complete = \<lambda>n. closing (ca n)\<rparr>"

lemma keeps_refl [simp]: "keeps w w"
  by (simp add: keeps_def)

lemma keeps_trans: "keeps w w1 \<Longrightarrow> keeps w1 w2 \<Longrightarrow> keeps w w2"
  by (simp add: keeps_def)

lemma reserve_sync_keeps:
  assumes "reserve_attempt_sync (reserve v) event scope sk w = (d, sk', w')" "valid_event event"
  shows "keeps w w'" "same_uses sk sk'"
    "ok w \<Longrightarrow> permit_of d = Some p \<Longrightarrow> has w' event \<and> p = \<lparr>pm_scope = scope, pm_consumed = False\<rparr>"
proof -
  have "(keeps w w' \<and> same_uses sk sk') \<and>
      (ok w \<longrightarrow> permit_of d = Some p \<longrightarrow> has w' event \<and> p = \<lparr>pm_scope = scope, pm_consumed = False\<rparr>)" for p
    using assms
  proof (cases rule: reserve_attempt_syncE)
    case (answered s ctx st)
    then show ?thesis using reserve_keeps [OF _ answered(2)] reserve_records [of w s v ctx st w'] assms(2)
      by (auto simp: keeps_def)
  qed (use reserve_keeps in \<open>auto simp: keeps_def\<close>)
  then show "keeps w w'" "same_uses sk sk'"
    "ok w \<Longrightarrow> permit_of d = Some p \<Longrightarrow> has w' event \<and> p = \<lparr>pm_scope = scope, pm_consumed = False\<rparr>" by blast+
qed

lemma reserve_twice_keeps:
  assumes "reserve_twice (writer ra ca) event scope sk w = (d, sk', w')" "valid_event event"
  shows "keeps w w'" "same_uses sk sk'"
    "ok w \<Longrightarrow> permit_of d = Some p \<Longrightarrow> has w' event \<and> p = \<lparr>pm_scope = scope, pm_consumed = False\<rparr>"
proof -
  obtain d1 sk1 w1 where first: "reserve_attempt_sync (reserve (ra 0)) event scope sk w = (d1, sk1, w1)"
    by (cases "reserve_attempt_sync (reserve (ra 0)) event scope sk w") auto
  note one = reserve_sync_keeps [OF first assms(2)]
  consider (same) "(d, sk', w') = (d1, sk1, w1)"
    | (again) "reserve_attempt_sync (reserve (ra 1)) event scope sk1 w1 = (d, sk', w')"
  proof (cases "\<exists>q. d1 = Inr (RESERVE_UNKNOWN, q)")
    case True
    then show ?thesis using again assms(1) first by (auto simp: reserve_twice_def writer_def)
  next
    case False
    have "reserve_twice (writer ra ca) event scope sk w = (d1, sk1, w1)"
    proof (cases d1)
      case (Inr a)
      then obtain st q where "d1 = Inr (st, q)" "st \<noteq> RESERVE_UNKNOWN" using False by (cases a) auto
      then show ?thesis using first by (cases st) (simp_all add: reserve_twice_def writer_def)
    qed (use first in \<open>simp add: reserve_twice_def writer_def\<close>)
    then show ?thesis using same assms(1) by simp
  qed
  then have "(keeps w w' \<and> same_uses sk sk') \<and>
      (ok w \<longrightarrow> permit_of d = Some p \<longrightarrow> has w' event \<and> p = \<lparr>pm_scope = scope, pm_consumed = False\<rparr>)" for p
  proof cases
    case same
    then show ?thesis using one by simp
  next
    case again
    note two = reserve_sync_keeps [OF again assms(2)]
    show ?thesis using one(1,2) two keeps_trans [OF one(1) two(1)] by (auto simp: keeps_def same_uses_def)
  qed
  then show "keeps w w'" "same_uses sk sk'"
    "ok w \<Longrightarrow> permit_of d = Some p \<Longrightarrow> has w' event \<and> p = \<lparr>pm_scope = scope, pm_consumed = False\<rparr>" by blast+
qed

lemma reserve_call_facts:
  assumes "reserve_call v x i operation deadline body reservation half w = (r, w')" "iv_writer v = writer ra ca" "ok w"
  shows "keeps w w'"
    "r = Inr (sk, scope, remaining) \<Longrightarrow> (\<exists>s. has w' (Started s) \<and> start_of_call (in_event_id x) i reservation s)
       \<and> ready_to_settle (in_event_id x) scope sk \<and> 1 < remaining"
proof -
  let ?build = "bind_llm (started_event_of (in_event_id x) i (iv_snapshot v) (iv_policy v) (in_digest x body)
             (res_input_tokens_v2 reservation) (res_output_tokens_v2 reservation) (res_cost_v2 reservation)
             (in_started_at x) half) (\<lambda>started.
           bind_llm (lift_error (new_audit_limits_v2 (PyInt (lo_max_attempts operation)) (PyInt (lo_max_input_tokens operation))
             (PyInt (lo_max_output_tokens operation)) (PyInt (lo_max_total_tokens operation)) (Some USD)
             (PyInt (lo_max_cost operation)))) (\<lambda>limits.
           bind_llm (lift_error (new_sink_event started)) (\<lambda>event.
           case create_call_scope (\<lambda>_. new_reserve_context limits (Some deadline) (Some 1)) event (new_event_sink (in_owner x)) of
             (r, sk) \<Rightarrow> bind_llm (lift_error r) (\<lambda>scope. Inr (event, scope, sk)))))"
  have "keeps w w' \<and> (r = Inr (sk, scope, remaining) \<longrightarrow>
      (\<exists>s. has w' (Started s) \<and> start_of_call (in_event_id x) i reservation s)
       \<and> ready_to_settle (in_event_id x) scope sk \<and> 1 < remaining)"
  proof (cases ?build)
    case (Inl e)
    then show ?thesis using assms(1) by (auto simp: reserve_call_def)
  next
    case (Inr built)
    obtain event scope1 sk1 where built: "built = (event, scope1, sk1)" by (cases built) auto
    obtain started limits event' where started: "started_event_of (in_event_id x) i (iv_snapshot v) (iv_policy v) (in_digest x body)
             (res_input_tokens_v2 reservation) (res_output_tokens_v2 reservation) (res_cost_v2 reservation)
             (in_started_at x) half = Inr started"
      and sinks: "new_sink_event started = Inr event" "create_call_scope (\<lambda>_. new_reserve_context limits (Some deadline) (Some 1)) event
        (new_event_sink (in_owner x)) = (Inr scope1, sk1)"
      using Inr built by (auto simp: built_scope)
    obtain s where s: "started = Started s" "valid_event started" "start_of_call (in_event_id x) i reservation s"
      by (rule started_event_of_ok [OF started]) (simp add: start_of_call_def)
    have event: "event = Started s" using sinks(1) s by (simp add: new_sink_event_same)
    obtain d sk2 w2 where twice: "reserve_twice (iv_writer v) event scope1 sk1 w = (d, sk2, w2)"
      by (cases "reserve_twice (iv_writer v) event scope1 sk1 w") auto
    note facts = reserve_twice_keeps [OF twice [unfolded assms(2)], unfolded event, OF s(2) [unfolded s(1)]]
    note call = assms(1) [unfolded reserve_call_def Inr built, simplified, unfolded twice, simplified]
    have w': "w' = w2" using call by (auto split: sum.splits option.splits prod.splits if_splits)
    moreover have "(\<exists>s. has w' (Started s) \<and> start_of_call (in_event_id x) i reservation s)
       \<and> ready_to_settle (in_event_id x) scope sk \<and> 1 < remaining" if r: "r = Inr (sk, scope, remaining)"
    proof -
      obtain st p p' where d: "d = Inr (st, Some p)" and used: "use_send_permit p sk2 = (Inr (), p', sk)"
        and rest: "scope = scope1" "1 < remaining"
        using call r by (auto split: sum.splits option.splits prod.splits if_splits)
      have p: "p = \<lparr>pm_scope = scope1, pm_consumed = False\<rparr>" "has w2 (Started s)" using facts(3) [OF assms(3), of p] d by simp_all
      have "scope_event_id scope1 = in_event_id x" using create_scope_ok [OF sinks(2)] event s(3) by (simp add: start_of_call_def)
      then have "ready_to_settle (in_event_id x) scope sk"
        using use_send_ok [OF used] create_scope_ok [OF sinks(2)] facts(2) p(1) rest
        by (simp add: ready_to_settle_def same_uses_def)
      then show ?thesis using p(2) s(3) rest w' by blast
    qed
    ultimately show ?thesis using facts(1) by blast
  qed
  then show "keeps w w'" "r = Inr (sk, scope, remaining) \<Longrightarrow> (\<exists>s. has w' (Started s) \<and> start_of_call (in_event_id x) i reservation s)
       \<and> ready_to_settle (in_event_id x) scope sk \<and> 1 < remaining" by blast+
qed

end

section \<open>Permits and completions\<close>

text \<open>What finishing the runtime permit adds to the trace: nothing when there is no control.\<close>

definition released :: "('w, 'c, 'p) invoker \<Rightarrow> (bool \<times> 'p) option \<Rightarrow> runtime_outcome \<Rightarrow> 'w llm_act list" where
  "released v granted outcome =
     (case (granted, iv_control v) of (Some _, Some _) \<Rightarrow> [PermitFinished outcome] | _ \<Rightarrow> [])"

lemma finish_facts [simp]:
  "lw_audit (snd (finish_runtime_permit v granted outcome w)) = lw_audit w"
  "lw_trace (snd (finish_runtime_permit v granted outcome w)) = lw_trace w @ released v granted outcome"
  by (auto simp: finish_runtime_permit_def released_def split: option.split prod.split)

lemma finish_world:
  assumes "finish_runtime_permit v granted outcome w = (b, w')"
  shows "lw_audit w' = lw_audit w" "lw_trace w' = lw_trace w @ released v granted outcome"
  using finish_facts [of v granted outcome w] assms by simp_all

lemma acquire_facts:
  assumes "acquire_runtime_permit v i tokens lease w = (r, w')"
  shows "lw_audit w' = lw_audit w"
    "r = Inl e \<Longrightarrow> lw_trace w' = lw_trace w"
    "r = Inr granted \<Longrightarrow> lw_trace w' = lw_trace w @ (if iv_control v = None then [] else [PermitAcquired])
       \<and> (granted = None \<longleftrightarrow> iv_control v = None)"
  using assms by (auto simp: acquire_runtime_permit_def split: option.splits sum.splits prod.splits)

text \<open>Errors that stand for an audit that could not record the completion, and exceptions that escape.\<close>

definition audit_lost :: "llm_error \<Rightarrow> bool" where
  "audit_lost e \<longleftrightarrow> e \<in> {InvocationError ''AI_AUDIT_COMPLETION_UNAVAILABLE'', InvocationError ''AI_EVENT_BUILD_FAILED''}
     \<or> e \<in> range Escaped"

text \<open>The completion that an invocation built from its facts.\<close>

definition completion_of_call :: "uuid \<Rightarrow> completion_args \<Rightarrow> completed_event \<Rightarrow> bool" where
  "completion_of_call new_id a c \<longleftrightarrow> cc_event_id (co_call c) = new_id
     \<and> value_in completed_statuses (lit (ca_status a)) = Some (co_status c) \<and> co_input_tokens c = ca_input_tokens a
     \<and> co_output_tokens c = ca_output_tokens a \<and> co_cost c = Some (Some USD, ca_cost a)"

lemma completed_event_error:
  "completed_event_of i snapshot a = Inl e \<Longrightarrow> audit_lost e"
  by (auto simp: completed_event_of_def bind_llm_def lift_error_def audit_lost_def
      split: option.splits sum.splits ai_call_event.splits)

lemma complete_sync_written:
  assumes "complete_attempt_sync writer (Completed c) scope sk w = (d, sk', w')" "valid_event (Completed c)"
  shows "w' = w \<or> (\<exists>r. writer (Completed c) w = (r, w'))" "d = Inr (st, p) \<Longrightarrow> writer (Completed c) w = (Inr st, w')"
proof -
  have settled: "settle_complete event scope st1 sk = (Inr (st', p'), sk1) \<Longrightarrow> st1 = st'" for st' p' event st1 sk1
    by (auto simp: settle_complete_def new_complete_decision_def Let_def split: if_splits prod.splits)
  show "w' = w \<or> (\<exists>r. writer (Completed c) w = (r, w'))" "d = Inr (st, p) \<Longrightarrow> writer (Completed c) w = (Inr st, w')"
    using assms
    by (auto simp: complete_attempt_sync_def simp del: event_payload.simps dest: settled split: sum.splits prod.splits)
qed

context durable_writer
begin

lemma complete_sync_keeps:
  assumes "complete_attempt_sync (closing v) (Completed c) scope sk w = (d, sk', w')" "valid_event (Completed c)"
  shows "keeps w w'" "ok w \<Longrightarrow> d = Inr (st, p) \<Longrightarrow> st \<in> {COMPLETED_NEW, COMPLETE_REPLAYED} \<Longrightarrow> has w' (Completed c)"
  using complete_sync_written [OF assms] closing_keeps closing_records [OF _ assms(2)] by (auto simp: keeps_def)

lemma joined_sync_records:
  assumes "complete_attempt_sync (joined v) (Completed c) scope sk w = (Inr (COMPLETED_NEW, p), sk', w')"
    "valid_event (Completed c)" "ok w"
  shows "has w' (Completed c)"
  using complete_sync_written(2) [OF assms(1,2) refl] joined_records [OF assms(3,2)] by auto

lemma complete_without_adoption_facts:
  assumes "complete_without_adoption (writer ra ca) sk scope (Completed c) w = (r, w')" "valid_event (Completed c)" "ok w"
  shows "keeps w w'" "r = Inr () \<Longrightarrow> has w' (Completed c)" "r = Inl e \<Longrightarrow> audit_lost e"
proof -
  obtain d1 sk1 w1 where first: "complete_attempt_sync (closing (ca 0)) (Completed c) scope sk w = (d1, sk1, w1)"
    by (cases "complete_attempt_sync (closing (ca 0)) (Completed c) scope sk w") auto
  obtain d2 sk2 w2 where second: "complete_attempt_sync (closing (ca 1)) (Completed c) scope sk1 w1 = (d2, sk2, w2)"
    by (cases "complete_attempt_sync (closing (ca 1)) (Completed c) scope sk1 w1") auto
  note one = complete_sync_keeps [OF first assms(2)] and two = complete_sync_keeps [OF second assms(2)]
  have same: "new_sink_event (Completed c) = Inr (Completed c)" using new_sink_event_same [OF assms(2)] by simp
  have "ok w1" using one(1) assms(3) by (simp add: keeps_def)
  then have "keeps w w' \<and> (r = Inr () \<longrightarrow> has w' (Completed c)) \<and> (\<forall>e. r = Inl e \<longrightarrow> audit_lost e)"
    using assms(1) first second one(1) two(1) one(2) [OF assms(3)] two(2) keeps_trans [OF one(1) two(1)]
    unfolding complete_without_adoption_def same writer_def
    by (auto simp: llm_check_def audit_lost_def split: sum.splits complete_status.splits if_splits prod.splits)
  then show "keeps w w'" "r = Inr () \<Longrightarrow> has w' (Completed c)" "r = Inl e \<Longrightarrow> audit_lost e" by blast+
qed

lemma close_call_facts:
  assumes "close_call v i sk scope a e w = (r, w')" "iv_writer v = writer ra ca" "ok (lw_audit w)" "ci_event_id i = Some new_id"
  shows "keeps (lw_audit w) (lw_audit w')" "lw_trace w' = lw_trace w"
    "\<exists>e'. r = Inl e' \<and> (audit_lost e' \<or> (e' = e \<and> (\<exists>c. completion_of_call new_id a c \<and> has (lw_audit w') (Completed c))))"
proof -
  have "keeps (lw_audit w) (lw_audit w') \<and> lw_trace w' = lw_trace w \<and>
     (\<exists>e'. r = Inl e' \<and> (audit_lost e' \<or> (e' = e \<and> (\<exists>c. completion_of_call new_id a c \<and> has (lw_audit w') (Completed c)))))"
  proof (cases "completed_event_of i (iv_snapshot v) a")
    case (Inl e')
    then show ?thesis using assms(1) completed_event_error by (auto simp: close_call_def)
  next
    case (Inr completed)
    obtain c where c: "completed = Completed c" "valid_event (Completed c)" "completion_of_call new_id a c"
      by (rule completed_event_of_ok [OF Inr]) (simp add: assms(4) completion_of_call_def)
    obtain q db where q: "complete_without_adoption (writer ra ca) sk scope (Completed c) (lw_audit w) = (q, db)"
      by (cases "complete_without_adoption (writer ra ca) sk scope (Completed c) (lw_audit w)")
    note facts = complete_without_adoption_facts [OF q c(2) assms(3)]
    show ?thesis using assms(1) Inr q facts c by (cases q) (auto simp: close_call_def assms(2))
  qed
  then show "keeps (lw_audit w) (lw_audit w')" "lw_trace w' = lw_trace w"
    "\<exists>e'. r = Inl e' \<and> (audit_lost e' \<or> (e' = e \<and> (\<exists>c. completion_of_call new_id a c \<and> has (lw_audit w') (Completed c))))"
    by blast+
qed

end

section \<open>Outcomes\<close>

lemma status_texts [simp]:
  "value_in completed_statuses (lit ''failed'') = Some CALL_FAILED"
  "value_in completed_statuses (lit ''rejected'') = Some CALL_REJECTED"
  "value_in completed_statuses (lit ''succeeded'') = Some CALL_SUCCEEDED"
  by (simp_all add: value_in_def choice_defs lit_def)

lemma request_cost_computes:
  "0 \<le> m \<Longrightarrow> 0 \<le> n \<Longrightarrow> \<exists>k. calculate_request_cost_microunits p (PyInt m) (PyInt n) = Inr k"
  by (auto simp: calculate_request_cost_microunits_def)

text \<open>A computation that can only fail with a \<open>ValueError\<close>, one construct of the code at a time.\<close>

definition value_errors :: "'a result \<Rightarrow> bool" where
  "value_errors r \<longleftrightarrow> (\<forall>e. r = Inl e \<longrightarrow> (\<exists>msg. e = ValueError msg))"

lemma value_errors_simps [simp]: "value_errors (Inl (ValueError msg))" "value_errors (Inr x)"
  by (simp_all add: value_errors_def)

lemma value_errors_bind: "value_errors r \<Longrightarrow> (\<And>x. value_errors (f x)) \<Longrightarrow> value_errors (bind_result r f)"
  by (cases r) (auto simp: value_errors_def)

lemma value_errors_guard: "value_errors r \<Longrightarrow> value_errors (guard bad msg r)"
  by (simp add: guard_def)

lemma value_errors_count: "value_errors (require_non_negative_integer name v)"
  by (simp add: require_non_negative_integer_def split: pyval.split)

lemma value_errors_counts: "value_errors (require_counts named)"
  unfolding require_counts_def
proof (induction named)
  case (Cons p named)
  have "value_errors (case p of (name, v) \<Rightarrow> bind_result (require_non_negative_integer name v) (\<lambda>_. Inr ()))"
    by (cases p) (simp add: value_errors_bind value_errors_count)
  then show ?case using Cons by (simp add: all_checks.simps value_errors_def split: sum.split)
qed (simp add: all_checks.simps)

lemma reconcile_value_errors: "value_errors (reconcile_actual_usage_v2 p r i out total_t)"
  unfolding reconcile_actual_usage_v2_def calculate_request_cost_microunits_def new_reconciled_usage_v2_def
  by (intro value_errors_guard value_errors_bind value_errors_counts value_errors_count value_errors_simps)

lemma reconcile_refused: "reconcile_actual_usage_v2 p r i out total_t = Inl e \<Longrightarrow> \<exists>msg. e = ValueError msg"
  using reconcile_value_errors by (metis value_errors_def)

text \<open>What the audit holds of a call that was sent, whatever the invocation returns.\<close>

definition settled_answer :: "uuid \<Rightarrow> attempt_reservation_v2 \<Rightarrow> adoption \<Rightarrow> bool" where
  "settled_answer new_id reservation a \<longleftrightarrow> ready_to_settle new_id (an_scope a) (an_sink a) \<and> \<not> an_used a
     \<and> (\<exists>c m n k. an_success a = Completed c \<and> valid_event (Completed c) \<and> cc_event_id (co_call c) = new_id
        \<and> co_status c = CALL_SUCCEEDED \<and> co_input_tokens c = Some m \<and> 0 \<le> m \<and> m \<le> res_input_tokens_v2 reservation
        \<and> co_output_tokens c = Some n \<and> 0 \<le> n \<and> n \<le> res_output_tokens_v2 reservation
        \<and> co_cost c = Some (Some USD, Some k) \<and> 0 \<le> k \<and> k \<le> res_cost_v2 reservation)"

definition closed_as :: "('w \<Rightarrow> ai_call_event \<Rightarrow> bool) \<Rightarrow> 'w \<Rightarrow> uuid \<Rightarrow> call_status set \<Rightarrow> bool" where
  "closed_as has w new_id sts \<longleftrightarrow> (\<exists>c. has w (Completed c) \<and> cc_event_id (co_call c) = new_id \<and> co_status c \<in> sts)"

fun settled_outcome ::
  "('w \<Rightarrow> ai_call_event \<Rightarrow> bool) \<Rightarrow> uuid \<Rightarrow> attempt_reservation_v2 \<Rightarrow> llm_error + 'a \<times> adoption \<Rightarrow> 'w \<Rightarrow> bool" where
  "settled_outcome has new_id reservation (Inr (val, a)) w \<longleftrightarrow> settled_answer new_id reservation a"
| "settled_outcome has new_id reservation (Inl (OutputRejected code)) w \<longleftrightarrow> closed_as has w new_id {CALL_REJECTED}"
| "settled_outcome has new_id reservation (Inl e) w \<longleftrightarrow>
     audit_lost e \<or> closed_as has w new_id {CALL_FAILED, CALL_REJECTED}"

lemma settled_lost: "audit_lost e \<Longrightarrow> settled_outcome has new_id reservation (Inl e) w"
  by (cases e) (auto simp: audit_lost_def)

definition well_formed_result :: "llm_result \<Rightarrow> bool" where
  "well_formed_result r \<longleftrightarrow> (\<forall>n. ll_input_tokens r = Some n \<longrightarrow> 0 \<le> n) \<and> (\<forall>n. ll_output_tokens r = Some n \<longrightarrow> 0 \<le> n)"

lemma optional_usage_count: "optional_usage name v = Inr (Some n) \<Longrightarrow> 0 \<le> n"
  by (auto simp: optional_usage_def split: pyval.splits if_splits)

lemma constructed_well_formed: "new_llm_result trace target out i n sha = Inr r \<Longrightarrow> well_formed_result r"
  by (cases out) (auto simp: new_llm_result_def well_formed_result_def optional_usage_count)

text \<open>Adapters return what the contracts construct.\<close>

definition honest_adapters :: "(pystr \<rightharpoonup> llm_adapter) \<Rightarrow> bool" where
  "honest_adapters registry \<longleftrightarrow> (\<forall>name adapter request target policy r. registry name = Some adapter
     \<longrightarrow> adapter request target policy = AdapterReturns (LlmAnswer r) \<longrightarrow> well_formed_result r)"

lemma gateway_answer:
  "gateway_generate registry request target policy = Inr (LlmAnswer r) \<Longrightarrow> honest_adapters registry \<Longrightarrow> well_formed_result r"
  by (auto simp: gateway_generate_def honest_adapters_def split: option.splits adapter_reply.splits llm_outcome.splits if_splits)

lemma transport_for_rest:
  "0 < remaining \<Longrightarrow> \<exists>t. new_transport_policy (Some (min 5 remaining)) (Some remaining) (Some remaining) (PyInt 1) = Inr t"
  by (simp add: new_transport_policy_def require_positive_finite_def require_positive_integer_def)

context durable_writer
begin

definition settles :: "uuid \<Rightarrow> attempt_reservation_v2 \<Rightarrow> ('w, 'c) llm_world \<Rightarrow> llm_error + 'a \<times> adoption \<Rightarrow> ('w, 'c) llm_world \<Rightarrow> bool" where
  "settles new_id reservation w r w' \<longleftrightarrow>
     keeps (lw_audit w) (lw_audit w') \<and> settled_outcome has new_id reservation r (lw_audit w')"

text \<open>A failing end of the call, after the permit was finished.\<close>

lemma close_call_settles:
  assumes "close_call v i sk scope a e w1 = (r, w')" "iv_writer v = writer ra ca" "ok (lw_audit w)" "ci_event_id i = Some new_id"
    "lw_audit w1 = lw_audit w" "e = OutputRejected code \<and> ca_status a = ''rejected'' \<or>
       e = InvocationError code \<and> ca_status a \<in> {''failed'', ''rejected''}"
  shows "settles new_id reservation w r w' \<and> lw_trace w' = lw_trace w1"
proof -
  note facts = close_call_facts [OF assms(1,2) _ assms(4), unfolded assms(5), OF assms(3)]
  obtain e' where e': "r = Inl e'"
    "audit_lost e' \<or> (e' = e \<and> (\<exists>c. completion_of_call new_id a c \<and> has (lw_audit w') (Completed c)))"
    using facts(3) by blast
  have closed: "closed_as has (lw_audit w') new_id {st}"
    if "value_in completed_statuses (lit (ca_status a)) = Some st" "\<not> audit_lost e'" for st
    using e'(2) that by (auto simp: completion_of_call_def closed_as_def)
  have "settled_outcome has new_id reservation r (lw_audit w')"
  proof (cases "audit_lost e'")
    case False
    then have "e' = e" using e'(2) by blast
    then show ?thesis using assms(6) closed [OF _ False] e'(1) by (auto simp: closed_as_def)
  qed (use e'(1) settled_lost in simp)
  then show ?thesis using facts by (simp add: settles_def assms(5))
qed

lemma settle_answer_settles:
  assumes "settle_answer v x i validate pricing reservation granted sk scope r w = (q, w')"
    "iv_writer v = writer ra ca" "ok (lw_audit w)" "ci_event_id i = Some new_id"
    "well_formed_result r" "ready_to_settle new_id scope sk"
  shows "settles new_id reservation w q w' \<and> (\<exists>outcome. lw_trace w' = lw_trace w @ released v granted outcome)"
proof (cases "ll_input_tokens r = None \<or> ll_output_tokens r = None \<or> ll_body_sha256 r = None")
  case True
  then have "close_call v i sk scope (because ''invalid_response'' ''AI_USAGE_UNAVAILABLE'' (answered_args x ''failed'' r))
      (InvocationError ''AI_USAGE_UNAVAILABLE'') (snd (finish_runtime_permit v granted Neutral w)) = (q, w')"
    using assms(1) by (auto simp: settle_answer_def split: option.splits)
  from close_call_settles [OF this assms(2-4)] show ?thesis by (auto simp: because_def answered_args_def)
next
  case False
  then obtain m n hash where answer: "ll_input_tokens r = Some m" "ll_output_tokens r = Some n" "ll_body_sha256 r = Some hash" by auto
  then have counts: "0 \<le> m" "0 \<le> n" using assms(5) by (simp_all add: well_formed_result_def)
  obtain reported where reported: "calculate_request_cost_microunits pricing (PyInt m) (PyInt n) = Inr reported"
    using request_cost_computes [OF counts] by blast
  let ?usage = "reconcile_actual_usage_v2 pricing reservation (PyInt m) (PyInt n) (PyInt (m + n))"
  note call = assms(1) [unfolded settle_answer_def answer option.case prod.case reported sum.case]
  show ?thesis
  proof (cases ?usage)
    case (Inl e)
    then obtain msg where "?usage = Inl (ValueError msg)" using reconcile_refused by blast
    then have "close_call v i sk scope ((because ''invalid_response'' ''AI_USAGE_EXCEEDS_RESERVATION''
                   (answered_args x ''rejected'' r))\<lparr>ca_cost := Some reported\<rparr>)
                 (InvocationError ''AI_USAGE_EXCEEDS_RESERVATION'') (snd (finish_runtime_permit v granted Neutral w)) = (q, w')"
      using call by simp
    from close_call_settles [OF this assms(2-4)] show ?thesis by (auto simp: because_def answered_args_def)
  next
    case (Inr usage)
    obtain b w1 where finished: "finish_runtime_permit v granted Success w = (b, w1)"
      by (cases "finish_runtime_permit v granted Success w")
    note world = finish_world [OF finished]
    have ok1: "ok (lw_audit w1)" using world assms(3) by simp
    note call = call [unfolded Inr sum.case finished prod.case]
    show ?thesis
    proof (cases b)
      case False
      then have "close_call v i sk scope ((because ''transient'' ''AI_RUNTIME_CONTROL_UNAVAILABLE''
                   (answered_args x ''failed'' r))\<lparr>ca_cost := Some (used_cost_v2 usage)\<rparr>)
                 (InvocationError ''AI_RUNTIME_CONTROL_UNAVAILABLE'') w1 = (q, w')"
        using call by simp
      from close_call_settles [OF this assms(2-4)] world show ?thesis by (auto simp: because_def answered_args_def)
    next
      case True
      then have b: "b = True" by simp
      show ?thesis
      proof (cases "validate (ll_output r)")
        case (Inl e)
        show ?thesis
        proof (cases "\<exists>msg. e = ValueError msg")
          case True
          then have "close_call v i sk scope ((because ''invalid_response'' ''AI_STRUCTURED_OUTPUT_INVALID''
                   (answered_args x ''rejected'' r))\<lparr>ca_cost := Some (used_cost_v2 usage)\<rparr>)
                 (OutputRejected ''AI_STRUCTURED_OUTPUT_INVALID'') w1 = (q, w')"
            using call Inl b by auto
          from close_call_settles [OF this assms(2-4)] world show ?thesis by (auto simp: because_def answered_args_def)
        next
          case False
          then have "q = Inl (Escaped e)" "w' = w1" using call Inl b by (auto split: py_error.splits)
          then show ?thesis using world by (auto simp: settles_def audit_lost_def)
        qed
      next
        case (Inr val)
        have w': "w' = w1" using call Inr b by simp
        have "settled_outcome has new_id reservation q (lw_audit w')"
        proof (cases q)
          case (Inl e)
          then have "audit_lost e" using call Inr b completed_event_error
            by (auto simp: bind_llm_def lift_error_def audit_lost_def split: sum.splits)
          then show ?thesis using Inl by (simp add: settled_lost)
        next
          case (Inr answered)
          then obtain success event where success: "completed_event_of i (iv_snapshot v)
                ((answered_args x ''succeeded'' r)\<lparr>ca_cost := Some (used_cost_v2 usage)\<rparr>) = Inr success"
              "new_sink_event success = Inr event"
            and answered: "answered = (val, \<lparr>an_sink = sk, an_scope = scope, an_success = event,
                  an_facts = \<lparr>cf_output_hash = hash, cf_input_tokens = m, cf_output_tokens = n,
                    cf_duration_ms = duration_ms x, cf_cost = used_cost_v2 usage\<rparr>,
                  an_identity = i, an_snapshot = iv_snapshot v, an_used = False\<rparr>)"
            using call b \<open>validate (ll_output r) = Inr val\<close> by auto
          obtain c where c: "success = Completed c" "valid_event (Completed c)"
            "completion_of_call new_id ((answered_args x ''succeeded'' r)\<lparr>ca_cost := Some (used_cost_v2 usage)\<rparr>) c"
            by (rule completed_event_of_ok [OF success(1)]) (simp add: assms(4) completion_of_call_def)
          have event: "event = Completed c" using success(2) c by (simp add: new_sink_event_same)
          show ?thesis using Inr answered event c assms(6) counts answer \<open>?usage = Inr usage\<close> reconcile_v2_iff
            by (auto simp: settled_answer_def completion_of_call_def answered_args_def Let_def)
        qed
        then show ?thesis using world w' by (auto simp: settles_def)
      qed
    qed
  qed
qed

lemma call_gateway_settles:
  assumes "call_gateway v x i validate pricing reservation granted request sk scope remaining w = (r, w')"
    "iv_writer v = writer ra ca" "ok (lw_audit w)" "ci_event_id i = Some new_id" "honest_adapters (iv_registry v)"
    "ready_to_settle new_id scope sk" "1 < remaining"
  shows "settles new_id reservation w r w' \<and>
    (\<exists>outcome. lw_trace w' = lw_trace w @ GatewayCalled request (lw_audit w) # released v granted outcome)"
proof -
  obtain transport where transport:
    "new_transport_policy (Some (min 5 remaining)) (Some remaining) (Some remaining) (PyInt 1) = Inr transport"
    using transport_for_rest [of remaining] assms(7) by auto
  let ?w = "w\<lparr>lw_trace := lw_trace w @ [GatewayCalled request (lw_audit w)]\<rparr>"
  have ok: "ok (lw_audit ?w)" using assms(3) by simp
  have lift: "settles new_id reservation ?w r w' \<longleftrightarrow> settles new_id reservation w r w'" by (simp add: settles_def)
  note call = assms(1) [unfolded call_gateway_def transport sum.case Let_def]
  show ?thesis
  proof (cases "gateway_generate (iv_registry v) request (iv_target v) transport")
    case (Inl problem)
    have "close_call v i sk scope (because ''provider_configuration_error'' ''AI_GATEWAY_FAILURE'' (failed_args x))
       (InvocationError ''AI_GATEWAY_FAILURE'') (snd (finish_runtime_permit v granted
         (case problem of GatewayAdapterFailed _ \<Rightarrow> TransientFailure | _ \<Rightarrow> Neutral) ?w)) = (r, w')"
      using call Inl by simp
    from close_call_settles [OF this assms(2) ok assms(4)]
    have "settles new_id reservation ?w r w' \<and> (\<exists>outcome. lw_trace w' = lw_trace ?w @ released v granted outcome)"
      by (auto simp: because_def failed_args_def)
    then show ?thesis unfolding lift by simp
  next
    case (Inr outcome)
    show ?thesis
    proof (cases outcome)
      case (LlmFailure e)
      have "close_call v i sk scope ((failed_args x)\<lparr>ca_http_status := ee_status_code e,
                 ca_category := Some (event_category_of (ee_category e)),
                 ca_safe_error := Some (lit (safe_error_of (ee_category e)))\<rparr>)
               (InvocationError (safe_error_of (ee_category e)))
               (snd (finish_runtime_permit v granted
                 (if error_disposition e = DISPOSE_TRANSIENT then TransientFailure else Neutral) ?w)) = (r, w')"
        using call Inr LlmFailure by simp
      from close_call_settles [OF this assms(2) ok assms(4)]
      have "settles new_id reservation ?w r w' \<and> (\<exists>outcome. lw_trace w' = lw_trace ?w @ released v granted outcome)"
        by (auto simp: failed_args_def)
      then show ?thesis unfolding lift by simp
    next
      case (LlmAnswer answer)
      have "well_formed_result answer" using gateway_answer Inr LlmAnswer assms(5) by blast
      then have "settles new_id reservation ?w r w' \<and> (\<exists>outcome. lw_trace w' = lw_trace ?w @ released v granted outcome)"
        using call Inr LlmAnswer by (intro settle_answer_settles [OF _ assms(2) ok assms(4) _ assms(6)]) simp_all
      then show ?thesis unfolding lift by simp
    qed
  qed
qed

text \<open>What an invocation adds to the trace of the world.\<close>

lemma invoke_facts:
  assumes "invoke v x request identity operation deadline slots validate w = (r, w')"
    "iv_writer v = writer ra ca" "ok (lw_audit w)" "honest_adapters (iv_registry v)"
  obtains (refused) e where "r = Inl e" "keeps (lw_audit w) (lw_audit w')" "lw_trace w' = lw_trace w"
  | (unsent) e where "r = Inl e" "keeps (lw_audit w) (lw_audit w')"
      "lw_trace w' = lw_trace w @ (if iv_control v = None then [] else [PermitAcquired, PermitFinished Neutral])"
  | (sent) request' body pricing reservation s db outcome where
      "prepare_call v x request (identity\<lparr>ci_event_id := Some (in_event_id x)\<rparr>) operation slots
         = Inr (request', body, pricing, reservation)"
      "keeps (lw_audit w) db" "has db (Started s)"
      "start_of_call (in_event_id x) (identity\<lparr>ci_event_id := Some (in_event_id x)\<rparr>) reservation s"
      "keeps db (lw_audit w')" "settled_outcome has (in_event_id x) reservation r (lw_audit w')"
      "lw_trace w' = lw_trace w @ (if iv_control v = None then [GatewayCalled request' db]
         else [PermitAcquired, GatewayCalled request' db, PermitFinished outcome])"
proof -
  let ?i = "identity\<lparr>ci_event_id := Some (in_event_id x)\<rparr>"
  note call = assms(1) [unfolded invoke_def Let_def]
  show thesis
  proof (cases "prepare_call v x request ?i operation slots")
    case (Inl e)
    then show thesis using call by (intro refused) auto
  next
    case (Inr prepared)
    obtain request' body pricing reservation where prepared: "prepared = (request', body, pricing, reservation)"
      by (cases prepared) auto
    note call = call [unfolded Inr prepared, simplified]
    show thesis
    proof (cases "deadline - in_clock_before x \<le> 1")
      case True
      then show thesis using call by (intro refused) auto
    next
      case False
      let ?acquire = "acquire_runtime_permit v ?i (res_input_tokens_v2 reservation + res_output_tokens_v2 reservation)
          (deadline - in_clock_before x) w"
      obtain q w1 where acquired: "?acquire = (q, w1)" by (cases ?acquire)
      note world = acquire_facts [OF acquired]
      note call = call [unfolded acquired, simplified False, simplified]
      show thesis
      proof (cases q)
        case (Inl e)
        then show thesis using call world False by (intro refused) auto
      next
        case (Inr granted)
        have granted: "lw_trace w1 = lw_trace w @ (if iv_control v = None then [] else [PermitAcquired])"
          "granted = None \<longleftrightarrow> iv_control v = None" using world(3) [OF Inr] by simp_all
        have releases: "released v granted outcome = (if iv_control v = None then [] else [PermitFinished outcome])" for outcome
          using granted(2) by (auto simp: released_def split: option.split)
        let ?reserve = "reserve_call v x ?i operation deadline body reservation (map_option fst granted) (lw_audit w1)"
        obtain q' db where reserved: "?reserve = (q', db)" by (cases ?reserve)
        have ok1: "ok (lw_audit w1)" using world(1) assms(3) by simp
        note facts = reserve_call_facts [OF reserved assms(2) ok1]
        show thesis
        proof (cases q')
          case (Inl e)
          then show thesis using call world granted releases facts(1) reserved \<open>q = Inr granted\<close> False
            by (intro unsent [of e]) auto
        next
          case (Inr ready)
          obtain sk scope remaining where ready: "ready = (sk, scope, remaining)" by (cases ready) auto
          obtain s where s: "has db (Started s)" "start_of_call (in_event_id x) ?i reservation s"
            and sink: "ready_to_settle (in_event_id x) scope sk" "1 < remaining"
            using facts(2) Inr ready by blast
          have "call_gateway v x ?i validate pricing reservation granted request' sk scope remaining (w1\<lparr>lw_audit := db\<rparr>) = (r, w')"
            using call reserved Inr ready \<open>q = Inr granted\<close> False by simp
          from call_gateway_settles [OF this assms(2) _ _ assms(4) sink]
          obtain outcome where "settles (in_event_id x) reservation (w1\<lparr>lw_audit := db\<rparr>) r w'"
            "lw_trace w' = lw_trace w1 @ GatewayCalled request' db # released v granted outcome"
            using facts(1) ok1 by (auto simp: keeps_def)
          then show thesis
            using s granted releases facts(1) world(1) \<open>prepare_call v x request ?i operation slots = Inr prepared\<close> prepared
            by (intro sent [of request' body pricing reservation db s outcome]) (auto simp: settles_def)
        qed
      qed
    qed
  qed
qed

end

section \<open>The audit among other processes\<close>

text \<open>What other processes did to the tables before a transaction, and the transaction.\<close>

type_synonym interleaved = "audit_call list \<times> transaction_env"

definition shared_reserve ::
  "(string \<Rightarrow> nat list) \<Rightarrow> referenced \<Rightarrow> interleaved \<Rightarrow> ai_call_event \<Rightarrow> reserve_context \<Rightarrow> audit_rows
   \<Rightarrow> reserve_status result \<times> audit_rows" where
  "shared_reserve digest refs v e ctx db = service_reserve (snd v) e ctx (audit_run digest refs (fst v) db)"

definition shared_complete ::
  "(string \<Rightarrow> nat list) \<Rightarrow> referenced \<Rightarrow> interleaved \<Rightarrow> ai_call_event \<Rightarrow> audit_rows \<Rightarrow> complete_status result \<times> audit_rows" where
  "shared_complete digest refs v e db = service_complete (snd v) e (audit_run digest refs (fst v) db)"

definition shared_joined ::
  "(string \<Rightarrow> nat list) \<Rightarrow> referenced \<Rightarrow> interleaved \<Rightarrow> ai_call_event \<Rightarrow> audit_rows \<Rightarrow> complete_status result \<times> audit_rows" where
  "shared_joined digest refs v e db = joined_complete (snd v) e (audit_run digest refs (fst v) db)"

definition shared_writer ::
  "(string \<Rightarrow> nat list) \<Rightarrow> referenced \<Rightarrow> (nat \<Rightarrow> interleaved) \<Rightarrow> (nat \<Rightarrow> interleaved) \<Rightarrow> audit_rows audit_writer" where
  "shared_writer digest refs ra ca =
     \<lparr>aw_reserve = \<lambda>n. shared_reserve digest refs (ra n), aw_complete = \<lambda>n. shared_complete digest refs (ca n)\<rparr>"

lemma run_inv:
  assumes "audit_inv db"
  shows "audit_inv (audit_run digest refs calls db)"
    "event_recorded db e \<Longrightarrow> event_recorded (audit_run digest refs calls db) e"
  using assms audited.other_keeps
  by (induction calls arbitrary: db) (auto simp: audit_run_def)

interpretation shared: durable_writer "shared_reserve digest refs" "shared_complete digest refs" "shared_joined digest refs"
  "audit_step digest refs" event_recorded audit_inv for digest refs
proof
  fix w w' :: audit_rows and v e ctx and r :: "reserve_status result" and q :: "complete_status result" and y s c st st'
  assume inv: "audit_inv w"
  note run = run_inv [OF inv, where digest = digest and refs = refs and calls = "fst v"]
  show "audit_inv w' \<and> (\<forall>x. event_recorded w x \<longrightarrow> event_recorded w' x)" if "shared_reserve digest refs v e ctx w = (r, w')"
    using audited.reserve_keeps [OF run(1) that [unfolded shared_reserve_def]] run(2) by blast
  show "audit_inv w' \<and> (\<forall>x. event_recorded w x \<longrightarrow> event_recorded w' x)" if "shared_complete digest refs v e w = (q, w')"
    using audited.closing_keeps [OF run(1) that [unfolded shared_complete_def]] run(2) by blast
  show "audit_inv w' \<and> (\<forall>x. event_recorded w x \<longrightarrow> event_recorded w' x)" if "shared_joined digest refs v e w = (q, w')"
    using audited.joined_keeps [OF run(1) that [unfolded shared_joined_def]] run(2) by blast
  show "audit_inv (audit_step digest refs y w) \<and> (\<forall>x. event_recorded w x \<longrightarrow> event_recorded (audit_step digest refs y w) x)"
    using audited.other_keeps [OF inv] .
  show "event_recorded w' (Started s)" if "valid_event (Started s)"
    "shared_reserve digest refs v (Started s) ctx w = (Inr st, w')" "st \<in> {RESERVED_NEW, RESERVE_REPLAYED}"
    using audited.reserve_records [OF run(1) that(1) that(2) [unfolded shared_reserve_def] that(3)] .
  show "event_recorded w' (Completed c)" if "valid_event (Completed c)"
    "shared_complete digest refs v (Completed c) w = (Inr st', w')" "st' \<in> {COMPLETED_NEW, COMPLETE_REPLAYED}"
    using audited.closing_records [OF run(1) that(1) that(2) [unfolded shared_complete_def] that(3)] .
  show "event_recorded w' (Completed c)" if "valid_event (Completed c)"
    "shared_joined digest refs v (Completed c) w = (Inr st', w')" "st' \<in> {COMPLETED_NEW, COMPLETE_REPLAYED}"
    using audited.joined_records [OF run(1) that(1) that(2) [unfolded shared_joined_def] that(3)] .
qed

lemma shared_writer_is: "shared_writer digest refs ra ca = shared.writer digest refs ra ca"
  by (simp add: shared_writer_def shared.writer_def)

text \<open>The facts of an invocation against the audit, from an empty trace.\<close>

definition llm_start :: "audit_rows \<Rightarrow> 'c \<Rightarrow> (audit_rows, 'c) llm_world" where
  "llm_start db c = \<lparr>lw_audit = db, lw_control = c, lw_trace = []\<rparr>"

lemma prepare_call_ok:
  assumes "prepare_call v x request i operation slots = Inr (request', body, pricing, reservation)"
  shows "in_body x request' = Some body" "res_input_tokens_v2 reservation = int (length body) + 4096"
    "res_output_tokens_v2 reservation = lo_max_output_tokens operation"
    "0 \<le> res_cost_v2 reservation" "res_cost_v2 reservation \<le> lo_max_cost operation"
proof -
  have "new_budget_profile_v2 (PyInt a) (PyInt i) (PyInt out) (PyInt t) c (PyInt k) = Inr b \<Longrightarrow> max_cost_v2 b = k" for a i out t c k b
    by (auto simp: new_budget_profile_v2_def)
  moreover have "new_pricing_profile_v2 ver EXTERNAL_USD (Some USD) m n = Inr p \<Longrightarrow> pricing_currency p = Some USD" for ver m n p
    by (auto simp: new_pricing_profile_v2_def)
  ultimately have "in_body x request' = Some body \<and> res_input_tokens_v2 reservation = int (length body) + 4096
      \<and> res_output_tokens_v2 reservation = lo_max_output_tokens operation
      \<and> 0 \<le> res_cost_v2 reservation \<and> res_cost_v2 reservation \<le> lo_max_cost operation"
    using assms by (auto simp: prepare_call_def Let_def preflight_v2_iff new_reservation_v2_iff split: option.splits)
  then show "in_body x request' = Some body" "res_input_tokens_v2 reservation = int (length body) + 4096"
    "res_output_tokens_v2 reservation = lo_max_output_tokens operation"
    "0 \<le> res_cost_v2 reservation" "res_cost_v2 reservation \<le> lo_max_cost operation" by blast+
qed

lemma shared_invocation:
  assumes "honest_adapters (iv_registry v)"
    "invoke (v\<lparr>iv_writer := shared_writer digest refs ra ca\<rparr>) x request identity operation deadline slots validate
       (llm_start (audit_run digest refs calls no_rows) c) = (r, w')"
  obtains (unsent) e where "r = Inl e" "audit_inv (lw_audit w')"
      "lw_trace w' \<in> {[], [PermitAcquired, PermitFinished Neutral]}"
  | (sent) request' body reservation s db outcome where
      "in_body x request' = Some body" "res_input_tokens_v2 reservation = int (length body) + 4096"
      "res_output_tokens_v2 reservation = lo_max_output_tokens operation"
      "0 \<le> res_cost_v2 reservation" "res_cost_v2 reservation \<le> lo_max_cost operation"
      "event_recorded db (Started s)" "event_recorded (lw_audit w') (Started s)" "audit_inv (lw_audit w')"
      "start_of_call (in_event_id x) (identity\<lparr>ci_event_id := Some (in_event_id x)\<rparr>) reservation s"
      "settled_outcome event_recorded (in_event_id x) reservation r (lw_audit w')"
      "lw_trace w' = (if iv_control v = None then [GatewayCalled request' db]
         else [PermitAcquired, GatewayCalled request' db, PermitFinished outcome])"
proof -
  let ?v = "v\<lparr>iv_writer := shared_writer digest refs ra ca\<rparr>"
  have writer: "iv_writer ?v = shared.writer digest refs ra ca" by (simp add: shared_writer_is)
  have honest: "honest_adapters (iv_registry ?v)" using assms(1) by simp
  have start: "audit_inv (lw_audit (llm_start (audit_run digest refs calls no_rows) c))" by (simp add: llm_start_def)
  from assms(2) writer start honest show thesis
  proof (cases rule: shared.invoke_facts)
    case (refused e)
    then show thesis using start by (intro unsent) (auto simp: shared.keeps_def llm_start_def)
  next
    case (unsent e)
    then show thesis using start by (intro that(1)) (auto simp: shared.keeps_def llm_start_def)
  next
    case (sent request' body pricing reservation s db outcome)
    then show thesis using start prepare_call_ok [OF sent(1)]
      by (intro that(2) [of request' body reservation db s outcome]) (auto simp: shared.keeps_def llm_start_def)
  qed
qed

text \<open>The sample invocation against the audit.\<close>

abbreviation sample_refs :: referenced where
  "sample_refs \<equiv> \<lparr>known_organization = \<lambda>_. True, known_job = \<lambda>_. True\<rparr>"

abbreviation sample_writer :: "audit_rows audit_writer" where
  "sample_writer \<equiv> shared_writer (\<lambda>_. []) sample_refs (\<lambda>_. ([], sample_transaction 5 10)) (\<lambda>_. ([], sample_transaction 6 20))"

abbreviation sample_call_run :: "(llm_error + pystr \<times> adoption) \<times> (audit_rows, unit) llm_world" where
  "sample_call_run \<equiv> invoke ((sample_invoker sample_writer)\<lparr>iv_writer := sample_writer\<rparr>) sample_inputs llm_sample_request
     sample_identity sample_operation 100 (PyInt 1) Inr (llm_start (audit_run (\<lambda>_. []) sample_refs [] no_rows) ())"

abbreviation sample_call_end :: "(audit_rows, unit) llm_world" where
  "sample_call_end \<equiv> \<lparr>lw_audit = no_rows\<lparr>ad_events := [llm_row]\<rparr>, lw_control = (), lw_trace =
     [PermitAcquired, GatewayCalled sent_request (no_rows\<lparr>ad_events := [llm_row]\<rparr>), PermitFinished Success]\<rparr>"

lemma sample_call_runs: "sample_call_run = (Inr (lit ''ok'', llm_adoption), sample_call_end)"
proof -
  have "aw_reserve sample_writer 0 (Started llm_started) llm_context no_rows = (Inr RESERVED_NEW, no_rows\<lparr>ad_events := [llm_row]\<rparr>)"
    using llm_reserved by (simp add: shared_writer_def shared_reserve_def service_reserve_def sample_transaction_def
        llm_context_def in_transaction_def audit_run_def del: event_payload.simps)
  from sample_invocation [OF this] show ?thesis
    by (simp add: llm_start_def audit_run_def sample_invoker_def)
qed

lemma sample_honest: "honest_adapters (iv_registry (sample_invoker writer))"
  by (simp add: honest_adapters_def sample_invoker_def sample_answer_def well_formed_result_def)

text \<open>C11. Whatever other processes do to the audit meanwhile, commits that fail and replies that are lost included:
  an invocation asks the gateway at most once, between taking a permit of the shared runtime control and finishing
  it by exactly one call (the control may refuse that call, then the lease of the permit ends it), and when there is
  a control never without a permit; and when it asks, the started event
  of the call is already durable, under the new identifier and for the tenant, operation and attempt of the
  caller, with the length of the request plus a margin as input tokens, the output limit of the policy, and a
  worst-case price within the budget.\<close>

theorem gateway_call_is_reserved:
  assumes "honest_adapters (iv_registry v)"
  shows "case invoke (v\<lparr>iv_writer := shared_writer digest refs ra ca\<rparr>) x request identity operation deadline slots validate
       (llm_start (audit_run digest refs calls no_rows) c) of (r, w') \<Rightarrow>
     (lw_trace w' \<in> {[], [PermitAcquired, PermitFinished Neutral]}
       \<or> (\<exists>q db outcome. lw_trace w' = (if iv_control v = None then [GatewayCalled q db]
            else [PermitAcquired, GatewayCalled q db, PermitFinished outcome])))
     \<and> (\<forall>q db. GatewayCalled q db \<in> set (lw_trace w') \<longrightarrow> (\<exists>s body. in_body x q = Some body
          \<and> event_recorded db (Started s) \<and> cc_event_id (st_call s) = in_event_id x
          \<and> cc_organization_id (st_call s) = ci_organization_id identity
          \<and> cc_operation_id (st_call s) = ci_operation_id identity \<and> st_attempt_no s = ci_attempt_no identity
          \<and> st_input_tokens s = int (length body) + 4096 \<and> st_output_tokens s = lo_max_output_tokens operation
          \<and> (\<exists>n. st_cost s = Microunits (Some USD) n \<and> 0 \<le> n \<and> n \<le> lo_max_cost operation)))"
    (is "case ?run of (r, w') \<Rightarrow> ?P r w'")
proof -
  obtain r w' where run: "?run = (r, w')" by (cases ?run)
  have "?P r w'"
    using assms run
  proof (cases rule: shared_invocation)
    case (sent request' body reservation s db outcome)
    show ?thesis
    proof (intro conjI)
      show "\<forall>q db'. GatewayCalled q db' \<in> set (lw_trace w') \<longrightarrow> (\<exists>s body. in_body x q = Some body
          \<and> event_recorded db' (Started s) \<and> cc_event_id (st_call s) = in_event_id x
          \<and> cc_organization_id (st_call s) = ci_organization_id identity
          \<and> cc_operation_id (st_call s) = ci_operation_id identity \<and> st_attempt_no s = ci_attempt_no identity
          \<and> st_input_tokens s = int (length body) + 4096 \<and> st_output_tokens s = lo_max_output_tokens operation
          \<and> (\<exists>n. st_cost s = Microunits (Some USD) n \<and> 0 \<le> n \<and> n \<le> lo_max_cost operation))"
        using sent by (intro allI impI exI [of _ s] exI [of _ body]) (auto simp: start_of_call_def split: if_splits)
    qed (use sent in auto)
  qed auto
  then show ?thesis using run by simp
qed

theorem gateway_call_is_reserved_witness:
  "\<exists>s. event_recorded (no_rows\<lparr>ad_events := [llm_row]\<rparr>) (Started s) \<and> cc_event_id (st_call s) = 7
     \<and> st_input_tokens s = 4096"
  using gateway_call_is_reserved [where v = "sample_invoker sample_writer" and digest = "\<lambda>_. []" and refs = sample_refs
      and ra = "\<lambda>_. ([], sample_transaction 5 10)" and ca = "\<lambda>_. ([], sample_transaction 6 20)" and x = sample_inputs
      and request = llm_sample_request and identity = sample_identity and operation = sample_operation and deadline = 100
      and slots = "PyInt 1" and validate = Inr and calls = "[]" and c = "()",
      OF sample_honest, unfolded sample_call_runs]
  by (auto simp: sample_inputs_def)

text \<open>C12. Every call that was sent is settled: an answer is handed out only for a call that was sent, with a
  completion ready to be recorded that succeeded, within the tokens and the price that were reserved; a rejected
  output has a durable rejected completion; and any other failure has a durable failed or rejected completion,
  unless the error says that the audit could not take it or an exception escaped.\<close>

theorem sent_calls_are_settled:
  assumes "honest_adapters (iv_registry v)"
  shows "case invoke (v\<lparr>iv_writer := shared_writer digest refs ra ca\<rparr>) x request identity operation deadline slots validate
       (llm_start (audit_run digest refs calls no_rows) c) of (r, w') \<Rightarrow>
     (\<forall>p. r = Inr p \<longrightarrow> (\<exists>q db. GatewayCalled q db \<in> set (lw_trace w')))
     \<and> (\<forall>q db. GatewayCalled q db \<in> set (lw_trace w') \<longrightarrow> (case r of
          Inr (val, a) \<Rightarrow> \<exists>s e m n k l. event_recorded (lw_audit w') (Started s) \<and> an_success a = Completed e
            \<and> cc_event_id (st_call s) = in_event_id x \<and> cc_event_id (co_call e) = in_event_id x
            \<and> co_status e = CALL_SUCCEEDED
            \<and> co_input_tokens e = Some m \<and> m \<le> st_input_tokens s \<and> co_output_tokens e = Some n \<and> n \<le> st_output_tokens s
            \<and> st_cost s = Microunits (Some USD) l \<and> co_cost e = Some (Some USD, Some k) \<and> 0 \<le> k \<and> k \<le> l
        | Inl (OutputRejected code) \<Rightarrow> \<exists>e. event_recorded (lw_audit w') (Completed e)
            \<and> cc_event_id (co_call e) = in_event_id x \<and> co_status e = CALL_REJECTED
        | Inl (InvocationError code) \<Rightarrow> code \<in> {''AI_AUDIT_COMPLETION_UNAVAILABLE'', ''AI_EVENT_BUILD_FAILED''}
            \<or> (\<exists>e. event_recorded (lw_audit w') (Completed e) \<and> cc_event_id (co_call e) = in_event_id x
                 \<and> co_status e \<in> {CALL_FAILED, CALL_REJECTED})
        | Inl (Escaped e) \<Rightarrow> True))"
    (is "case ?run of (r, w') \<Rightarrow> ?P r w'")
proof -
  obtain r w' where run: "?run = (r, w')" by (cases ?run)
  have "?P r w'"
    using assms run
  proof (cases rule: shared_invocation)
    case (sent request' body reservation s db outcome)
    have "case r of
          Inr (val, a) \<Rightarrow> \<exists>s e m n k l. event_recorded (lw_audit w') (Started s) \<and> an_success a = Completed e
            \<and> cc_event_id (st_call s) = in_event_id x \<and> cc_event_id (co_call e) = in_event_id x
            \<and> co_status e = CALL_SUCCEEDED
            \<and> co_input_tokens e = Some m \<and> m \<le> st_input_tokens s \<and> co_output_tokens e = Some n \<and> n \<le> st_output_tokens s
            \<and> st_cost s = Microunits (Some USD) l \<and> co_cost e = Some (Some USD, Some k) \<and> 0 \<le> k \<and> k \<le> l
        | Inl (OutputRejected code) \<Rightarrow> \<exists>e. event_recorded (lw_audit w') (Completed e)
            \<and> cc_event_id (co_call e) = in_event_id x \<and> co_status e = CALL_REJECTED
        | Inl (InvocationError code) \<Rightarrow> code \<in> {''AI_AUDIT_COMPLETION_UNAVAILABLE'', ''AI_EVENT_BUILD_FAILED''}
            \<or> (\<exists>e. event_recorded (lw_audit w') (Completed e) \<and> cc_event_id (co_call e) = in_event_id x
                 \<and> co_status e \<in> {CALL_FAILED, CALL_REJECTED})
        | Inl (Escaped e) \<Rightarrow> True"
    proof (cases r)
      case (Inl e)
      then show ?thesis using sent(10) by (cases e) (auto simp: closed_as_def audit_lost_def)
    next
      case (Inr p)
      then show ?thesis using sent(7,9,10)
        by (cases p) (auto simp: settled_answer_def start_of_call_def intro!: exI [of _ s])
    qed
    moreover have "\<exists>q db. GatewayCalled q db \<in> set (lw_trace w')" using sent(11) by (auto split: if_splits)
    ultimately show ?thesis by blast
  qed auto
  then show ?thesis using run by simp
qed

theorem sent_calls_are_settled_witness:
  "\<exists>e. an_success llm_adoption = Completed e \<and> cc_event_id (co_call e) = 7 \<and> co_status e = CALL_SUCCEEDED"
  using sent_calls_are_settled [where v = "sample_invoker sample_writer" and digest = "\<lambda>_. []" and refs = sample_refs
      and ra = "\<lambda>_. ([], sample_transaction 5 10)" and ca = "\<lambda>_. ([], sample_transaction 6 20)" and x = sample_inputs
      and request = llm_sample_request and identity = sample_identity and operation = sample_operation and deadline = 100
      and slots = "PyInt 1" and validate = Inr and calls = "[]" and c = "()",
      OF sample_honest, unfolded sample_call_runs]
  by (auto simp: sample_inputs_def)

lemma adopt_ok:
  assumes "adopt_in_transaction writer a w = (Inr u, a', w')"
  obtains p sk where "complete_attempt_sync writer (an_success a) (an_scope a) (an_sink a) w = (Inr (COMPLETED_NEW, p), sk, w')"
    "an_used a'"
proof -
  obtain d sk w1 where d: "complete_attempt_sync writer (an_success a) (an_scope a) (an_sink a) w = (d, sk, w1)"
    by (cases "complete_attempt_sync writer (an_success a) (an_scope a) (an_sink a) w") auto
  then show thesis using assms that
    by (auto simp: adopt_in_transaction_def split: sum.splits option.splits prod.splits if_splits)
qed

lemma used_adoption:
  assumes "an_used a"
  shows "adopt_in_transaction writer a w = (Inl (InvocationError ''AI_ADOPTION_ALREADY_USED''), a, w)"
    "reject_in_transaction writer code ended a w = (Inl (InvocationError ''AI_ADOPTION_ALREADY_USED''), a, w)"
  using assms by (simp_all add: adopt_in_transaction_def reject_in_transaction_def)

text \<open>C15. When the answer of an invocation is adopted, whatever happened to the audit in between, its succeeded
  completion is recorded with the transaction of the caller, after its start; and once adopted it can be neither
  adopted nor rejected again, through any writer, without touching that writer's state.\<close>

theorem adopted_answer_is_final:
  assumes "honest_adapters (iv_registry v)"
  shows "case invoke (v\<lparr>iv_writer := shared_writer digest refs ra ca\<rparr>) x request identity operation deadline slots validate
       (llm_start (audit_run digest refs calls no_rows) c) of
     (Inl e, w') \<Rightarrow> True
   | (Inr (val, a), w') \<Rightarrow> (case adopt_in_transaction (shared_joined digest refs later) a (lw_audit w') of
        (Inl e, a', db) \<Rightarrow> True
      | (Inr u, a', db) \<Rightarrow>
          (\<exists>s. event_recorded db (Started s) \<and> cc_event_id (st_call s) = in_event_id x)
          \<and> (\<exists>e. event_recorded db (Completed e) \<and> an_success a = Completed e \<and> cc_event_id (co_call e) = in_event_id x
               \<and> co_status e = CALL_SUCCEEDED)
          \<and> adopt_in_transaction writer a' z = (Inl (InvocationError ''AI_ADOPTION_ALREADY_USED''), a', z)
          \<and> reject_in_transaction writer code ended a' z = (Inl (InvocationError ''AI_ADOPTION_ALREADY_USED''), a', z))"
    (is "case ?run of (Inl e, w') \<Rightarrow> True | (Inr (val, a), w') \<Rightarrow> ?P a w'")
proof -
  obtain r w' where run: "?run = (r, w')" by (cases ?run)
  have "?P a w'" if r: "r = Inr (val, a)" for val a
    using assms run
  proof (cases rule: shared_invocation)
    case (sent request' body reservation s db outcome)
    obtain e where e: "an_success a = Completed e" "valid_event (Completed e)" "cc_event_id (co_call e) = in_event_id x"
      "co_status e = CALL_SUCCEEDED" "\<not> an_used a"
      using sent(10) r by (auto simp: settled_answer_def)
    show ?thesis
    proof (cases "adopt_in_transaction (shared_joined digest refs later) a (lw_audit w')")
      case (fields q a' db')
      show ?thesis
      proof (cases q)
        case (Inr u)
        obtain p sk where call: "complete_attempt_sync (shared_joined digest refs later) (Completed e) (an_scope a) (an_sink a)
            (lw_audit w') = (Inr (COMPLETED_NEW, p), sk, db')" and used: "an_used a'"
          using adopt_ok [OF fields [unfolded Inr]] e(1) by auto
        have "event_recorded db' (Completed e)" by (rule shared.joined_sync_records [OF call e(2) sent(8)])
        then have completion: "\<exists>e. event_recorded db' (Completed e) \<and> an_success a = Completed e
            \<and> cc_event_id (co_call e) = in_event_id x \<and> co_status e = CALL_SUCCEEDED"
          using e(1,3,4) by (intro exI [of _ e]) simp
        have "event_recorded db' (Started s)"
          using complete_sync_written(1) [OF call e(2)] shared.joined_keeps [OF sent(8)] sent(7) by blast
        then have start: "\<exists>s. event_recorded db' (Started s) \<and> cc_event_id (st_call s) = in_event_id x"
          using sent(9) by (intro exI [of _ s]) (simp add: start_of_call_def)
        show ?thesis unfolding fields Inr prod.case sum.case by (intro conjI completion start used_adoption [OF used])
      qed (use fields in simp)
    qed
  qed (use r in auto)
  then show ?thesis using run by (auto split: sum.split prod.split)
qed

theorem adopted_answer_is_final_witness:
  "\<exists>e. event_recorded (no_rows\<lparr>ad_events := [llm_row, llm_completed_row]\<rparr>) (Completed e) \<and> cc_event_id (co_call e) = 7
     \<and> co_status e = CALL_SUCCEEDED"
proof -
  have joined: "shared_joined (\<lambda>_. []) sample_refs ([], sample_transaction 6 20) (Completed llm_completed) (no_rows\<lparr>ad_events := [llm_row]\<rparr>)
     = (Inr COMPLETED_NEW, no_rows\<lparr>ad_events := [llm_row, llm_completed_row]\<rparr>)"
    using llm_completion
    by (simp add: shared_joined_def joined_complete_def sample_transaction_def audit_run_def del: event_payload.simps)
  obtain a where a: "adopt_in_transaction (shared_joined (\<lambda>_. []) sample_refs ([], sample_transaction 6 20)) llm_adoption
      (no_rows\<lparr>ad_events := [llm_row]\<rparr>) = (Inr (), a, no_rows\<lparr>ad_events := [llm_row, llm_completed_row]\<rparr>)"
    using sample_adopted [where writer = "shared_joined (\<lambda>_. []) sample_refs ([], sample_transaction 6 20)", OF joined]
    by (elim exE)
  have "\<exists>e. event_recorded (no_rows\<lparr>ad_events := [llm_row, llm_completed_row]\<rparr>) (Completed e)
      \<and> an_success llm_adoption = Completed e \<and> cc_event_id (co_call e) = in_event_id sample_inputs
      \<and> co_status e = CALL_SUCCEEDED"
    using adopted_answer_is_final [where v = "sample_invoker sample_writer" and digest = "\<lambda>_. []" and refs = sample_refs
      and ra = "\<lambda>_. ([], sample_transaction 5 10)" and ca = "\<lambda>_. ([], sample_transaction 6 20)" and x = sample_inputs
      and request = llm_sample_request and identity = sample_identity and operation = sample_operation and deadline = 100
      and slots = "PyInt 1" and validate = Inr and calls = "[]" and c = "()" and later = "([], sample_transaction 6 20)"
      and writer = "\<lambda>_ z. (Inr COMPLETED_NEW, z)" and z = "()" ,
      OF sample_honest, unfolded sample_call_runs]
    by (simp only: prod.case sum.case llm_world.simps a)
  then show ?thesis by (auto simp: sample_inputs_def)
qed

section \<open>Usage that no event can hold\<close>

text \<open>A provider that reports more input tokens than an event can hold: the rejected completion cannot be built, the
  exception of the validation escapes and the audit gets no completion at all.\<close>

lemma oversized_completion:
  assumes "ci_event_id i = Some new_id" "ca_input_tokens a = Some m" "max_safe_integer < m"
  shows "completed_event_of i snapshot a = Inl (Escaped (ValueError ''AiCallEventV1 validation failed''))"
proof -
  let ?d = "completed_document new_id i snapshot a"
  have "fld ?d ''input_tokens'' (null_field count_field) = None"
    using assms(2,3) by (simp add: fld_def completed_document_def null_field_def opt_int_def null_value_def count_field_def
        safe_integer_def)
  then have none: "read_completed 2 ?d = None"
    using read_completed_iff [of 2 ?d] by (metis option.distinct(1) option.exhaust)
  have "map_of ?d ''event_type'' = Some (PyStr (lit ''ai.call.completed''))" by (simp add: completed_document_def)
  then have "read_event 2 ?d = None" using none by (simp add: read_event_def)
  then show ?thesis
    by (simp add: completed_event_of_def assms(1) validate_ai_call_event_v2_def or_event_error_def event_error_def
        bind_llm_def lift_error_def)
qed

lemma oversized_usage_is_not_recorded:
  assumes "ll_input_tokens r = Some m" "ll_output_tokens r = Some n" "ll_body_sha256 r = Some hash" "0 \<le> n"
    "max_safe_integer < m" "res_input_tokens_v2 reservation < m" "ci_event_id i = Some new_id"
  shows "\<exists>e w'. settle_answer v x i validate pricing reservation granted sk scope r w = (Inl (Escaped e), w')
    \<and> lw_audit w' = lw_audit w"
proof -
  have counts: "0 \<le> m" using assms(5) by (simp add: max_safe_integer_def)
  obtain reported where reported: "calculate_request_cost_microunits pricing (PyInt m) (PyInt n) = Inr reported"
    using request_cost_computes [OF counts assms(4)] by blast
  let ?usage = "reconcile_actual_usage_v2 pricing reservation (PyInt m) (PyInt n) (PyInt (m + n))"
  let ?a = "(because ''invalid_response'' ''AI_USAGE_EXCEEDS_RESERVATION''
      (answered_args x ''rejected'' r))\<lparr>ca_cost := Some reported\<rparr>"
  have refused: "\<not> is_ok ?usage" using assms(6) by (auto simp: is_ok_iff reconcile_v2_iff)
  then obtain e where "?usage = Inl e" by (cases ?usage) simp_all
  then obtain msg where usage: "?usage = Inl (ValueError msg)" using reconcile_refused by blast
  have "completed_event_of i (iv_snapshot v) ?a = Inl (Escaped (ValueError ''AiCallEventV1 validation failed''))"
    by (rule oversized_completion [OF assms(7) _ assms(5)]) (simp add: because_def answered_args_def assms(1))
  then show ?thesis
    using assms(1-3) reported usage by (simp add: settle_answer_def close_call_def)
qed

end
