(* ===== verification/LivePolicy.thy ===== *)
theory LivePolicy
  imports AuditedLlmProperties
begin

text \<open>
  \<open>ai/live_policy.py\<close>: the fixed limits of the live model calls, and what they leave room for. Every operation but
  one can make all its attempts at the largest size a request may have.
\<close>

section \<open>The limits\<close>

definition live_operation :: "int \<Rightarrow> int \<Rightarrow> int \<Rightarrow> int \<Rightarrow> int \<Rightarrow> int \<Rightarrow> int \<Rightarrow> operation_policy" where
  "live_operation time_s attempts repairs input_t output_t total_t cost =
     \<lparr>lo_deadline_seconds = time_s, lo_max_attempts = attempts, lo_max_repairs = repairs, lo_max_input_tokens = input_t,
      lo_max_output_tokens = output_t, lo_max_total_tokens = total_t, lo_max_cost = cost\<rparr>"

fun live_operations :: "call_type \<Rightarrow> operation_policy option" where
  "live_operations CONTRACT_FIELD_EXTRACTION = Some (live_operation 120 3 2 262144 2500 793932 250000)"
| "live_operations INVOICE_FIELD_EXTRACTION = Some (live_operation 60 3 2 262144 2500 793932 250000)"
| "live_operations RISK_EXPLANATION = Some (live_operation 60 3 2 131072 1600 397416 250000)"
| "live_operations RAG_ANSWER = Some (live_operation 90 3 2 131072 1800 398616 250000)"
| "live_operations REPORT_DRAFT = Some (live_operation 90 2 1 131072 3000 268144 250000)"
| "live_operations EMBEDDING_CALL = None"

definition live_llm_policy :: llm_policy where
  "live_llm_policy = \<lparr>lp_endpoint_id = lit ''minimax-global-api-v1'', lp_model_id = lit ''MiniMax-M3'',
     lp_model_version = lit ''minimax-m3-2026-06-01'', lp_context_window = 512000,
     lp_pricing_version = lit ''minimax-m3-paygo-2026-08-16-lte-512k'', lp_input_price = 300000, lp_output_price = 1200000,
     lp_temperature = 0, lp_top_p = 19 / 20\<rparr>"

text \<open>The limits that an invocation hands to the audit.\<close>

definition limits_of :: "operation_policy \<Rightarrow> audit_limits" where
  "limits_of o' = \<lparr>lim_attempts = lo_max_attempts o', lim_input_tokens = lo_max_input_tokens o',
     lim_output_tokens = lo_max_output_tokens o', lim_total_tokens = lo_max_total_tokens o',
     lim_cost = Microunits (Some USD) (lo_max_cost o')\<rparr>"

lemma limits_built:
  assumes "live_operations p = Some o'"
  shows "new_audit_limits_v2 (PyInt (lo_max_attempts o')) (PyInt (lo_max_input_tokens o')) (PyInt (lo_max_output_tokens o'))
     (PyInt (lo_max_total_tokens o')) (Some USD) (PyInt (lo_max_cost o')) = Inr (limits_of o')"
  using assms by (cases p) (auto simp: new_audit_limits_v2_def live_operation_def limits_of_def exact_count_def guard_def)

text \<open>A start within the size of a request, at the live price.\<close>

definition live_start :: "operation_policy \<Rightarrow> started_event \<Rightarrow> bool" where
  "live_start o' s \<longleftrightarrow> 0 \<le> st_input_tokens s \<and> st_input_tokens s \<le> lo_max_input_tokens o'
     \<and> 0 \<le> st_output_tokens s \<and> st_output_tokens s \<le> lo_max_output_tokens o'
     \<and> st_cost s = Microunits (Some USD) (request_cost EXTERNAL_USD (lp_input_price live_llm_policy)
          (lp_output_price live_llm_policy) (st_input_tokens s) (st_output_tokens s))"

lemma sum_at_most: "list_all (\<lambda>x. f x \<le> m) xs \<Longrightarrow> (\<Sum>x\<leftarrow>xs. f x) \<le> int (length xs) * m" for f :: "'a \<Rightarrow> int"
  by (induction xs) (auto simp: algebra_simps)

lemma attempts_times: "int n \<le> k \<Longrightarrow> 0 \<le> m \<Longrightarrow> k * m \<le> bound \<Longrightarrow> int n * m \<le> bound"
  using mult_right_mono [of "int n" k m] by linarith

lemma live_costs:
  assumes "live_operations p = Some o'" "live_start o' s"
  shows "cost_amount (st_cost s) \<le> request_cost EXTERNAL_USD 300000 1200000 (lo_max_input_tokens o') (lo_max_output_tokens o')"
  using assms request_cost_mono by (auto simp: live_start_def live_llm_policy_def)

text \<open>C35. Under the live policy every operation of a language model but the explanation of risks may use all its attempts, one more than
  its repairs, each at the largest input and output a request may have: no such sequence of starts is over the
  limits of the audit, and each fits the window of the model. The explanation of risks has too few tokens for
  three largest requests.\<close>

theorem live_limits_cover_attempts:
  assumes "live_operations p = Some o'" "p \<noteq> RISK_EXPLANATION"
    "list_all (live_start o') xs" "int (length xs) \<le> lo_max_attempts o'" "distinct (map st_attempt_no xs)"
  shows "within_limits (limits_of o') xs \<and> lo_max_attempts o' = lo_max_repairs o' + 1
    \<and> lo_max_input_tokens o' + lo_max_output_tokens o' \<le> lp_context_window live_llm_policy"
proof -
  let ?in = "lo_max_input_tokens o'" and ?out = "lo_max_output_tokens o'"
  let ?cost = "request_cost EXTERNAL_USD 300000 1200000 ?in ?out"
  have numbers: "0 \<le> ?in + ?out" "lo_max_attempts o' * (?in + ?out) \<le> lo_max_total_tokens o'" "0 \<le> ?cost"
    "lo_max_attempts o' * ?cost \<le> lo_max_cost o'" "lo_max_attempts o' = lo_max_repairs o' + 1"
    "?in + ?out \<le> lp_context_window live_llm_policy"
    using assms(1,2)
    by (cases p; auto simp: live_operation_def request_cost_def tokens_per_million_def live_llm_policy_def)+
  have "(\<Sum>s\<leftarrow>xs. st_input_tokens s + st_output_tokens s) \<le> int (length xs) * (?in + ?out)"
    using assms(3) by (intro sum_at_most) (auto simp: list_all_iff live_start_def intro!: add_mono)
  moreover have "(\<Sum>s\<leftarrow>xs. cost_amount (st_cost s)) \<le> int (length xs) * ?cost"
    using assms(3) live_costs [OF assms(1)] by (intro sum_at_most) (auto simp: list_all_iff)
  ultimately show ?thesis
    using assms(3-5) numbers attempts_times [OF assms(4) numbers(1,2)] attempts_times [OF assms(4) numbers(3,4)]
    by (auto simp: within_limits_def limits_of_def list_all_iff live_start_def)
qed

text \<open>Three starts of the largest size.\<close>

definition largest_starts :: "operation_policy \<Rightarrow> nat \<Rightarrow> started_event list" where
  "largest_starts o' n = map (\<lambda>k. (sample_started (lit ''answer''))\<lparr>st_attempt_no := int k + 1,
     st_input_tokens := lo_max_input_tokens o', st_output_tokens := lo_max_output_tokens o',
     st_cost := Microunits (Some USD) (request_cost EXTERNAL_USD 300000 1200000 (lo_max_input_tokens o') (lo_max_output_tokens o'))\<rparr>)
     [0..<n]"

theorem live_limits_cover_attempts_witness:
  "within_limits (limits_of (live_operation 90 2 1 131072 3000 268144 250000))
     (largest_starts (live_operation 90 2 1 131072 3000 268144 250000) 2)"
  using live_limits_cover_attempts [of REPORT_DRAFT "live_operation 90 2 1 131072 3000 268144 250000"
      "largest_starts (live_operation 90 2 1 131072 3000 268144 250000) 2"]
  by (simp add: largest_starts_def live_start_def live_operation_def live_llm_policy_def comp_def upt_rec)

lemma risk_explanations_do_not_fit:
  assumes "live_operations RISK_EXPLANATION = Some o'"
  shows "list_all (live_start o') (largest_starts o' 3) \<and> int (length (largest_starts o' 3)) = lo_max_attempts o'
     \<and> \<not> within_limits (limits_of o') (largest_starts o' 3)"
  using assms
  by (auto simp: largest_starts_def live_start_def live_operation_def live_llm_policy_def within_limits_def limits_of_def upt_rec)

end
