(* ===== verification/Spec2Isabelle.thy ===== *)
theory Spec2Isabelle
  imports JobProperties OfflinePreview ContractInvoiceMatching ContractEffectivity AiPricing StructuredRepair
    AiRuntimeProperties AuditSnapshotProperties AiCallAuditProperties AiRetry AiPolicyResolver LivePolicy
begin

text \<open>
  A verification library for the core of the FinAudit backend (\<open>backend/app\<close>): the asynchronous job
  runtime with its database rules and its transactional outbox, the pure decision functions of the
  audit (rule predicates, risk summary, offline preview, contract-invoice matching, effective contract
  terms), and the guards around calls to AI models (prices and budgets, shared rate limits and circuit
  breakers, routing and retries, validation and repair of answers, the durable record of every call, and the
  invocation that puts these together).

  How the program fits together. A service writes a job (\<open>async_jobs\<close>) and a dispatch event
  (\<open>outbox_events\<close>) in one transaction. The dispatcher claims the event, sends it to the broker and
  marks it published or failed. A worker that receives it claims the job, works through its steps
  (\<open>async_job_steps\<close>) under a lease of sixty seconds that heartbeats extend, and finishes it. A
  recovery process retries failed jobs and takes over jobs whose lease has run out. The rules that
  make this safe are in PL/pgSQL triggers and CHECK constraints of the Alembic migration 007; the
  repository \<open>repositories/job_runtime.py\<close> issues the statements. The audit itself is a set of pure
  functions over snapshots of contracts and invoices. A call to a model is admitted by the shared
  runtime control in Redis, reserved in the budget of its business operation, and its answer is cut
  down to one JSON object that a strict schema validates; an answer that fails may be repaired at
  most twice within the same budget. Before a call is sent its started event is reserved in the
  outbox, its completion follows the same way, and a maintenance process projects both onto the
  table \<open>ai_call_logs\<close> and closes calls whose outcome never came. The process that calls does so through
  an event sink whose permits let it send each recorded start once and use each answer once.

  Theories, in dependency order:

    \<^item> \<open>Prelude\<close>: results (\<open>py_error + 'a\<close>), Python strings as lists of code points, identifiers as
      128-bit words, and the interfaces as locales: \<open>ranking\<close> (a filtered, sorted selection),
      \<open>ranked_process\<close> (a process whose every step lowers a rank) and \<open>versioned_rows\<close> (rows whose
      every change raises a version).
    \<^item> \<open>PyDecimal\<close>, \<open>PyValue\<close>: Python's \<open>Decimal\<close> (comparison, sum in the default context, text) and
      the dynamically typed values the guards of the code inspect.
    \<^item> \<open>RulePredicates\<close>: \<open>audit/rule_predicates.py\<close>, the fifteen rule predicates with their guards.
    \<^item> \<open>RiskSummary\<close>: \<open>audit/risk_summary.py\<close>.
    \<^item> \<open>OfflinePreview\<close>: \<open>audit/offline_preview.py\<close>, from the facts to the preview and its risks;
      \<open>expected_statuses\<close> is its declarative rule table.
    \<^item> \<open>CanonicalText\<close>, \<open>Timestamps\<close>: texts that determine their value (identifiers, dates, decimals,
      instants), as instances of the locale \<open>canonical_text\<close>.
    \<^item> \<open>AuditSnapshot\<close>: \<open>audit/snapshot.py\<close>, the checked snapshot of an execution, the facts of its invoices and
      the merged preview; the readers of stored texts are instances of the locale \<open>canonical_text\<close>.
      \<open>AuditSnapshotProperties\<close>: its properties.
    \<^item> \<open>ContractInvoiceMatching\<close>: \<open>rules/contract_invoice_matching.py\<close>.
    \<^item> \<open>ContractEffectivity\<close>: \<open>services/contract_effectivity.py\<close>, freezing of field values and the projection
      of a contract's fields under its supplementary agreements.
    \<^item> \<open>AiPricing\<close>: \<open>ai/pricing.py\<close>, both versions of prices, budgets, preflight and reconciliation.
    \<^item> \<open>JsonText\<close>: Python's \<open>json.JSONDecoder\<close> with its hooks, on lists of code points.
    \<^item> \<open>StructuredOutput\<close>: \<open>ai/structured_output.py\<close>, from an answer to a validated object or to issues
      that are safe to show.
    \<^item> \<open>StructuredRepair\<close>: \<open>ai/structured_repair.py\<close>, the shared budget tracker and the repair loop.
    \<^item> \<open>AiRuntimeControl\<close>: \<open>ai/redis_runtime_control.py\<close>, both Lua scripts on keys with a time to live
      and the controller; \<open>AiRuntimeProperties\<close>: histories of its calls (\<open>runtime_run\<close>).
    \<^item> \<open>SqlLogic\<close>: SQL's three-valued logic; a CHECK passes unless it is false, an \<open>IF\<close> or a \<open>WHERE\<close>
      holds only if it is true.
    \<^item> \<open>JobTables\<close>: the job and step rows, their CHECK constraints, their row triggers
      (\<open>enforce_async_jobs_state_v1\<close>, \<open>enforce_async_job_steps_state_v1\<close>) and the constraint trigger
      checked at commit (\<open>enforce_job_step_consistency_v1\<close>).
    \<^item> \<open>Outbox\<close>: the outbox rows, their trigger and the dispatcher operations of the repository.
    \<^item> \<open>JobRuntime\<close>: claim, heartbeat, stage transition, completion and cancellation of
      \<open>JobRuntimeRepository\<close>, with retry and lease recovery of audit and report jobs. \<open>FileJobs\<close>: its calls on file,
      parse-version and knowledge jobs (claim, scan outcomes, retry, recovery) and the dispatcher's failure of a
      queued job. \<open>JobHistory\<close>: histories of all these calls on one job (\<open>job_call\<close>, \<open>job_history\<close>).
    \<^item> \<open>AiCallEvents\<close>, \<open>AiCallChain\<close>: \<open>ai/events.py\<close>, the strict schemas of the three events of a call (each
      field an instance of the locale \<open>field_codec\<close>), their replay and their chains.
    \<^item> \<open>AiCallAudit\<close>: \<open>repositories/ai_call_audit.py\<close> with the table \<open>ai_call_logs\<close>: reservation, completion,
      projection, reconciliation, summary.
    \<^item> \<open>AiCallHistory\<close>: histories of these calls (\<open>audit_run\<close>), and the life of a provider call as an abstract
      step machine (\<open>life_step\<close>) that they refine, by the locale \<open>simulation\<close>. \<open>AiCallSamples\<close>,
      \<open>AiCallAuditProperties\<close>: sample events and the properties.
    \<^item> \<open>AiCallSink\<close>: \<open>services/ai_call_audit.py\<close> (transactions whose commit may fail or lose its reply) and
      \<open>services/ai_call_event_sink.py\<close> with \<open>ai/event_sink.py\<close> (scopes and permits of one process).
      \<open>AiCallSinkProperties\<close>: histories of a sink among other processes (\<open>sink_run\<close>); what a sink needs
      of its writers is the locale \<open>durable_writer\<close>, interpreted for the call audit.
    \<^item> \<open>AiContracts\<close>: \<open>ai/contracts.py\<close>, \<open>ai/gateway.py\<close>, \<open>ai/routing.py\<close>; \<open>AiRetry\<close>:
      \<open>ai/retry_policy.py\<close> with the \<open>Retry-After\<close> header; \<open>AiPolicyResolver\<close>: \<open>ai/policy_resolver.py\<close>.
    \<^item> \<open>AuditedLlm\<close>: \<open>services/audited_llm.py\<close>, one invocation of a language model with its reservation, its
      runtime permit, its completion and the adoption of its answer. \<open>AuditedLlmSamples\<close> evaluates one;
      \<open>AuditedLlmProperties\<close> proves its lemmas in the context of \<open>durable_writer\<close>, which it interprets again
      for the call audit with other processes at work before every transaction (\<open>shared_writer\<close>).
    \<^item> \<open>LivePolicy\<close>: the limits and prices of \<open>ai/live_policy.py\<close> and what they leave room for.
    \<^item> \<open>JobProgress\<close>, \<open>JobProperties\<close>: lemmas on the steps of an attempt, and the properties of the
      job runtime.

  Modelling conventions. A value whose type the code checks at run time is a \<open>pyval\<close>; identifiers,
  enumerations and tuples that the code only passes on are typed. A raised exception is \<open>Inl\<close> of the
  exception with its message, an error of the database \<open>DbError\<close> with its SQLSTATE. Times are whole
  microseconds. \<open>uuid5\<close>, \<open>uuid4\<close>, \<open>gen_random_uuid\<close>, SHA-256 and the clock are arguments. One call of
  the repository is one transaction on the rows of one job, so a call returns the new rows or
  raises and leaves them; the locks of the code (\<open>FOR UPDATE\<close>) are what makes this the right grain.

  What the properties show. Job runtime: every history of calls keeps the constraints, the identity
  of the job and the agreement of job and steps, never exceeds the permitted attempts and never
  leaves a terminal state; a claim that another change has overtaken can do nothing; recovery
  touches a job only when lease and grace are over; heartbeats, stage transitions and completions
  under a current claim commit. Outbox: delivery ends after at most seventeen updates; a failure is
  either retried in its backoff window or dead-lettered together with its queued job. Audit: a
  preview of validated facts exists and has the statuses of the rule table; its risks are the
  violated rules; the ranked candidates do not depend on the order of the contracts; a contract's
  effective fields are those of the latest effective changes, in any order of the input. AI calls: a
  reservation is made exactly when it fits the budget, and actual costs never exceed it; concurrency
  limits and rates hold across processes; an accepted answer is the one object that the schema accepted; what a rejected answer reveals
  are names of the schema's own fields; repairs never overdraw the budget; the call log is
  the projection of the published events in every history, and reservations stay within their
  limits; a process asks a provider at most once per recorded start, under a permit that it finishes by
  exactly one call, settles every call it sent, and adopts an answer at most once, whatever commits fail
  and whatever other processes do; the routes of an accepted policy are complete and
  are the ones its rows name. Some theorems record behaviour that the code does not mean to have.

  Bounds. No definition of the program needs fuel; loops are structural recursions, folds over rows, or
  functions with a termination measure; the one more try after an unknown commit is spelled out. The JSON decoder counts its nesting down from Python's
  recursion limit, which is an argument. The
  bounds of the code itself (eight deliveries, sixty seconds of lease, fifteen of grace) are kept.

  Left out of what is modelled: the widths of the job tables' columns (a stage of more than 80 characters commits
  here and fails in PostgreSQL), the constraints of the business tables that a call on a job also writes, and the
  replies of the two Lua scripts that are lost after a script ran (a permit then stays held until its lease ends);
  levels of rate buckets and delays in seconds are exact where the code rounds floats.

  Not modelled yet: the services above the repositories other than the call audit and the invocation (their prompts and
  persistence), the adapters of the providers, the embedding policy, chunking, metrics and
  authentication. Not modelled at all: transports, object storage, document parsers and the web framework.
\<close>

end
